(* ===== verification/AM_Prelude.thy ===== *)
theory AM_Prelude
  imports Main "HOL-Library.Word"
begin

unbundle bit_operations_syntax

text \<open>
  Shared vocabulary of the development.

  \<^item> The C integer types of \<^verbatim>\<open>inc/appmemlib.h\<close> as words of their width.
  \<^item> Outcomes. A C function of the model returns a \<open>res\<close>: \<open>Inr\<close> its result, or \<open>Inl\<close> the
    reason why the C program has no defined result there (a failed \<open>AM_ASSERT\<close>, an access outside
    an object, and so on). The \<open>AM_RET_*\<close> codes are ordinary results.
  \<^item> Pointers to an object owned by the pointing structure.
  \<^item> Byte blocks: bounds-checked reads and writes of little-endian integers, \<^verbatim>\<open>memcpy\<close>.
\<close>

section \<open>Integer types\<close>

type_synonym UINT8 = "8 word"
type_synonym UINT16 = "16 word"
type_synonym UINT32 = "32 word"
type_synonym UINT64 = "64 word"
type_synonym bytes = "8 word list"

named_theorems mem_simps \<open>reads and writes of byte blocks\<close>
named_theorems res_simps \<open>when an outcome is a result or a fault\<close>

section \<open>Outcomes\<close>

datatype fault =
    AssertFail      \<comment> \<open>a failed \<open>AM_ASSERT\<close>: the user-mode build aborts\<close>
  | NullDeref
  | OutOfBounds     \<comment> \<open>an access outside the object a pointer points into\<close>
  | UseAfterFree
  | Uninit          \<comment> \<open>a value is used that was never written\<close>
  | DivByZero
  | BadCall         \<comment> \<open>a function pointer called through another function type\<close>
  | BadUnion        \<comment> \<open>a union read through a member other than the one stored\<close>
  | NoReturn        \<comment> \<open>a loop that does not end\<close>
  | Overflow        \<comment> \<open>a conversion to \<^verbatim>\<open>int\<close> of a number that does not fit\<close>
  | BadAlloc        \<comment> \<open>the exception of a failed \<^verbatim>\<open>new\<close>, which nothing catches\<close>

type_synonym 'a res = "fault + 'a"

definition bindr :: "'a res \<Rightarrow> ('a \<Rightarrow> 'b res) \<Rightarrow> 'b res" where
  "bindr m f = (case m of Inl e \<Rightarrow> Inl e | Inr x \<Rightarrow> f x)"

lemma bindr_Inl [simp]: "bindr (Inl e) f = Inl e"
  by (simp add: bindr_def)

lemma bindr_Inr [simp]: "bindr (Inr x) f = f x"
  by (simp add: bindr_def)

lemma bindr_cong [fundef_cong]:
  "m = m' \<Longrightarrow> (\<And>x. m' = Inr x \<Longrightarrow> f x = f' x) \<Longrightarrow> bindr m f = bindr m' f'"
  by (auto simp: bindr_def split: sum.splits)

lemma bindr_eq_Inr [res_simps]: "bindr m f = Inr y \<longleftrightarrow> (\<exists>x. m = Inr x \<and> f x = Inr y)"
  by (cases m) auto

lemma bindr_eq_Inl [res_simps]:
  "bindr m f = Inl e \<longleftrightarrow> m = Inl e \<or> (\<exists>x. m = Inr x \<and> f x = Inl e)"
  by (cases m) auto

lemma bindr_assoc: "bindr (bindr m f) g = bindr m (\<lambda>x. bindr (f x) g)"
  by (cases m) auto

text \<open>\<open>AM_ASSERT\<close> of the user-mode build (\<^verbatim>\<open>inc/appmemlib.h\<close>): \<^verbatim>\<open>assert\<close>, which aborts.\<close>

definition AM_ASSERT :: "bool \<Rightarrow> unit res" where
  "AM_ASSERT b = (if b then Inr () else Inl AssertFail)"

lemma AM_ASSERT_True [simp]: "AM_ASSERT True = Inr ()"
  by (simp add: AM_ASSERT_def)

lemma AM_ASSERT_False [simp]: "AM_ASSERT False = Inl AssertFail"
  by (simp add: AM_ASSERT_def)

lemma AM_ASSERT_Inr [res_simps]: "AM_ASSERT b = Inr u \<longleftrightarrow> b"
  by (simp add: AM_ASSERT_def)

section \<open>Owning pointers\<close>

datatype 'a ptr = Null | Live 'a | Dangling

fun deref :: "'a ptr \<Rightarrow> 'a res" where
  "deref Null = Inl NullDeref"
| "deref (Live x) = Inr x"
| "deref Dangling = Inl UseAfterFree"

lemma deref_Inr [res_simps]: "deref p = Inr x \<longleftrightarrow> p = Live x"
  by (cases p) auto

text \<open>
  What the allocator answers during one call: \<open>al i\<close> says whether the \<open>i\<close>-th allocation the call
  makes, in program order from 0, succeeds.
\<close>

type_synonym alloc = "nat \<Rightarrow> bool"

section \<open>Little-endian integers\<close>

fun le_enc :: "nat \<Rightarrow> 'a::len word \<Rightarrow> bytes" where
  "le_enc 0 w = []"
| "le_enc (Suc n) w = ucast w # le_enc n (drop_bit 8 w)"

fun le_dec :: "bytes \<Rightarrow> 'a::len word" where
  "le_dec [] = 0"
| "le_dec (b # bs) = ucast b OR push_bit 8 (le_dec bs)"

lemma length_le_enc [simp]: "length (le_enc n w) = n"
  by (induction n arbitrary: w) auto

lemma le_dec_enc_take_bit: "le_dec (le_enc n w) = take_bit (8 * n) (w :: 'a::len word)"
proof (induction n arbitrary: w)
  case 0
  show ?case by simp
next
  case (Suc n)
  have "ucast (ucast w :: UINT8) OR push_bit 8 (take_bit (8 * n) (drop_bit 8 w))
      = take_bit (8 * Suc n) w"
    by (rule bit_eqI) (auto simp: bit_simps possible_bit_def)
  with Suc show ?case by simp
qed

lemma le_dec_enc [simp]: "LENGTH('a) \<le> 8 * n \<Longrightarrow> le_dec (le_enc n w) = (w :: 'a::len word)"
  by (simp add: le_dec_enc_take_bit take_bit_word_eq_self)

lemma le_enc_dec: "8 * length bs \<le> LENGTH('a) \<Longrightarrow> le_enc (length bs) (le_dec bs :: 'a::len word) = bs"
proof (induction bs)
  case Nil
  show ?case by simp
next
  case (Cons b bs)
  have low: "ucast (ucast b OR push_bit 8 (le_dec bs) :: 'a word) = b"
    using Cons.prems by (intro bit_eqI) (auto simp: bit_simps possible_bit_def)
  have zero: "\<not> bit (le_dec bs :: 'a word) k" if "8 * length bs \<le> k" for k
    using that by (induction bs arbitrary: k) (auto simp: bit_simps possible_bit_def dest: bit_imp_le_length)
  have high: "drop_bit 8 (ucast b OR push_bit 8 (le_dec bs) :: 'a word) = le_dec bs"
    using Cons.prems zero
    by (intro bit_eqI) (auto simp: bit_simps possible_bit_def dest: bit_imp_le_length)
  have "le_enc (length bs) (le_dec bs :: 'a word) = bs"
    using Cons by simp
  then show ?case unfolding length_Cons le_dec.simps le_enc.simps low high by simp
qed

lemma le_enc_add: "le_enc (m + n) w = le_enc m w @ le_enc n (drop_bit (8 * m) w)"
  by (induction m arbitrary: w) (auto simp: drop_bit_drop_bit add.commute)

section \<open>Byte blocks\<close>

text \<open>
  A block is the bytes of one object from the address a pointer holds to the end of the object; an
  access is by byte offset into it.
\<close>

definition getb :: "bytes \<Rightarrow> nat \<Rightarrow> nat \<Rightarrow> bytes res" where
  "getb b off n = (if off + n \<le> length b then Inr (take n (drop off b)) else Inl OutOfBounds)"

definition putb :: "bytes \<Rightarrow> nat \<Rightarrow> bytes \<Rightarrow> bytes res" where
  "putb b off xs =
     (if off + length xs \<le> length b
      then Inr (take off b @ xs @ drop (off + length xs) b)
      else Inl OutOfBounds)"

definition rd :: "nat \<Rightarrow> bytes \<Rightarrow> nat \<Rightarrow> ('a::len word) res" where
  "rd n b off = bindr (getb b off n) (\<lambda>xs. Inr (le_dec xs))"

definition rd8 :: "bytes \<Rightarrow> nat \<Rightarrow> UINT8 res" where
  "rd8 b off = rd 1 b off"

definition rd16 :: "bytes \<Rightarrow> nat \<Rightarrow> UINT16 res" where
  "rd16 b off = rd 2 b off"

definition rd32 :: "bytes \<Rightarrow> nat \<Rightarrow> UINT32 res" where
  "rd32 b off = rd 4 b off"

definition rd64 :: "bytes \<Rightarrow> nat \<Rightarrow> UINT64 res" where
  "rd64 b off = rd 8 b off"

definition wr8 :: "bytes \<Rightarrow> nat \<Rightarrow> UINT8 \<Rightarrow> bytes res" where
  "wr8 b off v = putb b off (le_enc 1 v)"

definition wr16 :: "bytes \<Rightarrow> nat \<Rightarrow> UINT16 \<Rightarrow> bytes res" where
  "wr16 b off v = putb b off (le_enc 2 v)"

definition wr32 :: "bytes \<Rightarrow> nat \<Rightarrow> UINT32 \<Rightarrow> bytes res" where
  "wr32 b off v = putb b off (le_enc 4 v)"

definition wr64 :: "bytes \<Rightarrow> nat \<Rightarrow> UINT64 \<Rightarrow> bytes res" where
  "wr64 b off v = putb b off (le_enc 8 v)"

text \<open>\<open>memcpy (dst + doff, src + soff, n)\<close> between two objects: the destination afterwards.\<close>

definition memcpy :: "bytes \<Rightarrow> nat \<Rightarrow> bytes \<Rightarrow> nat \<Rightarrow> nat \<Rightarrow> bytes res" where
  "memcpy dst doff src soff n = bindr (getb src soff n) (\<lambda>xs. putb dst doff xs)"

lemma getb_Inr [res_simps]:
  "getb b off n = Inr xs \<longleftrightarrow> off + n \<le> length b \<and> xs = take n (drop off b)"
  by (auto simp: getb_def)

lemma putb_Inr [res_simps]:
  "putb b off xs = Inr b' \<longleftrightarrow>
     off + length xs \<le> length b \<and> b' = take off b @ xs @ drop (off + length xs) b"
  by (auto simp: putb_def)

lemma length_putb: "putb b off xs = Inr b' \<Longrightarrow> length b' = length b"
  by (auto simp: putb_Inr)

lemma getb_putb_same [mem_simps]:
  "putb b off xs = Inr b' \<Longrightarrow> n = length xs \<Longrightarrow> getb b' off n = Inr xs"
  by (auto simp: res_simps)

lemma nth_putb:
  "putb b off xs = Inr b' \<Longrightarrow> i < length b \<Longrightarrow>
     b' ! i = (if off \<le> i \<and> i < off + length xs then xs ! (i - off) else b ! i)"
  by (auto simp: putb_Inr nth_append)

lemma getb_putb_other [mem_simps]:
  assumes "putb b off xs = Inr b'" and "off' + n \<le> off \<or> off + length xs \<le> off'"
  shows "getb b' off' n = getb b off' n"
proof (cases "off' + n \<le> length b")
  case True
  have "take n (drop off' b') = take n (drop off' b)"
    using assms(2) True nth_putb [OF assms(1)] length_putb [OF assms(1)]
    by (intro nth_equalityI) auto
  with True show ?thesis by (simp add: getb_def length_putb [OF assms(1)])
next
  case False
  then show ?thesis by (simp add: getb_def length_putb [OF assms(1)])
qed

lemma rd_putb_same [mem_simps]:
  "putb b off (le_enc n w) = Inr b' \<Longrightarrow> LENGTH('a) \<le> 8 * n \<Longrightarrow> rd n b' off = Inr (w :: 'a::len word)"
  by (simp add: rd_def getb_putb_same)

lemma rd_putb_other [mem_simps]:
  "putb b off xs = Inr b' \<Longrightarrow> off' + n \<le> off \<or> off + length xs \<le> off' \<Longrightarrow> rd n b' off' = rd n b off'"
  by (simp add: rd_def getb_putb_other)

lemmas rd_defs = rd8_def rd16_def rd32_def rd64_def
lemmas wr_defs = wr8_def wr16_def wr32_def wr64_def

lemma rd_Inr [res_simps]: "rd n b off = Inr w \<longleftrightarrow> off + n \<le> length b \<and> w = le_dec (take n (drop off b))"
  by (auto simp: rd_def res_simps)

lemma rd_in_bounds: "off + n \<le> length b \<Longrightarrow> rd n b off = Inr (le_dec (take n (drop off b)))"
  by (simp add: rd_Inr)

lemma rd_out_of_bounds: "\<not> off + n \<le> length b \<Longrightarrow> rd n b off = Inl OutOfBounds"
  by (simp add: rd_def getb_def)

lemma putb_in_bounds:
  "off + length xs \<le> length b \<Longrightarrow> putb b off xs = Inr (take off b @ xs @ drop (off + length xs) b)"
  by (simp add: putb_Inr)

lemma putb_out_of_bounds: "\<not> off + length xs \<le> length b \<Longrightarrow> putb b off xs = Inl OutOfBounds"
  by (simp add: putb_def)

lemma getb_append1: "off + n \<le> length xs \<Longrightarrow> getb (xs @ ys) off n = getb xs off n"
  by (simp add: getb_def)

lemma getb_append2: "length xs \<le> off \<Longrightarrow> getb (xs @ ys) off n = getb ys (off - length xs) n"
  by (simp add: getb_def) linarith

lemma rd_append1: "off + n \<le> length xs \<Longrightarrow> rd n (xs @ ys) off = rd n xs off"
  by (simp add: rd_def getb_append1)

lemma rd_append2: "length xs \<le> off \<Longrightarrow> rd n (xs @ ys) off = rd n ys (off - length xs)"
  by (simp add: rd_def getb_append2)

lemma rd_le_enc: "LENGTH('a) \<le> 8 * n \<Longrightarrow> rd n (le_enc n w) 0 = Inr (w :: 'a::len word)"
  by (simp add: rd_def getb_def)

lemma rd_byte: "rd (Suc 0) (x # xs) 0 = Inr (x :: UINT8)"
  by (simp add: rd_def getb_def)

lemma rd_Cons: "0 < off \<Longrightarrow> rd n (x # xs) off = rd n xs (off - 1)"
  by (cases off) (simp_all add: rd_def getb_def)

lemmas rd_enc = rd_append1 rd_append2 rd_le_enc rd_byte rd_Cons

section \<open>Arrays of 32-bit words in a byte block\<close>

definition enc_words :: "UINT32 list \<Rightarrow> bytes" where
  "enc_words ws = concat (map (le_enc 4) ws)"

fun rd_words :: "nat \<Rightarrow> bytes \<Rightarrow> nat \<Rightarrow> UINT32 list res" where
  "rd_words 0 b off = Inr []"
| "rd_words (Suc k) b off =
     bindr (rd32 b off) (\<lambda>w. bindr (rd_words k b (off + 4)) (\<lambda>ws. Inr (w # ws)))"

lemma length_enc_words [simp]: "length (enc_words ws) = 4 * length ws"
  by (induction ws) (auto simp: enc_words_def)

lemma rd_words_append2:
  "length xs \<le> off \<Longrightarrow> rd_words k (xs @ ys) off = rd_words k ys (off - length xs)"
  by (induction k arbitrary: off) (auto simp: rd_defs rd_append2)

lemma rd_words_enc: "k = length ws \<Longrightarrow> rd_words k (enc_words ws @ ys) 0 = Inr ws"
proof (induction ws arbitrary: k)
  case Nil
  then show ?case by simp
next
  case (Cons w ws)
  have "rd_words (length ws) (le_enc 4 w @ enc_words ws @ ys) 4 = Inr ws"
    using Cons.IH [of "length ws"] by (simp add: rd_words_append2)
  with Cons.prems show ?case
    by (simp add: enc_words_def rd_defs rd_enc)
qed

lemma rd_words_total: "off + 4 * k \<le> length b \<Longrightarrow> \<exists>ws. rd_words k b off = Inr ws"
proof (induction k arbitrary: off)
  case 0
  then show ?case by simp
next
  case (Suc k)
  then obtain ws where "rd_words k b (off + 4) = Inr ws" by fastforce
  with Suc.prems show ?case by (simp add: rd_defs rd_in_bounds)
qed

lemma rd_words_length: "rd_words k b off = Inr ws \<Longrightarrow> length ws = k"
  by (induction k arbitrary: off ws) (auto simp: res_simps)

section \<open>Character arrays\<close>

text \<open>The bytes of a C string of at most \<open>n - 1\<close> characters in a \<open>char\<close> array of size \<open>n\<close>.\<close>

definition c_bytes :: "string \<Rightarrow> bytes" where
  "c_bytes s = map of_char s"

definition c_array :: "nat \<Rightarrow> string \<Rightarrow> bytes" where
  "c_array n s = take n (c_bytes s @ replicate n 0)"

text \<open>\<open>sprintf (buf, s)\<close>: the characters and the terminating zero, nothing behind it.\<close>

definition sprintf_to :: "bytes \<Rightarrow> string \<Rightarrow> bytes res" where
  "sprintf_to buf s = putb buf 0 (c_bytes s @ [0])"

definition hex_digit :: "nat \<Rightarrow> char" where
  "hex_digit d = char_of (if d < 10 then 48 + d else 87 + d)"

fun hex_digits :: "nat \<Rightarrow> string" where
  "hex_digits n = (if n < 16 then [hex_digit n] else hex_digits (n div 16) @ [hex_digit (n mod 16)])"

declare hex_digits.simps [simp del]

text \<open>The conversions \<open>%04x\<close> of an \<open>unsigned\<close> and \<open>%d\<close> of an \<open>int\<close>.\<close>

definition fmt_04x :: "UINT32 \<Rightarrow> string" where
  "fmt_04x w = (let s = hex_digits (unat w) in replicate (4 - length s) (CHR ''0'') @ s)"

fun dec_digits :: "nat \<Rightarrow> string" where
  "dec_digits n = (if n < 10 then [hex_digit n] else dec_digits (n div 10) @ [hex_digit (n mod 10)])"

declare dec_digits.simps [simp del]

definition fmt_d :: "UINT32 \<Rightarrow> string" where
  "fmt_d w = (if sint w < 0 then CHR ''-'' # dec_digits (nat (- sint w)) else dec_digits (nat (sint w)))"

lemma length_c_array [simp]: "length (c_array n s) = n"
  by (simp add: c_array_def)

lemma length_hex_digits: "n < 16 ^ k \<Longrightarrow> 0 < k \<Longrightarrow> length (hex_digits n) \<le> k"
proof (induction n arbitrary: k rule: hex_digits.induct)
  case (1 n)
  show ?case
  proof (cases "n < 16")
    case True
    with 1 show ?thesis by (simp add: hex_digits.simps)
  next
    case False
    with 1 obtain j where k: "k = Suc j" "0 < j" by (cases k; cases "k - 1") auto
    with 1 False have "n div 16 < 16 ^ j" by auto
    with 1 False k have "length (hex_digits (n div 16)) \<le> j" by blast
    with False k show ?thesis by (subst hex_digits.simps) simp
  qed
qed

lemma length_dec_digits: "n < 10 ^ k \<Longrightarrow> 0 < k \<Longrightarrow> length (dec_digits n) \<le> k"
proof (induction n arbitrary: k rule: dec_digits.induct)
  case (1 n)
  show ?case
  proof (cases "n < 10")
    case True
    with 1 show ?thesis by (simp add: dec_digits.simps)
  next
    case False
    with 1 obtain j where k: "k = Suc j" "0 < j" by (cases k; cases "k - 1") auto
    with 1 False have "n div 10 < 10 ^ j" by auto
    with 1 False k have "length (dec_digits (n div 10)) \<le> j" by blast
    with False k show ?thesis by (subst dec_digits.simps) simp
  qed
qed

lemma length_fmt_04x: "length (fmt_04x w) \<le> 8"
proof -
  have "unat w < 16 ^ 8" by (rule order_less_le_trans [OF unsigned_less]) simp
  then have "length (hex_digits (unat w)) \<le> 8" by (intro length_hex_digits) auto
  then show ?thesis by (simp add: fmt_04x_def Let_def)
qed

lemma length_fmt_d: "length (fmt_d w) \<le> 11"
proof -
  have "- 2147483648 \<le> sint w" "sint w < 2147483648"
    using sint_ge [of w] sint_lt [of w] by auto
  then have "nat (- sint w) < 10 ^ 10" "nat (sint w) < 10 ^ 10" by auto
  then have "length (dec_digits (nat (- sint w))) \<le> 10" "length (dec_digits (nat (sint w))) \<le> 10"
    by (auto intro!: length_dec_digits)
  then show ?thesis by (simp add: fmt_d_def)
qed

lemma length_c_bytes [simp]: "length (c_bytes s) = length s"
  by (simp add: c_bytes_def)

lemma sprintf_to_fits:
  "length s < length buf \<Longrightarrow> \<exists>buf'. sprintf_to buf s = Inr buf' \<and> length buf' = length buf"
  by (auto simp: sprintf_to_def putb_def)

end
