(* ===== verification/UT_Hash.thy ===== *)
theory UT_Hash
  imports AM_Prelude
begin

text \<open>
  The hash table the associative array is built on, \<^verbatim>\<open>inc/ut-hash/uthash.h\<close> as this program
  configures it: Jenkins' hash, no Bloom filter, \<open>uthash_fatal\<close> an \<open>AM_ASSERT (0)\<close>, memory from
  \<open>AM_VALLOC\<close>.

  An element is an object of the program that holds a \<open>UT_hash_handle\<close>; it is named by its address.
  The handle links it twice: \<open>prev\<close> and \<open>next\<close> in the order of insertion, \<open>hh_prev\<close> and \<open>hh_next\<close>
  inside its bucket. All elements of a table share one \<open>UT_hash_table\<close>, kept once, in \<open>uh_tbl\<close>; the
  constant offset \<open>hho\<close> between an element and its handle is the identity here.

  A loop over a chain is given \<open>Suc (uh_brk h)\<close> steps, more than there are addresses in use.
\<close>

section \<open>Data\<close>

record 'v ut_elem =
  ue_val :: 'v
  ue_prev :: "nat option"
  ue_next :: "nat option"
  ue_hh_prev :: "nat option"
  ue_hh_next :: "nat option"
  ue_key :: bytes
  ue_keylen :: UINT32
  ue_hashv :: UINT32

record ut_bucket =
  ub_hh_head :: "nat option"
  ub_count :: UINT32
  ub_expand_mult :: UINT32

record ut_table =
  ut_buckets :: "ut_bucket list"
  ut_num_buckets :: UINT32
  ut_log2_num_buckets :: UINT32
  ut_num_items :: UINT32
  ut_tail :: "nat option"
  ut_ideal_chain_maxlen :: UINT32
  ut_nonideal_items :: UINT32
  ut_ineff_expands :: UINT32
  ut_noexpand :: UINT32
  ut_signature :: UINT32

type_synonym 'v elems = "nat \<Rightarrow> 'v ut_elem option"

text \<open>\<open>uh_brk\<close> is the first address never handed out.\<close>

record 'v ut_hash =
  uh_elems :: "'v elems"
  uh_brk :: nat
  uh_head :: "nat option"
  uh_tbl :: "ut_table ptr"

abbreviation (input) HASH_INITIAL_NUM_BUCKETS :: nat where "HASH_INITIAL_NUM_BUCKETS \<equiv> 32"
abbreviation (input) HASH_INITIAL_NUM_BUCKETS_LOG2 :: UINT32 where "HASH_INITIAL_NUM_BUCKETS_LOG2 \<equiv> 5"
abbreviation (input) HASH_BKT_CAPACITY_THRESH :: UINT32 where "HASH_BKT_CAPACITY_THRESH \<equiv> 10"
abbreviation (input) HASH_SIGNATURE :: UINT32 where "HASH_SIGNATURE \<equiv> 0xa0111fe1"

definition zero_bucket :: ut_bucket where
  "zero_bucket = \<lparr>ub_hh_head = None, ub_count = 0, ub_expand_mult = 0\<rparr>"

definition getel :: "'v elems \<Rightarrow> nat \<Rightarrow> 'v ut_elem res" where
  "getel es a = (case es a of None \<Rightarrow> Inl UseAfterFree | Some e \<Rightarrow> Inr e)"

definition upd_el :: "'v elems \<Rightarrow> nat \<Rightarrow> ('v ut_elem \<Rightarrow> 'v ut_elem) \<Rightarrow> 'v elems res" where
  "upd_el es a f = bindr (getel es a) (\<lambda>e. Inr (es(a \<mapsto> f e)))"

text \<open>\<open>if (p) p->field = ..\<close>\<close>

definition upd_el_opt :: "'v elems \<Rightarrow> nat option \<Rightarrow> ('v ut_elem \<Rightarrow> 'v ut_elem) \<Rightarrow> 'v elems res" where
  "upd_el_opt es p f = (case p of None \<Rightarrow> Inr es | Some a \<Rightarrow> upd_el es a f)"

section \<open>Jenkins' hash\<close>

definition HASH_JEN_MIX :: "UINT32 \<times> UINT32 \<times> UINT32 \<Rightarrow> UINT32 \<times> UINT32 \<times> UINT32" where
  "HASH_JEN_MIX st = (case st of (a, b, c) \<Rightarrow>
     let a = (a - b - c) XOR drop_bit 13 c;
         b = (b - c - a) XOR push_bit 8 a;
         c = (c - a - b) XOR drop_bit 13 b;
         a = (a - b - c) XOR drop_bit 12 c;
         b = (b - c - a) XOR push_bit 16 a;
         c = (c - a - b) XOR drop_bit 5 b;
         a = (a - b - c) XOR drop_bit 3 c;
         b = (b - c - a) XOR push_bit 10 a;
         c = (c - a - b) XOR drop_bit 15 b
     in (a, b, c))"

definition hj_byte :: "bytes \<Rightarrow> nat \<Rightarrow> nat \<Rightarrow> UINT32" where
  "hj_byte key i s = push_bit s (ucast (key ! i))"

definition hj_word :: "bytes \<Rightarrow> nat \<Rightarrow> UINT32" where
  "hj_word key i = hj_byte key i 0 + hj_byte key (i + 1) 8 + hj_byte key (i + 2) 16 + hj_byte key (i + 3) 24"

fun hj_blocks :: "bytes \<Rightarrow> UINT32 \<times> UINT32 \<times> UINT32 \<Rightarrow> bytes \<times> UINT32 \<times> UINT32 \<times> UINT32" where
  "hj_blocks key (i, j, h) =
     (if 12 \<le> length key
      then hj_blocks (drop 12 key)
             (HASH_JEN_MIX (i + hj_word key 0, j + hj_word key 4, h + hj_word key 8))
      else (key, i, j, h))"

declare hj_blocks.simps [simp del]

text \<open>The \<open>switch\<close> over the remaining bytes falls through from case to case.\<close>

definition hj_rest :: "bytes \<Rightarrow> UINT32 \<times> UINT32 \<times> UINT32 \<Rightarrow> UINT32 \<times> UINT32 \<times> UINT32" where
  "hj_rest key st = (case st of (i, j, h) \<Rightarrow>
     let k = length key;
         on = (\<lambda>n b s. if n \<le> k then hj_byte key b s else 0)
     in (i + on 4 3 24 + on 3 2 16 + on 2 1 8 + on 1 0 0,
         j + on 8 7 24 + on 7 6 16 + on 6 5 8 + on 5 4 0,
         h + on 11 10 24 + on 10 9 16 + on 9 8 8))"

definition HASH_JEN :: "bytes \<Rightarrow> UINT32" where
  "HASH_JEN key =
     (case hj_blocks key (0x9e3779b9, 0x9e3779b9, 0xfeedbeef) of (rest, i, j, h) \<Rightarrow>
      case HASH_JEN_MIX (hj_rest rest (i, j, h + of_nat (length key))) of (_, _, hashv) \<Rightarrow> hashv)"

text \<open>The bucket number, \<open>hashv & (num_bkts - 1)\<close>.\<close>

definition HASH_TO_BKT :: "UINT32 \<Rightarrow> UINT32 \<Rightarrow> nat" where
  "HASH_TO_BKT hashv num_bkts = unat (hashv AND (num_bkts - 1))"

definition nth_bkt :: "ut_bucket list \<Rightarrow> nat \<Rightarrow> ut_bucket res" where
  "nth_bkt bks i = (if i < length bks then Inr (bks ! i) else Inl OutOfBounds)"

section \<open>Lookup\<close>

fun HASH_FIND_IN_BKT :: "nat \<Rightarrow> 'v elems \<Rightarrow> nat option \<Rightarrow> bytes \<Rightarrow> UINT32 \<Rightarrow> nat option res" where
  "HASH_FIND_IN_BKT fuel es None key keylen = Inr None"
| "HASH_FIND_IN_BKT 0 es (Some a) key keylen = Inl NoReturn"
| "HASH_FIND_IN_BKT (Suc fuel) es (Some a) key keylen =
     bindr (getel es a) (\<lambda>e.
     if ue_keylen e = keylen then
       bindr (getb (ue_key e) 0 (unat keylen)) (\<lambda>k1.
       bindr (getb key 0 (unat keylen)) (\<lambda>k2.
       if k1 = k2 then Inr (Some a)
       else HASH_FIND_IN_BKT fuel es (ue_hh_next e) key keylen))
     else HASH_FIND_IN_BKT fuel es (ue_hh_next e) key keylen)"

definition HASH_FIND :: "'v ut_hash \<Rightarrow> bytes \<Rightarrow> UINT32 \<Rightarrow> nat option res" where
  "HASH_FIND h key keylen =
     (if uh_head h = None then Inr None
      else
        bindr (deref (uh_tbl h)) (\<lambda>tbl.
        bindr (getb key 0 (unat keylen)) (\<lambda>k.
        bindr (nth_bkt (ut_buckets tbl) (HASH_TO_BKT (HASH_JEN k) (ut_num_buckets tbl))) (\<lambda>b.
        HASH_FIND_IN_BKT (Suc (uh_brk h)) (uh_elems h) (ub_hh_head b) key keylen))))"

section \<open>Bucket expansion\<close>

text \<open>
  One chain of the old table, moved into the new buckets: the elements, the new buckets and
  \<open>nonideal_items\<close> are the state of the inner loop.
\<close>

fun expand_chain ::
  "nat \<Rightarrow> UINT32 \<Rightarrow> UINT32 \<Rightarrow> nat option \<Rightarrow> 'v elems \<times> ut_bucket list \<times> UINT32 \<Rightarrow>
   ('v elems \<times> ut_bucket list \<times> UINT32) res" where
  "expand_chain fuel nb2 ideal None st = Inr st"
| "expand_chain 0 nb2 ideal (Some a) st = Inl NoReturn"
| "expand_chain (Suc fuel) nb2 ideal (Some a) (es, bks, nonideal) =
     bindr (getel es a) (\<lambda>e.
     let hh_nxt = ue_hh_next e; bkt = HASH_TO_BKT (ue_hashv e) nb2 in
     bindr (nth_bkt bks bkt) (\<lambda>b.
     let c = ub_count b + 1 in
     bindr (if ideal < c
            then if ideal = 0 then Inl DivByZero
                 else Inr (c div ideal, nonideal + 1)
            else Inr (ub_expand_mult b, nonideal)) (\<lambda>(em, nonideal').
     bindr (upd_el_opt (es(a \<mapsto> e\<lparr>ue_hh_prev := None, ue_hh_next := ub_hh_head b\<rparr>))
              (ub_hh_head b) (\<lambda>x. x\<lparr>ue_hh_prev := Some a\<rparr>)) (\<lambda>es'.
     expand_chain fuel nb2 ideal hh_nxt
       (es', bks[bkt := \<lparr>ub_hh_head = Some a, ub_count = c, ub_expand_mult = em\<rparr>], nonideal')))))"

fun expand_chains ::
  "nat \<Rightarrow> UINT32 \<Rightarrow> UINT32 \<Rightarrow> ut_bucket list \<Rightarrow> 'v elems \<times> ut_bucket list \<times> UINT32 \<Rightarrow>
   ('v elems \<times> ut_bucket list \<times> UINT32) res" where
  "expand_chains fuel nb2 ideal [] st = Inr st"
| "expand_chains fuel nb2 ideal (b # old) st =
     bindr (expand_chain fuel nb2 ideal (ub_hh_head b) st) (\<lambda>st'.
     expand_chains fuel nb2 ideal old st')"

definition HASH_EXPAND_BUCKETS :: "alloc \<Rightarrow> nat \<Rightarrow> 'v elems \<Rightarrow> ut_table \<Rightarrow> ('v elems \<times> ut_table) res" where
  "HASH_EXPAND_BUCKETS al fuel es tbl =
     bindr (AM_ASSERT (al 0)) (\<lambda>_.
     let nb = ut_num_buckets tbl;
         ideal = drop_bit (unat (ut_log2_num_buckets tbl + 1)) (ut_num_items tbl) +
                 (if ut_num_items tbl AND (nb * 2 - 1) \<noteq> 0 then 1 else 0)
     in
     bindr (if unat nb \<le> length (ut_buckets tbl) then Inr () else Inl OutOfBounds) (\<lambda>_.
     bindr (expand_chains fuel (nb * 2) ideal (take (unat nb) (ut_buckets tbl))
              (es, replicate (unat (2 * nb)) zero_bucket, 0)) (\<lambda>(es', bks, nonideal).
     let ineff = (if drop_bit 1 (ut_num_items tbl) < nonideal then ut_ineff_expands tbl + 1 else 0)
     in
     Inr (es', tbl\<lparr>ut_buckets := bks, ut_num_buckets := nb * 2,
                   ut_log2_num_buckets := ut_log2_num_buckets tbl + 1,
                   ut_ideal_chain_maxlen := ideal, ut_nonideal_items := nonideal,
                   ut_ineff_expands := ineff,
                   ut_noexpand := (if 1 < ineff then 1 else ut_noexpand tbl)\<rparr>))))"

section \<open>Insertion\<close>

definition HASH_ADD_TO_BKT ::
  "alloc \<Rightarrow> nat \<Rightarrow> 'v elems \<Rightarrow> ut_table \<Rightarrow> nat \<Rightarrow> nat \<Rightarrow> ('v elems \<times> ut_table) res" where
  "HASH_ADD_TO_BKT al fuel es tbl bkt a =
     bindr (nth_bkt (ut_buckets tbl) bkt) (\<lambda>b.
     let c = ub_count b + 1 in
     bindr (upd_el es a (\<lambda>x. x\<lparr>ue_hh_next := ub_hh_head b, ue_hh_prev := None\<rparr>)) (\<lambda>es.
     bindr (upd_el_opt es (ub_hh_head b) (\<lambda>x. x\<lparr>ue_hh_prev := Some a\<rparr>)) (\<lambda>es.
     let tbl = tbl\<lparr>ut_buckets := (ut_buckets tbl)[bkt := b\<lparr>ub_count := c, ub_hh_head := Some a\<rparr>]\<rparr> in
     if (ub_expand_mult b + 1) * HASH_BKT_CAPACITY_THRESH \<le> c \<and> ut_noexpand tbl \<noteq> 1
     then HASH_EXPAND_BUCKETS al fuel es tbl
     else Inr (es, tbl))))"

definition HASH_MAKE_TABLE :: "alloc \<Rightarrow> nat \<Rightarrow> ut_table res" where
  "HASH_MAKE_TABLE al a =
     bindr (AM_ASSERT (al 0)) (\<lambda>_.
     bindr (AM_ASSERT (al 1)) (\<lambda>_.
     Inr \<lparr>ut_buckets = replicate HASH_INITIAL_NUM_BUCKETS zero_bucket,
          ut_num_buckets = of_nat HASH_INITIAL_NUM_BUCKETS,
          ut_log2_num_buckets = HASH_INITIAL_NUM_BUCKETS_LOG2, ut_num_items = 0, ut_tail = Some a,
          ut_ideal_chain_maxlen = 0, ut_nonideal_items = 0, ut_ineff_expands = 0,
          ut_noexpand = 0, ut_signature = HASH_SIGNATURE\<rparr>))"

definition link_tail :: "alloc \<Rightarrow> 'v ut_hash \<Rightarrow> nat \<Rightarrow> ('v elems \<times> nat option \<times> ut_table \<times> alloc) res" where
  "link_tail al h a =
     (case uh_head h of
        None \<Rightarrow>
          bindr (upd_el (uh_elems h) a (\<lambda>x. x\<lparr>ue_prev := None\<rparr>)) (\<lambda>es.
          bindr (HASH_MAKE_TABLE al a) (\<lambda>tbl. Inr (es, Some a, tbl, \<lambda>i. al (i + 2))))
      | Some hdp \<Rightarrow>
          bindr (deref (uh_tbl h)) (\<lambda>tbl.
          bindr (case ut_tail tbl of None \<Rightarrow> Inl NullDeref
                 | Some t \<Rightarrow> upd_el (uh_elems h) t (\<lambda>x. x\<lparr>ue_next := Some a\<rparr>)) (\<lambda>es.
          bindr (upd_el es a (\<lambda>x. x\<lparr>ue_prev := ut_tail tbl\<rparr>)) (\<lambda>es.
          Inr (es, Some hdp, tbl\<lparr>ut_tail := Some a\<rparr>, al)))))"

text \<open>\<open>a\<close> is the address of the element to add; \<open>uh_elems\<close> already holds it.\<close>

definition HASH_ADD_KEYPTR :: "alloc \<Rightarrow> 'v ut_hash \<Rightarrow> bytes \<Rightarrow> UINT32 \<Rightarrow> nat \<Rightarrow> 'v ut_hash res" where
  "HASH_ADD_KEYPTR al h key keylen a =
     bindr (upd_el (uh_elems h) a (\<lambda>x. x\<lparr>ue_next := None, ue_key := key, ue_keylen := keylen\<rparr>)) (\<lambda>es.
     bindr (link_tail al (h\<lparr>uh_elems := es\<rparr>) a) (\<lambda>(es, hdp, tbl, al).
     let tbl = tbl\<lparr>ut_num_items := ut_num_items tbl + 1\<rparr> in
     bindr (getb key 0 (unat keylen)) (\<lambda>k.
     let hashv = HASH_JEN k in
     bindr (upd_el es a (\<lambda>x. x\<lparr>ue_hashv := hashv\<rparr>)) (\<lambda>es.
     bindr (HASH_ADD_TO_BKT al (Suc (uh_brk h)) es tbl (HASH_TO_BKT hashv (ut_num_buckets tbl)) a) (\<lambda>(es, tbl).
     Inr (h\<lparr>uh_elems := es, uh_head := hdp, uh_tbl := Live tbl\<rparr>))))))"

section \<open>Deletion\<close>

definition HASH_DEL_IN_BKT :: "'v elems \<Rightarrow> ut_bucket \<Rightarrow> nat \<Rightarrow> ('v elems \<times> ut_bucket) res" where
  "HASH_DEL_IN_BKT es b a =
     bindr (getel es a) (\<lambda>d.
     let b = b\<lparr>ub_count := ub_count b - 1\<rparr>;
         b = (if ub_hh_head b = Some a then b\<lparr>ub_hh_head := ue_hh_next d\<rparr> else b) in
     bindr (upd_el_opt es (ue_hh_prev d) (\<lambda>x. x\<lparr>ue_hh_next := ue_hh_next d\<rparr>)) (\<lambda>es.
     bindr (upd_el_opt es (ue_hh_next d) (\<lambda>x. x\<lparr>ue_hh_prev := ue_hh_prev d\<rparr>)) (\<lambda>es.
     Inr (es, b))))"

definition HASH_DELETE :: "'v ut_hash \<Rightarrow> nat \<Rightarrow> 'v ut_hash res" where
  "HASH_DELETE h a =
     bindr (getel (uh_elems h) a) (\<lambda>d.
     bindr (deref (uh_tbl h)) (\<lambda>tbl.
     if ue_prev d = None \<and> ue_next d = None
     then Inr (h\<lparr>uh_head := None, uh_tbl := Dangling\<rparr>)
     else
       let tbl = (if ut_tail tbl = Some a then tbl\<lparr>ut_tail := ue_prev d\<rparr> else tbl);
           hdp = (if ue_prev d = None then ue_next d else uh_head h) in
       bindr (upd_el_opt (uh_elems h) (ue_prev d) (\<lambda>x. x\<lparr>ue_next := ue_next d\<rparr>)) (\<lambda>es.
       bindr (upd_el_opt es (ue_next d) (\<lambda>x. x\<lparr>ue_prev := ue_prev d\<rparr>)) (\<lambda>es.
       let bkt = HASH_TO_BKT (ue_hashv d) (ut_num_buckets tbl) in
       bindr (nth_bkt (ut_buckets tbl) bkt) (\<lambda>b.
       bindr (HASH_DEL_IN_BKT es b a) (\<lambda>(es, b).
       Inr (h\<lparr>uh_elems := es, uh_head := hdp,
              uh_tbl := Live (tbl\<lparr>ut_buckets := (ut_buckets tbl)[bkt := b],
                                 ut_num_items := ut_num_items tbl - 1\<rparr>)\<rparr>)))))))"

end
