(* ===== verification/UT_Hash_Inv.thy ===== *)
theory UT_Hash_Inv
  imports UT_Hash
begin

text \<open>
  What makes the hash table of \<open>UT_Hash\<close> correct: doubly linked segments, the invariant that ties
  the bucket chains to the insertion order, and what lookup, insertion (with the bucket expansion it
  can trigger) and deletion do to the list of entries the table stands for.
\<close>

section \<open>Linked segments\<close>

text \<open>
  \<open>dseg nx pv es p a xs l b\<close>: from \<open>a\<close>, whose predecessor is \<open>p\<close>, the links visit \<open>xs\<close>, the last
  element visited is \<open>l\<close> and the link out of the segment is \<open>b\<close>.
\<close>

fun dseg ::
  "('e \<Rightarrow> nat option) \<Rightarrow> ('e \<Rightarrow> nat option) \<Rightarrow> (nat \<Rightarrow> 'e option) \<Rightarrow> nat option \<Rightarrow> nat option \<Rightarrow>
   nat list \<Rightarrow> nat option \<Rightarrow> nat option \<Rightarrow> bool" where
  "dseg nx pv es p a [] l b \<longleftrightarrow> a = b \<and> l = p"
| "dseg nx pv es p a (x # xs) l b \<longleftrightarrow>
     a = Some x \<and> (\<exists>e. es x = Some e \<and> pv e = p \<and> dseg nx pv es (Some x) (nx e) xs l b)"

lemma dseg_append:
  "dseg nx pv es p a (xs @ ys) l b \<longleftrightarrow> (\<exists>m c. dseg nx pv es p a xs m c \<and> dseg nx pv es m c ys l b)"
  by (induction xs arbitrary: p a) auto

lemma dseg_last: "dseg nx pv es p a xs l b \<Longrightarrow> l = (if xs = [] then p else Some (last xs))"
  by (induction xs arbitrary: p a) auto

lemma dseg_head: "dseg nx pv es p a xs l b \<Longrightarrow> a = (if xs = [] then b else Some (hd xs))"
  by (cases xs) auto

lemma dseg_present: "dseg nx pv es p a xs l b \<Longrightarrow> x \<in> set xs \<Longrightarrow> \<exists>e. es x = Some e"
  by (induction xs arbitrary: p a) auto

lemma dseg_frame:
  assumes "dseg nx pv es p a xs l b"
    and "\<And>x e. x \<in> set xs \<Longrightarrow> es x = Some e \<Longrightarrow> \<exists>e'. es' x = Some e' \<and> nx e' = nx e \<and> pv e' = pv e"
  shows "dseg nx pv es' p a xs l b"
  using assms
proof (induction xs arbitrary: p a)
  case Nil
  then show ?case by simp
next
  case (Cons x xs)
  from Cons.prems(1) obtain e where e: "a = Some x" "es x = Some e" "pv e = p"
    "dseg nx pv es (Some x) (nx e) xs l b" by auto
  from Cons.prems(2) [OF _ e(2)] obtain e' where e': "es' x = Some e'" "nx e' = nx e" "pv e' = pv e"
    by auto
  have "dseg nx pv es' (Some x) (nx e) xs l b"
    using e(4) Cons.prems(2) by (intro Cons.IH) auto
  with e e' show ?case by simp
qed

lemma dseg_new_last:
  assumes "dseg nx pv es p a (ys @ [y]) l b"
    and "\<And>x e. x \<in> set ys \<Longrightarrow> es x = Some e \<Longrightarrow> \<exists>e'. es' x = Some e' \<and> nx e' = nx e \<and> pv e' = pv e"
    and "\<And>e. es y = Some e \<Longrightarrow> \<exists>e'. es' y = Some e' \<and> nx e' = b' \<and> pv e' = pv e"
  shows "dseg nx pv es' p a (ys @ [y]) (Some y) b'"
proof -
  from assms(1) obtain m c where 1: "dseg nx pv es p a ys m c" "dseg nx pv es m c [y] l b"
    by (auto simp: dseg_append)
  have "dseg nx pv es' p a ys m c" using 1(1) assms(2) by (rule dseg_frame)
  moreover have "dseg nx pv es' m c [y] (Some y) b'" using 1(2) assms(3) by auto
  ultimately show ?thesis by (auto simp: dseg_append)
qed

lemma dseg_new_first:
  assumes "dseg nx pv es p a (z # zs) l b"
    and "\<And>x e. x \<in> set zs \<Longrightarrow> es x = Some e \<Longrightarrow> \<exists>e'. es' x = Some e' \<and> nx e' = nx e \<and> pv e' = pv e"
    and "\<And>e. es z = Some e \<Longrightarrow> \<exists>e'. es' z = Some e' \<and> nx e' = nx e \<and> pv e' = p'"
  shows "dseg nx pv es' p' a (z # zs) l b"
proof -
  from assms(1) obtain e where e: "a = Some z" "es z = Some e" "pv e = p"
    "dseg nx pv es (Some z) (nx e) zs l b" by auto
  from assms(3) [OF e(2)] obtain e' where "es' z = Some e'" "nx e' = nx e" "pv e' = p'" by auto
  moreover have "dseg nx pv es' (Some z) (nx e) zs l b" using e(4) assms(2) by (rule dseg_frame)
  ultimately show ?thesis using e by simp
qed

text \<open>Unlinking an element: both neighbours are redirected, everything else keeps its links.\<close>

lemma dseg_unlink:
  assumes seg: "dseg nx pv es None h (ys @ a # zs) l None"
    and dist: "distinct (ys @ a # zs)"
    and d: "es a = Some d"
    and upd: "\<And>x e. x \<in> set (ys @ zs) \<Longrightarrow> es x = Some e \<Longrightarrow>
      \<exists>e'. es' x = Some e' \<and> nx e' = (if pv d = Some x then nx d else nx e) \<and>
           pv e' = (if nx d = Some x then pv d else pv e)"
  shows "dseg nx pv es' None (if pv d = None then nx d else h) (ys @ zs) (if zs = [] then pv d else l) None"
proof -
  from seg d obtain c where s1: "dseg nx pv es None h ys (pv d) c" and c: "c = Some a"
    and s2: "dseg nx pv es (Some a) (nx d) zs l None"
    by (auto simp: dseg_append)
  have pvd: "pv d = (if ys = [] then None else Some (last ys))" using dseg_last [OF s1] .
  have nxd: "nx d = (if zs = [] then None else Some (hd zs))" using dseg_head [OF s2] .
  have disj: "ys \<noteq> [] \<Longrightarrow> last ys \<notin> set zs" using dist by (metis last_in_set distinct_append disjoint_iff list.set_intros(2))
  have disj': "zs \<noteq> [] \<Longrightarrow> hd zs \<notin> set ys"
    using dist by (metis hd_in_set distinct_append disjoint_iff list.set_intros(2))
  have z: "dseg nx pv es' (pv d) (nx d) zs (if zs = [] then pv d else l) None"
  proof (cases zs)
    case Nil
    then show ?thesis using nxd by simp
  next
    case (Cons z zs')
    have "dseg nx pv es' (pv d) (nx d) (z # zs') l None"
    proof (rule dseg_new_first)
      show "dseg nx pv es (Some a) (nx d) (z # zs') l None" using s2 Cons by simp
    next
      fix x e assume "x \<in> set zs'" "es x = Some e"
      then show "\<exists>e'. es' x = Some e' \<and> nx e' = nx e \<and> pv e' = pv e"
        using upd [of x e] dist Cons pvd nxd disj by (cases "ys = []") auto
    next
      fix e assume "es z = Some e"
      then show "\<exists>e'. es' z = Some e' \<and> nx e' = nx e \<and> pv e' = pv d"
        using upd [of z e] dist Cons pvd nxd disj by (cases "ys = []") auto
    qed
    then show ?thesis using Cons by simp
  qed
  have y: "dseg nx pv es' None (if pv d = None then nx d else h) ys (pv d) (nx d)"
  proof (cases ys rule: rev_cases)
    case Nil
    then show ?thesis using pvd by simp
  next
    case (snoc ys' y)
    have "dseg nx pv es' None h (ys' @ [y]) (Some y) (nx d)"
    proof (rule dseg_new_last)
      show "dseg nx pv es None h (ys' @ [y]) (pv d) c" using s1 snoc by simp
    next
      fix x e assume "x \<in> set ys'" "es x = Some e"
      then show "\<exists>e'. es' x = Some e' \<and> nx e' = nx e \<and> pv e' = pv e"
        using upd [of x e] dist snoc pvd nxd disj' by (cases "zs = []") auto
    next
      fix e assume "es y = Some e"
      then show "\<exists>e'. es' y = Some e' \<and> nx e' = nx d \<and> pv e' = pv e"
        using upd [of y e] dist snoc pvd nxd disj' by (cases "zs = []") auto
    qed
    then show ?thesis using snoc pvd by simp
  qed
  from y z show ?thesis unfolding dseg_append by blast
qed

section \<open>Buckets\<close>

text \<open>What insertion, expansion and deletion leave alone of the elements.\<close>

definition same_by :: "('v ut_elem \<Rightarrow> 'b) \<Rightarrow> 'v elems \<Rightarrow> 'v elems \<Rightarrow> bool" where
  "same_by f es es' \<longleftrightarrow> (\<forall>x. map_option f (es' x) = map_option f (es x))"

definition ue_payload :: "'v ut_elem \<Rightarrow> 'v \<times> bytes \<times> UINT32 \<times> UINT32" where
  "ue_payload e = (ue_val e, ue_key e, ue_keylen e, ue_hashv e)"

definition ue_app :: "'v ut_elem \<Rightarrow> nat option \<times> nat option" where
  "ue_app e = (ue_next e, ue_prev e)"

definition ue_hh :: "'v ut_elem \<Rightarrow> nat option \<times> nat option" where
  "ue_hh e = (ue_hh_next e, ue_hh_prev e)"

lemma same_by_refl [simp]: "same_by f es es"
  by (simp add: same_by_def)

lemma same_by_trans: "same_by f a b \<Longrightarrow> same_by f b c \<Longrightarrow> same_by f a c"
  by (simp add: same_by_def)

lemma same_by_upd: "es x = Some e \<Longrightarrow> f e' = f e \<Longrightarrow> same_by f es (es(x \<mapsto> e'))"
  by (simp add: same_by_def)

lemma same_by_None: "same_by f es es' \<Longrightarrow> es' x = None \<longleftrightarrow> es x = None"
  by (metis same_by_def option.map_disc_iff)

lemma same_byD: "same_by f es es' \<Longrightarrow> es x = Some e \<Longrightarrow> \<exists>e'. es' x = Some e' \<and> f e' = f e"
  by (metis same_by_def map_option_eq_Some)

abbreviation bseg :: "'v elems \<Rightarrow> nat option \<Rightarrow> nat list \<Rightarrow> bool" where
  "bseg es h xs \<equiv> \<exists>l. dseg ue_hh_next ue_hh_prev es None h xs l None"

abbreviation aseg :: "'v elems \<Rightarrow> nat option \<Rightarrow> nat list \<Rightarrow> nat option \<Rightarrow> bool" where
  "aseg es h xs l \<equiv> dseg ue_next ue_prev es None h xs l None"

definition bkt_ok :: "'v elems \<Rightarrow> UINT32 \<Rightarrow> nat \<Rightarrow> ut_bucket \<Rightarrow> nat list \<Rightarrow> bool" where
  "bkt_ok es nb i b xs \<longleftrightarrow>
     bseg es (ub_hh_head b) xs \<and> ub_count b = of_nat (length xs) \<and> distinct xs \<and>
     (\<forall>x\<in>set xs. \<exists>e. es x = Some e \<and> HASH_TO_BKT (ue_hashv e) nb = i)"

definition bkts_ok :: "'v elems \<Rightarrow> UINT32 \<Rightarrow> ut_bucket list \<Rightarrow> nat list list \<Rightarrow> bool" where
  "bkts_ok es nb bks bss \<longleftrightarrow>
     length bks = length bss \<and> (\<forall>i<length bss. bkt_ok es nb i (bks ! i) (bss ! i))"

lemma bkt_ok_frame:
  assumes "bkt_ok es nb i b xs" and "\<And>x. x \<in> set xs \<Longrightarrow> es' x = es x"
  shows "bkt_ok es' nb i b xs"
proof -
  from assms(1) obtain l where "dseg ue_hh_next ue_hh_prev es None (ub_hh_head b) xs l None"
    by (auto simp: bkt_ok_def)
  then have "dseg ue_hh_next ue_hh_prev es' None (ub_hh_head b) xs l None"
    by (rule dseg_frame) (auto simp: assms(2))
  with assms show ?thesis unfolding bkt_ok_def by metis
qed

lemma in_concat_nth: "x \<in> set (concat xss) \<Longrightarrow> \<exists>i<length xss. x \<in> set (xss ! i)"
  by (auto simp del: in_set_conv_nth) (metis in_set_conv_nth)

lemma bkts_ok_cong:
  fixes es es' :: "'v elems"
  assumes "bkts_ok es nb bks bss"
    and "\<And>x e. x \<in> set (concat bss) \<Longrightarrow> es x = Some e \<Longrightarrow>
      \<exists>e'. es' x = Some e' \<and> ue_hh e' = ue_hh e \<and> ue_hashv e' = ue_hashv e"
  shows "bkts_ok es' nb bks bss"
  unfolding bkts_ok_def
proof (intro conjI allI impI)
  show "length bks = length bss" using assms(1) by (simp add: bkts_ok_def)
next
  fix i assume i: "i < length bss"
  have upd: "\<exists>e'. es' x = Some e' \<and> ue_hh e' = ue_hh e \<and> ue_hashv e' = ue_hashv e"
    if "x \<in> set (bss ! i)" "es x = Some e" for x e
    using assms(2) [OF _ that(2)] that(1) nth_mem [OF i] by auto
  have ok: "bkt_ok es nb i (bks ! i) (bss ! i)" using assms(1) i by (simp add: bkts_ok_def)
  then obtain l where "dseg ue_hh_next ue_hh_prev es None (ub_hh_head (bks ! i)) (bss ! i) l None"
    by (auto simp: bkt_ok_def)
  then have "dseg ue_hh_next ue_hh_prev es' None (ub_hh_head (bks ! i)) (bss ! i) l None"
    by (rule dseg_frame) (auto dest!: upd simp: ue_hh_def)
  moreover have "\<forall>x\<in>set (bss ! i). \<exists>e. es' x = Some e \<and> HASH_TO_BKT (ue_hashv e) nb = i"
    using ok upd unfolding bkt_ok_def by metis
  ultimately show "bkt_ok es' nb i (bks ! i) (bss ! i)" using ok unfolding bkt_ok_def by metis
qed

lemma bkts_ok_hashv:
  assumes "bkts_ok es nb bks bss" "j < length bss" "x \<in> set (bss ! j)"
  shows "\<exists>e. es x = Some e \<and> HASH_TO_BKT (ue_hashv e) nb = j"
  using assms unfolding bkts_ok_def bkt_ok_def by blast

lemma bkts_ok_disjoint:
  assumes "bkts_ok es nb bks bss" "i < length bss" "j < length bss" "i \<noteq> j" "x \<in> set (bss ! i)"
  shows "x \<notin> set (bss ! j)"
  using bkts_ok_hashv [OF assms(1,2,5)] bkts_ok_hashv [OF assms(1,3), of x] assms(4) by auto

lemma upd_el_Some: "es x = Some e \<Longrightarrow> upd_el es x f = Inr (es(x \<mapsto> f e))"
  by (simp add: upd_el_def getel_def)

text \<open>Pushing an element on the front of its bucket, as insertion and expansion do it.\<close>

lemma bkt_push_front:
  assumes ok: "bkts_ok es nb bks bss" and i: "i < length bss"
    and e: "es a = Some e" "HASH_TO_BKT (ue_hashv e) nb = i" "a \<notin> set (bss ! i)"
    and b': "ub_hh_head b' = Some a" "ub_count b' = ub_count (bks ! i) + 1"
    and es1: "es1 = es(a \<mapsto> e\<lparr>ue_hh_prev := None, ue_hh_next := ub_hh_head (bks ! i)\<rparr>)"
  shows "\<exists>es'. upd_el_opt es1 (ub_hh_head (bks ! i)) (\<lambda>x. x\<lparr>ue_hh_prev := Some a\<rparr>) = Inr es' \<and>
    bkts_ok es' nb (bks[i := b']) (bss[i := a # bss ! i]) \<and> same_by ue_payload es es' \<and>
    same_by ue_app es es' \<and> (\<forall>x. x \<notin> insert a (set (bss ! i)) \<longrightarrow> es' x = es x)"
proof -
  let ?h = "ub_hh_head (bks ! i)" and ?xs = "bss ! i"
  have len: "length bks = length bss" and bok: "bkt_ok es nb i (bks ! i) ?xs"
    using ok i by (auto simp: bkts_ok_def)
  then obtain l where seg: "dseg ue_hh_next ue_hh_prev es None ?h ?xs l None" by (auto simp: bkt_ok_def)
  have P1: "same_by ue_payload es es1" "same_by ue_app es es1"
    unfolding es1 using e(1) by (auto intro!: same_by_upd simp: ue_payload_def ue_app_def)
  have "\<exists>es'. upd_el_opt es1 ?h (\<lambda>x. x\<lparr>ue_hh_prev := Some a\<rparr>) = Inr es' \<and>
     same_by ue_payload es1 es' \<and> same_by ue_app es1 es' \<and> (\<forall>x. x \<notin> set ?xs \<longrightarrow> es' x = es1 x) \<and>
     dseg ue_hh_next ue_hh_prev es' (Some a) ?h ?xs (if ?xs = [] then Some a else l) None"
  proof (cases ?xs)
    case Nil
    with seg show ?thesis by (simp add: upd_el_opt_def)
  next
    case (Cons x xs)
    with seg obtain ex where h: "?h = Some x" and ex: "es x = Some ex" by auto
    have xa: "x \<noteq> a" using e(3) Cons by auto
    let ?es = "es1(x \<mapsto> ex\<lparr>ue_hh_prev := Some a\<rparr>)"
    have ex1: "es1 x = Some ex" using ex xa by (simp add: es1)
    have d: "x \<notin> set xs" using bok Cons by (simp add: bkt_ok_def)
    have "dseg ue_hh_next ue_hh_prev ?es (Some a) ?h (x # xs) l None"
    proof (rule dseg_new_first)
      show "dseg ue_hh_next ue_hh_prev es None ?h (x # xs) l None" using seg Cons by simp
    next
      fix y e' assume "y \<in> set xs" "es y = Some e'"
      then show "\<exists>e''. ?es y = Some e'' \<and> ue_hh_next e'' = ue_hh_next e' \<and> ue_hh_prev e'' = ue_hh_prev e'"
        using e(3) Cons d by (auto simp: es1)
    next
      fix e' assume "es x = Some e'"
      then show "\<exists>e''. ?es x = Some e'' \<and> ue_hh_next e'' = ue_hh_next e' \<and> ue_hh_prev e'' = Some a"
        using ex by simp
    qed
    moreover have "same_by ue_payload es1 ?es" "same_by ue_app es1 ?es"
      using ex1 by (auto intro!: same_by_upd simp: ue_payload_def ue_app_def)
    ultimately show ?thesis using h ex1 Cons by (auto simp: upd_el_opt_def upd_el_Some)
  qed
  then obtain es' where es': "upd_el_opt es1 ?h (\<lambda>x. x\<lparr>ue_hh_prev := Some a\<rparr>) = Inr es'"
    "same_by ue_payload es1 es'" "same_by ue_app es1 es'" "\<And>x. x \<notin> set ?xs \<Longrightarrow> es' x = es1 x"
    "dseg ue_hh_next ue_hh_prev es' (Some a) ?h ?xs (if ?xs = [] then Some a else l) None" by auto
  have P: "same_by ue_payload es es'" using P1(1) es'(2) by (rule same_by_trans)
  have a': "es' a = es1 a" using es'(4) e(3) by blast
  have "bkt_ok es' nb j (bks[i := b'] ! j) (bss[i := a # ?xs] ! j)" if j: "j < length bss" for j
  proof (cases "j = i")
    case True
    have "\<forall>x\<in>set ?xs. \<exists>e. es' x = Some e \<and> HASH_TO_BKT (ue_hashv e) nb = i"
      using bok same_byD [OF P] unfolding bkt_ok_def ue_payload_def by (metis prod.inject)
    moreover have "dseg ue_hh_next ue_hh_prev es' None (Some a) (a # ?xs)
        (if ?xs = [] then Some a else l) None"
      using es'(5) a' by (simp add: es1)
    ultimately show ?thesis
      using True i len bok b' e a' by (auto simp: bkt_ok_def es1 simp del: dseg.simps)
  next
    case False
    have "bkt_ok es nb j (bks ! j) (bss ! j)" using ok j by (simp add: bkts_ok_def)
    moreover have "es' x = es x" if x: "x \<in> set (bss ! j)" for x
    proof -
      have "x \<notin> set ?xs" using bkts_ok_disjoint [OF ok j i False x] .
      moreover have "x \<noteq> a"
        using bkts_ok_hashv [OF ok j x] e False by auto
      ultimately show ?thesis using es'(4) by (simp add: es1)
    qed
    ultimately show ?thesis using False by (auto intro: bkt_ok_frame)
  qed
  then have "bkts_ok es' nb (bks[i := b']) (bss[i := a # ?xs])" using len by (simp add: bkts_ok_def)
  moreover have "\<forall>x. x \<notin> insert a (set ?xs) \<longrightarrow> es' x = es x" using es'(4) by (simp add: es1)
  ultimately show ?thesis using es'(1,3) P P1(2) same_by_trans by blast
qed

lemma HASH_TO_BKT_mod: "HASH_TO_BKT h (2 ^ k) = unat h mod 2 ^ k"
proof -
  have "h AND (2 ^ k - 1) = take_bit k h"
    by (simp add: take_bit_eq_mask mask_eq_exp_minus_1)
  then show ?thesis unfolding HASH_TO_BKT_def
    by (simp only: unsigned_take_bit_eq) (simp add: take_bit_eq_mod)
qed

lemma HASH_TO_BKT_less: "HASH_TO_BKT h (2 ^ k) < 2 ^ k"
  by (simp add: HASH_TO_BKT_mod)

section \<open>Expansion\<close>

fun hseg :: "'v elems \<Rightarrow> nat option \<Rightarrow> nat list \<Rightarrow> bool" where
  "hseg es a [] \<longleftrightarrow> a = None"
| "hseg es a (x # xs) \<longleftrightarrow> a = Some x \<and> (\<exists>e. es x = Some e \<and> hseg es (ue_hh_next e) xs)"

lemma dseg_hseg: "dseg ue_hh_next ue_hh_prev es p a xs l None \<Longrightarrow> hseg es a xs"
  by (induction xs arbitrary: p a) auto

lemma hseg_frame: "hseg es a xs \<Longrightarrow> (\<And>x. x \<in> set xs \<Longrightarrow> es' x = es x) \<Longrightarrow> hseg es' a xs"
  by (induction xs arbitrary: a) auto

text \<open>Where an element goes: on the front of the bucket its hash value selects.\<close>

definition bkt_of :: "'v elems \<Rightarrow> UINT32 \<Rightarrow> nat \<Rightarrow> nat" where
  "bkt_of es nb x = (case es x of Some e \<Rightarrow> HASH_TO_BKT (ue_hashv e) nb | None \<Rightarrow> 0)"

definition place :: "'v elems \<Rightarrow> UINT32 \<Rightarrow> nat \<Rightarrow> nat list list \<Rightarrow> nat list list" where
  "place es nb x bss = bss[bkt_of es nb x := x # bss ! bkt_of es nb x]"

lemma length_place [simp]: "length (place es nb x bss) = length bss"
  by (simp add: place_def)

lemma length_fold_place [simp]: "length (fold (place es nb) xs bss) = length bss"
  by (induction xs arbitrary: bss) auto

lemma set_concat_place:
  assumes "bkt_of es nb x < length bss"
  shows "set (concat (place es nb x bss)) = insert x (set (concat bss))"
proof -
  let ?i = "bkt_of es nb x"
  have "bss = take ?i bss @ bss ! ?i # drop (Suc ?i) bss"
    using assms by (rule id_take_nth_drop)
  then have "set (concat bss) = set (concat (take ?i bss)) \<union> set (bss ! ?i) \<union> set (concat (drop (Suc ?i) bss))"
    by (metis concat.simps(2) concat_append set_append sup_assoc)
  moreover have "set (concat (place es nb x bss)) =
      set (concat (take ?i bss)) \<union> insert x (set (bss ! ?i)) \<union> set (concat (drop (Suc ?i) bss))"
    using assms by (simp add: place_def upd_conv_take_nth_drop sup_assoc)
  ultimately show ?thesis by auto
qed

lemma set_concat_fold_place:
  "(\<And>x. bkt_of es nb x < length bss) \<Longrightarrow>
     set (concat (fold (place es nb) xs bss)) = set xs \<union> set (concat bss)"
  by (induction xs arbitrary: bss) (auto simp: set_concat_place simp del: set_concat)

lemma bkt_of_same: "same_by ue_payload es es' \<Longrightarrow> bkt_of es' nb = bkt_of es nb"
proof (rule ext)
  fix x assume "same_by ue_payload es es'"
  then show "bkt_of es' nb x = bkt_of es nb x"
    by (cases "es x"; cases "es' x")
       (auto simp: bkt_of_def ue_payload_def same_by_def dest!: spec [of _ x])
qed

lemma place_same: "same_by ue_payload es es' \<Longrightarrow> place es' nb = place es nb"
  by (intro ext) (simp add: place_def bkt_of_same)

lemma expand_chain_ok:
  assumes "bkts_ok es nb bks bss" and "\<And>h. HASH_TO_BKT h nb < length bss"
    and "hseg es p xs" and "distinct xs" and "set xs \<inter> set (concat bss) = {}"
    and "length xs \<le> fuel" and "ideal \<noteq> 0"
  shows "\<exists>es' bks' n'. expand_chain fuel nb ideal p (es, bks, n) = Inr (es', bks', n') \<and>
    bkts_ok es' nb bks' (fold (place es nb) xs bss) \<and> same_by ue_payload es es' \<and>
    same_by ue_app es es' \<and> (\<forall>x. x \<notin> set xs \<union> set (concat bss) \<longrightarrow> es' x = es x)"
  using assms
proof (induction xs arbitrary: es bks bss p fuel n)
  case Nil
  then show ?case by simp
next
  case (Cons a xs)
  from Cons.prems(3) obtain e where p: "p = Some a" and e: "es a = Some e"
    and rest: "hseg es (ue_hh_next e) xs" by auto
  obtain f where f: "fuel = Suc f" "length xs \<le> f" using Cons.prems(6) by (cases fuel) auto
  define i where "i = HASH_TO_BKT (ue_hashv e) nb"
  have i: "i < length bss" using Cons.prems(2) by (simp add: i_def)
  have bi: "bkt_of es nb a = i" using e by (simp add: bkt_of_def i_def)
  have len: "length bks = length bss" using Cons.prems(1) by (simp add: bkts_ok_def)
  define c where "c = ub_count (bks ! i) + 1"
  define em where "em = (if ideal < c then (c div ideal, n + 1) else (ub_expand_mult (bks ! i), n))"
  define b' where "b' = \<lparr>ub_hh_head = Some a, ub_count = c, ub_expand_mult = fst em\<rparr>"
  have notin: "a \<notin> set (bss ! i)" using Cons.prems(5) i by auto
  obtain es1 where es1: "upd_el_opt (es(a \<mapsto> e\<lparr>ue_hh_prev := None, ue_hh_next := ub_hh_head (bks ! i)\<rparr>))
        (ub_hh_head (bks ! i)) (\<lambda>x. x\<lparr>ue_hh_prev := Some a\<rparr>) = Inr es1"
    "bkts_ok es1 nb (bks[i := b']) (bss[i := a # bss ! i])"
    "same_by ue_payload es es1" "same_by ue_app es es1"
    "\<forall>x. x \<notin> insert a (set (bss ! i)) \<longrightarrow> es1 x = es x"
    using bkt_push_front [OF Cons.prems(1) i e i_def [symmetric] notin, of b' "es(a \<mapsto> e\<lparr>ue_hh_prev := None, ue_hh_next := ub_hh_head (bks ! i)\<rparr>)"]
    by (auto simp: b'_def c_def)
  have step: "expand_chain fuel nb ideal p (es, bks, n) =
      expand_chain f nb ideal (ue_hh_next e) (es1, bks[i := b'], snd em)"
    using p f e i len es1(1) Cons.prems(7)
    by (simp add: getel_def nth_bkt_def i_def [symmetric] c_def [symmetric] Let_def b'_def em_def)
  have bss': "bss[i := a # bss ! i] = place es nb a bss" by (simp add: place_def bi)
  have set': "set (concat (place es nb a bss)) = insert a (set (concat bss))"
    using set_concat_place [of es nb a bss] i bi by simp
  have sub: "set (bss ! i) \<subseteq> set (concat bss)" using nth_mem [OF i] by auto
  have "hseg es1 (ue_hh_next e) xs"
    using rest
  proof (rule hseg_frame)
    fix x assume "x \<in> set xs"
    then have "x \<notin> insert a (set (bss ! i))"
      using Cons.prems(4,5) sub by (auto simp del: set_concat)
    then show "es1 x = es x" using es1(5) by blast
  qed
  moreover have "set xs \<inter> set (concat (place es nb a bss)) = {}"
    unfolding set' using Cons.prems(4,5) by auto
  moreover have "\<And>h. HASH_TO_BKT h nb < length (place es nb a bss)" using Cons.prems(2) by simp
  moreover have "distinct xs" using Cons.prems(4) by simp
  ultimately obtain es' bks' n' where IH:
    "expand_chain f nb ideal (ue_hh_next e) (es1, bks[i := b'], snd em) = Inr (es', bks', n')"
    "bkts_ok es' nb bks' (fold (place es1 nb) xs (place es nb a bss))" "same_by ue_payload es1 es'"
    "same_by ue_app es1 es'" "\<forall>x. x \<notin> set xs \<union> set (concat (place es nb a bss)) \<longrightarrow> es' x = es1 x"
    using Cons.IH [OF es1(2) [unfolded bss'] _ _ _ _ f(2) Cons.prems(7)] by blast
  have "\<forall>x. x \<notin> set (a # xs) \<union> set (concat bss) \<longrightarrow> es' x = es x"
    using IH(5) es1(5) sub unfolding set' by (auto simp del: set_concat)
  moreover have "bkts_ok es' nb bks' (fold (place es nb) (a # xs) bss)"
    using IH(2) place_same [OF es1(3)] by simp
  ultimately show ?case
    using step IH(1) same_by_trans [OF es1(3) IH(3)] same_by_trans [OF es1(4) IH(4)] by auto
qed

lemma expand_chains_ok:
  assumes "bkts_ok es nb bks bss" and "\<And>h. HASH_TO_BKT h nb < length bss"
    and "list_all2 (\<lambda>b xs. hseg es (ub_hh_head b) xs \<and> length xs \<le> fuel) old obss"
    and "distinct (concat obss)" and "set (concat obss) \<inter> set (concat bss) = {}"
    and "ideal \<noteq> 0"
  shows "\<exists>es' bks' n'. expand_chains fuel nb ideal old (es, bks, n) = Inr (es', bks', n') \<and>
    bkts_ok es' nb bks' (fold (place es nb) (concat obss) bss) \<and> same_by ue_payload es es' \<and>
    same_by ue_app es es'"
  using assms
proof (induction old arbitrary: obss es bks bss n)
  case Nil
  then show ?case by simp
next
  case (Cons b old)
  from Cons.prems(3) obtain xs obss' where obss: "obss = xs # obss'"
    and xs: "hseg es (ub_hh_head b) xs" "length xs \<le> fuel"
    and rest: "list_all2 (\<lambda>b xs. hseg es (ub_hh_head b) xs \<and> length xs \<le> fuel) old obss'"
    by (auto simp: list_all2_Cons1)
  have d: "distinct xs" "set xs \<inter> set (concat bss) = {}" "set xs \<inter> set (concat obss') = {}"
    using Cons.prems(4,5) obss by auto
  obtain es1 bks1 n1 where 1: "expand_chain fuel nb ideal (ub_hh_head b) (es, bks, n) = Inr (es1, bks1, n1)"
    "bkts_ok es1 nb bks1 (fold (place es nb) xs bss)" "same_by ue_payload es es1"
    "same_by ue_app es es1" "\<forall>x. x \<notin> set xs \<union> set (concat bss) \<longrightarrow> es1 x = es x"
    using expand_chain_ok [OF Cons.prems(1,2) xs(1) d(1,2) xs(2) Cons.prems(6)] by blast
  let ?bss = "fold (place es nb) xs bss"
  have "set (concat ?bss) = set xs \<union> set (concat bss)"
  proof (rule set_concat_fold_place)
    fix x show "bkt_of es nb x < length bss"
      using Cons.prems(2) [of 0] Cons.prems(2) by (cases "es x") (auto simp: bkt_of_def)
  qed
  then have disj: "set (concat obss') \<inter> set (concat ?bss) = {}"
    using Cons.prems(5) d(3) obss by auto
  have untouched: "es1 x = es x" if "x \<in> set (concat obss')" for x
  proof -
    have "x \<notin> set xs \<union> set (concat bss)"
      using that Cons.prems(5) d(3) obss by (auto simp del: set_concat)
    then show ?thesis using 1(5) by blast
  qed
  have "list_all2 (\<lambda>b xs. hseg es1 (ub_hh_head b) xs \<and> length xs \<le> fuel) old obss'"
    using rest
  proof (rule list.rel_mono_strong)
    fix b' ys assume "ys \<in> set obss'" and h: "hseg es (ub_hh_head b') ys \<and> length ys \<le> fuel"
    then have "hseg es1 (ub_hh_head b') ys"
      using hseg_frame [of es "ub_hh_head b'" ys es1] untouched by auto
    with h show "hseg es1 (ub_hh_head b') ys \<and> length ys \<le> fuel" by simp
  qed
  moreover have "\<And>h. HASH_TO_BKT h nb < length ?bss" using Cons.prems(2) by simp
  moreover have "distinct (concat obss')" using Cons.prems(4) obss by simp
  ultimately obtain es' bks' n' where 2:
    "expand_chains fuel nb ideal old (es1, bks1, n1) = Inr (es', bks', n')"
    "bkts_ok es' nb bks' (fold (place es1 nb) (concat obss') ?bss)" "same_by ue_payload es1 es'"
    "same_by ue_app es1 es'"
    using Cons.IH [OF 1(2) _ _ _ disj Cons.prems(6)] by blast
  have "bkts_ok es' nb bks' (fold (place es nb) (concat obss) bss)"
    using 2(2) place_same [OF 1(3)] obss by simp
  then show ?case
    using 1(1) 2(1) same_by_trans [OF 1(3) 2(3)] same_by_trans [OF 1(4) 2(4)] by auto
qed

lemma distinct_concat_by_index:
  assumes "\<And>i. i < length bss \<Longrightarrow> distinct (bss ! i)"
    and "\<And>i x. i < length bss \<Longrightarrow> x \<in> set (bss ! i) \<Longrightarrow> f x = i + k"
  shows "distinct (concat bss)"
  using assms
proof (induction bss arbitrary: k)
  case Nil
  then show ?case by simp
next
  case (Cons xs bss)
  have "distinct xs" using Cons.prems(1) [of 0] by simp
  moreover have "distinct (concat bss)"
  proof (rule Cons.IH)
    show "distinct (bss ! i)" if "i < length bss" for i using Cons.prems(1) [of "Suc i"] that by simp
    show "f x = i + Suc k" if "i < length bss" "x \<in> set (bss ! i)" for i x
      using Cons.prems(2) [of "Suc i" x] that by simp
  qed
  moreover have "x \<notin> set (concat bss)" if "x \<in> set xs" for x
  proof
    assume "x \<in> set (concat bss)"
    then obtain ys where "ys \<in> set bss" "x \<in> set ys" by auto
    then obtain i where "i < length bss" "x \<in> set (bss ! i)" by (metis in_set_conv_nth)
    then have "f x = Suc i + k" using Cons.prems(2) [of "Suc i" x] by simp
    with that Cons.prems(2) [of 0 x] show False by simp
  qed
  ultimately show ?case by auto
qed

lemma bkts_ok_distinct: "bkts_ok es nb bks bss \<Longrightarrow> distinct (concat bss)"
  by (rule distinct_concat_by_index [where f = "bkt_of es nb" and k = 0])
     (fastforce simp: bkts_ok_def bkt_ok_def bkt_of_def)+

lemma bkts_ok_zero: "bkts_ok es nb (replicate n zero_bucket) (replicate n [])"
  by (simp add: bkts_ok_def bkt_ok_def zero_bucket_def)

lemma set_concat_replicate_Nil [simp]: "set (concat (replicate n [])) = {}"
  by auto

text \<open>The ideal chain length of a non-empty table is not zero.\<close>

definition ideal_len :: "UINT32 \<Rightarrow> UINT32 \<Rightarrow> nat \<Rightarrow> UINT32" where
  "ideal_len items nb k = drop_bit (Suc k) items + (if items AND (nb * 2 - 1) \<noteq> 0 then 1 else 0)"

lemma ideal_len_nonzero:
  assumes "items \<noteq> 0" "0 < k"
  shows "ideal_len items (2 ^ k) k \<noteq> 0"
proof -
  have nb: "(2 ^ k * 2 :: UINT32) - 1 = mask (Suc k)" by (simp add: mask_eq_exp_minus_1 mult.commute)
  have "items AND (2 ^ k * 2 - 1) = take_bit (Suc k) items"
    unfolding nb by (simp add: take_bit_eq_mask)
  moreover have "drop_bit (Suc k) items + 1 \<noteq> 0"
  proof -
    have "unat (drop_bit (Suc k) items) = unat items div 2 ^ Suc k"
      by (simp only: unat_drop_bit_eq) (simp add: drop_bit_eq_div)
    also have "\<dots> \<le> unat items div 2" by (intro div_le_mono2) auto
    also have "unat items < 2 ^ 32" by (rule order_less_le_trans [OF unsigned_less]) simp
    then have "unat items div 2 < 2 ^ 31" by simp
    finally have "unat (drop_bit (Suc k) items) + 1 < 2 ^ 32" by simp
    then have "unat (drop_bit (Suc k) items + 1) = unat (drop_bit (Suc k) items) + 1"
      by (simp add: unat_word_ariths)
    then show ?thesis by force
  qed
  moreover have "drop_bit (Suc k) items \<noteq> 0" if "take_bit (Suc k) items = 0"
    using bits_ident [of "Suc k" items] that assms(1) by auto
  ultimately show ?thesis by (auto simp: ideal_len_def)
qed

definition tbl_shape :: "ut_table \<Rightarrow> nat \<Rightarrow> bool" where
  "tbl_shape tbl k \<longleftrightarrow>
     5 \<le> k \<and> k < 32 \<and> ut_num_buckets tbl = 2 ^ k \<and> ut_log2_num_buckets tbl = of_nat k \<and>
     length (ut_buckets tbl) = 2 ^ k"

lemma unat_exp32: "k < 32 \<Longrightarrow> unat (2 ^ k :: UINT32) = 2 ^ k"
proof -
  assume k: "k < 32"
  have "(2 ^ k :: UINT32) = word_of_nat (2 ^ k)" by simp
  also have "unat \<dots> = 2 ^ k mod 2 ^ 32" by (simp only: unat_of_nat) simp
  also have "\<dots> = 2 ^ k" using k by (intro mod_less power_strict_increasing) auto
  finally show ?thesis .
qed

lemma HASH_EXPAND_BUCKETS_ok:
  assumes shape: "tbl_shape tbl k" "k < 31" and ok: "bkts_ok es (ut_num_buckets tbl) (ut_buckets tbl) bss"
    and al: "al 0" and items: "ut_num_items tbl \<noteq> 0"
    and fuel: "\<And>xs. xs \<in> set bss \<Longrightarrow> length xs \<le> fuel"
  shows "\<exists>es' tbl'. HASH_EXPAND_BUCKETS al fuel es tbl = Inr (es', tbl') \<and> tbl_shape tbl' (Suc k) \<and>
    bkts_ok es' (ut_num_buckets tbl') (ut_buckets tbl')
      (fold (place es (2 ^ Suc k)) (concat bss) (replicate (2 ^ Suc k) [])) \<and>
    ut_num_items tbl' = ut_num_items tbl \<and> ut_tail tbl' = ut_tail tbl \<and>
    same_by ue_payload es es' \<and> same_by ue_app es es'"
proof -
  let ?nb = "2 ^ Suc k :: UINT32" and ?new = "replicate (2 ^ Suc k) []"
  have k: "ut_num_buckets tbl = 2 ^ k" "ut_log2_num_buckets tbl = of_nat k" "5 \<le> k"
    and len: "length (ut_buckets tbl) = 2 ^ k" "length bss = 2 ^ k"
    using shape ok by (auto simp: tbl_shape_def bkts_ok_def)
  have u: "unat (2 ^ k :: UINT32) = 2 ^ k" "unat ?nb = 2 ^ Suc k"
    using shape(2) by (auto intro!: unat_exp32 simp del: power_Suc)
  have lg: "unat (word_of_nat k + 1 :: UINT32) = Suc k"
  proof -
    have "(word_of_nat k + 1 :: UINT32) = word_of_nat (Suc k)" by simp
    also have "unat \<dots> = Suc k"
      using shape(2) by (simp only: unat_of_nat) simp
    finally show ?thesis .
  qed
  define ideal where "ideal = ideal_len (ut_num_items tbl) (2 ^ k) k"
  have ideal: "ideal \<noteq> 0" unfolding ideal_def using items k(3) by (intro ideal_len_nonzero) auto
  have new: "bkts_ok es ?nb (replicate (2 ^ Suc k) zero_bucket) ?new" by (rule bkts_ok_zero)
  have bound: "HASH_TO_BKT h ?nb < length ?new" for h using HASH_TO_BKT_less [of h "Suc k"] by simp
  have segs: "list_all2 (\<lambda>b xs. hseg es (ub_hh_head b) xs \<and> length xs \<le> fuel) (ut_buckets tbl) bss"
    using ok fuel unfolding list_all2_conv_all_nth bkts_ok_def bkt_ok_def by (metis dseg_hseg nth_mem)
  obtain es' bks' n' where ex: "expand_chains fuel ?nb ideal (ut_buckets tbl)
        (es, replicate (2 ^ Suc k) zero_bucket, 0) = Inr (es', bks', n')"
    "bkts_ok es' ?nb bks' (fold (place es ?nb) (concat bss) ?new)"
    "same_by ue_payload es es'" "same_by ue_app es es'"
    using expand_chains_ok [OF new bound segs bkts_ok_distinct [OF ok] _ ideal, of 0]
    by (auto simp del: set_concat)
  have lb: "length bks' = 2 ^ Suc k" using ex(2) by (simp add: bkts_ok_def)
  have nb2: "(2 ^ k * 2 :: UINT32) = ?nb" "(2 * 2 ^ k :: UINT32) = ?nb" by simp_all
  have unf: "HASH_EXPAND_BUCKETS al fuel es tbl = Inr (es',
      tbl\<lparr>ut_buckets := bks', ut_num_buckets := ?nb, ut_log2_num_buckets := of_nat k + 1,
          ut_ideal_chain_maxlen := ideal, ut_nonideal_items := n',
          ut_ineff_expands := (if drop_bit 1 (ut_num_items tbl) < n' then ut_ineff_expands tbl + 1 else 0),
          ut_noexpand := (if 1 < (if drop_bit 1 (ut_num_items tbl) < n' then ut_ineff_expands tbl + 1 else 0)
                          then 1 else ut_noexpand tbl)\<rparr>)"
    using al len ex(1) unfolding HASH_EXPAND_BUCKETS_def Let_def k(1,2) lg u(1) nb2 u(2)
    by (simp add: ideal_def ideal_len_def nb2 del: power_Suc)
  show ?thesis
    unfolding unf using ex(2-4) shape(2) k lb by (auto simp: tbl_shape_def simp del: power_Suc)
qed

lemma set_concat_expanded:
  assumes "\<And>h. HASH_TO_BKT h nb < n" "0 < n"
  shows "set (concat (fold (place es nb) xs (replicate n []))) = set xs"
proof -
  have "set (concat (fold (place es nb) xs (replicate n []))) = set xs \<union> set (concat (replicate n []))"
    by (rule set_concat_fold_place) (use assms in \<open>auto simp: bkt_of_def split: option.splits\<close>)
  then show ?thesis by simp
qed

lemma HASH_ADD_TO_BKT_ok:
  assumes shape: "tbl_shape tbl k" "k < 31" and ok: "bkts_ok es (ut_num_buckets tbl) (ut_buckets tbl) bss"
    and e: "es a = Some e" "a \<notin> set (concat bss)"
    and bkt: "bkt = HASH_TO_BKT (ue_hashv e) (ut_num_buckets tbl)"
    and al: "al 0" and items: "ut_num_items tbl \<noteq> 0"
    and fuel: "card (insert a (set (concat bss))) \<le> fuel"
  shows "\<exists>es' tbl' bss' k'. HASH_ADD_TO_BKT al fuel es tbl bkt a = Inr (es', tbl') \<and> tbl_shape tbl' k' \<and>
    bkts_ok es' (ut_num_buckets tbl') (ut_buckets tbl') bss' \<and>
    set (concat bss') = insert a (set (concat bss)) \<and>
    ut_num_items tbl' = ut_num_items tbl \<and> ut_tail tbl' = ut_tail tbl \<and>
    same_by ue_payload es es' \<and> same_by ue_app es es'"
proof -
  have k: "ut_num_buckets tbl = 2 ^ k" and len: "length (ut_buckets tbl) = 2 ^ k" "length bss = 2 ^ k"
    using shape ok by (auto simp: tbl_shape_def bkts_ok_def)
  have i: "bkt < length bss" using HASH_TO_BKT_less bkt k len by simp
  have notin: "a \<notin> set (bss ! bkt)" using e(2) nth_mem [OF i] by auto
  define b' where "b' = (ut_buckets tbl ! bkt)\<lparr>ub_count := ub_count (ut_buckets tbl ! bkt) + 1, ub_hh_head := Some a\<rparr>"
  define es1 where "es1 = es(a \<mapsto> e\<lparr>ue_hh_prev := None, ue_hh_next := ub_hh_head (ut_buckets tbl ! bkt)\<rparr>)"
  obtain es' where push: "upd_el_opt es1 (ub_hh_head (ut_buckets tbl ! bkt)) (\<lambda>x. x\<lparr>ue_hh_prev := Some a\<rparr>) = Inr es'"
    "bkts_ok es' (ut_num_buckets tbl) ((ut_buckets tbl)[bkt := b']) (bss[bkt := a # bss ! bkt])"
    "same_by ue_payload es es'" "same_by ue_app es es'"
    using bkt_push_front [OF ok i e(1) bkt [symmetric] notin, of b' es1] by (auto simp: b'_def es1_def)
  let ?bss = "bss[bkt := a # bss ! bkt]" and ?tbl = "tbl\<lparr>ut_buckets := (ut_buckets tbl)[bkt := b']\<rparr>"
  have bi: "bkt_of es (ut_num_buckets tbl) a = bkt" using e(1) bkt by (simp add: bkt_of_def)
  have set': "set (concat ?bss) = insert a (set (concat bss))"
    using set_concat_place [of es "ut_num_buckets tbl" a bss] bi i by (simp add: place_def)
  have shape': "tbl_shape ?tbl k" using shape by (simp add: tbl_shape_def)
  have eq: "e\<lparr>ue_hh_next := x, ue_hh_prev := None\<rparr> = e\<lparr>ue_hh_prev := None, ue_hh_next := x\<rparr>" for x
    by (cases e) simp
  have unf: "HASH_ADD_TO_BKT al fuel es tbl bkt a =
      (if (ub_expand_mult (ut_buckets tbl ! bkt) + 1) * 10 \<le> ub_count (ut_buckets tbl ! bkt) + 1 \<and> ut_noexpand ?tbl \<noteq> 1
       then HASH_EXPAND_BUCKETS al fuel es' ?tbl else Inr (es', ?tbl))"
    using i len push(1) e(1)
    by (simp add: HASH_ADD_TO_BKT_def nth_bkt_def upd_el_Some Let_def eq es1_def [symmetric] b'_def)
  show ?thesis
  proof (cases "(ub_expand_mult (ut_buckets tbl ! bkt) + 1) * 10 \<le> ub_count (ut_buckets tbl ! bkt) + 1 \<and> ut_noexpand ?tbl \<noteq> 1")
    case True
    have "length xs \<le> fuel" if "xs \<in> set ?bss" for xs
    proof -
      have "distinct xs" using bkts_ok_distinct [OF push(2)] that by (auto simp: distinct_concat_iff)
      then have "length xs = card (set xs)" by (simp add: distinct_card)
      also have "\<dots> \<le> card (insert a (set (concat bss)))"
        unfolding set' [symmetric] using that by (intro card_mono) auto
      finally show ?thesis using fuel by simp
    qed
    then obtain es2 tbl2 where ex: "HASH_EXPAND_BUCKETS al fuel es' ?tbl = Inr (es2, tbl2)"
      "tbl_shape tbl2 (Suc k)"
      "bkts_ok es2 (ut_num_buckets tbl2) (ut_buckets tbl2)
        (fold (place es' (2 ^ Suc k)) (concat ?bss) (replicate (2 ^ Suc k) []))"
      "ut_num_items tbl2 = ut_num_items tbl" "ut_tail tbl2 = ut_tail tbl"
      "same_by ue_payload es' es2" "same_by ue_app es' es2"
      using HASH_EXPAND_BUCKETS_ok [OF shape' shape(2), of es' ?bss al fuel] push(2) al items by auto
    have "set (concat (fold (place es' (2 ^ Suc k)) (concat ?bss) (replicate (2 ^ Suc k) []))) =
        insert a (set (concat bss))"
      using set_concat_expanded [of "2 ^ Suc k" "2 ^ Suc k" es' "concat ?bss"] HASH_TO_BKT_less [of _ "Suc k"] set'
      by simp
    with True ex show ?thesis
      unfolding unf using same_by_trans [OF push(3) ex(6)] same_by_trans [OF push(4) ex(7)] by auto
  next
    case False
    have "HASH_ADD_TO_BKT al fuel es tbl bkt a = Inr (es', ?tbl)" unfolding unf using False by (simp only: if_False)
    moreover have "bkts_ok es' (ut_num_buckets ?tbl) (ut_buckets ?tbl) ?bss" using push(2) by simp
    moreover have "ut_num_items ?tbl = ut_num_items tbl" "ut_tail ?tbl = ut_tail tbl" by simp_all
    ultimately show ?thesis using push(3,4) shape' set' by blast
  qed
qed

section \<open>The table invariant\<close>

definition elem_ok :: "nat \<Rightarrow> 'v elems \<Rightarrow> nat \<Rightarrow> bool" where
  "elem_ok brk es x \<longleftrightarrow> x < brk \<and>
     (\<exists>e. es x = Some e \<and> unat (ue_keylen e) = length (ue_key e) \<and> ue_hashv e = HASH_JEN (ue_key e))"

text \<open>
  \<open>order\<close> lists the elements as they were inserted, \<open>bss\<close> the chains of the buckets. An empty table
  is a null head: its \<open>UT_hash_table\<close> does not exist yet, or was freed with the last element.
\<close>

definition uh_chains :: "'v ut_hash \<Rightarrow> nat list \<Rightarrow> nat list list \<Rightarrow> bool" where
  "uh_chains h order bss \<longleftrightarrow>
     (\<exists>tbl k. uh_tbl h = Live tbl \<and> tbl_shape tbl k \<and>
       bkts_ok (uh_elems h) (ut_num_buckets tbl) (ut_buckets tbl) bss \<and>
       set (concat bss) = set order \<and> aseg (uh_elems h) (uh_head h) order (ut_tail tbl) \<and>
       ut_num_items tbl = of_nat (length order))"

definition uh_inv :: "'v ut_hash \<Rightarrow> nat list \<Rightarrow> bool" where
  "uh_inv h order \<longleftrightarrow>
     distinct order \<and> length order < 2 ^ 32 \<and> (\<forall>x\<in>set order. elem_ok (uh_brk h) (uh_elems h) x) \<and>
     (if order = [] then uh_head h = None else \<exists>bss. uh_chains h order bss)"

text \<open>The entries the table stands for, oldest first.\<close>

definition uh_entry :: "'v elems \<Rightarrow> nat \<Rightarrow> bytes \<times> 'v" where
  "uh_entry es x = (ue_key (the (es x)), ue_val (the (es x)))"

definition uh_entries :: "'v ut_hash \<Rightarrow> nat list \<Rightarrow> (bytes \<times> 'v) list" where
  "uh_entries h order = map (uh_entry (uh_elems h)) order"

text \<open>The table can still double its buckets: fewer than \<open>2 ^ 31\<close> of them.\<close>

definition uh_room :: "'v ut_hash \<Rightarrow> bool" where
  "uh_room h \<longleftrightarrow> uh_head h = None \<or> (\<exists>tbl. uh_tbl h = Live tbl \<and> ut_log2_num_buckets tbl < 31)"

lemma elem_ok_same:
  "elem_ok brk es x \<Longrightarrow> same_by ue_payload es es' \<Longrightarrow> elem_ok brk es' x"
  by (auto simp: elem_ok_def ue_payload_def dest!: same_byD [where f = ue_payload])

lemma uh_entry_same: "same_by ue_payload es es' \<Longrightarrow> es x \<noteq> None \<Longrightarrow> uh_entry es' x = uh_entry es x"
  by (auto simp: uh_entry_def ue_payload_def dest!: same_byD [where f = ue_payload])

end
