(* ===== verification/UT_Hash_Ops.thy ===== *)
theory UT_Hash_Ops
  imports UT_Hash_Inv
begin

text \<open>
  Lookup, insertion and deletion on a table that satisfies the invariant of \<open>UT_Hash_Inv\<close>, told by
  their effect on the list of entries the table stands for.
\<close>

section \<open>Lookup\<close>

lemma elem_okD:
  "elem_ok brk es x \<Longrightarrow> es x = Some e \<Longrightarrow>
     x < brk \<and> unat (ue_keylen e) = length (ue_key e) \<and> ue_hashv e = HASH_JEN (ue_key e)"
  by (auto simp: elem_ok_def)

lemma HASH_FIND_IN_BKT_ok:
  assumes "hseg es p xs" and "\<And>x. x \<in> set xs \<Longrightarrow> elem_ok brk es x"
    and "unat keylen \<le> length key" and "length xs \<le> fuel"
  shows "HASH_FIND_IN_BKT fuel es p key keylen =
    Inr (find (\<lambda>x. fst (uh_entry es x) = take (unat keylen) key) xs)"
  using assms
proof (induction xs arbitrary: p fuel)
  case Nil
  then show ?case by simp
next
  case (Cons x xs)
  from Cons.prems(1) obtain e where e: "p = Some x" "es x = Some e" "hseg es (ue_hh_next e) xs" by auto
  have ok: "unat (ue_keylen e) = length (ue_key e)" using Cons.prems(2) [of x] e(2) by (auto dest: elem_okD)
  obtain f where f: "fuel = Suc f" "length xs \<le> f" using Cons.prems(4) by (cases fuel) auto
  have IH: "HASH_FIND_IN_BKT f es (ue_hh_next e) key keylen =
      Inr (find (\<lambda>x. fst (uh_entry es x) = take (unat keylen) key) xs)"
    using Cons.IH [OF e(3) _ Cons.prems(3) f(2)] Cons.prems(2) by simp
  show ?case
  proof (cases "ue_keylen e = keylen")
    case True
    then show ?thesis using e f ok IH Cons.prems(3) by (auto simp: getel_def getb_def uh_entry_def)
  next
    case False
    then have "length (ue_key e) \<noteq> unat keylen" using ok by (metis word_unat_eq_iff)
    then have "ue_key e \<noteq> take (unat keylen) key" using Cons.prems(3) by auto
    then show ?thesis using e f False IH by (simp add: getel_def uh_entry_def)
  qed
qed

lemma uh_inv_nonempty: "uh_inv h order \<Longrightarrow> uh_head h \<noteq> None \<longleftrightarrow> order \<noteq> []"
  by (auto simp: uh_inv_def uh_chains_def split: if_splits dest: dseg_head)

lemma uh_inv_bound: "uh_inv h order \<Longrightarrow> set xs \<subseteq> set order \<Longrightarrow> distinct xs \<Longrightarrow> length xs \<le> uh_brk h"
proof -
  assume inv: "uh_inv h order" and xs: "set xs \<subseteq> set order" "distinct xs"
  then have "set xs \<subseteq> {..< uh_brk h}" by (auto simp: uh_inv_def elem_ok_def)
  then have "card (set xs) \<le> card {..< uh_brk h}" by (intro card_mono) auto
  then show ?thesis using xs by (simp add: distinct_card)
qed

lemma HASH_FIND_ok:
  assumes inv: "uh_inv h order" and key: "unat keylen \<le> length key"
  shows "\<exists>r. HASH_FIND h key keylen = Inr r \<and>
    (case r of
       None \<Rightarrow> \<forall>x\<in>set order. fst (uh_entry (uh_elems h) x) \<noteq> take (unat keylen) key
     | Some a \<Rightarrow> a \<in> set order \<and> fst (uh_entry (uh_elems h) a) = take (unat keylen) key)"
proof (cases "order = []")
  case True
  then show ?thesis using inv by (simp add: uh_inv_def HASH_FIND_def)
next
  case False
  let ?k = "take (unat keylen) key"
  obtain bss tbl k where tbl: "uh_tbl h = Live tbl" and shape: "tbl_shape tbl k"
    and ok: "bkts_ok (uh_elems h) (ut_num_buckets tbl) (ut_buckets tbl) bss"
    and set: "set (concat bss) = set order"
    using inv False by (auto simp: uh_inv_def uh_chains_def)
  define i where "i = HASH_TO_BKT (HASH_JEN ?k) (ut_num_buckets tbl)"
  have "i < 2 ^ k" using shape HASH_TO_BKT_less by (simp add: i_def tbl_shape_def)
  then have i: "i < length bss" "i < length (ut_buckets tbl)"
    using shape ok by (simp_all add: tbl_shape_def bkts_ok_def)
  let ?xs = "bss ! i" and ?P = "\<lambda>x. fst (uh_entry (uh_elems h) x) = ?k"
  have sub: "set ?xs \<subseteq> set order" using set nth_mem [OF i(1)] by auto
  have "bkt_ok (uh_elems h) (ut_num_buckets tbl) i (ut_buckets tbl ! i) ?xs"
    using ok i by (simp add: bkts_ok_def)
  then have seg: "hseg (uh_elems h) (ub_hh_head (ut_buckets tbl ! i)) ?xs" and d: "distinct ?xs"
    by (auto simp: bkt_ok_def dest: dseg_hseg)
  have eok: "elem_ok (uh_brk h) (uh_elems h) x" if "x \<in> set order" for x
    using inv that by (simp add: uh_inv_def)
  have "HASH_FIND_IN_BKT (Suc (uh_brk h)) (uh_elems h) (ub_hh_head (ut_buckets tbl ! i)) key keylen =
      Inr (find ?P ?xs)"
  proof (rule HASH_FIND_IN_BKT_ok [OF seg _ key])
    show "elem_ok (uh_brk h) (uh_elems h) x" if "x \<in> set ?xs" for x using that sub eok by auto
    show "length ?xs \<le> Suc (uh_brk h)" using uh_inv_bound [OF inv sub d] by simp
  qed
  moreover obtain y where "uh_head h = Some y" using uh_inv_nonempty [OF inv] False by auto
  ultimately have res: "HASH_FIND h key keylen = Inr (find ?P ?xs)"
    using tbl key i(2) by (simp add: HASH_FIND_def getb_def nth_bkt_def i_def [symmetric])
  have inb: "x \<in> set ?xs" if x: "x \<in> set order" "?P x" for x
  proof -
    from x(1) set have "x \<in> set (concat bss)" by simp
    then obtain j where j: "j < length bss" "x \<in> set (bss ! j)" using in_concat_nth [of x bss] by blast
    obtain e where e: "uh_elems h x = Some e" "HASH_TO_BKT (ue_hashv e) (ut_num_buckets tbl) = j"
      using bkts_ok_hashv [OF ok j] by auto
    have "ue_hashv e = HASH_JEN ?k" using elem_okD [OF eok [OF x(1)] e(1)] x(2) e(1) by (simp add: uh_entry_def)
    then show ?thesis using e j by (simp add: i_def)
  qed
  show ?thesis
  proof (cases "find ?P ?xs")
    case None
    then have "\<forall>x\<in>set order. \<not> ?P x" using inb by (auto simp: find_None_iff)
    then show ?thesis using res None by simp
  next
    case (Some a)
    then have "a \<in> set ?xs" "?P a" by (auto simp: find_Some_iff)
    then show ?thesis using res Some sub by auto
  qed
qed

section \<open>Insertion\<close>

lemma uh_entries_cong:
  "(\<And>x. x \<in> set order \<Longrightarrow> uh_entry (uh_elems h') x = uh_entry (uh_elems h) x) \<Longrightarrow>
     uh_entries h' order = uh_entries h order"
  by (simp add: uh_entries_def)

text \<open>The new element, linked behind the last one and given its hash value.\<close>

lemma link_tail_ok:
  assumes inv: "uh_inv h order" and a: "a \<notin> set order" "es a = Some e"
    and es: "\<And>x. x \<noteq> a \<Longrightarrow> es x = uh_elems h x" and nxt: "ue_next e = None"
    and room: "uh_room h" and al: "\<forall>i. al i"
  shows "\<exists>es' tbl bss k al' p. link_tail al (h\<lparr>uh_elems := es\<rparr>) a =
      Inr (es', Some (hd (order @ [a])), tbl, al') \<and>
    tbl_shape tbl k \<and> k < 31 \<and> (\<forall>i. al' i) \<and> es' a = Some (e\<lparr>ue_prev := p\<rparr>) \<and>
    (\<forall>x. x \<noteq> a \<longrightarrow> map_option ue_hh (es' x) = map_option ue_hh (uh_elems h x) \<and>
                  map_option ue_payload (es' x) = map_option ue_payload (uh_elems h x)) \<and>
    bkts_ok (uh_elems h) (ut_num_buckets tbl) (ut_buckets tbl) bss \<and> set (concat bss) = set order \<and>
    aseg es' (Some (hd (order @ [a]))) (order @ [a]) (ut_tail tbl) \<and>
    ut_num_items tbl = of_nat (length order)"
proof (cases "order = []")
  case True
  let ?tbl = "\<lparr>ut_buckets = replicate 32 zero_bucket, ut_num_buckets = 32,
          ut_log2_num_buckets = 5, ut_num_items = 0, ut_tail = Some a,
          ut_ideal_chain_maxlen = 0, ut_nonideal_items = 0, ut_ineff_expands = 0,
          ut_noexpand = 0, ut_signature = HASH_SIGNATURE\<rparr>"
  have "link_tail al (h\<lparr>uh_elems := es\<rparr>) a = Inr (es(a \<mapsto> e\<lparr>ue_prev := None\<rparr>), Some a, ?tbl, \<lambda>i. al (i + 2))"
    using True inv al a by (simp add: link_tail_def uh_inv_def upd_el_Some HASH_MAKE_TABLE_def)
  moreover have "tbl_shape ?tbl 5" by (simp add: tbl_shape_def)
  moreover have "bkts_ok (uh_elems h) 32 (replicate 32 zero_bucket) (replicate 32 [])"
    by (rule bkts_ok_zero)
  moreover have "aseg (es(a \<mapsto> e\<lparr>ue_prev := None\<rparr>)) (Some a) [a] (Some a)"
    using nxt by simp
  ultimately show ?thesis
    using True al es
    by (intro exI [of _ "es(a \<mapsto> e\<lparr>ue_prev := None\<rparr>)"] exI [of _ ?tbl] exI [of _ "replicate 32 []"]
        exI [of _ "5::nat"] exI [of _ "\<lambda>i. al (i + 2)"] exI [of _ None]) auto
next
  case False
  then obtain bss tbl k where tbl: "uh_tbl h = Live tbl" and shape: "tbl_shape tbl k"
    and ok: "bkts_ok (uh_elems h) (ut_num_buckets tbl) (ut_buckets tbl) bss"
    and set: "set (concat bss) = set order"
    and seg: "aseg (uh_elems h) (uh_head h) order (ut_tail tbl)"
    and n: "ut_num_items tbl = of_nat (length order)"
    using inv by (auto simp: uh_inv_def uh_chains_def)
  obtain ys t where order: "order = ys @ [t]" using False by (cases order rule: rev_cases) auto
  have head: "uh_head h = Some (hd order)" and tail: "ut_tail tbl = Some t"
    using dseg_head [OF seg] dseg_last [OF seg] order by auto
  have ta: "t \<noteq> a" "a \<notin> set ys" "t \<notin> set ys" using a(1) inv by (auto simp: order uh_inv_def)
  obtain et where et: "uh_elems h t = Some et" using dseg_present [OF seg] order by fastforce
  have k31: "k < 31"
  proof -
    have "(of_nat k :: UINT32) < 31" using room shape tbl head by (auto simp: uh_room_def tbl_shape_def)
    moreover have "unat (of_nat k :: UINT32) = k"
      using shape by (simp only: unat_of_nat tbl_shape_def) simp
    ultimately show ?thesis by (simp add: word_less_nat_alt)
  qed
  let ?es = "(es(t \<mapsto> et\<lparr>ue_next := Some a\<rparr>))(a \<mapsto> e\<lparr>ue_prev := Some t\<rparr>)"
  have "link_tail al (h\<lparr>uh_elems := es\<rparr>) a = Inr (?es, Some (hd order), tbl\<lparr>ut_tail := Some a\<rparr>, al)"
    using head tail tbl et es [of t] a(2) ta by (simp add: link_tail_def upd_el_Some)
  moreover have "tbl_shape (tbl\<lparr>ut_tail := Some a\<rparr>) k" using shape by (simp add: tbl_shape_def)
  moreover have "\<forall>x. x \<noteq> a \<longrightarrow> map_option ue_hh (?es x) = map_option ue_hh (uh_elems h x) \<and>
                  map_option ue_payload (?es x) = map_option ue_payload (uh_elems h x)"
    using es et by (auto simp: ue_hh_def ue_payload_def)
  moreover have "aseg ?es (Some (hd order)) (order @ [a]) (Some a)"
  proof -
    have "dseg ue_next ue_prev ?es None (uh_head h) (ys @ [t]) (Some t) (Some a)"
    proof (rule dseg_new_last)
      show "dseg ue_next ue_prev (uh_elems h) None (uh_head h) (ys @ [t]) (ut_tail tbl) None"
        using seg order by simp
    qed (use ta et es in auto)
    moreover have "dseg ue_next ue_prev ?es (Some t) (Some a) [a] (Some a) None" using nxt by simp
    ultimately show ?thesis unfolding order dseg_append using head order by auto
  qed
  ultimately show ?thesis
    using False k31 al ok set n
    by (intro exI [of _ ?es] exI [of _ "tbl\<lparr>ut_tail := Some a\<rparr>"] exI [of _ bss]
        exI [of _ k] exI [of _ al] exI [of _ "Some t"]) auto
qed

lemma elem_ok_payload:
  "elem_ok brk es x \<Longrightarrow> map_option ue_payload (es' x) = map_option ue_payload (es x) \<Longrightarrow> elem_ok brk es' x"
  by (auto simp: elem_ok_def ue_payload_def)

lemma uh_entry_payload:
  "map_option ue_payload (es' x) = map_option ue_payload (es x) \<Longrightarrow> es x \<noteq> None \<Longrightarrow>
     uh_entry es' x = uh_entry es x"
  by (auto simp: uh_entry_def ue_payload_def)

lemma HASH_ADD_KEYPTR_ok:
  assumes inv: "uh_inv h order" and size: "length order + 1 < 2 ^ 32"
    and a: "a \<notin> set order" "a < uh_brk h" "uh_elems h a = Some e0"
    and key: "unat keylen = length key" and room: "uh_room h" and al: "\<forall>i. al i"
  shows "\<exists>h'. HASH_ADD_KEYPTR al h key keylen a = Inr h' \<and> uh_inv h' (order @ [a]) \<and>
    uh_brk h' = uh_brk h \<and> uh_entries h' (order @ [a]) = uh_entries h order @ [(key, ue_val e0)] \<and>
    (\<forall>x. uh_elems h' x = None \<longleftrightarrow> uh_elems h x = None)"
proof -
  define e where "e = e0\<lparr>ue_next := None, ue_key := key, ue_keylen := keylen\<rparr>"
  define es where "es = (uh_elems h)(a \<mapsto> e)"
  have esx: "es a = Some e" "\<And>x. x \<noteq> a \<Longrightarrow> es x = uh_elems h x" by (auto simp: es_def)
  have nxt: "ue_next e = None" by (simp add: e_def)
  obtain es1 tbl bss k al' p where L: "link_tail al (h\<lparr>uh_elems := es\<rparr>) a =
      Inr (es1, Some (hd (order @ [a])), tbl, al')"
    and shape: "tbl_shape tbl k" "k < 31" and al': "\<forall>i. al' i" and e1: "es1 a = Some (e\<lparr>ue_prev := p\<rparr>)"
    and rest: "\<forall>x. x \<noteq> a \<longrightarrow> map_option ue_hh (es1 x) = map_option ue_hh (uh_elems h x) \<and>
                  map_option ue_payload (es1 x) = map_option ue_payload (uh_elems h x)"
    and ok: "bkts_ok (uh_elems h) (ut_num_buckets tbl) (ut_buckets tbl) bss" "set (concat bss) = set order"
    and seg: "aseg es1 (Some (hd (order @ [a]))) (order @ [a]) (ut_tail tbl)"
    and n: "ut_num_items tbl = of_nat (length order)"
    using link_tail_ok [OF inv a(1) esx nxt room al] by blast
  define e2 where "e2 = e\<lparr>ue_prev := p, ue_hashv := HASH_JEN key\<rparr>"
  define es2 where "es2 = es1(a \<mapsto> e2)"
  define tbl1 where "tbl1 = tbl\<lparr>ut_num_items := ut_num_items tbl + 1\<rparr>"
  have rest2: "map_option ue_hh (es2 x) = map_option ue_hh (uh_elems h x)"
    "map_option ue_payload (es2 x) = map_option ue_payload (uh_elems h x)" if "x \<noteq> a" for x
    using rest that by (simp_all add: es2_def)
  have ok2: "bkts_ok es2 (ut_num_buckets tbl1) (ut_buckets tbl1) bss"
    unfolding tbl1_def
  proof (simp, rule bkts_ok_cong [OF ok(1)])
    fix x e' assume "x \<in> set (concat bss)" "uh_elems h x = Some e'"
    moreover from this have "x \<noteq> a" using ok(2) a(1) by blast
    ultimately show "\<exists>e''. es2 x = Some e'' \<and> ue_hh e'' = ue_hh e' \<and> ue_hashv e'' = ue_hashv e'"
      using rest2 [of x] by (auto simp: ue_payload_def)
  qed
  have items: "ut_num_items tbl1 = of_nat (length (order @ [a]))" using n by (simp add: tbl1_def)
  moreover have "unat (of_nat (length (order @ [a])) :: UINT32) = length (order @ [a])"
    using size by (simp only: unat_of_nat) simp
  ultimately have items0: "ut_num_items tbl1 \<noteq> 0" by (metis unat_0 length_0_conv snoc_eq_iff_butlast)
  have card: "card (insert a (set (concat bss))) \<le> Suc (uh_brk h)"
    using uh_inv_bound [OF inv subset_refl] inv a(1) unfolding ok(2) by (simp add: uh_inv_def distinct_card)
  have notin: "a \<notin> set (concat bss)" using ok(2) a(1) by blast
  have hb: "HASH_TO_BKT (HASH_JEN key) (ut_num_buckets tbl1) = HASH_TO_BKT (ue_hashv e2) (ut_num_buckets tbl1)"
    by (simp add: e2_def)
  have sh: "tbl_shape tbl1 k" using shape by (simp add: tbl_shape_def tbl1_def)
  have es2a: "es2 a = Some e2" by (simp add: es2_def)
  have al0: "al' 0" using al' by simp
  obtain es3 tbl3 bss3 k3 where B:
    "HASH_ADD_TO_BKT al' (Suc (uh_brk h)) es2 tbl1 (HASH_TO_BKT (HASH_JEN key) (ut_num_buckets tbl1)) a = Inr (es3, tbl3)"
    "tbl_shape tbl3 k3" "bkts_ok es3 (ut_num_buckets tbl3) (ut_buckets tbl3) bss3"
    "set (concat bss3) = insert a (set (concat bss))" "ut_num_items tbl3 = ut_num_items tbl1"
    "ut_tail tbl3 = ut_tail tbl1" "same_by ue_payload es2 es3" "same_by ue_app es2 es3"
    using HASH_ADD_TO_BKT_ok [where al = al', OF sh shape(2) ok2 es2a notin hb al0 items0 card] by blast
  let ?h = "h\<lparr>uh_elems := es3, uh_head := Some (hd (order @ [a])), uh_tbl := Live tbl3\<rparr>"
  have res: "HASH_ADD_KEYPTR al h key keylen a = Inr ?h"
    using a(3) key L e1 B(1)
    by (simp add: HASH_ADD_KEYPTR_def upd_el_Some e_def [symmetric] es_def [symmetric] getb_def Let_def
        e2_def [symmetric] es2_def [symmetric] tbl1_def)
  have pay: "map_option ue_payload (es3 x) = map_option ue_payload (uh_elems h x)" if "x \<noteq> a" for x
    using B(7) rest2(2) [OF that] by (simp add: same_by_def)
  obtain e3 where e3: "es3 a = Some e3" "ue_payload e3 = ue_payload e2"
    using same_byD [OF B(7), of a e2] by (auto simp: es2_def)
  have eok: "elem_ok (uh_brk h) es3 x" if "x \<in> set (order @ [a])" for x
  proof (cases "x = a")
    case True
    then show ?thesis using e3 a(2) key by (simp add: elem_ok_def ue_payload_def e2_def e_def)
  next
    case False
    then show ?thesis using inv that pay [OF False] by (auto simp: uh_inv_def intro: elem_ok_payload)
  qed
  have "aseg es2 (Some (hd (order @ [a]))) (order @ [a]) (ut_tail tbl)"
    using seg by (rule dseg_frame) (auto simp: es2_def e1 e2_def split: if_splits)
  then have "aseg es3 (Some (hd (order @ [a]))) (order @ [a]) (ut_tail tbl3)"
    unfolding B(6) tbl1_def by simp (erule dseg_frame, auto dest!: same_byD [OF B(8)] simp: ue_app_def)
  then have "uh_chains ?h (order @ [a]) bss3"
    using B ok(2) items by (auto simp: uh_chains_def simp del: set_concat)
  then have inv': "uh_inv ?h (order @ [a])"
    using inv a(1) size eok by (auto simp: uh_inv_def)
  have "uh_entry es3 x = uh_entry (uh_elems h) x" if "x \<in> set order" for x
    using pay [of x] that a(1) inv by (auto intro!: uh_entry_payload simp: uh_inv_def elem_ok_def)
  moreover have "uh_entry es3 a = (key, ue_val e0)"
    using e3 by (simp add: uh_entry_def ue_payload_def e2_def e_def)
  ultimately have ent: "uh_entries ?h (order @ [a]) = uh_entries h order @ [(key, ue_val e0)]"
    by (simp add: uh_entries_def)
  have "es3 x = None \<longleftrightarrow> uh_elems h x = None" for x
    using pay [of x] e3 a(3) by (cases "x = a") (auto simp: map_option_case split: option.splits)
  then show ?thesis using res inv' ent by auto
qed

section \<open>Deletion\<close>

text \<open>Both neighbours of an element redirected: \<open>p->f = ..\<close> and \<open>q->g = ..\<close>, null pointers skipped.\<close>

lemma upd_two:
  assumes "\<And>x. p = Some x \<Longrightarrow> es x \<noteq> None" and "\<And>x. q = Some x \<Longrightarrow> es x \<noteq> None"
  shows "\<exists>es1 es2. upd_el_opt es p f = Inr es1 \<and> upd_el_opt es1 q g = Inr es2 \<and>
    (\<forall>x. es2 x = map_option (\<lambda>e. (if q = Some x then g else id) ((if p = Some x then f else id) e)) (es x))"
proof -
  obtain es1 where 1: "upd_el_opt es p f = Inr es1"
    "\<forall>x. es1 x = map_option (\<lambda>e. (if p = Some x then f else id) e) (es x)"
  proof (cases p)
    case None
    then show ?thesis using that [of es] by (simp add: upd_el_opt_def option.map_ident)
  next
    case (Some a)
    then obtain e where "es a = Some e" using assms(1) by auto
    moreover from this have "\<forall>x. (es(a \<mapsto> f e)) x = map_option (\<lambda>e. (if p = Some x then f else id) e) (es x)"
      using Some by (auto simp: option.map_id option.map_ident)
    ultimately show ?thesis using that [of "es(a \<mapsto> f e)"] Some
      by (simp add: upd_el_opt_def upd_el_Some)
  qed
  show ?thesis
  proof (cases q)
    case None
    then show ?thesis using 1 by (auto simp: upd_el_opt_def)
  next
    case (Some a)
    then obtain e where "es1 a = Some e" using assms(2) 1(2) by fastforce
    then show ?thesis using Some 1
      by (intro exI [of _ es1] exI [of _ "es1(a \<mapsto> g e)"]) (auto simp: upd_el_opt_def upd_el_Some)
  qed
qed

lemma dseg_neighbours:
  assumes "dseg nx pv es None h (ys @ a # zs) l None" "es a = Some d"
  shows "pv d = (if ys = [] then None else Some (last ys))" "nx d = (if zs = [] then None else Some (hd zs))"
    "pv d = Some x \<Longrightarrow> x \<in> set ys" "nx d = Some x \<Longrightarrow> x \<in> set zs"
proof -
  from assms obtain c where s: "dseg nx pv es None h ys (pv d) c" "dseg nx pv es (Some a) (nx d) zs l None"
    by (auto simp: dseg_append)
  show p: "pv d = (if ys = [] then None else Some (last ys))" using dseg_last [OF s(1)] .
  show n: "nx d = (if zs = [] then None else Some (hd zs))" using dseg_head [OF s(2)] .
  show "pv d = Some x \<Longrightarrow> x \<in> set ys" using p by (auto split: if_splits)
  show "nx d = Some x \<Longrightarrow> x \<in> set zs" using n by (auto split: if_splits)
qed

lemma HASH_DEL_IN_BKT_ok:
  assumes ok: "bkts_ok es nb bks bss" and i: "i < length bss" and a: "a \<in> set (bss ! i)" "es a = Some d"
  shows "\<exists>es' b'. HASH_DEL_IN_BKT es (bks ! i) a = Inr (es', b') \<and>
    bkts_ok es' nb (bks[i := b']) (bss[i := remove1 a (bss ! i)]) \<and>
    same_by ue_payload es es' \<and> same_by ue_app es es'"
proof -
  have bok: "bkt_ok es nb i (bks ! i) (bss ! i)" and len: "length bks = length bss"
    using ok i by (simp_all add: bkts_ok_def)
  obtain ys zs where xs: "bss ! i = ys @ a # zs" using a(1) by (auto dest: split_list)
  obtain l where seg: "dseg ue_hh_next ue_hh_prev es None (ub_hh_head (bks ! i)) (ys @ a # zs) l None"
    and dist: "distinct (ys @ a # zs)"
    using bok xs by (auto simp: bkt_ok_def)
  note nb = dseg_neighbours [OF seg a(2)]
  have pres: "x \<in> set (ys @ zs) \<Longrightarrow> es x \<noteq> None" for x
    using dseg_present [OF seg, of x] by auto
  obtain es1 es2 where U: "upd_el_opt es (ue_hh_prev d) (\<lambda>x. x\<lparr>ue_hh_next := ue_hh_next d\<rparr>) = Inr es1"
    "upd_el_opt es1 (ue_hh_next d) (\<lambda>x. x\<lparr>ue_hh_prev := ue_hh_prev d\<rparr>) = Inr es2"
    "\<forall>x. es2 x = map_option (\<lambda>e. (if ue_hh_next d = Some x then (\<lambda>x. x\<lparr>ue_hh_prev := ue_hh_prev d\<rparr>) else id)
       ((if ue_hh_prev d = Some x then (\<lambda>x. x\<lparr>ue_hh_next := ue_hh_next d\<rparr>) else id) e)) (es x)"
    using upd_two [of "ue_hh_prev d" es "ue_hh_next d" "\<lambda>x. x\<lparr>ue_hh_next := ue_hh_next d\<rparr>"
        "\<lambda>x. x\<lparr>ue_hh_prev := ue_hh_prev d\<rparr>"] nb(3,4) pres by auto
  define b' where "b' = (let b = (bks ! i)\<lparr>ub_count := ub_count (bks ! i) - 1\<rparr> in
      if ub_hh_head b = Some a then b\<lparr>ub_hh_head := ue_hh_next d\<rparr> else b)"
  have res: "HASH_DEL_IN_BKT es (bks ! i) a = Inr (es2, b')"
    using a(2) U(1,2) by (simp add: HASH_DEL_IN_BKT_def getel_def b'_def Let_def)
  have P: "same_by ue_payload es es2" "same_by ue_app es es2"
    unfolding same_by_def using U(3) by (auto simp: ue_payload_def ue_app_def option.map_comp intro!: option.map_cong)
  have "dseg ue_hh_next ue_hh_prev es2 None (if ue_hh_prev d = None then ue_hh_next d else ub_hh_head (bks ! i))
      (ys @ zs) (if zs = [] then ue_hh_prev d else l) None"
    by (rule dseg_unlink [OF seg dist a(2)]) (use U(3) in auto)
  moreover have "ub_hh_head b' = (if ue_hh_prev d = None then ue_hh_next d else ub_hh_head (bks ! i))"
    using nb(1) dseg_head [OF seg] dist by (cases ys) (auto simp: b'_def Let_def)
  moreover have "ub_count b' = of_nat (length (ys @ zs))"
    using bok xs by (simp add: b'_def Let_def bkt_ok_def)
  moreover have "\<forall>x\<in>set (ys @ zs). \<exists>e. es2 x = Some e \<and> HASH_TO_BKT (ue_hashv e) nb = i"
  proof
    fix x assume "x \<in> set (ys @ zs)"
    then obtain e where e: "es x = Some e" "HASH_TO_BKT (ue_hashv e) nb = i"
      using bok xs by (auto simp: bkt_ok_def)
    then show "\<exists>e. es2 x = Some e \<and> HASH_TO_BKT (ue_hashv e) nb = i"
      using same_byD [OF P(1) e(1)] by (auto simp: ue_payload_def)
  qed
  ultimately have bok': "bkt_ok es2 nb i b' (ys @ zs)" using dist by (auto simp: bkt_ok_def)
  have rem: "remove1 a (bss ! i) = ys @ zs" using xs dist by (simp add: remove1_append)
  have "bkt_ok es2 nb j (bks ! j) (bss ! j)" if j: "j < length bss" "j \<noteq> i" for j
  proof (rule bkt_ok_frame)
    show "bkt_ok es nb j (bks ! j) (bss ! j)" using ok j by (simp add: bkts_ok_def)
    fix x assume "x \<in> set (bss ! j)"
    then have "x \<notin> set (bss ! i)" using bkts_ok_disjoint [OF ok j(1) i] j(2) by blast
    then show "es2 x = es x" using U(3) nb(3) [of x] nb(4) [of x] xs by (auto simp: option.map_id)
  qed
  with bok' have "bkts_ok es2 nb (bks[i := b']) (bss[i := remove1 a (bss ! i)])"
    unfolding bkts_ok_def rem using len i by (auto simp: nth_list_update)
  then show ?thesis using res P by blast
qed

lemma bkts_remove_set:
  assumes ok: "bkts_ok es nb bks bss" and j: "j < length bss" "a \<in> set (bss ! j)"
  shows "set (concat (bss[j := remove1 a (bss ! j)])) = set (concat bss) - {a}"
proof
  have d: "distinct (bss ! j)" using ok j by (simp add: bkts_ok_def bkt_ok_def)
  show "set (concat (bss[j := remove1 a (bss ! j)])) \<subseteq> set (concat bss) - {a}"
  proof
    fix x assume "x \<in> set (concat (bss[j := remove1 a (bss ! j)]))"
    then obtain m where m: "m < length bss" "x \<in> set (bss[j := remove1 a (bss ! j)] ! m)"
      using in_concat_nth [of x "bss[j := remove1 a (bss ! j)]"] by auto
    show "x \<in> set (concat bss) - {a}"
    proof (cases "m = j")
      case True
      then show ?thesis using m d nth_mem [OF m(1)] by auto
    next
      case False
      then show ?thesis using m bkts_ok_disjoint [OF ok j(1) m(1) _ j(2)] nth_mem [OF m(1)] by auto
    qed
  qed
  show "set (concat bss) - {a} \<subseteq> set (concat (bss[j := remove1 a (bss ! j)]))"
  proof
    fix x assume x: "x \<in> set (concat bss) - {a}"
    then obtain m where m: "m < length bss" "x \<in> set (bss ! m)" using in_concat_nth [of x bss] by auto
    then have "x \<in> set (bss[j := remove1 a (bss ! j)] ! m)" using x d by (cases "m = j") auto
    then show "x \<in> set (concat (bss[j := remove1 a (bss ! j)]))"
      using m nth_mem [of m "bss[j := remove1 a (bss ! j)]"] by auto
  qed
qed

lemma HASH_DELETE_ok:
  assumes inv: "uh_inv h order" and a: "a \<in> set order"
  shows "\<exists>h'. HASH_DELETE h a = Inr h' \<and> uh_inv h' (remove1 a order) \<and> uh_brk h' = uh_brk h \<and>
    same_by ue_payload (uh_elems h) (uh_elems h')"
proof -
  have "order \<noteq> []" using a by auto
  then obtain bss tbl k where tbl: "uh_tbl h = Live tbl" and shape: "tbl_shape tbl k"
    and ok: "bkts_ok (uh_elems h) (ut_num_buckets tbl) (ut_buckets tbl) bss"
    and set: "set (concat bss) = set order"
    and seg: "aseg (uh_elems h) (uh_head h) order (ut_tail tbl)"
    and n: "ut_num_items tbl = of_nat (length order)"
    using inv by (auto simp: uh_inv_def uh_chains_def)
  have dist: "distinct order" using inv by (simp add: uh_inv_def)
  obtain ys zs where order: "order = ys @ a # zs" using a by (auto dest: split_list)
  have rem: "remove1 a order = ys @ zs" using order dist by (simp add: remove1_append)
  obtain d where d: "uh_elems h a = Some d" using dseg_present [OF seg a] by auto
  have dist': "distinct (ys @ a # zs)" using dist order by simp
  note seg' = seg [unfolded order]
  note nb = dseg_neighbours [OF seg' d]
  show ?thesis
  proof (cases "ys = [] \<and> zs = []")
    case True
    then have "HASH_DELETE h a = Inr (h\<lparr>uh_head := None, uh_tbl := Dangling\<rparr>)"
      using d tbl nb by (simp add: HASH_DELETE_def getel_def)
    then show ?thesis using True rem by (simp add: uh_inv_def)
  next
    case False
    have pres: "x \<in> set (ys @ zs) \<Longrightarrow> uh_elems h x \<noteq> None" for x
      using dseg_present [OF seg', of x] by auto
    obtain es1 es2 where U: "upd_el_opt (uh_elems h) (ue_prev d) (\<lambda>x. x\<lparr>ue_next := ue_next d\<rparr>) = Inr es1"
      "upd_el_opt es1 (ue_next d) (\<lambda>x. x\<lparr>ue_prev := ue_prev d\<rparr>) = Inr es2"
      "\<forall>x. es2 x = map_option (\<lambda>e. (if ue_next d = Some x then (\<lambda>x. x\<lparr>ue_prev := ue_prev d\<rparr>) else id)
         ((if ue_prev d = Some x then (\<lambda>x. x\<lparr>ue_next := ue_next d\<rparr>) else id) e)) (uh_elems h x)"
      using upd_two [of "ue_prev d" "uh_elems h" "ue_next d" "\<lambda>x. x\<lparr>ue_next := ue_next d\<rparr>"
        "\<lambda>x. x\<lparr>ue_prev := ue_prev d\<rparr>"] nb(3,4) pres by auto
    have P: "same_by ue_payload (uh_elems h) es2" "same_by ue_hh (uh_elems h) es2"
      unfolding same_by_def using U(3)
      by (auto simp: ue_payload_def ue_hh_def option.map_comp intro!: option.map_cong)
    have d2: "es2 a = Some d" using U(3) d nb(3,4) dist' by (auto simp: option.map_id)
    define hd' where "hd' = (if ue_prev d = None then ue_next d else uh_head h)"
    define tl' where "tl' = (if ut_tail tbl = Some a then ue_prev d else ut_tail tbl)"
    have "aseg es2 hd' (ys @ zs) (if zs = [] then ue_prev d else ut_tail tbl)"
      unfolding hd'_def by (rule dseg_unlink [OF seg' dist' d]) (use U(3) in auto)
    moreover have "(if zs = [] then ue_prev d else ut_tail tbl) = tl'"
      using dseg_last [OF seg'] dist' last_in_set [of zs] by (auto simp: tl'_def split: if_splits)
    ultimately have aseg2: "aseg es2 hd' (ys @ zs) tl'" by simp
    define i where "i = HASH_TO_BKT (ue_hashv d) (ut_num_buckets tbl)"
    have ok2: "bkts_ok es2 (ut_num_buckets tbl) (ut_buckets tbl) bss"
    proof (rule bkts_ok_cong [OF ok])
      fix x e assume "uh_elems h x = Some e"
      then show "\<exists>e'. es2 x = Some e' \<and> ue_hh e' = ue_hh e \<and> ue_hashv e' = ue_hashv e"
        using same_byD [OF P(1), of x e] same_byD [OF P(2), of x e] by (auto simp: ue_payload_def)
    qed
    from a set have "a \<in> set (concat bss)" by blast
    then obtain j where j: "j < length bss" "a \<in> set (bss ! j)" using in_concat_nth [of a bss] by blast
    have ij: "i = j" using bkts_ok_hashv [OF ok j] d by (simp add: i_def)
    obtain es3 b' where B: "HASH_DEL_IN_BKT es2 (ut_buckets tbl ! i) a = Inr (es3, b')"
      "bkts_ok es3 (ut_num_buckets tbl) ((ut_buckets tbl)[i := b']) (bss[i := remove1 a (bss ! i)])"
      "same_by ue_payload es2 es3" "same_by ue_app es2 es3"
      using HASH_DEL_IN_BKT_ok [OF ok2 j d2] ij by blast
    define tbl' where "tbl' = tbl\<lparr>ut_tail := tl', ut_buckets := (ut_buckets tbl)[i := b'],
        ut_num_items := ut_num_items tbl - 1\<rparr>"
    let ?h = "h\<lparr>uh_elems := es3, uh_head := hd', uh_tbl := Live tbl'\<rparr>"
    have il: "i < length (ut_buckets tbl)" using ok j ij by (simp add: bkts_ok_def)
    have "\<not> (ue_prev d = None \<and> ue_next d = None)" using nb(1,2) False by (auto split: if_splits)
    moreover have "(if ut_tail tbl = Some a then tbl\<lparr>ut_tail := ue_prev d\<rparr> else tbl) = tbl\<lparr>ut_tail := tl'\<rparr>"
      by (simp add: tl'_def)
    ultimately have res: "HASH_DELETE h a = Inr ?h"
      using d tbl U(1,2) B(1) il
      by (simp add: HASH_DELETE_def getel_def Let_def i_def [symmetric] nth_bkt_def hd'_def [symmetric] tbl'_def)
         auto
    have setb: "set (concat (bss[i := remove1 a (bss ! i)])) = set (ys @ zs)"
      using bkts_remove_set [OF ok j] ij set order dist' by auto
    have "aseg es3 hd' (ys @ zs) tl'"
      using aseg2 by (rule dseg_frame) (auto dest!: same_byD [OF B(4)] simp: ue_app_def)
    moreover have "tbl_shape tbl' k" using shape by (simp add: tbl_shape_def tbl'_def)
    moreover have "bkts_ok es3 (ut_num_buckets tbl') (ut_buckets tbl') (bss[i := remove1 a (bss ! i)])"
      using B(2) by (simp add: tbl'_def)
    moreover have "ut_num_items tbl' = of_nat (length (ys @ zs))" using n order by (simp add: tbl'_def)
    ultimately have "uh_chains ?h (ys @ zs) (bss[i := remove1 a (bss ! i)])"
      using setb unfolding uh_chains_def by (auto simp: tbl'_def simp del: set_concat)
    moreover have PP: "same_by ue_payload (uh_elems h) es3" using P(1) B(3) by (rule same_by_trans)
    moreover have "elem_ok (uh_brk h) es3 x" if "x \<in> set (ys @ zs)" for x
    proof (rule elem_ok_same [OF _ PP])
      show "elem_ok (uh_brk h) (uh_elems h) x" using inv that order by (auto simp: uh_inv_def)
    qed
    ultimately have "uh_inv ?h (ys @ zs)" using inv order dist' False by (auto simp: uh_inv_def)
    then show ?thesis using res rem PP by auto
  qed
qed

end
