(* ===== verification/UT_Hash_Props.thy ===== *)
theory UT_Hash_Props
  imports UT_Hash_Ops
begin

text \<open>
  The hash table as the code that uses it sees it: a list of entries in the order of their insertion.
\<close>

lemma entries_same:
  assumes "uh_inv h order" "same_by ue_payload (uh_elems h) es'" "set xs \<subseteq> set order"
  shows "map (uh_entry es') xs = map (uh_entry (uh_elems h)) xs"
proof (rule map_cong [OF refl])
  fix x assume "x \<in> set xs"
  then have "uh_elems h x \<noteq> None" using assms(1,3) by (auto simp: uh_inv_def elem_ok_def)
  then show "uh_entry es' x = uh_entry (uh_elems h) x" using uh_entry_same [OF assms(2)] by blast
qed

text \<open>
  C22: A lookup returns an element with the key asked for if there is one, and no element otherwise, after
  a search through one bucket that ends.
\<close>

theorem HASH_FIND_finds:
  assumes "uh_inv h order" "unat keylen \<le> length key"
  shows "\<exists>r. HASH_FIND h key keylen = Inr r \<and>
    (case r of
       None \<Rightarrow> take (unat keylen) key \<notin> fst ` set (uh_entries h order)
     | Some a \<Rightarrow> a \<in> set order \<and> uh_entry (uh_elems h) a \<in> set (uh_entries h order) \<and>
         fst (uh_entry (uh_elems h) a) = take (unat keylen) key)"
proof -
  obtain r where r: "HASH_FIND h key keylen = Inr r" "case r of
       None \<Rightarrow> \<forall>x\<in>set order. fst (uh_entry (uh_elems h) x) \<noteq> take (unat keylen) key
     | Some a \<Rightarrow> a \<in> set order \<and> fst (uh_entry (uh_elems h) a) = take (unat keylen) key"
    using HASH_FIND_ok [OF assms] by blast
  then show ?thesis by (intro exI [of _ r]) (auto simp: uh_entries_def split: option.splits)
qed

text \<open>
  C21: An insertion keeps the invariant of the table (both lists of every element, the bucket counts, the number of
  items), through an expansion of the buckets if one is due, and puts the new entry behind the others. It needs memory
  granted, an element that was allocated and is not in the table, a key as long as \<open>keylen\<close> says, fewer than \<open>2 ^ 32 - 1\<close> items
  before, and an empty table or one of fewer than \<open>2 ^ 31\<close> buckets (\<open>uh_room\<close>), which can still be doubled in 32 bits; nothing is
  said of a table that has reached \<open>2 ^ 31\<close> buckets.
\<close>

theorem HASH_ADD_KEYPTR_appends:
  assumes "uh_inv h order" "length order + 1 < 2 ^ 32" "a \<notin> set order" "a < uh_brk h" "uh_elems h a = Some e"
    and "unat keylen = length key" "uh_room h" "\<forall>i. al i"
  shows "\<exists>h'. HASH_ADD_KEYPTR al h key keylen a = Inr h' \<and> uh_inv h' (order @ [a]) \<and>
    uh_entries h' (order @ [a]) = uh_entries h order @ [(key, ue_val e)]"
  using HASH_ADD_KEYPTR_ok [OF assms] by blast

lemma HASH_DELETE_last:
  assumes "uh_inv h [a]"
  shows "HASH_DELETE h a = Inr (h\<lparr>uh_head := None, uh_tbl := Dangling\<rparr>)"
  using assms by (auto simp: uh_inv_def uh_chains_def HASH_DELETE_def getel_def)

text \<open>
  C23: A deletion of an element of the table keeps the invariant and takes out exactly the element given: the others keep their keys, their
  values and their order. The deletion of the last element frees the table and leaves the head null; any other leaves the table
  allocated, with one item less in its count.
\<close>

theorem HASH_DELETE_removes:
  assumes "uh_inv h order" "a \<in> set order"
  shows "\<exists>h'. HASH_DELETE h a = Inr h' \<and> uh_inv h' (remove1 a order) \<and>
    uh_entries h' (remove1 a order) = map (uh_entry (uh_elems h)) (remove1 a order) \<and>
    (if order = [a] then uh_head h' = None \<and> uh_tbl h' = Dangling
     else uh_head h' \<noteq> None \<and> (\<exists>tbl. uh_tbl h' = Live tbl \<and> ut_num_items tbl = of_nat (length order - 1)))"
proof -
  obtain h' where h': "HASH_DELETE h a = Inr h'" "uh_inv h' (remove1 a order)"
    "same_by ue_payload (uh_elems h) (uh_elems h')"
    using HASH_DELETE_ok [OF assms] by blast
  have "uh_entries h' (remove1 a order) = map (uh_entry (uh_elems h)) (remove1 a order)"
    unfolding uh_entries_def by (rule entries_same [OF assms(1) h'(3) set_remove1_subset])
  moreover have "if order = [a] then uh_head h' = None \<and> uh_tbl h' = Dangling
     else uh_head h' \<noteq> None \<and> (\<exists>tbl. uh_tbl h' = Live tbl \<and> ut_num_items tbl = of_nat (length order - 1))"
  proof (cases "order = [a]")
    case True
    then show ?thesis using h'(1) HASH_DELETE_last [of h a] assms(1) by auto
  next
    case False
    have "remove1 a order \<noteq> []" using False assms(2) by (cases order) (auto split: if_splits)
    then obtain tbl where tbl: "uh_tbl h' = Live tbl" "ut_num_items tbl = of_nat (length (remove1 a order))"
        "aseg (uh_elems h') (uh_head h') (remove1 a order) (ut_tail tbl)"
      using h'(2) by (auto simp: uh_inv_def uh_chains_def)
    have "uh_head h' \<noteq> None" using tbl(3) \<open>remove1 a order \<noteq> []\<close> by (cases "remove1 a order") auto
    then show ?thesis using False tbl(1,2) assms(2) by (simp add: length_remove1)
  qed
  ultimately show ?thesis using h'(1,2) by blast
qed

section \<open>A table with one element\<close>

definition demo_elem :: "nat \<Rightarrow> nat ut_elem" where
  "demo_elem v = \<lparr>ue_val = v, ue_prev = None, ue_next = None, ue_hh_prev = None, ue_hh_next = None, ue_key = [],
     ue_keylen = 0, ue_hashv = 0\<rparr>"

definition demo_hash :: "nat ut_hash" where
  "demo_hash = \<lparr>uh_elems = [0 \<mapsto> demo_elem 42], uh_brk = 1, uh_head = None, uh_tbl = Null\<rparr>"

lemma demo_hash_ok: "uh_inv demo_hash []" "uh_room demo_hash" "uh_elems demo_hash 0 = Some (demo_elem 42)" "uh_brk demo_hash = 1"
  by (simp_all add: demo_hash_def uh_inv_def uh_room_def)

lemma demo_one:
  obtains h where "HASH_ADD_KEYPTR (\<lambda>_. True) demo_hash [1, 2] 2 0 = Inr h" "uh_inv h [0]" "uh_entries h [0] = [([1, 2], 42)]"
  using HASH_ADD_KEYPTR_ok [OF demo_hash_ok(1), of 0 "demo_elem 42" 2 "[1, 2]" "\<lambda>_. True"] demo_hash_ok(2-4)
  by (auto simp: uh_entries_def demo_elem_def)

lemma HASH_FIND_finds_witness:
  "\<exists>h r. HASH_ADD_KEYPTR (\<lambda>_. True) demo_hash [1, 2] 2 0 = Inr h \<and> HASH_FIND h [1, 3, 9] 2 = Inr r \<and> r = None"
proof -
  obtain h where h: "HASH_ADD_KEYPTR (\<lambda>_. True) demo_hash [1, 2] 2 0 = Inr h" "uh_inv h [0]" "uh_entries h [0] = [([1, 2], 42)]"
    using demo_one .
  then have "snd (uh_entry (uh_elems h) 0) = 42" "fst (uh_entry (uh_elems h) 0) = [1, 2]" by (simp_all add: uh_entries_def)
  moreover obtain r where r: "HASH_FIND h [1, 3, 9] 2 = Inr r" "case r of
       None \<Rightarrow> take (unat (2 :: UINT32)) [1, 3, 9] \<notin> fst ` set (uh_entries h [0])
     | Some a \<Rightarrow> a \<in> set [0] \<and> uh_entry (uh_elems h) a \<in> set (uh_entries h [0]) \<and>
         fst (uh_entry (uh_elems h) a) = take (unat (2 :: UINT32)) [1, 3, 9]"
    using HASH_FIND_finds [OF h(2), of 2 "[1, 3, 9]"] by auto
  ultimately have "r = None" by (cases r) simp_all
  then show ?thesis using r(1) h(1) by blast
qed

lemma HASH_ADD_KEYPTR_appends_witness:
  "\<exists>h. HASH_ADD_KEYPTR (\<lambda>_. True) demo_hash [1, 2] 2 0 = Inr h \<and> uh_inv h ([] @ [0]) \<and>
    uh_entries h ([] @ [0]) = uh_entries demo_hash [] @ [([1, 2], ue_val (demo_elem 42))]"
  using HASH_ADD_KEYPTR_appends [OF demo_hash_ok(1), of 0 "demo_elem 42" 2 "[1, 2]" "\<lambda>_. True"] demo_hash_ok(2-4) by simp

lemma HASH_DELETE_removes_witness:
  "\<exists>h h'. HASH_ADD_KEYPTR (\<lambda>_. True) demo_hash [1, 2] 2 0 = Inr h \<and> HASH_DELETE h 0 = Inr h' \<and> uh_inv h' [] \<and>
     uh_head h' = None \<and> uh_tbl h' = Dangling"
proof -
  obtain h where h: "HASH_ADD_KEYPTR (\<lambda>_. True) demo_hash [1, 2] 2 0 = Inr h" "uh_inv h [0]" "uh_entries h [0] = [([1, 2], 42)]"
    using demo_one .
  then show ?thesis using HASH_DELETE_removes [OF h(2), of 0] by auto
qed

end
