(* ===== verification/AM_Types.thy ===== *)
theory AM_Types
  imports AM_Prelude
begin

text \<open>
  The data types and constants the components share: \<^verbatim>\<open>inc/appmemlib.h\<close> and
  \<^verbatim>\<open>inc/appmemd_ioctl.h\<close>. Records carry the fields of the C structures; where a structure is
  copied to or from a packet, its byte layout (LP64, little-endian) is an encoder and a reader with
  a round trip.
\<close>

section \<open>Return codes\<close>

type_synonym AM_RETURN = "32 word"

abbreviation (input) AM_RET_GOOD :: AM_RETURN where "AM_RET_GOOD \<equiv> 0"
abbreviation (input) AM_RET_PARAM_ERR :: AM_RETURN where "AM_RET_PARAM_ERR \<equiv> 1"
abbreviation (input) AM_RET_ALLOC_ERR :: AM_RETURN where "AM_RET_ALLOC_ERR \<equiv> 2"
abbreviation (input) AM_RET_IO_ERR :: AM_RETURN where "AM_RET_IO_ERR \<equiv> 3"
abbreviation (input) AM_RET_OPEN_ERR :: AM_RETURN where "AM_RET_OPEN_ERR \<equiv> 4"
abbreviation (input) AM_RET_KEY_NOT_FOUND :: AM_RETURN where "AM_RET_KEY_NOT_FOUND \<equiv> 5"
abbreviation (input) AM_RET_INVALID_FUNC :: AM_RETURN where "AM_RET_INVALID_FUNC \<equiv> 6"
abbreviation (input) AM_RET_INVALID_HDL :: AM_RETURN where "AM_RET_INVALID_HDL \<equiv> 7"
abbreviation (input) AM_RET_SOCKET_ERR :: AM_RETURN where "AM_RET_SOCKET_ERR \<equiv> 9"
abbreviation (input) AM_RET_IO_UNDERRUN :: AM_RETURN where "AM_RET_IO_UNDERRUN \<equiv> 10"
abbreviation (input) AM_RET_THREAD_ERR :: AM_RETURN where "AM_RET_THREAD_ERR \<equiv> 11"
abbreviation (input) AM_RET_Q_OVERFLOW :: AM_RETURN where "AM_RET_Q_OVERFLOW \<equiv> 12"
abbreviation (input) AM_RET_INVALID_PACK_OP :: AM_RETURN where "AM_RET_INVALID_PACK_OP \<equiv> 13"
abbreviation (input) AM_RET_INVALID_DEV :: AM_RETURN where "AM_RET_INVALID_DEV \<equiv> 14"
abbreviation (input) AM_RET_INVALID_OPCODE :: AM_RETURN where "AM_RET_INVALID_OPCODE \<equiv> 15"
abbreviation (input) AM_RET_TAG_NOT_FOUND :: AM_RETURN where "AM_RET_TAG_NOT_FOUND \<equiv> 16"
abbreviation (input) AM_RET_NO_DEVICE_SLOT :: AM_RETURN where "AM_RET_NO_DEVICE_SLOT \<equiv> 17"
abbreviation (input) AM_RET_INVALID_ITER :: AM_RETURN where "AM_RET_INVALID_ITER \<equiv> 18"
abbreviation (input) AM_RET_ITER_DONE :: AM_RETURN where "AM_RET_ITER_DONE \<equiv> 19"

section \<open>Function types\<close>

abbreviation (input) AM_TYPE_BASE_APPMEM :: UINT32 where "AM_TYPE_BASE_APPMEM \<equiv> 0"
abbreviation (input) AM_TYPE_FLAT_MEM :: UINT32 where "AM_TYPE_FLAT_MEM \<equiv> 1"
abbreviation (input) AM_TYPE_STATIC_ARRAY :: UINT32 where "AM_TYPE_STATIC_ARRAY \<equiv> 2"
abbreviation (input) AM_TYPE_ASSOC_ARRAY :: UINT32 where "AM_TYPE_ASSOC_ARRAY \<equiv> 3"
abbreviation (input) AM_TYPE_LIST :: UINT32 where "AM_TYPE_LIST \<equiv> 4"

abbreviation (input) AM_MAX_TYPE_SPECIFIC :: nat where "AM_MAX_TYPE_SPECIFIC \<equiv> 32"
abbreviation (input) AM_DETAIL_DESC_LEN :: nat where "AM_DETAIL_DESC_LEN \<equiv> 64"
abbreviation (input) AM_OP_MAX_OPS :: nat where "AM_OP_MAX_OPS \<equiv> 64"
abbreviation (input) AM_MAX_ACCESS_OPS :: nat where "AM_MAX_ACCESS_OPS \<equiv> 2"

section \<open>Operation codes and packet types\<close>

abbreviation (input) AM_PACK_TYPE_OPCODE_ONLY :: UINT32 where "AM_PACK_TYPE_OPCODE_ONLY \<equiv> 0x01"
abbreviation (input) AM_PACK_TYPE_FIVO :: UINT32 where "AM_PACK_TYPE_FIVO \<equiv> 0x02"
abbreviation (input) AM_PACK_ALIGN :: UINT32 where "AM_PACK_ALIGN \<equiv> 0x03"
abbreviation (input) AM_PACK_ACTION :: UINT32 where "AM_PACK_ACTION \<equiv> 0x04"
abbreviation (input) AM_KPACK :: UINT32 where "AM_KPACK \<equiv> 0x05"

abbreviation (input) AM_OP_IDENTIFY :: UINT32 where "AM_OP_IDENTIFY \<equiv> 0x1"
abbreviation (input) AM_OP_GET_CAP_COUNT :: UINT32 where "AM_OP_GET_CAP_COUNT \<equiv> 0x2"
abbreviation (input) AM_OP_GET_CAP :: UINT32 where "AM_OP_GET_CAP \<equiv> 0x3"
abbreviation (input) AM_OP_CREATE_FUNC :: UINT32 where "AM_OP_CREATE_FUNC \<equiv> 0x4"
abbreviation (input) AM_OP_RELEASE_FUNC :: UINT32 where "AM_OP_RELEASE_FUNC \<equiv> 0x5"
abbreviation (input) AM_OP_OPEN_FUNC :: UINT32 where "AM_OP_OPEN_FUNC \<equiv> 0x6"
abbreviation (input) AM_OP_CLOSE_FUNC :: UINT32 where "AM_OP_CLOSE_FUNC \<equiv> 0x7"
abbreviation (input) AM_OP_SORT :: UINT32 where "AM_OP_SORT \<equiv> 0x8"
abbreviation (input) AM_OP_WRITE_ALIGN :: UINT32 where "AM_OP_WRITE_ALIGN \<equiv> 0x10"
abbreviation (input) AM_OP_READ_ALIGN :: UINT32 where "AM_OP_READ_ALIGN \<equiv> 0x11"
abbreviation (input) AM_OP_ADD_ALIGN :: UINT32 where "AM_OP_ADD_ALIGN \<equiv> 0x12"

abbreviation (input) AM_FUNC_PACK_TYPE_FLAG_RESP :: UINT8 where "AM_FUNC_PACK_TYPE_FLAG_RESP \<equiv> 0x80"
abbreviation (input) AM_FUNC_PACK_TYPE_FLAG_ERR :: UINT8 where "AM_FUNC_PACK_TYPE_FLAG_ERR \<equiv> 0x40"

definition AM_NET_GET_PACKTYPE :: "UINT32 \<Rightarrow> UINT32" where
  "AM_NET_GET_PACKTYPE x = drop_bit 16 x AND 0x3F"

definition AM_SET_PACKTYPE :: "UINT32 \<Rightarrow> UINT32 \<Rightarrow> UINT32" where
  "AM_SET_PACKTYPE x opc = push_bit 16 (x AND 0x3F) OR (opc AND 0xFF)"

definition AM_OPCODE :: "UINT32 \<Rightarrow> UINT32" where
  "AM_OPCODE x = 0xFF AND x"

definition IS_OP_ALIGNED :: "UINT32 \<Rightarrow> bool" where
  "IS_OP_ALIGNED x = (AM_PACK_ALIGN = AM_NET_GET_PACKTYPE x)"

definition IS_OP_PACKET :: "UINT32 \<Rightarrow> bool" where
  "IS_OP_PACKET x = (AM_KPACK = AM_NET_GET_PACKTYPE x)"

text \<open>\<open>(AM_PACK_... << 16) | AM_OP_...\<close>, as the \<open>create\<close> functions write it.\<close>

definition op_word :: "UINT32 \<Rightarrow> UINT32 \<Rightarrow> UINT32" where
  "op_word pack opc = push_bit 16 pack OR opc"

section \<open>Capabilities\<close>

record mem_cap =
  cap_amType :: UINT32
  cap_maxSize :: UINT64
  cap_subType :: UINT32
  cap_functionCount :: UINT32
  cap_access_flags :: UINT32
  cap_typeSpecific :: "UINT32 list"
  cap_acOps :: "UINT32 list"

definition wf_cap :: "mem_cap \<Rightarrow> bool" where
  "wf_cap c = (length (cap_typeSpecific c) = AM_MAX_TYPE_SPECIFIC \<and> length (cap_acOps c) = 2)"

text \<open>
  \<open>AM_MEM_CAP_T\<close> is 168 bytes: 4 bytes of padding before \<open>maxSize\<close> and 4 at the end. The capability
  objects of the program are static, so the padding they are copied with is zero.
\<close>

abbreviation (input) sizeof_MEM_CAP :: nat where "sizeof_MEM_CAP \<equiv> 168"

definition enc_mem_cap :: "mem_cap \<Rightarrow> bytes" where
  "enc_mem_cap c =
     le_enc 4 (cap_amType c) @ replicate 4 0 @ le_enc 8 (cap_maxSize c) @ le_enc 4 (cap_subType c) @
     le_enc 4 (cap_functionCount c) @ le_enc 4 (cap_access_flags c) @
     enc_words (cap_typeSpecific c) @ enc_words (cap_acOps c) @ replicate 4 0"

definition rd_mem_cap :: "bytes \<Rightarrow> nat \<Rightarrow> mem_cap res" where
  "rd_mem_cap b off =
     bindr (rd32 b off) (\<lambda>ty.
     bindr (rd64 b (off + 8)) (\<lambda>sz.
     bindr (rd32 b (off + 16)) (\<lambda>st.
     bindr (rd32 b (off + 20)) (\<lambda>fc.
     bindr (rd32 b (off + 24)) (\<lambda>fl.
     bindr (rd_words 32 b (off + 28)) (\<lambda>ts.
     bindr (rd_words 2 b (off + 156)) (\<lambda>ac.
     Inr \<lparr>cap_amType = ty, cap_maxSize = sz, cap_subType = st, cap_functionCount = fc,
          cap_access_flags = fl, cap_typeSpecific = ts, cap_acOps = ac\<rparr>)))))))"

record cap_details =
  cd_amType :: UINT32
  cd_amTypeSz :: bytes
  cd_subType :: UINT32
  cd_subTypeSz :: bytes
  cd_typeSpecificCount :: UINT32
  cd_typeSpecificSz :: "bytes list"

definition mk_details :: "UINT32 \<Rightarrow> string \<Rightarrow> UINT32 \<Rightarrow> string \<Rightarrow> UINT32 \<Rightarrow> string list \<Rightarrow> cap_details" where
  "mk_details ty tysz st stsz n ss =
     \<lparr>cd_amType = ty, cd_amTypeSz = c_array AM_DETAIL_DESC_LEN tysz, cd_subType = st,
      cd_subTypeSz = c_array AM_DETAIL_DESC_LEN stsz, cd_typeSpecificCount = n,
      cd_typeSpecificSz = map (c_array AM_DETAIL_DESC_LEN)
        (take AM_MAX_TYPE_SPECIFIC (ss @ replicate AM_MAX_TYPE_SPECIFIC ''''))\<rparr>"

text \<open>An initialiser of \<open>typeSpecific\<close>: the elements written, zeros behind them.\<close>

definition ts_init :: "UINT32 list \<Rightarrow> UINT32 list" where
  "ts_init ws = take AM_MAX_TYPE_SPECIFIC (ws @ replicate AM_MAX_TYPE_SPECIFIC 0)"

definition mk_cap :: "UINT32 \<Rightarrow> UINT64 \<Rightarrow> UINT32 \<Rightarrow> UINT32 \<Rightarrow> UINT32 \<Rightarrow> UINT32 list \<Rightarrow> mem_cap" where
  "mk_cap ty sz st fc fl ts =
     \<lparr>cap_amType = ty, cap_maxSize = sz, cap_subType = st, cap_functionCount = fc,
      cap_access_flags = fl, cap_typeSpecific = ts_init ts, cap_acOps = [0, 0]\<rparr>"

section \<open>The response to the creation of a function\<close>

record cr_resp =
  cr_am_name :: bytes
  cr_devt :: UINT32
  cr_flags :: UINT32
  cr_globalID :: UINT64
  cr_ops :: "UINT32 list"
  cr_acOps :: "UINT32 list"
  cr_data_size :: UINT32
  cr_idx_size :: UINT32
  cr_pack_DataOffset :: UINT8
  cr_wr_pack_qword_size :: UINT8
  cr_rd_pack_qword_size :: UINT8

definition wf_cr :: "cr_resp \<Rightarrow> bool" where
  "wf_cr r = (length (cr_am_name r) = 64 \<and> length (cr_ops r) = AM_OP_MAX_OPS \<and>
              length (cr_acOps r) = AM_MAX_ACCESS_OPS)"

text \<open>\<open>memset (.., 0, ..)\<close> of the structure.\<close>

definition zero_cr :: cr_resp where
  "zero_cr = \<lparr>cr_am_name = replicate 64 0, cr_devt = 0, cr_flags = 0, cr_globalID = 0,
     cr_ops = replicate 64 0, cr_acOps = replicate 2 0, cr_data_size = 0, cr_idx_size = 0,
     cr_pack_DataOffset = 0, cr_wr_pack_qword_size = 0, cr_rd_pack_qword_size = 0\<rparr>"

text \<open>\<open>APPMEM_RESP_CR_FUNC_T\<close> is 360 bytes, the last 5 of them padding of a zeroed object.\<close>

abbreviation (input) sizeof_CR_RESP :: nat where "sizeof_CR_RESP \<equiv> 360"

definition enc_cr_resp :: "cr_resp \<Rightarrow> bytes" where
  "enc_cr_resp r =
     cr_am_name r @ le_enc 4 (cr_devt r) @ le_enc 4 (cr_flags r) @ le_enc 8 (cr_globalID r) @
     enc_words (cr_ops r) @ enc_words (cr_acOps r) @ le_enc 4 (cr_data_size r) @
     le_enc 4 (cr_idx_size r) @ le_enc 1 (cr_pack_DataOffset r) @
     le_enc 1 (cr_wr_pack_qword_size r) @ le_enc 1 (cr_rd_pack_qword_size r) @ replicate 5 0"

definition rd_cr_resp :: "bytes \<Rightarrow> nat \<Rightarrow> cr_resp res" where
  "rd_cr_resp b off =
     bindr (getb b off 64) (\<lambda>nm.
     bindr (rd32 b (off + 64)) (\<lambda>dv.
     bindr (rd32 b (off + 68)) (\<lambda>fl.
     bindr (rd64 b (off + 72)) (\<lambda>gid.
     bindr (rd_words 64 b (off + 80)) (\<lambda>ops.
     bindr (rd_words 2 b (off + 336)) (\<lambda>ac.
     bindr (rd32 b (off + 344)) (\<lambda>ds.
     bindr (rd32 b (off + 348)) (\<lambda>is.
     bindr (rd8 b (off + 352)) (\<lambda>po.
     bindr (rd8 b (off + 353)) (\<lambda>wq.
     bindr (rd8 b (off + 354)) (\<lambda>rq.
     Inr \<lparr>cr_am_name = nm, cr_devt = dv, cr_flags = fl, cr_globalID = gid, cr_ops = ops,
          cr_acOps = ac, cr_data_size = ds, cr_idx_size = is, cr_pack_DataOffset = po,
          cr_wr_pack_qword_size = wq, cr_rd_pack_qword_size = rq\<rparr>)))))))))))"

section \<open>Version and sort parameters\<close>

record am_version =
  ver_major :: UINT8
  ver_minor :: UINT8
  ver_patch :: UINT8
  ver_build :: UINT8

definition AM_VERSION :: am_version where
  "AM_VERSION = \<lparr>ver_major = 0, ver_minor = 1, ver_patch = 2, ver_build = 0\<rparr>"

definition enc_version :: "am_version \<Rightarrow> bytes" where
  "enc_version v = [ver_major v, ver_minor v, ver_patch v, ver_build v]"

definition dwVersion :: "am_version \<Rightarrow> UINT32" where
  "dwVersion v = le_dec (enc_version v)"

text \<open>\<open>AM_SORT_PARAM_U\<close>, read through its member \<open>stata_integral\<close>: 20 bytes.\<close>

record sort_param =
  sp_type :: UINT32
  sp_start_idx :: UINT32
  sp_end_idx :: UINT32
  sp_order :: UINT32
  sp_data_signed :: UINT8

abbreviation (input) sizeof_SORT_PARAM :: nat where "sizeof_SORT_PARAM \<equiv> 20"
abbreviation (input) AM_SORT_TYPE_STATA_INTEGRAL_MERGE :: UINT32 where
  "AM_SORT_TYPE_STATA_INTEGRAL_MERGE \<equiv> 1"
abbreviation (input) AM_SORT_ORDER_ASC :: UINT32 where
  "AM_SORT_ORDER_ASC \<equiv> 0"
abbreviation (input) AM_SORT_ORDER_DESC :: UINT32 where
  "AM_SORT_ORDER_DESC \<equiv> 1"

definition enc_sort_param :: "sort_param \<Rightarrow> bytes" where
  "enc_sort_param p =
     le_enc 4 (sp_type p) @ le_enc 4 (sp_start_idx p) @ le_enc 4 (sp_end_idx p) @
     le_enc 4 (sp_order p) @ le_enc 1 (sp_data_signed p) @ replicate 3 0"

definition rd_sort_param :: "bytes \<Rightarrow> sort_param res" where
  "rd_sort_param b =
     bindr (rd32 b 0) (\<lambda>ty.
     bindr (rd32 b 4) (\<lambda>s.
     bindr (rd32 b 8) (\<lambda>e.
     bindr (rd32 b 12) (\<lambda>ord.
     bindr (rd8 b 16) (\<lambda>sg.
     Inr \<lparr>sp_type = ty, sp_start_idx = s, sp_end_idx = e, sp_order = ord, sp_data_signed = sg\<rparr>)))))"

section \<open>Packets\<close>

text \<open>
  A packet buffer is a block of \<open>MAX_BASIC_PACK_UNION_SIZE\<close> bytes that starts with the 8-byte
  wrapper: \<open>func_id\<close> at 0, \<open>packType\<close> at 2, \<open>op\<close> at 3, \<open>appTag\<close> at 4, \<open>size\<close> at 6.
\<close>

abbreviation (input) MAX_BASIC_PACK_UNION_SIZE :: nat where "MAX_BASIC_PACK_UNION_SIZE \<equiv> 512"
abbreviation (input) sizeof_WRAPPER :: nat where "sizeof_WRAPPER \<equiv> 8"
abbreviation (input) off_func_id :: nat where "off_func_id \<equiv> 0"
abbreviation (input) off_packType :: nat where "off_packType \<equiv> 2"
abbreviation (input) off_op :: nat where "off_op \<equiv> 3"
abbreviation (input) off_appTag :: nat where "off_appTag \<equiv> 4"
abbreviation (input) off_size :: nat where "off_size \<equiv> 6"

text \<open>Payload offsets of the members of \<open>AM_PACK_ALL_U\<close> and \<open>AM_PACK_RESP_U\<close>.\<close>

abbreviation (input) off_data_bytes :: nat where "off_data_bytes \<equiv> 8"
abbreviation (input) off_fivo_l1 :: nat where "off_fivo_l1 \<equiv> 8"
abbreviation (input) off_fivo_data_in :: nat where "off_fivo_data_in \<equiv> 16"
abbreviation (input) off_action_data_in :: nat where "off_action_data_in \<equiv> 8"
abbreviation (input) off_resp_bytes :: nat where "off_resp_bytes \<equiv> 8"
abbreviation (input) off_status :: nat where "off_status \<equiv> 8"

abbreviation (input) sizeof_IDENTIFY :: UINT32 where "sizeof_IDENTIFY \<equiv> 8"
abbreviation (input) sizeof_READ_ALIGN :: UINT32 where "sizeof_READ_ALIGN \<equiv> 12"
abbreviation (input) sizeof_WRITE_ALIGN :: UINT32 where "sizeof_WRITE_ALIGN \<equiv> 10"
abbreviation (input) sizeof_RESP_ERR :: UINT32 where "sizeof_RESP_ERR \<equiv> 12"
abbreviation (input) sizeof_RESP_IDENTIFY :: UINT32 where "sizeof_RESP_IDENTIFY \<equiv> 16"
abbreviation (input) sizeof_RESP_CAP_COUNT :: UINT32 where "sizeof_RESP_CAP_COUNT \<equiv> 12"

record pack_wrapper =
  w_func_id :: UINT16
  w_packType :: UINT8
  w_op :: UINT8
  w_appTag :: UINT16
  w_size :: UINT16

definition enc_wrapper :: "pack_wrapper \<Rightarrow> bytes" where
  "enc_wrapper w =
     le_enc 2 (w_func_id w) @ [w_packType w, w_op w] @ le_enc 2 (w_appTag w) @ le_enc 2 (w_size w)"

definition rd_wrapper :: "bytes \<Rightarrow> pack_wrapper res" where
  "rd_wrapper b =
     bindr (rd16 b off_func_id) (\<lambda>f.
     bindr (rd8 b off_packType) (\<lambda>p.
     bindr (rd8 b off_op) (\<lambda>opc.
     bindr (rd16 b off_appTag) (\<lambda>t.
     bindr (rd16 b off_size) (\<lambda>s.
     Inr \<lparr>w_func_id = f, w_packType = p, w_op = opc, w_appTag = t, w_size = s\<rparr>)))))"

section \<open>Round trips\<close>

lemma length_enc_mem_cap: "wf_cap c \<Longrightarrow> length (enc_mem_cap c) = sizeof_MEM_CAP"
  by (simp add: enc_mem_cap_def wf_cap_def)

lemma length_enc_cr_resp: "wf_cr r \<Longrightarrow> length (enc_cr_resp r) = sizeof_CR_RESP"
  by (simp add: enc_cr_resp_def wf_cr_def)

lemma length_enc_sort_param [simp]: "length (enc_sort_param p) = sizeof_SORT_PARAM"
  by (simp add: enc_sort_param_def)

lemma length_enc_wrapper [simp]: "length (enc_wrapper w) = sizeof_WRAPPER"
  by (simp add: enc_wrapper_def)

lemma wf_mk_cap [simp]: "wf_cap (mk_cap ty sz st fc fl ts)"
  by (simp add: wf_cap_def mk_cap_def ts_init_def)

lemma wf_zero_cr [simp]: "wf_cr zero_cr"
  by (simp add: wf_cr_def zero_cr_def)

lemmas rd_enc_simps = rd_defs rd_enc rd_words_append2 rd_words_enc
  getb_append1 getb_append2

lemma rd_mem_cap_prefix: "rd_mem_cap (pre @ b) (length pre + off) = rd_mem_cap b off"
  by (simp add: rd_mem_cap_def rd_defs rd_append2 rd_words_append2)

lemma rd_enc_mem_cap: "wf_cap c \<Longrightarrow> rd_mem_cap (enc_mem_cap c @ post) 0 = Inr c"
  unfolding rd_mem_cap_def enc_mem_cap_def wf_cap_def append_assoc
  by (simp add: rd_enc_simps)

lemma rd_enc_cr_resp: "wf_cr r \<Longrightarrow> rd_cr_resp (enc_cr_resp r @ post) 0 = Inr r"
  unfolding rd_cr_resp_def enc_cr_resp_def wf_cr_def append_assoc
  by (simp add: rd_enc_simps) (simp add: getb_def)

lemma rd_enc_sort_param: "rd_sort_param (enc_sort_param p @ post) = Inr p"
  unfolding rd_sort_param_def enc_sort_param_def append_assoc
  by (simp add: rd_enc_simps)

lemma rd_enc_wrapper: "rd_wrapper (enc_wrapper w @ post) = Inr w"
proof -
  have "enc_wrapper w @ post = le_enc 2 (w_func_id w) @ le_enc 1 (w_packType w) @
      le_enc 1 (w_op w) @ le_enc 2 (w_appTag w) @ le_enc 2 (w_size w) @ post"
    by (simp add: enc_wrapper_def)
  then show ?thesis
    by (simp add: rd_wrapper_def rd_enc_simps)
qed

lemma wf_rd_mem_cap: "rd_mem_cap b off = Inr c \<Longrightarrow> wf_cap c"
  by (auto simp: rd_mem_cap_def res_simps wf_cap_def dest: rd_words_length)

lemma rd_mem_cap_total:
  assumes "off + sizeof_MEM_CAP \<le> length b"
  shows "\<exists>c. rd_mem_cap b off = Inr c \<and> wf_cap c"
proof -
  obtain ts where ts: "rd_words 32 b (off + 28) = Inr ts" using rd_words_total [of "off + 28" 32 b] assms by auto
  obtain ac where ac: "rd_words 2 b (off + 156) = Inr ac" using rd_words_total [of "off + 156" 2 b] assms by auto
  have "\<exists>c. rd_mem_cap b off = Inr c"
    using assms ts ac by (simp add: rd_mem_cap_def rd_defs rd_in_bounds)
  then show ?thesis using wf_rd_mem_cap by blast
qed

lemma op_word_packtype:
  "pack AND 0x3F = pack \<Longrightarrow> opc AND 0xFF = opc \<Longrightarrow>
     op_word pack opc = AM_SET_PACKTYPE pack opc"
  by (simp add: op_word_def AM_SET_PACKTYPE_def)

end
