(* ===== verification/AM_Func.thy ===== *)
theory AM_Func
  imports AM_Types UT_Hash
begin

text \<open>
  Function objects: \<open>AM_MEM_FUNCTION_T\<close>, the union of the device data it points to, its operator
  table \<open>pfnOps\<close> and its table of client calls (\<^verbatim>\<open>inc/appmemlib.h\<close>, \<^verbatim>\<open>inc/appmemd_ioctl.h\<close>,
  \<^verbatim>\<open>inc/am_assca.h\<close>, \<^verbatim>\<open>inc/am_list.h\<close>).

  The member \<open>common.flags\<close> of the data union is left out: no user-mode code writes it, and the
  user-mode \<open>GET32_FROM_USER\<close>, \<open>PUT32_TO_USER\<close> and \<open>COPY_TO_USER\<close> do not read it. The kernel module
  does both; there it is a member of the device (\<^verbatim>\<open>AM_Kernel\<close>).
\<close>

section \<open>Function pointers\<close>

text \<open>Every function of the program whose address is stored in a table.\<close>

datatype fn_ptr =
    Fn_targ_release | Fn_targ_open | Fn_targ_close
  | Fn_targ_identify_resp | Fn_targ_get_cap_count
  | Fn_targ_get_cap | Fn_targ_create_function
  | Fn_flat_read32_align | Fn_flat_write32_align
  | Fn_flat_read32 | Fn_flat_write32 | Fn_flat_release
  | Fn_stata_read_idx32 | Fn_stata_write_idx32 | Fn_stata_release | Fn_stata_sort
  | Fn_assca_read32_align | Fn_assca_write32_align
  | Fn_assca_read32 | Fn_assca_write32 | Fn_assca_release | Fn_assca_iter
  | Fn_list_add_fix
  | Fn_virtd_open | Fn_virtd_close
  | Fn_pack_read_align | Fn_pack_read32_align | Fn_pack_write_align | Fn_pack_write32_align
  | Fn_pack_sort | Fn_net_open | Fn_net_close
  | Fn_k_get_cap_count | Fn_k_get_capabilites | Fn_k_get_cap_details | Fn_k_create_function
  | Fn_kd_open | Fn_kd_close | Fn_kd_write32_align | Fn_kd_read32_align
  | Fn_kd_fixed_write_packet | Fn_kd_fixed_read_packet

text \<open>The member of the union \<open>AM_FN_U\<close> a function belongs to, that is, the type it is called with.\<close>

datatype fn_type = Ft_config | Ft_func | Ft_align | Ft_raw | Ft_action | Ft_op_only | Ft_fivo | Ft_iter

fun fn_type_of :: "fn_ptr \<Rightarrow> fn_type" where
  "fn_type_of Fn_targ_release = Ft_op_only"
| "fn_type_of Fn_targ_open = Ft_op_only"
| "fn_type_of Fn_targ_close = Ft_op_only"
| "fn_type_of Fn_targ_identify_resp = Ft_op_only"
| "fn_type_of Fn_targ_get_cap_count = Ft_op_only"
| "fn_type_of Fn_targ_get_cap = Ft_fivo"
| "fn_type_of Fn_targ_create_function = Ft_fivo"
| "fn_type_of Fn_flat_read32_align = Ft_align"
| "fn_type_of Fn_flat_write32_align = Ft_align"
| "fn_type_of Fn_flat_read32 = Ft_func"
| "fn_type_of Fn_flat_write32 = Ft_func"
| "fn_type_of Fn_flat_release = Ft_config"
| "fn_type_of Fn_stata_read_idx32 = Ft_align"
| "fn_type_of Fn_stata_write_idx32 = Ft_align"
| "fn_type_of Fn_stata_release = Ft_config"
| "fn_type_of Fn_stata_sort = Ft_action"
| "fn_type_of Fn_assca_read32_align = Ft_align"
| "fn_type_of Fn_assca_write32_align = Ft_align"
| "fn_type_of Fn_assca_read32 = Ft_func"
| "fn_type_of Fn_assca_write32 = Ft_func"
| "fn_type_of Fn_assca_release = Ft_config"
| "fn_type_of Fn_assca_iter = Ft_iter"
| "fn_type_of Fn_list_add_fix = Ft_config"
| "fn_type_of Fn_virtd_open = Ft_raw"
| "fn_type_of Fn_virtd_close = Ft_raw"
| "fn_type_of Fn_pack_read_align = Ft_align"
| "fn_type_of Fn_pack_read32_align = Ft_align"
| "fn_type_of Fn_pack_write_align = Ft_align"
| "fn_type_of Fn_pack_write32_align = Ft_align"
| "fn_type_of Fn_pack_sort = Ft_action"
| "fn_type_of Fn_net_open = Ft_raw"
| "fn_type_of Fn_net_close = Ft_raw"
| "fn_type_of Fn_k_get_cap_count = Ft_config"
| "fn_type_of Fn_k_get_capabilites = Ft_config"
| "fn_type_of Fn_k_get_cap_details = Ft_config"
| "fn_type_of Fn_k_create_function = Ft_config"
| "fn_type_of Fn_kd_open = Ft_raw"
| "fn_type_of Fn_kd_close = Ft_raw"
| "fn_type_of Fn_kd_write32_align = Ft_align"
| "fn_type_of Fn_kd_read32_align = Ft_align"
| "fn_type_of Fn_kd_fixed_write_packet = Ft_align"
| "fn_type_of Fn_kd_fixed_read_packet = Ft_align"

section \<open>Device data\<close>

record flat_data =
  fl_data :: "bytes ptr"
  fl_size :: UINT64
  fl_add_size :: UINT32

record stata_data =
  st_data :: "bytes ptr"
  st_size :: UINT64
  st_array_size :: UINT64
  st_idx_size :: UINT32
  st_data_size :: UINT32

text \<open>
  \<open>AMLIB_ASSCA\<close>. Its items hold key and data behind the structure; here the key is the key of the
  hash element and the data its value. The member \<open>flags\<close> is never written.
\<close>

record amlib_assca =
  aa_key_len :: UINT32
  aa_data_len :: UINT32
  aa_bFixedKey :: UINT8
  aa_bFixedData :: UINT8
  aa_iters :: "nat option list"
  aa_hash :: "bytes ut_hash"

record assca_data =
  as_data :: "amlib_assca ptr"
  as_size :: UINT64
  as_cur_count :: UINT32

record amlib_list_item =
  it_data :: bytes
  it_data_size :: UINT32

text \<open>\<open>AMLIB_LIST\<close>: the items reached from \<open>head\<close> through \<open>next\<close>, first to last.\<close>

record amlib_list =
  li_list_type :: UINT32
  li_elem_count :: UINT32
  li_data_type :: UINT32
  li_data_size :: UINT32
  li_head :: "amlib_list_item list"

text \<open>\<open>FdRaw\<close>: allocated, but no member was written yet.\<close>

datatype func_data =
    FdFlat flat_data | FdStata stata_data | FdAssca assca_data | FdList amlib_list | FdRaw

fun fd_flat :: "func_data \<Rightarrow> flat_data res" where
  "fd_flat (FdFlat d) = Inr d"
| "fd_flat FdRaw = Inl Uninit"
| "fd_flat _ = Inl BadUnion"

fun fd_stata :: "func_data \<Rightarrow> stata_data res" where
  "fd_stata (FdStata d) = Inr d"
| "fd_stata FdRaw = Inl Uninit"
| "fd_stata _ = Inl BadUnion"

fun fd_assca :: "func_data \<Rightarrow> assca_data res" where
  "fd_assca (FdAssca d) = Inr d"
| "fd_assca FdRaw = Inl Uninit"
| "fd_assca _ = Inl BadUnion"

fun fd_list :: "func_data \<Rightarrow> amlib_list res" where
  "fd_list (FdList d) = Inr d"
| "fd_list FdRaw = Inl Uninit"
| "fd_list _ = Inl BadUnion"

section \<open>Function objects\<close>

record func_calls =
  fc_open :: "fn_ptr option"
  fc_close :: "fn_ptr option"
  fc_release :: "fn_ptr option"
  fc_read :: "fn_ptr option"
  fc_write :: "fn_ptr option"
  fc_read_al :: "fn_ptr option"
  fc_write_al :: "fn_ptr option"
  fc_add_al :: "fn_ptr option"
  fc_get_al :: "fn_ptr option"
  fc_copy :: "fn_ptr option"
  fc_iter :: "fn_ptr option"
  fc_sort :: "fn_ptr option"

definition zero_calls :: func_calls where
  "zero_calls = \<lparr>fc_open = None, fc_close = None, fc_release = None, fc_read = None,
     fc_write = None, fc_read_al = None, fc_write_al = None, fc_add_al = None, fc_get_al = None,
     fc_copy = None, fc_iter = None, fc_sort = None\<rparr>"

text \<open>
  \<open>fn_pEntry\<close> and the two \<open>pkAc\<close> members only matter as null or not null: the functions behind
  \<open>pkAc\<close> are the transport, a parameter of the packet layer.
\<close>

record mem_func =
  fn_handle :: UINT32
  fn_amCap :: mem_cap
  fn_crResp :: cr_resp
  fn_calls :: "func_calls option"
  fn_pVdF :: "func_data ptr"
  fn_pfnOps :: "fn_ptr option list option"
  fn_pEntry :: bool
  fn_send_and_wait :: bool
  fn_get_free_iop :: bool
  fn_amType :: UINT32

definition zero_cap :: mem_cap where
  "zero_cap = mk_cap 0 0 0 0 0 []"

definition zero_func :: mem_func where
  "zero_func = \<lparr>fn_handle = 0, fn_amCap = zero_cap, fn_crResp = zero_cr, fn_calls = None,
     fn_pVdF = Null, fn_pfnOps = None, fn_pEntry = False, fn_send_and_wait = False,
     fn_get_free_iop = False, fn_amType = 0\<rparr>"

text \<open>\<open>memset (pfnOps, 0, sizeof (am_cmd_fn) * AM_OP_MAX_OPS)\<close>\<close>

definition zero_ops :: "fn_ptr option list" where
  "zero_ops = replicate AM_OP_MAX_OPS None"

definition wf_func :: "mem_func \<Rightarrow> bool" where
  "wf_func f \<longleftrightarrow> wf_cr (fn_crResp f) \<and>
     (case fn_pfnOps f of None \<Rightarrow> True | Some ops \<Rightarrow> length ops = AM_OP_MAX_OPS)"

definition upd_cr :: "(cr_resp \<Rightarrow> cr_resp) \<Rightarrow> mem_func \<Rightarrow> mem_func" where
  "upd_cr g f = f\<lparr>fn_crResp := g (fn_crResp f)\<rparr>"

text \<open>\<open>pFunc->pfnOps[op] = fp\<close> and \<open>pFunc->crResp.ops[op] = w\<close> for a constant \<open>op\<close> below 64.\<close>

definition set_op :: "UINT32 \<Rightarrow> fn_ptr \<Rightarrow> mem_func \<Rightarrow> mem_func" where
  "set_op opc fp f = f\<lparr>fn_pfnOps := map_option (\<lambda>ops. ops[unat opc := Some fp]) (fn_pfnOps f)\<rparr>"

definition set_cr_op :: "UINT32 \<Rightarrow> UINT32 \<Rightarrow> mem_func \<Rightarrow> mem_func" where
  "set_cr_op opc w = upd_cr (\<lambda>r. r\<lparr>cr_ops := (cr_ops r)[unat opc := w]\<rparr>)"

definition set_acOps :: "UINT32 \<Rightarrow> UINT32 \<Rightarrow> mem_func \<Rightarrow> mem_func" where
  "set_acOps w r = upd_cr (\<lambda>c. c\<lparr>cr_acOps := [w, r]\<rparr>)"

text \<open>The operators every device function has, with their entries in \<open>crResp.ops\<close>.\<close>

definition set_base_ops :: "mem_func \<Rightarrow> mem_func" where
  "set_base_ops f =
     set_cr_op AM_OP_CLOSE_FUNC (op_word AM_PACK_TYPE_OPCODE_ONLY AM_OP_CLOSE_FUNC)
     (set_op AM_OP_CLOSE_FUNC Fn_targ_close
     (set_cr_op AM_OP_OPEN_FUNC (op_word AM_PACK_TYPE_OPCODE_ONLY AM_OP_OPEN_FUNC)
     (set_op AM_OP_OPEN_FUNC Fn_targ_open
     (set_cr_op AM_OP_RELEASE_FUNC (op_word AM_PACK_TYPE_OPCODE_ONLY AM_OP_RELEASE_FUNC)
     (set_op AM_OP_RELEASE_FUNC Fn_targ_release f)))))"

text \<open>\<open>sprintf (pFunc->crResp.am_name, ..)\<close>\<close>

definition set_name :: "string \<Rightarrow> mem_func \<Rightarrow> mem_func res" where
  "set_name s f = bindr (sprintf_to (cr_am_name (fn_crResp f)) s) (\<lambda>nm.
     Inr (upd_cr (\<lambda>r. r\<lparr>cr_am_name := nm\<rparr>) f))"

section \<open>Client memory\<close>

text \<open>
  The arguments \<open>p1\<close> and \<open>p2\<close> of an operator: null, or the block behind the pointer. An aligned
  operator answers its status, the function object and the block behind \<open>p2\<close> afterwards.
\<close>

type_synonym buf = "bytes option"

definition the_buf :: "buf \<Rightarrow> bytes res" where
  "the_buf p = (case p of None \<Rightarrow> Inl NullDeref | Some b \<Rightarrow> Inr b)"

lemma the_buf_simps [simp]: "the_buf None = Inl NullDeref" "the_buf (Some b) = Inr b"
  by (simp_all add: the_buf_def)

lemma the_buf_Inr [res_simps]: "the_buf p = Inr b \<longleftrightarrow> p = Some b"
  by (cases p) auto

type_synonym align_res = "(AM_RETURN \<times> mem_func \<times> buf) res"

text \<open>A block the allocator returns: \<open>junk\<close> is what it holds.\<close>

definition fresh :: "(nat \<Rightarrow> UINT8) \<Rightarrow> nat \<Rightarrow> bytes" where
  "fresh junk n = map junk [0..<n]"

lemma length_fresh [simp]: "length (fresh junk n) = n"
  by (simp add: fresh_def)

lemma fn_upd_simps [simp]:
  "fn_pVdF (upd_cr g f) = fn_pVdF f" "fn_handle (upd_cr g f) = fn_handle f"
  "fn_pfnOps (upd_cr g f) = fn_pfnOps f" "fn_crResp (upd_cr g f) = g (fn_crResp f)"
  "fn_pVdF (set_op i p f) = fn_pVdF f" "fn_handle (set_op i p f) = fn_handle f"
  "fn_crResp (set_op i p f) = fn_crResp f"
  "fn_pfnOps (set_op i p f) = map_option (\<lambda>ops. ops[unat i := Some p]) (fn_pfnOps f)"
  by (simp_all add: upd_cr_def set_op_def)

end
