(* ===== verification/AM_Device.thy ===== *)
theory AM_Device
  imports AM_Func
begin

text \<open>
  The contract of a device function that is read and written 32 bits at a time through its
  operators \<open>READ_ALIGN\<close> and \<open>WRITE_ALIGN\<close>, and what a client may conclude from it. The flat memory
  and the static array provide it, and so does such a device behind the packet protocol. \<open>'f\<close> is the
  state a device has: a function object, or a whole remote target.
\<close>

text \<open>A client that writes a list of (address, data) pairs, stopping at the first status that is not good.\<close>

fun write_all ::
  "('f \<Rightarrow> buf \<Rightarrow> buf \<Rightarrow> (AM_RETURN \<times> 'f \<times> buf) res) \<Rightarrow> 'f \<Rightarrow> (bytes \<times> bytes) list \<Rightarrow>
   (AM_RETURN \<times> 'f) res" where
  "write_all wr f [] = Inr (AM_RET_GOOD, f)"
| "write_all wr f ((k, d) # ws) =
     bindr (wr f (Some k) (Some d)) (\<lambda>(st, f', _).
     if st = AM_RET_GOOD then write_all wr f' ws else Inr (st, f'))"

text \<open>The last data a list of writes puts into the cell at byte \<open>p\<close>, none if there is none.\<close>

fun last_write :: "(bytes \<Rightarrow> nat option) \<Rightarrow> (bytes \<times> bytes) list \<Rightarrow> nat \<Rightarrow> bytes option" where
  "last_write cell [] p = None"
| "last_write cell ((k, d) # ws) p =
     (case last_write cell ws p of
        Some d' \<Rightarrow> Some d'
      | None \<Rightarrow> if cell k = Some p then Some (take 4 d) else None)"

text \<open>All addresses written are valid and their cells equal the one at \<open>q\<close> or do not overlap it.\<close>

definition writes_fit :: "(bytes \<Rightarrow> nat option) \<Rightarrow> (bytes \<times> bytes) list \<Rightarrow> nat \<Rightarrow> bool" where
  "writes_fit cell ws q \<longleftrightarrow> (\<forall>(k, d)\<in>set ws. 4 \<le> length d \<and>
     (\<exists>p. cell k = Some p \<and> (p = q \<or> q + 4 \<le> p \<or> p + 4 \<le> q)))"

definition splice_at :: "bytes \<Rightarrow> nat \<Rightarrow> bytes \<Rightarrow> bytes" where
  "splice_at b p xs = take p b @ xs @ drop (p + length xs) b"

lemma length_splice_at [simp]: "p + length xs \<le> length b \<Longrightarrow> length (splice_at b p xs) = length b"
  by (simp add: splice_at_def)

lemma splice_at_same: "p + length xs \<le> length b \<Longrightarrow> n = length xs \<Longrightarrow> take n (drop p (splice_at b p xs)) = xs"
  by (simp add: splice_at_def)

lemma splice_at_other:
  assumes "p + length xs \<le> length b" and "q + n \<le> p \<or> p + length xs \<le> q"
  shows "take n (drop q (splice_at b p xs)) = take n (drop q b)"
proof (rule nth_equalityI)
  show "length (take n (drop q (splice_at b p xs))) = length (take n (drop q b))" using assms by simp
next
  fix i assume "i < length (take n (drop q (splice_at b p xs)))"
  then show "take n (drop q (splice_at b p xs)) ! i = take n (drop q b) ! i"
    using assms by (auto simp: splice_at_def nth_append)
qed

lemma putb_splice_at: "p + length xs \<le> length b \<Longrightarrow> putb b p xs = Inr (splice_at b p xs)"
  by (simp add: putb_def splice_at_def)

locale aligned_device =
  fixes read_al :: "'f \<Rightarrow> buf \<Rightarrow> buf \<Rightarrow> (AM_RETURN \<times> 'f \<times> buf) res"
    and write_al :: "'f \<Rightarrow> buf \<Rightarrow> buf \<Rightarrow> (AM_RETURN \<times> 'f \<times> buf) res"
    and store :: "'f \<Rightarrow> bytes"
    and cell :: "'f \<Rightarrow> bytes \<Rightarrow> nat option"
  assumes cell_bound: "cell f k = Some p \<Longrightarrow> p + 4 \<le> length (store f)"
    and read_ok: "cell f k = Some p \<Longrightarrow> 4 \<le> length d \<Longrightarrow>
      \<exists>f'. read_al f (Some k) (Some d) = Inr (AM_RET_GOOD, f', Some (take 4 (drop p (store f)) @ drop 4 d)) \<and>
           store f' = store f \<and> cell f' = cell f"
    and write_ok: "cell f k = Some p \<Longrightarrow> 4 \<le> length d \<Longrightarrow>
      \<exists>f'. write_al f (Some k) (Some d) = Inr (AM_RET_GOOD, f', Some d) \<and>
           store f' = splice_at (store f) p (take 4 d) \<and> cell f' = cell f"
begin

lemma read_after_write:
  assumes "cell f k = Some p" "4 \<le> length d" "4 \<le> length d'"
    and "cell f k' = Some q" "q = p \<or> q + 4 \<le> p \<or> p + 4 \<le> q"
  shows "\<exists>f' f''. write_al f (Some k) (Some d) = Inr (AM_RET_GOOD, f', Some d) \<and>
    read_al f' (Some k') (Some d') = Inr (AM_RET_GOOD, f'',
      Some ((if q = p then take 4 d else take 4 (drop q (store f))) @ drop 4 d'))"
proof -
  obtain f' where f': "write_al f (Some k) (Some d) = Inr (AM_RET_GOOD, f', Some d)"
    "store f' = splice_at (store f) p (take 4 d)" "cell f' = cell f"
    using write_ok [OF assms(1,2)] by blast
  obtain f'' where "read_al f' (Some k') (Some d') = Inr (AM_RET_GOOD, f'', Some (take 4 (drop q (store f')) @ drop 4 d'))"
    using read_ok [of f' k' q d'] assms(3,4) f'(3) by auto
  moreover have "take 4 (drop q (store f')) = (if q = p then take 4 d else take 4 (drop q (store f)))"
    using f'(2) assms(2,5) cell_bound [OF assms(1)] by (auto simp: splice_at_same splice_at_other)
  ultimately show ?thesis using f'(1) by auto
qed

lemma write_all_ok:
  assumes "writes_fit (cell f) ws q"
  shows "\<exists>f'. write_all write_al f ws = Inr (AM_RET_GOOD, f') \<and> cell f' = cell f \<and>
    length (store f') = length (store f) \<and>
    (q + 4 \<le> length (store f) \<longrightarrow>
      take 4 (drop q (store f')) =
        (case last_write (cell f) ws q of Some d \<Rightarrow> d | None \<Rightarrow> take 4 (drop q (store f))))"
  using assms
proof (induction ws arbitrary: f)
  case Nil
  then show ?case by simp
next
  case (Cons w ws)
  obtain k d where w: "w = (k, d)" by (cases w)
  obtain p where p: "cell f k = Some p" and d: "4 \<le> length d" using Cons.prems w by (auto simp: writes_fit_def)
  obtain f1 where f1: "write_al f (Some k) (Some d) = Inr (AM_RET_GOOD, f1, Some d)"
    "store f1 = splice_at (store f) p (take 4 d)" "cell f1 = cell f"
    using write_ok [OF p d] by blast
  have len: "length (store f1) = length (store f)" using f1(2) cell_bound [OF p] d by simp
  have pre: "writes_fit (cell f1) ws q" using Cons.prems f1(3) by (simp add: writes_fit_def)
  obtain f' where IH: "write_all write_al f1 ws = Inr (AM_RET_GOOD, f')" "cell f' = cell f"
    "length (store f') = length (store f)"
    "q + 4 \<le> length (store f) \<longrightarrow> take 4 (drop q (store f')) =
       (case last_write (cell f) ws q of Some d \<Rightarrow> d | None \<Rightarrow> take 4 (drop q (store f1)))"
    using Cons.IH [OF pre] unfolding f1(3) len by blast
  have "take 4 (drop q (store f1)) = (if p = q then take 4 d else take 4 (drop q (store f)))"
    using f1(2) d cell_bound [OF p] Cons.prems p w
    by (auto simp: splice_at_same splice_at_other writes_fit_def)
  then show ?case using f1(1) IH p by (auto simp: w split: option.splits)
qed

lemma last_write_wins:
  assumes "writes_fit (cell f) ws q"
    and "cell f k = Some q" "4 \<le> length d"
  shows "\<exists>f' f''. write_all write_al f ws = Inr (AM_RET_GOOD, f') \<and>
    read_al f' (Some k) (Some d) = Inr (AM_RET_GOOD, f'',
      Some ((case last_write (cell f) ws q of Some x \<Rightarrow> x | None \<Rightarrow> take 4 (drop q (store f))) @ drop 4 d))"
proof -
  obtain f' where f': "write_all write_al f ws = Inr (AM_RET_GOOD, f')" "cell f' = cell f"
    "q + 4 \<le> length (store f) \<longrightarrow> take 4 (drop q (store f')) =
        (case last_write (cell f) ws q of Some d \<Rightarrow> d | None \<Rightarrow> take 4 (drop q (store f)))"
    using write_all_ok [OF assms(1)] by blast
  moreover obtain f'' where "read_al f' (Some k) (Some d) = Inr (AM_RET_GOOD, f'', Some (take 4 (drop q (store f')) @ drop 4 d))"
    using read_ok [of f' k q d] assms(2,3) f'(2) by auto
  ultimately show ?thesis using cell_bound [OF assms(2)] by auto
qed

end

end
