(* ===== verification/AM_Flat.thy ===== *)
theory AM_Flat
  imports AM_Device
begin

text \<open>The flat memory device, \<^verbatim>\<open>appmemlib/am_flat.c\<close>.\<close>

abbreviation (input) TS_FLAT_ADDRESS_BYTE_SIZE :: nat where "TS_FLAT_ADDRESS_BYTE_SIZE \<equiv> 0"
abbreviation (input) TS_INIT_MEM_VAL :: nat where "TS_INIT_MEM_VAL \<equiv> 2"

definition am_flat_open :: "mem_func \<Rightarrow> AM_RETURN" where
  "am_flat_open f = AM_RET_GOOD"

definition am_flat_close :: "mem_func \<Rightarrow> AM_RETURN" where
  "am_flat_close f = AM_RET_GOOD"

definition am_flat_release :: "mem_func \<Rightarrow> (AM_RETURN \<times> mem_func) res" where
  "am_flat_release f =
     (if fn_pVdF f = Null then Inr (AM_RET_GOOD, f)
      else
        bindr (deref (fn_pVdF f)) (\<lambda>u.
        bindr (fd_flat u) (\<lambda>fd.
        bindr (if fl_data fd = Dangling then Inl UseAfterFree else Inr ()) (\<lambda>_.
        Inr (AM_RET_GOOD, f\<lparr>fn_pVdF := Dangling\<rparr>)))))"

definition am_flat_read32 :: "mem_func \<Rightarrow> AM_RETURN" where
  "am_flat_read32 f = AM_RET_IO_ERR"

definition am_flat_write32 :: "mem_func \<Rightarrow> AM_RETURN" where
  "am_flat_write32 f = AM_RET_IO_ERR"

definition am_flat_read32_align :: "mem_func \<Rightarrow> buf \<Rightarrow> buf \<Rightarrow> align_res" where
  "am_flat_read32_align f p1 p2 =
     bindr (the_buf p1) (\<lambda>b1.
     bindr (rd32 b1 0) (\<lambda>offset.
     bindr (deref (fn_pVdF f)) (\<lambda>u.
     bindr (fd_flat u) (\<lambda>fd.
     bindr (deref (fl_data fd)) (\<lambda>mem.
     bindr (rd32 mem (unat offset)) (\<lambda>v.
     bindr (the_buf p2) (\<lambda>b2.
     bindr (wr32 b2 0 v) (\<lambda>b2'.
     Inr (AM_RET_GOOD, f, Some b2')))))))))"

definition am_flat_write32_align :: "mem_func \<Rightarrow> buf \<Rightarrow> buf \<Rightarrow> align_res" where
  "am_flat_write32_align f p1 p2 =
     bindr (the_buf p1) (\<lambda>b1.
     bindr (rd32 b1 0) (\<lambda>offset.
     bindr (deref (fn_pVdF f)) (\<lambda>u.
     bindr (fd_flat u) (\<lambda>fd.
     bindr (the_buf p2) (\<lambda>b2.
     bindr (rd32 b2 0) (\<lambda>v.
     bindr (deref (fl_data fd)) (\<lambda>mem.
     bindr (wr32 mem (unat offset) v) (\<lambda>mem'.
     Inr (AM_RET_GOOD, f\<lparr>fn_pVdF := Live (FdFlat (fd\<lparr>fl_data := Live mem'\<rparr>))\<rparr>, p2)))))))))"

text \<open>
  \<open>al 0\<close> is the allocation of the data union, \<open>al 1\<close> that of the memory; \<open>junk\<close> is what fresh memory
  holds. The memory is cleared unless the capability asks for an initial value, which is not
  implemented: it then keeps what it held.
\<close>

definition am_create_flat_device ::
  "alloc \<Rightarrow> (nat \<Rightarrow> UINT8) \<Rightarrow> mem_func \<Rightarrow> mem_cap \<Rightarrow> (AM_RETURN \<times> mem_func) res" where
  "am_create_flat_device al junk f cap =
     bindr (AM_ASSERT (fn_pfnOps f \<noteq> None)) (\<lambda>_.
     if \<not> al 0 then Inr (AM_RET_ALLOC_ERR, f)
     else if \<not> al 1 then Inr (AM_RET_ALLOC_ERR, f)
     else
       let size = cap_maxSize cap;
           add_size = cap_typeSpecific cap ! TS_FLAT_ADDRESS_BYTE_SIZE;
           mem = (if cap_typeSpecific cap ! TS_INIT_MEM_VAL \<noteq> 0 then fresh junk (unat size)
                  else replicate (unat size) 0);
           pVdF = FdFlat \<lparr>fl_data = Live mem, fl_size = size, fl_add_size = add_size\<rparr>;
           f = set_base_ops f;
           f = set_op AM_OP_WRITE_ALIGN Fn_flat_write32_align f;
           f = set_op AM_OP_READ_ALIGN Fn_flat_read32_align f;
           f = set_acOps (op_word AM_PACK_ALIGN AM_OP_WRITE_ALIGN) (op_word AM_PACK_ALIGN AM_OP_READ_ALIGN) f;
           f = upd_cr (\<lambda>r. r\<lparr>cr_idx_size := add_size, cr_data_size := add_size,
                              cr_pack_DataOffset := ucast add_size\<rparr>) f;
           f = f\<lparr>fn_pVdF := Live pVdF\<rparr>
       in
       bindr (set_name (''am_flat_'' @ fmt_04x (fn_handle f)) f) (\<lambda>f.
       Inr (AM_RET_GOOD, upd_cr (\<lambda>r. r\<lparr>cr_devt := fn_handle f\<rparr>) f)))"

section \<open>Registration data\<close>

definition flat_caps :: mem_cap where
  "flat_caps = mk_cap AM_TYPE_FLAT_MEM (1024 * 1024) 1 7 0 [8 OR 4 OR 2 OR 1, 1, 1024 * 1024]"

definition flat_cap_details :: "cap_details list" where
  "flat_cap_details = [mk_details AM_TYPE_FLAT_MEM ''Flat Memory'' 0 ''Flat Memory - Native C'' 3
     [''Address Size in Bytes (1,2,4,8)'', ''Min Data Addressability - Bytes'',
      ''32 Bit Initializer - (memset)'']]"

section \<open>The device contract\<close>

definition flat_store :: "mem_func \<Rightarrow> bytes" where
  "flat_store f = (case fn_pVdF f of
     Live (FdFlat fd) \<Rightarrow> (case fl_data fd of Live mem \<Rightarrow> mem | _ \<Rightarrow> [])
   | _ \<Rightarrow> [])"

text \<open>The byte offset an address names, if the 32 bits there lie inside the memory.\<close>

definition flat_cell :: "mem_func \<Rightarrow> bytes \<Rightarrow> nat option" where
  "flat_cell f k =
     (let p = unat (le_dec (take 4 k) :: UINT32) in
      if 4 \<le> length k \<and> p + 4 \<le> length (flat_store f) then Some p else None)"

lemma flat_cellD:
  assumes "flat_cell f k = Some p"
  obtains fd mem where "fn_pVdF f = Live (FdFlat fd)" "fl_data fd = Live mem" "flat_store f = mem"
    "4 \<le> length k" "p = unat (le_dec (take 4 k) :: UINT32)" "p + 4 \<le> length mem"
  using assms
  by (auto simp: flat_cell_def flat_store_def Let_def split: if_splits ptr.splits func_data.splits)

lemma le_enc_le_dec_word: "4 \<le> length b \<Longrightarrow> le_enc 4 (le_dec (take 4 b) :: UINT32) = take 4 b"
  using le_enc_dec [of "take 4 b", where 'a = 32] by (simp add: min_absorb2)

lemma wr32_le_dec:
  "4 \<le> length b \<Longrightarrow> q + 4 \<le> length m \<Longrightarrow> wr32 m q (le_dec (take 4 b)) = Inr (splice_at m q (take 4 b))"
  by (simp add: wr32_def le_enc_le_dec_word putb_splice_at)

interpretation flat: aligned_device am_flat_read32_align am_flat_write32_align flat_store flat_cell
proof
  fix f k p assume "flat_cell f k = Some p"
  then show "p + 4 \<le> length (flat_store f)" by (auto simp: flat_cell_def Let_def split: if_splits)
next
  fix f k p and d :: bytes assume c: "flat_cell f k = Some p" and d: "4 \<le> length d"
  from flat_cellD [OF c] obtain fd mem where f: "fn_pVdF f = Live (FdFlat fd)" "fl_data fd = Live mem"
    "flat_store f = mem" "4 \<le> length k" "p = unat (le_dec (take 4 k) :: UINT32)" "p + 4 \<le> length mem" .
  then show "\<exists>f'. am_flat_read32_align f (Some k) (Some d) =
      Inr (AM_RET_GOOD, f', Some (take 4 (drop p (flat_store f)) @ drop 4 d)) \<and> flat_store f' = flat_store f \<and> flat_cell f' = flat_cell f"
    using d wr32_le_dec [of "drop p mem" 0 d]
    by (simp add: am_flat_read32_align_def rd32_def rd_in_bounds splice_at_def)
next
  fix f k p and d :: bytes assume c: "flat_cell f k = Some p" and d: "4 \<le> length d"
  from flat_cellD [OF c] obtain fd mem where f: "fn_pVdF f = Live (FdFlat fd)" "fl_data fd = Live mem"
    "flat_store f = mem" "4 \<le> length k" "p = unat (le_dec (take 4 k) :: UINT32)" "p + 4 \<le> length mem" .
  let ?f = "f\<lparr>fn_pVdF := Live (FdFlat (fd\<lparr>fl_data := Live (splice_at mem p (take 4 d))\<rparr>))\<rparr>"
  have "am_flat_write32_align f (Some k) (Some d) = Inr (AM_RET_GOOD, ?f, Some d)"
    using f d wr32_le_dec [of d p mem] by (simp add: am_flat_write32_align_def rd32_def rd_in_bounds)
  moreover have "flat_store ?f = splice_at (flat_store f) p (take 4 d)" using f by (simp add: flat_store_def)
  moreover from this have "flat_cell ?f = flat_cell f"
    using f d by (intro ext) (simp add: flat_cell_def)
  ultimately show "\<exists>f'. am_flat_write32_align f (Some k) (Some d) = Inr (AM_RET_GOOD, f', Some d) \<and>
      flat_store f' = splice_at (flat_store f) p (take 4 d) \<and> flat_cell f' = flat_cell f"
    by blast
qed

end
