(* ===== verification/AM_Stata.thy ===== *)
theory AM_Stata
  imports AM_Flat
begin

text \<open>
  The static array device, \<^verbatim>\<open>appmemlib/am_stata.c\<close>: indexed access and the merge sort. The pointers of
  the sort are byte offsets into the array's memory and into the merge buffer.
\<close>

abbreviation (input) TS_STAT_ARRAY_IDX_BYTE_SIZE :: nat where "TS_STAT_ARRAY_IDX_BYTE_SIZE \<equiv> 0"
abbreviation (input) TS_STAT_ARRAY_VAL_MAX_SIZE :: nat where "TS_STAT_ARRAY_VAL_MAX_SIZE \<equiv> 2"
abbreviation (input) TS_STAT_DT_FIXED_WIDTH :: UINT32 where "TS_STAT_DT_FIXED_WIDTH \<equiv> 1"

section \<open>Sorting\<close>

text \<open>A comparison function, given the memory its two pointers point into.\<close>

type_synonym sort_compare_fn = "bytes \<Rightarrow> nat \<Rightarrow> nat \<Rightarrow> int res"

definition am_unsigned_intg_sort_comp32 :: sort_compare_fn where
  "am_unsigned_intg_sort_comp32 mem p1 p2 =
     bindr (rd32 mem p1) (\<lambda>a1.
     bindr (rd32 mem p2) (\<lambda>a2.
     Inr (if a1 < a2 then -1 else 1)))"

definition am_set_ptrval :: "bytes \<Rightarrow> nat \<Rightarrow> bytes \<Rightarrow> nat \<Rightarrow> nat \<Rightarrow> bytes res" where
  "am_set_ptrval dst p src q data_size =
     (if data_size = 4 then bindr (getb src q 4) (putb dst p)
      else bindr (AM_ASSERT False) (\<lambda>_. Inr dst))"

lemma am_set_ptrval_size: "am_set_ptrval dst p src q n = Inr b \<Longrightarrow> n = 4"
  by (auto simp: am_set_ptrval_def split: if_splits)

text \<open>The first loop of \<open>am_stata_merge\<close>: while both halves have elements left.\<close>

function merge_both ::
  "nat \<Rightarrow> sort_compare_fn \<Rightarrow> bytes \<Rightarrow> nat \<Rightarrow> nat \<Rightarrow> nat \<Rightarrow> nat \<Rightarrow> nat \<Rightarrow> bytes \<Rightarrow>
   (nat \<times> nat \<times> nat \<times> bytes) res" where
  "merge_both data_size sort_fn mem mid_ptr end_ptr i j k mb =
     (if i \<le> mid_ptr \<and> j \<le> end_ptr then
        bindr (sort_fn mem i j) (\<lambda>compare.
        if compare = -1 then
          bindr (am_set_ptrval mb k mem i data_size) (\<lambda>mb.
          merge_both data_size sort_fn mem mid_ptr end_ptr (i + data_size) j (k + data_size) mb)
        else
          bindr (am_set_ptrval mb k mem j data_size) (\<lambda>mb.
          merge_both data_size sort_fn mem mid_ptr end_ptr i (j + data_size) (k + data_size) mb))
      else Inr (i, j, k, mb))"
  by pat_completeness auto
termination
  by (relation "measure (\<lambda>(_, _, _, m, e, i, j, _). (Suc m - i) + (Suc e - j))")
     (auto dest!: am_set_ptrval_size)

declare merge_both.simps [simp del]

text \<open>The copying loops: \<open>while (q <= lim)\<close> on the source, \<open>while (p <= lim)\<close> on the destination.\<close>

function copy_src :: "nat \<Rightarrow> nat \<Rightarrow> bytes \<Rightarrow> nat \<Rightarrow> bytes \<Rightarrow> nat \<Rightarrow> (nat \<times> bytes) res" where
  "copy_src data_size lim src q dst p =
     (if q \<le> lim then
        bindr (am_set_ptrval dst p src q data_size) (\<lambda>dst.
        copy_src data_size lim src (q + data_size) dst (p + data_size))
      else Inr (p, dst))"
  by pat_completeness auto
termination
  by (relation "measure (\<lambda>(_, l, _, q, _). Suc l - q)") (auto dest!: am_set_ptrval_size)

function copy_dst :: "nat \<Rightarrow> nat \<Rightarrow> bytes \<Rightarrow> nat \<Rightarrow> bytes \<Rightarrow> nat \<Rightarrow> bytes res" where
  "copy_dst data_size lim src q dst p =
     (if p \<le> lim then
        bindr (am_set_ptrval dst p src q data_size) (\<lambda>dst.
        copy_dst data_size lim src (q + data_size) dst (p + data_size))
      else Inr dst)"
  by pat_completeness auto
termination
  by (relation "measure (\<lambda>(_, l, _, _, _, p). Suc l - p)") (auto dest!: am_set_ptrval_size)

declare copy_src.simps [simp del] copy_dst.simps [simp del]

definition am_stata_merge ::
  "bytes \<Rightarrow> bytes \<Rightarrow> nat \<Rightarrow> nat \<Rightarrow> nat \<Rightarrow> nat \<Rightarrow> sort_compare_fn \<Rightarrow> (bytes \<times> bytes) res" where
  "am_stata_merge mb mem start_ptr end_ptr mid_ptr data_size sort_fn =
     bindr (merge_both data_size sort_fn mem mid_ptr end_ptr start_ptr (mid_ptr + data_size) 0 mb) (\<lambda>(i, j, k, mb).
     bindr (copy_src data_size mid_ptr mem i mb k) (\<lambda>(k, mb).
     bindr (copy_src data_size end_ptr mem j mb k) (\<lambda>(k, mb).
     bindr (copy_dst data_size end_ptr mb 0 mem start_ptr) (\<lambda>mem.
     Inr (mb, mem)))))"

text \<open>
  The middle of the range. \<open>data_unit_count\<close> is 32 bits wide, and so is its product with the element
  size.
\<close>

definition sort_mid :: "nat \<Rightarrow> nat \<Rightarrow> nat \<Rightarrow> nat" where
  "sort_mid start_ptr end_ptr data_size =
     (let data_unit_count = (of_nat ((end_ptr - start_ptr) div data_size) :: UINT32) div 2
      in start_ptr + unat (data_unit_count * of_nat data_size))"

lemma sort_mid_bound:
  assumes "0 < data_size"
  shows "start_ptr \<le> sort_mid start_ptr end_ptr data_size"
    and "sort_mid start_ptr end_ptr data_size - start_ptr \<le> (end_ptr - start_ptr) div 2"
proof -
  let ?n = "(end_ptr - start_ptr) div data_size" and ?c = "(of_nat ((end_ptr - start_ptr) div data_size) :: UINT32) div 2"
  have "unat (?c * of_nat data_size) \<le> unat ?c * unat (of_nat data_size :: UINT32)"
    by (simp add: unat_word_ariths)
  also have "\<dots> \<le> (?n div 2) * data_size"
  proof (rule mult_le_mono)
    have "unat ?c = unat (of_nat ?n :: UINT32) div 2" by (simp add: unat_div_distrib)
    also have "\<dots> \<le> ?n div 2" by (intro div_le_mono) (simp add: unat_of_nat)
    finally show "unat ?c \<le> ?n div 2" .
    show "unat (of_nat data_size :: UINT32) \<le> data_size" by (simp add: unat_of_nat)
  qed
  also have "\<dots> \<le> (end_ptr - start_ptr) div 2"
  proof -
    have "2 * ((?n div 2) * data_size) \<le> ?n * data_size" by simp
    also have "\<dots> \<le> end_ptr - start_ptr" by simp
    finally show ?thesis by simp
  qed
  finally show "sort_mid start_ptr end_ptr data_size - start_ptr \<le> (end_ptr - start_ptr) div 2"
    by (simp add: sort_mid_def Let_def)
  show "start_ptr \<le> sort_mid start_ptr end_ptr data_size" by (simp add: sort_mid_def Let_def)
qed

function am_stata_merge_sort ::
  "bytes \<Rightarrow> bytes \<Rightarrow> nat \<Rightarrow> nat \<Rightarrow> nat \<Rightarrow> sort_compare_fn \<Rightarrow> (bytes \<times> bytes) res" where
  "am_stata_merge_sort mb mem start_ptr end_ptr data_size sort_fn =
     (if data_size = 0 then Inl DivByZero
      else if start_ptr < end_ptr then
        let mid_ptr = sort_mid start_ptr end_ptr data_size in
        bindr (am_stata_merge_sort mb mem start_ptr mid_ptr data_size sort_fn) (\<lambda>(mb, mem).
        bindr (am_stata_merge_sort mb mem (mid_ptr + data_size) end_ptr data_size sort_fn) (\<lambda>(mb, mem).
        am_stata_merge mb mem start_ptr end_ptr mid_ptr data_size sort_fn))
      else Inr (mb, mem))"
  by pat_completeness auto
termination
proof (relation "measure (\<lambda>(_, _, s, e, _). e - s)")
  fix s e n :: nat and mb mem :: bytes and f :: sort_compare_fn and x
  assume n: "n \<noteq> 0" "s < e" and x: "x = sort_mid s e n"
  have "x - s \<le> (e - s) div 2" using sort_mid_bound(2) [of n s e] n(1) x by simp
  with n show "((mb, mem, s, x, n, f), (mb, mem, s, e, n, f)) \<in> measure (\<lambda>(_, _, s, e, _). e - s)"
    by auto
next
  fix s e n :: nat and mb mem a b :: bytes and f :: sort_compare_fn and x y
  assume n: "n \<noteq> 0" "s < e" and x: "x = sort_mid s e n"
  have "s \<le> x" using sort_mid_bound(1) [of n s e] n(1) x by simp
  with n show "((a, b, x + n, e, n, f), (mb, mem, s, e, n, f)) \<in> measure (\<lambda>(_, _, s, e, _). e - s)"
    by auto
qed auto

declare am_stata_merge_sort.simps [simp del]

text \<open>
  \<open>al 0\<close> is the allocation of the merge buffer, \<open>junk\<close> what it holds. Its size is computed in 32
  bits.
\<close>

definition am_stata_merge_sort_begin ::
  "alloc \<Rightarrow> (nat \<Rightarrow> UINT8) \<Rightarrow> bytes \<Rightarrow> nat \<Rightarrow> nat \<Rightarrow> nat \<Rightarrow> sort_compare_fn \<Rightarrow> (AM_RETURN \<times> bytes) res" where
  "am_stata_merge_sort_begin al junk mem start_ptr end_ptr data_size sort_fn =
     bindr (AM_ASSERT (data_size \<noteq> 0)) (\<lambda>_.
     if start_ptr < end_ptr then
       let size_merge_bytes = (of_nat ((end_ptr - start_ptr) + data_size) :: UINT32) in
       if al 0 then
         bindr (am_stata_merge_sort (fresh junk (unat size_merge_bytes)) mem start_ptr end_ptr data_size sort_fn)
           (\<lambda>(_, mem). Inr (AM_RET_GOOD, mem))
       else Inr (AM_RET_ALLOC_ERR, mem)
     else Inr (AM_RET_PARAM_ERR, mem))"

text \<open>
  The start of the range is \<open>start_idx * array_size\<close> bytes into the memory (64 bits wide), its end
  \<open>end_idx * data_size\<close> bytes (32 bits wide) or, for \<open>end_idx = 0\<close>, the last element.
\<close>

definition sort_start :: "stata_data \<Rightarrow> sort_param \<Rightarrow> nat" where
  "sort_start sd p = unat (ucast (sp_start_idx p) * st_array_size sd)"

definition sort_end :: "stata_data \<Rightarrow> sort_param \<Rightarrow> nat" where
  "sort_end sd p =
     (if sp_end_idx p = 0 then unat ((st_array_size sd - 1) * ucast (st_data_size sd))
      else unat (sp_end_idx p * st_data_size sd))"

definition am_stata_sort ::
  "alloc \<Rightarrow> (nat \<Rightarrow> UINT8) \<Rightarrow> mem_func \<Rightarrow> buf \<Rightarrow> UINT64 \<Rightarrow> (AM_RETURN \<times> mem_func) res" where
  "am_stata_sort al junk f p1 l1 =
     (if fn_pVdF f \<noteq> Null \<and> p1 \<noteq> None \<and> of_nat sizeof_SORT_PARAM \<le> l1 then
        bindr (bindr (the_buf p1) rd_sort_param) (\<lambda>p.
        if sp_type p = AM_SORT_TYPE_STATA_INTEGRAL_MERGE then
          bindr (bindr (deref (fn_pVdF f)) fd_stata) (\<lambda>sd.
          if \<not> ucast (sp_start_idx p) < st_array_size sd then Inr (AM_RET_PARAM_ERR, f)
          else if \<not> ucast (sp_end_idx p) < st_array_size sd then Inr (AM_RET_PARAM_ERR, f)
          else if sp_data_signed p \<noteq> 0 then Inr (AM_RET_PARAM_ERR, f)
          else if st_data_size sd \<noteq> 4 then Inr (AM_RET_PARAM_ERR, f)
          else
            bindr (deref (st_data sd)) (\<lambda>mem.
            bindr (am_stata_merge_sort_begin al junk mem (sort_start sd p) (sort_end sd p)
                     (unat (st_data_size sd)) am_unsigned_intg_sort_comp32) (\<lambda>(st, mem).
            Inr (st, f\<lparr>fn_pVdF := Live (FdStata (sd\<lparr>st_data := Live mem\<rparr>))\<rparr>))))
        else Inr (AM_RET_PARAM_ERR, f))
      else Inr (AM_RET_PARAM_ERR, f))"

section \<open>The other operations\<close>

definition am_stata_open :: "mem_func \<Rightarrow> AM_RETURN" where
  "am_stata_open f = AM_RET_GOOD"

definition am_stata_close :: "mem_func \<Rightarrow> AM_RETURN" where
  "am_stata_close f = AM_RET_GOOD"

text \<open>The common first member of the union, \<open>fd->flat.data\<close>, is the array's memory.\<close>

definition am_stata_release :: "mem_func \<Rightarrow> (AM_RETURN \<times> mem_func) res" where
  "am_stata_release f =
     (if fn_pVdF f = Null then Inr (AM_RET_GOOD, f)
      else
        bindr (deref (fn_pVdF f)) (\<lambda>u.
        bindr (fd_stata u) (\<lambda>sd.
        bindr (if st_data sd = Dangling then Inl UseAfterFree else Inr ()) (\<lambda>_.
        Inr (AM_RET_GOOD, f\<lparr>fn_pVdF := Dangling\<rparr>)))))"

definition am_stata_read_multi_idx32 :: "mem_func \<Rightarrow> AM_RETURN" where
  "am_stata_read_multi_idx32 f = AM_RET_GOOD"

definition am_stata_write_multi_idx32 :: "mem_func \<Rightarrow> AM_RETURN" where
  "am_stata_write_multi_idx32 f = AM_RET_GOOD"

definition am_stata_read_idx32 :: "mem_func \<Rightarrow> buf \<Rightarrow> buf \<Rightarrow> align_res" where
  "am_stata_read_idx32 f p1 p2 =
     bindr (the_buf p1) (\<lambda>b1.
     bindr (rd32 b1 0) (\<lambda>idx.
     bindr (deref (fn_pVdF f)) (\<lambda>u.
     bindr (fd_stata u) (\<lambda>sd.
     bindr (deref (st_data sd)) (\<lambda>mem.
     bindr (rd32 mem (4 * unat idx)) (\<lambda>v.
     bindr (the_buf p2) (\<lambda>b2.
     bindr (wr32 b2 0 v) (\<lambda>b2'.
     Inr (AM_RET_GOOD, f, Some b2')))))))))"

definition am_stata_write_idx32 :: "mem_func \<Rightarrow> buf \<Rightarrow> buf \<Rightarrow> align_res" where
  "am_stata_write_idx32 f p1 p2 =
     bindr (the_buf p1) (\<lambda>b1.
     bindr (rd32 b1 0) (\<lambda>idx.
     bindr (deref (fn_pVdF f)) (\<lambda>u.
     bindr (fd_stata u) (\<lambda>sd.
     bindr (the_buf p2) (\<lambda>b2.
     bindr (rd32 b2 0) (\<lambda>v.
     bindr (deref (st_data sd)) (\<lambda>mem.
     bindr (wr32 mem (4 * unat idx) v) (\<lambda>mem'.
     Inr (AM_RET_GOOD, f\<lparr>fn_pVdF := Live (FdStata (sd\<lparr>st_data := Live mem'\<rparr>))\<rparr>, p2)))))))))"

definition am_create_stata_device ::
  "alloc \<Rightarrow> (nat \<Rightarrow> UINT8) \<Rightarrow> mem_func \<Rightarrow> mem_cap \<Rightarrow> (AM_RETURN \<times> mem_func) res" where
  "am_create_stata_device al junk f cap =
     bindr (AM_ASSERT (fn_pfnOps f \<noteq> None)) (\<lambda>_.
     if \<not> al 0 then Inr (AM_RET_ALLOC_ERR, f)
     else
       let idx_size = cap_typeSpecific cap ! TS_STAT_ARRAY_IDX_BYTE_SIZE;
           data_size = cap_typeSpecific cap ! TS_STAT_ARRAY_VAL_MAX_SIZE;
           size = ucast data_size * cap_maxSize cap;
           f = upd_cr (\<lambda>r. r\<lparr>cr_data_size := data_size, cr_idx_size := idx_size\<rparr>) f
       in
       if \<not> al 1 then Inr (AM_RET_ALLOC_ERR, f)
       else
         let pVdF = FdStata \<lparr>st_data = Live (fresh junk (unat size)), st_size = size,
                             st_array_size = cap_maxSize cap, st_idx_size = idx_size,
                             st_data_size = data_size\<rparr>;
             f = set_base_ops f;
             f = set_cr_op AM_OP_SORT (op_word AM_PACK_ACTION AM_OP_SORT) (set_op AM_OP_SORT Fn_stata_sort f);
             f = set_op AM_OP_WRITE_ALIGN Fn_stata_write_idx32 f;
             f = set_op AM_OP_READ_ALIGN Fn_stata_read_idx32 f;
             f = set_acOps (op_word AM_PACK_ALIGN AM_OP_WRITE_ALIGN) (op_word AM_PACK_ALIGN AM_OP_READ_ALIGN) f;
             f = upd_cr (\<lambda>r. r\<lparr>cr_pack_DataOffset := ucast idx_size\<rparr>) f;
             f = f\<lparr>fn_pVdF := Live pVdF\<rparr>
         in
         bindr (set_name (''am_stata_'' @ fmt_04x (fn_handle f)) f) (\<lambda>f.
         Inr (AM_RET_GOOD, upd_cr (\<lambda>r. r\<lparr>cr_devt := fn_handle f\<rparr>) f)))"

section \<open>Registration data\<close>

definition stata_caps :: mem_cap where
  "stata_caps = mk_cap AM_TYPE_STATIC_ARRAY (1024 * 1024) 1 8 0
     [8 OR 4 OR 2 OR 1, 1, 1024, TS_STAT_DT_FIXED_WIDTH]"

definition stata_cap_details :: "cap_details list" where
  "stata_cap_details = [mk_details AM_TYPE_STATIC_ARRAY ''Static Array'' 0 ''Static Array - Native C'' 4
     [''Index Size in Bytes (1,2,4,8)'', ''Min Data Size (Variable Width Only) - Bytes'',
      ''Max or Fixed Data Size (Max for Var) - Bytes'',
      ''Data Type : 1 = Fixed Width, 2 = Variable Width'']]"

section \<open>The device contract\<close>

definition stata_store :: "mem_func \<Rightarrow> bytes" where
  "stata_store f = (case fn_pVdF f of
     Live (FdStata sd) \<Rightarrow> (case st_data sd of Live mem \<Rightarrow> mem | _ \<Rightarrow> [])
   | _ \<Rightarrow> [])"

definition stata_cell :: "mem_func \<Rightarrow> bytes \<Rightarrow> nat option" where
  "stata_cell f k =
     (let p = 4 * unat (le_dec (take 4 k) :: UINT32) in
      if 4 \<le> length k \<and> p + 4 \<le> length (stata_store f) then Some p else None)"

lemma stata_cellD:
  assumes "stata_cell f k = Some p"
  obtains sd mem where "fn_pVdF f = Live (FdStata sd)" "st_data sd = Live mem" "stata_store f = mem"
    "4 \<le> length k" "p = 4 * unat (le_dec (take 4 k) :: UINT32)" "p + 4 \<le> length mem"
  using assms
  by (auto simp: stata_cell_def stata_store_def Let_def split: if_splits ptr.splits func_data.splits)

interpretation stata: aligned_device am_stata_read_idx32 am_stata_write_idx32 stata_store stata_cell
proof
  fix f k p assume "stata_cell f k = Some p"
  then show "p + 4 \<le> length (stata_store f)" by (auto simp: stata_cell_def Let_def split: if_splits)
next
  fix f k p and d :: bytes assume c: "stata_cell f k = Some p" and d: "4 \<le> length d"
  from stata_cellD [OF c] obtain sd mem where f: "fn_pVdF f = Live (FdStata sd)" "st_data sd = Live mem"
    "stata_store f = mem" "4 \<le> length k" "p = 4 * unat (le_dec (take 4 k) :: UINT32)" "p + 4 \<le> length mem" .
  then show "\<exists>f'. am_stata_read_idx32 f (Some k) (Some d) =
      Inr (AM_RET_GOOD, f', Some (take 4 (drop p (stata_store f)) @ drop 4 d)) \<and> stata_store f' = stata_store f \<and> stata_cell f' = stata_cell f"
    using d wr32_le_dec [of "drop p mem" 0 d]
    by (simp add: am_stata_read_idx32_def rd32_def rd_in_bounds splice_at_def)
next
  fix f k p and d :: bytes assume c: "stata_cell f k = Some p" and d: "4 \<le> length d"
  from stata_cellD [OF c] obtain sd mem where f: "fn_pVdF f = Live (FdStata sd)" "st_data sd = Live mem"
    "stata_store f = mem" "4 \<le> length k" "p = 4 * unat (le_dec (take 4 k) :: UINT32)" "p + 4 \<le> length mem" .
  let ?f = "f\<lparr>fn_pVdF := Live (FdStata (sd\<lparr>st_data := Live (splice_at mem p (take 4 d))\<rparr>))\<rparr>"
  have "am_stata_write_idx32 f (Some k) (Some d) = Inr (AM_RET_GOOD, ?f, Some d)"
    using f d wr32_le_dec [of d p mem] by (simp add: am_stata_write_idx32_def rd32_def rd_in_bounds)
  moreover have "stata_store ?f = splice_at (stata_store f) p (take 4 d)" using f by (simp add: stata_store_def)
  moreover from this have "stata_cell ?f = stata_cell f"
    using f d by (intro ext) (simp add: stata_cell_def)
  ultimately show "\<exists>f'. am_stata_write_idx32 f (Some k) (Some d) = Inr (AM_RET_GOOD, f', Some d) \<and>
      stata_store f' = splice_at (stata_store f) p (take 4 d) \<and> stata_cell f' = stata_cell f"
    by blast
qed

end
