(* ===== verification/AM_Stata_Sort.thy ===== *)
theory AM_Stata_Sort
  imports AM_Stata "HOL-Library.Multiset"
begin

text \<open>
  The merge sort of \<open>AM_Stata\<close> sorts. The proof is for any comparison function that decides a total
  order of 32-bit words (locale \<open>sort_order\<close>) and is used at the program's unsigned one.
\<close>

section \<open>Words in a block\<close>

definition words_at :: "bytes \<Rightarrow> nat \<Rightarrow> UINT32 list \<Rightarrow> bool" where
  "words_at b p ws \<longleftrightarrow> p + 4 * length ws \<le> length b \<and> take (4 * length ws) (drop p b) = enc_words ws"

lemma words_at_Nil [simp]: "words_at b p [] \<longleftrightarrow> p \<le> length b"
  by (simp add: words_at_def enc_words_def)

lemma enc_words_Cons [simp]: "enc_words (w # ws) = le_enc 4 w @ enc_words ws"
  by (simp add: enc_words_def)

lemma enc_words_Nil [simp]: "enc_words [] = []"
  by (simp add: enc_words_def)

lemma enc_words_append: "enc_words (xs @ ys) = enc_words xs @ enc_words ys"
  by (simp add: enc_words_def)

lemma words_at_Cons:
  "words_at b p (w # ws) \<longleftrightarrow> getb b p 4 = Inr (le_enc 4 w) \<and> words_at b (p + 4) ws"
proof -
  have "take (4 + 4 * length ws) (drop p b) = take 4 (drop p b) @ take (4 * length ws) (drop (p + 4) b)"
    by (simp add: take_add add.commute)
  then show ?thesis by (auto simp: words_at_def getb_def)
qed

lemma words_at_bound: "words_at b p ws \<Longrightarrow> p + 4 * length ws \<le> length b"
  by (simp add: words_at_def)

lemma words_at_append: "words_at b p (xs @ ys) \<longleftrightarrow> words_at b p xs \<and> words_at b (p + 4 * length xs) ys"
  by (induction xs arbitrary: p) (auto simp: words_at_Cons add.assoc dest: words_at_bound)

lemma words_at_rd32: "words_at b p (w # ws) \<Longrightarrow> rd32 b p = Inr w"
  by (simp add: words_at_Cons rd32_def rd_def)

lemma words_at_splice_same: "words_at b p ws \<or> p + 4 * length ws \<le> length b \<Longrightarrow> words_at (splice_at b p (enc_words ws)) p ws"
  by (auto simp: words_at_def splice_at_same)

lemma words_at_splice_other:
  "words_at b q ws \<Longrightarrow> p + length xs \<le> length b \<Longrightarrow> q + 4 * length ws \<le> p \<or> p + length xs \<le> q \<Longrightarrow>
     words_at (splice_at b p xs) q ws"
  by (simp add: words_at_def splice_at_other)

lemma splice_at_Nil [simp]: "p \<le> length b \<Longrightarrow> splice_at b p [] = b"
  by (simp add: splice_at_def)

lemma splice_at_append:
  "p + length xs + length ys \<le> length b \<Longrightarrow>
     splice_at (splice_at b p xs) (p + length xs) ys = splice_at b p (xs @ ys)"
  by (simp add: splice_at_def add.commute add.left_commute)

lemma splice_at_over:
  "p + length xs \<le> length b \<Longrightarrow> length ys = length xs \<Longrightarrow> splice_at (splice_at b p xs) p ys = splice_at b p ys"
  by (simp add: splice_at_def)

lemma splice_at_right:
  "p + length xs + length ys \<le> length b \<Longrightarrow> q = p + length xs \<Longrightarrow>
     splice_at (splice_at b q ys) p xs = splice_at b p (xs @ ys)"
  by (simp add: splice_at_def add.commute add.left_commute)

lemma set_ptrval_word:
  assumes "words_at src q (w # ws)" "p + 4 \<le> length dst"
  shows "am_set_ptrval dst p src q 4 = Inr (splice_at dst p (le_enc 4 w))"
  using assms by (simp add: words_at_Cons am_set_ptrval_def putb_splice_at)

lemma copy_src_ok:
  assumes "words_at src q ws" "lim + 4 = q + 4 * length ws" "p + 4 * length ws \<le> length dst"
  shows "copy_src 4 lim src q dst p = Inr (p + 4 * length ws, splice_at dst p (enc_words ws))"
  using assms
proof (induction ws arbitrary: q p dst)
  case Nil
  then show ?case by (subst copy_src.simps) simp
next
  case (Cons w ws)
  have "copy_src 4 lim src (q + 4) (splice_at dst p (le_enc 4 w)) (p + 4) =
      Inr (p + 4 + 4 * length ws, splice_at (splice_at dst p (le_enc 4 w)) (p + 4) (enc_words ws))"
    using Cons.prems by (intro Cons.IH) (auto simp: words_at_Cons)
  also have "splice_at (splice_at dst p (le_enc 4 w)) (p + 4) (enc_words ws) = splice_at dst p (enc_words (w # ws))"
    using Cons.prems splice_at_append [of p "le_enc 4 w" "enc_words ws" dst] by simp
  finally show ?case
    using Cons.prems set_ptrval_word [OF Cons.prems(1), of p dst] by (subst copy_src.simps) simp
qed

lemma copy_dst_ok:
  assumes "words_at src q ws" "lim + 4 = p + 4 * length ws" "p + 4 * length ws \<le> length dst"
  shows "copy_dst 4 lim src q dst p = Inr (splice_at dst p (enc_words ws))"
  using assms
proof (induction ws arbitrary: q p dst)
  case Nil
  then show ?case by (subst copy_dst.simps) simp
next
  case (Cons w ws)
  have "copy_dst 4 lim src (q + 4) (splice_at dst p (le_enc 4 w)) (p + 4) =
      Inr (splice_at (splice_at dst p (le_enc 4 w)) (p + 4) (enc_words ws))"
    using Cons.prems by (intro Cons.IH) (auto simp: words_at_Cons)
  also have "splice_at (splice_at dst p (le_enc 4 w)) (p + 4) (enc_words ws) = splice_at dst p (enc_words (w # ws))"
    using Cons.prems splice_at_append [of p "le_enc 4 w" "enc_words ws" dst] by simp
  finally show ?case
    using Cons.prems set_ptrval_word [OF Cons.prems(1), of p dst] by (subst copy_dst.simps) simp
qed

section \<open>Merging, abstractly\<close>

fun merge_words :: "('a \<Rightarrow> 'a \<Rightarrow> bool) \<Rightarrow> 'a list \<Rightarrow> 'a list \<Rightarrow> 'a list" where
  "merge_words before [] ys = ys"
| "merge_words before xs [] = xs"
| "merge_words before (x # xs) (y # ys) =
     (if before x y then x # merge_words before xs (y # ys) else y # merge_words before (x # xs) ys)"

lemma mset_merge_words [simp]: "mset (merge_words before xs ys) = mset xs + mset ys"
  by (induction before xs ys rule: merge_words.induct) auto

lemma length_merge_words [simp]: "length (merge_words before xs ys) = length xs + length ys"
  by (metis mset_merge_words size_mset size_union)

lemma set_merge_words [simp]: "set (merge_words before xs ys) = set xs \<union> set ys"
  by (metis mset_merge_words set_mset_mset set_mset_union)

lemma sorted_merge_words:
  assumes "sorted_wrt le xs" "sorted_wrt le ys"
    and "\<And>x y. before x y \<Longrightarrow> le x y" "\<And>x y. \<not> before x y \<Longrightarrow> le y x"
    and "\<And>x y z. le x y \<Longrightarrow> le y z \<Longrightarrow> le x z"
  shows "sorted_wrt le (merge_words before xs ys)"
  using assms
proof (induction before xs ys rule: merge_words.induct)
  case (3 before x xs y ys)
  show ?case
  proof (cases "before x y")
    case True
    have "le x z" if "z \<in> set xs \<union> set (y # ys)" for z
      using that 3(3,4) 3(5) [OF True] 3(7) [of x y z] by auto
    moreover have "sorted_wrt le (merge_words before xs (y # ys))"
      using True 3(3-) by (intro 3(1)) auto
    ultimately show ?thesis using True by simp
  next
    case False
    have "le y z" if "z \<in> set (x # xs) \<union> set ys" for z
      using that 3(3,4) 3(6) [OF False] 3(7) [of y x z] by auto
    moreover have "sorted_wrt le (merge_words before (x # xs) ys)"
      using False 3(3-) by (intro 3(2)) auto
    ultimately show ?thesis using False by simp
  qed
qed auto

lemma sort_mid_unit: "\<exists>m. sort_mid s e 4 = s + 4 * m"
proof -
  have "4 dvd unat (x * 4 :: UINT32)" for x
  proof -
    have "unat (x * 4) = unat x * 4 mod 2 ^ 32" by (simp add: unat_word_ariths)
    moreover have "(4 :: nat) dvd 2 ^ 32" by simp
    ultimately show ?thesis by (metis dvd_mod dvd_triv_right)
  qed
  then show ?thesis by (auto simp: sort_mid_def Let_def dvd_def)
qed

section \<open>The sort, for any total order\<close>

locale sort_order =
  fixes sort_fn :: sort_compare_fn
    and before :: "UINT32 \<Rightarrow> UINT32 \<Rightarrow> bool"
    and le :: "UINT32 \<Rightarrow> UINT32 \<Rightarrow> bool"
  assumes compare: "rd32 mem p = Inr x \<Longrightarrow> rd32 mem q = Inr y \<Longrightarrow>
      \<exists>c. sort_fn mem p q = Inr c \<and> (c = -1 \<longleftrightarrow> before x y)"
    and before_le: "before x y \<Longrightarrow> le x y"
    and not_before_le: "\<not> before x y \<Longrightarrow> le y x"
    and le_trans: "le x y \<Longrightarrow> le y z \<Longrightarrow> le x z"
begin

lemma merge_both_ok:
  assumes "words_at mem i xs" "words_at mem j ys" "mid + 4 = i + 4 * length xs"
    and "last_p + 4 = j + 4 * length ys" "k + 4 * (length xs + length ys) \<le> length mb"
  shows "\<exists>zs xs' ys' i' j'. merge_both 4 sort_fn mem mid last_p i j k mb =
      Inr (i', j', k + 4 * length zs, splice_at mb k (enc_words zs)) \<and>
    words_at mem i' xs' \<and> words_at mem j' ys' \<and> mid + 4 = i' + 4 * length xs' \<and>
    last_p + 4 = j' + 4 * length ys' \<and> merge_words before xs ys = zs @ xs' @ ys' \<and>
    length zs + length xs' + length ys' = length xs + length ys"
  using assms
proof (induction "length xs + length ys" arbitrary: xs ys i j k mb rule: less_induct)
  case less
  show ?case
  proof (cases "xs = [] \<or> ys = []")
    case True
    then have "\<not> (i \<le> mid \<and> j \<le> last_p)" using less.prems by auto
    then have "merge_both 4 sort_fn mem mid last_p i j k mb = Inr (i, j, k + 4 * length ([] :: UINT32 list), splice_at mb k (enc_words []))"
      using less.prems(5) by (subst merge_both.simps) auto
    moreover have "merge_words before xs ys = [] @ xs @ ys" using True by (cases xs; cases ys) auto
    ultimately show ?thesis using less.prems by (metis list.size(3) add.left_neutral)
  next
    case False
    then obtain x xs1 y ys1 where xy: "xs = x # xs1" "ys = y # ys1" by (cases xs; cases ys) auto
    have cond: "i \<le> mid" "j \<le> last_p" using less.prems xy by auto
    obtain c where c: "sort_fn mem i j = Inr c" "c = -1 \<longleftrightarrow> before x y"
      using compare [OF words_at_rd32 words_at_rd32] less.prems(1,2) xy by blast
    have kb: "k + 4 \<le> length mb" using less.prems(5) xy by simp
    define v where "v = (if before x y then x else y)"
    define mb1 where "mb1 = splice_at mb k (le_enc 4 v)"
    define ni where "ni = (if before x y then i + 4 else i)"
    define nj where "nj = (if before x y then j else j + 4)"
    define nxs where "nxs = (if before x y then xs1 else xs)"
    define nys where "nys = (if before x y then ys else ys1)"
    have step: "merge_both 4 sort_fn mem mid last_p i j k mb = merge_both 4 sort_fn mem mid last_p ni nj (k + 4) mb1"
      using cond c set_ptrval_word [of mem i x xs1 k mb] set_ptrval_word [of mem j y ys1 k mb] less.prems(1,2) xy kb
      by (subst merge_both.simps) (auto simp: mb1_def v_def ni_def nj_def)
    have lb: "length mb1 = length mb" using kb by (simp add: mb1_def)
    have "\<exists>zs xs' ys' i' j'. merge_both 4 sort_fn mem mid last_p ni nj (k + 4) mb1 =
        Inr (i', j', k + 4 + 4 * length zs, splice_at mb1 (k + 4) (enc_words zs)) \<and>
      words_at mem i' xs' \<and> words_at mem j' ys' \<and> mid + 4 = i' + 4 * length xs' \<and>
      last_p + 4 = j' + 4 * length ys' \<and> merge_words before nxs nys = zs @ xs' @ ys' \<and>
      length zs + length xs' + length ys' = length nxs + length nys"
      using less.prems xy lb by (intro less.hyps) (auto simp: nxs_def nys_def ni_def nj_def words_at_Cons)
    then obtain zs xs' ys' i' j' where IH: "merge_both 4 sort_fn mem mid last_p ni nj (k + 4) mb1 =
        Inr (i', j', k + 4 + 4 * length zs, splice_at mb1 (k + 4) (enc_words zs))"
      "words_at mem i' xs'" "words_at mem j' ys'" "mid + 4 = i' + 4 * length xs'"
      "last_p + 4 = j' + 4 * length ys'" "merge_words before nxs nys = zs @ xs' @ ys'"
      "length zs + length xs' + length ys' = length nxs + length nys"
      by blast
    have len: "Suc (length nxs + length nys) = length xs + length ys"
      by (simp add: nxs_def nys_def xy)
    have "splice_at mb1 (k + 4) (enc_words zs) = splice_at mb k (enc_words (v # zs))"
      using splice_at_append [of k "le_enc 4 v" "enc_words zs" mb] IH(7) len less.prems(5) by (simp add: mb1_def)
    moreover have "merge_words before xs ys = (v # zs) @ xs' @ ys'"
      using IH(6) by (simp add: xy v_def nxs_def nys_def split: if_splits)
    moreover have "k + 4 + 4 * length zs = k + 4 * length (v # zs)" by simp
    moreover have "length (v # zs) + length xs' + length ys' = length xs + length ys"
      using IH(7) len by simp
    ultimately show ?thesis using step IH(1-5) by metis
  qed
qed

lemma merge_ok:
  assumes "words_at mem s xs" "words_at mem (mid + 4) ys" "mid + 4 = s + 4 * length xs"
    and "last_p + 4 = mid + 4 + 4 * length ys" "4 * (length xs + length ys) \<le> length mb"
  shows "\<exists>mb'. am_stata_merge mb mem s last_p mid 4 sort_fn =
      Inr (mb', splice_at mem s (enc_words (merge_words before xs ys))) \<and> length mb' = length mb"
proof -
  obtain zs xs' ys' i' j' where M: "merge_both 4 sort_fn mem mid last_p s (mid + 4) 0 mb =
      Inr (i', j', 4 * length zs, splice_at mb 0 (enc_words zs))"
    "words_at mem i' xs'" "words_at mem j' ys'" "mid + 4 = i' + 4 * length xs'"
    "last_p + 4 = j' + 4 * length ys'" "merge_words before xs ys = zs @ xs' @ ys'"
    "length zs + length xs' + length ys' = length xs + length ys"
    using merge_both_ok [OF assms(1,2,3,4), of 0 mb] assms(5) by auto
  let ?w = "merge_words before xs ys"
  define mb1 where "mb1 = splice_at mb 0 (enc_words zs)"
  define mb2 where "mb2 = splice_at mb1 (4 * length zs) (enc_words xs')"
  define mb3 where "mb3 = splice_at mb2 (4 * length zs + 4 * length xs') (enc_words ys')"
  have l1: "length mb1 = length mb" using M(7) assms(5) by (simp add: mb1_def)
  have C1: "copy_src 4 mid mem i' mb1 (4 * length zs) = Inr (4 * length zs + 4 * length xs', mb2)"
    unfolding mb2_def using M(2,4,7) assms(5) l1 by (intro copy_src_ok) auto
  have l2: "length mb2 = length mb" using M(7) assms(5) l1 by (simp add: mb2_def)
  have C2: "copy_src 4 last_p mem j' mb2 (4 * length zs + 4 * length xs') =
      Inr (4 * length zs + 4 * length xs' + 4 * length ys', mb3)"
    unfolding mb3_def using M(3,5,7) assms(5) l2 by (intro copy_src_ok) auto
  have m2: "mb2 = splice_at mb 0 (enc_words (zs @ xs'))"
    using splice_at_append [of 0 "enc_words zs" "enc_words xs'" mb] M(7) assms(5)
    by (simp add: mb2_def mb1_def enc_words_append)
  have m3: "mb3 = splice_at mb 0 (enc_words ?w)"
    using splice_at_append [of 0 "enc_words (zs @ xs')" "enc_words ys'" mb] M(6,7) assms(5)
    by (simp add: mb3_def m2 enc_words_append)
  have "words_at mb3 0 ?w" unfolding m3 using assms(5) by (intro words_at_splice_same) simp
  then have C3: "copy_dst 4 last_p mb3 0 mem s = Inr (splice_at mem s (enc_words ?w))"
    using assms words_at_bound [OF assms(2)] by (intro copy_dst_ok) auto
  have "length mb3 = length mb" unfolding m3 using assms(5) by simp
  then show ?thesis using M(1) C1 C2 C3 by (simp add: am_stata_merge_def mb1_def)
qed

lemma merge_sort_ok:
  assumes "words_at mem s ws" "ws \<noteq> []" "e + 4 = s + 4 * length ws" "4 * length ws \<le> length mb"
  shows "\<exists>mb' us. am_stata_merge_sort mb mem s e 4 sort_fn = Inr (mb', splice_at mem s (enc_words us)) \<and>
    length mb' = length mb \<and> mset us = mset ws \<and> sorted_wrt le us"
  using assms
proof (induction "length ws" arbitrary: ws s e mb mem rule: less_induct)
  case less
  show ?case
  proof (cases "s < e")
    case False
    then have "length ws = 1" using less.prems by (cases ws) auto
    then obtain w where w: "ws = [w]" by (auto simp: length_Suc_conv)
    have "splice_at mem s (enc_words [w]) = mem"
      using less.prems(1) w by (simp add: words_at_def splice_at_def) (metis append_take_drop_id drop_drop add.commute)
    then show ?thesis using False w by (subst am_stata_merge_sort.simps) auto
  next
    case True
    define mid where "mid = sort_mid s e 4"
    have mid: "s \<le> mid" "mid - s \<le> (e - s) div 2" using sort_mid_bound [of 4] by (simp_all add: mid_def)
    obtain m where m: "mid = s + 4 * m" using sort_mid_unit unfolding mid_def by blast
    define xs where "xs = take (Suc m) ws"
    define ys where "ys = drop (Suc m) ws"
    have "2 * (4 * m) \<le> 4 * (length ws - 1)" using mid m less.prems(3) by auto
    then have lens: "length xs = Suc m" "length ys = length ws - Suc m" "length ws \<ge> 2" "Suc m < length ws"
      using True less.prems(3) by (auto simp: xs_def ys_def)
    have ar: "4 * length ws = 4 * m + (4 + 4 * (length ws - Suc m))" using lens by simp
    have ne: "xs \<noteq> []" "ys \<noteq> []" using lens by auto
    have ws: "ws = xs @ ys" by (simp add: xs_def ys_def)
    have at: "words_at mem s xs" "words_at mem (mid + 4) ys"
      using less.prems(1) lens m unfolding ws words_at_append by (simp_all add: add.commute add.left_commute)
    obtain mb1 us where 1: "am_stata_merge_sort mb mem s mid 4 sort_fn = Inr (mb1, splice_at mem s (enc_words us))"
      "length mb1 = length mb" "mset us = mset xs" "sorted_wrt le us"
      using less.hyps [of xs mem s mid mb] at(1) ne lens m less.prems(4) by auto
    let ?mem1 = "splice_at mem s (enc_words us)"
    have lus: "length us = length xs" using 1(3) by (metis size_mset)
    have at1: "words_at ?mem1 (mid + 4) ys"
      using at lus words_at_bound [OF at(1)] lens m by (intro words_at_splice_other) auto
    obtain mb2 vs where 2: "am_stata_merge_sort mb1 ?mem1 (mid + 4) e 4 sort_fn =
        Inr (mb2, splice_at ?mem1 (mid + 4) (enc_words vs))"
      "length mb2 = length mb1" "mset vs = mset ys" "sorted_wrt le vs"
      using less.hyps [of ys ?mem1 "mid + 4" e mb1] at1 ne ar lens m less.prems(3,4) 1(2) by auto
    let ?mem2 = "splice_at ?mem1 (mid + 4) (enc_words vs)"
    have lvs: "length vs = length ys" using 2(3) by (metis size_mset)
    have bound: "s + 4 * length ws \<le> length mem" using words_at_bound [OF less.prems(1)] .
    have mem2: "?mem2 = splice_at mem s (enc_words (us @ vs))"
      using splice_at_append [of s "enc_words us" "enc_words vs" mem] bound lus lvs lens m
      by (simp add: enc_words_append add.commute add.left_commute)
    have "words_at ?mem2 s (us @ vs)"
      unfolding mem2 using bound lus lvs lens by (intro words_at_splice_same) auto
    then have at2: "words_at ?mem2 s us" "words_at ?mem2 (mid + 4) vs"
      unfolding words_at_append using lus lens m by (auto simp: add.commute add.left_commute)
    have tot: "length us + length vs = length ws" using lus lvs lens by simp
    have c: "mid + 4 = s + 4 * length us" "e + 4 = mid + 4 + 4 * length vs"
      "4 * (length us + length vs) \<le> length mb2"
      unfolding tot using lus lvs lens(1,2) ar m less.prems(3,4) 1(2) 2(2) by simp_all
    obtain mb3 where 3: "am_stata_merge mb2 ?mem2 s e mid 4 sort_fn =
        Inr (mb3, splice_at ?mem2 s (enc_words (merge_words before us vs)))" "length mb3 = length mb2"
      using merge_ok [OF at2 c] by blast
    have fin: "splice_at ?mem2 s (enc_words (merge_words before us vs)) =
        splice_at mem s (enc_words (merge_words before us vs))"
      unfolding mem2 using bound lus lvs lens by (intro splice_at_over) auto
    have "am_stata_merge_sort mb mem s e 4 sort_fn =
        Inr (mb3, splice_at mem s (enc_words (merge_words before us vs)))"
      using True 1(1) 2(1) 3(1) unfolding fin
      by (subst am_stata_merge_sort.simps) (simp add: mid_def [symmetric])
    moreover have "sorted_wrt le (merge_words before us vs)"
      using 1(4) 2(4) before_le not_before_le le_trans by (rule sorted_merge_words)
    moreover have "mset (merge_words before us vs) = mset ws" using 1(3) 2(3) by (simp add: ws)
    ultimately show ?thesis using 1(2) 2(2) 3(2) by metis
  qed
qed

end

section \<open>The program's comparison\<close>

interpretation unsigned32: sort_order am_unsigned_intg_sort_comp32 "(<)" "(\<le>)"
  by unfold_locales (auto simp: am_unsigned_intg_sort_comp32_def)

lemma mset_sorted_eq_sort: "mset us = mset ws \<Longrightarrow> sorted_wrt (\<le>) us \<Longrightarrow> us = sort (ws :: UINT32 list)"
  by (metis properties_for_sort)

text \<open>Enough memory for the merge buffer: its size fits the 32 bits it is computed in.\<close>

lemma merge_sort_begin_ok:
  assumes "words_at mem s ws" "2 \<le> length ws" "e + 4 = s + 4 * length ws" "4 * length ws < 2 ^ 32" "al 0"
  shows "am_stata_merge_sort_begin al junk mem s e 4 am_unsigned_intg_sort_comp32 =
    Inr (AM_RET_GOOD, splice_at mem s (enc_words (sort ws)))"
proof -
  have "e - s + 4 = 4 * length ws" using assms(2,3) by simp
  then have "unat (of_nat (e - s + 4) :: UINT32) = 4 * length ws"
    using assms(4) by (simp only: unat_of_nat) simp
  moreover have "ws \<noteq> []" using assms(2) by auto
  ultimately obtain mb' us where "am_stata_merge_sort (fresh junk (unat (of_nat (e - s + 4) :: UINT32))) mem s e 4
        am_unsigned_intg_sort_comp32 = Inr (mb', splice_at mem s (enc_words us))"
    "mset us = mset ws" "sorted_wrt (\<le>) us"
    using unsigned32.merge_sort_ok [OF assms(1) _ assms(3)] by force
  moreover from this have "us = sort ws" by (intro mset_sorted_eq_sort)
  moreover have "s < e" using assms(2,3) by simp
  ultimately show ?thesis using assms(5) by (simp add: am_stata_merge_sort_begin_def Let_def)
qed

section \<open>The sort operation\<close>

lemma rd_sort_param_at: "rd_sort_param (enc_sort_param p @ post) = Inr p"
  by (rule rd_enc_sort_param)

lemma unat_ucast_32_64 [simp]: "unat (ucast (w :: UINT32) :: UINT64) = unat w"
  by (simp add: unsigned_ucast_eq take_bit_nat_eq_self_iff unsigned_less order_less_trans [OF unsigned_less])

lemma sort_end_bytes:
  assumes "st_data_size sd = 4" "st_array_size sd = of_nat n" "0 < n" "n < 2 ^ 30" "unat (sp_end_idx p) < n"
  shows "sort_end sd p = 4 * (if sp_end_idx p = 0 then n - 1 else unat (sp_end_idx p))"
proof (cases "sp_end_idx p = 0")
  case True
  have "(of_nat n - 1) * (4 :: UINT64) = of_nat ((n - 1) * 4)"
    using assms(3) by (simp add: of_nat_diff)
  also have "unat \<dots> = (n - 1) * 4"
    using assms(4) by (simp only: unat_of_nat) simp
  finally show ?thesis using True assms(1,2) by (simp add: sort_end_def)
next
  case False
  then show ?thesis using assms by (simp add: sort_end_def unat_word_ariths)
qed

lemma stata_sort_ok:
  assumes fd: "fn_pVdF f = Live (FdStata sd)" "st_data sd = Live (enc_words ws)"
    "st_array_size sd = of_nat (length ws)" "st_data_size sd = 4" "length ws < 2 ^ 30"
    and p: "sp_type p = AM_SORT_TYPE_STATA_INTEGRAL_MERGE" "sp_start_idx p = 0" "sp_data_signed p = 0"
    "unat (sp_end_idx p) < length ws" "20 \<le> l1"
    and n: "n = (if sp_end_idx p = 0 then length ws else Suc (unat (sp_end_idx p)))" "2 \<le> n"
    and al: "al 0"
  shows "am_stata_sort al junk f (Some (enc_sort_param p @ post)) l1 =
    Inr (AM_RET_GOOD, f\<lparr>fn_pVdF := Live (FdStata (sd\<lparr>st_data :=
      Live (enc_words (sort (take n ws) @ drop n ws))\<rparr>))\<rparr>)"
proof -
  have nl: "n \<le> length ws" "0 < length ws" using n p(4) by (auto split: if_splits)
  have e: "sort_end sd p + 4 = 0 + 4 * length (take n ws)"
    using sort_end_bytes [OF fd(4,3) nl(2) fd(5) p(4)] n nl by (auto simp: min_absorb2)
  have s: "sort_start sd p = 0" using p(2) by (simp add: sort_start_def)
  have at: "words_at (enc_words ws) 0 (take n ws)"
  proof -
    have "words_at (enc_words (take n ws @ drop n ws)) 0 (take n ws @ drop n ws)"
      by (simp add: words_at_def)
    then show ?thesis unfolding words_at_append by simp
  qed
  have "am_stata_merge_sort_begin al junk (enc_words ws) 0 (sort_end sd p) 4 am_unsigned_intg_sort_comp32 =
      Inr (AM_RET_GOOD, splice_at (enc_words ws) 0 (enc_words (sort (take n ws))))"
    using n nl fd(5) by (intro merge_sort_begin_ok [OF at _ e]) (auto simp: al)
  moreover have "splice_at (enc_words ws) 0 (enc_words (sort (take n ws))) =
      enc_words (sort (take n ws) @ drop n ws)"
  proof -
    have "drop (4 * n) (enc_words (take n ws @ drop n ws)) = enc_words (drop n ws)"
      unfolding enc_words_append using nl by simp
    then show ?thesis using nl by (simp add: splice_at_def enc_words_append min_absorb2)
  qed
  moreover have "(ucast (sp_end_idx p) :: UINT64) < st_array_size sd" "(0 :: UINT64) < st_array_size sd"
  proof -
    have "unat (of_nat (length ws) :: UINT64) = length ws"
      using fd(5) by (simp only: unat_of_nat) simp
    then show "(ucast (sp_end_idx p) :: UINT64) < st_array_size sd" "(0 :: UINT64) < st_array_size sd"
      using fd(3) p(4) nl by (simp_all add: word_less_nat_alt)
  qed
  ultimately show ?thesis
    using fd p s by (simp add: am_stata_sort_def rd_sort_param_at)
qed

text \<open>
  C27: A sort request of the merge type on unsigned data that starts at index 0 sorts the elements up to \<open>end_idx\<close>, or all of
  them for \<open>end_idx = 0\<close>, in ascending order, leaves the elements behind them alone and returns \<open>AM_RET_GOOD\<close>. It does so for
  every \<open>order\<close>: the member is never read, so that a request with \<open>AM_SORT_ORDER_DESC\<close>, which \<open>appmemlib.h\<close> declares, is
  answered with \<open>AM_RET_GOOD\<close> and ascending order too. The array has fewer than \<open>2 ^ 30\<close> words, so that the size of the merge buffer fits
  32 bits, \<open>end_idx\<close> is inside it, at least two elements are to sort, the parameter has its 20 bytes and the merge buffer is
  granted.
\<close>

theorem am_stata_sort_sorts:
  assumes fd: "fn_pVdF f = Live (FdStata sd)" "st_data sd = Live (enc_words ws)"
    "st_array_size sd = of_nat (length ws)" "st_data_size sd = 4" "length ws < 2 ^ 30"
    and p: "sp_type p = AM_SORT_TYPE_STATA_INTEGRAL_MERGE" "sp_start_idx p = 0" "sp_data_signed p = 0"
    "unat (sp_end_idx p) < length ws" "20 \<le> l1"
    and n: "n = (if sp_end_idx p = 0 then length ws else Suc (unat (sp_end_idx p)))" "2 \<le> n"
    and al: "al 0"
  shows "am_stata_sort al junk f (Some (enc_sort_param p @ post)) l1 =
    Inr (AM_RET_GOOD, f\<lparr>fn_pVdF := Live (FdStata (sd\<lparr>st_data :=
      Live (enc_words (sort (take n ws) @ drop n ws))\<rparr>))\<rparr>)"
  using assms by (rule stata_sort_ok)

lemma am_stata_sort_sorts_witness:
  "am_stata_sort (\<lambda>_. True) (\<lambda>_. 0)
     (zero_func\<lparr>fn_pVdF := Live (FdStata \<lparr>st_data = Live (enc_words [3, 1, 2, 0]), st_size = 16,
        st_array_size = 4, st_idx_size = 4, st_data_size = 4\<rparr>)\<rparr>)
     (Some (enc_sort_param \<lparr>sp_type = 1, sp_start_idx = 0, sp_end_idx = 2, sp_order = AM_SORT_ORDER_DESC, sp_data_signed = 0\<rparr>)) 20
   = Inr (AM_RET_GOOD,
     zero_func\<lparr>fn_pVdF := Live (FdStata \<lparr>st_data = Live (enc_words [1, 2, 3, 0]), st_size = 16,
        st_array_size = 4, st_idx_size = 4, st_data_size = 4\<rparr>)\<rparr>)"
  using am_stata_sort_sorts [of "zero_func\<lparr>fn_pVdF := Live (FdStata \<lparr>st_data = Live (enc_words [3, 1, 2, 0]),
        st_size = 16, st_array_size = 4, st_idx_size = 4, st_data_size = 4\<rparr>)\<rparr>"
      "\<lparr>st_data = Live (enc_words [3, 1, 2, 0]), st_size = 16, st_array_size = 4, st_idx_size = 4, st_data_size = 4\<rparr>"
      "[3, 1, 2, 0]"
      "\<lparr>sp_type = 1, sp_start_idx = 0, sp_end_idx = 2, sp_order = AM_SORT_ORDER_DESC, sp_data_signed = 0\<rparr>" 20 3
      "\<lambda>_. True" "\<lambda>_. 0" "[]"]
  by (simp add: word_le_nat_alt del: enc_words_Cons)

text \<open>
  The start of the range is scaled by the number of elements instead of their size, so a request
  with \<open>start_idx\<close> 4 or more is always refused with \<open>AM_RET_PARAM_ERR\<close> and leaves the array as it was,
  whatever valid range it asks for.
\<close>

theorem am_stata_sort_start_scaled:
  assumes fd: "fn_pVdF f = Live (FdStata sd)" "st_data sd = Live mem" "st_data_size sd = 4"
    "st_array_size sd < 2 ^ 30"
    and p: "sp_type p = AM_SORT_TYPE_STATA_INTEGRAL_MERGE" "4 \<le> sp_start_idx p"
    "ucast (sp_start_idx p) < st_array_size sd" "ucast (sp_end_idx p) < st_array_size sd"
    "sp_data_signed p = 0" "20 \<le> l1"
  shows "am_stata_sort al junk f (Some (enc_sort_param p @ post)) l1 = Inr (AM_RET_PARAM_ERR, f)"
proof -
  define n where "n = unat (st_array_size sd)"
  have n: "st_array_size sd = of_nat n" "n < 2 ^ 30" "unat (sp_start_idx p) < n" "unat (sp_end_idx p) < n"
    using fd(4) p(3,4) by (simp_all add: n_def word_less_nat_alt)
  have i: "4 \<le> unat (sp_start_idx p)" using p(2) by (simp add: word_le_nat_alt)
  have "unat (sp_start_idx p) * n < 2 ^ 64"
  proof -
    have "unat (sp_start_idx p) * n < 2 ^ 30 * 2 ^ 30" using n by (intro mult_strict_mono) auto
    then show ?thesis by simp
  qed
  then have s: "sort_start sd p = unat (sp_start_idx p) * n"
    by (simp add: sort_start_def unat_word_ariths n_def [symmetric])
  have "sort_end sd p = 4 * (if sp_end_idx p = 0 then n - 1 else unat (sp_end_idx p))"
    using sort_end_bytes [OF fd(3) n(1) _ n(2,4)] n(3) by simp
  also have "\<dots> \<le> 4 * n" using n(4) by auto
  also have "\<dots> \<le> sort_start sd p" unfolding s using i by (intro mult_le_mono1)
  finally have "\<not> sort_start sd p < sort_end sd p" by simp
  moreover have "f\<lparr>fn_pVdF := Live (FdStata (sd\<lparr>st_data := Live mem\<rparr>))\<rparr> = f"
    using fd(1,2) by (cases f; cases sd) simp
  ultimately show ?thesis
    using fd p by (simp add: am_stata_sort_def rd_sort_param_at am_stata_merge_sort_begin_def)
qed

lemma am_stata_sort_start_scaled_witness:
  "am_stata_sort (\<lambda>_. True) (\<lambda>_. 0)
     (zero_func\<lparr>fn_pVdF := Live (FdStata \<lparr>st_data = Live (enc_words [9, 8, 7, 6, 5, 4, 3]), st_size = 28,
        st_array_size = 7, st_idx_size = 4, st_data_size = 4\<rparr>)\<rparr>)
     (Some (enc_sort_param \<lparr>sp_type = 1, sp_start_idx = 4, sp_end_idx = 6, sp_order = 0, sp_data_signed = 0\<rparr>)) 20
   = Inr (AM_RET_PARAM_ERR,
      zero_func\<lparr>fn_pVdF := Live (FdStata \<lparr>st_data = Live (enc_words [9, 8, 7, 6, 5, 4, 3]), st_size = 28,
        st_array_size = 7, st_idx_size = 4, st_data_size = 4\<rparr>)\<rparr>)"
  using am_stata_sort_start_scaled [of "zero_func\<lparr>fn_pVdF := Live (FdStata \<lparr>st_data = Live (enc_words [9, 8, 7, 6, 5, 4, 3]),
        st_size = 28, st_array_size = 7, st_idx_size = 4, st_data_size = 4\<rparr>)\<rparr>"
      "\<lparr>st_data = Live (enc_words [9, 8, 7, 6, 5, 4, 3]), st_size = 28, st_array_size = 7, st_idx_size = 4, st_data_size = 4\<rparr>"
      "enc_words [9, 8, 7, 6, 5, 4, 3]"
      "\<lparr>sp_type = 1, sp_start_idx = 4, sp_end_idx = 6, sp_order = 0, sp_data_signed = 0\<rparr>" 20
      "\<lambda>_. True" "\<lambda>_. 0" "[]"]
  by (simp del: enc_words_Cons)

end
