(* ===== verification/AM_Assca.thy ===== *)
theory AM_Assca
  imports AM_Func UT_Hash_Ops
begin

text \<open>
  The associative array device, \<^verbatim>\<open>appmemlib/am_assca.c\<close> and \<^verbatim>\<open>inc/am_assca.h\<close>: a hash table of items
  with fixed key and data sizes, read and written through the aligned operators and walked by up to
  four iterators.
\<close>

abbreviation (input) TS_ASSCA_KEY_MAX_SIZE :: nat where "TS_ASSCA_KEY_MAX_SIZE \<equiv> 0"
abbreviation (input) TS_ASSCA_DATA_MAX_SIZE :: nat where "TS_ASSCA_DATA_MAX_SIZE \<equiv> 1"
abbreviation (input) MAX_ASSCA_ITERS :: nat where "MAX_ASSCA_ITERS \<equiv> 4"
abbreviation (input) ASSCA_ITER_FLAG_RESET :: UINT32 where "ASSCA_ITER_FLAG_RESET \<equiv> 0x80000000"
abbreviation (input) ASSCA_ITER_FLAG_NEW :: UINT32 where "ASSCA_ITER_FLAG_NEW \<equiv> 0x40000000"
abbreviation (input) ASSCA_ITER_FLAG_VALID :: UINT32 where "ASSCA_ITER_FLAG_VALID \<equiv> 0x20000000"
abbreviation (input) ASSCA_ITER_DONE :: UINT32 where "ASSCA_ITER_DONE \<equiv> 0x10000000"
abbreviation (input) ASSCA_ITER_IDX_MASK :: UINT32 where "ASSCA_ITER_IDX_MASK \<equiv> 3"
abbreviation (input) ASSCA_ITER_INVALID :: UINT32 where "ASSCA_ITER_INVALID \<equiv> 0xF1FFFFFF"

definition GET_ITER_IDX :: "UINT32 \<Rightarrow> UINT32" where
  "GET_ITER_IDX x = x AND ASSCA_ITER_IDX_MASK"

section \<open>The array\<close>

definition amlib_assca_init :: "alloc \<Rightarrow> UINT32 \<Rightarrow> UINT32 \<Rightarrow> UINT8 \<Rightarrow> UINT8 \<Rightarrow> amlib_assca ptr" where
  "amlib_assca_init al key_length data_length bFixedKey bFixedData =
     (if al 0
      then Live \<lparr>aa_key_len = key_length, aa_data_len = data_length, aa_bFixedKey = bFixedKey,
                 aa_bFixedData = bFixedData, aa_iters = replicate MAX_ASSCA_ITERS None,
                 aa_hash = \<lparr>uh_elems = \<lambda>_. None, uh_brk = 0, uh_head = None, uh_tbl = Null\<rparr>\<rparr>
      else Null)"

text \<open>The status and the block behind \<open>pData\<close> afterwards.\<close>

definition amlib_assca_get_key_val :: "amlib_assca \<Rightarrow> bytes \<Rightarrow> bytes \<Rightarrow> (AM_RETURN \<times> bytes) res" where
  "amlib_assca_get_key_val aa pKey pData =
     bindr (HASH_FIND (aa_hash aa) pKey (aa_key_len aa)) (\<lambda>pAI.
     case pAI of
       Some a \<Rightarrow>
         bindr (getel (uh_elems (aa_hash aa)) a) (\<lambda>e.
         bindr (memcpy pData 0 (ue_val e) 0 (unat (aa_data_len aa))) (\<lambda>pData.
         Inr (AM_RET_GOOD, pData)))
     | None \<Rightarrow> Inr (AM_RET_KEY_NOT_FOUND, pData))"

text \<open>
  The new item gets the next unused address; its links are written by \<open>HASH_ADD_KEYPTR\<close> before they
  are read. \<open>al 0\<close> is the allocation of the item, the later ones are those of the hash table.
\<close>

definition amlib_assca_add_key_fixfix ::
  "alloc \<Rightarrow> amlib_assca \<Rightarrow> bytes \<Rightarrow> bytes \<Rightarrow> (AM_RETURN \<times> amlib_assca) res" where
  "amlib_assca_add_key_fixfix al aa pKey pData =
     bindr (AM_ASSERT (aa_bFixedKey aa = 1)) (\<lambda>_.
     bindr (AM_ASSERT (aa_bFixedData aa = 1)) (\<lambda>_.
     if al 0 then
       bindr (getb pData 0 (unat (aa_data_len aa))) (\<lambda>d.
       bindr (getb pKey 0 (unat (aa_key_len aa))) (\<lambda>k.
       let h = aa_hash aa;
           a = uh_brk h;
           pAI = \<lparr>ue_val = d, ue_prev = None, ue_next = None, ue_hh_prev = None, ue_hh_next = None,
                  ue_key = k, ue_keylen = 0, ue_hashv = 0\<rparr>;
           h = h\<lparr>uh_elems := (uh_elems h)(a \<mapsto> pAI), uh_brk := Suc a\<rparr>
       in
       bindr (HASH_ADD_KEYPTR (\<lambda>i. al (Suc i)) h k (aa_key_len aa) a) (\<lambda>h.
       Inr (AM_RET_GOOD, aa\<lparr>aa_hash := h\<rparr>))))
     else Inr (AM_RET_GOOD, aa)))"

section \<open>The device operations\<close>

definition am_assca_open :: "mem_func \<Rightarrow> AM_RETURN" where
  "am_assca_open f = AM_RET_GOOD"

definition am_assca_close :: "mem_func \<Rightarrow> AM_RETURN" where
  "am_assca_close f = AM_RET_GOOD"

text \<open>
  The loop of \<open>am_assca_release\<close>, \<open>HASH_ITER\<close> with deletion: \<open>el\<close> is deleted from the table and
  freed, \<open>tmp\<close> is the element that followed it.
\<close>

definition hh_next_of :: "'v elems \<Rightarrow> nat option \<Rightarrow> nat option res" where
  "hh_next_of es p = (case p of None \<Rightarrow> Inr None | Some a \<Rightarrow> bindr (getel es a) (\<lambda>e. Inr (ue_next e)))"

fun release_items :: "nat \<Rightarrow> 'v ut_hash \<Rightarrow> nat option \<Rightarrow> nat option \<Rightarrow> 'v ut_hash res" where
  "release_items fuel h None tmp = Inr h"
| "release_items 0 h (Some el) tmp = Inl NoReturn"
| "release_items (Suc fuel) h (Some el) tmp =
     bindr (HASH_DELETE h el) (\<lambda>h.
     let h = h\<lparr>uh_elems := (uh_elems h)(el := None)\<rparr> in
     bindr (hh_next_of (uh_elems h) tmp) (\<lambda>nxt.
     release_items fuel h tmp nxt))"

definition am_assca_release_all :: "amlib_assca \<Rightarrow> amlib_assca res" where
  "am_assca_release_all aa =
     (let h = aa_hash aa in
      bindr (hh_next_of (uh_elems h) (uh_head h)) (\<lambda>tmp.
      bindr (release_items (Suc (uh_brk h)) h (uh_head h) tmp) (\<lambda>h.
      Inr (aa\<lparr>aa_hash := h\<rparr>))))"

text \<open>The items and the data union are freed; the \<open>AMLIB_ASSCA\<close> itself is not.\<close>

definition am_assca_release :: "mem_func \<Rightarrow> (AM_RETURN \<times> mem_func) res" where
  "am_assca_release f =
     (if fn_pVdF f = Null then Inr (AM_RET_GOOD, f)
      else
        bindr (bindr (deref (fn_pVdF f)) fd_assca) (\<lambda>fd.
        bindr (if as_data fd = Null then Inr ()
               else bindr (deref (as_data fd)) (\<lambda>aa. bindr (am_assca_release_all aa) (\<lambda>_. Inr ()))) (\<lambda>_.
        Inr (AM_RET_GOOD, f\<lparr>fn_pVdF := Dangling\<rparr>))))"

fun first_free :: "nat option list \<Rightarrow> nat \<Rightarrow> nat option" where
  "first_free [] i = None"
| "first_free (p # ps) i = (if p = None then Some i else first_free ps (Suc i))"

definition am_assca_get_iter :: "amlib_assca \<Rightarrow> UINT32 \<Rightarrow> UINT32" where
  "am_assca_get_iter aa iter_handle =
     (if iter_handle AND ASSCA_ITER_FLAG_NEW \<noteq> 0 then
        (case first_free (aa_iters aa) 0 of
           Some i \<Rightarrow> ASSCA_ITER_FLAG_VALID OR of_nat i
         | None \<Rightarrow> ASSCA_ITER_INVALID)
      else if iter_handle AND ASSCA_ITER_FLAG_RESET \<noteq> 0 \<and> iter_handle AND ASSCA_ITER_IDX_MASK < of_nat MAX_ASSCA_ITERS
      then ASSCA_ITER_INVALID
      else if iter_handle AND ASSCA_ITER_FLAG_VALID \<noteq> 0 \<and> iter_handle AND ASSCA_ITER_IDX_MASK < of_nat MAX_ASSCA_ITERS
      then iter_handle
      else ASSCA_ITER_INVALID)"

definition set_assca :: "mem_func \<Rightarrow> assca_data \<Rightarrow> amlib_assca \<Rightarrow> mem_func" where
  "set_assca f fd aa = f\<lparr>fn_pVdF := Live (FdAssca (fd\<lparr>as_data := Live aa\<rparr>))\<rparr>"

text \<open>
  The answer holds the status, the function object, the blocks behind \<open>p1\<close> and \<open>p2\<close> and the iterator
  handle. An item's key and data are contiguous, so a copy from the key may run on into the data.
\<close>

definition am_assca_iter ::
  "mem_func \<Rightarrow> buf \<Rightarrow> UINT64 \<Rightarrow> buf \<Rightarrow> UINT64 \<Rightarrow> UINT32 \<Rightarrow> (AM_RETURN \<times> mem_func \<times> buf \<times> buf \<times> UINT32) res" where
  "am_assca_iter f p1 l1 p2 l2 iter_handle =
     (if fn_pVdF f = Null then Inr (AM_RET_GOOD, f, p1, p2, iter_handle)
      else
        bindr (bindr (deref (fn_pVdF f)) fd_assca) (\<lambda>fd.
        let bHead = (iter_handle AND (ASSCA_ITER_FLAG_RESET OR ASSCA_ITER_FLAG_NEW) \<noteq> 0) in
        bindr (deref (as_data fd)) (\<lambda>aa.
        let local_iter = am_assca_get_iter aa iter_handle;
            idx = unat (GET_ITER_IDX local_iter) in
        if local_iter \<noteq> ASSCA_ITER_INVALID then
          (case (if bHead then uh_head (aa_hash aa) else aa_iters aa ! idx) of
             Some a \<Rightarrow>
               bindr (getel (uh_elems (aa_hash aa)) a) (\<lambda>e.
               bindr (the_buf p1) (\<lambda>b1.
               bindr (memcpy b1 0 (ue_key e @ ue_val e) 0 (unat (ucast l1 :: UINT32))) (\<lambda>b1.
               bindr (the_buf p2) (\<lambda>b2.
               bindr (memcpy b2 0 (ue_val e) 0 (unat (ucast l2 :: UINT32))) (\<lambda>b2.
               Inr (AM_RET_GOOD, set_assca f fd (aa\<lparr>aa_iters := (aa_iters aa)[idx := ue_next e]\<rparr>),
                    Some b1, Some b2, local_iter))))))
           | None \<Rightarrow> Inr (AM_RET_ITER_DONE, f, p1, p2, local_iter))
        else
          Inr (AM_RET_INVALID_ITER, set_assca f fd (aa\<lparr>aa_iters := (aa_iters aa)[idx := None]\<rparr>),
               p1, p2, GET_ITER_IDX local_iter OR ASSCA_ITER_DONE))))"

definition am_assca_read32 :: "mem_func \<Rightarrow> AM_RETURN" where
  "am_assca_read32 f = AM_RET_GOOD"

definition am_assca_write32 :: "mem_func \<Rightarrow> AM_RETURN" where
  "am_assca_write32 f = AM_RET_GOOD"

definition am_assca_read32_align :: "mem_func \<Rightarrow> buf \<Rightarrow> buf \<Rightarrow> align_res" where
  "am_assca_read32_align f p1 p2 =
     (if fn_pVdF f = Null then Inr (AM_RET_INVALID_HDL, f, p2)
      else
        bindr (bindr (deref (fn_pVdF f)) fd_assca) (\<lambda>fd.
        bindr (AM_ASSERT (as_data fd \<noteq> Null)) (\<lambda>_.
        bindr (AM_ASSERT (p1 \<noteq> None)) (\<lambda>_.
        bindr (AM_ASSERT (p2 \<noteq> None)) (\<lambda>_.
        bindr (deref (as_data fd)) (\<lambda>aa.
        bindr (the_buf p1) (\<lambda>b1.
        bindr (the_buf p2) (\<lambda>b2.
        bindr (amlib_assca_get_key_val aa b1 b2) (\<lambda>(st, b2).
        Inr (st, f, Some b2))))))))))"

definition am_assca_write32_align :: "alloc \<Rightarrow> mem_func \<Rightarrow> buf \<Rightarrow> buf \<Rightarrow> align_res" where
  "am_assca_write32_align al f p1 p2 =
     (if fn_pVdF f = Null then Inr (AM_RET_INVALID_HDL, f, p2)
      else
        bindr (bindr (deref (fn_pVdF f)) fd_assca) (\<lambda>fd.
        bindr (AM_ASSERT (as_data fd \<noteq> Null)) (\<lambda>_.
        bindr (AM_ASSERT (p1 \<noteq> None)) (\<lambda>_.
        bindr (AM_ASSERT (p2 \<noteq> None)) (\<lambda>_.
        bindr (deref (as_data fd)) (\<lambda>aa.
        bindr (the_buf p1) (\<lambda>b1.
        bindr (the_buf p2) (\<lambda>b2.
        bindr (amlib_assca_add_key_fixfix al aa b1 b2) (\<lambda>(st, aa).
        Inr (st, set_assca f fd aa, p2))))))))))"

section \<open>Creation\<close>

text \<open>The number of 64-bit words a packet of \<open>n\<close> 32-bit words takes, in 8-bit arithmetic.\<close>

definition pack_qwords :: "UINT8 \<Rightarrow> UINT8" where
  "pack_qwords n = (if n mod 2 \<noteq> 0 then 1 + n div 2 else n div 2)"

definition pack_dwords :: "UINT32 \<Rightarrow> UINT8" where
  "pack_dwords n = (let d = (ucast (n div 4) :: UINT8) in if n mod 4 \<noteq> 0 then d + 1 else d)"

definition assca_pack_sizes :: "UINT32 \<Rightarrow> UINT32 \<Rightarrow> cr_resp \<Rightarrow> cr_resp" where
  "assca_pack_sizes idx_size data_size r =
     (let off = pack_dwords idx_size;
          wr = off + ucast (data_size div 4);
          wr = (if data_size mod 4 \<noteq> 0 then wr + 1 else wr) + 1;
          rd = off + 1 + 1 + 1
      in r\<lparr>cr_pack_DataOffset := off, cr_wr_pack_qword_size := pack_qwords wr,
           cr_rd_pack_qword_size := pack_qwords rd\<rparr>)"

text \<open>\<open>al 0\<close> is the allocation of the data union, \<open>al 1\<close> that of the \<open>AMLIB_ASSCA\<close>.\<close>

definition am_create_assca_device :: "alloc \<Rightarrow> mem_func \<Rightarrow> mem_cap \<Rightarrow> (AM_RETURN \<times> mem_func) res" where
  "am_create_assca_device al f cap =
     bindr (AM_ASSERT (fn_pfnOps f \<noteq> None)) (\<lambda>_.
     if al 0 \<and> cap_amType cap = AM_TYPE_ASSOC_ARRAY then
       let key_size = cap_typeSpecific cap ! TS_ASSCA_KEY_MAX_SIZE;
           data_size = cap_typeSpecific cap ! TS_ASSCA_DATA_MAX_SIZE;
           pAA = amlib_assca_init (\<lambda>i. al (Suc i)) key_size data_size 1 1
       in
       if pAA \<noteq> Null then
         let pVdF = FdAssca \<lparr>as_data = pAA, as_size = cap_maxSize cap, as_cur_count = 0\<rparr>;
             wr = op_word AM_KPACK AM_OP_WRITE_ALIGN;
             rd = op_word AM_KPACK AM_OP_READ_ALIGN;
             f = upd_cr (\<lambda>r. r\<lparr>cr_data_size := data_size, cr_idx_size := key_size\<rparr>) f;
             f = set_base_ops f;
             f = set_cr_op AM_OP_READ_ALIGN rd (set_op AM_OP_READ_ALIGN Fn_assca_read32_align f);
             f = set_cr_op AM_OP_WRITE_ALIGN wr (set_op AM_OP_WRITE_ALIGN Fn_assca_write32_align f);
             f = set_acOps wr rd f;
             f = upd_cr (assca_pack_sizes key_size data_size) f;
             f = f\<lparr>fn_pVdF := Live pVdF\<rparr>
         in
         bindr (set_name (''am_assca_'' @ fmt_04x (fn_handle f)) f) (\<lambda>f.
         Inr (AM_RET_GOOD, upd_cr (\<lambda>r. r\<lparr>cr_devt := fn_handle f\<rparr>) f))
       else Inr (AM_RET_ALLOC_ERR, f)
     else Inr (AM_RET_ALLOC_ERR, f))"

definition assca_get_cap_details :: "AM_RETURN" where
  "assca_get_cap_details = AM_RET_GOOD"

section \<open>Registration data\<close>

definition assca_caps :: mem_cap where
  "assca_caps = mk_cap AM_TYPE_ASSOC_ARRAY (1024 * 1024) 1 7 0 [512, 1024 * 1024, 1 OR 2, 1 OR 2]"

definition assca_cap_details :: "cap_details list" where
  "assca_cap_details = [mk_details AM_TYPE_ASSOC_ARRAY ''Associative Array'' 0 ''ut-hash'' 4
     [''Max Key Size'', ''Max Data Size'', ''Key Type : 1 = Fixed Width, 2 = Variable Width'',
      ''Data Type : 1 = Fixed Width, 2 = Variable Width'']]"

end
