(* ===== verification/AM_Assca_Props.thy ===== *)
theory AM_Assca_Props
  imports AM_Assca
begin

text \<open>
  The associative array keeps the list of the entries added to it. The contract of such a store is
  the locale \<open>keyed_store\<close>, interpreted on \<open>amlib_assca_get_key_val\<close> and
  \<open>amlib_assca_add_key_fixfix\<close>; release and iteration follow the same list.
\<close>

section \<open>The contract\<close>

fun put_all :: "('s \<Rightarrow> bytes \<Rightarrow> bytes \<Rightarrow> (AM_RETURN \<times> 's) res) \<Rightarrow> 's \<Rightarrow> (bytes \<times> bytes) list \<Rightarrow> (AM_RETURN \<times> 's) res" where
  "put_all put s [] = Inr (AM_RET_GOOD, s)"
| "put_all put s ((k, d) # ws) =
     bindr (put s k d) (\<lambda>(st, s'). if st = AM_RET_GOOD then put_all put s' ws else Inr (st, s'))"

text \<open>There is room for each of the entries when its turn comes.\<close>

fun room_for ::
  "('s \<Rightarrow> bool) \<Rightarrow> ('s \<Rightarrow> bytes \<Rightarrow> bytes \<Rightarrow> (AM_RETURN \<times> 's) res) \<Rightarrow> 's \<Rightarrow> (bytes \<times> bytes) list \<Rightarrow> bool" where
  "room_for room put s [] = True"
| "room_for room put s ((k, d) # ws) =
     (room s \<and> (case put s k d of Inr (_, s') \<Rightarrow> room_for room put s' ws | Inl _ \<Rightarrow> True))"

locale keyed_store =
  fixes inv :: "'s \<Rightarrow> (bytes \<times> bytes) list \<Rightarrow> bool"
    and klen vlen :: "'s \<Rightarrow> nat"
    and get :: "'s \<Rightarrow> bytes \<Rightarrow> bytes \<Rightarrow> (AM_RETURN \<times> bytes) res"
    and put :: "'s \<Rightarrow> bytes \<Rightarrow> bytes \<Rightarrow> (AM_RETURN \<times> 's) res"
    and room :: "'s \<Rightarrow> bool"
  assumes get_ok: "inv s es \<Longrightarrow> klen s \<le> length k \<Longrightarrow> vlen s \<le> length d \<Longrightarrow>
      (take (klen s) k \<notin> fst ` set es \<and> get s k d = Inr (AM_RET_KEY_NOT_FOUND, d)) \<or>
      (\<exists>v. (take (klen s) k, v) \<in> set es \<and> get s k d = Inr (AM_RET_GOOD, v @ drop (vlen s) d))"
    and put_ok: "inv s es \<Longrightarrow> room s \<Longrightarrow> klen s \<le> length k \<Longrightarrow> vlen s \<le> length d \<Longrightarrow>
      \<exists>s'. put s k d = Inr (AM_RET_GOOD, s') \<and> inv s' (es @ [(take (klen s) k, take (vlen s) d)]) \<and>
           klen s' = klen s \<and> vlen s' = vlen s"
begin

lemma get_map:
  assumes "inv s es" "distinct (map fst es)" "klen s \<le> length k" "vlen s \<le> length d"
  shows "get s k d = (case map_of es (take (klen s) k) of
      None \<Rightarrow> Inr (AM_RET_KEY_NOT_FOUND, d) | Some v \<Rightarrow> Inr (AM_RET_GOOD, v @ drop (vlen s) d))"
  using get_ok [OF assms(1,3,4)]
proof
  assume a: "take (klen s) k \<notin> fst ` set es \<and> get s k d = Inr (AM_RET_KEY_NOT_FOUND, d)"
  then have "map_of es (take (klen s) k) = None" by (simp add: map_of_eq_None_iff)
  with a show ?thesis by simp
next
  assume "\<exists>v. (take (klen s) k, v) \<in> set es \<and> get s k d = Inr (AM_RET_GOOD, v @ drop (vlen s) d)"
  then obtain v where "(take (klen s) k, v) \<in> set es" "get s k d = Inr (AM_RET_GOOD, v @ drop (vlen s) d)" by blast
  then show ?thesis using assms(2) by simp
qed

lemma put_all_ok:
  assumes "inv s es" "room_for room put s ws"
    and "\<forall>(k, d)\<in>set ws. klen s \<le> length k \<and> vlen s \<le> length d"
  shows "\<exists>s'. put_all put s ws = Inr (AM_RET_GOOD, s') \<and>
    inv s' (es @ map (\<lambda>(k, d). (take (klen s) k, take (vlen s) d)) ws) \<and> klen s' = klen s \<and> vlen s' = vlen s"
  using assms
proof (induction ws arbitrary: s es)
  case Nil
  then show ?case by simp
next
  case (Cons w ws)
  obtain k d where w: "w = (k, d)" by (cases w)
  have l: "klen s \<le> length k" "vlen s \<le> length d" using Cons.prems(3) w by simp_all
  obtain s1 where s1: "put s k d = Inr (AM_RET_GOOD, s1)"
    "inv s1 (es @ [(take (klen s) k, take (vlen s) d)])" "klen s1 = klen s" "vlen s1 = vlen s"
    using put_ok [OF Cons.prems(1) _ l] Cons.prems(2) w by auto
  have "room_for room put s1 ws" using Cons.prems(2) w s1(1) by simp
  moreover have "\<forall>(k, d)\<in>set ws. klen s1 \<le> length k \<and> vlen s1 \<le> length d"
    using Cons.prems(3) s1(3,4) by simp
  ultimately obtain s2 where "put_all put s1 ws = Inr (AM_RET_GOOD, s2)"
    "inv s2 ((es @ [(take (klen s) k, take (vlen s) d)]) @ map (\<lambda>(k, d). (take (klen s1) k, take (vlen s1) d)) ws)"
    "klen s2 = klen s1" "vlen s2 = vlen s1"
    using Cons.IH [OF s1(2)] by blast
  then show ?case using s1 w by simp
qed

text \<open>A store filled from empty with distinct keys answers like the map of what was put into it.\<close>

lemma put_all_get:
  assumes "inv s []" "room_for room put s ws"
    and "\<forall>(k, d)\<in>set ws. klen s \<le> length k \<and> vlen s \<le> length d"
    and "distinct (map (\<lambda>(k, d). take (klen s) k) ws)" "klen s \<le> length k" "vlen s \<le> length d"
  shows "\<exists>s'. put_all put s ws = Inr (AM_RET_GOOD, s') \<and>
    get s' k d = (case map_of (map (\<lambda>(k, d). (take (klen s) k, take (vlen s) d)) ws) (take (klen s) k) of
      None \<Rightarrow> Inr (AM_RET_KEY_NOT_FOUND, d) | Some v \<Rightarrow> Inr (AM_RET_GOOD, v @ drop (vlen s) d))"
proof -
  let ?es = "map (\<lambda>(k, d). (take (klen s) k, take (vlen s) d)) ws"
  obtain s' where s': "put_all put s ws = Inr (AM_RET_GOOD, s')" "inv s' ([] @ ?es)"
    "klen s' = klen s" "vlen s' = vlen s"
    using put_all_ok [OF assms(1,2,3)] by auto
  have "map fst ?es = map (\<lambda>(k, d). take (klen s) k) ws" by (induction ws) auto
  then have dist: "distinct (map fst ?es)" using assms(4) by (simp only:)
  have inv': "inv s' ?es" using s'(2) by simp
  have len: "klen s' \<le> length k" "vlen s' \<le> length d" using s'(3,4) assms(5,6) by simp_all
  show ?thesis using s'(1) get_map [OF inv' dist len, unfolded s'(3,4)] by blast
qed

end

section \<open>The invariant of the array\<close>

definition assca_rep :: "amlib_assca \<Rightarrow> nat list \<Rightarrow> (bytes \<times> bytes) list \<Rightarrow> bool" where
  "assca_rep aa order es \<longleftrightarrow>
     uh_inv (aa_hash aa) order \<and> uh_entries (aa_hash aa) order = es \<and>
     (\<forall>x. uh_elems (aa_hash aa) x \<noteq> None \<longleftrightarrow> x \<in> set order) \<and>
     aa_bFixedKey aa = 1 \<and> aa_bFixedData aa = 1 \<and> length (aa_iters aa) = MAX_ASSCA_ITERS \<and>
     (\<forall>(k, v)\<in>set es. length k = unat (aa_key_len aa) \<and> length v = unat (aa_data_len aa))"

definition assca_inv :: "amlib_assca \<Rightarrow> (bytes \<times> bytes) list \<Rightarrow> bool" where
  "assca_inv aa es \<longleftrightarrow> (\<exists>order. assca_rep aa order es)"

definition assca_room :: "amlib_assca \<Rightarrow> bool" where
  "assca_room aa \<longleftrightarrow> uh_room (aa_hash aa) \<and> uh_brk (aa_hash aa) + 1 < 2 ^ 32"

lemma uh_inv_cong:
  assumes inv: "uh_inv h order" and es: "\<And>x. x \<in> set order \<Longrightarrow> uh_elems h' x = uh_elems h x"
    and brk: "uh_brk h \<le> uh_brk h'" and tbl: "uh_head h' = uh_head h" "uh_tbl h' = uh_tbl h"
  shows "uh_inv h' order"
proof -
  have eok: "elem_ok (uh_brk h') (uh_elems h') x" if "x \<in> set order" for x
    using inv that es [OF that] brk by (fastforce simp: uh_inv_def elem_ok_def)
  show ?thesis
  proof (cases "order = []")
    case True
    then show ?thesis using inv tbl by (simp add: uh_inv_def)
  next
    case False
    then obtain bss t k where c: "uh_tbl h = Live t" "tbl_shape t k"
      "bkts_ok (uh_elems h) (ut_num_buckets t) (ut_buckets t) bss" "set (concat bss) = set order"
      "aseg (uh_elems h) (uh_head h) order (ut_tail t)" "ut_num_items t = of_nat (length order)"
      using inv by (auto simp: uh_inv_def uh_chains_def)
    have "bkts_ok (uh_elems h') (ut_num_buckets t) (ut_buckets t) bss"
    proof (rule bkts_ok_cong [OF c(3)])
      fix x e assume x: "x \<in> set (concat bss)" and e: "uh_elems h x = Some e"
      from x have "x \<in> set order" using c(4) by blast
      then show "\<exists>e'. uh_elems h' x = Some e' \<and> ue_hh e' = ue_hh e \<and> ue_hashv e' = ue_hashv e"
        using es e by simp
    qed
    moreover have "aseg (uh_elems h') (uh_head h) order (ut_tail t)"
      using c(5) by (rule dseg_frame) (simp add: es)
    ultimately have "uh_chains h' order bss"
      using c tbl unfolding uh_chains_def by auto
    then show ?thesis using inv eok False by (auto simp: uh_inv_def)
  qed
qed

lemma assca_get_ok:
  assumes "assca_inv aa es" "unat (aa_key_len aa) \<le> length k" "unat (aa_data_len aa) \<le> length d"
  shows "(take (unat (aa_key_len aa)) k \<notin> fst ` set es \<and>
      amlib_assca_get_key_val aa k d = Inr (AM_RET_KEY_NOT_FOUND, d)) \<or>
    (\<exists>v. (take (unat (aa_key_len aa)) k, v) \<in> set es \<and>
      amlib_assca_get_key_val aa k d = Inr (AM_RET_GOOD, v @ drop (unat (aa_data_len aa)) d))"
proof -
  let ?h = "aa_hash aa" and ?k = "take (unat (aa_key_len aa)) k"
  from assms(1) obtain order where rep: "assca_rep aa order es" by (auto simp: assca_inv_def)
  then have inv: "uh_inv ?h order" and es: "es = map (uh_entry (uh_elems ?h)) order"
    by (auto simp: assca_rep_def uh_entries_def)
  obtain r where r: "HASH_FIND ?h k (aa_key_len aa) = Inr r" and
    c: "case r of None \<Rightarrow> \<forall>x\<in>set order. fst (uh_entry (uh_elems ?h) x) \<noteq> ?k
        | Some a \<Rightarrow> a \<in> set order \<and> fst (uh_entry (uh_elems ?h) a) = ?k"
    using HASH_FIND_ok [OF inv assms(2)] by blast
  show ?thesis
  proof (cases r)
    case None
    then have "?k \<notin> fst ` set es" using c es by auto
    then show ?thesis using r None by (simp add: amlib_assca_get_key_val_def)
  next
    case (Some a)
    then have a: "a \<in> set order" "fst (uh_entry (uh_elems ?h) a) = ?k" using c by auto
    obtain e where e: "uh_elems ?h a = Some e" using rep a(1) unfolding assca_rep_def by (metis option.exhaust)
    have m: "(?k, ue_val e) \<in> set es" using a e es by (force simp: uh_entry_def)
    then have "length (ue_val e) = unat (aa_data_len aa)" using rep by (auto simp: assca_rep_def)
    then have "amlib_assca_get_key_val aa k d = Inr (AM_RET_GOOD, ue_val e @ drop (unat (aa_data_len aa)) d)"
      using r Some e assms(3) by (simp add: amlib_assca_get_key_val_def getel_def memcpy_def getb_def putb_def)
    then show ?thesis using m by blast
  qed
qed

lemma assca_put_ok:
  assumes "assca_inv aa es" "assca_room aa" "\<forall>i. al i"
    and "unat (aa_key_len aa) \<le> length k" "unat (aa_data_len aa) \<le> length d"
  shows "\<exists>aa'. amlib_assca_add_key_fixfix al aa k d = Inr (AM_RET_GOOD, aa') \<and>
    assca_inv aa' (es @ [(take (unat (aa_key_len aa)) k, take (unat (aa_data_len aa)) d)]) \<and>
    aa_key_len aa' = aa_key_len aa \<and> aa_data_len aa' = aa_data_len aa"
proof -
  let ?h = "aa_hash aa" and ?k = "take (unat (aa_key_len aa)) k" and ?d = "take (unat (aa_data_len aa)) d"
  from assms(1) obtain order where rep: "assca_rep aa order es" by (auto simp: assca_inv_def)
  then have inv: "uh_inv ?h order" and es: "uh_entries ?h order = es" by (auto simp: assca_rep_def)
  define a where "a = uh_brk ?h"
  define e where "e = \<lparr>ue_val = ?d, ue_prev = None, ue_next = None, ue_hh_prev = None,
      ue_hh_next = None, ue_key = ?k, ue_keylen = 0, ue_hashv = 0\<rparr>"
  define h1 where "h1 = ?h\<lparr>uh_elems := (uh_elems ?h)(a \<mapsto> e), uh_brk := Suc a\<rparr>"
  have notin: "a \<notin> set order" using inv by (auto simp: uh_inv_def elem_ok_def a_def)
  have same: "uh_elems h1 x = uh_elems ?h x" if "x \<in> set order" for x using that notin by (auto simp: h1_def)
  have inv1: "uh_inv h1 order"
    by (rule uh_inv_cong [OF inv]) (use same in \<open>auto simp: h1_def a_def\<close>)
  have ent1: "uh_entries h1 order = es"
    unfolding es [symmetric] by (rule uh_entries_cong) (simp add: uh_entry_def same)
  have sz: "length order + 1 < 2 ^ 32"
    using uh_inv_bound [OF inv subset_refl] inv assms(2) by (simp add: assca_room_def uh_inv_def)
  have pre: "a < uh_brk h1" "uh_elems h1 a = Some e" "unat (aa_key_len aa) = length ?k" "uh_room h1"
    "\<forall>i. al (Suc i)"
    using assms(2-4) by (auto simp: h1_def assca_room_def uh_room_def)
  obtain h' where h': "HASH_ADD_KEYPTR (\<lambda>i. al (Suc i)) h1 ?k (aa_key_len aa) a = Inr h'"
    "uh_inv h' (order @ [a])" "uh_entries h' (order @ [a]) = es @ [(?k, ?d)]"
    "\<forall>x. uh_elems h' x = None \<longleftrightarrow> uh_elems h1 x = None"
    using HASH_ADD_KEYPTR_ok [OF inv1 sz notin pre] ent1 by (auto simp: e_def)
  have res: "amlib_assca_add_key_fixfix al aa k d = Inr (AM_RET_GOOD, aa\<lparr>aa_hash := h'\<rparr>)"
    using rep assms(3-5) h'(1)
    by (simp add: amlib_assca_add_key_fixfix_def assca_rep_def getb_def Let_def a_def e_def h1_def)
  have "uh_elems h' x \<noteq> None \<longleftrightarrow> x \<in> set (order @ [a])" for x
    using h'(4) rep by (auto simp: h1_def assca_rep_def)
  moreover have "\<forall>(k, v)\<in>set (es @ [(?k, ?d)]). length k = unat (aa_key_len aa) \<and> length v = unat (aa_data_len aa)"
    using rep assms(4,5) by (auto simp: assca_rep_def)
  ultimately have "assca_rep (aa\<lparr>aa_hash := h'\<rparr>) (order @ [a]) (es @ [(?k, ?d)])"
    using rep h'(2,3) by (simp add: assca_rep_def)
  then show ?thesis using res by (auto simp: assca_inv_def)
qed

interpretation assca: keyed_store assca_inv "\<lambda>aa. unat (aa_key_len aa)" "\<lambda>aa. unat (aa_data_len aa)"
  amlib_assca_get_key_val "amlib_assca_add_key_fixfix (\<lambda>_. True)" assca_room
proof
  fix aa es and k d :: bytes
  assume a: "assca_inv aa es" "unat (aa_key_len aa) \<le> length k" "unat (aa_data_len aa) \<le> length d"
  show "take (unat (aa_key_len aa)) k \<notin> fst ` set es \<and>
      amlib_assca_get_key_val aa k d = Inr (AM_RET_KEY_NOT_FOUND, d) \<or>
    (\<exists>v. (take (unat (aa_key_len aa)) k, v) \<in> set es \<and>
      amlib_assca_get_key_val aa k d = Inr (AM_RET_GOOD, v @ drop (unat (aa_data_len aa)) d))"
    using assca_get_ok [OF a] .
  assume "assca_room aa"
  then show "\<exists>aa'. amlib_assca_add_key_fixfix (\<lambda>_. True) aa k d = Inr (AM_RET_GOOD, aa') \<and>
    assca_inv aa' (es @ [(take (unat (aa_key_len aa)) k, take (unat (aa_data_len aa)) d)]) \<and>
    unat (aa_key_len aa') = unat (aa_key_len aa) \<and> unat (aa_data_len aa') = unat (aa_data_len aa)"
    using assca_put_ok [OF a(1) _ _ a(2,3), of "\<lambda>_. True"] by auto
qed

section \<open>Release\<close>

lemma aseg_second:
  assumes "uh_inv h (x # xs)"
  shows "uh_head h = Some x" "hh_next_of (uh_elems h) (Some x) = Inr (case xs of [] \<Rightarrow> None | y # _ \<Rightarrow> Some y)"
proof -
  obtain bss where "uh_chains h (x # xs) bss" using assms by (auto simp: uh_inv_def)
  then obtain l where seg: "aseg (uh_elems h) (uh_head h) (x # xs) l" by (auto simp: uh_chains_def)
  then obtain e where e: "uh_head h = Some x" "uh_elems h x = Some e"
    "dseg ue_next ue_prev (uh_elems h) (Some x) (ue_next e) xs l None" by auto
  show "uh_head h = Some x" by (rule e(1))
  show "hh_next_of (uh_elems h) (Some x) = Inr (case xs of [] \<Rightarrow> None | y # _ \<Rightarrow> Some y)"
    using e dseg_head [OF e(3)] by (cases xs) (simp_all add: hh_next_of_def getel_def)
qed

lemma release_items_ok:
  assumes "uh_inv h order" "\<forall>x. uh_elems h x \<noteq> None \<longleftrightarrow> x \<in> set order" "length order \<le> fuel"
    and "el = (case order of [] \<Rightarrow> None | x # _ \<Rightarrow> Some x)"
    and "tmp = (case order of x # y # _ \<Rightarrow> Some y | _ \<Rightarrow> None)"
  shows "\<exists>h'. release_items fuel h el tmp = Inr h' \<and> uh_head h' = None \<and> (\<forall>x. uh_elems h' x = None)"
  using assms
proof (induction order arbitrary: fuel h el tmp)
  case Nil
  then show ?case by (simp add: uh_inv_def)
next
  case (Cons x xs)
  obtain f where f: "fuel = Suc f" "length xs \<le> f" using Cons.prems(3) by (cases fuel) auto
  obtain h1 where h1: "HASH_DELETE h x = Inr h1" "uh_inv h1 xs" "same_by ue_payload (uh_elems h) (uh_elems h1)"
    using HASH_DELETE_ok [OF Cons.prems(1), of x] by auto
  define h2 where "h2 = h1\<lparr>uh_elems := (uh_elems h1)(x := None)\<rparr>"
  have xn: "x \<notin> set xs" using Cons.prems(1) by (simp add: uh_inv_def)
  have inv2: "uh_inv h2 xs" by (rule uh_inv_cong [OF h1(2)]) (use xn in \<open>auto simp: h2_def\<close>)
  have dom2: "\<forall>y. uh_elems h2 y \<noteq> None \<longleftrightarrow> y \<in> set xs"
  proof
    fix y
    have "uh_elems h1 y = None \<longleftrightarrow> uh_elems h y = None" by (rule same_by_None [OF h1(3)])
    then show "uh_elems h2 y \<noteq> None \<longleftrightarrow> y \<in> set xs"
      using Cons.prems(2) xn by (cases "y = x") (simp_all add: h2_def del: not_None_eq)
  qed
  have tmp: "tmp = (case xs of [] \<Rightarrow> None | y # _ \<Rightarrow> Some y)" using Cons.prems(5) by (cases xs) auto
  have nxt: "hh_next_of (uh_elems h2) tmp = Inr (case xs of y # z # _ \<Rightarrow> Some z | _ \<Rightarrow> None)"
  proof (cases xs)
    case Nil
    then show ?thesis using tmp by (simp add: hh_next_of_def)
  next
    case (Cons y ys)
    then show ?thesis using tmp aseg_second(2) [of h2 y ys] inv2 by (auto split: list.splits)
  qed
  obtain h' where h': "release_items f h2 tmp (case xs of y # z # _ \<Rightarrow> Some z | _ \<Rightarrow> None) = Inr h'"
    "uh_head h' = None" "\<forall>x. uh_elems h' x = None"
    using Cons.IH [OF inv2 dom2 f(2) tmp refl] by blast
  have "release_items fuel h el tmp = Inr h'"
    using f(1) Cons.prems(4) h1(1) nxt h'(1) by (simp add: h2_def)
  then show ?case using h'(2,3) by blast
qed

lemma am_assca_release_all_ok:
  assumes "assca_inv aa es"
  shows "\<exists>aa'. am_assca_release_all aa = Inr aa' \<and> uh_head (aa_hash aa') = None \<and>
    (\<forall>x. uh_elems (aa_hash aa') x = None)"
proof -
  let ?h = "aa_hash aa"
  from assms obtain order where rep: "assca_rep aa order es" by (auto simp: assca_inv_def)
  then have inv: "uh_inv ?h order" and dom: "\<forall>x. uh_elems ?h x \<noteq> None \<longleftrightarrow> x \<in> set order"
    by (auto simp: assca_rep_def)
  have len: "length order \<le> Suc (uh_brk ?h)"
    using uh_inv_bound [OF inv subset_refl] inv by (simp add: uh_inv_def)
  define el where "el = (case order of [] \<Rightarrow> None | x # _ \<Rightarrow> Some x)"
  define tmp where "tmp = (case order of x # y # _ \<Rightarrow> Some y | _ \<Rightarrow> None)"
  have "uh_head ?h = el \<and> hh_next_of (uh_elems ?h) el = Inr tmp"
  proof (cases order)
    case Nil
    then show ?thesis using inv by (simp add: el_def tmp_def uh_inv_def hh_next_of_def)
  next
    case (Cons x xs)
    then show ?thesis using aseg_second [of ?h x xs] inv by (cases xs) (simp_all add: el_def tmp_def)
  qed
  then have head: "uh_head ?h = el" and next1: "hh_next_of (uh_elems ?h) el = Inr tmp" by simp_all
  obtain h' where "release_items (Suc (uh_brk ?h)) ?h el tmp = Inr h'" "uh_head h' = None" "\<forall>x. uh_elems h' x = None"
    using release_items_ok [OF inv dom len el_def tmp_def] by blast
  then show ?thesis using head next1 by (simp add: am_assca_release_all_def Let_def)
qed

section \<open>Iteration\<close>

text \<open>A client that calls \<open>am_assca_iter\<close> with the handle it got back until the status is not good.\<close>

fun iter_collect :: "nat \<Rightarrow> mem_func \<Rightarrow> bytes \<Rightarrow> UINT32 \<Rightarrow> bytes \<Rightarrow> UINT32 \<Rightarrow> UINT32 \<Rightarrow> ((bytes \<times> bytes) list \<times> AM_RETURN) res" where
  "iter_collect 0 f p1 kl p2 vl hdl = Inl NoReturn"
| "iter_collect (Suc n) f p1 kl p2 vl hdl =
     bindr (am_assca_iter f (Some p1) (ucast kl) (Some p2) (ucast vl) hdl) (\<lambda>(st, f, b1, b2, hdl).
     if st = AM_RET_GOOD then
       bindr (the_buf b1) (\<lambda>b1. bindr (the_buf b2) (\<lambda>b2.
       bindr (iter_collect n f p1 kl p2 vl hdl) (\<lambda>(rest, st).
       Inr ((take (unat kl) b1, take (unat vl) b2) # rest, st))))
     else Inr ([], st))"

definition iter_hdl :: "nat \<Rightarrow> UINT32" where
  "iter_hdl i = ASSCA_ITER_FLAG_VALID OR of_nat i"

lemma less_4_cases: "i < 4 \<Longrightarrow> i = 0 \<or> i = 1 \<or> i = 2 \<or> i = (3 :: nat)"
  by auto

lemma iter_hdl_simps:
  assumes "i < 4"
  shows "am_assca_get_iter aa (iter_hdl i) = iter_hdl i" "unat (GET_ITER_IDX (iter_hdl i)) = i"
    "iter_hdl i AND 0xC0000000 = 0" "iter_hdl i \<noteq> ASSCA_ITER_INVALID"
  using less_4_cases [OF assms]
  by (auto simp: iter_hdl_def am_assca_get_iter_def GET_ITER_IDX_def)

lemma first_free_bound: "first_free ps i = Some j \<Longrightarrow> i \<le> j \<and> j < i + length ps \<and> ps ! (j - i) = None"
proof (induction ps arbitrary: i)
  case Nil
  then show ?case by simp
next
  case (Cons p ps)
  show ?case
  proof (cases "p = None")
    case True
    then show ?thesis using Cons.prems by simp
  next
    case False
    then have IH: "Suc i \<le> j \<and> j < Suc i + length ps \<and> ps ! (j - Suc i) = None"
      using Cons.prems by (intro Cons.IH) auto
    then have "j - i = Suc (j - Suc i)" by arith
    with IH show ?thesis by simp
  qed
qed

lemma ucast_64_32 [simp]: "ucast (ucast (w :: UINT32) :: UINT64) = w"
  by (rule bit_word_eqI) (simp add: bit_simps)

text \<open>One successful step at an item: its key and data, and the iterator on the next item.\<close>

lemma iter_step:
  fixes kl vl :: UINT32
  assumes "getel (uh_elems (aa_hash aa)) x = Inr e"
    and "length (ue_key e) = unat kl" "length (ue_val e) = unat vl"
    and "unat kl \<le> length b1" "unat vl \<le> length b2"
  shows "bindr (getel (uh_elems (aa_hash aa)) x) (\<lambda>e.
      bindr (the_buf (Some b1)) (\<lambda>b1.
      bindr (memcpy b1 0 (ue_key e @ ue_val e) 0 (unat (ucast (ucast kl :: UINT64) :: UINT32))) (\<lambda>b1.
      bindr (the_buf (Some b2)) (\<lambda>b2.
      bindr (memcpy b2 0 (ue_val e) 0 (unat (ucast (ucast vl :: UINT64) :: UINT32))) (\<lambda>b2.
      g e b1 b2))))) = g e (ue_key e @ drop (unat kl) b1) (ue_val e @ drop (unat vl) b2)"
  using assms by (simp add: memcpy_def getb_def putb_def)

lemma iter_collect_from:
  assumes "fn_pVdF f = Live (FdAssca fd)" "as_data fd = Live aa" "assca_rep aa order es"
    and "order = ys @ xs" "i < 4" "aa_iters aa ! i = (case xs of [] \<Rightarrow> None | x # _ \<Rightarrow> Some x)"
    and "unat (aa_key_len aa) \<le> length b1" "unat (aa_data_len aa) \<le> length b2" "length xs < n"
  shows "iter_collect n f b1 (aa_key_len aa) b2 (aa_data_len aa) (iter_hdl i) =
    Inr (map (uh_entry (uh_elems (aa_hash aa))) xs, AM_RET_ITER_DONE)"
  using assms
proof (induction xs arbitrary: n f fd aa ys)
  case Nil
  then obtain m where "n = Suc m" by (cases n) auto
  with Nil show ?case by (simp add: am_assca_iter_def iter_hdl_simps Let_def)
next
  case (Cons x xs)
  obtain m where n: "n = Suc m" "length xs < m" using Cons.prems(9) by (cases n) auto
  let ?es = "uh_elems (aa_hash aa)" and ?kl = "aa_key_len aa" and ?vl = "aa_data_len aa"
  obtain e where e: "?es x = Some e" using Cons.prems(3,4) unfolding assca_rep_def
    by (metis in_set_conv_decomp option.exhaust)
  have ent: "uh_entry ?es x = (ue_key e, ue_val e)" using e by (simp add: uh_entry_def)
  have "(ue_key e, ue_val e) \<in> set es"
    using Cons.prems(3,4) ent by (force simp: assca_rep_def uh_entries_def)
  then have len: "length (ue_key e) = unat ?kl" "length (ue_val e) = unat ?vl"
    using Cons.prems(3) by (auto simp: assca_rep_def)
  have nxt: "ue_next e = (case xs of [] \<Rightarrow> None | y # _ \<Rightarrow> Some y)"
  proof -
    obtain bss where "uh_chains (aa_hash aa) (ys @ x # xs) bss"
      using Cons.prems(3,4) by (auto simp: assca_rep_def uh_inv_def)
    then obtain l where seg: "aseg ?es (uh_head (aa_hash aa)) (ys @ x # xs) l" by (auto simp: uh_chains_def)
    show ?thesis using dseg_neighbours(2) [OF seg e] by (cases xs) auto
  qed
  let ?aa = "aa\<lparr>aa_iters := (aa_iters aa)[i := ue_next e]\<rparr>"
  let ?fd = "fd\<lparr>as_data := Live ?aa\<rparr>" and ?f = "set_assca f fd ?aa"
  have step: "am_assca_iter f (Some b1) (ucast ?kl) (Some b2) (ucast ?vl) (iter_hdl i) =
      Inr (AM_RET_GOOD, ?f, Some (ue_key e @ drop (unat ?kl) b1), Some (ue_val e @ drop (unat ?vl) b2), iter_hdl i)"
    using Cons.prems(1,2,5,6)
      iter_step [of aa x e ?kl ?vl b1 b2 "\<lambda>e b1 b2. Inr (AM_RET_GOOD,
        set_assca f fd (aa\<lparr>aa_iters := (aa_iters aa)[i := ue_next e]\<rparr>), Some b1, Some b2, iter_hdl i)"]
      e len Cons.prems(7,8)
    by (simp add: am_assca_iter_def iter_hdl_simps Let_def getel_def)
  have rep: "assca_rep ?aa order es" using Cons.prems(3) by (simp add: assca_rep_def)
  have "iter_collect m ?f b1 (aa_key_len ?aa) b2 (aa_data_len ?aa) (iter_hdl i) =
      Inr (map (uh_entry (uh_elems (aa_hash ?aa))) xs, AM_RET_ITER_DONE)"
  proof (rule Cons.IH)
    show "fn_pVdF ?f = Live (FdAssca ?fd)" by (simp add: set_assca_def)
    show "as_data ?fd = Live ?aa" by simp
    show "assca_rep ?aa order es" by (rule rep)
    show "order = (ys @ [x]) @ xs" using Cons.prems(4) by simp
    show "aa_iters ?aa ! i = (case xs of [] \<Rightarrow> None | y # _ \<Rightarrow> Some y)"
      using Cons.prems(3,5) nxt by (simp add: assca_rep_def)
  qed (use Cons.prems n in auto)
  then show ?case using n(1) step len ent by simp
qed

lemma assca_iter_all:
  assumes f: "fn_pVdF f = Live (FdAssca fd)" "as_data fd = Live aa" "assca_inv aa es"
    and free: "first_free (aa_iters aa) 0 \<noteq> None"
    and buf: "unat (aa_key_len aa) \<le> length b1" "unat (aa_data_len aa) \<le> length b2" "length es < n"
  shows "iter_collect n f b1 (aa_key_len aa) b2 (aa_data_len aa) ASSCA_ITER_FLAG_NEW =
    Inr (es, AM_RET_ITER_DONE)"
proof -
  obtain order where rep: "assca_rep aa order es" using f(3) by (auto simp: assca_inv_def)
  then have es: "es = map (uh_entry (uh_elems (aa_hash aa))) order" and inv: "uh_inv (aa_hash aa) order"
    by (auto simp: assca_rep_def uh_entries_def)
  obtain i where i: "first_free (aa_iters aa) 0 = Some i" using free by auto
  have i4: "i < 4" using first_free_bound [OF i] rep by (simp add: assca_rep_def)
  have hdl: "am_assca_get_iter aa ASSCA_ITER_FLAG_NEW = iter_hdl i"
    using i by (simp add: am_assca_get_iter_def iter_hdl_def)
  obtain m where n: "n = Suc m" using buf(3) by (cases n) auto
  show ?thesis
  proof (cases order)
    case Nil
    then have "uh_head (aa_hash aa) = None" using inv by (simp add: uh_inv_def)
    then show ?thesis using f n es Nil hdl iter_hdl_simps(2-4) [OF i4]
      by (simp add: am_assca_iter_def Let_def)
  next
    case (Cons x xs)
    let ?es = "uh_elems (aa_hash aa)" and ?kl = "aa_key_len aa" and ?vl = "aa_data_len aa"
    have head: "uh_head (aa_hash aa) = Some x" and nx: "hh_next_of ?es (Some x) = Inr (case xs of [] \<Rightarrow> None | y # _ \<Rightarrow> Some y)"
      using aseg_second [of "aa_hash aa" x xs] inv Cons by auto
    then obtain e where e: "?es x = Some e" "ue_next e = (case xs of [] \<Rightarrow> None | y # _ \<Rightarrow> Some y)"
      by (auto simp: hh_next_of_def res_simps getel_def split: option.splits)
    have ent: "uh_entry ?es x = (ue_key e, ue_val e)" using e by (simp add: uh_entry_def)
    have len: "length (ue_key e) = unat ?kl" "length (ue_val e) = unat ?vl"
      using rep es Cons ent by (auto simp: assca_rep_def)
    let ?aa = "aa\<lparr>aa_iters := (aa_iters aa)[i := ue_next e]\<rparr>"
    let ?fd = "fd\<lparr>as_data := Live ?aa\<rparr>" and ?f = "set_assca f fd ?aa"
    have step: "am_assca_iter f (Some b1) (ucast ?kl) (Some b2) (ucast ?vl) ASSCA_ITER_FLAG_NEW =
        Inr (AM_RET_GOOD, ?f, Some (ue_key e @ drop (unat ?kl) b1), Some (ue_val e @ drop (unat ?vl) b2), iter_hdl i)"
      using f(1,2) head hdl iter_hdl_simps(2-4) [OF i4]
        iter_step [of aa x e ?kl ?vl b1 b2 "\<lambda>e b1 b2. Inr (AM_RET_GOOD,
          set_assca f fd (aa\<lparr>aa_iters := (aa_iters aa)[i := ue_next e]\<rparr>), Some b1, Some b2, iter_hdl i)"]
        e len buf
      by (simp add: am_assca_iter_def Let_def getel_def)
    have "iter_collect m ?f b1 (aa_key_len ?aa) b2 (aa_data_len ?aa) (iter_hdl i) =
        Inr (map (uh_entry (uh_elems (aa_hash ?aa))) xs, AM_RET_ITER_DONE)"
    proof (rule iter_collect_from)
      show "fn_pVdF ?f = Live (FdAssca ?fd)" by (simp add: set_assca_def)
      show "as_data ?fd = Live ?aa" by simp
      show "assca_rep ?aa order es" using rep by (simp add: assca_rep_def)
      show "order = [x] @ xs" using Cons by simp
      show "aa_iters ?aa ! i = (case xs of [] \<Rightarrow> None | y # _ \<Rightarrow> Some y)"
        using rep i4 e(2) by (simp add: assca_rep_def)
    qed (use i4 buf n es Cons in auto)
    then show ?thesis using n step len ent es Cons by simp
  qed
qed

text \<open>
  C28: A new iterator visits every entry of the associative array exactly once, in the order of
  insertion, and then answers \<open>AM_RET_ITER_DONE\<close>, as long as one of the four iterator slots is free.
\<close>

theorem am_assca_iter_visits_all:
  assumes f: "fn_pVdF f = Live (FdAssca fd)" "as_data fd = Live aa" "assca_inv aa es"
    and free: "first_free (aa_iters aa) 0 \<noteq> None"
    and buf: "unat (aa_key_len aa) \<le> length b1" "unat (aa_data_len aa) \<le> length b2" "length es < n"
  shows "iter_collect n f b1 (aa_key_len aa) b2 (aa_data_len aa) ASSCA_ITER_FLAG_NEW =
    Inr (es, AM_RET_ITER_DONE)"
  using assms by (rule assca_iter_all)

section \<open>Properties of the device\<close>

definition empty_assca :: "UINT32 \<Rightarrow> UINT32 \<Rightarrow> amlib_assca" where
  "empty_assca kl vl = \<lparr>aa_key_len = kl, aa_data_len = vl, aa_bFixedKey = 1, aa_bFixedData = 1,
     aa_iters = replicate MAX_ASSCA_ITERS None,
     aa_hash = \<lparr>uh_elems = \<lambda>_. None, uh_brk = 0, uh_head = None, uh_tbl = Null\<rparr>\<rparr>"

lemma amlib_assca_init_empty: "al 0 \<Longrightarrow> amlib_assca_init al kl vl 1 1 = Live (empty_assca kl vl)"
  by (simp add: amlib_assca_init_def empty_assca_def)

lemma assca_inv_empty: "assca_inv (empty_assca kl vl) []"
  unfolding assca_inv_def assca_rep_def empty_assca_def
  by (intro exI [of _ "[]"]) (simp add: uh_inv_def uh_entries_def)

lemma assca_room_empty: "assca_room (empty_assca kl vl)"
  by (simp add: assca_room_def uh_room_def empty_assca_def)

lemma one_entry:
  "\<exists>aa. amlib_assca_add_key_fixfix (\<lambda>_. True) (empty_assca 2 1) [1, 2] [7] = Inr (AM_RET_GOOD, aa) \<and>
     assca_inv aa [([1, 2], [7])] \<and> assca_room aa \<and> aa_key_len aa = 2 \<and> aa_data_len aa = 1 \<and>
     aa_iters aa = replicate 4 None"
proof -
  obtain aa where aa: "amlib_assca_add_key_fixfix (\<lambda>_. True) (empty_assca 2 1) [1, 2] [7] = Inr (AM_RET_GOOD, aa)"
    "assca_inv aa [([1, 2], [7])]" "aa_key_len aa = 2" "aa_data_len aa = 1"
    using assca_put_ok [OF assca_inv_empty assca_room_empty, where al = "\<lambda>_. True" and kl1 = 2 and vl1 = 1
        and k = "[1, 2]" and d = "[7]"]
    by (auto simp: empty_assca_def)
  have "HASH_TO_BKT h 32 < 32" for h using HASH_TO_BKT_less [of h 5] by simp
  moreover have "\<not> (10 :: UINT32) \<le> 1" by (simp add: word_le_nat_alt)
  ultimately have "assca_room aa" "aa_iters aa = replicate 4 None"
    using aa(1)
    by (auto simp: amlib_assca_add_key_fixfix_def empty_assca_def Let_def HASH_ADD_KEYPTR_def link_tail_def
        upd_el_def getel_def getb_def HASH_MAKE_TABLE_def HASH_ADD_TO_BKT_def nth_bkt_def upd_el_opt_def
        zero_bucket_def assca_room_def uh_room_def res_simps)
  with aa show ?thesis by blast
qed

definition assca_func :: "mem_func \<Rightarrow> amlib_assca \<Rightarrow> bool" where
  "assca_func f aa \<longleftrightarrow> (\<exists>fd. fn_pVdF f = Live (FdAssca fd) \<and> as_data fd = Live aa)"

lemma assca_func_read:
  "assca_func f aa \<Longrightarrow> am_assca_read32_align f (Some k) (Some d) =
     bindr (amlib_assca_get_key_val aa k d) (\<lambda>(st, d). Inr (st, f, Some d))"
  by (auto simp: assca_func_def am_assca_read32_align_def)

lemma assca_func_write:
  assumes "assca_func f aa" "amlib_assca_add_key_fixfix al aa k d = Inr (st, aa')"
  shows "\<exists>f'. am_assca_write32_align al f (Some k) (Some d) = Inr (st, f', Some d) \<and> assca_func f' aa'"
  using assms by (auto simp: assca_func_def am_assca_write32_align_def set_assca_def)

lemma map_of_snoc:
  assumes "k \<notin> fst ` set es"
  shows "map_of (es @ [(k, d)]) = (map_of es)(k \<mapsto> d)"
proof
  fix x
  have "map_of es k = None" using assms by (simp add: map_of_eq_None_iff)
  then show "map_of (es @ [(k, d)]) x = ((map_of es)(k \<mapsto> d)) x"
    by (cases "x = k") (auto simp: map_add_def split: option.splits)
qed

text \<open>
  After a key that is not in the array is written, a read of that key returns the data written,
  and a read of any other key returns what it returned before: the array is a finite map, updated.
\<close>

theorem am_assca_write_then_read:
  assumes f: "assca_func f aa" and inv: "assca_inv aa es" and room: "assca_room aa" and al: "\<forall>i. al i"
    and dist: "distinct (map fst es)" and len: "length k = unat (aa_key_len aa)" "length d = unat (aa_data_len aa)"
    and fresh: "k \<notin> fst ` set es"
    and len': "length k' = unat (aa_key_len aa)" "length d' = unat (aa_data_len aa)"
  shows "\<exists>f' aa'. am_assca_write32_align al f (Some k) (Some d) = Inr (AM_RET_GOOD, f', Some d) \<and>
    assca_func f' aa' \<and> assca_inv aa' (es @ [(k, d)]) \<and>
    am_assca_read32_align f' (Some k') (Some d') =
      (case ((map_of es)(k \<mapsto> d)) k' of
         None \<Rightarrow> Inr (AM_RET_KEY_NOT_FOUND, f', Some d')
       | Some v \<Rightarrow> Inr (AM_RET_GOOD, f', Some v))"
proof -
  obtain aa' where put: "amlib_assca_add_key_fixfix al aa k d = Inr (AM_RET_GOOD, aa')"
    "assca_inv aa' (es @ [(k, d)])" "aa_key_len aa' = aa_key_len aa" "aa_data_len aa' = aa_data_len aa"
    using assca_put_ok [OF inv room al, of k d] len by auto
  obtain f' where f': "am_assca_write32_align al f (Some k) (Some d) = Inr (AM_RET_GOOD, f', Some d)"
    "assca_func f' aa'"
    using assca_func_write [OF f put(1)] by blast
  have "distinct (map fst (es @ [(k, d)]))" using dist fresh by simp
  then have get: "amlib_assca_get_key_val aa' k' d' = (case map_of (es @ [(k, d)]) k' of
      None \<Rightarrow> Inr (AM_RET_KEY_NOT_FOUND, d') | Some v \<Rightarrow> Inr (AM_RET_GOOD, v))"
    using assca.get_map [OF put(2), of k' d'] put(3,4) len' by (simp cong: option.case_cong)
  then have "am_assca_read32_align f' (Some k') (Some d') =
      (case ((map_of es)(k \<mapsto> d)) k' of
         None \<Rightarrow> Inr (AM_RET_KEY_NOT_FOUND, f', Some d')
       | Some v \<Rightarrow> Inr (AM_RET_GOOD, f', Some v))"
    using assca_func_read [OF f'(2), of k' d'] map_of_snoc [OF fresh, of d] by (auto split: option.splits)
  then show ?thesis using f' put(2) by blast
qed

lemma am_assca_write_then_read_witness:
  "\<exists>f aa f'. assca_func f aa \<and>
     am_assca_write32_align (\<lambda>_. True) f (Some [1, 2, 3, 4]) (Some [9, 9]) = Inr (AM_RET_GOOD, f', Some [9, 9]) \<and>
     am_assca_read32_align f' (Some [1, 2, 3, 4]) (Some [0, 0]) = Inr (AM_RET_GOOD, f', Some [9, 9])"
proof -
  define f where "f = zero_func\<lparr>fn_pVdF := Live (FdAssca \<lparr>as_data = Live (empty_assca 4 2), as_size = 0, as_cur_count = 0\<rparr>)\<rparr>"
  have f: "assca_func f (empty_assca 4 2)" by (simp add: f_def assca_func_def)
  have l: "length ([1, 2, 3, 4] :: bytes) = unat (aa_key_len (empty_assca 4 2))"
    "length ([9, 9] :: bytes) = unat (aa_data_len (empty_assca 4 2))"
    "length ([0, 0] :: bytes) = unat (aa_data_len (empty_assca 4 2))"
    by (simp_all add: empty_assca_def)
  show ?thesis
    using am_assca_write_then_read [OF f assca_inv_empty assca_room_empty _ _ l(1,2) _ l(1,3), of "\<lambda>_. True"] f
    by auto
qed

text \<open>
  Room for a run is certain when it is short: an insertion doubles the buckets once at most, so that a table that starts with
  \<open>2 ^ 5\<close> of them has fewer than \<open>2 ^ 31\<close> before each of the first 26.
\<close>

definition log_le :: "nat \<Rightarrow> 'v ut_hash \<Rightarrow> bool" where
  "log_le n h \<longleftrightarrow> uh_head h = None \<or> (\<exists>tbl. uh_tbl h = Live tbl \<and> unat (ut_log2_num_buckets tbl) \<le> n)"

lemma bindr_InrD: "bindr m f = Inr y \<Longrightarrow> \<exists>x. f x = Inr y"
  by (cases m) auto

lemma HASH_EXPAND_BUCKETS_log:
  assumes "HASH_EXPAND_BUCKETS al fuel es tbl = Inr (es', tbl')"
  shows "ut_log2_num_buckets tbl' = ut_log2_num_buckets tbl + 1"
  using assms unfolding HASH_EXPAND_BUCKETS_def Let_def
  apply (elim bindr_InrD [THEN exE])
  subgoal for u v x by (cases x) (simp only: prod.case sum.inject prod.inject, elim conjE, hypsubst, simp)
  done

lemma HASH_ADD_TO_BKT_log:
  assumes "HASH_ADD_TO_BKT al fuel es tbl bkt a = Inr (es', tbl')"
  shows "unat (ut_log2_num_buckets tbl') \<le> unat (ut_log2_num_buckets tbl) + 1"
proof -
  obtain b es1 where "HASH_EXPAND_BUCKETS al fuel es1 (tbl\<lparr>ut_buckets := b\<rparr>) = Inr (es', tbl') \<or> tbl' = tbl\<lparr>ut_buckets := b\<rparr>"
    using assms unfolding HASH_ADD_TO_BKT_def Let_def bindr_eq_Inr by (auto split: if_splits)
  then have "ut_log2_num_buckets tbl' = ut_log2_num_buckets tbl + 1 \<or> ut_log2_num_buckets tbl' = ut_log2_num_buckets tbl"
    by (auto dest: HASH_EXPAND_BUCKETS_log)
  then show ?thesis by (auto simp: unat_word_ariths)
qed

lemma HASH_ADD_KEYPTR_log:
  assumes "HASH_ADD_KEYPTR al h key keylen a = Inr h'" "log_le n h" "5 \<le> n"
  shows "log_le (n + 1) h' \<and> uh_brk h' = uh_brk h"
proof -
  obtain es hdp tbl al' es1 k bkt es2 tbl2 where l: "link_tail al (h\<lparr>uh_elems := es1\<rparr>) a = Inr (es, hdp, tbl, al')"
    "HASH_ADD_TO_BKT al' (Suc (uh_brk h)) k (tbl\<lparr>ut_num_items := ut_num_items tbl + 1\<rparr>) bkt a = Inr (es2, tbl2)"
    "h' = h\<lparr>uh_elems := es2, uh_head := hdp, uh_tbl := Live tbl2\<rparr>"
    using assms(1) by (auto simp: HASH_ADD_KEYPTR_def Let_def res_simps)
  have "unat (ut_log2_num_buckets tbl) \<le> n"
    using l(1) assms(2,3) by (auto simp: link_tail_def HASH_MAKE_TABLE_def log_le_def res_simps split: option.splits)
  then show ?thesis using HASH_ADD_TO_BKT_log [OF l(2)] l(3) by (simp add: log_le_def)
qed

lemma add_key_log:
  assumes "amlib_assca_add_key_fixfix (\<lambda>_. True) aa k d = Inr (st, aa')" "log_le n (aa_hash aa)" "5 \<le> n"
  shows "log_le (n + 1) (aa_hash aa') \<and> uh_brk (aa_hash aa') = uh_brk (aa_hash aa) + 1"
  using assms by (auto simp: amlib_assca_add_key_fixfix_def Let_def res_simps log_le_def dest!: HASH_ADD_KEYPTR_log [where n = n])

lemma room_for_log:
  assumes "log_le n (aa_hash aa)" "5 \<le> n" "n + length ws \<le> 31" "uh_brk (aa_hash aa) + length ws < 2 ^ 32"
  shows "room_for assca_room (amlib_assca_add_key_fixfix (\<lambda>_. True)) aa ws"
  using assms
proof (induction ws arbitrary: aa n)
  case (Cons w ws)
  obtain k d where w: "w = (k, d)" by (cases w)
  have "assca_room aa"
    using Cons.prems by (auto simp: assca_room_def uh_room_def log_le_def word_less_nat_alt)
  moreover have "room_for assca_room (amlib_assca_add_key_fixfix (\<lambda>_. True)) aa' ws"
    if "amlib_assca_add_key_fixfix (\<lambda>_. True) aa k d = Inr (st, aa')" for st aa'
    using Cons.IH [of "n + 1" aa'] Cons.prems add_key_log [OF that Cons.prems(1,2)] by simp
  ultimately show ?case by (auto simp: w split: sum.splits)
qed simp

lemma room_for_few:
  "length ws \<le> 26 \<Longrightarrow> room_for assca_room (amlib_assca_add_key_fixfix (\<lambda>_. True)) (empty_assca kl vl) ws"
  by (rule room_for_log [where n = 5]) (simp_all add: log_le_def empty_assca_def)

text \<open>
  C20: An array that starts empty, with all memory granted, filled by a list of writes of keys that are all different answers every read as the
  map of that list does: the status is good and the data is the value written with the key, or \<open>AM_RET_KEY_NOT_FOUND\<close> and the
  buffer is as it was. Every write must find room in the table (\<open>room_for assca_room\<close>: fewer than \<open>2 ^ 31\<close> buckets, and fewer than
  \<open>2 ^ 32 - 1\<close> items made so far), which the first 26 always do (\<open>room_for_few\<close>); keys and values have the fixed widths of the array.
\<close>

theorem amlib_assca_is_map:
  assumes "room_for assca_room (amlib_assca_add_key_fixfix (\<lambda>_. True)) (empty_assca kl vl) ws"
    and "\<forall>(k, d)\<in>set ws. length k = unat kl \<and> length d = unat vl"
    and "distinct (map fst ws)" "length k = unat kl" "length d = unat vl"
  shows "\<exists>aa. put_all (amlib_assca_add_key_fixfix (\<lambda>_. True)) (empty_assca kl vl) ws = Inr (AM_RET_GOOD, aa) \<and>
    amlib_assca_get_key_val aa k d = (case map_of ws k of
      None \<Rightarrow> Inr (AM_RET_KEY_NOT_FOUND, d) | Some v \<Rightarrow> Inr (AM_RET_GOOD, v))"
proof -
  have kl: "unat (aa_key_len (empty_assca kl vl)) = unat kl" "unat (aa_data_len (empty_assca kl vl)) = unat vl"
    by (simp_all add: empty_assca_def)
  have cut: "map (\<lambda>(k, d). (take (unat kl) k, take (unat vl) d)) ws = ws"
    "map (\<lambda>(k, d). take (unat kl) k) ws = map fst ws"
    using assms(2) by (auto intro!: map_idI)
  have "\<forall>(k, d)\<in>set ws. unat kl \<le> length k \<and> unat vl \<le> length d" using assms(2) by auto
  then show ?thesis
    using assca.put_all_get [OF assca_inv_empty, of kl vl ws k d] assms(1,3-5) cut unfolding kl
    by (simp cong: option.case_cong)
qed

lemma amlib_assca_is_map_witness:
  "\<exists>aa. put_all (amlib_assca_add_key_fixfix (\<lambda>_. True)) (empty_assca 4 2) [([1, 2, 3, 4], [7, 7])] =
      Inr (AM_RET_GOOD, aa) \<and>
    amlib_assca_get_key_val aa [1, 2, 3, 4] [0, 0] = Inr (AM_RET_GOOD, [7, 7])"
proof -
  have "room_for assca_room (amlib_assca_add_key_fixfix (\<lambda>_. True)) (empty_assca 4 2) [([1, 2, 3, 4], [7, 7])]"
    by (simp add: assca_room_empty split: sum.splits)
  then show ?thesis
    using amlib_assca_is_map [of 4 2 "[([1, 2, 3, 4], [7, 7])]" "[1, 2, 3, 4]" "[0, 0]"] by simp
qed

text \<open>
  Writing a key that is already in the array does not replace its entry: the write returns
  \<open>AM_RET_GOOD\<close>, and the array then holds the old entry and the new one.
\<close>

theorem am_assca_duplicate_kept:
  assumes "assca_func f aa" "assca_inv aa es" "assca_room aa" "(k, v) \<in> set es"
    and "length d = unat (aa_data_len aa)"
  shows "\<exists>f' aa'. am_assca_write32_align (\<lambda>_. True) f (Some k) (Some d) = Inr (AM_RET_GOOD, f', Some d) \<and>
    assca_func f' aa' \<and> assca_inv aa' (es @ [(k, d)]) \<and> {(k, v), (k, d)} \<subseteq> set (es @ [(k, d)])"
proof -
  have "length k = unat (aa_key_len aa)" using assms(2,4) by (auto simp: assca_inv_def assca_rep_def)
  then obtain aa' where put: "amlib_assca_add_key_fixfix (\<lambda>_. True) aa k d = Inr (AM_RET_GOOD, aa')"
    "assca_inv aa' (es @ [(k, d)])"
    using assca_put_ok [OF assms(2,3), of "\<lambda>_. True" k d] assms(5) by auto
  then show ?thesis using assca_func_write [OF assms(1) put(1)] assms(4) by auto
qed

lemma am_assca_duplicate_kept_witness:
  "\<exists>f f' aa aa'. assca_func f aa \<and> assca_inv aa [([1, 2], [7])] \<and>
     am_assca_write32_align (\<lambda>_. True) f (Some [1, 2]) (Some [8]) = Inr (AM_RET_GOOD, f', Some [8]) \<and>
     assca_func f' aa' \<and> assca_inv aa' [([1, 2], [7]), ([1, 2], [8])]"
proof -
  obtain aa where aa: "amlib_assca_add_key_fixfix (\<lambda>_. True) (empty_assca 2 1) [1, 2] [7] = Inr (AM_RET_GOOD, aa)"
    "assca_inv aa [([1, 2], [7])]" "assca_room aa" "aa_key_len aa = 2" "aa_data_len aa = 1"
    using one_entry by blast
  define f where "f = zero_func\<lparr>fn_pVdF := Live (FdAssca \<lparr>as_data = Live aa, as_size = 0, as_cur_count = 0\<rparr>)\<rparr>"
  have f: "assca_func f aa" by (simp add: f_def assca_func_def)
  show ?thesis
    using am_assca_duplicate_kept [OF f aa(2,3), of "[1, 2]" "[7]" "[8]"] f aa by fastforce
qed

text \<open>
  Releasing an associative array deletes and frees every item of its table (and the table with the
  last one), and the data union of the function object is freed.
\<close>

theorem am_assca_release_frees_all:
  assumes "assca_func f aa" "assca_inv aa es"
  shows "am_assca_release f = Inr (AM_RET_GOOD, f\<lparr>fn_pVdF := Dangling\<rparr>) \<and>
    (\<exists>aa'. am_assca_release_all aa = Inr aa' \<and> uh_head (aa_hash aa') = None \<and>
       uh_elems (aa_hash aa') = Map.empty)"
proof -
  obtain aa' where aa': "am_assca_release_all aa = Inr aa'" "uh_head (aa_hash aa') = None"
    "\<forall>x. uh_elems (aa_hash aa') x = None"
    using am_assca_release_all_ok [OF assms(2)] by blast
  then have "am_assca_release f = Inr (AM_RET_GOOD, f\<lparr>fn_pVdF := Dangling\<rparr>)"
    using assms(1) by (auto simp: assca_func_def am_assca_release_def)
  then show ?thesis using aa' by auto
qed

lemma am_assca_release_frees_all_witness:
  "\<exists>f aa. assca_func f aa \<and> assca_inv aa [([1, 2], [7])] \<and>
     am_assca_release f = Inr (AM_RET_GOOD, f\<lparr>fn_pVdF := Dangling\<rparr>)"
proof -
  obtain aa where aa: "assca_inv aa [([1, 2], [7])]"
    using one_entry by blast
  define f where "f = zero_func\<lparr>fn_pVdF := Live (FdAssca \<lparr>as_data = Live aa, as_size = 0, as_cur_count = 0\<rparr>)\<rparr>"
  have "assca_func f aa" by (simp add: f_def assca_func_def)
  then show ?thesis using am_assca_release_frees_all [OF _ aa] aa by blast
qed

lemma am_assca_iter_visits_all_witness:
  "\<exists>f. iter_collect 2 f [0, 0] 2 [0] 1 ASSCA_ITER_FLAG_NEW = Inr ([([1, 2], [7])], AM_RET_ITER_DONE)"
proof -
  obtain aa where aa: "amlib_assca_add_key_fixfix (\<lambda>_. True) (empty_assca 2 1) [1, 2] [7] = Inr (AM_RET_GOOD, aa)"
    "assca_inv aa [([1, 2], [7])]" "aa_key_len aa = 2" "aa_data_len aa = 1" and it: "aa_iters aa = replicate 4 None"
    using one_entry by blast
  define fd where "fd = \<lparr>as_data = Live aa, as_size = 0, as_cur_count = 0\<rparr>"
  define f where "f = zero_func\<lparr>fn_pVdF := Live (FdAssca fd)\<rparr>"
  show ?thesis
    using am_assca_iter_visits_all [of f fd aa "[([1, 2], [7])]" "[0, 0]" "[0]" 2] aa it
    by (auto simp: f_def fd_def eval_nat_numeral)
qed

text \<open>
  A call of \<open>am_assca_iter\<close> whose handle is not valid clears the fourth iterator slot, whoever uses
  it: an iterator with that slot then ends early with \<open>AM_RET_ITER_DONE\<close>.
\<close>

theorem am_assca_iter_invalid_clears_slot:
  assumes "fn_pVdF f = Live (FdAssca fd)" "as_data fd = Live aa"
    and "am_assca_get_iter aa hdl = ASSCA_ITER_INVALID"
  shows "am_assca_iter f p1 l1 p2 l2 hdl =
    Inr (AM_RET_INVALID_ITER, set_assca f fd (aa\<lparr>aa_iters := (aa_iters aa)[3 := None]\<rparr>), p1, p2,
         ASSCA_ITER_DONE OR 3)"
  using assms by (simp add: am_assca_iter_def Let_def GET_ITER_IDX_def)

lemma am_assca_iter_invalid_clears_slot_witness:
  "am_assca_iter (zero_func\<lparr>fn_pVdF := Live (FdAssca \<lparr>as_data = Live (empty_assca 2 1), as_size = 0, as_cur_count = 0\<rparr>)\<rparr>)
     None 0 None 0 0 =
   Inr (AM_RET_INVALID_ITER,
     zero_func\<lparr>fn_pVdF := Live (FdAssca \<lparr>as_data = Live (empty_assca 2 1), as_size = 0, as_cur_count = 0\<rparr>)\<rparr>,
     None, None, ASSCA_ITER_DONE OR 3)"
proof -
  have "(empty_assca 2 1)\<lparr>aa_iters := (aa_iters (empty_assca 2 1))[3 := None]\<rparr> = empty_assca 2 1"
    "am_assca_get_iter (empty_assca 2 1) 0 = ASSCA_ITER_INVALID"
    by (simp_all add: empty_assca_def am_assca_get_iter_def eval_nat_numeral)
  then show ?thesis
    using am_assca_iter_invalid_clears_slot
        [of "zero_func\<lparr>fn_pVdF := Live (FdAssca \<lparr>as_data = Live (empty_assca 2 1), as_size = 0, as_cur_count = 0\<rparr>)\<rparr>"
          "\<lparr>as_data = Live (empty_assca 2 1), as_size = 0, as_cur_count = 0\<rparr>" "empty_assca 2 1" 0 None 0 None 0]
    by (simp add: set_assca_def)
qed

end
