(* ===== verification/AM_List.thy ===== *)
theory AM_List
  imports AM_Func
begin

text \<open>
  The linked list device, \<^verbatim>\<open>appmemlib/funcs/am_list.c\<close>. \<open>LL_PREPEND\<close> (\<^verbatim>\<open>inc/ut-hash/utlist.h\<close>) links
  the new item in front of the head.
\<close>

abbreviation (input) AM_LIST_SLL :: UINT32 where "AM_LIST_SLL \<equiv> 0"
abbreviation (input) AM_LIST_DLL :: UINT32 where "AM_LIST_DLL \<equiv> 1"
abbreviation (input) AM_LIST_CLL :: UINT32 where "AM_LIST_CLL \<equiv> 2"
abbreviation (input) TS_LIST_DATA_MAX_SIZE :: nat where "TS_LIST_DATA_MAX_SIZE \<equiv> 0"
abbreviation (input) TS_LIST_DATA_TYPE :: nat where "TS_LIST_DATA_TYPE \<equiv> 1"
abbreviation (input) TS_LIST_DATA_FIXED :: UINT32 where "TS_LIST_DATA_FIXED \<equiv> 1"
abbreviation (input) TS_LIST_DATA_VAR :: UINT32 where "TS_LIST_DATA_VAR \<equiv> 2"

definition LL_PREPEND :: "amlib_list_item list \<Rightarrow> amlib_list_item \<Rightarrow> amlib_list_item list" where
  "LL_PREPEND head add = add # head"

definition am_list_add_fix :: "alloc \<Rightarrow> mem_func \<Rightarrow> buf \<Rightarrow> (AM_RETURN \<times> mem_func) res" where
  "am_list_add_fix al f p1 =
     bindr (AM_ASSERT (p1 \<noteq> None)) (\<lambda>_.
     bindr (bindr (deref (fn_pVdF f)) fd_list) (\<lambda>li.
     bindr (if al 0 then Inr () else Inl NullDeref) (\<lambda>_.
     bindr (the_buf p1) (\<lambda>b1.
     bindr (getb b1 0 (unat (li_data_size li))) (\<lambda>d.
     let pItem = \<lparr>it_data = d, it_data_size = li_data_size li\<rparr>;
         li = (if li_list_type li = AM_LIST_SLL then li\<lparr>li_head := LL_PREPEND (li_head li) pItem\<rparr> else li)
     in Inr (AM_RET_GOOD, f\<lparr>fn_pVdF := Live (FdList li)\<rparr>))))))"

definition am_create_list_device :: "alloc \<Rightarrow> mem_func \<Rightarrow> mem_cap \<Rightarrow> (AM_RETURN \<times> mem_func) res" where
  "am_create_list_device al f cap =
     bindr (AM_ASSERT (fn_pfnOps f \<noteq> None)) (\<lambda>_.
     if al 0 \<and> cap_amType cap = AM_TYPE_LIST then
       let li = \<lparr>li_list_type = cap_subType cap, li_elem_count = 0,
                 li_data_type = cap_typeSpecific cap ! TS_LIST_DATA_TYPE,
                 li_data_size = cap_typeSpecific cap ! TS_LIST_DATA_MAX_SIZE, li_head = []\<rparr>;
           f = upd_cr (\<lambda>r. r\<lparr>cr_data_size := li_data_size li\<rparr>) f;
           f = set_base_ops f;
           f = (if li_data_type li AND TS_LIST_DATA_FIXED \<noteq> 0
                then set_cr_op AM_OP_ADD_ALIGN (op_word AM_KPACK AM_OP_WRITE_ALIGN)
                       (set_op AM_OP_ADD_ALIGN Fn_list_add_fix f)
                else f);
           f = f\<lparr>fn_pVdF := Live (FdList li)\<rparr>
       in
       bindr (set_name (''am_list_'' @ fmt_04x (fn_handle f)) f) (\<lambda>f.
       Inr (AM_RET_GOOD, upd_cr (\<lambda>r. r\<lparr>cr_devt := fn_handle f\<rparr>) f))
     else Inr (AM_RET_ALLOC_ERR, f))"

section \<open>Registration data\<close>

definition list_caps :: mem_cap where
  "list_caps = mk_cap AM_TYPE_LIST (1024 * 1024) 3 7 0
     [1024 * 1024, TS_LIST_DATA_FIXED OR TS_LIST_DATA_VAR]"

definition list_cap_details :: "cap_details list" where
  "list_cap_details =
     map (\<lambda>(st, sz). mk_details AM_TYPE_LIST ''Linked List'' st sz 2
       [''Max Data Size'', ''Data Type : 1 = Fixed Width, 2 = Variable Width''])
     [(AM_LIST_SLL, ''Singly Linked List - ut-list''), (AM_LIST_DLL, ''Doubly Linked List - ut-list''),
      (AM_LIST_CLL, ''circular Linked List - ut-list'')]"

section \<open>Properties\<close>

fun list_add_all :: "alloc \<Rightarrow> mem_func \<Rightarrow> bytes list \<Rightarrow> (AM_RETURN \<times> mem_func) res" where
  "list_add_all al f [] = Inr (AM_RET_GOOD, f)"
| "list_add_all al f (d # ds) = bindr (am_list_add_fix al f (Some d)) (\<lambda>(_, f). list_add_all al f ds)"

lemma list_add_step:
  "fn_pVdF f = Live (FdList li) \<Longrightarrow> al 0 \<Longrightarrow> unat (li_data_size li) \<le> length d \<Longrightarrow>
   am_list_add_fix al f (Some d) = Inr (AM_RET_GOOD, f\<lparr>fn_pVdF := Live (FdList
     (if li_list_type li = AM_LIST_SLL
      then li\<lparr>li_head := \<lparr>it_data = take (unat (li_data_size li)) d, it_data_size = li_data_size li\<rparr> # li_head li\<rparr>
      else li))\<rparr>)"
  by (simp add: am_list_add_fix_def getb_def LL_PREPEND_def Let_def)

lemma list_add_all_SLL:
  assumes "fn_pVdF f = Live (FdList li)" "li_list_type li = AM_LIST_SLL" "al 0"
    and "\<forall>d\<in>set ds. length d = unat (li_data_size li)"
  shows "list_add_all al f ds = Inr (AM_RET_GOOD, f\<lparr>fn_pVdF := Live (FdList (li\<lparr>li_head :=
      map (\<lambda>d. \<lparr>it_data = d, it_data_size = li_data_size li\<rparr>) (rev ds) @ li_head li\<rparr>))\<rparr>)"
  using assms
proof (induction ds arbitrary: f li)
  case Nil
  then show ?case by (cases f; cases li) simp
next
  case (Cons d ds)
  define li1 where "li1 = li\<lparr>li_head := \<lparr>it_data = d, it_data_size = li_data_size li\<rparr> # li_head li\<rparr>"
  define f1 where "f1 = f\<lparr>fn_pVdF := Live (FdList li1)\<rparr>"
  have "am_list_add_fix al f (Some d) = Inr (AM_RET_GOOD, f1)"
    using list_add_step [where al = al, OF Cons.prems(1,3), of d] Cons.prems(2,4) by (simp add: f1_def li1_def)
  moreover have "list_add_all al f1 ds = Inr (AM_RET_GOOD, f1\<lparr>fn_pVdF := Live (FdList (li1\<lparr>li_head :=
      map (\<lambda>d. \<lparr>it_data = d, it_data_size = li_data_size li1\<rparr>) (rev ds) @ li_head li1\<rparr>))\<rparr>)"
    using Cons.prems by (intro Cons.IH) (auto simp: f1_def li1_def)
  ultimately show ?case by (simp add: f1_def li1_def)
qed

text \<open>
  A singly linked list holds the items added to it, last added first; its element count stays what
  it was.
\<close>

theorem am_list_add_stacks:
  assumes "fn_pVdF f = Live (FdList li)" "li_list_type li = AM_LIST_SLL" "li_head li = []" "al 0"
    and "\<forall>d\<in>set ds. length d = unat (li_data_size li)"
  shows "\<exists>f' li'. list_add_all al f ds = Inr (AM_RET_GOOD, f') \<and> fn_pVdF f' = Live (FdList li') \<and>
    map it_data (li_head li') = rev ds \<and> li_elem_count li' = li_elem_count li"
  using list_add_all_SLL [where al = al, OF assms(1,2,4,5)] assms(3) by (simp add: comp_def)

lemma am_list_add_stacks_witness:
  "\<exists>f' li'. list_add_all (\<lambda>_. True)
      (zero_func\<lparr>fn_pVdF := Live (FdList \<lparr>li_list_type = 0, li_elem_count = 0, li_data_type = 1,
         li_data_size = 2, li_head = []\<rparr>)\<rparr>) [[1, 2], [3, 4]] = Inr (AM_RET_GOOD, f') \<and>
    fn_pVdF f' = Live (FdList li') \<and> map it_data (li_head li') = [[3, 4], [1, 2]] \<and> li_elem_count li' = 0"
  using am_list_add_stacks [of "zero_func\<lparr>fn_pVdF := Live (FdList \<lparr>li_list_type = 0, li_elem_count = 0,
      li_data_type = 1, li_data_size = 2, li_head = []\<rparr>)\<rparr>"
      "\<lparr>li_list_type = 0, li_elem_count = 0, li_data_type = 1, li_data_size = 2, li_head = []\<rparr>"
      "\<lambda>_. True" "[[1, 2], [3, 4]]"]
  by simp

text \<open>
  On a list of any other type (doubly linked or circular) an add returns \<open>AM_RET_GOOD\<close> and drops
  the item.
\<close>

theorem am_list_add_drops:
  assumes "fn_pVdF f = Live (FdList li)" "li_list_type li \<noteq> AM_LIST_SLL" "al 0"
    and "unat (li_data_size li) \<le> length d"
  shows "am_list_add_fix al f (Some d) = Inr (AM_RET_GOOD, f)"
  using list_add_step [where al = al, OF assms(1,3,4)] assms(1,2) by (cases f) simp

lemma am_list_add_drops_witness:
  "am_list_add_fix (\<lambda>_. True) (zero_func\<lparr>fn_pVdF := Live (FdList \<lparr>li_list_type = 1, li_elem_count = 0,
      li_data_type = 1, li_data_size = 2, li_head = []\<rparr>)\<rparr>) (Some [1, 2]) =
   Inr (AM_RET_GOOD, zero_func\<lparr>fn_pVdF := Live (FdList \<lparr>li_list_type = 1, li_elem_count = 0,
      li_data_type = 1, li_data_size = 2, li_head = []\<rparr>)\<rparr>)"
  by (rule am_list_add_drops [of _ "\<lparr>li_list_type = 1, li_elem_count = 0, li_data_type = 1,
      li_data_size = 2, li_head = []\<rparr>"]) simp_all

end
