(* ===== verification/AM_Registry.thy ===== *)
theory AM_Registry
  imports AM_Stata_Sort AM_Assca_Props AM_List
begin

text \<open>
  The registry of device functions, the same code in \<^verbatim>\<open>appmemlib/appmem_virtd.c\<close> and
  \<^verbatim>\<open>am_targ/am_target.c\<close>, and the entries the modules register from their initialisers
  (\<^verbatim>\<open>inc/am_caps.h\<close> and the device files).
\<close>

abbreviation (input) MAX_VIRTD_DEVICE_FUNCTIONS :: nat where "MAX_VIRTD_DEVICE_FUNCTIONS \<equiv> 100"
abbreviation (input) MAX_AM_TARG_DEVICE_FUNCTIONS :: nat where "MAX_AM_TARG_DEVICE_FUNCTIONS \<equiv> 100"

datatype create_fn = Cr_flat | Cr_stata | Cr_assca | Cr_list

fun call_create ::
  "create_fn \<Rightarrow> alloc \<Rightarrow> (nat \<Rightarrow> UINT8) \<Rightarrow> mem_func \<Rightarrow> mem_cap \<Rightarrow> (AM_RETURN \<times> mem_func) res" where
  "call_create Cr_flat al junk f cap = am_create_flat_device al junk f cap"
| "call_create Cr_stata al junk f cap = am_create_stata_device al junk f cap"
| "call_create Cr_assca al junk f cap = am_create_assca_device al f cap"
| "call_create Cr_list al junk f cap = am_create_list_device al f cap"

record function_entry =
  fe_amType :: UINT32
  fe_pfnCreateFunction :: "create_fn option"
  fe_pCap :: "mem_cap option"
  fe_pCapDetails :: "cap_details list option"

type_synonym registry = "function_entry option list"

definition empty_registry :: registry where
  "empty_registry = replicate MAX_VIRTD_DEVICE_FUNCTIONS None"

text \<open>The \<open>printf\<close> of the registration reads the entry before it is compared to null.\<close>

definition am_register_am_function :: "registry \<Rightarrow> function_entry option \<Rightarrow> (AM_RETURN \<times> registry) res" where
  "am_register_am_function reg pFunctionEntry =
     (case pFunctionEntry of
        None \<Rightarrow> Inl NullDeref
      | Some fe \<Rightarrow>
          Inr (AM_RET_GOOD,
               if unat (fe_amType fe) < MAX_VIRTD_DEVICE_FUNCTIONS \<and> reg ! unat (fe_amType fe) = None
               then reg[unat (fe_amType fe) := Some fe] else reg))"

section \<open>The entries\<close>

definition virtd_base_cap :: mem_cap where
  "virtd_base_cap = mk_cap AM_TYPE_BASE_APPMEM (1024 * 1024 * 128) 5 2 0 [0, 0]"

definition base_cap_details :: "cap_details list" where
  "base_cap_details = [mk_details AM_TYPE_BASE_APPMEM ''Base Appmem'' 0
     (''Brandon'' @ [CHR 0x27] @ ''s Appmem Device'') 1 [''Nothing....'']]"

definition am_base_function_entry :: function_entry where
  "am_base_function_entry = \<lparr>fe_amType = AM_TYPE_BASE_APPMEM, fe_pfnCreateFunction = None,
     fe_pCap = Some virtd_base_cap, fe_pCapDetails = Some base_cap_details\<rparr>"

definition flat_function_entry :: function_entry where
  "flat_function_entry = \<lparr>fe_amType = AM_TYPE_FLAT_MEM, fe_pfnCreateFunction = Some Cr_flat,
     fe_pCap = Some flat_caps, fe_pCapDetails = Some flat_cap_details\<rparr>"

definition stata_function_entry :: function_entry where
  "stata_function_entry = \<lparr>fe_amType = AM_TYPE_STATIC_ARRAY, fe_pfnCreateFunction = Some Cr_stata,
     fe_pCap = Some stata_caps, fe_pCapDetails = Some stata_cap_details\<rparr>"

definition assca_function_entry :: function_entry where
  "assca_function_entry = \<lparr>fe_amType = AM_TYPE_ASSOC_ARRAY, fe_pfnCreateFunction = Some Cr_assca,
     fe_pCap = Some assca_caps, fe_pCapDetails = Some assca_cap_details\<rparr>"

definition list_function_entry :: function_entry where
  "list_function_entry = \<lparr>fe_amType = AM_TYPE_LIST, fe_pfnCreateFunction = Some Cr_list,
     fe_pCap = Some list_caps, fe_pCapDetails = Some list_cap_details\<rparr>"

section \<open>First registration wins\<close>

locale first_wins =
  fixes lookup :: "'r \<Rightarrow> nat \<Rightarrow> 'e option"
    and register :: "'r \<Rightarrow> 'e \<Rightarrow> 'r"
    and key :: "'e \<Rightarrow> nat"
    and slots :: nat
    and ok :: "'r \<Rightarrow> bool"
  assumes register_ok: "ok r \<Longrightarrow> ok (register r e)"
    and lookup_register: "ok r \<Longrightarrow> k < slots \<Longrightarrow>
      lookup (register r e) k = (if key e = k \<and> lookup r k = None then Some e else lookup r k)"
begin

lemma lookup_fold:
  "ok r \<Longrightarrow> k < slots \<Longrightarrow> lookup (fold (\<lambda>e r. register r e) es r) k =
     (case lookup r k of Some e \<Rightarrow> Some e | None \<Rightarrow> find (\<lambda>e. key e = k) es)"
  by (induction es arbitrary: r) (auto simp: register_ok lookup_register split: option.splits)

end

definition register_entry :: "registry \<Rightarrow> function_entry \<Rightarrow> registry" where
  "register_entry reg fe = (case am_register_am_function reg (Some fe) of Inr (_, reg') \<Rightarrow> reg' | Inl _ \<Rightarrow> reg)"

interpretation registry: first_wins "\<lambda>reg k. reg ! k" register_entry "\<lambda>fe. unat (fe_amType fe)"
  MAX_VIRTD_DEVICE_FUNCTIONS "\<lambda>reg. length reg = MAX_VIRTD_DEVICE_FUNCTIONS"
  by unfold_locales (auto simp: register_entry_def am_register_am_function_def nth_list_update)

text \<open>Whatever the order the initialisers run in, each of the five types finds its own entry.\<close>

definition all_entries :: "function_entry list" where
  "all_entries = [am_base_function_entry, flat_function_entry, stata_function_entry,
     assca_function_entry, list_function_entry]"

text \<open>
  Registering any list of entries leaves at every type the first entry registered for it; later
  ones for the same type are ignored, and every registration returns \<open>AM_RET_GOOD\<close>.
\<close>

theorem am_register_first_wins:
  assumes "length reg = MAX_VIRTD_DEVICE_FUNCTIONS" "k < MAX_VIRTD_DEVICE_FUNCTIONS"
  shows "fold (\<lambda>e r. register_entry r e) es reg ! k =
      (case reg ! k of Some e \<Rightarrow> Some e | None \<Rightarrow> find (\<lambda>e. unat (fe_amType e) = k) es)"
  by (rule registry.lookup_fold [OF assms])

lemma am_register_first_wins_witness:
  "fold (\<lambda>e r. register_entry r e) [list_function_entry, flat_function_entry, flat_function_entry\<lparr>fe_pCap := None\<rparr>]
     empty_registry ! 1 = Some flat_function_entry"
  using am_register_first_wins [of empty_registry 1
      "[list_function_entry, flat_function_entry, flat_function_entry\<lparr>fe_pCap := None\<rparr>]"]
  by (simp add: empty_registry_def list_function_entry_def flat_function_entry_def)

end
