(* ===== verification/AM_Targ_Ops.thy ===== *)
theory AM_Targ_Ops
  imports AM_Registry
begin

text \<open>
  The function table of the target and the operators of its base function, \<^verbatim>\<open>am_targ/am_target.c\<close>
  lines 46 to 52 and 278 to 536. A pointer to a function object is its slot in the table.
\<close>

abbreviation (input) AM_TARGET_MAX_FUNCTIONS :: nat where "AM_TARGET_MAX_FUNCTIONS \<equiv> 256"
abbreviation (input) AM_TARGET_FUNCTION_ID_SIG :: UINT32 where "AM_TARGET_FUNCTION_ID_SIG \<equiv> 0xAA00"
abbreviation (input) AM_TARGET_FUNCTION_ID_SIG_MASK :: UINT32 where "AM_TARGET_FUNCTION_ID_SIG_MASK \<equiv> 0xFF00"
abbreviation (input) AM_TARGET_FUNCTION_ID_IDX_MASK :: UINT32 where "AM_TARGET_FUNCTION_ID_IDX_MASK \<equiv> 0x00FF"
abbreviation (input) AM_PACK_FUNC_ID_BASEAPPMEM :: UINT16 where "AM_PACK_FUNC_ID_BASEAPPMEM \<equiv> 0xFFFA"

definition AM_TARG_GET_FUNC_IDX :: "UINT32 \<Rightarrow> UINT32" where
  "AM_TARG_GET_FUNC_IDX x =
     (if x AND AM_TARGET_FUNCTION_ID_SIG_MASK = AM_TARGET_FUNCTION_ID_SIG
      then x AND AM_TARGET_FUNCTION_ID_IDX_MASK else 0xFF)"

text \<open>\<open>g_pfnFunctionTable\<close> and the registry \<open>gAmTargDeviceFunctionEntry\<close>.\<close>

record targ =
  tg_table :: "mem_func ptr list"
  tg_reg :: registry

definition tbl_get :: "targ \<Rightarrow> nat \<Rightarrow> mem_func res" where
  "tbl_get g i = (if i < length (tg_table g) then deref (tg_table g ! i) else Inl OutOfBounds)"

definition tbl_set :: "targ \<Rightarrow> nat \<Rightarrow> mem_func ptr \<Rightarrow> targ" where
  "tbl_set g i p = g\<lparr>tg_table := (tg_table g)[i := p]\<rparr>"

text \<open>The pointer stored in slot \<open>i\<close>, none if it is null.\<close>

definition tbl_slot :: "targ \<Rightarrow> nat \<Rightarrow> nat option" where
  "tbl_slot g i = (if i < length (tg_table g) \<and> tg_table g ! i \<noteq> Null then Some i else None)"

definition am_validate_function_id :: "targ \<Rightarrow> UINT16 \<Rightarrow> nat option res" where
  "am_validate_function_id g func_id =
     (if AM_PACK_FUNC_ID_BASEAPPMEM = func_id then Inr (tbl_slot g 0)
      else if ucast func_id AND AM_TARGET_FUNCTION_ID_SIG_MASK = AM_TARGET_FUNCTION_ID_SIG then
        let idx = unat (ucast func_id AND AM_TARGET_FUNCTION_ID_IDX_MASK) in
        bindr (AM_ASSERT (idx < AM_TARGET_MAX_FUNCTIONS)) (\<lambda>_. Inr (tbl_slot g idx))
      else Inr None)"

section \<open>Operators without data\<close>

text \<open>Each answers its status, the response packet and the number of bytes to send, if it sets it.\<close>

definition am_targ_identify_resp :: "bytes \<Rightarrow> (AM_RETURN \<times> bytes \<times> UINT32 option) res" where
  "am_targ_identify_resp resp =
     bindr (wr32 resp 8 0xBBBB) (\<lambda>resp.
     bindr (putb resp 12 (enc_version AM_VERSION)) (\<lambda>resp.
     Inr (AM_RET_GOOD, resp, Some sizeof_RESP_IDENTIFY)))"

definition am_targ_get_cap_count :: "bytes \<Rightarrow> (AM_RETURN \<times> bytes \<times> UINT32 option) res" where
  "am_targ_get_cap_count resp =
     bindr (wr32 resp 8 (cap_subType virtd_base_cap)) (\<lambda>resp.
     Inr (AM_RET_GOOD, resp, Some sizeof_RESP_CAP_COUNT))"

definition am_targ_release :: "bytes \<Rightarrow> (AM_RETURN \<times> bytes \<times> UINT32 option) res" where
  "am_targ_release resp = Inr (AM_RET_GOOD, resp, None)"

definition am_targ_open :: "bytes \<Rightarrow> (AM_RETURN \<times> bytes \<times> UINT32 option) res" where
  "am_targ_open resp = Inr (AM_RET_GOOD, resp, Some (of_nat sizeof_WRAPPER))"

definition am_targ_close :: "bytes \<Rightarrow> (AM_RETURN \<times> bytes \<times> UINT32 option) res" where
  "am_targ_close resp = Inr (AM_RET_GOOD, resp, None)"

section \<open>Operators with data\<close>

text \<open>
  The loop that copies the capabilities, the same in \<open>am_targ_get_cap\<close> and
  \<open>am_virtd_get_capabilities\<close>: \<open>off\<close> is the offset of \<open>pAmCaps\<close>. Only the passes with
  \<open>i < virtd_base_cap.subType\<close> do anything, so the loop is run for those.
\<close>

fun copy_caps :: "nat \<Rightarrow> nat \<Rightarrow> registry \<Rightarrow> bytes \<Rightarrow> nat \<Rightarrow> bytes res" where
  "copy_caps 0 i reg b off = Inr b"
| "copy_caps (Suc k) i reg b off =
     (case (if i = 0 then Some virtd_base_cap else Option.bind (reg ! i) fe_pCap) of
        Some c \<Rightarrow> bindr (putb b off (enc_mem_cap c)) (\<lambda>b. copy_caps k (Suc i) reg b (off + sizeof_MEM_CAP))
      | None \<Rightarrow> copy_caps k (Suc i) reg b off)"

definition am_targ_get_cap ::
  "targ \<Rightarrow> bytes \<Rightarrow> UINT64 \<Rightarrow> bytes \<Rightarrow> (AM_RETURN \<times> bytes \<times> UINT32 option) res" where
  "am_targ_get_cap g p1 l1 p2 =
     bindr (rd64 p1 0) (\<lambda>v.
     let count = (ucast v :: UINT32); tx_bytes = count * of_nat sizeof_MEM_CAP in
     bindr (copy_caps (min (unat count) (unat (cap_subType virtd_base_cap))) 0 (tg_reg g) p2 0) (\<lambda>p2.
     Inr (AM_RET_GOOD, p2, Some tx_bytes)))"

fun find_slot :: "mem_func ptr list \<Rightarrow> nat \<Rightarrow> nat option" where
  "find_slot [] i = None"
| "find_slot (p # ps) i = (if p = Null then Some i else find_slot ps (Suc i))"

definition targ_create_device ::
  "alloc \<Rightarrow> (nat \<Rightarrow> UINT8) \<Rightarrow> mem_func \<Rightarrow> mem_cap \<Rightarrow> (AM_RETURN \<times> mem_func) res" where
  "targ_create_device al junk f cap =
     (if cap_amType cap = AM_TYPE_STATIC_ARRAY then am_create_stata_device al junk f cap
      else if cap_amType cap = AM_TYPE_FLAT_MEM then am_create_flat_device al junk f cap
      else if cap_amType cap = AM_TYPE_ASSOC_ARRAY then am_create_assca_device al f cap
      else Inr (AM_RET_INVALID_FUNC, f))"

text \<open>
  \<open>al 0\<close> is the allocation of the function object, \<open>al 1\<close> that of its operator table; the device takes
  the others. With a full table the local \<open>pDeviceFunc\<close> is read without ever being set. When the
  operator table cannot be allocated the object is freed, stays in the table, and is then used.
\<close>

definition am_targ_create_function ::
  "alloc \<Rightarrow> (nat \<Rightarrow> UINT8) \<Rightarrow> targ \<Rightarrow> bytes \<Rightarrow> UINT64 \<Rightarrow> bytes \<Rightarrow>
   (AM_RETURN \<times> targ \<times> bytes \<times> UINT32 option) res" where
  "am_targ_create_function al junk g p1 l1 p2 =
     (case find_slot (tg_table g) 0 of
        None \<Rightarrow> Inl Uninit
      | Some i \<Rightarrow>
          if \<not> al 0 then Inr (AM_RET_ALLOC_ERR, g, p2, None)
          else if \<not> al 1 then Inl UseAfterFree
          else
            let f = zero_func\<lparr>fn_handle := AM_TARGET_FUNCTION_ID_SIG OR of_nat i, fn_pfnOps := Some zero_ops\<rparr> in
            bindr (rd_mem_cap p1 0) (\<lambda>cap.
            bindr (targ_create_device (\<lambda>k. al (k + 2)) junk f cap) (\<lambda>(error, f).
            if error \<noteq> AM_RET_GOOD then
              let j = unat (AM_TARG_GET_FUNC_IDX (fn_handle f)) in
              Inr (error, (if j = i then tbl_set g i Null else tbl_set g i Dangling), p2, None)
            else
              bindr (putb p2 0 (enc_cr_resp (fn_crResp f))) (\<lambda>p2.
              Inr (error, tbl_set g i (Live f), p2, Some (of_nat sizeof_CR_RESP))))))"

section \<open>The base function\<close>

definition am_targ_init_base_function :: "alloc \<Rightarrow> (AM_RETURN \<times> mem_func option)" where
  "am_targ_init_base_function al =
     (if al 0 then
        if al 1 then
          (AM_RET_GOOD, Some
            (set_op AM_OP_CREATE_FUNC Fn_targ_create_function
            (set_op AM_OP_GET_CAP Fn_targ_get_cap
            (set_op AM_OP_GET_CAP_COUNT Fn_targ_get_cap_count
            (set_op AM_OP_IDENTIFY Fn_targ_identify_resp
            (zero_func\<lparr>fn_pfnOps := Some zero_ops\<rparr>))))))
        else (AM_RET_ALLOC_ERR, None)
      else (AM_RET_ALLOC_ERR, None))"

text \<open>The table as \<open>am_targ_start_target\<close> leaves it: the base function in slot 0, all else null.\<close>

definition start_table :: "mem_func \<Rightarrow> mem_func ptr list" where
  "start_table base = (replicate AM_TARGET_MAX_FUNCTIONS Null)[0 := Live base]"

end
