(* ===== verification/AM_Virtd.thy ===== *)
theory AM_Virtd
  imports AM_Targ_Ops
begin

text \<open>
  The in-process device, \<^verbatim>\<open>appmemlib/appmem_virtd.c\<close>: its capabilities and the creation of functions
  whose client calls are the device operators themselves. \<open>vd_reg\<close> is \<open>gVirtdDeviceFunctionEntry\<close>,
  \<open>vd_minor\<close> is \<open>g_virtd_minor_count\<close>.
\<close>

record virtd =
  vd_reg :: registry
  vd_minor :: UINT32

definition am_virtd_entry_close :: AM_RETURN where
  "am_virtd_entry_close = AM_RET_GOOD"

definition am_virtd_open :: AM_RETURN where
  "am_virtd_open = AM_RET_GOOD"

definition am_virtd_close :: AM_RETURN where
  "am_virtd_close = AM_RET_GOOD"

text \<open>The in-process device's own operators for release, open and close; none sets \<open>ret_len\<close>.\<close>

definition virtd_targ_release :: "AM_RETURN \<times> UINT32 option" where
  "virtd_targ_release = (AM_RET_GOOD, None)"

definition virtd_targ_open :: "AM_RETURN \<times> UINT32 option" where
  "virtd_targ_open = (AM_RET_GOOD, None)"

definition virtd_targ_close :: "AM_RETURN \<times> UINT32 option" where
  "virtd_targ_close = (AM_RET_GOOD, None)"

definition am_virtd_get_capabilites_count :: UINT32 where
  "am_virtd_get_capabilites_count = cap_subType virtd_base_cap"

text \<open>\<open>pAmCaps\<close> is the client's block.\<close>

definition am_virtd_get_capabilities :: "virtd \<Rightarrow> buf \<Rightarrow> UINT32 \<Rightarrow> (AM_RETURN \<times> buf) res" where
  "am_virtd_get_capabilities v pAmCaps cnt =
     bindr (AM_ASSERT (pAmCaps \<noteq> None)) (\<lambda>_.
     bindr (AM_ASSERT (cnt \<noteq> 0)) (\<lambda>_.
     bindr (the_buf pAmCaps) (\<lambda>b.
     bindr (copy_caps (min (unat cnt) (unat (cap_subType virtd_base_cap))) 0 (vd_reg v) b 0) (\<lambda>b.
     Inr (AM_RET_GOOD, Some b)))))"

text \<open>
  \<open>am_virt_get_cap_details\<close>: the details of one type, \<open>subType\<close> of them. The answer is the list copied
  to the client; a registration whose array is shorter is read past its end.
\<close>

definition am_virt_get_cap_details :: "virtd \<Rightarrow> UINT32 \<Rightarrow> (AM_RETURN \<times> cap_details list) res" where
  "am_virt_get_cap_details v amType =
     (if unat amType < MAX_VIRTD_DEVICE_FUNCTIONS then
        case vd_reg v ! unat amType of
          None \<Rightarrow> Inr (AM_RET_INVALID_OPCODE, [])
        | Some fe \<Rightarrow>
            (case fe_pCapDetails fe of
               None \<Rightarrow> Inr (AM_RET_INVALID_OPCODE, [])
             | Some ds \<Rightarrow>
                 bindr (if amType = AM_TYPE_BASE_APPMEM then Inr 1
                        else case fe_pCap fe of None \<Rightarrow> Inl NullDeref | Some c \<Rightarrow> Inr (unat (cap_subType c))) (\<lambda>n.
                 if n \<le> length ds then Inr (AM_RET_GOOD, take n ds) else Inl OutOfBounds))
      else Inr (AM_RET_INVALID_OPCODE, []))"

section \<open>Creation of functions\<close>

definition map_calls :: "(func_calls \<Rightarrow> func_calls) \<Rightarrow> mem_func \<Rightarrow> mem_func" where
  "map_calls g f = f\<lparr>fn_calls := map_option g (fn_calls f)\<rparr>"

definition flat_calls :: "func_calls \<Rightarrow> func_calls" where
  "flat_calls c = c\<lparr>fc_release := Some Fn_flat_release, fc_open := Some Fn_virtd_open,
     fc_close := Some Fn_virtd_close, fc_read := Some Fn_flat_read32, fc_write := Some Fn_flat_write32,
     fc_read_al := Some Fn_flat_read32_align, fc_write_al := Some Fn_flat_write32_align,
     fc_copy := None\<rparr>"

definition stata_calls :: "func_calls \<Rightarrow> func_calls" where
  "stata_calls c = c\<lparr>fc_release := Some Fn_stata_release, fc_open := Some Fn_virtd_open,
     fc_close := Some Fn_virtd_close, fc_read := None, fc_write := None,
     fc_read_al := Some Fn_stata_read_idx32, fc_write_al := Some Fn_stata_write_idx32,
     fc_copy := None, fc_sort := Some Fn_stata_sort\<rparr>"

definition assca_calls :: "func_calls \<Rightarrow> func_calls" where
  "assca_calls c = c\<lparr>fc_release := Some Fn_assca_release, fc_open := Some Fn_virtd_open,
     fc_close := Some Fn_virtd_close, fc_read := Some Fn_assca_read32, fc_write := Some Fn_assca_write32,
     fc_read_al := Some Fn_assca_read32_align, fc_write_al := Some Fn_assca_write32_align,
     fc_iter := Some Fn_assca_iter, fc_copy := None\<rparr>"

text \<open>
  The \<open>AMLIB_ASSCA\<close> is made for fixed keys and data whatever the capability says: both flags start
  as \<open>TRUE\<close>. Without memory for it the status stays \<open>AM_RET_GOOD\<close>, and the data union the function
  object points to is left as the allocator returned it: here, a union without a member.
\<close>

definition am_virtd_init_assca ::
  "alloc \<Rightarrow> mem_cap \<Rightarrow> mem_func \<Rightarrow> (AM_RETURN \<times> (func_data \<times> mem_func) option)" where
  "am_virtd_init_assca al cap f =
     (if fn_calls f \<noteq> None \<and> cap_amType cap = AM_TYPE_ASSOC_ARRAY then
        let key_size = cap_typeSpecific cap ! TS_ASSCA_KEY_MAX_SIZE;
            data_size = cap_typeSpecific cap ! TS_ASSCA_DATA_MAX_SIZE;
            pAA = amlib_assca_init al key_size data_size 1 1
        in if pAA \<noteq> Null then
             (AM_RET_GOOD, Some (FdAssca \<lparr>as_data = pAA, as_size = cap_maxSize cap, as_cur_count = 0\<rparr>,
                                 map_calls assca_calls f))
           else (AM_RET_GOOD, None)
      else (AM_RET_PARAM_ERR, None))"

text \<open>
  One case of the switch over \<open>amType\<close>: the status and the function object, whose \<open>pVdF\<close> already
  points to the union. \<open>al 0\<close> is the allocation of the case, \<open>minor\<close> the number in the name.
\<close>

definition virtd_flat ::
  "alloc \<Rightarrow> (nat \<Rightarrow> UINT8) \<Rightarrow> UINT32 \<Rightarrow> mem_cap \<Rightarrow> mem_func \<Rightarrow> (AM_RETURN \<times> mem_func) res" where
  "virtd_flat al junk minor cap f =
     bindr (set_name (''virtd_flat'' @ fmt_d minor) f) (\<lambda>f.
     let size = cap_maxSize cap;
         fd = \<lparr>fl_data = Null, fl_size = size, fl_add_size = cap_typeSpecific cap ! TS_FLAT_ADDRESS_BYTE_SIZE\<rparr>
     in
     if al 0 then
       let mem = (if cap_typeSpecific cap ! TS_INIT_MEM_VAL \<noteq> 0 then fresh junk (unat size)
                  else replicate (unat size) 0)
       in Inr (AM_RET_GOOD, map_calls flat_calls (f\<lparr>fn_pVdF := Live (FdFlat (fd\<lparr>fl_data := Live mem\<rparr>))\<rparr>))
     else Inr (AM_RET_ALLOC_ERR, f\<lparr>fn_pVdF := Live (FdFlat fd)\<rparr>))"

text \<open>The number of elements is cut to 32 bits, the size in bytes is not.\<close>

definition virtd_stata :: "alloc \<Rightarrow> UINT32 \<Rightarrow> mem_cap \<Rightarrow> mem_func \<Rightarrow> (AM_RETURN \<times> mem_func) res" where
  "virtd_stata al minor cap f =
     bindr (set_name (''virtd_stata'' @ fmt_d minor) f) (\<lambda>f.
     let data_size = cap_typeSpecific cap ! TS_STAT_ARRAY_VAL_MAX_SIZE;
         size = ucast data_size * cap_maxSize cap;
         sd = \<lparr>st_data = Null, st_size = size, st_array_size = ucast (ucast (cap_maxSize cap) :: UINT32),
               st_idx_size = cap_typeSpecific cap ! TS_STAT_ARRAY_IDX_BYTE_SIZE, st_data_size = data_size\<rparr>
     in
     if al 0 then
       Inr (AM_RET_GOOD, map_calls stata_calls
         (f\<lparr>fn_pVdF := Live (FdStata (sd\<lparr>st_data := Live (replicate (unat size) 0)\<rparr>))\<rparr>))
     else Inr (AM_RET_ALLOC_ERR, f\<lparr>fn_pVdF := Live (FdStata sd)\<rparr>))"

definition virtd_assca :: "alloc \<Rightarrow> UINT32 \<Rightarrow> mem_cap \<Rightarrow> mem_func \<Rightarrow> (AM_RETURN \<times> mem_func) res" where
  "virtd_assca al minor cap f =
     bindr (set_name (''virtd_assca'' @ fmt_d minor) f) (\<lambda>f.
     case am_virtd_init_assca al cap f of
       (st, Some (u, f)) \<Rightarrow> Inr (st, f\<lparr>fn_pVdF := Live u\<rparr>)
     | (st, None) \<Rightarrow> Inr (st, f))"

text \<open>
  The path of the types behind \<open>AM_TYPE_ASSOC_ARRAY\<close>, through the registry (lines 189 to 228): the
  registry has 100 entries and is indexed by any type. \<open>al 0\<close> is the operator table.
\<close>

definition virtd_registered ::
  "alloc \<Rightarrow> (nat \<Rightarrow> UINT8) \<Rightarrow> registry \<Rightarrow> mem_cap \<Rightarrow> mem_func \<Rightarrow> (AM_RETURN \<times> mem_func) res" where
  "virtd_registered al junk reg cap f =
     (if \<not> unat (cap_amType cap) < MAX_VIRTD_DEVICE_FUNCTIONS then Inl OutOfBounds
      else
        case Option.bind (reg ! unat (cap_amType cap)) fe_pfnCreateFunction of
          None \<Rightarrow> Inr (AM_RET_INVALID_FUNC, f)
        | Some create \<Rightarrow>
            if \<not> al 0 then Inl NullDeref
            else
              bindr (call_create create (\<lambda>i. al (Suc i)) junk (f\<lparr>fn_pfnOps := Some zero_ops\<rparr>) cap) (\<lambda>(st, f).
              if st = AM_RET_GOOD then
                case (fn_calls f, fn_pfnOps f) of
                  (Some c, Some ops) \<Rightarrow>
                    let c = c\<lparr>fc_open := Some Fn_virtd_open, fc_close := Some Fn_virtd_close\<rparr>;
                        add_al = ops ! unat AM_OP_ADD_ALIGN;
                        c = (if add_al \<noteq> None then c\<lparr>fc_add_al := add_al\<rparr> else c)
                    in Inr (AM_RET_GOOD, f\<lparr>fn_calls := Some c\<rparr>)
                | _ \<Rightarrow> Inl NullDeref
              else Inr (AM_RET_INVALID_FUNC, f)))"

definition am_virtd_create_function ::
  "alloc \<Rightarrow> (nat \<Rightarrow> UINT8) \<Rightarrow> virtd \<Rightarrow> mem_cap option \<Rightarrow> mem_func option \<Rightarrow>
   (AM_RETURN \<times> virtd \<times> mem_func) res" where
  "am_virtd_create_function al junk v pCap pFunc =
     (case (pCap, pFunc) of
        (Some cap, Some f) \<Rightarrow>
          if AM_TYPE_ASSOC_ARRAY < cap_amType cap then
            bindr (virtd_registered al junk (vd_reg v) cap f) (\<lambda>(st, f). Inr (st, v, f))
          else
            let f = f\<lparr>fn_amCap := cap\<rparr>; v' = v\<lparr>vd_minor := vd_minor v + 1\<rparr>; al' = (\<lambda>i. al (Suc i)) in
            if al 0 then
              let f = f\<lparr>fn_pVdF := Live FdRaw\<rparr> in
              bindr (if cap_amType cap = AM_TYPE_FLAT_MEM then virtd_flat al' junk (vd_minor v) cap f
                     else if cap_amType cap = AM_TYPE_STATIC_ARRAY then virtd_stata al' (vd_minor v) cap f
                     else if cap_amType cap = AM_TYPE_ASSOC_ARRAY then virtd_assca al' (vd_minor v) cap f
                     else Inr (AM_RET_INVALID_FUNC, f)) (\<lambda>(st, f).
              Inr (st, v', f))
            else Inr (AM_RET_PARAM_ERR, v', f)
      | _ \<Rightarrow> Inl AssertFail)"

end
