(* ===== verification/AM_Pack_Client.thy ===== *)
theory AM_Pack_Client
  imports AM_Func
begin

text \<open>
  The client side of the packet protocol, \<^verbatim>\<open>appmemlib/appmem_pack.c\<close> lines 37 to 319: the operators a
  client calls on a remote function, each of which fills a request packet and sends it through the
  accessor \<open>pkAc\<close> of the function. The two calls of the accessor are the record \<open>pkac\<close>; \<open>'n\<close> is the
  state behind them. \<^verbatim>\<open>AM_Net\<close> provides the accessor of a network device.
\<close>

section \<open>Transactions\<close>

text \<open>
  \<open>AM_NET_PACK_TRANSACTION\<close>. The members \<open>flag\<close> and \<open>start_time\<close> are never read. \<open>iop_pRx\<close> is the
  buffer behind \<open>pRx\<close>, if it is not null.
\<close>

record iop =
  iop_pTx :: bytes
  iop_pRx :: "bytes option"
  iop_tag :: UINT16
  iop_done :: UINT32
  iop_resp_bytes :: UINT32

record 'n pkac =
  pk_get_free_iop :: "'n \<Rightarrow> iop option \<times> 'n"
  pk_send_and_wait :: "'n \<Rightarrow> iop \<Rightarrow> UINT32 \<Rightarrow> UINT32 \<Rightarrow> (AM_RETURN \<times> iop \<times> 'n) res"

text \<open>The assertions every operator starts with, and the transaction it gets.\<close>

definition pack_asserts :: "mem_func option \<Rightarrow> mem_func res" where
  "pack_asserts pFunc =
     (case pFunc of
        None \<Rightarrow> Inl AssertFail
      | Some f \<Rightarrow>
          bindr (AM_ASSERT (fn_pEntry f)) (\<lambda>_.
          bindr (AM_ASSERT (fn_get_free_iop f)) (\<lambda>_.
          bindr (AM_ASSERT (fn_send_and_wait f)) (\<lambda>_. Inr f))))"

definition free_iop :: "'n pkac \<Rightarrow> 'n \<Rightarrow> (iop \<times> 'n) res" where
  "free_iop pk n = (case pk_get_free_iop pk n of (None, n) \<Rightarrow> Inl NullDeref | (Some pIop, n) \<Rightarrow> Inr (pIop, n))"

text \<open>The four assignments to the wrapper of the request; \<open>appTag\<close> keeps what the accessor put there.\<close>

definition set_wrap :: "bytes \<Rightarrow> UINT16 \<Rightarrow> UINT8 \<Rightarrow> UINT32 \<Rightarrow> UINT8 \<Rightarrow> bytes res" where
  "set_wrap tx func_id packType tx_size opc =
     bindr (wr16 tx off_func_id func_id) (\<lambda>tx.
     bindr (wr8 tx off_packType packType) (\<lambda>tx.
     bindr (wr16 tx off_size (ucast tx_size)) (\<lambda>tx.
     wr8 tx off_op opc)))"

definition pack_wrap :: "mem_func \<Rightarrow> iop \<Rightarrow> UINT8 \<Rightarrow> UINT32 \<Rightarrow> UINT8 \<Rightarrow> iop res" where
  "pack_wrap f pIop packType tx_size opc =
     bindr (set_wrap (iop_pTx pIop) (ucast (fn_handle f)) packType tx_size opc) (\<lambda>tx.
     Inr (pIop\<lparr>iop_pTx := tx\<rparr>))"

section \<open>The operators\<close>

definition am_pack_op_only ::
  "'n pkac \<Rightarrow> 'n \<Rightarrow> mem_func option \<Rightarrow> UINT8 \<Rightarrow> buf \<Rightarrow> UINT32 \<Rightarrow> (AM_RETURN \<times> 'n) res" where
  "am_pack_op_only pk n pFunc opc pResp resp_len =
     (let tx_size = sizeof_IDENTIFY in
      bindr (pack_asserts pFunc) (\<lambda>f.
      bindr (free_iop pk n) (\<lambda>(pIop, n).
      bindr (pack_wrap f pIop (ucast AM_PACK_TYPE_OPCODE_ONLY) tx_size opc) (\<lambda>pIop.
      bindr (pk_send_and_wait pk n pIop tx_size 5000) (\<lambda>(error, pIop, n).
      bindr (if error = AM_RET_GOOD \<and> pResp \<noteq> None \<and> resp_len \<noteq> 0 \<and>
                iop_pRx pIop \<noteq> None \<and> iop_resp_bytes pIop \<noteq> 0
             then AM_ASSERT False else Inr ()) (\<lambda>_.
      Inr (error, n)))))))"

definition am_net_close :: "'n pkac \<Rightarrow> 'n \<Rightarrow> mem_func option \<Rightarrow> (AM_RETURN \<times> 'n) res" where
  "am_net_close pk n p1 = am_pack_op_only pk n p1 (ucast AM_OP_CLOSE_FUNC) None 0"

definition am_net_open :: "'n pkac \<Rightarrow> 'n \<Rightarrow> mem_func option \<Rightarrow> (AM_RETURN \<times> 'n) res" where
  "am_net_open pk n p1 = am_pack_op_only pk n p1 (ucast AM_OP_OPEN_FUNC) None 0"

definition am_pack_read_align ::
  "'n pkac \<Rightarrow> 'n \<Rightarrow> mem_func option \<Rightarrow> buf \<Rightarrow> buf \<Rightarrow> (AM_RETURN \<times> buf \<times> 'n) res" where
  "am_pack_read_align pk n pFunc p1 p2 =
     bindr (pack_asserts pFunc) (\<lambda>f.
     let idx_size = cr_idx_size (fn_crResp f); data_size = cr_data_size (fn_crResp f);
         tx_size = of_nat sizeof_WRAPPER + idx_size in
     bindr (free_iop pk n) (\<lambda>(pIop, n).
     bindr (pack_wrap f pIop (ucast AM_PACK_ALIGN) tx_size (ucast AM_OP_READ_ALIGN)) (\<lambda>pIop.
     bindr (the_buf p1) (\<lambda>b1.
     bindr (memcpy (iop_pTx pIop) off_data_bytes b1 0 (unat idx_size)) (\<lambda>tx.
     bindr (pk_send_and_wait pk n (pIop\<lparr>iop_pTx := tx\<rparr>) tx_size 5000) (\<lambda>(error, pIop, n).
     if error = AM_RET_GOOD then
       case iop_pRx pIop of
         Some rx \<Rightarrow>
           if sizeof_WRAPPER + unat data_size \<le> unat (iop_resp_bytes pIop) then
             bindr (the_buf p2) (\<lambda>b2.
             bindr (memcpy b2 0 rx off_resp_bytes (unat data_size)) (\<lambda>b2.
             Inr (error, Some b2, n)))
           else Inr (AM_RET_IO_ERR, p2, n)
       | None \<Rightarrow> Inr (AM_RET_IO_ERR, p2, n)
     else Inr (error, p2, n)))))))"

definition am_pack_read32_align ::
  "'n pkac \<Rightarrow> 'n \<Rightarrow> mem_func option \<Rightarrow> buf \<Rightarrow> buf \<Rightarrow> (AM_RETURN \<times> buf \<times> 'n) res" where
  "am_pack_read32_align pk n pFunc p1 p2 =
     (let tx_size = sizeof_READ_ALIGN in
      bindr (pack_asserts pFunc) (\<lambda>f.
      bindr (free_iop pk n) (\<lambda>(pIop, n).
      bindr (pack_wrap f pIop (ucast AM_PACK_ALIGN) tx_size (ucast AM_OP_READ_ALIGN)) (\<lambda>pIop.
      bindr (the_buf p1) (\<lambda>b1.
      bindr (rd32 b1 0) (\<lambda>v.
      bindr (wr32 (iop_pTx pIop) off_data_bytes v) (\<lambda>tx.
      bindr (pk_send_and_wait pk n (pIop\<lparr>iop_pTx := tx\<rparr>) tx_size 5000) (\<lambda>(error, pIop, n).
      if error = AM_RET_GOOD then
        case iop_pRx pIop of
          Some rx \<Rightarrow>
            if tx_size \<le> iop_resp_bytes pIop then
              bindr (rd32 rx off_resp_bytes) (\<lambda>v.
              bindr (the_buf p2) (\<lambda>b2.
              bindr (wr32 b2 0 v) (\<lambda>b2.
              Inr (error, Some b2, n))))
            else Inr (AM_RET_IO_UNDERRUN, p2, n)
        | None \<Rightarrow> Inr (AM_RET_IO_UNDERRUN, p2, n)
      else Inr (error, p2, n)))))))))"

text \<open>The request size is computed from \<open>pFunc\<close> before \<open>pFunc\<close> is asserted.\<close>

definition am_pack_write_align ::
  "'n pkac \<Rightarrow> 'n \<Rightarrow> mem_func option \<Rightarrow> buf \<Rightarrow> buf \<Rightarrow> (AM_RETURN \<times> 'n) res" where
  "am_pack_write_align pk n pFunc p1 p2 =
     bindr (case pFunc of None \<Rightarrow> Inl NullDeref | Some f \<Rightarrow> Inr (fn_crResp f)) (\<lambda>cr.
     let idx_size = cr_idx_size cr; data_size = cr_data_size cr;
         tx_size = of_nat sizeof_WRAPPER + data_size + idx_size in
     bindr (pack_asserts pFunc) (\<lambda>f.
     bindr (free_iop pk n) (\<lambda>(pIop, n).
     bindr (pack_wrap f pIop (ucast AM_PACK_ALIGN) tx_size (ucast AM_OP_WRITE_ALIGN)) (\<lambda>pIop.
     bindr (the_buf p1) (\<lambda>b1.
     bindr (memcpy (iop_pTx pIop) off_data_bytes b1 0 (unat idx_size)) (\<lambda>tx.
     bindr (the_buf p2) (\<lambda>b2.
     bindr (memcpy tx (off_data_bytes + unat idx_size) b2 0 (unat data_size)) (\<lambda>tx.
     bindr (pk_send_and_wait pk n (pIop\<lparr>iop_pTx := tx\<rparr>) tx_size 5000) (\<lambda>(error, pIop, n).
     Inr (error, n))))))))))"

definition am_pack_write32_align ::
  "'n pkac \<Rightarrow> 'n \<Rightarrow> mem_func option \<Rightarrow> buf \<Rightarrow> buf \<Rightarrow> (AM_RETURN \<times> 'n) res" where
  "am_pack_write32_align pk n pFunc p1 p2 =
     (let tx_size = sizeof_WRITE_ALIGN + 7 in
      bindr (pack_asserts pFunc) (\<lambda>f.
      bindr (free_iop pk n) (\<lambda>(pIop, n).
      bindr (pack_wrap f pIop (ucast AM_PACK_ALIGN) tx_size (ucast AM_OP_WRITE_ALIGN)) (\<lambda>pIop.
      bindr (the_buf p1) (\<lambda>b1.
      bindr (rd32 b1 0) (\<lambda>v1.
      bindr (wr32 (iop_pTx pIop) off_data_bytes v1) (\<lambda>tx.
      bindr (the_buf p2) (\<lambda>b2.
      bindr (rd32 b2 0) (\<lambda>v2.
      bindr (wr32 tx (off_data_bytes + 4) v2) (\<lambda>tx.
      bindr (pk_send_and_wait pk n (pIop\<lparr>iop_pTx := tx\<rparr>) tx_size 5000) (\<lambda>(error, pIop, n).
      Inr (error, n))))))))))))"

definition am_pack_sort ::
  "'n pkac \<Rightarrow> 'n \<Rightarrow> mem_func option \<Rightarrow> buf \<Rightarrow> UINT64 \<Rightarrow> (AM_RETURN \<times> 'n) res" where
  "am_pack_sort pk n pFunc p1 l1 =
     (let tx_size = sizeof_WRITE_ALIGN + ucast l1 in
      bindr (pack_asserts pFunc) (\<lambda>f.
      bindr (free_iop pk n) (\<lambda>(pIop, n).
      bindr (pack_wrap f pIop (ucast AM_PACK_ACTION) tx_size (ucast AM_OP_SORT)) (\<lambda>pIop.
      bindr (the_buf p1) (\<lambda>b1.
      bindr (memcpy (iop_pTx pIop) off_action_data_in b1 0 (unat (ucast l1 :: UINT32))) (\<lambda>tx.
      bindr (pk_send_and_wait pk n (pIop\<lparr>iop_pTx := tx\<rparr>) tx_size 5000) (\<lambda>(error, pIop, n).
      Inr (error, n))))))))"

section \<open>Choosing the operators\<close>

abbreviation (input) ACOP_WRITE :: nat where "ACOP_WRITE \<equiv> 0"
abbreviation (input) ACOP_READ :: nat where "ACOP_READ \<equiv> 1"

definition is_pack_op :: "UINT32 \<Rightarrow> bool" where
  "is_pack_op w = (IS_OP_ALIGNED w \<or> IS_OP_PACKET w)"

definition cr_is_32 :: "cr_resp \<Rightarrow> bool" where
  "cr_is_32 cr = (cr_data_size cr = 4 \<and> cr_idx_size cr = 4)"

definition set_call :: "(func_calls \<Rightarrow> func_calls) \<Rightarrow> mem_func \<Rightarrow> mem_func res" where
  "set_call g f = (case fn_calls f of None \<Rightarrow> Inl NullDeref | Some c \<Rightarrow> Inr (f\<lparr>fn_calls := Some (g c)\<rparr>))"

definition am_set_pack_access :: "mem_func \<Rightarrow> (AM_RETURN \<times> mem_func) res" where
  "am_set_pack_access f =
     (let cr = fn_crResp f in
      bindr (if is_pack_op (cr_acOps cr ! ACOP_WRITE) then
               set_call (\<lambda>c. c\<lparr>fc_write_al := Some (if cr_is_32 cr then Fn_pack_write32_align else Fn_pack_write_align)\<rparr>) f
             else Inr f) (\<lambda>f.
      bindr (if is_pack_op (cr_acOps cr ! ACOP_READ) then
               set_call (\<lambda>c. c\<lparr>fc_read_al := Some (if cr_is_32 cr then Fn_pack_read32_align else Fn_pack_read_align)\<rparr>) f
             else Inr f) (\<lambda>f.
      Inr (AM_RET_GOOD, f))))"

end
