(* ===== verification/AM_Pack.thy ===== *)
theory AM_Pack
  imports AM_Targ_Ops AM_Pack_Client
begin

text \<open>
  The dispatcher of the target, \<open>am_pack_process_cmd\<close> (\<^verbatim>\<open>appmemlib/appmem_pack.c\<close> from line 322), and the
  calls through the operator table it makes. The table entry carries the type of the function stored
  in it; a call through another type is the fault \<open>BadCall\<close>.
\<close>

section \<open>Calls through the operator table\<close>

fun call_align :: "fn_ptr \<Rightarrow> alloc \<Rightarrow> mem_func \<Rightarrow> buf \<Rightarrow> buf \<Rightarrow> align_res" where
  "call_align Fn_flat_read32_align al f p1 p2 = am_flat_read32_align f p1 p2"
| "call_align Fn_flat_write32_align al f p1 p2 = am_flat_write32_align f p1 p2"
| "call_align Fn_stata_read_idx32 al f p1 p2 = am_stata_read_idx32 f p1 p2"
| "call_align Fn_stata_write_idx32 al f p1 p2 = am_stata_write_idx32 f p1 p2"
| "call_align Fn_assca_read32_align al f p1 p2 = am_assca_read32_align f p1 p2"
| "call_align Fn_assca_write32_align al f p1 p2 = am_assca_write32_align al f p1 p2"
| "call_align _ al f p1 p2 = Inl BadCall"

fun call_op_only :: "fn_ptr \<Rightarrow> bytes \<Rightarrow> (AM_RETURN \<times> bytes \<times> UINT32 option) res" where
  "call_op_only Fn_targ_identify_resp resp = am_targ_identify_resp resp"
| "call_op_only Fn_targ_get_cap_count resp = am_targ_get_cap_count resp"
| "call_op_only Fn_targ_release resp = am_targ_release resp"
| "call_op_only Fn_targ_open resp = am_targ_open resp"
| "call_op_only Fn_targ_close resp = am_targ_close resp"
| "call_op_only _ resp = Inl BadCall"

fun call_fivo ::
  "fn_ptr \<Rightarrow> alloc \<Rightarrow> (nat \<Rightarrow> UINT8) \<Rightarrow> targ \<Rightarrow> bytes \<Rightarrow> UINT64 \<Rightarrow> bytes \<Rightarrow>
   (AM_RETURN \<times> targ \<times> bytes \<times> UINT32 option) res" where
  "call_fivo Fn_targ_get_cap al junk g p1 l1 p2 =
     bindr (am_targ_get_cap g p1 l1 p2) (\<lambda>(st, p2, n). Inr (st, g, p2, n))"
| "call_fivo Fn_targ_create_function al junk g p1 l1 p2 = am_targ_create_function al junk g p1 l1 p2"
| "call_fivo _ al junk g p1 l1 p2 = Inl BadCall"

fun call_action ::
  "fn_ptr \<Rightarrow> alloc \<Rightarrow> (nat \<Rightarrow> UINT8) \<Rightarrow> mem_func \<Rightarrow> buf \<Rightarrow> UINT64 \<Rightarrow> (AM_RETURN \<times> mem_func) res" where
  "call_action Fn_stata_sort al junk f p1 l1 = am_stata_sort al junk f p1 l1"
| "call_action _ al junk f p1 l1 = Inl BadCall"

section \<open>Dispatch\<close>

text \<open>
  One call through \<open>opFn[op]\<close>: the status, the state, the request and the response packet, and
  \<open>tx_bytes\<close>, \<open>None\<close> while it has no value. A pointer into a packet is the rest of the packet.
\<close>

type_synonym pack_res = "(AM_RETURN \<times> targ \<times> bytes \<times> bytes \<times> UINT32 option) res"

definition dispatch_align ::
  "alloc \<Rightarrow> targ \<Rightarrow> nat \<Rightarrow> mem_func \<Rightarrow> fn_ptr \<Rightarrow> UINT8 \<Rightarrow> bytes \<Rightarrow> bytes \<Rightarrow> pack_res" where
  "dispatch_align al g i f fp opc rx resp =
     (if opc AND 1 \<noteq> 0 then
        bindr (call_align fp al f (Some (drop off_data_bytes rx)) (Some (drop off_resp_bytes resp))) (\<lambda>(st, f', p2).
        bindr (the_buf p2) (\<lambda>b2.
        Inr (st, tbl_set g i (Live f'), rx, take off_resp_bytes resp @ b2,
             Some (of_nat sizeof_WRAPPER + cr_data_size (fn_crResp f')))))
      else
        let o2 = off_data_bytes + unat (cr_idx_size (fn_crResp f)) in
        bindr (call_align fp al f (Some (drop off_data_bytes rx)) (Some (drop o2 rx))) (\<lambda>(st, f', p2).
        bindr (the_buf p2) (\<lambda>b2.
        Inr (st, tbl_set g i (Live f'), take o2 rx @ b2, resp, Some (of_nat sizeof_WRAPPER)))))"

definition dispatch ::
  "alloc \<Rightarrow> (nat \<Rightarrow> UINT8) \<Rightarrow> targ \<Rightarrow> nat \<Rightarrow> mem_func \<Rightarrow> fn_ptr \<Rightarrow> UINT8 \<Rightarrow> bytes \<Rightarrow> bytes \<Rightarrow> pack_res" where
  "dispatch al junk g i f fp opc rx resp =
     bindr (rd8 rx off_packType) (\<lambda>packType.
     if packType = ucast AM_KPACK \<or> packType = ucast AM_PACK_ALIGN then
       dispatch_align al g i f fp opc rx resp
     else if packType = ucast AM_PACK_TYPE_OPCODE_ONLY then
       bindr (call_op_only fp resp) (\<lambda>(st, resp, n). Inr (st, g, rx, resp, n))
     else if packType = ucast AM_PACK_TYPE_FIVO then
       bindr (rd64 rx off_fivo_l1) (\<lambda>l1.
       bindr (call_fivo fp al junk g (drop off_fivo_data_in rx) l1 (drop off_resp_bytes resp)) (\<lambda>(st, g, b2, n).
       Inr (st, g, rx, take off_resp_bytes resp @ b2, n)))
     else if packType = ucast AM_PACK_ACTION then
       bindr (rd16 rx off_size) (\<lambda>sz.
       bindr (call_action fp al junk f (Some (drop off_action_data_in rx)) (ucast sz - of_nat sizeof_WRAPPER)) (\<lambda>(st, f').
       Inr (st, tbl_set g i (Live f'), rx, resp, Some (of_nat sizeof_WRAPPER))))
     else Inr (AM_RET_INVALID_PACK_OP, g, rx, resp, None))"

text \<open>The operator table has 64 entries; \<open>op\<close> is any byte.\<close>

definition op_entry :: "fn_ptr option list \<Rightarrow> UINT8 \<Rightarrow> fn_ptr option res" where
  "op_entry ops opc = (if unat opc < length ops then Inr (ops ! unat opc) else Inl OutOfBounds)"

definition run_func ::
  "alloc \<Rightarrow> (nat \<Rightarrow> UINT8) \<Rightarrow> targ \<Rightarrow> nat option \<Rightarrow> bytes \<Rightarrow> bytes \<Rightarrow> pack_res" where
  "run_func al junk g pFunc rx resp =
     (case pFunc of
        None \<Rightarrow> Inr (AM_RET_INVALID_FUNC, g, rx, resp, None)
      | Some i \<Rightarrow>
          bindr (tbl_get g i) (\<lambda>f.
          bindr (rd8 rx off_op) (\<lambda>opc.
          case fn_pfnOps f of
            None \<Rightarrow> Inl AssertFail
          | Some ops \<Rightarrow>
              bindr (op_entry ops opc) (\<lambda>entry.
              case entry of
                None \<Rightarrow> Inr (AM_RET_INVALID_OPCODE, g, rx, resp, None)
              | Some fp \<Rightarrow> dispatch al junk g i f fp opc rx resp))))"

definition error_resp :: "bytes \<Rightarrow> AM_RETURN \<Rightarrow> bytes res" where
  "error_resp resp error =
     bindr (rd8 resp off_packType) (\<lambda>t.
     bindr (wr8 resp off_packType (t OR AM_FUNC_PACK_TYPE_FLAG_ERR)) (\<lambda>resp.
     bindr (wr32 resp off_status error) (\<lambda>resp.
     wr16 resp off_size (ucast sizeof_RESP_ERR))))"

definition am_pack_process_cmd ::
  "alloc \<Rightarrow> (nat \<Rightarrow> UINT8) \<Rightarrow> targ \<Rightarrow> nat option \<Rightarrow> bytes \<Rightarrow> bytes \<Rightarrow>
   (AM_RETURN \<times> targ \<times> bytes \<times> bytes \<times> UINT32) res" where
  "am_pack_process_cmd al junk g pFunc rx resp =
     bindr (memcpy resp 0 rx 0 sizeof_WRAPPER) (\<lambda>resp.
     bindr (rd8 resp off_packType) (\<lambda>t.
     bindr (wr8 resp off_packType (t OR AM_FUNC_PACK_TYPE_FLAG_RESP)) (\<lambda>resp.
     bindr (run_func al junk g pFunc rx resp) (\<lambda>(error, g, rx, resp, tx).
     if error \<noteq> AM_RET_GOOD then
       bindr (error_resp resp error) (\<lambda>resp. Inr (error, g, rx, resp, sizeof_RESP_ERR))
     else
       case tx of
         None \<Rightarrow> Inl Uninit
       | Some tx_bytes \<Rightarrow>
           bindr (wr16 resp off_size (ucast tx_bytes)) (\<lambda>resp. Inr (error, g, rx, resp, tx_bytes))))))"

end
