(* ===== verification/AM_Packet.thy ===== *)
theory AM_Packet
  imports AM_Pack_Client
begin

text \<open>
  Packets as a wrapper followed by a payload: what the byte-wise reads and writes of the packet code do
  to a block of that form.
\<close>

named_theorems wrap_simps \<open>reads and writes of the wrapper of a packet\<close>

lemma le_enc_byte [simp]: "le_enc (Suc 0) (w :: UINT8) = [w]"
  by simp

lemma enc_wrapper_rd [wrap_simps]:
  "rd16 (enc_wrapper w @ p) off_func_id = Inr (w_func_id w)"
  "rd8 (enc_wrapper w @ p) off_packType = Inr (w_packType w)"
  "rd8 (enc_wrapper w @ p) off_op = Inr (w_op w)"
  "rd16 (enc_wrapper w @ p) off_appTag = Inr (w_appTag w)"
  "rd16 (enc_wrapper w @ p) off_size = Inr (w_size w)"
  by (simp_all add: enc_wrapper_def rd_defs rd_enc)

lemma enc_wrapper_wr [wrap_simps]:
  "wr16 (enc_wrapper w @ p) off_func_id f = Inr (enc_wrapper (w\<lparr>w_func_id := f\<rparr>) @ p)"
  "wr8 (enc_wrapper w @ p) off_packType t = Inr (enc_wrapper (w\<lparr>w_packType := t\<rparr>) @ p)"
  "wr8 (enc_wrapper w @ p) off_op opc = Inr (enc_wrapper (w\<lparr>w_op := opc\<rparr>) @ p)"
  "wr16 (enc_wrapper w @ p) off_appTag tg = Inr (enc_wrapper (w\<lparr>w_appTag := tg\<rparr>) @ p)"
  "wr16 (enc_wrapper w @ p) off_size s = Inr (enc_wrapper (w\<lparr>w_size := s\<rparr>) @ p)"
  by (simp_all add: enc_wrapper_def wr_defs putb_in_bounds)

lemma enc_wrapper_take_drop [wrap_simps]:
  "take sizeof_WRAPPER (enc_wrapper w @ p) = enc_wrapper w" "drop sizeof_WRAPPER (enc_wrapper w @ p) = p"
  "drop (sizeof_WRAPPER + k) (enc_wrapper w @ p) = drop k p"
  "take (sizeof_WRAPPER + k) (enc_wrapper w @ p) = enc_wrapper w @ take k p"
  by simp_all

lemma memcpy_wrapper [wrap_simps]:
  "sizeof_WRAPPER \<le> length b \<Longrightarrow>
     memcpy b 0 (enc_wrapper w @ p) 0 sizeof_WRAPPER = Inr (enc_wrapper w @ drop sizeof_WRAPPER b)"
  by (simp add: memcpy_def getb_def putb_def)

text \<open>Accesses to the payload.\<close>

lemma enc_wrapper_payload [wrap_simps]:
  "sizeof_WRAPPER \<le> o1 \<Longrightarrow> putb (enc_wrapper w @ p) o1 xs =
     bindr (putb p (o1 - sizeof_WRAPPER) xs) (\<lambda>p. Inr (enc_wrapper w @ p))"
  "sizeof_WRAPPER \<le> o1 \<Longrightarrow> getb (enc_wrapper w @ p) o1 n = getb p (o1 - sizeof_WRAPPER) n"
  by (auto simp: putb_def getb_def)

lemma enc_wrapper_payload32 [wrap_simps]:
  "sizeof_WRAPPER \<le> o1 \<Longrightarrow> rd32 (enc_wrapper w @ p) o1 = rd32 p (o1 - sizeof_WRAPPER)"
  "sizeof_WRAPPER \<le> o1 \<Longrightarrow> wr32 (enc_wrapper w @ p) o1 v =
     bindr (wr32 p (o1 - sizeof_WRAPPER) v) (\<lambda>p. Inr (enc_wrapper w @ p))"
  "sizeof_WRAPPER \<le> o1 \<Longrightarrow> rd64 (enc_wrapper w @ p) o1 = rd64 p (o1 - sizeof_WRAPPER)"
  "sizeof_WRAPPER \<le> o1 \<Longrightarrow> wr64 (enc_wrapper w @ p) o1 v64 =
     bindr (wr64 p (o1 - sizeof_WRAPPER) v64) (\<lambda>p. Inr (enc_wrapper w @ p))"
  by (simp_all add: rd_defs wr_defs rd_def enc_wrapper_payload)

text \<open>Every block of at least 8 bytes has this form.\<close>

lemma wrapper_cases:
  assumes "sizeof_WRAPPER \<le> length b"
  obtains w where "b = enc_wrapper w @ drop sizeof_WRAPPER b"
proof -
  define w where "w = \<lparr>w_func_id = le_dec (take 2 b), w_packType = b ! 2, w_op = b ! 3,
    w_appTag = le_dec (take 2 (drop 4 b)), w_size = le_dec (take 2 (drop 6 b))\<rparr>"
  have "enc_wrapper w = take 2 b @ [b ! 2, b ! 3] @ take 2 (drop 4 b) @ take 2 (drop 6 b)"
    using assms le_enc_dec [of "take 2 b", where 'a = 16] le_enc_dec [of "take 2 (drop 4 b)", where 'a = 16]
      le_enc_dec [of "take 2 (drop 6 b)", where 'a = 16]
    by (simp add: enc_wrapper_def w_def min_absorb2)
  also have "\<dots> = take 8 b"
  proof -
    have "take 8 b = take 2 b @ take 2 (drop 2 b) @ take 2 (drop 4 b) @ take 2 (drop 6 b)"
      by (simp add: take_add [of 2 6, simplified] take_add [of 2 4, simplified] take_add [of 2 2, simplified])
    moreover have "take 2 (drop 2 b) = [b ! 2, b ! 3]"
      using assms by (intro nth_equalityI) (auto simp: nth_Cons' less_Suc_eq numeral_2_eq_2 numeral_3_eq_3)
    ultimately show ?thesis by simp
  qed
  finally have "b = enc_wrapper w @ drop sizeof_WRAPPER b" by (metis append_take_drop_id)
  then show thesis by (rule that)
qed

lemma set_wrap_enc [wrap_simps]:
  "set_wrap (enc_wrapper w @ p) f t s opc =
     Inr (enc_wrapper \<lparr>w_func_id = f, w_packType = t, w_op = opc, w_appTag = w_appTag w, w_size = ucast s\<rparr> @ p)"
  by (cases w) (simp add: set_wrap_def wrap_simps)

end
