(* ===== verification/AM_Pack_Props.thy ===== *)
theory AM_Pack_Props
  imports AM_Pack AM_Packet
begin

text \<open>
  What the dispatcher answers. A request is a wrapper \<open>w\<close> with a payload; the response starts with the
  same wrapper, marked as a response and with a size of its own.
\<close>

definition resp_wrap :: "pack_wrapper \<Rightarrow> UINT32 \<Rightarrow> pack_wrapper" where
  "resp_wrap w n = w\<lparr>w_packType := w_packType w OR AM_FUNC_PACK_TYPE_FLAG_RESP, w_size := ucast n\<rparr>"

definition err_wrap :: "pack_wrapper \<Rightarrow> pack_wrapper" where
  "err_wrap w = w\<lparr>w_packType := w_packType w OR AM_FUNC_PACK_TYPE_FLAG_RESP OR AM_FUNC_PACK_TYPE_FLAG_ERR,
     w_size := ucast sizeof_RESP_ERR\<rparr>"

definition err_packet :: "pack_wrapper \<Rightarrow> AM_RETURN \<Rightarrow> bytes \<Rightarrow> bytes" where
  "err_packet w error rest = enc_wrapper (err_wrap w) @ le_enc 4 error @ rest"

section \<open>The frame of the dispatcher\<close>

text \<open>The response as \<open>run_func\<close> gets it.\<close>

definition resp_start :: "pack_wrapper \<Rightarrow> bytes \<Rightarrow> bytes" where
  "resp_start w resp =
     enc_wrapper (w\<lparr>w_packType := w_packType w OR AM_FUNC_PACK_TYPE_FLAG_RESP\<rparr>) @ drop sizeof_WRAPPER resp"

lemma process_cmd_run:
  assumes "sizeof_WRAPPER \<le> length resp"
  shows "am_pack_process_cmd al junk g pFunc (enc_wrapper w @ p) resp =
    bindr (run_func al junk g pFunc (enc_wrapper w @ p) (resp_start w resp)) (\<lambda>(error, g, rx, resp, tx).
      if error \<noteq> AM_RET_GOOD then
        bindr (error_resp resp error) (\<lambda>resp. Inr (error, g, rx, resp, sizeof_RESP_ERR))
      else
        case tx of
          None \<Rightarrow> Inl Uninit
        | Some n \<Rightarrow> bindr (wr16 resp off_size (ucast n)) (\<lambda>resp. Inr (error, g, rx, resp, n)))"
  using assms by (simp add: am_pack_process_cmd_def resp_start_def wrap_simps)

lemma error_resp_eq:
  assumes "4 \<le> length q"
  shows "error_resp (enc_wrapper (w\<lparr>w_packType := w_packType w OR AM_FUNC_PACK_TYPE_FLAG_RESP\<rparr>) @ q) error =
    Inr (err_packet w error (drop 4 q))"
  using assms
  by (simp add: error_resp_def wrap_simps wr32_def putb_def err_packet_def err_wrap_def or.assoc)

lemma process_cmd_error:
  assumes "12 \<le> length resp"
    and "run_func al junk g pFunc (enc_wrapper w @ p) (resp_start w resp) = Inr (error, g', rx', resp', tx)"
    and "error \<noteq> AM_RET_GOOD" "resp' = resp_start w (take sizeof_WRAPPER resp @ q)" "4 \<le> length q"
  shows "am_pack_process_cmd al junk g pFunc (enc_wrapper w @ p) resp =
    Inr (error, g', rx', err_packet w error (drop 4 q), sizeof_RESP_ERR)"
proof -
  have "resp' = enc_wrapper (w\<lparr>w_packType := w_packType w OR AM_FUNC_PACK_TYPE_FLAG_RESP\<rparr>) @ q"
    using assms(1,4) by (simp add: resp_start_def)
  then show ?thesis using assms(1-3,5) by (simp add: process_cmd_run error_resp_eq)
qed

lemma process_cmd_error_same:
  assumes "12 \<le> length resp"
    and "run_func al junk g pFunc (enc_wrapper w @ p) (resp_start w resp) = Inr (error, g', rx', resp_start w resp, tx)"
    and "error \<noteq> AM_RET_GOOD"
  shows "am_pack_process_cmd al junk g pFunc (enc_wrapper w @ p) resp =
    Inr (error, g', rx', err_packet w error (drop 12 resp), sizeof_RESP_ERR)"
  using process_cmd_error [OF assms(1,2,3), of "drop 8 resp"] assms(1) by simp

text \<open>A function object with an operator for the code of the request.\<close>

definition has_op :: "targ \<Rightarrow> nat \<Rightarrow> mem_func \<Rightarrow> UINT8 \<Rightarrow> fn_ptr option \<Rightarrow> bool" where
  "has_op g i f opc e \<longleftrightarrow> tbl_get g i = Inr f \<and>
     (\<exists>ops. fn_pfnOps f = Some ops \<and> unat opc < length ops \<and> ops ! unat opc = e)"

lemma run_func_Some:
  assumes "has_op g i f (w_op w) (Some fp)"
  shows "run_func al junk g (Some i) (enc_wrapper w @ p) resp = dispatch al junk g i f fp (w_op w) (enc_wrapper w @ p) resp"
  using assms by (auto simp: has_op_def run_func_def wrap_simps op_entry_def)

section \<open>Requests that are refused\<close>

text \<open>
  C31: A request for a function that does not exist, for an operator the function does not have, or of a
  packet type that does not exist, changes nothing in the target and is answered by the error packet of
  12 bytes with the status \<open>AM_RET_INVALID_FUNC\<close>, \<open>AM_RET_INVALID_OPCODE\<close> or \<open>AM_RET_INVALID_PACK_OP\<close>.
\<close>

theorem am_pack_refuses:
  assumes "12 \<le> length resp"
    and "pFunc = None \<and> error = AM_RET_INVALID_FUNC \<or>
      (\<exists>i f. pFunc = Some i \<and> has_op g i f (w_op w) None \<and> error = AM_RET_INVALID_OPCODE) \<or>
      (\<exists>i f fp. pFunc = Some i \<and> has_op g i f (w_op w) (Some fp) \<and> w_packType w \<notin> {1, 2, 3, 4, 5} \<and>
         error = AM_RET_INVALID_PACK_OP)"
  shows "am_pack_process_cmd al junk g pFunc (enc_wrapper w @ p) resp =
    Inr (error, g, enc_wrapper w @ p, err_packet w error (drop 12 resp), sizeof_RESP_ERR)"
proof -
  have "run_func al junk g pFunc (enc_wrapper w @ p) (resp_start w resp) =
      Inr (error, g, enc_wrapper w @ p, resp_start w resp, None)" and "error \<noteq> 0"
    using assms(2) run_func_Some [of g _ _ w _ al junk p "resp_start w resp"]
    by (auto simp: run_func_def has_op_def wrap_simps op_entry_def dispatch_def)
  then show ?thesis using process_cmd_error_same [OF assms(1)] by blast
qed

lemma am_pack_refuses_witness:
  "am_pack_process_cmd (\<lambda>_. True) (\<lambda>_. 0) \<lparr>tg_table = [], tg_reg = []\<rparr> None
     (enc_wrapper \<lparr>w_func_id = 7, w_packType = 3, w_op = 0x11, w_appTag = 1, w_size = 12\<rparr> @ [0, 0, 0, 0])
     (replicate 12 0) =
   Inr (6, \<lparr>tg_table = [], tg_reg = []\<rparr>,
     enc_wrapper \<lparr>w_func_id = 7, w_packType = 3, w_op = 0x11, w_appTag = 1, w_size = 12\<rparr> @ [0, 0, 0, 0],
     err_packet \<lparr>w_func_id = 7, w_packType = 3, w_op = 0x11, w_appTag = 1, w_size = 12\<rparr> 6 [], 12)"
  using am_pack_refuses [of "replicate 12 0" None 6 "\<lparr>tg_table = [], tg_reg = []\<rparr>"
      "\<lparr>w_func_id = 7, w_packType = 3, w_op = 0x11, w_appTag = 1, w_size = 12\<rparr>" "\<lambda>_. True" "\<lambda>_. 0" "[0, 0, 0, 0]"]
  by simp

text \<open>
  The operator table has 64 entries and the code of the request is any byte: a code from 64 on reads
  past the table.
\<close>

theorem am_pack_op_unbounded:
  assumes "tbl_get g i = Inr f" "fn_pfnOps f = Some ops" "length ops = AM_OP_MAX_OPS"
    and "AM_OP_MAX_OPS \<le> unat (w_op w)" "sizeof_WRAPPER \<le> length resp"
  shows "am_pack_process_cmd al junk g (Some i) (enc_wrapper w @ p) resp = Inl OutOfBounds"
  using assms by (simp add: process_cmd_run run_func_def wrap_simps op_entry_def)

lemma am_pack_op_unbounded_witness:
  "am_pack_process_cmd (\<lambda>_. True) (\<lambda>_. 0)
     \<lparr>tg_table = [Live (zero_func\<lparr>fn_pfnOps := Some zero_ops\<rparr>)], tg_reg = []\<rparr> (Some 0)
     (enc_wrapper \<lparr>w_func_id = 0xFFFA, w_packType = 1, w_op = 64, w_appTag = 1, w_size = 8\<rparr> @ [])
     (replicate 512 0) = Inl OutOfBounds"
  by (rule am_pack_op_unbounded [of _ _ "zero_func\<lparr>fn_pfnOps := Some zero_ops\<rparr>" zero_ops])
     (simp_all add: tbl_get_def zero_ops_def)

section \<open>Requests without data\<close>

lemma process_cmd_good:
  assumes "sizeof_WRAPPER \<le> length resp"
    and "run_func al junk g pFunc (enc_wrapper w @ p) (resp_start w resp) =
      Inr (AM_RET_GOOD, g', rx', enc_wrapper (w\<lparr>w_packType := w_packType w OR AM_FUNC_PACK_TYPE_FLAG_RESP\<rparr>) @ q, Some n)"
  shows "am_pack_process_cmd al junk g pFunc (enc_wrapper w @ p) resp =
    Inr (AM_RET_GOOD, g', rx', enc_wrapper (resp_wrap w n) @ q, n)"
  using assms by (simp add: process_cmd_run wrap_simps resp_wrap_def)

lemma run_op_only:
  assumes "has_op g i f (w_op w) (Some fp)" "w_packType w = 1"
  shows "run_func al junk g (Some i) (enc_wrapper w @ p) resp =
    bindr (call_op_only fp resp) (\<lambda>(st, resp, n). Inr (st, g, enc_wrapper w @ p, resp, n))"
  using assms by (simp add: run_func_Some dispatch_def wrap_simps)

text \<open>
  An identify request is answered by 16 bytes: the type \<open>0xBBBB\<close> and the version of the program.
\<close>

theorem am_pack_identify:
  assumes "has_op g i f (w_op w) (Some Fn_targ_identify_resp)" "w_packType w = 1" "16 \<le> length resp"
  shows "am_pack_process_cmd al junk g (Some i) (enc_wrapper w @ p) resp =
    Inr (AM_RET_GOOD, g, enc_wrapper w @ p,
      enc_wrapper (resp_wrap w 16) @ le_enc 4 (0xBBBB :: UINT32) @ enc_version AM_VERSION @ drop 16 resp, 16)"
proof -
  have "run_func al junk g (Some i) (enc_wrapper w @ p) (resp_start w resp) =
      Inr (AM_RET_GOOD, g, enc_wrapper w @ p, enc_wrapper (w\<lparr>w_packType := w_packType w OR AM_FUNC_PACK_TYPE_FLAG_RESP\<rparr>) @
        le_enc 4 (0xBBBB :: UINT32) @ enc_version AM_VERSION @ drop 16 resp, Some 16)"
    using run_op_only [OF assms(1,2)] assms(3)
    by (simp add: am_targ_identify_resp_def resp_start_def wrap_simps wr32_def putb_in_bounds enc_version_def)
  then show ?thesis using process_cmd_good [of resp] assms(3) by simp
qed

text \<open>A target with one function, which has one operator.\<close>

definition one_op :: "nat \<Rightarrow> fn_ptr \<Rightarrow> targ" where
  "one_op k e = \<lparr>tg_table = [Live (zero_func\<lparr>fn_pfnOps := Some (zero_ops[k := Some e])\<rparr>)], tg_reg = []\<rparr>"

lemma one_op_has: "unat opc < 64 \<Longrightarrow>
  has_op (one_op (unat opc) e) 0 (zero_func\<lparr>fn_pfnOps := Some (zero_ops[unat opc := Some e])\<rparr>) opc (Some e)"
  by (simp add: has_op_def one_op_def tbl_get_def zero_ops_def)

lemma am_pack_identify_witness:
  "am_pack_process_cmd (\<lambda>_. True) (\<lambda>_. 0) (one_op 1 Fn_targ_identify_resp) (Some 0)
     (enc_wrapper \<lparr>w_func_id = 0xFFFA, w_packType = 1, w_op = 1, w_appTag = 1, w_size = 8\<rparr> @ []) (replicate 16 0) =
   Inr (0, one_op 1 Fn_targ_identify_resp,
     enc_wrapper \<lparr>w_func_id = 0xFFFA, w_packType = 1, w_op = 1, w_appTag = 1, w_size = 8\<rparr> @ [],
     enc_wrapper (resp_wrap \<lparr>w_func_id = 0xFFFA, w_packType = 1, w_op = 1, w_appTag = 1, w_size = 8\<rparr> 16) @
       le_enc 4 (0xBBBB :: UINT32) @ enc_version AM_VERSION @ drop 16 (replicate 16 0), 16)"
  using one_op_has [of 1 Fn_targ_identify_resp] by (intro am_pack_identify) simp_all

text \<open>
  A release or a close request reads \<open>tx_bytes\<close>, which neither operator sets: the target has no
  defined answer to it.
\<close>

theorem am_pack_release_uninit:
  assumes "has_op g i f (w_op w) (Some fp)" "fp = Fn_targ_release \<or> fp = Fn_targ_close"
    and "w_packType w = 1" "sizeof_WRAPPER \<le> length resp"
  shows "am_pack_process_cmd al junk g (Some i) (enc_wrapper w @ p) resp = Inl Uninit"
  using assms(2) run_op_only [OF assms(1,3)] assms(4)
  by (auto simp: process_cmd_run am_targ_release_def am_targ_close_def)

lemma am_pack_release_uninit_witness:
  "am_pack_process_cmd (\<lambda>_. True) (\<lambda>_. 0) (one_op 5 Fn_targ_release) (Some 0)
     (enc_wrapper \<lparr>w_func_id = 0xAA00, w_packType = 1, w_op = 5, w_appTag = 1, w_size = 8\<rparr> @ []) (replicate 16 0) = Inl Uninit"
  using one_op_has [of 5 Fn_targ_release]
  by (intro am_pack_release_uninit [where fp = Fn_targ_release, OF _ disjI1 [OF refl]]) simp_all

end
