(* ===== verification/AM_Caps_Props.thy ===== *)
theory AM_Caps_Props
  imports AM_Virtd AM_Pack_Props
begin

text \<open>
  What a client learns about the device: the capabilities, one per registered type, and their encoding.
\<close>

section \<open>Encodings\<close>

text \<open>
  An operator word has its packet type and its code in separate fields: both are read back, and the
  two tests on the type tell aligned from packed operators.
\<close>

theorem op_word_fields:
  assumes "pack AND 0x3F = pack" "opc AND 0xFF = opc"
  shows "AM_NET_GET_PACKTYPE (op_word pack opc) = pack \<and> AM_OPCODE (op_word pack opc) = opc \<and>
    op_word pack opc = AM_SET_PACKTYPE pack opc \<and>
    IS_OP_ALIGNED (op_word pack opc) = (pack = AM_PACK_ALIGN) \<and> IS_OP_PACKET (op_word pack opc) = (pack = AM_KPACK)"
proof -
  have d: "drop_bit 16 opc = 0"
  proof -
    have "drop_bit 16 opc = drop_bit 16 (opc AND 0xFF)" using assms(2) by simp
    also have "\<dots> = drop_bit 16 opc AND drop_bit 16 0xFF" by (rule drop_bit_and)
    also have "drop_bit 16 (0xFF :: UINT32) = 0" by simp
    finally show ?thesis by simp
  qed
  have p: "drop_bit 16 (push_bit 16 pack) AND 0x3F = pack"
  proof -
    have m: "mask 6 = (0x3F :: UINT32)" by (simp add: mask_eq_exp_minus_1)
    have "drop_bit 16 (push_bit 16 (pack AND mask 6)) = pack AND mask 6"
      by (rule bit_word_eqI) (auto simp: bit_simps)
    then have "drop_bit 16 (push_bit 16 (pack AND 0x3F)) = pack AND 0x3F" unfolding m .
    then show ?thesis using assms(1) by simp
  qed
  have t: "AM_NET_GET_PACKTYPE (op_word pack opc) = pack"
    using p by (simp add: AM_NET_GET_PACKTYPE_def op_word_def drop_bit_or d)
  have m8: "mask 8 = (0xFF :: UINT32)" by (simp add: mask_eq_exp_minus_1)
  have "push_bit 16 pack AND mask 8 = 0" by (rule bit_word_eqI) (auto simp: bit_simps)
  then have o1: "push_bit 16 pack AND 0xFF = 0" unfolding m8 .
  have "AM_OPCODE (op_word pack opc) = opc"
    using assms(2) o1 by (simp add: AM_OPCODE_def op_word_def bit.conj_disj_distrib and.commute)
  then show ?thesis using t op_word_packtype [OF assms] by (auto simp: IS_OP_ALIGNED_def IS_OP_PACKET_def)
qed

lemma op_word_fields_witness:
  "AM_NET_GET_PACKTYPE (op_word AM_PACK_ACTION AM_OP_SORT) = AM_PACK_ACTION \<and> AM_OPCODE (op_word AM_PACK_ACTION AM_OP_SORT) = AM_OP_SORT"
proof -
  have "AM_PACK_ACTION AND 0x3F = AM_PACK_ACTION" "AM_OP_SORT AND 0xFF = AM_OP_SORT" by simp_all
  from op_word_fields [OF this] show ?thesis by blast
qed

section \<open>Capabilities\<close>

text \<open>The capabilities of the types \<open>i\<close> to \<open>i + n - 1\<close> that are registered with one.\<close>

fun caps_from :: "nat \<Rightarrow> nat \<Rightarrow> registry \<Rightarrow> mem_cap list" where
  "caps_from 0 i reg = []"
| "caps_from (Suc n) i reg =
     (case (if i = 0 then Some virtd_base_cap else Option.bind (reg ! i) fe_pCap) of
        Some c \<Rightarrow> [c] | None \<Rightarrow> []) @ caps_from n (Suc i) reg"

definition enc_caps :: "mem_cap list \<Rightarrow> bytes" where
  "enc_caps cs = concat (map enc_mem_cap cs)"

lemma length_enc_caps: "\<forall>c\<in>set cs. wf_cap c \<Longrightarrow> length (enc_caps cs) = sizeof_MEM_CAP * length cs"
  by (induction cs) (simp_all add: enc_caps_def length_enc_mem_cap)

lemma copy_caps_ok:
  assumes "\<forall>c\<in>set (caps_from n i reg). wf_cap c" "off \<le> length b"
  shows "copy_caps n i reg b off =
    (if off + sizeof_MEM_CAP * length (caps_from n i reg) \<le> length b
     then Inr (take off b @ enc_caps (caps_from n i reg) @ drop (off + sizeof_MEM_CAP * length (caps_from n i reg)) b)
     else Inl OutOfBounds)"
  using assms
proof (induction n arbitrary: i b off)
  case 0
  then show ?case by (simp add: enc_caps_def)
next
  case (Suc n)
  let ?c = "if i = 0 then Some virtd_base_cap else Option.bind (reg ! i) fe_pCap"
  show ?case
  proof (cases ?c)
    case None
    have "copy_caps (Suc n) i reg b off = copy_caps n (Suc i) reg b off" using None by (simp only: copy_caps.simps option.case)
    moreover have "caps_from (Suc n) i reg = caps_from n (Suc i) reg" using None by (simp only: caps_from.simps option.case append_Nil)
    ultimately show ?thesis using Suc by simp
  next
    case (Some c)
    have cf: "caps_from (Suc n) i reg = c # caps_from n (Suc i) reg"
      using Some by (simp only: caps_from.simps option.case append_Cons append_Nil)
    have cc: "copy_caps (Suc n) i reg b off =
        bindr (putb b off (enc_mem_cap c)) (\<lambda>b. copy_caps n (Suc i) reg b (off + sizeof_MEM_CAP))"
      using Some by (simp only: copy_caps.simps option.case)
    have l: "length (enc_mem_cap c) = 168" using Suc.prems(1) length_enc_mem_cap unfolding cf by simp
    show ?thesis
    proof (cases "off + 168 \<le> length b")
      case True
      have "copy_caps n (Suc i) reg (take off b @ enc_mem_cap c @ drop (off + 168) b) (off + 168) =
        (if off + 168 + 168 * length (caps_from n (Suc i) reg) \<le> length b
         then Inr (take off b @ enc_mem_cap c @ enc_caps (caps_from n (Suc i) reg) @
           drop (off + 168 + 168 * length (caps_from n (Suc i) reg)) b)
         else Inl OutOfBounds)"
        using Suc.IH [of "Suc i" "off + 168" "take off b @ enc_mem_cap c @ drop (off + 168) b"] Suc.prems(1) True l
        unfolding cf by (simp add: add.commute)
      then show ?thesis using True l unfolding cc cf by (simp add: putb_in_bounds enc_caps_def ac_simps)
    next
      case False
      then show ?thesis using l unfolding cc cf by (simp add: putb_out_of_bounds)
    qed
  qed
qed

text \<open>A registry whose capabilities are well formed.\<close>

definition reg_ok :: "registry \<Rightarrow> bool" where
  "reg_ok reg \<longleftrightarrow> (\<forall>fe c. Some fe \<in> set reg \<and> fe_pCap fe = Some c \<longrightarrow> wf_cap c) \<and> length reg = MAX_VIRTD_DEVICE_FUNCTIONS"

lemma caps_from_wf:
  assumes "reg_ok reg"
  shows "i + n \<le> MAX_VIRTD_DEVICE_FUNCTIONS \<Longrightarrow> \<forall>c\<in>set (caps_from n i reg). wf_cap c"
proof (induction n arbitrary: i)
  case (Suc n)
  have "wf_cap c" if ic: "(if i = 0 then Some virtd_base_cap else Option.bind (reg ! i) fe_pCap) = Some c" for c
  proof (cases "i = 0")
    case True
    then show ?thesis using ic by (auto simp: virtd_base_cap_def)
  next
    case False
    then obtain fe where "reg ! i = Some fe" "fe_pCap fe = Some c" using ic by (auto simp: bind_eq_Some_conv)
    moreover have "reg ! i \<in> set reg" using assms Suc.prems by (simp add: reg_ok_def)
    ultimately show ?thesis using assms unfolding reg_ok_def by metis
  qed
  then show ?case using Suc.IH [of "Suc i"] Suc.prems by (auto split: option.splits if_splits)
qed simp

abbreviation caps_of :: "UINT32 \<Rightarrow> registry \<Rightarrow> mem_cap list" where
  "caps_of cnt reg \<equiv> caps_from (min (unat cnt) 5) 0 reg"

lemma copy_caps_request:
  assumes "reg_ok reg" "cnt \<noteq> 0"
  shows "copy_caps (min (unat cnt) (unat (cap_subType virtd_base_cap))) 0 reg b 0 =
    (if sizeof_MEM_CAP * length (caps_of cnt reg) \<le> length b
     then Inr (enc_caps (caps_of cnt reg) @ drop (sizeof_MEM_CAP * length (caps_of cnt reg)) b) else Inl OutOfBounds)"
proof -
  have "unat (cap_subType virtd_base_cap) = 5" by (simp add: virtd_base_cap_def mk_cap_def)
  moreover have "\<forall>c\<in>set (caps_of cnt reg). wf_cap c" by (rule caps_from_wf [OF assms(1)]) simp
  ultimately show ?thesis using copy_caps_ok [of "min (unat cnt) 5" 0 reg 0 b] by simp
qed

text \<open>
  The in-process device writes, in the order of the types, the capability of the base and of every
  registered type, as many as asked for and at most five, into the client's block, and nothing behind
  them; a block too small for them is overrun.
\<close>

theorem am_virtd_get_capabilities_lists:
  assumes "reg_ok (vd_reg v)" "cnt \<noteq> 0"
  shows "am_virtd_get_capabilities v (Some b) cnt =
    (if sizeof_MEM_CAP * length (caps_of cnt (vd_reg v)) \<le> length b
     then Inr (AM_RET_GOOD, Some (enc_caps (caps_of cnt (vd_reg v)) @ drop (sizeof_MEM_CAP * length (caps_of cnt (vd_reg v))) b))
     else Inl OutOfBounds)"
  using copy_caps_request [OF assms, of b] assms(2) by (simp add: am_virtd_get_capabilities_def)

lemma le_dec_append: "le_dec (xs @ ys) = le_dec xs OR push_bit (8 * length xs) (le_dec ys :: 'a::len word)"
  by (induction xs) (simp_all add: push_bit_or or.assoc add.commute)

lemma ucast_le_dec: "LENGTH('b) \<le> LENGTH('a) \<Longrightarrow> (ucast (le_dec bs :: 'a::len word) :: 'b::len word) = le_dec bs"
proof (induction bs)
  case (Cons b bs)
  have "(ucast (ucast b OR push_bit 8 (le_dec bs) :: 'a word) :: 'b word) = ucast b OR push_bit 8 (ucast (le_dec bs :: 'a word))"
    using Cons.prems by (intro bit_word_eqI) (auto simp: bit_simps)
  then show ?case using Cons by simp
qed simp

text \<open>
  C33: The target answers the same list, from offset 8 of the response. Three capabilities fill the packet: with four of
  them registered and asked for it writes past its buffer. The number of bytes it sends is 168 times the
  number asked for, whatever it wrote, and leaves out the 8 bytes of the wrapper.
\<close>

theorem am_pack_get_cap:
  assumes "reg_ok (tg_reg g)" "has_op g i f (w_op w) (Some Fn_targ_get_cap)" "w_packType w = 2"
    and "length resp = MAX_BASIC_PACK_UNION_SIZE" "length l1 = 8" "cnt \<noteq> 0"
  shows "am_pack_process_cmd al junk g (Some i) (enc_wrapper w @ l1 @ le_enc 4 cnt @ le_enc 4 (u :: UINT32) @ e) resp =
    (if length (caps_of cnt (tg_reg g)) \<le> 3
     then Inr (AM_RET_GOOD, g, enc_wrapper w @ l1 @ le_enc 4 cnt @ le_enc 4 u @ e,
       enc_wrapper (resp_wrap w (168 * cnt)) @ enc_caps (caps_of cnt (tg_reg g)) @
         drop (8 + 168 * length (caps_of cnt (tg_reg g))) resp, 168 * cnt)
     else Inl OutOfBounds)"
proof -
  let ?p = "l1 @ le_enc 4 cnt @ le_enc 4 u @ e" and ?cs = "caps_of cnt (tg_reg g)"
  have v: "rd64 (le_enc 4 cnt @ le_enc 4 u @ e) 0 = Inr (le_dec (le_enc 4 cnt @ le_enc 4 u))"
    by (simp add: rd64_def rd_def getb_def)
  have hi: "push_bit 32 x = 0" for x :: UINT32
    by (rule bit_word_eqI) (auto simp: bit_simps)
  have c: "(ucast (le_dec (le_enc 4 cnt @ le_enc 4 u) :: UINT64) :: UINT32) = cnt"
    by (subst ucast_le_dec) (simp_all add: le_dec_append hi del: push_bit_numeral)
  have copy: "am_targ_get_cap g (le_enc 4 cnt @ le_enc 4 u @ e) l (drop 8 resp) =
    (if length ?cs \<le> 3 then Inr (AM_RET_GOOD, enc_caps ?cs @ drop (8 + 168 * length ?cs) resp, Some (168 * cnt)) else Inl OutOfBounds)" for l
  proof -
    have "168 * length ?cs \<le> length (drop 8 resp) \<longleftrightarrow> length ?cs \<le> 3" using assms(4) by simp
    then show ?thesis
      using copy_caps_request [OF assms(1,6), of "drop 8 resp"] v c by (simp add: am_targ_get_cap_def Let_def mult.commute add.commute)
  qed
  have l1: "\<exists>x. rd64 ?p 0 = Inr x" using assms(5) by (simp add: rd64_def rd_in_bounds)
  then obtain x where x: "rd64 ?p 0 = Inr x" by blast
  have run: "run_func al junk g (Some i) (enc_wrapper w @ ?p) (resp_start w resp) =
    (if length ?cs \<le> 3 then Inr (AM_RET_GOOD, g, enc_wrapper w @ ?p,
        enc_wrapper (w\<lparr>w_packType := w_packType w OR AM_FUNC_PACK_TYPE_FLAG_RESP\<rparr>) @
          enc_caps ?cs @ drop (8 + 168 * length ?cs) resp, Some (168 * cnt)) else Inl OutOfBounds)"
    using run_func_Some [OF assms(2), of al junk ?p "resp_start w resp"] assms(3,5) x copy
    by (simp add: dispatch_def wrap_simps resp_start_def)
  show ?thesis
  proof (cases "length ?cs \<le> 3")
    case True
    then show ?thesis using process_cmd_good [of resp al junk g "Some i" w ?p] run assms(4) by simp
  next
    case False
    then show ?thesis using process_cmd_run [of resp al junk g "Some i" w ?p] run assms(4) by simp
  qed
qed

text \<open>The registry with all five entries, and a target with it.\<close>

definition full_registry :: registry where
  "full_registry = [Some am_base_function_entry, Some flat_function_entry, Some stata_function_entry,
     Some assca_function_entry, Some list_function_entry] @ replicate 95 None"

lemma full_registry_ok: "reg_ok full_registry"
  by (auto simp: reg_ok_def full_registry_def am_base_function_entry_def flat_function_entry_def stata_function_entry_def
      assca_function_entry_def list_function_entry_def virtd_base_cap_def flat_caps_def stata_caps_def assca_caps_def list_caps_def)

lemma full_registry_caps:
  "caps_from 5 0 full_registry = [virtd_base_cap, flat_caps, stata_caps, assca_caps, list_caps]"
  "caps_from 2 0 full_registry = [virtd_base_cap, flat_caps]"
  by (simp_all add: numeral_eq_Suc full_registry_def am_base_function_entry_def flat_function_entry_def stata_function_entry_def
      assca_function_entry_def list_function_entry_def)

lemma am_virtd_get_capabilities_lists_witness:
  "am_virtd_get_capabilities \<lparr>vd_reg = full_registry, vd_minor = 0\<rparr> (Some (replicate 840 0)) 7 =
     Inr (0, Some (enc_caps [virtd_base_cap, flat_caps, stata_caps, assca_caps, list_caps])) \<and>
   am_virtd_get_capabilities \<lparr>vd_reg = full_registry, vd_minor = 0\<rparr> (Some (replicate 839 0)) 7 = Inl OutOfBounds"
proof -
  have r: "reg_ok (vd_reg \<lparr>vd_reg = full_registry, vd_minor = 0\<rparr>)" using full_registry_ok by simp
  have "(7 :: UINT32) \<noteq> 0" by simp
  note t = am_virtd_get_capabilities_lists [OF r this]
  show ?thesis unfolding t by (simp add: full_registry_caps)
qed

definition caps_target :: targ where
  "caps_target = \<lparr>tg_table = [Live (zero_func\<lparr>fn_pfnOps := Some (zero_ops[3 := Some Fn_targ_get_cap])\<rparr>)], tg_reg = full_registry\<rparr>"

lemma am_pack_get_cap_witness:
  "am_pack_process_cmd (\<lambda>_. True) (\<lambda>_. 0) caps_target (Some 0)
     (enc_wrapper \<lparr>w_func_id = 0xFFFA, w_packType = 2, w_op = 3, w_appTag = 1, w_size = 24\<rparr> @
       replicate 8 0 @ le_enc 4 (5 :: UINT32) @ le_enc 4 (0 :: UINT32) @ []) (replicate 512 0) = Inl OutOfBounds"
proof -
  let ?w = "\<lparr>w_func_id = 0xFFFA, w_packType = 2, w_op = 3, w_appTag = 1, w_size = 24\<rparr>"
  have r: "reg_ok (tg_reg caps_target)" using full_registry_ok by (simp add: caps_target_def)
  have o1: "has_op caps_target 0 (zero_func\<lparr>fn_pfnOps := Some (zero_ops[3 := Some Fn_targ_get_cap])\<rparr>) (w_op ?w) (Some Fn_targ_get_cap)"
    by (simp add: has_op_def caps_target_def tbl_get_def zero_ops_def)
  have "length (caps_of 5 (tg_reg caps_target)) = 5" using full_registry_caps(1) by (simp add: caps_target_def)
  then show ?thesis
    using am_pack_get_cap [OF r o1, of "replicate 512 0" "replicate 8 0" 5 "\<lambda>_. True" "\<lambda>_. 0" 0 "[]"] by simp
qed

end
