(* ===== verification/AM_Queue.thy ===== *)
theory AM_Queue
  imports AM_Types
begin

text \<open>
  The queue of received packets, \<open>AM_PACK_QUEUE_T\<close> and \<open>AM_REC_CMD_T\<close> of \<^verbatim>\<open>inc/appmemlib.h\<close> with
  the functions of \<^verbatim>\<open>am_targ/am_target.c\<close> lines 80 to 276. The receive thread fills the packet at
  \<open>rx_pi\<close>, the main thread serves the one at \<open>rx_ci\<close>.

  A command points to the packet buffer of its own index, so \<open>pRxBuf\<close> is that index into the array
  of buffers. \<open>'c\<close> is the type of client addresses; \<open>rc_client\<close> is \<open>None\<close> if \<open>pvClient\<close> is null, and
  \<open>Some None\<close> as long as the object behind it was never written.
\<close>

abbreviation (input) RX_CMD_STATE_FREE :: UINT32 where "RX_CMD_STATE_FREE \<equiv> 0"
abbreviation (input) RX_CMD_STATE_ACTIVE :: UINT32 where "RX_CMD_STATE_ACTIVE \<equiv> 1"
abbreviation (input) RX_CMD_STATE_CONT_BUF_2 :: UINT32 where "RX_CMD_STATE_CONT_BUF_2 \<equiv> 2"

record 'c rec_cmd =
  rc_pRxBuf :: nat
  rc_client :: "'c option option"
  rc_recv_len :: UINT32
  rc_state :: UINT32
  rc_idx :: UINT32
  rc_buf_count :: UINT32
  rc_next :: "nat option"

record 'c pack_queue =
  q_pRxCmd :: "'c rec_cmd list"
  q_pRxBuf :: "bytes list"
  q_pTxBuf :: "bytes list"
  q_size :: UINT32
  q_rx_ci :: UINT32
  q_rx_pi :: UINT32
  q_tx_ci :: UINT32
  q_tx_pi :: UINT32

section \<open>Initialisation\<close>

definition init_cmd :: "nat \<Rightarrow> bool \<Rightarrow> nat \<Rightarrow> 'c rec_cmd" where
  "init_cmd pack_count client i =
     \<lparr>rc_pRxBuf = i, rc_client = (if client then Some None else None), rc_recv_len = 0,
      rc_state = RX_CMD_STATE_FREE, rc_idx = of_nat i, rc_buf_count = 0,
      rc_next = (if i < pack_count - 1 then Some (Suc i) else None)\<rparr>"

text \<open>
  \<open>al 0\<close>, \<open>al 1\<close> and \<open>al 2\<close> are the three arrays, \<open>al (3 + i)\<close> the client address of command \<open>i\<close>,
  which is not checked, and the last allocation is that of the queue.
\<close>

definition am_init_pack_queue :: "alloc \<Rightarrow> UINT32 \<Rightarrow> 'c pack_queue option" where
  "am_init_pack_queue al pack_count =
     (let n = unat pack_count in
      if al 1 \<and> al 0 \<and> al 2 then
        let pRxCmd = map (\<lambda>i. init_cmd n (al (3 + i)) i) [0..<n] in
        if al (3 + n) then
          Some \<lparr>q_pRxCmd = pRxCmd, q_pRxBuf = replicate n (replicate MAX_BASIC_PACK_UNION_SIZE 0),
                q_pTxBuf = replicate n (replicate MAX_BASIC_PACK_UNION_SIZE 0), q_size = pack_count,
                q_rx_ci = 0, q_rx_pi = 0, q_tx_ci = 0, q_tx_pi = 0\<rparr>
        else None
      else None)"

section \<open>Buffers\<close>

definition am_get_pack_resp_buf :: "'c pack_queue \<Rightarrow> (nat \<times> UINT32)" where
  "am_get_pack_resp_buf q = (unat (q_tx_pi q), of_nat MAX_BASIC_PACK_UNION_SIZE)"

definition am_get_pack_queue_buf :: "'c pack_queue \<Rightarrow> (nat \<times> UINT32)" where
  "am_get_pack_queue_buf q = (unat (q_rx_pi q), of_nat MAX_BASIC_PACK_UNION_SIZE)"

definition nth_res :: "'a list \<Rightarrow> nat \<Rightarrow> 'a res" where
  "nth_res xs i = (if i < length xs then Inr (xs ! i) else Inl OutOfBounds)"

lemma nth_res_Inr [res_simps]: "nth_res xs i = Inr x \<longleftrightarrow> i < length xs \<and> x = xs ! i"
  by (auto simp: nth_res_def)

lemma nth_res_in [simp]: "i < length xs \<Longrightarrow> nth_res xs i = Inr (xs ! i)"
  by (simp add: nth_res_def)

section \<open>Advancing the producer\<close>

definition pack_inc_size :: "UINT32 \<Rightarrow> UINT32" where
  "pack_inc_size recv_len =
     (if recv_len mod of_nat MAX_BASIC_PACK_UNION_SIZE \<noteq> 0
      then recv_len div of_nat MAX_BASIC_PACK_UNION_SIZE + 1
      else recv_len div of_nat MAX_BASIC_PACK_UNION_SIZE)"

text \<open>The loop that marks the following commands stays at the first of them.\<close>

function mark_cont :: "nat \<Rightarrow> 'c rec_cmd list \<Rightarrow> nat option \<Rightarrow> nat \<Rightarrow> 'c rec_cmd list" where
  "mark_cont inc_size cmds pCmdNext i =
     (case pCmdNext of
        Some k \<Rightarrow>
          if i < inc_size then
            mark_cont inc_size
              (cmds[k := (cmds ! k)\<lparr>rc_state := RX_CMD_STATE_CONT_BUF_2 + of_nat (i - 1)\<rparr>]) pCmdNext (i + 1)
          else cmds
      | None \<Rightarrow> cmds)"
  by pat_completeness auto
termination
  by (relation "measure (\<lambda>(n, _, _, i). n - i)") auto

declare mark_cont.simps [simp del]

definition set_cmd :: "'c pack_queue \<Rightarrow> nat \<Rightarrow> 'c rec_cmd \<Rightarrow> 'c pack_queue" where
  "set_cmd q k c = q\<lparr>q_pRxCmd := (q_pRxCmd q)[k := c]\<rparr>"

text \<open>\<open>k\<close> is the index of \<open>pRxCmd\<close> in the array of commands.\<close>

definition am_update_pack_queue_rx_idx :: "'c pack_queue \<Rightarrow> nat \<Rightarrow> (AM_RETURN \<times> 'c pack_queue) res" where
  "am_update_pack_queue_rx_idx q k =
     bindr (nth_res (q_pRxCmd q) k) (\<lambda>c.
     bindr (AM_ASSERT (rc_idx c = q_rx_pi q)) (\<lambda>_.
     if rc_recv_len c \<noteq> 0 then
       let inc_size = pack_inc_size (rc_recv_len c);
           q = q\<lparr>q_rx_pi := q_rx_pi q + inc_size\<rparr>;
           c = c\<lparr>rc_buf_count := inc_size\<rparr>;
           q = set_cmd q k c
       in
       if q_size q < q_rx_pi q then Inr (AM_RET_Q_OVERFLOW, q)
       else
         let q = set_cmd q k (c\<lparr>rc_state := RX_CMD_STATE_ACTIVE\<rparr>) in
         bindr (if 1 < inc_size then
                  let q = q\<lparr>q_pRxCmd := mark_cont (unat inc_size) (q_pRxCmd q) (rc_next c) 1\<rparr> in
                  bindr (AM_ASSERT False) (\<lambda>_. Inr q)
                else Inr q) (\<lambda>q.
         Inr (AM_RET_GOOD, if q_rx_pi q = q_size q then q\<lparr>q_rx_pi := 0\<rparr> else q))
     else bindr (AM_ASSERT False) (\<lambda>_. Inr (AM_RET_GOOD, q))))"

section \<open>Receiving and serving one packet\<close>

text \<open>
  One pass of the receive thread (lines 660 to 708). \<open>dgram\<close> is what the socket delivers: nothing (an
  error or a timeout), or a datagram and its sender, cut to the buffer. The buffer keeps what it held
  behind a shorter datagram.
\<close>

definition am_targ_recv :: "'c pack_queue \<Rightarrow> (bytes \<times> 'c) option \<Rightarrow> 'c pack_queue res" where
  "am_targ_recv q dgram =
     (let (k, max_len_bytes) = am_get_pack_queue_buf q in
      bindr (nth_res (q_pRxCmd q) k) (\<lambda>c.
      bindr (AM_ASSERT (rc_client c \<noteq> None)) (\<lambda>_.
      case dgram of
        None \<Rightarrow> Inr q
      | Some (d, cl) \<Rightarrow>
          let d = take (unat max_len_bytes) d in
          bindr (bindr (nth_res (q_pRxBuf q) (rc_pRxBuf c)) (\<lambda>b. putb b 0 d)) (\<lambda>b.
          let q = q\<lparr>q_pRxBuf := (q_pRxBuf q)[rc_pRxBuf c := b]\<rparr>;
              q = set_cmd q k (c\<lparr>rc_recv_len := of_nat (length d), rc_client := Some (Some cl)\<rparr>)
          in bindr (am_update_pack_queue_rx_idx q k) (\<lambda>(error, q). Inr q)))))"

text \<open>
  The part of \<open>am_targ_check_cmd_queue\<close> that moves the consumer (lines 631 and 632), and the packet
  it is at: \<open>None\<close> when the queue is empty.
\<close>

definition cur_cmd :: "'c pack_queue \<Rightarrow> (bytes \<times> 'c rec_cmd) option res" where
  "cur_cmd q =
     (if q_rx_ci q = q_rx_pi q then Inr None
      else
        bindr (nth_res (q_pRxCmd q) (unat (q_rx_ci q))) (\<lambda>c.
        bindr (nth_res (q_pRxBuf q) (rc_pRxBuf c)) (\<lambda>b. Inr (Some (b, c)))))"

definition advance_ci :: "'c pack_queue \<Rightarrow> 'c rec_cmd \<Rightarrow> 'c pack_queue res" where
  "advance_ci q c =
     (if q_size q = 0 then Inl DivByZero
      else Inr (q\<lparr>q_rx_ci := (q_rx_ci q + rc_buf_count c) mod q_size q\<rparr>))"

end
