(* ===== verification/AM_Queue_Props.thy ===== *)
theory AM_Queue_Props
  imports AM_Queue
begin

text \<open>
  The packet queue is a first-in first-out queue of (datagram, sender) pairs, as long as fewer packets
  are waiting than it has slots; with all slots filled it looks empty.
\<close>

section \<open>Distances in a ring\<close>

definition ring_dist :: "nat \<Rightarrow> nat \<Rightarrow> nat \<Rightarrow> nat" where
  "ring_dist n c p = (if c \<le> p then p - c else p + n - c)"

definition ring_idx :: "nat \<Rightarrow> nat \<Rightarrow> nat \<Rightarrow> nat" where
  "ring_idx n c j = (if c + j < n then c + j else c + j - n)"

definition ring_succ :: "nat \<Rightarrow> nat \<Rightarrow> nat" where
  "ring_succ n p = (if p + 1 = n then 0 else p + 1)"

lemma ring_enq:
  assumes "c < n" "p < n" "ring_dist n c p + 1 < n"
  shows "ring_dist n c (ring_succ n p) = ring_dist n c p + 1" "ring_idx n c (ring_dist n c p) = p"
    and "j < ring_dist n c p \<Longrightarrow> ring_idx n c j \<noteq> p"
  using assms by (auto simp: ring_dist_def ring_idx_def ring_succ_def split: if_splits)

lemma ring_deq:
  assumes "c < n" "p < n" "c \<noteq> p"
  shows "ring_dist n c p = Suc (ring_dist n (ring_succ n c) p)" "ring_idx n c 0 = c"
    and "j < ring_dist n (ring_succ n c) p \<Longrightarrow> ring_idx n (ring_succ n c) j = ring_idx n c (Suc j)"
  using assms by (auto simp: ring_dist_def ring_idx_def ring_succ_def split: if_splits)

lemma ring_idx_less: "c < n \<Longrightarrow> p < n \<Longrightarrow> j < ring_dist n c p \<Longrightarrow> ring_idx n c j < n"
  by (auto simp: ring_dist_def ring_idx_def split: if_splits)

lemma ring_succ_less [simp]: "p < n \<Longrightarrow> ring_succ n p < n"
  by (auto simp: ring_succ_def)

lemma ring_dist_0: "c < n \<Longrightarrow> p < n \<Longrightarrow> ring_dist n c p = 0 \<longleftrightarrow> c = p"
  by (auto simp: ring_dist_def)

section \<open>The contract of a bounded queue\<close>

datatype 'a fifo_op = Enq 'a | Deq

text \<open>
  A run of operations: what the dequeues deliver, in order, and the queue afterwards; a dequeue from
  the empty queue delivers nothing.
\<close>

fun fifo_run ::
  "('q \<Rightarrow> 'a \<Rightarrow> 'q res) \<Rightarrow> ('q \<Rightarrow> ('a \<times> 'q) option res) \<Rightarrow> 'q \<Rightarrow> 'a fifo_op list \<Rightarrow> ('a list \<times> 'q) res" where
  "fifo_run enq deq q [] = Inr ([], q)"
| "fifo_run enq deq q (Enq x # ops) = bindr (enq q x) (\<lambda>q. fifo_run enq deq q ops)"
| "fifo_run enq deq q (Deq # ops) =
     bindr (deq q) (\<lambda>r.
     case r of
       None \<Rightarrow> fifo_run enq deq q ops
     | Some (x, q) \<Rightarrow> bindr (fifo_run enq deq q ops) (\<lambda>(ys, q). Inr (x # ys, q)))"

text \<open>The number of items waiting never gets over \<open>cap\<close>, starting from \<open>n\<close>.\<close>

fun fifo_fits :: "nat \<Rightarrow> nat \<Rightarrow> 'a fifo_op list \<Rightarrow> bool" where
  "fifo_fits cap n [] = True"
| "fifo_fits cap n (Enq x # ops) = (n < cap \<and> fifo_fits cap (Suc n) ops)"
| "fifo_fits cap n (Deq # ops) = fifo_fits cap (n - 1) ops"

fun enqueued :: "'a fifo_op list \<Rightarrow> 'a list" where
  "enqueued [] = []"
| "enqueued (Enq x # ops) = x # enqueued ops"
| "enqueued (Deq # ops) = enqueued ops"

locale bounded_fifo =
  fixes enq :: "'q \<Rightarrow> 'a \<Rightarrow> 'q res"
    and deq :: "'q \<Rightarrow> ('a \<times> 'q) option res"
    and waiting :: "'q \<Rightarrow> 'a list"
    and ok :: "'q \<Rightarrow> bool"
    and good :: "'a \<Rightarrow> bool"
    and cap :: "'q \<Rightarrow> nat"
  assumes enq_ok: "ok q \<Longrightarrow> good x \<Longrightarrow> length (waiting q) < cap q \<Longrightarrow>
      \<exists>q'. enq q x = Inr q' \<and> ok q' \<and> waiting q' = waiting q @ [x] \<and> cap q' = cap q"
    and deq_ok: "ok q \<Longrightarrow> waiting q = x # xs \<Longrightarrow>
      \<exists>q'. deq q = Inr (Some (x, q')) \<and> ok q' \<and> waiting q' = xs \<and> cap q' = cap q"
    and deq_empty: "ok q \<Longrightarrow> waiting q = [] \<Longrightarrow> deq q = Inr None"
begin

lemma in_order:
  assumes "ok q" "fifo_fits (cap q) (length (waiting q)) ops" "\<forall>x\<in>set (enqueued ops). good x"
  shows "\<exists>ys q'. fifo_run enq deq q ops = Inr (ys, q') \<and> ys @ waiting q' = waiting q @ enqueued ops \<and> ok q'"
  using assms
proof (induction ops arbitrary: q)
  case Nil
  then show ?case by simp
next
  case (Cons op ops)
  show ?case
  proof (cases op)
    case (Enq x)
    obtain q1 where q1: "enq q x = Inr q1" "ok q1" "waiting q1 = waiting q @ [x]" "cap q1 = cap q"
      using enq_ok [of q x] Cons.prems Enq by auto
    have "fifo_fits (cap q1) (length (waiting q1)) ops" using Cons.prems(2) Enq q1 by simp
    from Cons.IH [OF q1(2) this] Cons.prems(3) Enq obtain ys q' where
      "fifo_run enq deq q1 ops = Inr (ys, q')" "ys @ waiting q' = waiting q1 @ enqueued ops" "ok q'" by auto
    then show ?thesis using Enq q1 by simp
  next
    case Deq
    show ?thesis
    proof (cases "waiting q")
      case Nil
      then show ?thesis using Cons.IH [of q] Cons.prems Deq deq_empty [of q] by auto
    next
      case (Cons x xs)
      obtain q1 where q1: "deq q = Inr (Some (x, q1))" "ok q1" "waiting q1 = xs" "cap q1 = cap q"
        using deq_ok [of q x xs] Cons.prems(1) Cons by auto
      have "fifo_fits (cap q1) (length (waiting q1)) ops" using Cons.prems(2) Deq Cons q1 by simp
      from Cons.IH [OF q1(2) this] Cons.prems(3) Deq obtain ys q' where
        "fifo_run enq deq q1 ops = Inr (ys, q')" "ys @ waiting q' = waiting q1 @ enqueued ops" "ok q'" by auto
      then show ?thesis using Deq q1 Cons by simp
    qed
  qed
qed

end

section \<open>The packet queue\<close>

definition q_enq :: "'c pack_queue \<Rightarrow> bytes \<times> 'c \<Rightarrow> 'c pack_queue res" where
  "q_enq q x = am_targ_recv q (Some x)"

definition q_item :: "bytes \<Rightarrow> 'c rec_cmd \<Rightarrow> bytes \<times> 'c" where
  "q_item b c = (take (unat (rc_recv_len c)) b, the (the (rc_client c)))"

definition q_deq :: "'c pack_queue \<Rightarrow> ((bytes \<times> 'c) \<times> 'c pack_queue) option res" where
  "q_deq q =
     bindr (cur_cmd q) (\<lambda>cur.
     case cur of
       None \<Rightarrow> Inr None
     | Some (b, c) \<Rightarrow> bindr (advance_ci q c) (\<lambda>q. Inr (Some (q_item b c, q))))"

definition q_len :: "'c pack_queue \<Rightarrow> nat" where
  "q_len q = ring_dist (unat (q_size q)) (unat (q_rx_ci q)) (unat (q_rx_pi q))"

definition q_nth :: "'c pack_queue \<Rightarrow> nat \<Rightarrow> nat" where
  "q_nth q j = ring_idx (unat (q_size q)) (unat (q_rx_ci q)) j"

definition q_waiting :: "'c pack_queue \<Rightarrow> (bytes \<times> 'c) list" where
  "q_waiting q = map (\<lambda>j. q_item (q_pRxBuf q ! q_nth q j) (q_pRxCmd q ! q_nth q j)) [0..<q_len q]"

text \<open>
  The invariant: the arrays have the size of the queue, each command belongs to its own buffer, and the
  commands between consumer and producer hold one packet each.
\<close>

definition cmd_ok :: "nat \<Rightarrow> 'c rec_cmd \<Rightarrow> bool" where
  "cmd_ok k c \<longleftrightarrow> rc_pRxBuf c = k \<and> rc_idx c = of_nat k \<and> rc_client c \<noteq> None"

definition cmd_full :: "'c rec_cmd \<Rightarrow> bool" where
  "cmd_full c \<longleftrightarrow> rc_buf_count c = 1 \<and> 0 < rc_recv_len c \<and> rc_recv_len c \<le> 512 \<and> (\<exists>cl. rc_client c = Some (Some cl))"

definition q_ok :: "'c pack_queue \<Rightarrow> bool" where
  "q_ok q \<longleftrightarrow>
     (let n = unat (q_size q) in
      length (q_pRxCmd q) = n \<and> length (q_pRxBuf q) = n \<and> length (q_pTxBuf q) = n \<and>
      (\<forall>k<n. cmd_ok k (q_pRxCmd q ! k) \<and> length (q_pRxBuf q ! k) = 512 \<and> length (q_pTxBuf q ! k) = 512) \<and>
      unat (q_rx_ci q) < n \<and> unat (q_rx_pi q) < n \<and> unat (q_tx_pi q) < n \<and>
      (\<forall>j<q_len q. cmd_full (q_pRxCmd q ! q_nth q j)))"

definition dgram_ok :: "bytes \<times> 'c \<Rightarrow> bool" where
  "dgram_ok x \<longleftrightarrow> 0 < length (fst x) \<and> length (fst x) \<le> MAX_BASIC_PACK_UNION_SIZE"

lemma pack_inc_size_1: "0 < n \<Longrightarrow> n \<le> 512 \<Longrightarrow> pack_inc_size (of_nat n) = 1"
proof -
  assume n: "0 < n" "n \<le> 512"
  have u: "unat (of_nat n :: UINT32) = n" using n by (simp add: unat_of_nat)
  have d: "(of_nat n :: UINT32) div 512 = of_nat (n div 512)" "(of_nat n :: UINT32) mod 512 = of_nat (n mod 512)"
    using u by (simp_all add: word_unat_eq_iff unat_div_distrib unat_mod_distrib unat_of_nat)
  show ?thesis
  proof (cases "n = 512")
    case True
    then show ?thesis by (simp add: pack_inc_size_def)
  next
    case False
    then have "n mod 512 = n" "n div 512 = 0" using n by auto
    moreover have "(of_nat n :: UINT32) \<noteq> 0" using u n by auto
    ultimately show ?thesis using d by (simp add: pack_inc_size_def)
  qed
qed

lemma unat_ring_succ:
  fixes p n :: UINT32
  assumes "p < n"
  shows "unat (if p + 1 = n then 0 else p + 1) = ring_succ (unat n) (unat p)" "\<not> n < p + 1"
proof -
  have "unat (p + 1) = unat p + 1"
    using assms unsigned_less [of n, where 'a = nat] by (simp add: unat_word_ariths word_less_nat_alt)
  then show "unat (if p + 1 = n then 0 else p + 1) = ring_succ (unat n) (unat p)" "\<not> n < p + 1"
    using assms by (auto simp: ring_succ_def word_less_nat_alt word_unat_eq_iff)
qed

definition q_recv :: "'c pack_queue \<Rightarrow> bytes \<Rightarrow> 'c \<Rightarrow> 'c pack_queue" where
  "q_recv q d cl =
     (let k = unat (q_rx_pi q) in
      q\<lparr>q_pRxBuf := (q_pRxBuf q)[k := d @ drop (length d) (q_pRxBuf q ! k)],
        q_pRxCmd := (q_pRxCmd q)[k := (q_pRxCmd q ! k)\<lparr>rc_recv_len := of_nat (length d), rc_client := Some (Some cl),
          rc_buf_count := 1, rc_state := RX_CMD_STATE_ACTIVE\<rparr>],
        q_rx_pi := (if q_rx_pi q + 1 = q_size q then 0 else q_rx_pi q + 1)\<rparr>)"

lemma am_targ_recv_eq:
  assumes "q_ok q" "dgram_ok (d, cl)"
  shows "am_targ_recv q (Some (d, cl)) = Inr (q_recv q d cl)"
proof -
  define k where "k = unat (q_rx_pi q)"
  have k: "k < length (q_pRxCmd q)" "k < length (q_pRxBuf q)" "cmd_ok k (q_pRxCmd q ! k)"
    "length (q_pRxBuf q ! k) = 512" "q_rx_pi q < q_size q"
    using assms(1) by (auto simp: q_ok_def Let_def k_def word_less_nat_alt)
  have d: "0 < length d" "length d \<le> 512" using assms(2) by (simp_all add: dgram_ok_def)
  have t: "take 512 d = d" using d by simp
  have nz: "(of_nat (length d) :: UINT32) \<noteq> 0" using d by (simp add: word_unat_eq_iff unat_of_nat)
  have ni: "\<not> q_size q < q_rx_pi q + 1" using unat_ring_succ(2) [OF k(5)] .
  have c: "rc_idx (q_pRxCmd q ! k) = q_rx_pi q" "rc_pRxBuf (q_pRxCmd q ! k) = k" "rc_client (q_pRxCmd q ! k) \<noteq> None"
    using k(3) by (simp_all add: cmd_ok_def k_def)
  show ?thesis
    using k(1,2,4) d t nz ni pack_inc_size_1 [OF d] c
    by (simp add: am_targ_recv_def am_get_pack_queue_buf_def k_def [symmetric] putb_in_bounds
          am_update_pack_queue_rx_idx_def set_cmd_def Let_def q_recv_def)
qed

lemma q_recv_ok:
  assumes "q_ok q" "dgram_ok (d, cl)" "q_len q + 1 < unat (q_size q)"
  shows "q_ok (q_recv q d cl)" "q_waiting (q_recv q d cl) = q_waiting q @ [(d, cl)]"
    "q_size (q_recv q d cl) = q_size q"
proof -
  let ?q = "q_recv q d cl"
  define n where "n = unat (q_size q)"
  define p where "p = unat (q_rx_pi q)"
  define c where "c = unat (q_rx_ci q)"
  have q: "length (q_pRxCmd q) = n" "length (q_pRxBuf q) = n" "length (q_pTxBuf q) = n"
    "\<forall>k<n. cmd_ok k (q_pRxCmd q ! k) \<and> length (q_pRxBuf q ! k) = 512 \<and> length (q_pTxBuf q ! k) = 512"
    "c < n" "p < n" "unat (q_tx_pi q) < n" "\<forall>j<q_len q. cmd_full (q_pRxCmd q ! q_nth q j)"
    using assms(1) by (simp_all add: q_ok_def Let_def n_def p_def c_def)
  have d: "0 < length d" "length d \<le> 512" using assms(2) by (simp_all add: dgram_ok_def)
  have u: "unat (of_nat (length d) :: UINT32) = length d" using d by (simp add: unat_of_nat)
  have room: "ring_dist n c p + 1 < n" using assms(3) by (simp add: q_len_def n_def c_def p_def)
  have pi: "unat (q_rx_pi ?q) = ring_succ n p"
    using unat_ring_succ(1) [of "q_rx_pi q" "q_size q"] q(6)
    by (simp add: q_recv_def Let_def n_def p_def word_less_nat_alt)
  have len: "q_len ?q = q_len q + 1"
    using ring_enq(1) [OF q(5,6) room] pi by (simp add: q_len_def q_recv_def Let_def n_def [symmetric] c_def [symmetric] p_def [symmetric])
  have nth: "q_nth ?q j = q_nth q j" for j by (simp add: q_nth_def q_recv_def Let_def)
  have last: "q_nth q (q_len q) = p"
    using ring_enq(2) [OF q(5,6) room] by (simp add: q_nth_def q_len_def n_def c_def p_def)
  have old: "q_nth q j \<noteq> p" if "j < q_len q" for j
    using ring_enq(3) [OF q(5,6) room, of j] that by (simp add: q_nth_def q_len_def n_def c_def p_def)
  show sz: "q_size ?q = q_size q" by (simp add: q_recv_def Let_def)
  have cmd: "q_pRxCmd ?q ! k = (if k = p then (q_pRxCmd q ! p)\<lparr>rc_recv_len := of_nat (length d),
      rc_client := Some (Some cl), rc_buf_count := 1, rc_state := RX_CMD_STATE_ACTIVE\<rparr> else q_pRxCmd q ! k)" for k
    using q(1,6) by (simp add: q_recv_def Let_def p_def [symmetric])
  have bf: "q_pRxBuf ?q ! k = (if k = p then d @ drop (length d) (q_pRxBuf q ! p) else q_pRxBuf q ! k)" for k
    using q(2,6) by (simp add: q_recv_def Let_def p_def [symmetric])
  have full: "\<forall>j<q_len ?q. cmd_full (q_pRxCmd ?q ! q_nth ?q j)"
  proof (intro allI impI)
    fix j assume j: "j < q_len ?q"
    show "cmd_full (q_pRxCmd ?q ! q_nth ?q j)"
    proof (cases "j = q_len q")
      case True
      then show ?thesis using d u last by (simp add: nth cmd cmd_full_def word_less_nat_alt word_le_nat_alt)
    next
      case False
      then have "j < q_len q" using j len by simp
      then show ?thesis using q(8) old [of j] by (simp add: nth cmd)
    qed
  qed
  have cmds: "\<forall>k<n. cmd_ok k (q_pRxCmd ?q ! k) \<and> length (q_pRxBuf ?q ! k) = 512 \<and> length (q_pTxBuf ?q ! k) = 512"
    using q(4,6) d by (auto simp: cmd bf cmd_ok_def) (simp_all add: q_recv_def Let_def)
  show "q_ok ?q"
    unfolding q_ok_def Let_def sz n_def [symmetric] pi
    using q full cmds by (simp add: q_recv_def Let_def c_def [symmetric])
  have "map (\<lambda>j. q_item (q_pRxBuf ?q ! q_nth q j) (q_pRxCmd ?q ! q_nth q j)) [0..<q_len q] = q_waiting q"
    unfolding q_waiting_def using old by (intro map_cong) (auto simp: cmd bf)
  moreover have "q_item (q_pRxBuf ?q ! p) (q_pRxCmd ?q ! p) = (d, cl)" using u by (simp add: cmd bf q_item_def)
  ultimately show "q_waiting ?q = q_waiting q @ [(d, cl)]"
    unfolding q_waiting_def [of ?q] len nth using last by simp
qed

lemma q_deq_eq:
  assumes "q_ok q" "q_len q \<noteq> 0"
  shows "cur_cmd q = Inr (Some (q_pRxBuf q ! q_nth q 0, q_pRxCmd q ! q_nth q 0))"
    "advance_ci q (q_pRxCmd q ! q_nth q 0) =
       Inr (q\<lparr>q_rx_ci := if q_rx_ci q + 1 = q_size q then 0 else q_rx_ci q + 1\<rparr>)"
proof -
  define c where "c = unat (q_rx_ci q)"
  have q: "c < length (q_pRxCmd q)" "c < length (q_pRxBuf q)" "c < unat (q_size q)" "unat (q_rx_pi q) < unat (q_size q)"
    "cmd_ok c (q_pRxCmd q ! c)" "\<forall>j<q_len q. cmd_full (q_pRxCmd q ! q_nth q j)"
    using assms(1) by (auto simp: q_ok_def Let_def c_def)
  have n0: "q_nth q 0 = c" using q(3) by (simp add: q_nth_def ring_idx_def c_def)
  have ne: "q_rx_ci q \<noteq> q_rx_pi q"
    using assms(2) q(3,4) ring_dist_0 [of c "unat (q_size q)" "unat (q_rx_pi q)"] by (auto simp: q_len_def c_def)
  show "cur_cmd q = Inr (Some (q_pRxBuf q ! q_nth q 0, q_pRxCmd q ! q_nth q 0))"
    using ne q by (simp add: cur_cmd_def n0 c_def [symmetric] cmd_ok_def)
  have f: "rc_buf_count (q_pRxCmd q ! c) = 1" using q(6) assms(2) n0 by (auto simp: cmd_full_def)
  have lt: "q_rx_ci q < q_size q" using q(3) by (simp add: word_less_nat_alt c_def)
  have "(q_rx_ci q + 1) mod q_size q = (if q_rx_ci q + 1 = q_size q then 0 else q_rx_ci q + 1)"
  proof (cases "q_rx_ci q + 1 = q_size q")
    case False
    then have "q_rx_ci q + 1 < q_size q" using unat_ring_succ(2) [OF lt] by auto
    then show ?thesis using False
      by (simp add: word_unat_eq_iff [of "(q_rx_ci q + 1) mod q_size q"] unat_mod_distrib word_less_nat_alt)
  qed simp
  moreover have "q_size q \<noteq> 0" using lt by auto
  ultimately show "advance_ci q (q_pRxCmd q ! q_nth q 0) =
      Inr (q\<lparr>q_rx_ci := if q_rx_ci q + 1 = q_size q then 0 else q_rx_ci q + 1\<rparr>)"
    by (simp add: advance_ci_def n0 f)
qed

definition q_next :: "'c pack_queue \<Rightarrow> 'c pack_queue" where
  "q_next q = q\<lparr>q_rx_ci := if q_rx_ci q + 1 = q_size q then 0 else q_rx_ci q + 1\<rparr>"

lemma q_next_ok:
  assumes "q_ok q" "q_len q \<noteq> 0"
  shows "q_ok (q_next q)" "q_waiting q = q_item (q_pRxBuf q ! q_nth q 0) (q_pRxCmd q ! q_nth q 0) # q_waiting (q_next q)"
    "q_size (q_next q) = q_size q" "q_len q = Suc (q_len (q_next q))"
proof -
  let ?q = "q_next q"
  define n where "n = unat (q_size q)"
  define p where "p = unat (q_rx_pi q)"
  define c where "c = unat (q_rx_ci q)"
  have q: "length (q_pRxCmd q) = n" "length (q_pRxBuf q) = n" "length (q_pTxBuf q) = n"
    "\<forall>k<n. cmd_ok k (q_pRxCmd q ! k) \<and> length (q_pRxBuf q ! k) = 512 \<and> length (q_pTxBuf q ! k) = 512"
    "c < n" "p < n" "unat (q_tx_pi q) < n" "\<forall>j<q_len q. cmd_full (q_pRxCmd q ! q_nth q j)"
    using assms(1) by (simp_all add: q_ok_def Let_def n_def p_def c_def)
  have ne: "c \<noteq> p" using assms(2) ring_dist_0 [OF q(5,6)] by (auto simp: q_len_def n_def p_def c_def)
  have ci: "unat (q_rx_ci ?q) = ring_succ n c"
    using unat_ring_succ(1) [of "q_rx_ci q" "q_size q"] q(5) by (simp add: q_next_def n_def c_def word_less_nat_alt)
  show sz: "q_size ?q = q_size q" by (simp add: q_next_def)
  have pi: "q_rx_pi ?q = q_rx_pi q" "q_pRxCmd ?q = q_pRxCmd q" "q_pRxBuf ?q = q_pRxBuf q" "q_pTxBuf ?q = q_pTxBuf q"
    "q_tx_pi ?q = q_tx_pi q"
    by (simp_all add: q_next_def)
  show len: "q_len q = Suc (q_len ?q)"
    using ring_deq(1) [OF q(5,6) ne] by (simp add: q_len_def sz ci pi n_def [symmetric] c_def [symmetric] p_def [symmetric])
  have nth: "q_nth ?q j = q_nth q (Suc j)" if "j < q_len ?q" for j
    using ring_deq(3) [OF q(5,6) ne, of j] that
    by (simp add: q_nth_def q_len_def sz ci pi n_def [symmetric] c_def [symmetric] p_def [symmetric])
  show "q_ok ?q"
    unfolding q_ok_def Let_def sz pi ci n_def [symmetric]
    using q len nth by (simp add: p_def [symmetric])
  have "q_waiting ?q = map (\<lambda>j. q_item (q_pRxBuf q ! q_nth q (Suc j)) (q_pRxCmd q ! q_nth q (Suc j))) [0..<q_len ?q]"
    unfolding q_waiting_def pi by (intro map_cong) (auto simp: nth)
  then show "q_waiting q = q_item (q_pRxBuf q ! q_nth q 0) (q_pRxCmd q ! q_nth q 0) # q_waiting ?q"
    unfolding q_waiting_def [of q] len by (simp add: upt_conv_Cons map_Suc_upt [symmetric] del: upt_Suc)
qed

interpretation pack_queue: bounded_fifo q_enq q_deq q_waiting q_ok dgram_ok "\<lambda>q. unat (q_size q) - 1"
proof
  fix q :: "'a pack_queue" and x :: "bytes \<times> 'a"
  obtain d cl where x: "x = (d, cl)" by (cases x)
  assume a: "q_ok q" "dgram_ok x" "length (q_waiting q) < unat (q_size q) - 1"
  then have "q_len q + 1 < unat (q_size q)" by (simp add: q_waiting_def)
  from q_recv_ok [OF a(1) a(2) [unfolded x] this] am_targ_recv_eq [OF a(1) a(2) [unfolded x]]
  show "\<exists>q'. q_enq q x = Inr q' \<and> q_ok q' \<and> q_waiting q' = q_waiting q @ [x] \<and>
      unat (q_size q') - 1 = unat (q_size q) - 1"
    by (simp add: q_enq_def x)
next
  fix q :: "'a pack_queue" and x xs
  assume a: "q_ok q" "q_waiting q = x # xs"
  then have "length (q_waiting q) \<noteq> 0" by simp
  then have ne: "q_len q \<noteq> 0" by (simp add: q_waiting_def)
  have "q_deq q = Inr (Some (q_item (q_pRxBuf q ! q_nth q 0) (q_pRxCmd q ! q_nth q 0), q_next q))"
    using q_deq_eq [OF a(1) ne] by (simp add: q_deq_def q_next_def)
  then show "\<exists>q'. q_deq q = Inr (Some (x, q')) \<and> q_ok q' \<and> q_waiting q' = xs \<and>
      unat (q_size q') - 1 = unat (q_size q) - 1"
    using q_next_ok [OF a(1) ne] a(2) by simp
next
  fix q :: "'a pack_queue"
  assume a: "q_ok q" "q_waiting q = []"
  then have "unat (q_rx_ci q) = unat (q_rx_pi q)"
    using ring_dist_0 [of "unat (q_rx_ci q)" "unat (q_size q)" "unat (q_rx_pi q)"]
    by (simp add: q_ok_def Let_def q_waiting_def q_len_def)
  then show "q_deq q = Inr None" by (simp add: q_deq_def cur_cmd_def word_unat_eq_iff)
qed

section \<open>Properties\<close>

lemma init_queue_ok:
  assumes "am_init_pack_queue al n = Some q" "0 < n" "\<forall>i<unat n. al (3 + i)"
  shows "q_ok q" "q_waiting q = []" "q_size q = n"
proof -
  have q: "q = \<lparr>q_pRxCmd = map (\<lambda>i. init_cmd (unat n) (al (3 + i)) i) [0..<unat n],
      q_pRxBuf = replicate (unat n) (replicate 512 0), q_pTxBuf = replicate (unat n) (replicate 512 0),
      q_size = n, q_rx_ci = 0, q_rx_pi = 0, q_tx_ci = 0, q_tx_pi = 0\<rparr>"
    using assms(1) by (simp add: am_init_pack_queue_def Let_def split: if_splits)
  show "q_ok q" using assms(2,3) by (simp add: q q_ok_def Let_def q_len_def ring_dist_def cmd_ok_def init_cmd_def word_less_nat_alt)
  show "q_waiting q = []" "q_size q = n" by (simp_all add: q q_waiting_def q_len_def ring_dist_def)
qed

text \<open>A datagram longer than a slot is cut by the receive, and an empty one fails the assertion on its length.\<close>

definition cut_dgram :: "bytes \<times> 'c \<Rightarrow> bytes \<times> 'c" where
  "cut_dgram x = (take MAX_BASIC_PACK_UNION_SIZE (fst x), snd x)"

lemma q_enq_cut: "q_enq q (cut_dgram x) = q_enq q x"
  by (cases x) (simp add: q_enq_def cut_dgram_def am_targ_recv_def am_get_pack_queue_buf_def)

lemma fifo_run_cut: "fifo_run q_enq q_deq q (map (map_fifo_op cut_dgram) ops) = fifo_run q_enq q_deq q ops"
proof (induction ops arbitrary: q)
  case (Cons op ops)
  show ?case
  proof (cases op)
    case (Enq x)
    then show ?thesis using Cons.IH by (simp add: q_enq_cut)
  next
    case Deq
    have "(\<lambda>r. case r of None \<Rightarrow> fifo_run q_enq q_deq q (map (map_fifo_op cut_dgram) ops)
        | Some (x, q) \<Rightarrow> bindr (fifo_run q_enq q_deq q (map (map_fifo_op cut_dgram) ops)) (\<lambda>(ys, q). Inr (x # ys, q))) =
      (\<lambda>r. case r of None \<Rightarrow> fifo_run q_enq q_deq q ops
        | Some (x, q) \<Rightarrow> bindr (fifo_run q_enq q_deq q ops) (\<lambda>(ys, q). Inr (x # ys, q)))"
      by (auto simp: Cons.IH fun_eq_iff split: option.splits)
    then show ?thesis using Deq by (simp del: bindr_eq_Inr)
  qed
qed simp

lemma enqueued_map: "enqueued (map (map_fifo_op f) ops) = map f (enqueued ops)"
proof (induction ops)
  case (Cons op ops)
  then show ?case by (cases op) simp_all
qed simp

lemma fifo_fits_map: "fifo_fits cap n (map (map_fifo_op f) ops) = fifo_fits cap n ops"
proof (induction ops arbitrary: n)
  case (Cons op ops)
  then show ?case by (cases op) simp_all
qed simp

lemma q_enq_empty:
  assumes "q_ok q"
  shows "q_enq q ([], cl) = Inl AssertFail"
proof -
  define k where "k = unat (q_rx_pi q)"
  have k: "k < length (q_pRxCmd q)" "k < length (q_pRxBuf q)" "cmd_ok k (q_pRxCmd q ! k)"
    using assms(1) by (auto simp: q_ok_def Let_def k_def)
  have c: "rc_idx (q_pRxCmd q ! k) = q_rx_pi q" "rc_pRxBuf (q_pRxCmd q ! k) = k" "rc_client (q_pRxCmd q ! k) \<noteq> None"
    using k(3) by (simp_all add: cmd_ok_def k_def)
  show ?thesis using k c
    by (simp add: q_enq_def am_targ_recv_def am_get_pack_queue_buf_def k_def [symmetric] putb_in_bounds
          am_update_pack_queue_rx_idx_def set_cmd_def Let_def)
qed

text \<open>
  C17: A queue of at least one slot, made with all its memory, holds nothing, and delivers what is received in the order it is received,
  each datagram with its sender, for every interleaving of receiving and serving in which fewer packets wait than the queue has
  slots. A datagram is delivered whole if it fits into a slot of 512 bytes, and its first 512 bytes otherwise. None of them
  may be empty: at whatever point of the run, an empty datagram is a failed assertion, which ends the target.
\<close>

theorem am_targ_queue_fifo:
  assumes "am_init_pack_queue al n = Some q" "0 < n" "\<forall>i<unat n. al (3 + i)"
    and "fifo_fits (unat n - 1) 0 ops" "\<forall>x\<in>set (enqueued ops). fst x \<noteq> []"
  shows "\<exists>ys q'. fifo_run q_enq q_deq q ops = Inr (ys, q') \<and> ys @ q_waiting q' = map cut_dgram (enqueued ops) \<and>
    (\<forall>cl. q_enq q' ([], cl) = Inl AssertFail)"
proof -
  let ?ops = "map (map_fifo_op cut_dgram) ops"
  have "\<forall>x\<in>set (enqueued ?ops). dgram_ok x"
    using assms(5) by (auto simp: enqueued_map dgram_ok_def cut_dgram_def)
  then show ?thesis
    using pack_queue.in_order [of q ?ops] init_queue_ok [OF assms(1-3)] assms(4) q_enq_empty
    by (auto simp: enqueued_map fifo_fits_map fifo_run_cut)
qed

lemma am_targ_queue_fifo_witness:
  "\<exists>q ys q'. am_init_pack_queue (\<lambda>_. True) 2 = Some q \<and>
    fifo_run q_enq q_deq q [Enq ([1], 7 :: nat), Deq, Enq (replicate 600 3, 8), Deq] = Inr (ys, q') \<and>
    ys @ q_waiting q' = [([1], 7), (replicate 512 3, 8)] \<and> q_enq q' ([], 9) = Inl AssertFail"
proof -
  obtain q :: "nat pack_queue" where q: "am_init_pack_queue (\<lambda>_. True) 2 = Some q"
    by (simp add: am_init_pack_queue_def Let_def)
  show ?thesis
    using q am_targ_queue_fifo [OF q, of "[Enq ([1], 7 :: nat), Deq, Enq (replicate 600 3, 8), Deq]"]
    by (auto simp: cut_dgram_def)
qed

text \<open>
  Nothing checks that a slot is free: with one slot left, the next datagram makes the queue look
  empty, and every waiting packet is lost.
\<close>

theorem am_targ_queue_overrun:
  assumes "q_ok q" "length (q_waiting q) + 1 = unat (q_size q)" "dgram_ok (d, cl)"
  shows "\<exists>q'. am_targ_recv q (Some (d, cl)) = Inr q' \<and> cur_cmd q' = Inr None"
proof -
  define n where "n = unat (q_size q)"
  have q: "unat (q_rx_ci q) < n" "unat (q_rx_pi q) < n" using assms(1) by (auto simp: q_ok_def Let_def n_def)
  have "ring_succ n (unat (q_rx_pi q)) = unat (q_rx_ci q)"
    using assms(2) q by (auto simp: q_waiting_def q_len_def ring_dist_def ring_succ_def n_def split: if_splits)
  then have "unat (q_rx_pi (q_recv q d cl)) = unat (q_rx_ci (q_recv q d cl))"
    using unat_ring_succ(1) [of "q_rx_pi q" "q_size q"] q(2) by (simp add: q_recv_def Let_def n_def word_less_nat_alt)
  then show ?thesis
    using am_targ_recv_eq [OF assms(1,3)] by (simp add: cur_cmd_def word_unat_eq_iff)
qed

lemma am_targ_queue_overrun_witness:
  "\<exists>q q'. am_init_pack_queue (\<lambda>_. True) 1 = Some q \<and>
    am_targ_recv q (Some ([1], 7 :: nat)) = Inr q' \<and> cur_cmd q' = Inr None"
proof -
  obtain q :: "nat pack_queue" where q: "am_init_pack_queue (\<lambda>_. True) 1 = Some q"
    by (simp add: am_init_pack_queue_def Let_def)
  show ?thesis
    using q am_targ_queue_overrun [of q "[1]" 7] init_queue_ok [OF q] by (simp add: dgram_ok_def)
qed

end
