(* ===== verification/AM_Targ_Props.thy ===== *)
theory AM_Targ_Props
  imports AM_Targ_Ops
begin

text \<open>The function table of the target: which function an id names, and the creation of functions.\<close>

section \<open>Function ids\<close>

lemma small_of_nat: "i < 256 \<Longrightarrow> (of_nat i :: 'a::len word) AND 0xFF = of_nat i"
proof -
  assume i: "i < 256"
  have "take_bit 8 (of_nat i :: 'a word) = of_nat (take_bit 8 i)" by (simp add: of_nat_take_bit)
  also have "take_bit 8 i = i" using i by (simp add: take_bit_eq_mod)
  finally show ?thesis by (simp add: take_bit_eq_mask mask_eq_exp_minus_1)
qed

lemma func_id_mask32:
  assumes "i < 256"
  shows "((0xAA00 :: UINT32) OR of_nat i) AND 0xFF00 = 0xAA00"
    "((0xAA00 :: UINT32) OR of_nat i) AND 0x00FF = of_nat i"
proof -
  let ?x = "of_nat i :: UINT32"
  have x: "?x AND 0xFF = ?x" using small_of_nat [of i] assms by simp
  have "?x AND 0xFF00 = (?x AND 0xFF) AND 0xFF00" by (simp only: x)
  also have "\<dots> = 0" by (simp add: and.assoc)
  finally show "(0xAA00 OR ?x) AND 0xFF00 = 0xAA00" by (simp add: bit.conj_disj_distrib2)
  show "(0xAA00 OR ?x) AND 0x00FF = ?x" using x by (simp add: bit.conj_disj_distrib2)
qed

lemma func_id_cast:
  assumes "i < 256"
  shows "(ucast ((0xAA00 :: UINT16) OR of_nat i) :: UINT32) = 0xAA00 OR of_nat i"
    "(ucast ((0xAA00 :: UINT32) OR of_nat i) :: UINT16) = 0xAA00 OR of_nat i"
    "(0xAA00 :: UINT16) OR of_nat i \<noteq> 0xFFFA"
proof -
  show *: "(ucast ((0xAA00 :: UINT16) OR of_nat i) :: UINT32) = 0xAA00 OR of_nat i"
    using assms by (simp add: unsigned_or_eq unsigned_of_nat take_bit_nat_eq_self)
  show "(ucast ((0xAA00 :: UINT32) OR of_nat i) :: UINT16) = 0xAA00 OR of_nat i"
    using assms by (simp add: unsigned_or_eq unsigned_of_nat take_bit_nat_eq_self)
  show "(0xAA00 :: UINT16) OR of_nat i \<noteq> 0xFFFA"
  proof
    assume "(0xAA00 :: UINT16) OR of_nat i = 0xFFFA"
    then have "(0xAA00 OR of_nat i :: UINT32) AND 0xFF00 = ucast (0xFFFA :: UINT16) AND 0xFF00" using * by simp
    then show False using func_id_mask32(1) [OF assms] by simp
  qed
qed

lemma small_unat: "i < 256 \<Longrightarrow> unat (of_nat i :: UINT32) = i"
  by (simp add: unat_of_nat)

lemma validate_slot:
  assumes "i < 256"
  shows "am_validate_function_id g (0xAA00 OR of_nat i) = Inr (tbl_slot g i)"
  using func_id_cast [OF assms] func_id_mask32 [OF assms] small_unat [OF assms] assms
  by (auto simp: am_validate_function_id_def)

text \<open>
  The id \<open>0xAA00 + i\<close> names the function object in slot \<open>i\<close> of the table if there is one; the id of
  the base function names slot 0; an id without the signature names nothing. No id leaves the table.
\<close>

theorem am_validate_function_id_slot:
  assumes "length (tg_table g) = AM_TARGET_MAX_FUNCTIONS"
  shows "(\<forall>i<AM_TARGET_MAX_FUNCTIONS. am_validate_function_id g (0xAA00 OR of_nat i) =
            Inr (if tg_table g ! i = Null then None else Some i)) \<and>
    am_validate_function_id g 0xFFFA = Inr (if tg_table g ! 0 = Null then None else Some 0) \<and>
    (\<forall>func_id. func_id \<noteq> 0xFFFA \<and> ucast func_id AND 0xFF00 \<noteq> (0xAA00 :: UINT32) \<longrightarrow>
       am_validate_function_id g func_id = Inr None)"
  using assms validate_slot [of _ g] by (auto simp: tbl_slot_def am_validate_function_id_def)

lemma am_validate_function_id_slot_witness:
  "am_validate_function_id \<lparr>tg_table = start_table zero_func, tg_reg = []\<rparr> (0xAA00 OR of_nat 5) = Inr None \<and>
   am_validate_function_id \<lparr>tg_table = start_table zero_func, tg_reg = []\<rparr> 0xFFFA = Inr (Some 0) \<and>
   am_validate_function_id \<lparr>tg_table = start_table zero_func, tg_reg = []\<rparr> 0x1234 = Inr None"
proof -
  let ?g = "\<lparr>tg_table = start_table zero_func, tg_reg = []\<rparr>"
  have len: "length (tg_table ?g) = AM_TARGET_MAX_FUNCTIONS" by (simp add: start_table_def)
  have t: "\<forall>i<256. am_validate_function_id ?g (0xAA00 OR of_nat i) = Inr (if tg_table ?g ! i = Null then None else Some i)"
    "am_validate_function_id ?g 0xFFFA = Inr (if tg_table ?g ! 0 = Null then None else Some 0)"
    "\<forall>func_id. func_id \<noteq> 0xFFFA \<and> ucast func_id AND 0xFF00 \<noteq> (0xAA00 :: UINT32) \<longrightarrow>
       am_validate_function_id ?g func_id = Inr None"
    using am_validate_function_id_slot [OF len] by blast+
  have "start_table zero_func ! 5 = Null" "start_table zero_func ! 0 \<noteq> Null" by (simp_all add: start_table_def)
  moreover have "(0x1234 :: UINT16) \<noteq> 0xFFFA \<and> ucast (0x1234 :: UINT16) AND 0xFF00 \<noteq> (0xAA00 :: UINT32)"
    by simp
  with t(3) have "am_validate_function_id ?g 0x1234 = Inr None" by blast
  moreover have "(5 :: nat) < 256" by simp
  with t(1) have "am_validate_function_id ?g (0xAA00 OR of_nat 5) =
      Inr (if tg_table ?g ! 5 = Null then None else Some 5)" by blast
  ultimately show ?thesis using t(2) by (simp only: targ.select_convs if_True if_False HOL.simp_thms)
qed

section \<open>Creation\<close>

lemma find_slot_None: "find_slot ps i = None \<longleftrightarrow> Null \<notin> set ps"
  by (induction ps arbitrary: i) auto

lemma find_slot_Some:
  "find_slot ps k = Some i \<Longrightarrow> k \<le> i \<and> i - k < length ps \<and> ps ! (i - k) = Null \<and> (\<forall>j<i - k. ps ! j \<noteq> Null)"
proof (induction ps arbitrary: k)
  case Nil
  then show ?case by simp
next
  case (Cons p ps)
  show ?case
  proof (cases "p = Null")
    case True
    then show ?thesis using Cons.prems by simp
  next
    case False
    then have *: "Suc k \<le> i" "i - Suc k < length ps" "ps ! (i - Suc k) = Null" "\<forall>j<i - Suc k. ps ! j \<noteq> Null"
      using Cons.IH [of "Suc k"] Cons.prems by simp_all
    then have "i - k = Suc (i - Suc k)" by simp
    then show ?thesis using * False by (auto simp: nth_Cons split: nat.splits)
  qed
qed

text \<open>What the three \<open>create\<close> functions do to the response a function object carries.\<close>

lemma fn_set_simps [simp]:
  "fn_crResp (set_cr_op i w f) = (fn_crResp f)\<lparr>cr_ops := (cr_ops (fn_crResp f))[unat i := w]\<rparr>"
  "fn_crResp (set_acOps a b f) = (fn_crResp f)\<lparr>cr_acOps := [a, b]\<rparr>"
  "fn_handle (set_cr_op i w f) = fn_handle f" "fn_handle (set_acOps a b f) = fn_handle f"
  "fn_handle (set_base_ops f) = fn_handle f" "fn_handle (set_op i p f) = fn_handle f"
  "fn_pVdF (set_cr_op i w f) = fn_pVdF f" "fn_pVdF (set_acOps a b f) = fn_pVdF f" "fn_pVdF (set_base_ops f) = fn_pVdF f"
  by (simp_all add: set_cr_op_def set_acOps_def set_base_ops_def)

lemma set_name_Inr:
  assumes "set_name s f = Inr f'"
  shows "fn_handle f' = fn_handle f \<and> fn_pVdF f' = fn_pVdF f \<and> fn_pfnOps f' = fn_pfnOps f \<and>
    (\<exists>nm. length nm = length (cr_am_name (fn_crResp f)) \<and> fn_crResp f' = (fn_crResp f)\<lparr>cr_am_name := nm\<rparr>)"
  using assms
  by (auto simp: set_name_def res_simps sprintf_to_def
        intro!: exI [where x = "c_bytes s @ 0 # drop (Suc (length s)) (cr_am_name (fn_crResp f))"])

lemma create_device_ok:
  assumes "targ_create_device al junk f cap = Inr (AM_RET_GOOD, f')" "wf_cr (fn_crResp f)"
  shows "wf_cr (fn_crResp f') \<and> fn_handle f' = fn_handle f \<and> cr_devt (fn_crResp f') = fn_handle f"
  using assms
  by (auto simp: targ_create_device_def am_create_stata_device_def am_create_flat_device_def am_create_assca_device_def
        Let_def res_simps assca_pack_sizes_def wf_cr_def set_base_ops_def dest!: set_name_Inr split: if_splits)

lemma create_device_handle:
  assumes "targ_create_device al junk f cap = Inr (st, f')"
  shows "fn_handle f' = fn_handle f"
  using assms
  by (auto simp: targ_create_device_def am_create_stata_device_def am_create_flat_device_def am_create_assca_device_def
        Let_def res_simps dest!: set_name_Inr split: if_splits)

lemma create_function_cases:
  assumes "am_targ_create_function al junk g p1 l1 p2 = Inr (st, g', p2', n)" "length (tg_table g) = AM_TARGET_MAX_FUNCTIONS"
  obtains (alloc) "st = AM_RET_ALLOC_ERR" "g' = g" "p2' = p2" "n = None"
  | (fail) i where "st \<noteq> AM_RET_GOOD" "i < 256" "tg_table g ! i = Null" "g' = tbl_set g i Null" "p2' = p2" "n = None"
  | (good) i f where "st = AM_RET_GOOD" "find_slot (tg_table g) 0 = Some i" "fn_handle f = 0xAA00 OR of_nat i"
      "wf_cr (fn_crResp f)" "cr_devt (fn_crResp f) = fn_handle f" "g' = tbl_set g i (Live f)"
      "putb p2 0 (enc_cr_resp (fn_crResp f)) = Inr p2'" "n = Some 360"
proof -
  obtain i where i: "find_slot (tg_table g) 0 = Some i"
    using assms(1) by (auto simp: am_targ_create_function_def split: option.splits)
  have slot: "i < 256" "tg_table g ! i = Null" using find_slot_Some [OF i] assms(2) by simp_all
  define f0 where "f0 = zero_func\<lparr>fn_handle := AM_TARGET_FUNCTION_ID_SIG OR of_nat i, fn_pfnOps := Some zero_ops\<rparr>"
  have wf: "wf_cr (fn_crResp f0)" and h0: "fn_handle f0 = 0xAA00 OR of_nat i" by (simp_all add: f0_def zero_func_def)
  show thesis
  proof (cases "al 0")
    case False
    then show ?thesis using assms(1) i by (intro alloc) (simp_all add: am_targ_create_function_def)
  next
    case True
    with assms(1) i obtain cap f where c: "targ_create_device (\<lambda>k. al (k + 2)) junk f0 cap = Inr (st, f)"
      and r: "if st \<noteq> AM_RET_GOOD then
          (st, (if unat (AM_TARG_GET_FUNC_IDX (fn_handle f)) = i then tbl_set g i Null else tbl_set g i Dangling), p2, None)
            = (st, g', p2', n)
        else putb p2 0 (enc_cr_resp (fn_crResp f)) = Inr p2' \<and> g' = tbl_set g i (Live f) \<and> n = Some 360"
      by (auto simp: am_targ_create_function_def res_simps f0_def [symmetric] Let_def split: if_splits)
    have h: "fn_handle f = 0xAA00 OR of_nat i" using create_device_handle [OF c] h0 by simp
    show ?thesis
    proof (cases "st = AM_RET_GOOD")
      case True
      then show ?thesis using good [of i f] r i h create_device_ok [of _ _ f0 cap f] c wf h0 by simp
    next
      case False
      moreover have "unat (AM_TARG_GET_FUNC_IDX (fn_handle f)) = i"
        using func_id_mask32 [OF slot(1)] small_unat [OF slot(1)] by (simp add: AM_TARG_GET_FUNC_IDX_def h)
      ultimately show ?thesis using fail [of i] r slot by simp
    qed
  qed
qed

text \<open>A flat memory is created if its two allocations are granted.\<close>

lemma set_name_fits:
  assumes "wf_cr (fn_crResp f)" "length s < 64"
  shows "\<exists>nm. length nm = 64 \<and> set_name s f = Inr (upd_cr (\<lambda>r. r\<lparr>cr_am_name := nm\<rparr>) f)"
proof -
  obtain b where "sprintf_to (cr_am_name (fn_crResp f)) s = Inr b" "length b = 64"
    using sprintf_to_fits [of s "cr_am_name (fn_crResp f)"] assms by (auto simp: wf_cr_def)
  then show ?thesis by (auto simp: set_name_def)
qed

definition flat_mem :: "(nat \<Rightarrow> UINT8) \<Rightarrow> mem_cap \<Rightarrow> bytes" where
  "flat_mem junk cap =
     (if cap_typeSpecific cap ! TS_INIT_MEM_VAL \<noteq> 0 then fresh junk (unat (cap_maxSize cap))
      else replicate (unat (cap_maxSize cap)) 0)"

lemma create_flat_ok:
  assumes "al 0" "al 1" "fn_pfnOps f = Some ops" "length ops = AM_OP_MAX_OPS" "wf_cr (fn_crResp f)"
  shows "\<exists>f' ops'. am_create_flat_device al junk f cap = Inr (AM_RET_GOOD, f') \<and> flat_store f' = flat_mem junk cap \<and>
    fn_pfnOps f' = Some ops' \<and> length ops' = AM_OP_MAX_OPS \<and> fn_handle f' = fn_handle f \<and>
    ops' ! 16 = Some Fn_flat_write32_align \<and> ops' ! 17 = Some Fn_flat_read32_align \<and>
    cr_data_size (fn_crResp f') = cap_typeSpecific cap ! 0 \<and> cr_idx_size (fn_crResp f') = cap_typeSpecific cap ! 0 \<and>
    cr_acOps (fn_crResp f') = [op_word AM_PACK_ALIGN AM_OP_WRITE_ALIGN, op_word AM_PACK_ALIGN AM_OP_READ_ALIGN] \<and> wf_cr (fn_crResp f')"
proof -
  have nm: "length (''am_flat_'' @ fmt_04x (fn_handle f)) < 64" using length_fmt_04x [of "fn_handle f"] by simp
  define g where "g = (upd_cr (\<lambda>r. r\<lparr>cr_idx_size := cap_typeSpecific cap ! 0, cr_data_size := cap_typeSpecific cap ! 0,
      cr_pack_DataOffset := ucast (cap_typeSpecific cap ! 0)\<rparr>)
    (set_acOps (op_word AM_PACK_ALIGN AM_OP_WRITE_ALIGN) (op_word AM_PACK_ALIGN AM_OP_READ_ALIGN)
    (set_op AM_OP_READ_ALIGN Fn_flat_read32_align (set_op AM_OP_WRITE_ALIGN Fn_flat_write32_align (set_base_ops f)))))
    \<lparr>fn_pVdF := Live (FdFlat \<lparr>fl_data = Live (flat_mem junk cap), fl_size = cap_maxSize cap,
       fl_add_size = cap_typeSpecific cap ! 0\<rparr>)\<rparr>"
  have wf: "wf_cr (fn_crResp g)" using assms(5) by (simp add: g_def wf_cr_def set_base_ops_def set_acOps_def set_cr_op_def)
  have h: "fn_handle g = fn_handle f" by (simp add: g_def)
  obtain b where b: "length b = 64" "set_name (''am_flat_'' @ fmt_04x (fn_handle f)) g = Inr (upd_cr (\<lambda>r. r\<lparr>cr_am_name := b\<rparr>) g)"
    using set_name_fits [OF wf nm] by blast
  from b(2) have "am_create_flat_device al junk f cap =
      Inr (AM_RET_GOOD, upd_cr (\<lambda>r. r\<lparr>cr_devt := fn_handle g\<rparr>) (upd_cr (\<lambda>r. r\<lparr>cr_am_name := b\<rparr>) g))"
    using assms(1-3) h by (simp add: am_create_flat_device_def Let_def flat_mem_def g_def)
  then show ?thesis
    using assms(3-5) b(1)
    by (simp add: g_def flat_store_def h wf_cr_def set_base_ops_def set_acOps_def set_cr_op_def)
qed

text \<open>A static array as well; its memory is as it came from the allocator.\<close>

lemma create_stata_ok:
  assumes "al 0" "al 1" "fn_pfnOps f = Some ops" "length ops = AM_OP_MAX_OPS" "wf_cr (fn_crResp f)"
    and "sz = ucast (cap_typeSpecific cap ! TS_STAT_ARRAY_VAL_MAX_SIZE) * cap_maxSize cap"
  shows "\<exists>f' ops'. am_create_stata_device al junk f cap = Inr (AM_RET_GOOD, f') \<and>
    fn_pVdF f' = Live (FdStata \<lparr>st_data = Live (fresh junk (unat sz)), st_size = sz, st_array_size = cap_maxSize cap,
      st_idx_size = cap_typeSpecific cap ! TS_STAT_ARRAY_IDX_BYTE_SIZE,
      st_data_size = cap_typeSpecific cap ! TS_STAT_ARRAY_VAL_MAX_SIZE\<rparr>) \<and>
    fn_pfnOps f' = Some ops' \<and> length ops' = AM_OP_MAX_OPS \<and> fn_handle f' = fn_handle f \<and>
    ops' ! 8 = Some Fn_stata_sort \<and> ops' ! 16 = Some Fn_stata_write_idx32 \<and> ops' ! 17 = Some Fn_stata_read_idx32 \<and>
    cr_data_size (fn_crResp f') = cap_typeSpecific cap ! TS_STAT_ARRAY_VAL_MAX_SIZE \<and>
    cr_idx_size (fn_crResp f') = cap_typeSpecific cap ! TS_STAT_ARRAY_IDX_BYTE_SIZE \<and>
    cr_acOps (fn_crResp f') = [op_word AM_PACK_ALIGN AM_OP_WRITE_ALIGN, op_word AM_PACK_ALIGN AM_OP_READ_ALIGN] \<and> wf_cr (fn_crResp f')"
proof -
  let ?d = "cap_typeSpecific cap ! TS_STAT_ARRAY_VAL_MAX_SIZE" and ?i = "cap_typeSpecific cap ! TS_STAT_ARRAY_IDX_BYTE_SIZE"
  have nm: "length (''am_stata_'' @ fmt_04x (fn_handle f)) < 64" using length_fmt_04x [of "fn_handle f"] by simp
  define g where "g = (upd_cr (\<lambda>r. r\<lparr>cr_pack_DataOffset := ucast ?i\<rparr>)
    (set_acOps (op_word AM_PACK_ALIGN AM_OP_WRITE_ALIGN) (op_word AM_PACK_ALIGN AM_OP_READ_ALIGN)
    (set_op AM_OP_READ_ALIGN Fn_stata_read_idx32 (set_op AM_OP_WRITE_ALIGN Fn_stata_write_idx32
    (set_cr_op AM_OP_SORT (op_word AM_PACK_ACTION AM_OP_SORT) (set_op AM_OP_SORT Fn_stata_sort
    (set_base_ops (upd_cr (\<lambda>r. r\<lparr>cr_data_size := ?d, cr_idx_size := ?i\<rparr>) f))))))))
    \<lparr>fn_pVdF := Live (FdStata \<lparr>st_data = Live (fresh junk (unat sz)), st_size = sz, st_array_size = cap_maxSize cap,
      st_idx_size = ?i, st_data_size = ?d\<rparr>)\<rparr>"
  have wf: "wf_cr (fn_crResp g)" using assms(5) by (simp add: g_def wf_cr_def set_base_ops_def set_acOps_def set_cr_op_def)
  have h: "fn_handle g = fn_handle f" by (simp add: g_def)
  obtain b where b: "length b = 64" "set_name (''am_stata_'' @ fmt_04x (fn_handle f)) g = Inr (upd_cr (\<lambda>r. r\<lparr>cr_am_name := b\<rparr>) g)"
    using set_name_fits [OF wf nm] by blast
  from b(2) have "am_create_stata_device al junk f cap =
      Inr (AM_RET_GOOD, upd_cr (\<lambda>r. r\<lparr>cr_devt := fn_handle g\<rparr>) (upd_cr (\<lambda>r. r\<lparr>cr_am_name := b\<rparr>) g))"
    using assms(1-3) h by (simp add: am_create_stata_device_def Let_def g_def assms(6))
  then show ?thesis
    using assms(3-5) b(1)
    by (simp add: g_def h wf_cr_def set_base_ops_def set_acOps_def set_cr_op_def)
qed

definition op_func :: mem_func where
  "op_func = zero_func\<lparr>fn_pfnOps := Some zero_ops\<rparr>"

lemma op_func_simps [simp]: "fn_pfnOps op_func = Some zero_ops" "length zero_ops = 64" "wf_cr (fn_crResp op_func)"
  by (simp_all add: op_func_def zero_ops_def zero_func_def)

text \<open>
  C30: A creation that succeeds puts the new function object into the first free slot and changes no other;
  the response is its \<open>crResp\<close>, whose \<open>devt\<close> is the handle, and the id made of the handle names that object.
\<close>

theorem am_targ_create_function_good:
  assumes "am_targ_create_function al junk g p1 l1 p2 = Inr (AM_RET_GOOD, g', p2', n)"
    and "length (tg_table g) = AM_TARGET_MAX_FUNCTIONS"
  shows "\<exists>i f. i < AM_TARGET_MAX_FUNCTIONS \<and> tg_table g ! i = Null \<and> (\<forall>j<i. tg_table g ! j \<noteq> Null) \<and>
    g' = g\<lparr>tg_table := (tg_table g)[i := Live f]\<rparr> \<and> n = Some 360 \<and>
    rd_cr_resp p2' 0 = Inr (fn_crResp f) \<and>
    am_validate_function_id g' (ucast (cr_devt (fn_crResp f))) = Inr (Some i)"
  using assms
proof (cases rule: create_function_cases)
  case (good i f)
  have i: "i < 256" "tg_table g ! i = Null" "\<forall>j<i. tg_table g ! j \<noteq> Null"
    using find_slot_Some [OF good(2)] assms(2) by simp_all
  have "p2' = enc_cr_resp (fn_crResp f) @ drop 360 p2"
    using good(7) length_enc_cr_resp [OF good(4)] by (simp add: putb_Inr)
  then have "rd_cr_resp p2' 0 = Inr (fn_crResp f)" using rd_enc_cr_resp [OF good(4)] by simp
  moreover have "am_validate_function_id g' (ucast (cr_devt (fn_crResp f))) = Inr (Some i)"
    using i assms(2) validate_slot [OF i(1), of g'] func_id_cast(2) [OF i(1)]
    by (simp add: good(3,5,6) tbl_slot_def tbl_set_def)
  ultimately show ?thesis using i good(6,8) by (auto simp: tbl_set_def)
qed simp_all

lemma create_flat_request:
  "\<exists>g' p2'. am_targ_create_function (\<lambda>_. True) (\<lambda>_. 0) \<lparr>tg_table = start_table zero_func, tg_reg = []\<rparr>
     (enc_mem_cap (mk_cap 1 16 1 1 0 [4, 1, 0])) 168 (replicate 360 0) = Inr (AM_RET_GOOD, g', p2', Some 360)"
proof -
  let ?cap = "mk_cap 1 16 1 1 0 [4, 1, 0]"
  define f where "f = zero_func\<lparr>fn_handle := 0xAA01, fn_pfnOps := Some zero_ops\<rparr>"
  have s: "find_slot (start_table zero_func) 0 = Some (Suc 0)" by (simp add: start_table_def numeral_eq_Suc)
  have c: "rd_mem_cap (enc_mem_cap ?cap) 0 = Inr ?cap" using rd_enc_mem_cap [of ?cap "[]"] by simp
  have wf: "wf_cr (fn_crResp f)" "fn_pfnOps f = Some zero_ops" "length zero_ops = 64"
    by (simp_all add: f_def zero_func_def zero_ops_def)
  then obtain f' where f': "am_create_flat_device (\<lambda>_. True) (\<lambda>_. 0) f ?cap = Inr (AM_RET_GOOD, f')"
    using create_flat_ok [of "\<lambda>_. True" f zero_ops "\<lambda>_. 0" ?cap] by auto
  have d: "targ_create_device (\<lambda>k. True) (\<lambda>_. 0) f ?cap = Inr (AM_RET_GOOD, f')"
    using f' by (simp add: targ_create_device_def mk_cap_def)
  have "length (enc_cr_resp (fn_crResp f')) = 360"
    using create_device_ok [OF d] wf length_enc_cr_resp by simp
  then have "am_targ_create_function (\<lambda>_. True) (\<lambda>_. 0) \<lparr>tg_table = start_table zero_func, tg_reg = []\<rparr>
     (enc_mem_cap ?cap) 168 (replicate 360 0) =
     Inr (AM_RET_GOOD, tbl_set \<lparr>tg_table = start_table zero_func, tg_reg = []\<rparr> (Suc 0) (Live f'), enc_cr_resp (fn_crResp f'), Some 360)"
    using s c d by (simp add: am_targ_create_function_def f_def [symmetric] putb_def)
  then show ?thesis by blast
qed

lemma am_targ_create_function_good_witness:
  "\<exists>g' p2' n i f. am_targ_create_function (\<lambda>_. True) (\<lambda>_. 0) \<lparr>tg_table = start_table zero_func, tg_reg = []\<rparr>
     (enc_mem_cap (mk_cap 1 16 1 1 0 [4, 1, 0])) 168 (replicate 360 0) = Inr (AM_RET_GOOD, g', p2', n) \<and>
   i < 256 \<and> tg_table g' = (start_table zero_func)[i := Live f] \<and> rd_cr_resp p2' 0 = Inr (fn_crResp f) \<and>
   am_validate_function_id g' (ucast (cr_devt (fn_crResp f))) = Inr (Some i)"
proof -
  obtain g' p2' where c: "am_targ_create_function (\<lambda>_. True) (\<lambda>_. 0) \<lparr>tg_table = start_table zero_func, tg_reg = []\<rparr>
     (enc_mem_cap (mk_cap 1 16 1 1 0 [4, 1, 0])) 168 (replicate 360 0) = Inr (AM_RET_GOOD, g', p2', Some 360)"
    using create_flat_request by blast
  show ?thesis using am_targ_create_function_good [OF c] c by (fastforce simp: start_table_def)
qed

text \<open>A creation that fails leaves the function table and the response packet as they were.\<close>

theorem am_targ_create_function_fail:
  assumes "am_targ_create_function al junk g p1 l1 p2 = Inr (st, g', p2', n)" "st \<noteq> AM_RET_GOOD"
    and "length (tg_table g) = AM_TARGET_MAX_FUNCTIONS"
  shows "g' = g \<and> p2' = p2"
  using assms(1,3)
proof (cases rule: create_function_cases)
  case (fail i)
  then show ?thesis using list_update_id [of "tg_table g" i] by (simp add: tbl_set_def)
qed (use assms(2) in simp_all)

lemma am_targ_create_function_fail_witness:
  "am_targ_create_function (\<lambda>_. False) (\<lambda>_. 0) \<lparr>tg_table = replicate 256 Null, tg_reg = []\<rparr> [] 0 [7] =
     Inr (2, \<lparr>tg_table = replicate 256 Null, tg_reg = []\<rparr>, [7], None)"
proof -
  have "find_slot (replicate 256 Null) 0 = Some 0" by (simp add: numeral_eq_Suc)
  then have "am_targ_create_function (\<lambda>_. False) (\<lambda>_. 0) \<lparr>tg_table = replicate 256 Null, tg_reg = []\<rparr> [] 0 [7] =
     Inr (2, \<lparr>tg_table = replicate 256 Null, tg_reg = []\<rparr>, [7], None)"
    by (simp add: am_targ_create_function_def)
  from this am_targ_create_function_fail [OF this] show ?thesis by simp
qed

text \<open>
  With all slots taken, the code compares a pointer with \<open>NULL\<close> that it never set: the answer
  \<open>AM_RET_NO_DEVICE_SLOT\<close> is not certain.
\<close>

theorem am_targ_create_function_full:
  assumes "Null \<notin> set (tg_table g)"
  shows "am_targ_create_function al junk g p1 l1 p2 = Inl Uninit"
  using assms find_slot_None [of "tg_table g" 0] by (simp add: am_targ_create_function_def)

lemma am_targ_create_function_full_witness:
  "am_targ_create_function (\<lambda>_. True) (\<lambda>_. 0) \<lparr>tg_table = replicate 256 (Live zero_func), tg_reg = []\<rparr> [] 0 [] = Inl Uninit"
  by (rule am_targ_create_function_full) simp

end
