(* ===== verification/AM_Targ_Types.thy ===== *)
theory AM_Targ_Types
  imports AM_Targ_Props AM_Pack_Props
begin

text \<open>
  The types of the calls a target makes. Every operator a target installs stands under an operator code that goes with its function
  type, and belongs to the member of the data union that its function object holds. Whatever requests were served before, a request
  makes a call through a wrong type exactly if its packet type is not the one that goes with its operator code; no operator ever reads
  the union through a member other than the one stored.
\<close>

section \<open>Results that are not type errors\<close>

definition clean :: "'a res \<Rightarrow> bool" where
  "clean r \<longleftrightarrow> r \<noteq> Inl BadCall \<and> r \<noteq> Inl BadUnion"

named_theorems clean_intros \<open>parts whose results are not type errors\<close>

lemma clean_Inr [clean_intros, simp]: "clean (Inr x)"
  by (simp add: clean_def)

lemma clean_Inl [simp]: "clean (Inl e) \<longleftrightarrow> e \<noteq> BadCall \<and> e \<noteq> BadUnion"
  by (simp add: clean_def)

lemma clean_bindr [clean_intros]: "clean m \<Longrightarrow> (\<And>x. m = Inr x \<Longrightarrow> clean (f x)) \<Longrightarrow> clean (bindr m f)"
  by (cases m) (auto simp: clean_def)

lemma clean_if [clean_intros]: "(b \<Longrightarrow> clean x) \<Longrightarrow> (\<not> b \<Longrightarrow> clean y) \<Longrightarrow> clean (if b then x else y)"
  by simp

lemma clean_prod [clean_intros]: "(\<And>a b. p = (a, b) \<Longrightarrow> clean (f a b)) \<Longrightarrow> clean (case p of (a, b) \<Rightarrow> f a b)"
  by (cases p) simp

lemma clean_option [clean_intros]:
  "(p = None \<Longrightarrow> clean x) \<Longrightarrow> (\<And>a. p = Some a \<Longrightarrow> clean (f a)) \<Longrightarrow> clean (case p of None \<Rightarrow> x | Some a \<Rightarrow> f a)"
  by (cases p) simp_all

lemma clean_Let [clean_intros]: "clean (f x) \<Longrightarrow> clean (Let x f)"
  by simp

lemma clean_assert [clean_intros]: "clean (AM_ASSERT b)"
  by (simp add: AM_ASSERT_def)

lemma clean_deref [clean_intros]: "clean (deref p)"
  by (cases p) simp_all

lemma clean_the_buf [clean_intros]: "clean (the_buf p)"
  by (cases p) simp_all

lemma clean_getb [clean_intros]: "clean (getb b off n)"
  by (simp add: getb_def)

lemma clean_putb [clean_intros]: "clean (putb b off xs)"
  by (simp add: putb_def)

lemma clean_rd [clean_intros]: "clean (rd8 b off)" "clean (rd16 b off)" "clean (rd32 b off)" "clean (rd64 b off)"
  unfolding rd8_def rd16_def rd32_def rd64_def rd_def by (intro clean_intros)+

lemma clean_wr [clean_intros]: "clean (wr8 b off v)" "clean (wr16 b off v')" "clean (wr32 b off v'')" "clean (wr64 b off v3)"
  unfolding wr8_def wr16_def wr32_def wr64_def by (intro clean_intros)+

lemma clean_memcpy [clean_intros]: "clean (memcpy dst doff src soff n)"
  unfolding memcpy_def by (intro clean_intros)

lemma clean_rd_words [clean_intros]: "clean (rd_words n b off)"
  by (induction n b off rule: rd_words.induct) (auto intro!: clean_intros)

section \<open>Devices\<close>

lemma clean_getel [clean_intros]: "clean (getel es a)"
  by (simp add: getel_def split: option.split)

lemma clean_upd_el [clean_intros]: "clean (upd_el es a g)" "clean (upd_el_opt es p g)"
  by (auto simp: upd_el_def upd_el_opt_def intro!: clean_intros split: option.split)

lemma clean_nth_bkt [clean_intros]: "clean (nth_bkt bks i)"
  by (simp add: nth_bkt_def)

lemma clean_find [clean_intros]: "clean (HASH_FIND_IN_BKT fuel es p key keylen)"
  by (induction fuel es p key keylen rule: HASH_FIND_IN_BKT.induct) (auto intro!: clean_intros)

lemma clean_expand_chain [clean_intros]: "clean (expand_chain fuel nb2 ideal p st)"
  by (induction fuel nb2 ideal p st rule: expand_chain.induct) (auto simp: Let_def intro!: clean_intros)

lemma clean_expand_chains [clean_intros]: "clean (expand_chains fuel nb2 ideal bs st)"
  by (induction fuel nb2 ideal bs st rule: expand_chains.induct) (auto intro!: clean_intros)

lemma clean_hash [clean_intros]: "clean (HASH_FIND h key keylen)" "clean (HASH_ADD_KEYPTR al h key keylen a)"
  unfolding HASH_FIND_def HASH_ADD_KEYPTR_def link_tail_def HASH_MAKE_TABLE_def HASH_ADD_TO_BKT_def HASH_EXPAND_BUCKETS_def
  by (intro clean_intros; simp)+

lemma clean_assca [clean_intros]: "clean (amlib_assca_get_key_val aa pKey pData)" "clean (amlib_assca_add_key_fixfix al aa pKey pData)"
  unfolding amlib_assca_get_key_val_def amlib_assca_add_key_fixfix_def by (intro clean_intros)+

lemma clean_comp [clean_intros]: "clean (am_unsigned_intg_sort_comp32 mem p q)"
  unfolding am_unsigned_intg_sort_comp32_def by (intro clean_intros)

lemma clean_set_ptrval [clean_intros]: "clean (am_set_ptrval dst p src q n)"
  unfolding am_set_ptrval_def by (intro clean_intros)

lemma clean_merge_both [clean_intros]: "(\<And>p q. clean (sort_fn mem p q)) \<Longrightarrow> clean (merge_both n sort_fn mem m e i j k mb)"
  by (induction n sort_fn mem m e i j k mb rule: merge_both.induct) (subst merge_both.simps, auto intro!: clean_intros)

lemma clean_copy_src [clean_intros]: "clean (copy_src n lim src q dst p)"
  by (induction n lim src q dst p rule: copy_src.induct) (subst copy_src.simps, auto intro!: clean_intros)

lemma clean_copy_dst [clean_intros]: "clean (copy_dst n lim src q dst p)"
  by (induction n lim src q dst p rule: copy_dst.induct) (subst copy_dst.simps, auto intro!: clean_intros)

lemma clean_merge_sort [clean_intros]: "(\<And>mem p q. clean (sort_fn mem p q)) \<Longrightarrow> clean (am_stata_merge_sort mb mem s e n sort_fn)"
  by (induction mb mem s e n sort_fn rule: am_stata_merge_sort.induct)
    (subst am_stata_merge_sort.simps, auto simp: Let_def am_stata_merge_def intro!: clean_intros)

lemma clean_sort_begin [clean_intros]: "clean (am_stata_merge_sort_begin al junk mem s e n am_unsigned_intg_sort_comp32)"
  unfolding am_stata_merge_sort_begin_def by (intro clean_intros)

section \<open>Well-typed functions\<close>

text \<open>The function type a packet type is served by, and the one that goes with an operator code.\<close>

definition packet_type :: "UINT8 \<Rightarrow> fn_type option" where
  "packet_type t =
     (if t = ucast AM_PACK_TYPE_OPCODE_ONLY then Some Ft_op_only
      else if t = ucast AM_PACK_TYPE_FIVO then Some Ft_fivo
      else if t = ucast AM_PACK_ALIGN \<or> t = ucast AM_KPACK then Some Ft_align
      else if t = ucast AM_PACK_ACTION then Some Ft_action
      else None)"

definition op_type :: "nat \<Rightarrow> fn_type option" where
  "op_type c =
     (if c \<in> {1, 2, 5, 6, 7} then Some Ft_op_only
      else if c \<in> {3, 4} then Some Ft_fivo
      else if c = 8 then Some Ft_action
      else if c \<in> {16, 17} then Some Ft_align
      else None)"

definition targ_fns :: "fn_ptr set" where
  "targ_fns = {Fn_targ_identify_resp, Fn_targ_get_cap_count, Fn_targ_get_cap, Fn_targ_create_function, Fn_targ_release, Fn_targ_open,
     Fn_targ_close, Fn_stata_sort, Fn_flat_read32_align, Fn_flat_write32_align, Fn_stata_read_idx32, Fn_stata_write_idx32,
     Fn_assca_read32_align, Fn_assca_write32_align}"

text \<open>The member of the data union an operator works on.\<close>

definition fits :: "fn_ptr \<Rightarrow> func_data ptr \<Rightarrow> bool" where
  "fits fp p \<longleftrightarrow>
     (fp \<in> {Fn_flat_read32_align, Fn_flat_write32_align} \<longrightarrow> (\<exists>d. p = Live (FdFlat d))) \<and>
     (fp \<in> {Fn_stata_read_idx32, Fn_stata_write_idx32, Fn_stata_sort} \<longrightarrow> (\<exists>d. p = Live (FdStata d))) \<and>
     (fp \<in> {Fn_assca_read32_align, Fn_assca_write32_align} \<longrightarrow> (\<exists>d. p = Live (FdAssca d)))"

definition op_typed :: "func_data ptr \<Rightarrow> nat \<Rightarrow> fn_ptr \<Rightarrow> bool" where
  "op_typed p c fp \<longleftrightarrow> fp \<in> targ_fns \<and> op_type c = Some (fn_type_of fp) \<and> fits fp p"

definition ops_typed :: "func_data ptr \<Rightarrow> fn_ptr option list \<Rightarrow> bool" where
  "ops_typed p ops \<longleftrightarrow> length ops = AM_OP_MAX_OPS \<and> (\<forall>c<AM_OP_MAX_OPS. \<forall>fp. ops ! c = Some fp \<longrightarrow> op_typed p c fp)"

definition func_typed :: "mem_func \<Rightarrow> bool" where
  "func_typed f \<longleftrightarrow> (\<exists>ops. fn_pfnOps f = Some ops \<and> ops_typed (fn_pVdF f) ops)"

definition targ_typed :: "targ \<Rightarrow> bool" where
  "targ_typed g \<longleftrightarrow> length (tg_table g) = AM_TARGET_MAX_FUNCTIONS \<and>
     (\<forall>i<AM_TARGET_MAX_FUNCTIONS. \<forall>f. tg_table g ! i = Live f \<longrightarrow> func_typed f)"

lemma ops_typed_zero: "ops_typed p zero_ops"
  by (simp add: ops_typed_def zero_ops_def)

lemma ops_typed_upd: "ops_typed p ops \<Longrightarrow> op_typed p c fp \<Longrightarrow> ops_typed p (ops[c := Some fp])"
  unfolding ops_typed_def by (metis length_list_update nth_list_update_eq nth_list_update_neq option.inject)

lemma fn_ops_base:
  "fn_pfnOps (set_base_ops f) = map_option (\<lambda>ops. ops[5 := Some Fn_targ_release, 6 := Some Fn_targ_open, 7 := Some Fn_targ_close]) (fn_pfnOps f)"
  by (cases "fn_pfnOps f") (simp_all add: set_base_ops_def set_cr_op_def)

lemma created_typed:
  assumes "targ_create_device al junk f cap = Inr (AM_RET_GOOD, f')" "fn_pfnOps f = Some zero_ops"
  shows "func_typed f'"
  using assms
  by (auto simp: targ_create_device_def am_create_stata_device_def am_create_flat_device_def am_create_assca_device_def Let_def res_simps
      func_typed_def fn_ops_base set_cr_op_def set_acOps_def op_typed_def op_type_def targ_fns_def fits_def dest!: set_name_Inr
      intro!: ops_typed_upd ops_typed_zero split: if_splits)

lemma base_typed: "am_targ_init_base_function al = (AM_RET_GOOD, Some base) \<Longrightarrow> func_typed base"
  by (auto simp: am_targ_init_base_function_def func_typed_def op_typed_def op_type_def targ_fns_def fits_def
      intro!: ops_typed_upd ops_typed_zero split: if_splits)

lemma start_typed: "func_typed base \<Longrightarrow> targ_typed \<lparr>tg_table = start_table base, tg_reg = reg\<rparr>"
  by (auto simp: targ_typed_def start_table_def nth_list_update)

section \<open>Calls of operators\<close>

lemma clean_flat_ops:
  assumes "fn_pVdF f = Live (FdFlat d)"
  shows "clean (am_flat_read32_align f p1 p2)" "clean (am_flat_write32_align f p1 p2)"
  unfolding am_flat_read32_align_def am_flat_write32_align_def assms deref.simps bindr_Inr fd_flat.simps by (intro clean_intros)+

lemma clean_stata_ops:
  assumes "fn_pVdF f = Live (FdStata d)"
  shows "clean (am_stata_read_idx32 f p1 p2)" "clean (am_stata_write_idx32 f p1 p2)" "clean (am_stata_sort al junk f p1 l1)"
  unfolding am_stata_read_idx32_def am_stata_write_idx32_def am_stata_sort_def rd_sort_param_def assms deref.simps bindr_Inr fd_stata.simps
  by (intro clean_intros)+

lemma clean_assca_ops:
  assumes "fn_pVdF f = Live (FdAssca d)"
  shows "clean (am_assca_read32_align f p1 p2)" "clean (am_assca_write32_align al f p1 p2)"
  unfolding am_assca_read32_align_def am_assca_write32_align_def assms deref.simps bindr_Inr fd_assca.simps by (intro clean_intros)+

lemma clean_targ_ops:
  "clean (am_targ_identify_resp resp)" "clean (am_targ_get_cap_count resp)" "clean (am_targ_release resp)" "clean (am_targ_open resp)"
  "clean (am_targ_close resp)"
  unfolding am_targ_identify_resp_def am_targ_get_cap_count_def am_targ_release_def am_targ_open_def am_targ_close_def
  by (intro clean_intros)+

lemma call_clean:
  assumes "fp \<in> targ_fns" "fits fp (fn_pVdF f)"
  shows "fn_type_of fp = Ft_align \<Longrightarrow> clean (call_align fp al f p1 p2)"
    and "fn_type_of fp = Ft_op_only \<Longrightarrow> clean (call_op_only fp resp)"
    and "fn_type_of fp = Ft_action \<Longrightarrow> clean (call_action fp al junk f p1 l1)"
  using assms by (cases fp; force simp: targ_fns_def fits_def intro: clean_flat_ops clean_stata_ops clean_assca_ops clean_targ_ops)+

lemma clean_copy_caps [clean_intros]: "clean (copy_caps n i reg b off)"
  by (induction n i reg b off rule: copy_caps.induct) (auto intro!: clean_intros)

lemma clean_create [clean_intros]: "clean (targ_create_device al junk f cap)"
  unfolding targ_create_device_def am_create_stata_device_def am_create_flat_device_def am_create_assca_device_def set_name_def sprintf_to_def
  by (intro clean_intros)

lemma call_fivo_clean:
  assumes "fp \<in> targ_fns" "fn_type_of fp = Ft_fivo"
  shows "clean (call_fivo fp al junk g p1 l1 p2)"
  using assms
  by (auto simp: targ_fns_def am_targ_get_cap_def am_targ_create_function_def Let_def rd_mem_cap_def intro!: clean_intros)

text \<open>Through another type every call is the fault.\<close>

lemma call_mismatch:
  "fn_type_of fp \<noteq> Ft_align \<Longrightarrow> call_align fp al f p1 p2 = Inl BadCall"
  "fn_type_of fp \<noteq> Ft_op_only \<Longrightarrow> call_op_only fp resp = Inl BadCall"
  "fn_type_of fp \<noteq> Ft_fivo \<Longrightarrow> call_fivo fp al junk g q1 l1 q2 = Inl BadCall"
  "fn_type_of fp \<noteq> Ft_action \<Longrightarrow> call_action fp al junk f p1 l1 = Inl BadCall"
  by (cases fp; simp)+

section \<open>The target keeps its types\<close>

lemma fits_kind:
  "fits fp (Live (FdFlat d)) \<Longrightarrow> fits fp (Live (FdFlat d'))" "fits fp (Live (FdStata t)) \<Longrightarrow> fits fp (Live (FdStata t'))"
  "fits fp (Live (FdAssca a)) \<Longrightarrow> fits fp (Live (FdAssca a'))"
  by (auto simp: fits_def)

lemma func_typed_kind:
  assumes "func_typed f" "fn_pfnOps f' = fn_pfnOps f" "\<And>fp. fits fp (fn_pVdF f) \<Longrightarrow> fits fp (fn_pVdF f')"
  shows "func_typed f'"
  using assms by (auto simp: func_typed_def ops_typed_def op_typed_def)

lemma fd_Inr [res_simps]:
  "fd_flat u = Inr d \<longleftrightarrow> u = FdFlat d" "fd_stata u = Inr t \<longleftrightarrow> u = FdStata t" "fd_assca u = Inr a \<longleftrightarrow> u = FdAssca a"
  by (cases u; simp)+

lemma call_align_typed:
  assumes "call_align fp al f p1 p2 = Inr (st, f', p')" "func_typed f"
  shows "func_typed f'"
proof (rule func_typed_kind [OF assms(2)])
  note ops = am_flat_read32_align_def am_flat_write32_align_def am_stata_read_idx32_def am_stata_write_idx32_def
    am_assca_read32_align_def am_assca_write32_align_def set_assca_def
  show "fn_pfnOps f' = fn_pfnOps f" using assms(1) by (cases fp; auto simp: ops res_simps split: if_splits)
  show "fits q (fn_pVdF f')" if "fits q (fn_pVdF f)" for q
    using assms(1) that by (cases fp; auto simp: ops res_simps split: if_splits intro: fits_kind)
qed

lemma call_action_typed:
  assumes "call_action fp al junk f p1 l1 = Inr (st, f')" "func_typed f"
  shows "func_typed f'"
proof (rule func_typed_kind [OF assms(2)])
  show "fn_pfnOps f' = fn_pfnOps f" using assms(1) by (cases fp; auto simp: am_stata_sort_def res_simps split: if_splits)
  show "fits q (fn_pVdF f')" if "fits q (fn_pVdF f)" for q
    using assms(1) that by (cases fp; auto simp: am_stata_sort_def res_simps split: if_splits intro: fits_kind)
qed

lemma tbl_set_entry:
  assumes "targ_typed g" "\<And>f. p = Live f \<Longrightarrow> func_typed f"
  shows "targ_typed (tbl_set g i p)"
proof -
  have "func_typed f" if "j < AM_TARGET_MAX_FUNCTIONS" "(tg_table g)[i := p] ! j = Live f" for j f
    using assms that by (cases "j = i") (auto simp: targ_typed_def)
  then show ?thesis using assms(1) by (simp add: targ_typed_def tbl_set_def)
qed

lemma tbl_set_typed:
  "targ_typed g \<Longrightarrow> func_typed f \<Longrightarrow> targ_typed (tbl_set g i (Live f))" "targ_typed g \<Longrightarrow> targ_typed (tbl_set g i Null)"
  "targ_typed g \<Longrightarrow> targ_typed (tbl_set g i Dangling)"
  by (auto intro: tbl_set_entry)

lemma create_typed:
  assumes "am_targ_create_function al junk g p1 l1 p2 = Inr (st, g', p2', n)" "targ_typed g"
  shows "targ_typed g'"
  using assms
  by (auto simp: am_targ_create_function_def Let_def res_simps intro!: tbl_set_typed split: option.splits if_splits dest!: created_typed)

lemma call_fivo_typed:
  "call_fivo fp al junk g p1 l1 p2 = Inr (st, g', p2', n) \<Longrightarrow> targ_typed g \<Longrightarrow> targ_typed g'"
  by (cases fp; auto simp: res_simps dest: create_typed)

lemma dispatch_typed:
  assumes "dispatch al junk g i f fp opc rx resp = Inr (st, g', rx', resp', n)" "targ_typed g" "func_typed f"
  shows "targ_typed g'"
  using assms
  by (auto simp: dispatch_def dispatch_align_def Let_def res_simps intro: tbl_set_typed call_align_typed call_action_typed call_fivo_typed
      split: if_splits)

lemma tbl_get_typed: "targ_typed g \<Longrightarrow> tbl_get g i = Inr f \<Longrightarrow> func_typed f"
  by (auto simp: targ_typed_def tbl_get_def res_simps split: if_splits)

lemma process_cmd_typed:
  assumes "am_pack_process_cmd al junk g pFunc rx resp = Inr (st, g', rx', resp', n)" "targ_typed g"
  shows "targ_typed g'"
proof -
  obtain resp0 st0 rx0 resp1 tx where "run_func al junk g pFunc rx resp0 = Inr (st0, g', rx0, resp1, tx)"
    using assms(1) by (auto simp: am_pack_process_cmd_def res_simps split: if_splits option.splits)
  then show ?thesis
    using assms(2) by (auto simp: run_func_def res_simps split: option.splits intro: dispatch_typed tbl_get_typed)
qed

section \<open>Any requests, in any order\<close>

text \<open>The states of the function table: as the target starts, and after any request that was answered.\<close>

inductive targ_reach :: "targ \<Rightarrow> bool" where
  targ_start: "am_targ_init_base_function al = (AM_RET_GOOD, Some base) \<Longrightarrow> targ_reach \<lparr>tg_table = start_table base, tg_reg = reg\<rparr>"
| targ_served: "targ_reach g \<Longrightarrow> am_validate_function_id g func_id = Inr pFunc \<Longrightarrow>
    am_pack_process_cmd al junk g pFunc rx resp = Inr (st, g', rx', resp', n) \<Longrightarrow> targ_reach g'"

lemma targ_reach_typed: "targ_reach g \<Longrightarrow> targ_typed g"
  by (induction rule: targ_reach.induct) (auto dest: base_typed intro: start_typed process_cmd_typed)

lemma dispatch_types:
  assumes "op_typed (fn_pVdF f) (unat (w_op w)) fp" "8 \<le> length p"
  shows "dispatch al junk g i f fp opc (enc_wrapper w @ p) resp \<noteq> Inl BadUnion"
    and "dispatch al junk g i f fp opc (enc_wrapper w @ p) resp = Inl BadCall \<longleftrightarrow>
      (\<exists>t. packet_type (w_packType w) = Some t \<and> op_type (unat (w_op w)) \<noteq> Some t)"
proof -
  let ?d = "dispatch al junk g i f fp opc (enc_wrapper w @ p) resp"
  have fp: "fp \<in> targ_fns" "op_type (unat (w_op w)) = Some (fn_type_of fp)" "fits fp (fn_pVdF f)" using assms(1) by (simp_all add: op_typed_def)
  have d: "?d = (if w_packType w = 5 \<or> w_packType w = 3 then dispatch_align al g i f fp opc (enc_wrapper w @ p) resp
      else if w_packType w = 1 then bindr (call_op_only fp resp) (\<lambda>(st, resp, n). Inr (st, g, enc_wrapper w @ p, resp, n))
      else if w_packType w = 2 then
        bindr (rd64 (enc_wrapper w @ p) 8) (\<lambda>l1.
        bindr (call_fivo fp al junk g (drop 16 (enc_wrapper w @ p)) l1 (drop 8 resp)) (\<lambda>(st, g, b2, n).
        Inr (st, g, enc_wrapper w @ p, take 8 resp @ b2, n)))
      else if w_packType w = 4 then
        bindr (rd16 (enc_wrapper w @ p) off_size) (\<lambda>sz.
        bindr (call_action fp al junk f (Some (drop 8 (enc_wrapper w @ p))) (ucast sz - of_nat sizeof_WRAPPER)) (\<lambda>(st, f').
        Inr (st, tbl_set g i (Live f'), enc_wrapper w @ p, resp, Some (of_nat sizeof_WRAPPER))))
      else Inr (AM_RET_INVALID_PACK_OP, g, enc_wrapper w @ p, resp, None))"
    by (simp add: dispatch_def wrap_simps)
  have rd: "\<exists>l. rd64 (enc_wrapper w @ p) 8 = Inr l" "\<exists>z. rd16 (enc_wrapper w @ p) off_size = Inr z"
    using assms(2) by (simp_all add: rd_defs rd_in_bounds)
  have clean: "clean ?d" if "packet_type (w_packType w) = None \<or> packet_type (w_packType w) = Some (fn_type_of fp)"
    unfolding d dispatch_align_def Let_def using that fp(1,3)
    by (intro clean_intros call_clean call_fivo_clean) (auto simp: packet_type_def)
  have bad: "?d = Inl BadCall" if "packet_type (w_packType w) = Some t" "t \<noteq> fn_type_of fp" for t
    using that rd by (auto simp: d dispatch_align_def Let_def packet_type_def call_mismatch split: if_splits)
  show "?d \<noteq> Inl BadUnion" using clean bad by (cases "packet_type (w_packType w)") (force simp: clean_def)+
  show "?d = Inl BadCall \<longleftrightarrow> (\<exists>t. packet_type (w_packType w) = Some t \<and> op_type (unat (w_op w)) \<noteq> Some t)"
    using clean bad fp(2) by (cases "packet_type (w_packType w)") (force simp: clean_def)+
qed

text \<open>Around the call the dispatcher makes no type error.\<close>

lemma process_cmd_types:
  assumes "12 \<le> length resp" "e = BadCall \<or> e = BadUnion"
  shows "am_pack_process_cmd al junk g pFunc (enc_wrapper w @ p) resp = Inl e \<longleftrightarrow>
    run_func al junk g pFunc (enc_wrapper w @ p) (resp_start w resp) = Inl e"
proof -
  have "clean (if error \<noteq> AM_RET_GOOD then bindr (error_resp resp error) (\<lambda>resp. Inr (error, g, rx, resp, sizeof_RESP_ERR))
      else case tx of None \<Rightarrow> Inl Uninit | Some n \<Rightarrow> bindr (wr16 resp off_size (ucast n)) (\<lambda>resp. Inr (error, g, rx, resp, n)))"
    for error and g :: targ and rx :: bytes and resp tx
    unfolding error_resp_def by (intro clean_intros) simp
  then show ?thesis using assms by (fastforce simp: process_cmd_run clean_def bindr_eq_Inl)
qed

text \<open>
  C19: The calls of a target are type correct for the requests the library sends. In every state of the function table that any requests
  lead to, a request makes a call through a wrong function type exactly if the function it names has an operator under its code and its
  packet type is one of the five but not the one that goes with the code; the dispatcher compares neither. Whatever the request, no
  operator reads the data union through a member other than the one stored.
\<close>

theorem am_targ_calls_typed:
  assumes "targ_reach g" "am_validate_function_id g (w_func_id w) = Inr pFunc" "8 \<le> length p" "12 \<le> length resp"
  shows "am_pack_process_cmd al junk g pFunc (enc_wrapper w @ p) resp \<noteq> Inl BadUnion \<and>
    (am_pack_process_cmd al junk g pFunc (enc_wrapper w @ p) resp = Inl BadCall \<longleftrightarrow>
      (\<exists>i f fp t. pFunc = Some i \<and> has_op g i f (w_op w) (Some fp) \<and>
         packet_type (w_packType w) = Some t \<and> op_type (unat (w_op w)) \<noteq> Some t))"
proof (cases "\<exists>i f fp. pFunc = Some i \<and> has_op g i f (w_op w) (Some fp)")
  case True
  then obtain i f fp where op: "pFunc = Some i" "has_op g i f (w_op w) (Some fp)" by blast
  then have "op_typed (fn_pVdF f) (unat (w_op w)) fp"
    using tbl_get_typed [OF targ_reach_typed [OF assms(1)], of i f] by (auto simp: has_op_def func_typed_def ops_typed_def)
  note d = dispatch_types [OF this assms(3)]
  show ?thesis using d op by (auto simp: process_cmd_types [OF assms(4)] run_func_Some)
next
  case False
  have "clean (run_func al junk g pFunc (enc_wrapper w @ p) (resp_start w resp))"
    unfolding run_func_def tbl_get_def op_entry_def using False
    by (auto simp: wrap_simps has_op_def tbl_get_def res_simps intro!: clean_intros split: option.split if_splits)
  then show ?thesis using False by (simp add: process_cmd_types [OF assms(4)] clean_def)
qed

lemma am_targ_calls_typed_witness:
  "\<exists>base. am_targ_init_base_function (\<lambda>_. True) = (AM_RET_GOOD, Some base) \<and>
    am_pack_process_cmd (\<lambda>_. True) (\<lambda>_. 0) \<lparr>tg_table = start_table base, tg_reg = []\<rparr> (Some 0)
      (enc_wrapper \<lparr>w_func_id = 0xFFFA, w_packType = 1, w_op = 4, w_appTag = 0, w_size = 16\<rparr> @ replicate 8 0) (replicate 512 0) = Inl BadCall"
proof -
  let ?w = "\<lparr>w_func_id = 0xFFFA, w_packType = 1, w_op = 4, w_appTag = 0, w_size = 16\<rparr> :: pack_wrapper"
  obtain base where b: "am_targ_init_base_function (\<lambda>_. True) = (AM_RET_GOOD, Some base)"
    "fn_pfnOps base = Some (zero_ops[1 := Some Fn_targ_identify_resp, 2 := Some Fn_targ_get_cap_count, 3 := Some Fn_targ_get_cap,
       4 := Some Fn_targ_create_function])"
    by (simp add: am_targ_init_base_function_def)
  let ?g = "\<lparr>tg_table = start_table base, tg_reg = []\<rparr> :: targ"
  have id: "am_validate_function_id ?g (w_func_id ?w) = Inr (Some 0)" by (simp add: am_validate_function_id_def tbl_slot_def start_table_def)
  have op: "has_op ?g 0 base (w_op ?w) (Some Fn_targ_create_function)"
    using b(2) by (simp add: has_op_def tbl_get_def start_table_def zero_ops_def)
  show ?thesis
    using am_targ_calls_typed [OF targ_start [OF b(1)] id, of "replicate 8 0" "replicate 512 0" "\<lambda>_. True" "\<lambda>_. 0"] b(1) op
    by (auto simp: packet_type_def op_type_def)
qed

end
