(* ===== verification/AM_Device_Props.thy ===== *)
theory AM_Device_Props
  imports AM_Virtd AM_Targ_Props
begin

text \<open>
  The flat memory and the static array from their creation on: what a client reads is what was written
  last, or what the device was created with; accesses outside are not caught; memory is released once.
\<close>

section \<open>Addresses\<close>

definition flat_addr :: "nat \<Rightarrow> bytes \<Rightarrow> nat option" where
  "flat_addr n k =
     (let p = unat (le_dec (take 4 k) :: UINT32) in if 4 \<le> length k \<and> p + 4 \<le> n then Some p else None)"

definition stata_addr :: "nat \<Rightarrow> bytes \<Rightarrow> nat option" where
  "stata_addr n k =
     (let p = 4 * unat (le_dec (take 4 k) :: UINT32) in if 4 \<le> length k \<and> p + 4 \<le> n then Some p else None)"

lemma flat_cell_addr: "flat_cell f = flat_addr (length (flat_store f))"
  by (rule ext) (simp add: flat_cell_def flat_addr_def)

lemma stata_cell_addr: "stata_cell f = stata_addr (length (stata_store f))"
  by (rule ext) (simp add: stata_cell_def stata_addr_def)

lemma addr_bound: "flat_addr n k = Some q \<Longrightarrow> q + 4 \<le> n" "stata_addr n k = Some q \<Longrightarrow> q + 4 \<le> n"
  by (auto simp: flat_addr_def stata_addr_def Let_def split: if_splits)

section \<open>The flat memory\<close>

text \<open>
  A flat memory created with its allocations granted and no initial value asked for holds zeros;
  after any list of writes whose cells lie inside it and are equal to or disjoint from the cell read, a
  read returns the data last written there, or zeros, and leaves the client bytes behind it alone.
\<close>

theorem am_flat_memory:
  assumes "al 0" "al 1" "fn_pfnOps f = Some ops" "length ops = AM_OP_MAX_OPS" "wf_cr (fn_crResp f)"
    and "cap_typeSpecific cap ! TS_INIT_MEM_VAL = 0"
    and "writes_fit (flat_addr (unat (cap_maxSize cap))) ws q"
    and "flat_addr (unat (cap_maxSize cap)) k = Some q" "4 \<le> length d"
  shows "\<exists>f0 f1 f2. am_create_flat_device al junk f cap = Inr (AM_RET_GOOD, f0) \<and>
    write_all am_flat_write32_align f0 ws = Inr (AM_RET_GOOD, f1) \<and>
    am_flat_read32_align f1 (Some k) (Some d) = Inr (AM_RET_GOOD, f2,
      Some ((case last_write (flat_addr (unat (cap_maxSize cap))) ws q of Some x \<Rightarrow> x | None \<Rightarrow> replicate 4 0) @ drop 4 d))"
proof -
  obtain f0 where f0: "am_create_flat_device al junk f cap = Inr (AM_RET_GOOD, f0)"
    "flat_store f0 = replicate (unat (cap_maxSize cap)) 0"
    using create_flat_ok [OF assms(1-5), of junk cap] assms(6) by (auto simp: flat_mem_def)
  have c: "flat_cell f0 = flat_addr (unat (cap_maxSize cap))" using f0(2) by (simp add: flat_cell_addr)
  have "take 4 (drop q (flat_store f0)) = replicate 4 0"
    using addr_bound(1) [OF assms(8)] f0(2) by (simp add: min_def)
  then show ?thesis
    using flat.last_write_wins [of f0 ws q k d] assms(7-9) f0(1) unfolding c by (auto cong: option.case_cong)
qed

lemma flat_words: "unat (le_dec (take 4 [4, 0, 0, 0]) :: UINT32) = 4" "unat (le_dec (take 4 [8, 0, 0, 0]) :: UINT32) = 8"
  by simp_all

lemma am_flat_memory_witness:
  "\<exists>f0 f1 f2. am_create_flat_device (\<lambda>_. True) (\<lambda>_. 0) op_func (mk_cap 1 16 1 1 0 [4, 1, 0]) = Inr (0, f0) \<and>
    write_all am_flat_write32_align f0 [([4, 0, 0, 0], [1, 2, 3, 4]), ([8, 0, 0, 0], [5, 6, 7, 8]), ([4, 0, 0, 0], [9, 9, 9, 9])] =
      Inr (0, f1) \<and>
    am_flat_read32_align f1 (Some [4, 0, 0, 0]) (Some [0, 0, 0, 0, 42]) = Inr (0, f2, Some [9, 9, 9, 9, 42])"
  using am_flat_memory [of "\<lambda>_. True" op_func zero_ops "mk_cap 1 16 1 1 0 [4, 1, 0]"
      "[([4, 0, 0, 0], [1, 2, 3, 4]), ([8, 0, 0, 0], [5, 6, 7, 8]), ([4, 0, 0, 0], [9, 9, 9, 9])]" 4
      "[4, 0, 0, 0]" "[0, 0, 0, 0, 42]" "\<lambda>_. 0"]
  by (simp add: mk_cap_def ts_init_def writes_fit_def flat_addr_def Let_def)

section \<open>The static array of the in-process device\<close>

lemma length_fmt_name: "length s \<le> 20 \<Longrightarrow> length (s @ fmt_d m) < 64"
  using length_fmt_d [of m] by simp

lemma virtd_stata_ok:
  assumes "al 0" "wf_cr (fn_crResp f)"
  shows "\<exists>f'. virtd_stata al m cap f = Inr (AM_RET_GOOD, f') \<and>
    stata_store f' = replicate (unat (ucast (cap_typeSpecific cap ! TS_STAT_ARRAY_VAL_MAX_SIZE) * cap_maxSize cap)) 0 \<and>
    fn_calls f' = map_option stata_calls (fn_calls f)"
proof -
  have "length (''virtd_stata'' @ fmt_d m) < 64" by (rule length_fmt_name) simp
  from set_name_fits [OF assms(2) this] obtain nm where
    "set_name (''virtd_stata'' @ fmt_d m) f = Inr (upd_cr (\<lambda>r. r\<lparr>cr_am_name := nm\<rparr>) f)" by blast
  then show ?thesis
    using assms(1) by (simp add: virtd_stata_def Let_def stata_store_def map_calls_def upd_cr_def)
qed

lemma virtd_flat_ok:
  assumes "al 0" "wf_cr (fn_crResp f)"
  shows "\<exists>f'. virtd_flat al junk m cap f = Inr (AM_RET_GOOD, f') \<and> flat_store f' = flat_mem junk cap \<and>
    fn_calls f' = map_option flat_calls (fn_calls f)"
proof -
  have "length (''virtd_flat'' @ fmt_d m) < 64" by (rule length_fmt_name) simp
  from set_name_fits [OF assms(2) this] obtain nm where
    "set_name (''virtd_flat'' @ fmt_d m) f = Inr (upd_cr (\<lambda>r. r\<lparr>cr_am_name := nm\<rparr>) f)" by blast
  then show ?thesis
    using assms(1) by (simp add: virtd_flat_def Let_def flat_store_def flat_mem_def map_calls_def upd_cr_def)
qed

text \<open>
  A static array of the in-process device is created zeroed, with the array operators as its client
  calls; after any list of writes to elements of it, a read of an element returns what was written
  there last, or zeros.
\<close>

theorem am_virtd_stata_array:
  assumes "al 0" "al 1" "wf_cr (fn_crResp f)" "fn_calls f = Some c" "cap_amType cap = AM_TYPE_STATIC_ARRAY"
    and "sz = unat (ucast (cap_typeSpecific cap ! TS_STAT_ARRAY_VAL_MAX_SIZE) * cap_maxSize cap)"
    and "writes_fit (stata_addr sz) ws q" "stata_addr sz k = Some q" "4 \<le> length d"
  shows "\<exists>v' f0 f1 f2. am_virtd_create_function al junk v (Some cap) (Some f) = Inr (AM_RET_GOOD, v', f0) \<and>
    fn_calls f0 = Some (stata_calls c) \<and>
    write_all am_stata_write_idx32 f0 ws = Inr (AM_RET_GOOD, f1) \<and>
    am_stata_read_idx32 f1 (Some k) (Some d) = Inr (AM_RET_GOOD, f2,
      Some ((case last_write (stata_addr sz) ws q of Some x \<Rightarrow> x | None \<Rightarrow> replicate 4 0) @ drop 4 d))"
proof -
  let ?f = "f\<lparr>fn_amCap := cap, fn_pVdF := Live FdRaw\<rparr>" and ?al = "\<lambda>i. al (Suc i)"
  obtain f0 where f0: "virtd_stata ?al (vd_minor v) cap ?f = Inr (AM_RET_GOOD, f0)"
    "stata_store f0 = replicate sz 0" "fn_calls f0 = Some (stata_calls c)"
    using virtd_stata_ok [of ?al ?f "vd_minor v" cap] assms(2-4,6) by auto
  have "am_virtd_create_function al junk v (Some cap) (Some f) = Inr (AM_RET_GOOD, v\<lparr>vd_minor := vd_minor v + 1\<rparr>, f0)"
    using assms(1,5) f0(1) by (simp add: am_virtd_create_function_def Let_def word_less_nat_alt)
  moreover have c: "stata_cell f0 = stata_addr sz" using f0(2) by (simp add: stata_cell_addr)
  moreover have "take 4 (drop q (stata_store f0)) = replicate 4 0"
    using addr_bound(2) [OF assms(8)] f0(2) by (simp add: min_def)
  ultimately show ?thesis
    using stata.last_write_wins [of f0 ws q k d] assms(7-9) f0(3) unfolding c by (auto cong: option.case_cong)
qed

definition call_func :: mem_func where
  "call_func = zero_func\<lparr>fn_calls := Some zero_calls\<rparr>"

lemma call_func_simps [simp]: "fn_calls call_func = Some zero_calls" "wf_cr (fn_crResp call_func)"
  by (simp_all add: call_func_def zero_func_def)

lemma am_virtd_stata_array_witness:
  "\<exists>v' f0 f1 f2. am_virtd_create_function (\<lambda>_. True) (\<lambda>_. 0) \<lparr>vd_reg = empty_registry, vd_minor = 1\<rparr>
      (Some (mk_cap 2 8 1 1 0 [4, 4, 4, 1])) (Some call_func) = Inr (0, v', f0) \<and>
    fn_calls f0 = Some (stata_calls zero_calls) \<and>
    write_all am_stata_write_idx32 f0 [([1, 0, 0, 0], [1, 2, 3, 4]), ([2, 0, 0, 0], [5, 6, 7, 8])] = Inr (0, f1) \<and>
    am_stata_read_idx32 f1 (Some [1, 0, 0, 0]) (Some [0, 0, 0, 0]) = Inr (0, f2,
      Some ((case last_write (stata_addr 32) [([1, 0, 0, 0], [1, 2, 3, 4]), ([2, 0, 0, 0], [5, 6, 7, 8])] 4 of
               Some x \<Rightarrow> x | None \<Rightarrow> replicate 4 0) @ drop 4 [0, 0, 0, 0]))"
proof (rule am_virtd_stata_array)
  show "32 = unat (ucast (cap_typeSpecific (mk_cap 2 8 1 1 0 [4, 4, 4, 1]) ! TS_STAT_ARRAY_VAL_MAX_SIZE) *
      cap_maxSize (mk_cap 2 8 1 1 0 [4, 4, 4, 1]))"
    by (simp add: mk_cap_def ts_init_def)
qed (simp_all add: mk_cap_def writes_fit_def stata_addr_def)

section \<open>Outside the memory\<close>

text \<open>
  Neither device compares the address with its size: an access that is not inside the memory runs
  out of it, for a read and for a write.
\<close>

theorem am_align_unchecked:
  assumes "4 \<le> length k" "4 \<le> length d"
    and "fn_pVdF f = Live (FdFlat fd) \<and> fl_data fd = Live mem \<and> flat_addr (length mem) k = None \<or>
      fn_pVdF f = Live (FdStata sd) \<and> st_data sd = Live mem \<and> stata_addr (length mem) k = None"
  shows "case fn_pVdF f of
      Live (FdFlat _) \<Rightarrow> am_flat_read32_align f (Some k) (Some d) = Inl OutOfBounds \<and>
        am_flat_write32_align f (Some k) (Some d) = Inl OutOfBounds
    | _ \<Rightarrow> am_stata_read_idx32 f (Some k) (Some d) = Inl OutOfBounds \<and>
        am_stata_write_idx32 f (Some k) (Some d) = Inl OutOfBounds"
  using assms(3)
proof
  assume f: "fn_pVdF f = Live (FdFlat fd) \<and> fl_data fd = Live mem \<and> flat_addr (length mem) k = None"
  then have "\<not> unat (le_dec (take 4 k) :: UINT32) + 4 \<le> length mem" using assms(1) by (auto simp: flat_addr_def Let_def)
  then show ?thesis
    using f assms(1,2)
    by (simp add: am_flat_read32_align_def am_flat_write32_align_def rd32_def rd_in_bounds rd_out_of_bounds
          wr32_def putb_out_of_bounds)
next
  assume f: "fn_pVdF f = Live (FdStata sd) \<and> st_data sd = Live mem \<and> stata_addr (length mem) k = None"
  then have "\<not> 4 * unat (le_dec (take 4 k) :: UINT32) + 4 \<le> length mem"
    using assms(1) by (auto simp: stata_addr_def Let_def)
  then show ?thesis
    using f assms(1,2)
    by (simp add: am_stata_read_idx32_def am_stata_write_idx32_def rd32_def rd_in_bounds rd_out_of_bounds
          wr32_def putb_out_of_bounds)
qed

lemma am_align_unchecked_witness:
  "am_stata_read_idx32 (zero_func\<lparr>fn_pVdF := Live (FdStata \<lparr>st_data = Live [1, 2, 3, 4], st_size = 4, st_array_size = 1,
      st_idx_size = 4, st_data_size = 4\<rparr>)\<rparr>) (Some [1, 0, 0, 0]) (Some [0, 0, 0, 0]) = Inl OutOfBounds"
  using am_align_unchecked [of "[1, 0, 0, 0]" "[0, 0, 0, 0]" "zero_func\<lparr>fn_pVdF := Live (FdStata \<lparr>st_data = Live [1, 2, 3, 4],
      st_size = 4, st_array_size = 1, st_idx_size = 4, st_data_size = 4\<rparr>)\<rparr>" undefined "[1, 2, 3, 4]"
      "\<lparr>st_data = Live [1, 2, 3, 4], st_size = 4, st_array_size = 1, st_idx_size = 4, st_data_size = 4\<rparr>"]
  by (simp add: stata_addr_def)

section \<open>Release\<close>

definition device_release :: "mem_func \<Rightarrow> (AM_RETURN \<times> mem_func) res" where
  "device_release f = (case fn_pVdF f of Live (FdStata _) \<Rightarrow> am_stata_release f | _ \<Rightarrow> am_flat_release f)"

text \<open>
  A release frees the device data and returns \<open>AM_RET_GOOD\<close>, but leaves the pointer to it: every
  later access and a second release use freed memory.
\<close>

theorem am_release_dangles:
  assumes "fn_pVdF f = Live (FdFlat fd) \<and> fl_data fd \<noteq> Dangling \<or> fn_pVdF f = Live (FdStata sd) \<and> st_data sd \<noteq> Dangling"
    and "4 \<le> length k" "4 \<le> length d"
  shows "\<exists>f'. device_release f = Inr (AM_RET_GOOD, f') \<and>
    am_flat_release f' = Inl UseAfterFree \<and> am_stata_release f' = Inl UseAfterFree \<and>
    am_flat_read32_align f' (Some k) (Some d) = Inl UseAfterFree \<and>
    am_stata_read_idx32 f' (Some k) (Some d) = Inl UseAfterFree"
  using assms
  by (intro exI [of _ "f\<lparr>fn_pVdF := Dangling\<rparr>"])
    (auto simp: device_release_def am_flat_release_def am_stata_release_def am_flat_read32_align_def
        am_stata_read_idx32_def rd32_def rd_in_bounds)

lemma am_release_dangles_witness:
  "\<exists>f'. device_release (zero_func\<lparr>fn_pVdF := Live (FdFlat \<lparr>fl_data = Live [0, 0, 0, 0], fl_size = 4, fl_add_size = 4\<rparr>)\<rparr>) =
      Inr (0, f') \<and> am_flat_release f' = Inl UseAfterFree \<and> am_stata_release f' = Inl UseAfterFree \<and>
    am_flat_read32_align f' (Some [0, 0, 0, 0]) (Some [0, 0, 0, 0]) = Inl UseAfterFree \<and>
    am_stata_read_idx32 f' (Some [0, 0, 0, 0]) (Some [0, 0, 0, 0]) = Inl UseAfterFree"
  by (rule am_release_dangles [of _ "\<lparr>fl_data = Live [0, 0, 0, 0], fl_size = 4, fl_add_size = 4\<rparr>"]) simp_all

end
