(* ===== verification/AM_Link.thy ===== *)
theory AM_Link
  imports AM_Pack_Props AM_Flat AM_Stata
begin

text \<open>
  A device used through packets, whatever carries them. \<open>packet_device\<close> is the contract of a device whose
  operators the dispatcher calls; \<open>pack_link\<close> is the contract of an accessor behind which the dispatcher
  serves a function table; \<open>linked_device\<close> puts the two together: the client's 32-bit operators read and
  write the device.
\<close>

section \<open>A device behind the dispatcher\<close>

locale packet_device =
  aligned_device "call_align rdf (\<lambda>_. True)" "call_align wrf (\<lambda>_. True)" store cell
  for rdf wrf :: fn_ptr and store :: "mem_func \<Rightarrow> bytes" and cell :: "mem_func \<Rightarrow> bytes \<Rightarrow> nat option" +
  assumes rd_al: "call_align rdf al = call_align rdf (\<lambda>_. True)"
    and wr_al: "call_align wrf al = call_align wrf (\<lambda>_. True)"
    and rd_frame: "call_align rdf (\<lambda>_. True) f a b = Inr (st, f', c) \<Longrightarrow> fn_pfnOps f' = fn_pfnOps f \<and> fn_crResp f' = fn_crResp f"
    and wr_frame: "call_align wrf (\<lambda>_. True) f a b = Inr (st, f', c) \<Longrightarrow> fn_pfnOps f' = fn_pfnOps f \<and> fn_crResp f' = fn_crResp f"
    and cell_key: "cell f (take 4 k) = cell f k" "cell f k = Some q \<Longrightarrow> 4 \<le> length k"
begin

lemma served_read:
  assumes "has_op g i f (w_op w) (Some rdf)" "w_op w = 0x11" "w_packType w = 3" "cr_data_size (fn_crResp f) = 4"
    and "cell f p = Some q" "length resp = 512"
  shows "\<exists>f'. am_pack_process_cmd al junk g (Some i) (enc_wrapper w @ p) resp =
      Inr (AM_RET_GOOD, tbl_set g i (Live f'), enc_wrapper w @ p,
        enc_wrapper (resp_wrap w 12) @ take 4 (drop q (store f)) @ drop 12 resp, 12) \<and>
    store f' = store f \<and> cell f' = cell f \<and> fn_pfnOps f' = fn_pfnOps f \<and> fn_crResp f' = fn_crResp f"
proof -
  let ?w = "w\<lparr>w_packType := w_packType w OR AM_FUNC_PACK_TYPE_FLAG_RESP\<rparr>"
  obtain f' where f': "call_align rdf (\<lambda>_. True) f (Some p) (Some (drop 8 resp)) =
      Inr (AM_RET_GOOD, f', Some (take 4 (drop q (store f)) @ drop 4 (drop 8 resp)))"
    "store f' = store f" "cell f' = cell f"
    using read_ok [OF assms(5), of "drop 8 resp"] assms(6) by auto
  have fr: "fn_pfnOps f' = fn_pfnOps f" "fn_crResp f' = fn_crResp f" using rd_frame [OF f'(1)] by simp_all
  have "run_func al junk g (Some i) (enc_wrapper w @ p) (resp_start w resp) =
      Inr (AM_RET_GOOD, tbl_set g i (Live f'), enc_wrapper w @ p,
        enc_wrapper ?w @ take 4 (drop q (store f)) @ drop 12 resp, Some 12)"
    using f'(1) assms(1-4) fr rd_al [of al]
    by (simp add: run_func_Some dispatch_def dispatch_align_def wrap_simps resp_start_def)
  then show ?thesis using process_cmd_good [of resp] assms(6) f' fr by auto
qed

lemma served_write:
  assumes "has_op g i f (w_op w) (Some wrf)" "w_op w = 0x10" "w_packType w = 3" "cr_idx_size (fn_crResp f) = 4"
    and "cell f p = Some q" "8 \<le> length p" "length resp = 512"
  shows "\<exists>f'. am_pack_process_cmd al junk g (Some i) (enc_wrapper w @ p) resp =
      Inr (AM_RET_GOOD, tbl_set g i (Live f'), enc_wrapper w @ p, enc_wrapper (resp_wrap w 8) @ drop 8 resp, 8) \<and>
    store f' = splice_at (store f) q (take 4 (drop 4 p)) \<and> cell f' = cell f \<and>
    fn_pfnOps f' = fn_pfnOps f \<and> fn_crResp f' = fn_crResp f"
proof -
  let ?w = "w\<lparr>w_packType := w_packType w OR AM_FUNC_PACK_TYPE_FLAG_RESP\<rparr>"
  have d4: "4 \<le> length (drop 4 p)" using assms(6) by simp
  obtain f' where f': "call_align wrf (\<lambda>_. True) f (Some p) (Some (drop 4 p)) = Inr (AM_RET_GOOD, f', Some (drop 4 p))"
    "store f' = splice_at (store f) q (take 4 (drop 4 p))" "cell f' = cell f"
    using write_ok [OF assms(5) d4] by auto
  have fr: "fn_pfnOps f' = fn_pfnOps f" "fn_crResp f' = fn_crResp f" using wr_frame [OF f'(1)] by simp_all
  have "run_func al junk g (Some i) (enc_wrapper w @ p) (resp_start w resp) =
      Inr (AM_RET_GOOD, tbl_set g i (Live f'), enc_wrapper w @ p, enc_wrapper ?w @ drop 8 resp, Some 8)"
    using f'(1) assms(1-4) wr_al [of al]
    by (simp add: run_func_Some dispatch_def dispatch_align_def wrap_simps resp_start_def Let_def)
  then show ?thesis using process_cmd_good [of resp] assms(7) f' fr by auto
qed

end

interpretation flat_packets: packet_device Fn_flat_read32_align Fn_flat_write32_align flat_store flat_cell
proof (unfold_locales, unfold call_align.simps)
  show "flat_cell f k = Some p \<Longrightarrow> p + 4 \<le> length (flat_store f)" for f k p by (rule flat.cell_bound)
  show "flat_cell f k = Some p \<Longrightarrow> 4 \<le> length d \<Longrightarrow> \<exists>f'. am_flat_read32_align f (Some k) (Some d) =
      Inr (AM_RET_GOOD, f', Some (take 4 (drop p (flat_store f)) @ drop 4 d)) \<and>
      flat_store f' = flat_store f \<and> flat_cell f' = flat_cell f" for f k p and d :: bytes by (rule flat.read_ok)
  show "flat_cell f k = Some p \<Longrightarrow> 4 \<le> length d \<Longrightarrow> \<exists>f'. am_flat_write32_align f (Some k) (Some d) =
      Inr (AM_RET_GOOD, f', Some d) \<and> flat_store f' = splice_at (flat_store f) p (take 4 d) \<and>
      flat_cell f' = flat_cell f" for f k p and d :: bytes by (rule flat.write_ok)
qed (auto simp: am_flat_read32_align_def am_flat_write32_align_def res_simps flat_cell_def Let_def fun_eq_iff split: if_splits)

interpretation stata_packets: packet_device Fn_stata_read_idx32 Fn_stata_write_idx32 stata_store stata_cell
proof (unfold_locales, unfold call_align.simps)
  show "stata_cell f k = Some p \<Longrightarrow> p + 4 \<le> length (stata_store f)" for f k p by (rule stata.cell_bound)
  show "stata_cell f k = Some p \<Longrightarrow> 4 \<le> length d \<Longrightarrow> \<exists>f'. am_stata_read_idx32 f (Some k) (Some d) =
      Inr (AM_RET_GOOD, f', Some (take 4 (drop p (stata_store f)) @ drop 4 d)) \<and>
      stata_store f' = stata_store f \<and> stata_cell f' = stata_cell f" for f k p and d :: bytes by (rule stata.read_ok)
  show "stata_cell f k = Some p \<Longrightarrow> 4 \<le> length d \<Longrightarrow> \<exists>f'. am_stata_write_idx32 f (Some k) (Some d) =
      Inr (AM_RET_GOOD, f', Some d) \<and> stata_store f' = splice_at (stata_store f) p (take 4 d) \<and>
      stata_cell f' = stata_cell f" for f k p and d :: bytes by (rule stata.write_ok)
qed (auto simp: am_stata_read_idx32_def am_stata_write_idx32_def res_simps stata_cell_def Let_def fun_eq_iff split: if_splits)

section \<open>Requests\<close>

text \<open>The object in the slot is a device with 32-bit addresses and data and the two operators.\<close>

definition dev_ok :: "fn_ptr \<Rightarrow> fn_ptr \<Rightarrow> mem_func \<Rightarrow> bool" where
  "dev_ok rdf wrf f \<longleftrightarrow> (\<exists>ops. fn_pfnOps f = Some ops \<and> length ops = AM_OP_MAX_OPS \<and>
     ops ! 16 = Some wrf \<and> ops ! 17 = Some rdf) \<and> cr_is_32 (fn_crResp f)"

definition req_wrap :: "mem_func \<Rightarrow> UINT16 \<Rightarrow> UINT8 \<Rightarrow> UINT8 \<Rightarrow> UINT32 \<Rightarrow> pack_wrapper" where
  "req_wrap F tag packType opc n =
     \<lparr>w_func_id = ucast (fn_handle F), w_packType = packType, w_op = opc, w_appTag = tag, w_size = ucast n\<rparr>"

lemma pack_wrap_req:
  assumes "iop_pTx pIop = enc_wrapper w @ pay"
  shows "pack_wrap F pIop t n opc = Inr (pIop\<lparr>iop_pTx := enc_wrapper (req_wrap F (w_appTag w) t opc n) @ pay\<rparr>)"
  using assms by (simp add: pack_wrap_def wrap_simps req_wrap_def)

lemma wr32_payload:
  assumes "8 \<le> o1" "o1 - 8 + 4 \<le> length pay" "4 \<le> length k"
  shows "wr32 (enc_wrapper w @ pay) o1 (le_dec (take 4 k)) = Inr (enc_wrapper w @ splice_at pay (o1 - 8) (take 4 k))"
  using assms wr32_le_dec [of k "o1 - 8" pay] by (simp add: wrap_simps)

lemma pack_op_words: "is_pack_op (op_word AM_PACK_ALIGN AM_OP_WRITE_ALIGN)" "is_pack_op (op_word AM_PACK_ALIGN AM_OP_READ_ALIGN)"
  by (simp_all add: is_pack_op_def op_word_def IS_OP_ALIGNED_def AM_NET_GET_PACKTYPE_def)

text \<open>The calls a function object gets: the 32-bit ones, or those that copy blocks.\<close>

definition pack_write_op :: "cr_resp \<Rightarrow> fn_ptr" where
  "pack_write_op r = (if cr_is_32 r then Fn_pack_write32_align else Fn_pack_write_align)"

definition pack_read_op :: "cr_resp \<Rightarrow> fn_ptr" where
  "pack_read_op r = (if cr_is_32 r then Fn_pack_read32_align else Fn_pack_read_align)"

lemma set_pack_access_calls:
  assumes "fn_calls F = Some c" "is_pack_op (cr_acOps (fn_crResp F) ! 0)" "is_pack_op (cr_acOps (fn_crResp F) ! 1)"
  shows "am_set_pack_access F = Inr (AM_RET_GOOD, F\<lparr>fn_calls :=
    Some (c\<lparr>fc_write_al := Some (pack_write_op (fn_crResp F)), fc_read_al := Some (pack_read_op (fn_crResp F))\<rparr>)\<rparr>)"
  using assms by (simp add: am_set_pack_access_def Let_def set_call_def pack_write_op_def pack_read_op_def)

lemma set_pack_access_ok:
  assumes "fn_calls F = Some c" "is_pack_op (cr_acOps (fn_crResp F) ! 0)" "is_pack_op (cr_acOps (fn_crResp F) ! 1)"
    and "cr_is_32 (fn_crResp F)"
  shows "am_set_pack_access F = Inr (AM_RET_GOOD, F\<lparr>fn_calls :=
    Some (c\<lparr>fc_write_al := Some Fn_pack_write32_align, fc_read_al := Some Fn_pack_read32_align\<rparr>)\<rparr>)"
  using set_pack_access_calls [OF assms(1-3)] assms(4) by (simp add: pack_write_op_def pack_read_op_def)

section \<open>An accessor with a dispatcher behind it\<close>

text \<open>The wrapper of a reply: that of the response, or that of the error packet.\<close>

definition reply_wrap :: "pack_wrapper \<Rightarrow> AM_RETURN \<Rightarrow> UINT32 \<Rightarrow> pack_wrapper" where
  "reply_wrap w error tx = (if error = AM_RET_GOOD then resp_wrap w tx else err_wrap w)"

lemma reply_wrap_simps [simp]:
  "reply_wrap w AM_RET_GOOD tx = resp_wrap w tx" "w_appTag (reply_wrap w error tx) = w_appTag w"
  "w_packType w = 3 \<Longrightarrow> w_packType (reply_wrap w error tx) AND AM_FUNC_PACK_TYPE_FLAG_ERR = 0 \<longleftrightarrow> error = AM_RET_GOOD"
  by (simp_all add: reply_wrap_def resp_wrap_def err_wrap_def)

locale pack_link =
  fixes pk :: "'n pkac" and ready armed :: "'n \<Rightarrow> bool" and G :: "'n \<Rightarrow> targ" and i :: nat
    and al :: alloc and junk :: "nat \<Rightarrow> UINT8" and fid_ok :: "targ \<Rightarrow> UINT16 \<Rightarrow> bool" and tag_ok :: "UINT16 \<Rightarrow> bool"
  assumes free: "ready n \<Longrightarrow> \<exists>w pay pIop n1. free_iop pk n = Inr (pIop, n1) \<and> iop_pTx pIop = enc_wrapper w @ pay \<and>
      tag_ok (w_appTag w) \<and> length pay = 504 \<and> armed n1 \<and> G n1 = G n"
    and send: "armed n \<Longrightarrow> iop_pTx pIop = enc_wrapper w @ body @ rest \<Longrightarrow> length (body @ rest) = 504 \<Longrightarrow>
      unat tx_size = 8 + length body \<Longrightarrow> fid_ok (G n) (w_func_id w) \<Longrightarrow> tag_ok (w_appTag w) \<Longrightarrow> w_packType w = 3 \<Longrightarrow>
      (\<And>stale resp. length stale = 504 - length body \<Longrightarrow> length resp = 512 \<Longrightarrow>
        \<exists>p' f'. am_pack_process_cmd al junk (G n) (Some i) (enc_wrapper w @ body @ stale) resp =
          Inr (error, tbl_set (G n) i (Live f'), enc_wrapper w @ body @ stale,
            enc_wrapper (reply_wrap w error tx) @ ans @ p', tx) \<and> length (ans @ p') = 504 \<and> P f') \<Longrightarrow>
      unat tx = 8 + length ans \<Longrightarrow> (error \<noteq> AM_RET_GOOD \<Longrightarrow> ans = le_enc 4 error) \<Longrightarrow>
      \<exists>n' pIop' rest' f'. pk_send_and_wait pk n pIop tx_size tmo = Inr (error, pIop', n') \<and> ready n' \<and>
        G n' = tbl_set (G n) i (Live f') \<and> P f' \<and>
        iop_pRx pIop' = Some (enc_wrapper (reply_wrap w error tx) @ ans @ rest') \<and> iop_resp_bytes pIop' = tx"

text \<open>\<open>F\<close> is the client's function object.\<close>

locale linked_device = packet_device + pack_link +
  fixes F :: mem_func
  assumes asserts: "pack_asserts (Some F) = Inr F"
begin

lemma read_link:
  assumes n: "ready n" "fid_ok (G n) (ucast (fn_handle F))" and f: "tbl_get (G n) i = Inr f" "dev_ok rdf wrf f"
    and c: "cell f k = Some q" and d: "4 \<le> length d"
  shows "\<exists>n' f'. am_pack_read32_align pk n (Some F) (Some k) (Some d) =
      Inr (AM_RET_GOOD, Some (take 4 (drop q (store f)) @ drop 4 d), n') \<and>
    ready n' \<and> G n' = tbl_set (G n) i (Live f') \<and> store f' = store f \<and> cell f' = cell f \<and>
    fn_pfnOps f' = fn_pfnOps f \<and> fn_crResp f' = fn_crResp f"
proof -
  have k: "4 \<le> length k" using cell_key(2) [OF c] .
  obtain w0 pay pIop n1 where n1: "free_iop pk n = Inr (pIop, n1)" "iop_pTx pIop = enc_wrapper w0 @ pay"
    "tag_ok (w_appTag w0)" "length pay = 504" "armed n1" "G n1 = G n"
    using free [OF n(1)] by blast
  define w where "w = req_wrap F (w_appTag w0) 3 0x11 12"
  define D where "D = take 4 (drop q (store f))"
  have D: "length D = 4" using cell_bound [OF c] by (simp add: D_def)
  define P where "P = (\<lambda>f'. store f' = store f \<and> cell f' = cell f \<and>
    fn_pfnOps f' = fn_pfnOps f \<and> fn_crResp f' = fn_crResp f)"
  have w: "w_op w = 0x11" "w_packType w = 3" "w_func_id w = ucast (fn_handle F)" "tag_ok (w_appTag w)"
    using n1(3) by (simp_all add: w_def req_wrap_def)
  have cmd: "\<exists>p' f'. am_pack_process_cmd al junk (G n1) (Some i) (enc_wrapper w @ take 4 k @ stale) resp =
      Inr (AM_RET_GOOD, tbl_set (G n1) i (Live f'), enc_wrapper w @ take 4 k @ stale, enc_wrapper (resp_wrap w 12) @ D @ p', 12) \<and>
      length (D @ p') = 504 \<and> P f'"
    if "length stale = 504 - length (take 4 k)" "length resp = 512" for stale resp
  proof -
    have q: "cell f (take 4 k @ stale) = Some q"
      using cell_key(1) [of f "take 4 k @ stale"] cell_key(1) [of f k] k c by (simp add: min_absorb2)
    have op: "has_op (G n) i f (w_op w) (Some rdf)" using f w(1) by (auto simp: has_op_def dev_ok_def)
    have ds: "cr_data_size (fn_crResp f) = 4" using f(2) by (simp add: dev_ok_def cr_is_32_def)
    from served_read [OF op w(1,2) ds q that(2), of al junk, folded D_def] show ?thesis
      using D that(2) by (auto simp: P_def n1(6))
  qed
  have tx: "iop_pTx (pIop\<lparr>iop_pTx := enc_wrapper w @ splice_at pay 0 (take 4 k)\<rparr>) = enc_wrapper w @ take 4 k @ drop 4 pay"
    using k by (simp add: splice_at_def)
  have bl: "length (take 4 k @ drop 4 pay) = 504" "unat (12 :: UINT32) = 8 + length (take 4 k)" "unat (12 :: UINT32) = 8 + length D"
    using n1(4) k D by simp_all
  have fid: "fid_ok (G n1) (w_func_id w)" using n(2) by (simp add: n1(6) w(3))
  from send [where P = P and error = AM_RET_GOOD, simplified reply_wrap_simps, OF n1(5) tx bl(1,2) fid w(4,2) cmd bl(3), of 5000] obtain n' pIop' rest' f' where n':
    "pk_send_and_wait pk n1 (pIop\<lparr>iop_pTx := enc_wrapper w @ splice_at pay 0 (take 4 k)\<rparr>) 12 5000 = Inr (AM_RET_GOOD, pIop', n')"
    "ready n'" "G n' = tbl_set (G n) i (Live f') \<and> P f'" "iop_pRx pIop' = Some (enc_wrapper (resp_wrap w 12) @ D @ rest')" "iop_resp_bytes pIop' = 12"
    unfolding n1(6) by blast
  have rdk: "rd32 k 0 = Inr (le_dec (take 4 k))" using k by (simp add: rd32_def rd_in_bounds)
  have wrk: "wr32 (enc_wrapper w @ pay) 8 (le_dec (take 4 k)) = Inr (enc_wrapper w @ splice_at pay 0 (take 4 k))"
    using wr32_payload [of 8 pay k w] k n1(4) by simp
  have rdD: "rd32 (enc_wrapper (resp_wrap w 12) @ D @ rest') 8 = Inr (le_dec D)"
    using D by (simp add: wrap_simps rd32_def rd_in_bounds)
  have wrD: "wr32 d 0 (le_dec D) = Inr (D @ drop 4 d)"
    using wr32_le_dec [of D 0 d] D d by (simp add: splice_at_def)
  have "am_pack_read32_align pk n (Some F) (Some k) (Some d) = Inr (AM_RET_GOOD, Some (D @ drop 4 d), n')"
    using n1(1) pack_wrap_req [OF n1(2), of F 3 12 "0x11"] rdk wrk n'(1,4,5) rdD wrD
    by (simp add: am_pack_read32_align_def asserts w_def [symmetric])
  with n'(2,3) show ?thesis by (auto simp: P_def D_def)
qed

lemma write_link:
  assumes n: "ready n" "fid_ok (G n) (ucast (fn_handle F))" and f: "tbl_get (G n) i = Inr f" "dev_ok rdf wrf f"
    and c: "cell f k = Some q" and d: "4 \<le> length d"
  shows "\<exists>n' f'. am_pack_write32_align pk n (Some F) (Some k) (Some d) = Inr (AM_RET_GOOD, n') \<and>
    ready n' \<and> G n' = tbl_set (G n) i (Live f') \<and> store f' = splice_at (store f) q (take 4 d) \<and> cell f' = cell f \<and>
    fn_pfnOps f' = fn_pfnOps f \<and> fn_crResp f' = fn_crResp f"
proof -
  have k: "4 \<le> length k" using cell_key(2) [OF c] .
  obtain w0 pay pIop n1 where n1: "free_iop pk n = Inr (pIop, n1)" "iop_pTx pIop = enc_wrapper w0 @ pay"
    "tag_ok (w_appTag w0)" "length pay = 504" "armed n1" "G n1 = G n"
    using free [OF n(1)] by blast
  define w where "w = req_wrap F (w_appTag w0) 3 0x10 17"
  define body where "body = take 4 k @ take 4 d @ take 1 (drop 8 pay)"
  have lb: "length body = 9" using k d n1(4) by (simp add: body_def)
  define P where "P = (\<lambda>f'. store f' = splice_at (store f) q (take 4 d) \<and>
    cell f' = cell f \<and> fn_pfnOps f' = fn_pfnOps f \<and> fn_crResp f' = fn_crResp f)"
  have w: "w_op w = 0x10" "w_packType w = 3" "w_func_id w = ucast (fn_handle F)" "tag_ok (w_appTag w)"
    using n1(3) by (simp_all add: w_def req_wrap_def)
  have cmd: "\<exists>p' f'. am_pack_process_cmd al junk (G n1) (Some i) (enc_wrapper w @ body @ stale) resp =
      Inr (AM_RET_GOOD, tbl_set (G n1) i (Live f'), enc_wrapper w @ body @ stale, enc_wrapper (resp_wrap w 8) @ [] @ p', 8) \<and>
      length ([] @ p') = 504 \<and> P f'"
    if "length stale = 504 - length body" "length resp = 512" for stale resp
  proof -
    have "take 4 (body @ stale) = take 4 k" using k by (simp add: body_def)
    then have q: "cell f (body @ stale) = Some q"
      using cell_key(1) [of f "body @ stale"] cell_key(1) [of f k] c by simp
    have op: "has_op (G n) i f (w_op w) (Some wrf)" using f w(1) by (auto simp: has_op_def dev_ok_def)
    have ds: "cr_idx_size (fn_crResp f) = 4" using f(2) by (simp add: dev_ok_def cr_is_32_def)
    have l8: "8 \<le> length (body @ stale)" using lb by simp
    have data: "take 4 (drop 4 (body @ stale)) = take 4 d" using k d by (simp add: body_def)
    from served_write [OF op w(1,2) ds q l8 that(2), of al junk, unfolded data] show ?thesis
      using that(2) by (auto simp: P_def n1(6))
  qed
  define pay' where "pay' = splice_at (splice_at pay 0 (take 4 k)) 4 (take 4 d)"
  have "take 1 (drop 8 pay) @ drop 9 pay = drop 8 pay" using append_take_drop_id [of 1 "drop 8 pay"] by simp
  then have pay': "pay' = body @ drop 9 pay" using k d n1(4) by (simp add: pay'_def splice_at_def body_def)
  have tx: "iop_pTx (pIop\<lparr>iop_pTx := enc_wrapper w @ pay'\<rparr>) = enc_wrapper w @ body @ drop 9 pay" by (simp add: pay')
  have bl: "length (body @ drop 9 pay) = 504" "unat (17 :: UINT32) = 8 + length body" "unat (8 :: UINT32) = 8 + length ([] :: bytes)"
    using n1(4) lb by simp_all
  have fid: "fid_ok (G n1) (w_func_id w)" using n(2) by (simp add: n1(6) w(3))
  from send [where P = P and error = AM_RET_GOOD, simplified reply_wrap_simps, OF n1(5) tx bl(1,2) fid w(4,2) cmd bl(3), of 5000] obtain n' pIop' f' where n':
    "pk_send_and_wait pk n1 (pIop\<lparr>iop_pTx := enc_wrapper w @ pay'\<rparr>) 17 5000 = Inr (AM_RET_GOOD, pIop', n')" "ready n'"
    "G n' = tbl_set (G n) i (Live f') \<and> P f'"
    unfolding n1(6) by blast
  have rdk: "rd32 k 0 = Inr (le_dec (take 4 k))" "rd32 d 0 = Inr (le_dec (take 4 d))"
    using k d by (simp_all add: rd32_def rd_in_bounds)
  have wrk: "wr32 (enc_wrapper w @ pay) 8 (le_dec (take 4 k)) = Inr (enc_wrapper w @ splice_at pay 0 (take 4 k))"
    using wr32_payload [of 8 pay k w] k n1(4) by simp
  have wrd: "wr32 (enc_wrapper w @ splice_at pay 0 (take 4 k)) 12 (le_dec (take 4 d)) = Inr (enc_wrapper w @ pay')"
    using wr32_payload [of 12 "splice_at pay 0 (take 4 k)" d w] k d n1(4) by (simp add: pay'_def)
  have "am_pack_write32_align pk n (Some F) (Some k) (Some d) = Inr (AM_RET_GOOD, n')"
    using n1(1) pack_wrap_req [OF n1(2), of F 3 17 "0x10"] rdk wrk wrd n'(1)
    by (simp add: am_pack_write32_align_def asserts w_def [symmetric])
  with n'(2,3) show ?thesis by (auto simp: P_def)
qed

end

section \<open>Two devices to run the properties on\<close>

definition demo_ops :: "fn_ptr \<Rightarrow> fn_ptr \<Rightarrow> fn_ptr option list" where
  "demo_ops rdf wrf = zero_ops[16 := Some wrf, 17 := Some rdf]"

definition demo_func :: "fn_ptr \<Rightarrow> fn_ptr \<Rightarrow> func_data \<Rightarrow> mem_func" where
  "demo_func rdf wrf fd = zero_func\<lparr>fn_handle := 0xAA01, fn_pEntry := True, fn_send_and_wait := True, fn_get_free_iop := True,
     fn_crResp := zero_cr\<lparr>cr_data_size := 4, cr_idx_size := 4\<rparr>, fn_pVdF := Live fd, fn_pfnOps := Some (demo_ops rdf wrf)\<rparr>"

definition demo_flat :: mem_func where
  "demo_flat = demo_func Fn_flat_read32_align Fn_flat_write32_align
     (FdFlat \<lparr>fl_data = Live (replicate 8 1), fl_size = 8, fl_add_size = 4\<rparr>)"

definition demo_stata :: mem_func where
  "demo_stata = demo_func Fn_stata_read_idx32 Fn_stata_write_idx32
     (FdStata \<lparr>st_data = Live (replicate 8 1), st_size = 8, st_array_size = 2, st_idx_size = 4, st_data_size = 4\<rparr>)"

end
