(* ===== verification/AM_Net.thy ===== *)
theory AM_Net
  imports AM_Pack_Client
begin

text \<open>
  The client of a network device, \<^verbatim>\<open>appmemlib/appmem_net.c\<close>: one global transaction with its packet
  buffers, the response thread, and the calls the library offers on a remote device. The socket
  (\<^verbatim>\<open>appmemlib/am_linux_net.c\<close>) is the parameter \<open>sk\<close> over the state \<open>'w\<close> of everything behind it:
  \<open>sk\<close> answers what \<^verbatim>\<open>sendto\<close> returns, and what the socket delivers as a consequence, in order, an
  entry \<open>None\<close> being a receive that fails.
\<close>

type_synonym 'w sock = "'w \<Rightarrow> bytes \<Rightarrow> int \<times> bytes option list \<times> 'w"

abbreviation (input) sizeof_gRxPacket :: nat where "sizeof_gRxPacket \<equiv> 16 * MAX_BASIC_PACK_UNION_SIZE"
abbreviation (input) sizeof_FIVO :: UINT32 where "sizeof_FIVO \<equiv> 24"
abbreviation (input) NET_FUNC_ID_BASEAPPMEM :: UINT16 where "NET_FUNC_ID_BASEAPPMEM \<equiv> 0xFFFA"

text \<open>
  \<open>gTransaction\<close>, \<open>gTxPacket\<close> and \<open>gRxPacket\<close>; what the socket delivered and nobody received yet; and
  the state behind the socket. \<open>pRx\<close> of the transaction is null or \<open>gRxPacket\<close>.
\<close>

record 'w net =
  net_tag :: UINT16
  net_done :: UINT32
  net_pRx :: bool
  net_resp_bytes :: UINT32
  net_tx :: bytes
  net_rx :: bytes
  net_inbox :: "bytes option list"
  net_w :: 'w

definition net_iop :: "'w net \<Rightarrow> iop" where
  "net_iop n = \<lparr>iop_pTx = net_tx n, iop_pRx = (if net_pRx n then Some (net_rx n) else None),
     iop_tag = net_tag n, iop_done = net_done n, iop_resp_bytes = net_resp_bytes n\<rparr>"

definition am_net_get_free_req :: "'w net \<Rightarrow> (iop \<times> 'w net) res" where
  "am_net_get_free_req n =
     bindr (wr16 (net_tx n) off_appTag 1) (\<lambda>tx.
     let n = n\<lparr>net_done := 0, net_tag := 1, net_pRx := False, net_tx := tx\<rparr> in
     Inr (net_iop n, n))"

definition am_net_signal_resp_recv :: "'w net \<Rightarrow> UINT32 \<Rightarrow> (AM_RETURN \<times> 'w net) res" where
  "am_net_signal_resp_recv n bytes_rec =
     bindr (rd16 (net_rx n) off_appTag) (\<lambda>appTag.
     if appTag = 1 then
       Inr (AM_RET_GOOD, n\<lparr>net_pRx := True, net_resp_bytes := bytes_rec, net_done := 1\<rparr>)
     else Inr (AM_RET_TAG_NOT_FOUND, n))"

text \<open>One pass of \<open>am_net_resp_thread\<close>: a receive that fails does nothing.\<close>

definition am_net_resp_pass :: "'w net \<Rightarrow> bytes option \<Rightarrow> 'w net res" where
  "am_net_resp_pass n m =
     (case m of
        None \<Rightarrow> Inr n
      | Some d \<Rightarrow>
          let d = take sizeof_gRxPacket d in
          bindr (putb (net_rx n) 0 d) (\<lambda>rx.
          bindr (am_net_signal_resp_recv (n\<lparr>net_rx := rx\<rparr>) (of_nat (length d))) (\<lambda>(st, n). Inr n)))"

text \<open>
  The wait for \<open>done\<close>, with the response thread running beside it. With nothing left to receive the
  wait does not end; its timeout is not implemented.
\<close>

fun net_wait :: "bytes option list \<Rightarrow> 'w net \<Rightarrow> 'w net res" where
  "net_wait [] n = (if net_done n \<noteq> 0 then Inr (n\<lparr>net_inbox := []\<rparr>) else Inl NoReturn)"
| "net_wait (m # ms) n =
     (if net_done n \<noteq> 0 then Inr (n\<lparr>net_inbox := m # ms\<rparr>)
      else bindr (am_net_resp_pass n m) (\<lambda>n. net_wait ms n))"

definition am_int_send_msg :: "'w sock \<Rightarrow> 'w net \<Rightarrow> bytes \<Rightarrow> UINT32 \<Rightarrow> (AM_RETURN \<times> 'w net) res" where
  "am_int_send_msg sk n pMsg len =
     bindr (getb pMsg 0 (unat len)) (\<lambda>d.
     case sk (net_w n) d of (bytes_sent, ms, w) \<Rightarrow>
       let n = n\<lparr>net_w := w, net_inbox := net_inbox n @ ms\<rparr> in
       Inr (if bytes_sent < 0 then AM_RET_IO_ERR
            else if bytes_sent \<noteq> sint len then AM_RET_IO_UNDERRUN
            else AM_RET_GOOD, n))"

text \<open>The timeout is not used.\<close>

definition am_net_send_and_wait ::
  "'w sock \<Rightarrow> 'w net \<Rightarrow> iop \<Rightarrow> UINT32 \<Rightarrow> UINT32 \<Rightarrow> (AM_RETURN \<times> iop \<times> 'w net) res" where
  "am_net_send_and_wait sk n pIop tx_size timeOutMs =
     bindr (am_int_send_msg sk (n\<lparr>net_tx := iop_pTx pIop\<rparr>) (iop_pTx pIop) tx_size) (\<lambda>(error, n).
     if error = AM_RET_GOOD then
       bindr (net_wait (net_inbox n) n) (\<lambda>n.
       bindr (if net_pRx n then rd8 (net_rx n) off_packType else Inl NullDeref) (\<lambda>t.
       bindr (if t AND AM_FUNC_PACK_TYPE_FLAG_ERR \<noteq> 0 then rd32 (net_rx n) off_status
              else Inr AM_RET_GOOD) (\<lambda>error.
       Inr (error, net_iop n, n))))
     else Inr (error, net_iop n, n))"

text \<open>The accessor \<open>am_net_create_function\<close> puts into a function object.\<close>

definition net_pkac :: "'w sock \<Rightarrow> 'w net pkac" where
  "net_pkac sk =
     \<lparr>pk_get_free_iop = (\<lambda>n. case am_net_get_free_req n of
                              Inr (pIop, n) \<Rightarrow> (Some pIop, n) | Inl e \<Rightarrow> (None, n)),
      pk_send_and_wait = am_net_send_and_wait sk\<rparr>"

section \<open>The calls on a remote device\<close>

definition am_net_get_capabilites_count :: "'w sock \<Rightarrow> 'w net \<Rightarrow> (UINT32 \<times> 'w net) res" where
  "am_net_get_capabilites_count sk n =
     (let tx_size = sizeof_IDENTIFY in
      bindr (am_net_get_free_req n) (\<lambda>(pIop, n).
      bindr (set_wrap (iop_pTx pIop) NET_FUNC_ID_BASEAPPMEM (ucast AM_PACK_TYPE_OPCODE_ONLY) tx_size
               (ucast AM_OP_GET_CAP_COUNT)) (\<lambda>tx.
      bindr (am_net_send_and_wait sk n (pIop\<lparr>iop_pTx := tx\<rparr>) tx_size 5000) (\<lambda>(error, pIop, n).
      if error = AM_RET_GOOD then
        case iop_pRx pIop of
          None \<Rightarrow> Inl NullDeref
        | Some rx \<Rightarrow> bindr (rd32 rx 8) (\<lambda>c. Inr (c, n))
      else Inr (0, n)))))"

text \<open>
  The bytes after the wrapper are taken for the capabilities, if there are at most as many as fit; a
  failed request and an unusable answer are both \<open>AM_RET_GOOD\<close>.
\<close>

definition am_net_get_capabilities ::
  "'w sock \<Rightarrow> 'w net \<Rightarrow> buf \<Rightarrow> UINT32 \<Rightarrow> (AM_RETURN \<times> buf \<times> 'w net) res" where
  "am_net_get_capabilities sk n pAmCaps cnt =
     (let tx_size = sizeof_FIVO in
      bindr (am_net_get_free_req n) (\<lambda>(pIop, n).
      bindr (set_wrap (iop_pTx pIop) NET_FUNC_ID_BASEAPPMEM (ucast AM_PACK_TYPE_FIVO) tx_size
               (ucast AM_OP_GET_CAP)) (\<lambda>tx.
      bindr (wr64 tx off_fivo_l1 4) (\<lambda>tx.
      bindr (wr32 tx off_fivo_data_in cnt) (\<lambda>tx.
      bindr (am_net_send_and_wait sk n (pIop\<lparr>iop_pTx := tx\<rparr>) tx_size 5000) (\<lambda>(error, pIop, n).
      if error = AM_RET_GOOD then
        let cap_bytes = sint (iop_resp_bytes pIop - of_nat sizeof_WRAPPER) in
        if 0 < cap_bytes \<and> cap_bytes \<le> sint (cnt * of_nat sizeof_MEM_CAP) then
          case iop_pRx pIop of
            None \<Rightarrow> Inl NullDeref
          | Some rx \<Rightarrow>
              bindr (the_buf pAmCaps) (\<lambda>b.
              bindr (memcpy b 0 rx off_resp_bytes (nat cap_bytes)) (\<lambda>b.
              Inr (AM_RET_GOOD, Some b, n)))
        else Inr (AM_RET_GOOD, pAmCaps, n)
      else Inr (AM_RET_GOOD, pAmCaps, n)))))))"

text \<open>
  The operators of the new client function. \<open>crResp.ops\<close> is read in the response.
\<close>

definition net_set_calls :: "bytes \<Rightarrow> mem_func \<Rightarrow> mem_func res" where
  "net_set_calls resp f =
     (let opat = (\<lambda>opc :: UINT32. rd32 resp (80 + 4 * unat opc)) in
      bindr (opat AM_OP_OPEN_FUNC) (\<lambda>w.
      bindr (if w \<noteq> 0 then set_call (\<lambda>c. c\<lparr>fc_open := Some Fn_net_open\<rparr>) f else Inr f) (\<lambda>f.
      bindr (opat AM_OP_CLOSE_FUNC) (\<lambda>w.
      bindr (if w \<noteq> 0 then set_call (\<lambda>c. c\<lparr>fc_close := Some Fn_net_close\<rparr>) f else Inr f) (\<lambda>f.
      bindr (opat AM_OP_SORT) (\<lambda>w.
      if w \<noteq> 0 then set_call (\<lambda>c. c\<lparr>fc_sort := Some Fn_pack_sort\<rparr>) f else Inr f))))))"

text \<open>
  \<open>pCap\<close> is the client's block from the capability on: \<open>tx_size\<close> bytes are copied from it, 20 more
  than the capability has. \<open>resp_bytes\<close> bytes are copied into \<open>crResp\<close>, wrapper included in the
  count; the bytes of \<open>crResp\<close> behind them keep their values.
\<close>

definition am_net_create_function ::
  "'w sock \<Rightarrow> 'w net \<Rightarrow> buf \<Rightarrow> mem_func \<Rightarrow> (AM_RETURN \<times> mem_func \<times> 'w net) res" where
  "am_net_create_function sk n pCap f =
     (let tx_size = sizeof_FIVO + of_nat sizeof_MEM_CAP - 4 in
      bindr (am_net_get_free_req n) (\<lambda>(pIop, n).
      bindr (set_wrap (iop_pTx pIop) NET_FUNC_ID_BASEAPPMEM (ucast AM_PACK_TYPE_FIVO) tx_size
               (ucast AM_OP_CREATE_FUNC)) (\<lambda>tx.
      bindr (wr64 tx off_fivo_l1 (of_nat sizeof_MEM_CAP)) (\<lambda>tx.
      bindr (the_buf pCap) (\<lambda>b.
      bindr (memcpy tx off_fivo_data_in b 0 (unat tx_size)) (\<lambda>tx.
      bindr (am_net_send_and_wait sk n (pIop\<lparr>iop_pTx := tx\<rparr>) tx_size 5000) (\<lambda>(error, pIop, n).
      if error = AM_RET_GOOD then
        case iop_pRx pIop of
          None \<Rightarrow> Inl NullDeref
        | Some rx \<Rightarrow>
            let resp = drop off_resp_bytes rx in
            bindr (memcpy (enc_cr_resp (fn_crResp f)) 0 resp 0 (unat (iop_resp_bytes pIop))) (\<lambda>cb.
            bindr (rd_cr_resp cb 0) (\<lambda>cr.
            bindr (rd32 resp 64) (\<lambda>devt.
            bindr (net_set_calls resp (f\<lparr>fn_crResp := cr, fn_pEntry := True, fn_handle := devt,
                     fn_send_and_wait := True, fn_get_free_iop := True\<rparr>)) (\<lambda>f.
            bindr (am_set_pack_access f) (\<lambda>(st, f).
            Inr (error, f, n))))))
      else Inr (error, f, n))))))))"

text \<open>
  The exchange in \<open>am_net_init_entry\<close>: an identify request, whose answer is received here and not by the thread.
  \<open>junk\<close> is what the two packets on the stack hold. The answer says whether the response thread is to be started.
\<close>

definition am_net_identify :: "'w sock \<Rightarrow> (nat \<Rightarrow> UINT8) \<Rightarrow> 'w net \<Rightarrow> (AM_RETURN \<times> bool \<times> 'w net) res" where
  "am_net_identify sk junk n =
     bindr (set_wrap (fresh junk sizeof_WRAPPER) NET_FUNC_ID_BASEAPPMEM (ucast AM_PACK_TYPE_OPCODE_ONLY)
              sizeof_IDENTIFY (ucast AM_OP_IDENTIFY)) (\<lambda>id_t.
     bindr (wr16 id_t off_appTag 7777) (\<lambda>id_t.
     bindr (am_int_send_msg sk n id_t sizeof_IDENTIFY) (\<lambda>(error, n).
     if error \<noteq> AM_RET_GOOD then Inr (error, False, n)
     else
       case net_inbox n of
         [] \<Rightarrow> Inl NoReturn
       | None # ms \<Rightarrow> Inr (AM_RET_IO_ERR, False, n\<lparr>net_inbox := ms\<rparr>)
       | Some d # ms \<Rightarrow>
           bindr (putb (fresh junk MAX_BASIC_PACK_UNION_SIZE) 0 (take MAX_BASIC_PACK_UNION_SIZE d)) (\<lambda>idResp.
           bindr (rd8 idResp off_packType) (\<lambda>t.
           bindr (if t AND AM_FUNC_PACK_TYPE_FLAG_ERR \<noteq> 0 then
                    bindr (rd32 idResp off_status) (\<lambda>e. Inr (if e = 0 then AM_RET_INVALID_DEV else e))
                  else Inr AM_RET_GOOD) (\<lambda>error.
           Inr (error, t AND AM_FUNC_PACK_TYPE_FLAG_ERR = 0, n\<lparr>net_inbox := ms\<rparr>)))))))"

end
