(* ===== verification/AM_Target.thy ===== *)
theory AM_Target
  imports AM_Queue AM_Pack
begin

text \<open>
  The target process, \<^verbatim>\<open>am_targ/am_target.c\<close>: serving one received packet, the loop over the queue, and
  the start of the target. \<open>'c\<close> is the type of client addresses. What the target sends is the list of
  (address, datagram) pairs in the order sent; the status of the send is ignored by the code.
\<close>

record 'c target =
  ta_g :: targ
  ta_q :: "'c pack_queue"
  ta_sent :: "('c \<times> bytes) list"

definition am_net_send_resp_msg :: "'c target \<Rightarrow> bytes \<Rightarrow> 'c option option \<Rightarrow> UINT32 \<Rightarrow> 'c target res" where
  "am_net_send_resp_msg t pMsg pvClient len =
     bindr (case pvClient of None \<Rightarrow> Inl NullDeref | Some None \<Rightarrow> Inl Uninit | Some (Some cl) \<Rightarrow> Inr cl) (\<lambda>cl.
     bindr (getb pMsg 0 (unat len)) (\<lambda>d.
     Inr (t\<lparr>ta_sent := ta_sent t @ [(cl, d)]\<rparr>)))"

text \<open>The packet \<open>rx\<close> of the command \<open>c\<close> is served; the response buffer keeps what earlier responses left.\<close>

definition am_targ_process_cmd ::
  "alloc \<Rightarrow> (nat \<Rightarrow> UINT8) \<Rightarrow> 'c target \<Rightarrow> bytes \<Rightarrow> 'c rec_cmd \<Rightarrow> (AM_RETURN \<times> 'c target) res" where
  "am_targ_process_cmd al junk t rx c =
     (let q = ta_q t; (k, max_resp_bytes) = am_get_pack_resp_buf q in
      bindr (nth_res (q_pTxBuf q) k) (\<lambda>resp.
      bindr (AM_ASSERT (of_nat sizeof_WRAPPER \<le> rc_recv_len c)) (\<lambda>_.
      bindr (rd16 rx off_func_id) (\<lambda>func_id.
      bindr (am_validate_function_id (ta_g t) func_id) (\<lambda>pFunc.
      bindr (am_pack_process_cmd al junk (ta_g t) pFunc rx resp) (\<lambda>(error, g, rx, resp, tx_bytes).
      let q = q\<lparr>q_pTxBuf := (q_pTxBuf q)[k := resp], q_pRxBuf := (q_pRxBuf q)[rc_pRxBuf c := rx]\<rparr> in
      bindr (am_net_send_resp_msg (t\<lparr>ta_g := g, ta_q := q\<rparr>) resp (rc_client c) tx_bytes) (\<lambda>t.
      Inr (error, t))))))))"

text \<open>One pass of the loop of \<open>am_targ_check_cmd_queue\<close>: nothing if the queue is empty.\<close>

definition am_targ_serve :: "alloc \<Rightarrow> (nat \<Rightarrow> UINT8) \<Rightarrow> 'c target \<Rightarrow> 'c target option res" where
  "am_targ_serve al junk t =
     bindr (cur_cmd (ta_q t)) (\<lambda>cur.
     case cur of
       None \<Rightarrow> Inr None
     | Some (rx, c) \<Rightarrow>
         bindr (am_targ_process_cmd al junk t rx c) (\<lambda>(error, t).
         bindr (advance_ci (ta_q t) c) (\<lambda>q. Inr (Some (t\<lparr>ta_q := q\<rparr>)))))"

text \<open>
  The loop while nothing is received: \<open>fuel\<close> bounds the passes, \<open>als\<close> and \<open>junks\<close> give every pass its
  allocator. It answers the number of packets served.
\<close>

fun am_targ_check_cmd_queue ::
  "nat \<Rightarrow> (nat \<Rightarrow> alloc) \<Rightarrow> (nat \<Rightarrow> nat \<Rightarrow> UINT8) \<Rightarrow> nat \<Rightarrow> 'c target \<Rightarrow> (nat \<times> 'c target) res" where
  "am_targ_check_cmd_queue 0 als junks n t = Inl NoReturn"
| "am_targ_check_cmd_queue (Suc fuel) als junks n t =
     bindr (am_targ_serve (als n) (junks n) t) (\<lambda>r.
     case r of
       None \<Rightarrow> Inr (n, t)
     | Some t \<Rightarrow> am_targ_check_cmd_queue fuel als junks (Suc n) t)"

text \<open>
  \<open>am_targ_start_target\<close> up to its endless loop, when the socket is there: the base function in slot
  0 and an empty queue of 1024 packets. \<open>al 0\<close> is the \<open>AM_TARGET_T\<close>, \<open>al 1\<close> and \<open>al 2\<close> belong to the
  base function, the rest to the queue.
\<close>

definition am_targ_start_target :: "alloc \<Rightarrow> registry \<Rightarrow> 'c target option" where
  "am_targ_start_target al reg =
     (if al 0 then
        case am_targ_init_base_function (\<lambda>i. al (1 + i)) of
          (st, Some base) \<Rightarrow>
            (case am_init_pack_queue (\<lambda>i. al (3 + i)) 1024 of
               Some q \<Rightarrow> Some \<lparr>ta_g = \<lparr>tg_table = start_table base, tg_reg = reg\<rparr>, ta_q = q, ta_sent = []\<rparr>
             | None \<Rightarrow> None)
        | (st, None) \<Rightarrow> None
      else None)"

text \<open>What happens to the target, in the order it happens: a datagram arrives or a packet is served.\<close>

datatype 'c targ_event = Recv "(bytes \<times> 'c) option" | Serve alloc "nat \<Rightarrow> UINT8"

fun targ_step :: "'c target \<Rightarrow> 'c targ_event \<Rightarrow> 'c target res" where
  "targ_step t (Recv d) = bindr (am_targ_recv (ta_q t) d) (\<lambda>q. Inr (t\<lparr>ta_q := q\<rparr>))"
| "targ_step t (Serve al junk) =
     bindr (am_targ_serve al junk t) (\<lambda>r. Inr (case r of None \<Rightarrow> t | Some t' \<Rightarrow> t'))"

fun targ_run :: "'c target \<Rightarrow> 'c targ_event list \<Rightarrow> 'c target res" where
  "targ_run t [] = Inr t"
| "targ_run t (e # es) = bindr (targ_step t e) (\<lambda>t. targ_run t es)"

end
