(* ===== verification/AM_Remote.thy ===== *)
theory AM_Remote
  imports AM_Link AM_Net AM_Queue_Props AM_Targ_Props AM_Target
begin

text \<open>
  Client and target together. A device read and written through packets, over a network that delivers
  every datagram, keeps the contract of the device itself.
\<close>

section \<open>One request to an idle target\<close>

definition idle :: "'c target \<Rightarrow> bool" where
  "idle t \<longleftrightarrow> q_ok (ta_q t) \<and> q_len (ta_q t) = 0 \<and> 1 < unat (q_size (ta_q t))"

text \<open>
  The network that delivers: the request reaches the target, whose main loop serves the queue until it is
  empty, and everything it sent reaches the client. A target that faults sends nothing.
\<close>

definition loop_sock :: "'c \<Rightarrow> alloc \<Rightarrow> (nat \<Rightarrow> UINT8) \<Rightarrow> 'c target sock" where
  "loop_sock cl al junk t d =
     (case bindr (targ_step t (Recv (Some (d, cl))))
             (\<lambda>t. am_targ_check_cmd_queue 2 (\<lambda>_. al) (\<lambda>_. junk) 0 t) of
        Inr (n, t') \<Rightarrow> (int (length d), map (\<lambda>(c, m). Some m) (drop (length (ta_sent t)) (ta_sent t')), t')
      | Inl e \<Rightarrow> (int (length d), [], t))"

definition q_bufs :: "'c pack_queue \<Rightarrow> nat \<Rightarrow> bytes \<Rightarrow> nat \<Rightarrow> bytes \<Rightarrow> 'c pack_queue" where
  "q_bufs q k resp j rx = q\<lparr>q_pTxBuf := (q_pTxBuf q)[k := resp], q_pRxBuf := (q_pRxBuf q)[j := rx]\<rparr>"

lemma q_bufs_ok:
  assumes "q_ok q" "length resp = 512" "length rx = 512"
  shows "q_ok (q_bufs q k resp j rx)" "q_len (q_bufs q k resp j rx) = q_len q"
    "q_size (q_bufs q k resp j rx) = q_size q" "q_rx_ci (q_bufs q k resp j rx) = q_rx_ci q"
    "q_pRxCmd (q_bufs q k resp j rx) = q_pRxCmd q" "q_nth (q_bufs q k resp j rx) = q_nth q"
proof -
  show n: "q_nth (q_bufs q k resp j rx) = q_nth q" by (rule ext) (simp add: q_nth_def q_bufs_def)
  show l: "q_len (q_bufs q k resp j rx) = q_len q" by (simp add: q_len_def q_bufs_def)
  have upd: "length (xs[a := v] ! b) = 512" if "b < length xs" "length (xs ! b) = 512" "length v = 512"
    for xs :: "bytes list" and v a b using that by (cases "a = b") auto
  show "q_ok (q_bufs q k resp j rx)"
    using assms unfolding q_ok_def Let_def n l by (auto simp: q_bufs_def upd)
qed (simp_all add: q_bufs_def)

lemma cur_cmd_empty:
  assumes "q_ok q" "q_len q = 0"
  shows "cur_cmd q = Inr None"
  using assms ring_dist_0 [of "unat (q_rx_ci q)" "unat (q_size q)" "unat (q_rx_pi q)"]
  by (simp add: q_ok_def Let_def q_len_def cur_cmd_def word_unat_eq_iff)

definition next_rx :: "'c target \<Rightarrow> bytes" where
  "next_rx t = q_pRxBuf (ta_q t) ! unat (q_rx_pi (ta_q t))"

definition next_tx :: "'c target \<Rightarrow> bytes" where
  "next_tx t = q_pTxBuf (ta_q t) ! unat (q_tx_pi (ta_q t))"

lemma next_length: "idle t \<Longrightarrow> length (next_rx t) = 512" "idle t \<Longrightarrow> length (next_tx t) = 512"
  by (auto simp: idle_def q_ok_def Let_def next_rx_def next_tx_def)

lemma serve_once:
  assumes idle: "idle t" and d: "dgram_ok (d, cl)" "8 \<le> length d"
    and id: "rd16 d off_func_id = Inr fid" "am_validate_function_id (ta_g t) fid = Inr pFunc"
    and cmd: "am_pack_process_cmd al junk (ta_g t) pFunc (d @ drop (length d) (next_rx t)) (next_tx t) =
      Inr (error, g', rx', resp', tx)"
    and len: "length rx' = 512" "length resp' = 512" "unat tx \<le> 512"
  shows "\<exists>t'. loop_sock cl al junk t d = (int (length d), [Some (take (unat tx) resp')], t') \<and> idle t' \<and> ta_g t' = g'"
proof -
  define q where "q = ta_q t"
  define q1 where "q1 = q_recv q d cl"
  have q: "q_ok q" "q_len q + 1 < unat (q_size q)" "q_len q = 0" using idle by (auto simp: idle_def q_def)
  note r = q_recv_ok [OF q(1) d(1) q(2), folded q1_def]
  have recv: "am_targ_recv q (Some (d, cl)) = Inr q1" using am_targ_recv_eq [OF q(1) d(1)] by (simp add: q1_def)
  have l1: "q_len q1 = 1" using arg_cong [OF r(2), of length] q(3) by (simp add: q_waiting_def)
  define k where "k = unat (q_rx_pi q)"
  define c where "c = q_pRxCmd q1 ! q_nth q1 0"
  have k: "k < length (q_pRxBuf q)" "k < length (q_pRxCmd q)" "unat (q_tx_pi q) < length (q_pTxBuf q)"
    using q(1) by (auto simp: q_ok_def Let_def k_def)
  have k0: "q_nth q1 0 = k"
  proof -
    have "unat (q_rx_ci q) = k"
      using q(1,3) ring_dist_0 [of "unat (q_rx_ci q)" "unat (q_size q)" k]
      by (simp add: q_ok_def Let_def q_len_def k_def)
    then show ?thesis
      using q(1) by (simp add: q_nth_def ring_idx_def q1_def q_recv_def Let_def q_ok_def)
  qed
  have rx: "q_pRxBuf q1 ! k = d @ drop (length d) (next_rx t)"
    using k by (simp add: q1_def q_recv_def Let_def k_def [symmetric] next_rx_def q_def [symmetric])
  have c: "rc_client c = Some (Some cl)" "rc_recv_len c = of_nat (length d)"
    using k by (simp_all add: c_def k0) (simp_all add: q1_def q_recv_def Let_def k_def [symmetric])
  have tx1: "q_pTxBuf q1 = q_pTxBuf q" "q_tx_pi q1 = q_tx_pi q" by (simp_all add: q1_def q_recv_def Let_def)
  note cur = q_deq_eq [OF r(1), unfolded l1, simplified, folded c_def, unfolded k0 rx]
  have recv_len: "(8 :: UINT32) \<le> rc_recv_len c"
    using d by (simp add: c(2) word_le_nat_alt unat_of_nat dgram_ok_def)
  have fid: "rd16 (d @ drop (length d) (next_rx t)) off_func_id = Inr fid"
    using id(1) d(2) by (simp add: rd16_def rd_append1)
  define q2 where "q2 = q_bufs q1 (unat (q_tx_pi q)) resp' (rc_pRxBuf c) rx'"
  note q2 = q_bufs_ok [OF r(1) len(2,1), of "unat (q_tx_pi q)" "rc_pRxBuf c", folded q2_def]
  define t2 where "t2 = t\<lparr>ta_g := g', ta_q := q2, ta_sent := ta_sent t @ [(cl, take (unat tx) resp')]\<rparr>"
  have proc: "am_targ_process_cmd al junk (t\<lparr>ta_q := q1\<rparr>) (d @ drop (length d) (next_rx t)) c = Inr (error, t2)"
    using k(3) recv_len fid id(2) cmd len c(1)
    by (simp add: am_targ_process_cmd_def am_get_pack_resp_buf_def tx1 next_tx_def q_def [symmetric]
          am_net_send_resp_msg_def getb_def t2_def q2_def q_bufs_def)
  have l2: "q_len q2 \<noteq> 0" using q2(2) l1 by simp
  have c2: "c = q_pRxCmd q2 ! q_nth q2 0" by (simp add: c_def q2)
  have adv: "advance_ci q2 c = Inr (q_next q2)"
    using q_deq_eq(2) [OF q2(1) l2] by (simp add: c2 q_next_def)
  note q3 = q_next_ok [OF q2(1) l2]
  have l3: "q_len (q_next q2) = 0" using q3(4) q2(2) l1 by simp
  have s1: "am_targ_serve al junk (t\<lparr>ta_q := q1\<rparr>) = Inr (Some (t2\<lparr>ta_q := q_next q2\<rparr>))"
    using cur(1) proc adv by (simp add: am_targ_serve_def t2_def)
  have s2: "am_targ_serve al junk (t2\<lparr>ta_q := q_next q2\<rparr>) = Inr None"
    using cur_cmd_empty [OF q3(1) l3] by (simp add: am_targ_serve_def)
  have "loop_sock cl al junk t d = (int (length d), [Some (take (unat tx) resp')], t2\<lparr>ta_q := q_next q2\<rparr>)"
    using recv s1 s2 by (simp add: loop_sock_def q_def [symmetric] numeral_2_eq_2) (simp add: t2_def)
  moreover have "idle (t2\<lparr>ta_q := q_next q2\<rparr>)"
    using q3(1,3) l3 q2(3) r(3) idle by (simp add: idle_def q_def)
  ultimately show ?thesis by (simp add: t2_def)
qed

section \<open>One request of the client\<close>

definition net_ready :: "'w net \<Rightarrow> bool" where
  "net_ready n \<longleftrightarrow> net_inbox n = [] \<and> length (net_tx n) = 512 \<and> length (net_rx n) = 8192"

lemma sint_small: "n < 2 ^ 31 \<Longrightarrow> sint (of_nat n :: UINT32) = int n"
  by (simp add: sint_uint unsigned_of_nat signed_take_bit_int_eq_self take_bit_nat_eq_self)

lemma send_and_wait_once:
  assumes n: "net_ready n" "net_done n = 0" and tx: "length (iop_pTx pIop) = 512" "unat tx_size \<le> 512"
    and sk: "sk (net_w n) (take (unat tx_size) (iop_pTx pIop)) = (int (unat tx_size), [Some (enc_wrapper w @ p)], w')"
    and w: "w_appTag w = 1" "length p \<le> 504"
  shows "\<exists>n'. am_net_send_and_wait sk n pIop tx_size tmo =
      bindr (if w_packType w AND AM_FUNC_PACK_TYPE_FLAG_ERR \<noteq> 0
             then rd32 (p @ drop (8 + length p) (net_rx n)) 0 else Inr AM_RET_GOOD) (\<lambda>st. Inr (st, net_iop n', n')) \<and>
    net_ready n' \<and> net_w n' = w' \<and> net_pRx n' \<and> net_resp_bytes n' = of_nat (8 + length p) \<and>
    net_rx n' = enc_wrapper w @ p @ drop (8 + length p) (net_rx n)"
proof -
  let ?rx = "enc_wrapper w @ p @ drop (8 + length p) (net_rx n)"
  define n' where "n' = n\<lparr>net_tx := iop_pTx pIop, net_w := w', net_rx := ?rx, net_pRx := True,
    net_resp_bytes := of_nat (8 + length p), net_done := 1\<rparr>"
  have u: "int (unat tx_size) = sint tx_size"
    using tx(2) sint_small [of "unat tx_size"] by simp
  then have nn: "0 \<le> sint tx_size" by (metis of_nat_0_le_iff)
  have send: "am_int_send_msg sk (n\<lparr>net_tx := iop_pTx pIop\<rparr>) (iop_pTx pIop) tx_size =
      Inr (AM_RET_GOOD, n\<lparr>net_tx := iop_pTx pIop, net_w := w', net_inbox := [Some (enc_wrapper w @ p)]\<rparr>)"
    using tx sk n(1) u nn by (simp add: am_int_send_msg_def getb_def Let_def net_ready_def)
  have tk: "take 8192 (enc_wrapper w @ p) = enc_wrapper w @ p" using w(2) by simp
  have "am_net_resp_pass (n\<lparr>net_tx := iop_pTx pIop, net_w := w', net_inbox := [Some (enc_wrapper w @ p)]\<rparr>)
      (Some (enc_wrapper w @ p)) = Inr (n'\<lparr>net_inbox := [Some (enc_wrapper w @ p)]\<rparr>)"
    using w n(1)
    by (simp add: am_net_resp_pass_def tk putb_in_bounds net_ready_def am_net_signal_resp_recv_def wrap_simps n'_def Let_def)
  then have wait: "net_wait [Some (enc_wrapper w @ p)]
      (n\<lparr>net_tx := iop_pTx pIop, net_w := w', net_inbox := [Some (enc_wrapper w @ p)]\<rparr>) = Inr n'"
    using n by (simp add: n'_def net_ready_def)
  have "am_net_send_and_wait sk n pIop tx_size tmo =
      bindr (if w_packType w AND AM_FUNC_PACK_TYPE_FLAG_ERR \<noteq> 0
             then rd32 (p @ drop (8 + length p) (net_rx n)) 0 else Inr AM_RET_GOOD) (\<lambda>st. Inr (st, net_iop n', n'))"
    using send wait by (simp add: am_net_send_and_wait_def) (simp add: n'_def wrap_simps)
  moreover have "net_ready n'" using n tx w(2) by (simp add: n'_def net_ready_def)
  ultimately show ?thesis by (intro exI [of _ n']) (simp add: n'_def)
qed

lemma free_iop_ready:
  assumes "net_ready n"
  shows "\<exists>w pay n1. w_appTag w = 1 \<and> length pay = 504 \<and> free_iop (net_pkac sk) n = Inr (net_iop n1, n1) \<and>
    net_tx n1 = enc_wrapper w @ pay \<and> net_ready n1 \<and> net_done n1 = 0 \<and> net_w n1 = net_w n \<and> net_rx n1 = net_rx n"
proof -
  have len: "8 \<le> length (net_tx n)" using assms by (simp add: net_ready_def)
  obtain w where w: "net_tx n = enc_wrapper w @ drop 8 (net_tx n)" using wrapper_cases [OF len] .
  define n1 where "n1 = n\<lparr>net_done := 0, net_tag := 1, net_pRx := False,
    net_tx := enc_wrapper (w\<lparr>w_appTag := 1\<rparr>) @ drop 8 (net_tx n)\<rparr>"
  have "wr16 (net_tx n) off_appTag 1 = Inr (enc_wrapper (w\<lparr>w_appTag := 1\<rparr>) @ drop 8 (net_tx n))"
    by (subst w) (simp only: wrap_simps)
  then have "am_net_get_free_req n = Inr (net_iop n1, n1)" by (simp add: am_net_get_free_req_def n1_def Let_def)
  then have "free_iop (net_pkac sk) n = Inr (net_iop n1, n1)" by (simp add: free_iop_def net_pkac_def)
  then show ?thesis using assms
    by (intro exI [of _ "w\<lparr>w_appTag := 1\<rparr>"] exI [of _ "drop 8 (net_tx n)"] exI [of _ n1]) (simp add: n1_def net_ready_def)
qed

lemma round_trip:
  assumes n: "net_ready n" "net_done n = 0" "idle (net_w n)"
    and tx: "iop_pTx pIop = enc_wrapper w @ body @ rest" "length (body @ rest) = 504" "unat tx_size = 8 + length body"
    and id: "am_validate_function_id (ta_g (net_w n)) (w_func_id w) = Inr pFunc"
    and cmd: "\<And>stale resp. length stale = 504 - length body \<Longrightarrow> length resp = 512 \<Longrightarrow>
      \<exists>p' g'. am_pack_process_cmd al junk (ta_g (net_w n)) pFunc (enc_wrapper w @ body @ stale) resp =
        Inr (error, g', enc_wrapper w @ body @ stale, enc_wrapper w' @ ans @ p', tx) \<and> length (ans @ p') = 504 \<and> P g'"
    and ans: "unat tx = 8 + length ans" "w_appTag w' = 1"
  shows "\<exists>n' rest'. am_net_send_and_wait (loop_sock cl al junk) n pIop tx_size tmo =
      bindr (if w_packType w' AND AM_FUNC_PACK_TYPE_FLAG_ERR \<noteq> 0 then rd32 (ans @ rest') 0 else Inr AM_RET_GOOD)
        (\<lambda>st. Inr (st, net_iop n', n')) \<and>
    net_ready n' \<and> idle (net_w n') \<and> P (ta_g (net_w n')) \<and> net_pRx n' \<and> net_resp_bytes n' = of_nat (8 + length ans) \<and>
    net_rx n' = enc_wrapper w' @ ans @ rest' \<and> length (ans @ rest') = 8184 \<and>
    rest' = drop (8 + length ans) (net_rx n)"
proof -
  define d where "d = enc_wrapper w @ body"
  let ?t = "net_w n"
  have len: "length d = 8 + length body" "length body \<le> 504" using tx(2) by (simp_all add: d_def)
  have stale: "length (drop (length d) (next_rx ?t)) = 504 - length body" using next_length(1) [OF n(3)] len by simp
  obtain p' g' where p': "am_pack_process_cmd al junk (ta_g ?t) pFunc (enc_wrapper w @ body @ drop (length d) (next_rx ?t)) (next_tx ?t) =
      Inr (error, g', enc_wrapper w @ body @ drop (length d) (next_rx ?t), enc_wrapper w' @ ans @ p', tx)"
    "length (ans @ p') = 504" "P g'"
    using cmd [OF stale next_length(2) [OF n(3)]] by blast
  have fid: "rd16 d off_func_id = Inr (w_func_id w)" by (simp add: d_def wrap_simps)
  have dg: "dgram_ok (d, cl)" "8 \<le> length d" using len by (simp_all add: dgram_ok_def d_def)
  have rx: "d @ drop (length d) (next_rx ?t) = enc_wrapper w @ body @ drop (length d) (next_rx ?t)" by (simp add: d_def)
  have l: "length (enc_wrapper w @ body @ drop (length d) (next_rx ?t)) = 512" using stale len by simp
  have l2: "length (enc_wrapper w' @ ans @ p') = 512" using p'(2) by simp
  have l3: "unat tx \<le> 512" using ans(1) p'(2) by simp
  have tk: "take (unat tx) (enc_wrapper w' @ ans @ p') = enc_wrapper w' @ ans" using ans(1) by simp
  from serve_once [OF n(3) dg fid id, unfolded rx, OF p'(1) l l2 l3, unfolded tk] obtain t' where
    t': "loop_sock cl al junk ?t d = (int (length d), [Some (enc_wrapper w' @ ans)], t')" "idle t'" "ta_g t' = g'" by blast
  have dd: "take (unat tx_size) (iop_pTx pIop) = d" using tx by (simp add: d_def)
  have sk: "loop_sock cl al junk ?t (take (unat tx_size) (iop_pTx pIop)) = (int (unat tx_size), [Some (enc_wrapper w' @ ans)], t')"
    unfolding dd using t'(1) len(1) tx(3) by simp
  have tl: "length (iop_pTx pIop) = 512" "unat tx_size \<le> 512" using tx len(2) by simp_all
  have al: "length ans \<le> 504" using p'(2) by simp
  from send_and_wait_once [where sk = "loop_sock cl al junk", OF n(1,2) tl sk ans(2) al, of tmo] obtain n' where n':
    "am_net_send_and_wait (loop_sock cl al junk) n pIop tx_size tmo =
      bindr (if w_packType w' AND AM_FUNC_PACK_TYPE_FLAG_ERR \<noteq> 0 then rd32 (ans @ drop (8 + length ans) (net_rx n)) 0
             else Inr AM_RET_GOOD) (\<lambda>st. Inr (st, net_iop n', n'))"
    "net_ready n'" "net_w n' = t'" "net_pRx n'" "net_resp_bytes n' = of_nat (8 + length ans)"
    "net_rx n' = enc_wrapper w' @ ans @ drop (8 + length ans) (net_rx n)" by blast
  then show ?thesis using t'(2,3) p'(3) n(1) al
    by (intro exI [of _ n'] exI [of _ "drop (8 + length ans) (net_rx n)"]) (simp add: net_ready_def)
qed

section \<open>A remote device\<close>

text \<open>
  The client's function object, the slot of the function on the target, the client's address, the
  target's allocator, and the network with the target behind it.
\<close>

record 'c remote =
  rm_F :: mem_func
  rm_i :: nat
  rm_cl :: 'c
  rm_al :: alloc
  rm_junk :: "nat \<Rightarrow> UINT8"
  rm_net :: "'c target net"

definition remote_pk :: "'c remote \<Rightarrow> 'c target net pkac" where
  "remote_pk r = net_pkac (loop_sock (rm_cl r) (rm_al r) (rm_junk r))"

definition remote_read :: "'c remote \<Rightarrow> buf \<Rightarrow> buf \<Rightarrow> (AM_RETURN \<times> 'c remote \<times> buf) res" where
  "remote_read r p1 p2 =
     bindr (am_pack_read32_align (remote_pk r) (rm_net r) (Some (rm_F r)) p1 p2) (\<lambda>(st, p2, n).
     Inr (st, r\<lparr>rm_net := n\<rparr>, p2))"

definition remote_write :: "'c remote \<Rightarrow> buf \<Rightarrow> buf \<Rightarrow> (AM_RETURN \<times> 'c remote \<times> buf) res" where
  "remote_write r p1 p2 =
     bindr (am_pack_write32_align (remote_pk r) (rm_net r) (Some (rm_F r)) p1 p2) (\<lambda>(st, n).
     Inr (st, r\<lparr>rm_net := n\<rparr>, p2))"

definition client_ok :: "mem_func \<Rightarrow> nat \<Rightarrow> bool" where
  "client_ok F i \<longleftrightarrow> fn_pEntry F \<and> fn_get_free_iop F \<and> fn_send_and_wait F \<and> i < 256 \<and> fn_handle F = 0xAA00 OR of_nat i"

definition remote_g :: "'c remote \<Rightarrow> targ" where
  "remote_g r = ta_g (net_w (rm_net r))"

definition remote_ok :: "fn_ptr \<Rightarrow> fn_ptr \<Rightarrow> 'c remote \<Rightarrow> bool" where
  "remote_ok rdf wrf r \<longleftrightarrow> net_ready (rm_net r) \<and> idle (net_w (rm_net r)) \<and> client_ok (rm_F r) (rm_i r) \<and>
     length (tg_table (remote_g r)) = AM_TARGET_MAX_FUNCTIONS \<and>
     (\<exists>f. tg_table (remote_g r) ! rm_i r = Live f \<and> dev_ok rdf wrf f)"

definition remote_dev :: "'c remote \<Rightarrow> mem_func" where
  "remote_dev r = (case tg_table (remote_g r) ! rm_i r of Live f \<Rightarrow> f | _ \<Rightarrow> zero_func)"

definition remote_store :: "(mem_func \<Rightarrow> bytes) \<Rightarrow> 'c remote \<Rightarrow> bytes" where
  "remote_store store r = store (remote_dev r)"

definition remote_cell ::
  "fn_ptr \<Rightarrow> fn_ptr \<Rightarrow> (mem_func \<Rightarrow> bytes \<Rightarrow> nat option) \<Rightarrow> 'c remote \<Rightarrow> bytes \<Rightarrow> nat option" where
  "remote_cell rdf wrf cell r k = (if remote_ok rdf wrf r then cell (remote_dev r) k else None)"

lemma remote_cell_Some:
  assumes "remote_cell rdf wrf cell r k = Some q"
  shows "remote_ok rdf wrf r" "cell (remote_dev r) k = Some q" "tg_table (remote_g r) ! rm_i r = Live (remote_dev r)"
    "dev_ok rdf wrf (remote_dev r)" "rm_i r < 256"
    "am_validate_function_id (remote_g r) (ucast (fn_handle (rm_F r))) = Inr (Some (rm_i r))"
proof -
  show ok: "remote_ok rdf wrf r" and c: "cell (remote_dev r) k = Some q"
    using assms by (auto simp: remote_cell_def split: if_splits)
  show i: "rm_i r < 256" using ok by (simp add: remote_ok_def client_ok_def)
  show t: "tg_table (remote_g r) ! rm_i r = Live (remote_dev r)" "dev_ok rdf wrf (remote_dev r)"
    using ok by (auto simp: remote_ok_def remote_dev_def)
  have h: "fn_handle (rm_F r) = 0xAA00 OR of_nat (rm_i r)" using ok by (simp add: remote_ok_def client_ok_def)
  show "am_validate_function_id (remote_g r) (ucast (fn_handle (rm_F r))) = Inr (Some (rm_i r))"
    using validate_slot [OF i, of "remote_g r"] func_id_cast(2) [OF i] t i ok
    by (simp add: h tbl_slot_def remote_ok_def)
qed

lemma remote_slot:
  assumes "remote_cell rdf wrf cell r k = Some q"
  shows "tbl_get (remote_g r) (rm_i r) = Inr (remote_dev r)"
  using remote_cell_Some [OF assms] by (simp add: tbl_get_def remote_ok_def)

text \<open>The state after the object in the slot was replaced by one with the same operators and sizes.\<close>

lemma remote_next:
  assumes "remote_cell rdf wrf cell r k = Some q"
    and "net_ready n'" "idle (net_w n')" "ta_g (net_w n') = tbl_set (remote_g r) (rm_i r) (Live f')"
    and "fn_pfnOps f' = fn_pfnOps (remote_dev r)" "fn_crResp f' = fn_crResp (remote_dev r)" "cell f' = cell (remote_dev r)"
  shows "remote_dev (r\<lparr>rm_net := n'\<rparr>) = f'"
    "remote_cell rdf wrf cell (r\<lparr>rm_net := n'\<rparr>) = remote_cell rdf wrf cell r"
proof -
  note r = remote_cell_Some [OF assms(1)]
  have len: "rm_i r < length (tg_table (remote_g r))" using r(1,5) by (simp add: remote_ok_def)
  have t: "tg_table (remote_g (r\<lparr>rm_net := n'\<rparr>)) = (tg_table (remote_g r))[rm_i r := Live f']"
    by (simp add: remote_g_def assms(4) tbl_set_def)
  show d: "remote_dev (r\<lparr>rm_net := n'\<rparr>) = f'" using len by (simp add: remote_dev_def t)
  have "dev_ok rdf wrf f'" using r(4) assms(5,6) by (simp add: dev_ok_def)
  then have "remote_ok rdf wrf (r\<lparr>rm_net := n'\<rparr>)" using r(1) len assms(2,3) by (simp add: remote_ok_def t)
  then show "remote_cell rdf wrf cell (r\<lparr>rm_net := n'\<rparr>) = remote_cell rdf wrf cell r"
    using r(1) assms(7) by (intro ext) (simp add: remote_cell_def d)
qed

section \<open>The contract through packets\<close>

lemma asserts_client: "client_ok F i \<Longrightarrow> pack_asserts (Some F) = Inr F"
  by (simp add: pack_asserts_def client_ok_def)

lemma pk_send [simp]: "pk_send_and_wait (net_pkac sk) = am_net_send_and_wait sk"
  by (simp add: net_pkac_def)

interpretation net_link:
  pack_link "net_pkac (loop_sock cl al junk)" "\<lambda>n. net_ready n \<and> idle (net_w n)"
    "\<lambda>n. net_ready n \<and> net_done n = 0 \<and> idle (net_w n)" "\<lambda>n. ta_g (net_w n)" i al junk
    "\<lambda>g id. am_validate_function_id g id = Inr (Some i)" "\<lambda>t. t = 1"
  for cl :: 'c and al junk i
proof
  fix n :: "'c target net" assume n: "net_ready n \<and> idle (net_w n)"
  obtain w pay n1 where "w_appTag w = 1" "length pay = 504" "free_iop (net_pkac (loop_sock cl al junk)) n = Inr (net_iop n1, n1)"
    "net_tx n1 = enc_wrapper w @ pay" "net_ready n1" "net_done n1 = 0" "net_w n1 = net_w n"
    using free_iop_ready [of n "loop_sock cl al junk"] n by blast
  then show "\<exists>w pay pIop n1. free_iop (net_pkac (loop_sock cl al junk)) n = Inr (pIop, n1) \<and>
      iop_pTx pIop = enc_wrapper w @ pay \<and> w_appTag w = 1 \<and> length pay = 504 \<and>
      (net_ready n1 \<and> net_done n1 = 0 \<and> idle (net_w n1)) \<and> ta_g (net_w n1) = ta_g (net_w n)"
    using n by (intro exI [of _ w] exI [of _ pay] exI [of _ "net_iop n1"] exI [of _ n1]) (simp add: net_iop_def)
next
  fix n :: "'c target net" and pIop :: iop and w :: pack_wrapper and body rest ans :: bytes
    and tx_size tx tmo error :: UINT32 and P :: "mem_func \<Rightarrow> bool"
  assume n: "net_ready n \<and> net_done n = 0 \<and> idle (net_w n)" and tx: "iop_pTx pIop = enc_wrapper w @ body @ rest"
    "length (body @ rest) = 504" "unat tx_size = 8 + length body"
    and w: "am_validate_function_id (ta_g (net_w n)) (w_func_id w) = Inr (Some i)" "w_appTag w = 1" "w_packType w = 3"
    and cmd: "\<And>stale resp. length stale = 504 - length body \<Longrightarrow> length resp = 512 \<Longrightarrow>
        \<exists>p' f'. am_pack_process_cmd al junk (ta_g (net_w n)) (Some i) (enc_wrapper w @ body @ stale) resp =
          Inr (error, tbl_set (ta_g (net_w n)) i (Live f'), enc_wrapper w @ body @ stale,
            enc_wrapper (reply_wrap w error tx) @ ans @ p', tx) \<and> length (ans @ p') = 504 \<and> P f'"
    and ans: "unat tx = 8 + length ans" and err: "error \<noteq> AM_RET_GOOD \<Longrightarrow> ans = le_enc 4 error"
  have n': "net_ready n" "net_done n = 0" "idle (net_w n)" using n by simp_all
  have tag: "w_appTag (reply_wrap w error tx) = 1" using w(2) by simp
  have tx_n: "of_nat (8 + length ans) = tx" using arg_cong [OF ans, of "of_nat :: nat \<Rightarrow> UINT32"] by simp
  let ?P = "\<lambda>g'. \<exists>f'. g' = tbl_set (ta_g (net_w n)) i (Live f') \<and> P f'"
  have cmd': "\<exists>p' g'. am_pack_process_cmd al junk (ta_g (net_w n)) (Some i) (enc_wrapper w @ body @ stale) resp =
      Inr (error, g', enc_wrapper w @ body @ stale, enc_wrapper (reply_wrap w error tx) @ ans @ p', tx) \<and>
      length (ans @ p') = 504 \<and> ?P g'" if "length stale = 504 - length body" "length resp = 512" for stale resp
    using cmd [OF that] by blast
  have st: "(if w_packType (reply_wrap w error tx) AND AM_FUNC_PACK_TYPE_FLAG_ERR \<noteq> 0 then rd32 (ans @ rest') 0
      else Inr AM_RET_GOOD) = Inr error" for rest'
    using w(3) err by (auto simp: rd32_def rd_in_bounds)
  show "\<exists>n' pIop' rest' f'. pk_send_and_wait (net_pkac (loop_sock cl al junk)) n pIop tx_size tmo = Inr (error, pIop', n') \<and>
      (net_ready n' \<and> idle (net_w n')) \<and> ta_g (net_w n') = tbl_set (ta_g (net_w n)) i (Live f') \<and> P f' \<and>
      iop_pRx pIop' = Some (enc_wrapper (reply_wrap w error tx) @ ans @ rest') \<and> iop_resp_bytes pIop' = tx"
    using round_trip [where P = ?P, OF n' tx w(1) cmd' ans tag, of cl tmo] unfolding tx_n st by (auto simp: net_iop_def)
qed

context packet_device
begin

lemma net_linked:
  assumes "client_ok F i"
  shows "linked_device rdf wrf store cell (net_pkac (loop_sock cl al junk)) (\<lambda>n. net_ready n \<and> idle (net_w n))
    (\<lambda>n. net_ready n \<and> net_done n = 0 \<and> idle (net_w n)) (\<lambda>n. ta_g (net_w n)) i al junk
    (\<lambda>g id. am_validate_function_id g id = Inr (Some i)) (\<lambda>t. t = 1) F"
  by (intro linked_device.intro linked_device_axioms.intro packet_device_axioms net_link.pack_link_axioms
      asserts_client [OF assms])

lemma remote_read_ok:
  assumes c: "remote_cell rdf wrf cell r k = Some q" and d: "4 \<le> length d"
  shows "\<exists>r'. remote_read r (Some k) (Some d) =
      Inr (AM_RET_GOOD, r', Some (take 4 (drop q (remote_store store r)) @ drop 4 d)) \<and>
    remote_store store r' = remote_store store r \<and> remote_cell rdf wrf cell r' = remote_cell rdf wrf cell r"
proof -
  note r = remote_cell_Some [OF c]
  have cl: "client_ok (rm_F r) (rm_i r)" using r(1) by (simp add: remote_ok_def)
  have n: "net_ready (rm_net r) \<and> idle (net_w (rm_net r))" using r(1) by (simp add: remote_ok_def)
  note l = r(6) [unfolded remote_g_def] remote_slot [OF c, unfolded remote_g_def] r(4,2)
  obtain n' f' where n': "am_pack_read32_align (remote_pk r) (rm_net r) (Some (rm_F r)) (Some k) (Some d) =
      Inr (AM_RET_GOOD, Some (take 4 (drop q (store (remote_dev r))) @ drop 4 d), n')" "net_ready n'" "idle (net_w n')"
    "ta_g (net_w n') = tbl_set (remote_g r) (rm_i r) (Live f')" "store f' = store (remote_dev r)"
    "cell f' = cell (remote_dev r)" "fn_pfnOps f' = fn_pfnOps (remote_dev r)" "fn_crResp f' = fn_crResp (remote_dev r)"
    using linked_device.read_link [OF net_linked [OF cl, of "rm_cl r" "rm_al r" "rm_junk r"] n l d]
    unfolding remote_pk_def remote_g_def by blast
  note nx = remote_next [OF c n'(2-4,7,8,6)]
  have "remote_read r (Some k) (Some d) =
      Inr (AM_RET_GOOD, r\<lparr>rm_net := n'\<rparr>, Some (take 4 (drop q (remote_store store r)) @ drop 4 d))"
    using n'(1) by (simp add: remote_read_def remote_store_def)
  then show ?thesis using nx n'(5) by (intro exI [of _ "r\<lparr>rm_net := n'\<rparr>"]) (simp add: remote_store_def)
qed

lemma remote_write_ok:
  assumes c: "remote_cell rdf wrf cell r k = Some q" and d: "4 \<le> length d"
  shows "\<exists>r'. remote_write r (Some k) (Some d) = Inr (AM_RET_GOOD, r', Some d) \<and>
    remote_store store r' = splice_at (remote_store store r) q (take 4 d) \<and>
    remote_cell rdf wrf cell r' = remote_cell rdf wrf cell r"
proof -
  note r = remote_cell_Some [OF c]
  have cl: "client_ok (rm_F r) (rm_i r)" using r(1) by (simp add: remote_ok_def)
  have n: "net_ready (rm_net r) \<and> idle (net_w (rm_net r))" using r(1) by (simp add: remote_ok_def)
  note l = r(6) [unfolded remote_g_def] remote_slot [OF c, unfolded remote_g_def] r(4,2)
  obtain n' f' where n': "am_pack_write32_align (remote_pk r) (rm_net r) (Some (rm_F r)) (Some k) (Some d) =
      Inr (AM_RET_GOOD, n')" "net_ready n'" "idle (net_w n')"
    "ta_g (net_w n') = tbl_set (remote_g r) (rm_i r) (Live f')" "store f' = splice_at (store (remote_dev r)) q (take 4 d)"
    "cell f' = cell (remote_dev r)" "fn_pfnOps f' = fn_pfnOps (remote_dev r)" "fn_crResp f' = fn_crResp (remote_dev r)"
    using linked_device.write_link [OF net_linked [OF cl, of "rm_cl r" "rm_al r" "rm_junk r"] n l d]
    unfolding remote_pk_def remote_g_def by blast
  note nx = remote_next [OF c n'(2-4,7,8,6)]
  have "remote_write r (Some k) (Some d) = Inr (AM_RET_GOOD, r\<lparr>rm_net := n'\<rparr>, Some d)"
    using n'(1) by (simp add: remote_write_def)
  then show ?thesis using nx n'(5) by (intro exI [of _ "r\<lparr>rm_net := n'\<rparr>"]) (simp add: remote_store_def)
qed

end

sublocale packet_device \<subseteq> remote:
  aligned_device remote_read remote_write "remote_store store" "remote_cell rdf wrf cell"
proof
  fix r :: "'c remote" and k p assume "remote_cell rdf wrf cell r k = Some p"
  from remote_cell_Some(2) [OF this] show "p + 4 \<le> length (remote_store store r)"
    unfolding remote_store_def by (rule cell_bound)
qed (rule remote_read_ok remote_write_ok; assumption)+

section \<open>Properties\<close>

text \<open>
  Over a network that delivers, and with nothing else in the target's queue, a remote flat memory is
  a flat memory: after any list of writes through packets whose cells are equal to or disjoint from the
  one read, a read through packets returns the data last written there, or what the memory in the
  target held before.
\<close>

theorem am_remote_flat:
  assumes "writes_fit (remote_cell Fn_flat_read32_align Fn_flat_write32_align flat_cell r) ws q"
    and "remote_cell Fn_flat_read32_align Fn_flat_write32_align flat_cell r k = Some q" "4 \<le> length d"
  shows "\<exists>r1 r2. write_all remote_write r ws = Inr (AM_RET_GOOD, r1) \<and>
    remote_read r1 (Some k) (Some d) = Inr (AM_RET_GOOD, r2,
      Some ((case last_write (remote_cell Fn_flat_read32_align Fn_flat_write32_align flat_cell r) ws q of
               Some x \<Rightarrow> x | None \<Rightarrow> take 4 (drop q (flat_store (remote_dev r)))) @ drop 4 d))"
  using flat_packets.remote.last_write_wins [OF assms] unfolding remote_store_def .

text \<open>The same for a remote static array.\<close>

theorem am_remote_stata:
  assumes "writes_fit (remote_cell Fn_stata_read_idx32 Fn_stata_write_idx32 stata_cell r) ws q"
    and "remote_cell Fn_stata_read_idx32 Fn_stata_write_idx32 stata_cell r k = Some q" "4 \<le> length d"
  shows "\<exists>r1 r2. write_all remote_write r ws = Inr (AM_RET_GOOD, r1) \<and>
    remote_read r1 (Some k) (Some d) = Inr (AM_RET_GOOD, r2,
      Some ((case last_write (remote_cell Fn_stata_read_idx32 Fn_stata_write_idx32 stata_cell r) ws q of
               Some x \<Rightarrow> x | None \<Rightarrow> take 4 (drop q (stata_store (remote_dev r)))) @ drop 4 d))"
  using stata_packets.remote.last_write_wins [OF assms] unfolding remote_store_def .

text \<open>A remote device to run the two on: one function object in slot 1 of a fresh target.\<close>

definition demo_remote :: "mem_func \<Rightarrow> nat pack_queue \<Rightarrow> nat remote" where
  "demo_remote f q = \<lparr>rm_F = f, rm_i = 1, rm_cl = 7, rm_al = (\<lambda>_. True), rm_junk = (\<lambda>_. 0),
     rm_net = \<lparr>net_tag = 0, net_done = 0, net_pRx = False, net_resp_bytes = 0, net_tx = replicate 512 0,
       net_rx = replicate 8192 0, net_inbox = [],
       net_w = \<lparr>ta_g = \<lparr>tg_table = (start_table zero_func)[1 := Live f], tg_reg = []\<rparr>, ta_q = q, ta_sent = []\<rparr>\<rparr>\<rparr>"

lemma demo_remote_cell:
  assumes "q_ok q" "q_waiting q = []" "q_size q = 2"
  shows "remote_cell rdf wrf cell (demo_remote (demo_func rdf wrf fd) q) = cell (demo_func rdf wrf fd)"
    "remote_dev (demo_remote (demo_func rdf wrf fd) q) = demo_func rdf wrf fd"
proof -
  show d: "remote_dev (demo_remote (demo_func rdf wrf fd) q) = demo_func rdf wrf fd"
    by (simp add: remote_dev_def remote_g_def demo_remote_def start_table_def)
  have "remote_ok rdf wrf (demo_remote (demo_func rdf wrf fd) q)"
    using assms
    by (simp add: remote_ok_def remote_g_def demo_remote_def start_table_def net_ready_def idle_def client_ok_def
          dev_ok_def demo_func_def demo_ops_def zero_ops_def cr_is_32_def q_waiting_def)
  then show "remote_cell rdf wrf cell (demo_remote (demo_func rdf wrf fd) q) = cell (demo_func rdf wrf fd)"
    by (intro ext) (simp add: remote_cell_def d)
qed

lemma am_remote_flat_witness:
  "\<exists>q r1 r2. am_init_pack_queue (\<lambda>_. True) 2 = Some q \<and>
    write_all remote_write (demo_remote demo_flat q) [([4, 0, 0, 0], [9, 8, 7, 6])] = Inr (0, r1) \<and>
    remote_read r1 (Some [4, 0, 0, 0]) (Some [0, 0, 0, 0]) = Inr (0, r2, Some [9, 8, 7, 6])"
proof -
  obtain q :: "nat pack_queue" where q: "am_init_pack_queue (\<lambda>_. True) 2 = Some q"
    by (simp add: am_init_pack_queue_def Let_def)
  note q3 = init_queue_ok [OF q, simplified]
  have c: "remote_cell Fn_flat_read32_align Fn_flat_write32_align flat_cell (demo_remote demo_flat q) = flat_cell demo_flat"
    unfolding demo_flat_def by (rule demo_remote_cell) (rule q3)+
  have v: "flat_cell demo_flat [4, 0, 0, 0] = Some 4"
    by (simp add: flat_cell_def flat_store_def demo_flat_def demo_func_def Let_def)
  have f: "writes_fit (flat_cell demo_flat) [([4, 0, 0, 0], [9, 8, 7, 6])] 4" by (simp add: writes_fit_def v)
  show ?thesis
    using am_remote_flat [of "demo_remote demo_flat q" "[([4, 0, 0, 0], [9, 8, 7, 6])]" 4 "[4, 0, 0, 0]" "[0, 0, 0, 0]",
        unfolded c] f v q by simp
qed

lemma am_remote_stata_witness:
  "\<exists>q r1 r2. am_init_pack_queue (\<lambda>_. True) 2 = Some q \<and>
    write_all remote_write (demo_remote demo_stata q) [([0, 0, 0, 0], [9, 8, 7, 6])] = Inr (0, r1) \<and>
    remote_read r1 (Some [1, 0, 0, 0]) (Some [0, 0, 0, 0]) = Inr (0, r2, Some [1, 1, 1, 1])"
proof -
  obtain q :: "nat pack_queue" where q: "am_init_pack_queue (\<lambda>_. True) 2 = Some q"
    by (simp add: am_init_pack_queue_def Let_def)
  note q3 = init_queue_ok [OF q, simplified]
  let ?fd = "FdStata \<lparr>st_data = Live (replicate 8 1), st_size = 8, st_array_size = 2, st_idx_size = 4, st_data_size = 4\<rparr>"
  note c = demo_remote_cell(1) [OF q3, of Fn_stata_read_idx32 Fn_stata_write_idx32 stata_cell ?fd, folded demo_stata_def]
    demo_remote_cell(2) [OF q3, of Fn_stata_read_idx32 Fn_stata_write_idx32 ?fd, folded demo_stata_def]
  have s: "stata_store demo_stata = replicate 8 1" by (simp add: stata_store_def demo_stata_def demo_func_def)
  have v: "stata_cell demo_stata [0, 0, 0, 0] = Some 0" "stata_cell demo_stata [1, 0, 0, 0] = Some 4"
    by (simp_all add: stata_cell_def s Let_def)
  have f: "writes_fit (stata_cell demo_stata) [([0, 0, 0, 0], [9, 8, 7, 6])] 4" by (simp add: writes_fit_def v)
  have o1: "take 4 (drop 4 (replicate 8 (1 :: UINT8))) = [1, 1, 1, 1]" by (simp add: eval_nat_numeral)
  show ?thesis
    using am_remote_stata [of "demo_remote demo_stata q" "[([0, 0, 0, 0], [9, 8, 7, 6])]" 4 "[1, 0, 0, 0]" "[0, 0, 0, 0]",
        unfolded c s o1] f v q by simp
qed

end
