(* ===== verification/AM_Sock.thy ===== *)
theory AM_Sock
  imports AM_Net
begin

text \<open>
  Entries of the library and the sockets behind them: \<^verbatim>\<open>appmemlib/am_linux_net.c\<close> and the parts of
  \<^verbatim>\<open>appmemlib/appmem_net.c\<close> that make and close an entry. The answers of the system calls are parameters; what
  the code does with them, and which descriptors it leaves open, is modelled.
\<close>

section \<open>Entries\<close>

text \<open>The functions an entry can point to.\<close>

datatype entry_fn =
    En_net_get_capabilites_count | En_net_get_capabilities | En_net_create_function | En_net_entry_close
  | En_kd_get_capabilities_count | En_kd_get_capabilities | En_kd_get_cap_details | En_kd_create_function | En_kd_entry_close
  | En_virtd_get_capabilites_count | En_virtd_get_capabilities | En_virt_get_cap_details | En_virtd_create_function
  | En_virtd_entry_close

text \<open>\<open>sockaddr_in\<close>, port and address in the byte order of the network.\<close>

record sockaddr =
  sin_family :: UINT16
  sin_port :: UINT16
  sin_addr :: UINT32

record udp_socket =
  us_socket_handle :: UINT32
  us_local_addr :: sockaddr
  us_remote_addr :: sockaddr
  us_rcv_timeout :: UINT32
  us_send_timeout :: UINT32

text \<open>\<open>AMLIB_ENTRY_T\<close>: the thread is there or not; \<open>am_name\<close> is the text it points to.\<close>

record amlib_entry =
  en_am_name :: "bytes option"
  en_get_cap_count :: "entry_fn option"
  en_get_capabilities :: "entry_fn option"
  en_get_cap_details :: "entry_fn option"
  en_create_function :: "entry_fn option"
  en_close :: "entry_fn option"
  en_pTransport :: "udp_socket ptr"
  en_pThread :: bool

text \<open>An entry set to zero.\<close>

definition no_entry :: amlib_entry where
  "no_entry = \<lparr>en_am_name = None, en_get_cap_count = None, en_get_capabilities = None, en_get_cap_details = None,
     en_create_function = None, en_close = None, en_pTransport = Null, en_pThread = False\<rparr>"

section \<open>Sockets\<close>

abbreviation (input) DEFAULT_AM_NET_PORT :: UINT16 where "DEFAULT_AM_NET_PORT \<equiv> 4950"
abbreviation (input) AF_INET :: UINT16 where "AF_INET \<equiv> 2"

definition htons :: "UINT16 \<Rightarrow> UINT16" where
  "htons w = push_bit 8 w OR drop_bit 8 w"

definition htonl :: "UINT32 \<Rightarrow> UINT32" where
  "htonl w = le_dec (rev (le_enc 4 w))"

text \<open>What the system calls return during one operation, and whether a thread could be started.\<close>

record sys =
  sy_socket :: UINT32
  sy_setsockopt :: UINT32
  sy_bind :: UINT32
  sy_close :: UINT32
  sy_pthread_attr_init :: UINT32

definition zero_addr :: sockaddr where
  "zero_addr = \<lparr>sin_family = 0, sin_port = 0, sin_addr = 0\<rparr>"

text \<open>
  \<open>al 0\<close> is the allocation of the socket object. The last argument are the descriptors that are open: a
  descriptor made by \<^verbatim>\<open>socket\<close> is among them until it is closed.
\<close>

definition am_net_establish_socket ::
  "sys \<Rightarrow> alloc \<Rightarrow> amlib_entry \<Rightarrow> UINT32 \<Rightarrow> UINT16 \<Rightarrow> UINT32 set \<Rightarrow> AM_RETURN \<times> amlib_entry \<times> UINT32 set" where
  "am_net_establish_socket sy al pEntry ipaddr port fds =
     (let pEntry = pEntry\<lparr>en_pTransport := Null\<rparr>; socket_handle = sy_socket sy in
      if sint socket_handle < 0 then (AM_RET_SOCKET_ERR, pEntry, fds)
      else
        let fds = insert socket_handle fds in
        if \<not> al 0 then (AM_RET_ALLOC_ERR, pEntry, fds)
        else if sy_setsockopt sy \<noteq> 0 then (AM_RET_SOCKET_ERR, pEntry, fds)
        else if sint (sy_bind sy) < 0 then (AM_RET_SOCKET_ERR, pEntry, fds)
        else
          let pSocket = \<lparr>us_socket_handle = socket_handle,
                us_local_addr = \<lparr>sin_family = AF_INET, sin_port = htons (if port = 0 then 1117 else port), sin_addr = 0\<rparr>,
                us_remote_addr = (if ipaddr \<noteq> 0
                  then \<lparr>sin_family = AF_INET, sin_port = htons DEFAULT_AM_NET_PORT, sin_addr = htonl ipaddr\<rparr> else zero_addr),
                us_rcv_timeout = 10, us_send_timeout = 10\<rparr>
          in (AM_RET_GOOD, pEntry\<lparr>en_pTransport := Live pSocket\<rparr>, fds))"

text \<open>The entry keeps the pointer to the object that is freed.\<close>

definition am_net_destroy_socket :: "sys \<Rightarrow> amlib_entry \<Rightarrow> UINT32 set \<Rightarrow> (AM_RETURN \<times> amlib_entry \<times> UINT32 set) res" where
  "am_net_destroy_socket sy pEntry fds =
     (if en_pTransport pEntry = Null then Inr (AM_RET_GOOD, pEntry, fds)
      else
        bindr (deref (en_pTransport pEntry)) (\<lambda>pSocket.
        Inr (if sy_close sy \<noteq> 0 then AM_RET_SOCKET_ERR else AM_RET_GOOD, pEntry\<lparr>en_pTransport := Dangling\<rparr>,
             if sy_close sy \<noteq> 0 then fds else fds - {us_socket_handle pSocket})))"

text \<open>
  A receive. \<open>bytes_rcv\<close> is what \<^verbatim>\<open>recvfrom\<close> returns, with the datagram; the message is written over the buffer and its length stored
  unless that is negative.
\<close>

definition am_net_recv_msg ::
  "udp_socket ptr \<Rightarrow> UINT32 \<Rightarrow> bytes \<Rightarrow> bytes \<Rightarrow> UINT32 \<Rightarrow> UINT32 \<Rightarrow> (AM_RETURN \<times> bytes \<times> UINT32) res" where
  "am_net_recv_msg pTransport bytes_rcv d pMsg len rcv_bytes =
     bindr (AM_ASSERT (pTransport \<noteq> Null)) (\<lambda>_.
     bindr (deref pTransport) (\<lambda>_.
     if sint bytes_rcv < 0 then Inr (AM_RET_IO_ERR, pMsg, rcv_bytes)
     else bindr (putb pMsg 0 (take (unat len) d)) (\<lambda>pMsg. Inr (AM_RET_GOOD, pMsg, bytes_rcv))))"

text \<open>The same for the target, where the address of the sender is stored in the client object.\<close>

definition am_net_recv_unsol_msg ::
  "udp_socket ptr \<Rightarrow> UINT32 \<Rightarrow> bytes \<Rightarrow> 'c \<Rightarrow> bytes \<Rightarrow> UINT32 \<Rightarrow> UINT32 \<Rightarrow> 'c option \<Rightarrow> (AM_RETURN \<times> bytes \<times> UINT32 \<times> 'c option) res" where
  "am_net_recv_unsol_msg pTransport error d from pMsg len rcv_bytes pClient =
     bindr (AM_ASSERT (pTransport \<noteq> Null)) (\<lambda>_.
     bindr (AM_ASSERT (pClient \<noteq> None)) (\<lambda>_.
     bindr (deref pTransport) (\<lambda>_.
     if sint error < 0 then Inr (AM_RET_IO_ERR, pMsg, rcv_bytes, pClient)
     else bindr (putb pMsg 0 (take (unat len) d)) (\<lambda>pMsg. Inr (AM_RET_GOOD, pMsg, error, Some from)))))"

section \<open>Threads\<close>

text \<open>
  \<open>am_thread_create\<close> says whether it returns an object, and whether a thread runs: the object is returned whatever
  \<^verbatim>\<open>pthread_create\<close> and \<^verbatim>\<open>pthread_attr_init\<close> answer. \<open>run\<close> is the former's success.
\<close>

definition am_thread_create :: "sys \<Rightarrow> bool \<Rightarrow> bool \<Rightarrow> bool \<times> bool" where
  "am_thread_create sy al run = (al, al \<and> sy_pthread_attr_init sy = 0 \<and> run)"

definition am_thread_destroy :: AM_RETURN where
  "am_thread_destroy = AM_RET_GOOD"

section \<open>Entries over the network\<close>

text \<open>
  \<open>am_net_init_entry\<close>. \<open>al 1\<close> is the thread object. Any failure to make the socket is
  \<open>AM_RET_SOCKET_ERR\<close>.
\<close>

definition am_net_init_entry ::
  "'w sock \<Rightarrow> sys \<Rightarrow> alloc \<Rightarrow> bool \<Rightarrow> (nat \<Rightarrow> UINT8) \<Rightarrow> amlib_entry \<Rightarrow> UINT32 \<Rightarrow> UINT32 set \<Rightarrow> 'w net \<Rightarrow>
   (AM_RETURN \<times> amlib_entry \<times> UINT32 set \<times> 'w net) res" where
  "am_net_init_entry sk sy al run junk pEntry ipaddr fds n =
     (case am_net_establish_socket sy al pEntry ipaddr 0 fds of
        (st, pEntry, fds) \<Rightarrow>
          bindr (if st = AM_RET_GOOD then
                   bindr (am_net_identify sk junk n) (\<lambda>(error, thread, n).
                   Inr (error, if thread then pEntry\<lparr>en_pThread := fst (am_thread_create sy (al 1) run)\<rparr> else pEntry, n))
                 else Inr (AM_RET_SOCKET_ERR, pEntry, n)) (\<lambda>(error, pEntry, n).
          if error \<noteq> AM_RET_GOOD then
            bindr (am_net_destroy_socket sy pEntry fds) (\<lambda>(_, pEntry, fds). Inr (error, pEntry, fds, n))
          else Inr (error, pEntry, fds, n)))"

definition am_net_entry_close :: "sys \<Rightarrow> amlib_entry \<Rightarrow> UINT32 set \<Rightarrow> (AM_RETURN \<times> amlib_entry \<times> UINT32 set) res" where
  "am_net_entry_close sy pEntry fds =
     (let error = am_thread_destroy in am_net_destroy_socket sy pEntry fds)"

section \<open>What stays open\<close>

text \<open>An entry made by \<open>am_net_establish_socket\<close>, or one left without a socket by it.\<close>

lemma establish_cases:
  assumes "am_net_establish_socket sy al e ip port fds = (st, e', fds')"
  obtains (no_socket) "sint (sy_socket sy) < 0" "st = AM_RET_SOCKET_ERR" "e' = e\<lparr>en_pTransport := Null\<rparr>" "fds' = fds"
    | (failed) "0 \<le> sint (sy_socket sy)" "st \<noteq> AM_RET_GOOD" "e' = e\<lparr>en_pTransport := Null\<rparr>" "fds' = insert (sy_socket sy) fds"
    | (good) s where "0 \<le> sint (sy_socket sy)" "st = AM_RET_GOOD" "e' = e\<lparr>en_pTransport := Live s\<rparr>" "fds' = insert (sy_socket sy) fds"
        "us_socket_handle s = sy_socket sy"
  using assms by (auto simp: am_net_establish_socket_def Let_def split: if_splits)

end
