(* ===== verification/AM_Entry.thy ===== *)
theory AM_Entry
  imports AM_Sock AM_Types
begin

text \<open>
  \<^verbatim>\<open>appmemlib/appmemlib.c\<close>: from the name of an entry to its functions, and the texts of capabilities.
\<close>

section \<open>Addresses\<close>

text \<open>
  \<open>sscanf\<close> with the format \<open>%d.%d.%d.%d\<close> (locale C): the numbers converted before the first mismatch. A number that
  does not fit an \<^verbatim>\<open>int\<close> has no defined value.
\<close>

definition is_space :: "UINT8 \<Rightarrow> bool" where
  "is_space c \<longleftrightarrow> c = 32 \<or> 9 \<le> c \<and> c \<le> 13"

definition is_digit :: "UINT8 \<Rightarrow> bool" where
  "is_digit c \<longleftrightarrow> 48 \<le> c \<and> c \<le> 57"

definition dec_value :: "bytes \<Rightarrow> int" where
  "dec_value ds = foldl (\<lambda>v c. 10 * v + (uint c - 48)) 0 ds"

definition scan_d :: "bytes \<Rightarrow> (int option \<times> bytes) res" where
  "scan_d s =
     (let s = dropWhile is_space s;
          neg = (s \<noteq> [] \<and> s ! 0 = 45);
          s = (if s \<noteq> [] \<and> (s ! 0 = 45 \<or> s ! 0 = 43) then drop 1 s else s);
          ds = takeWhile is_digit s;
          v = (if neg then - dec_value ds else dec_value ds)
      in if ds = [] then Inr (None, s)
         else if - (2 ^ 31) \<le> v \<and> v < 2 ^ 31 then Inr (Some v, drop (length ds) s)
         else Inl Overflow)"

fun scan_dotted :: "nat \<Rightarrow> bytes \<Rightarrow> int list res" where
  "scan_dotted 0 s = Inr []"
| "scan_dotted (Suc n) s =
     bindr (scan_d s) (\<lambda>(v, s).
     case v of
       None \<Rightarrow> Inr []
     | Some v \<Rightarrow>
         if s \<noteq> [] \<and> s ! 0 = 46 then bindr (scan_dotted n (drop 1 s)) (\<lambda>vs. Inr (v # vs)) else Inr [v])"

text \<open>
  \<open>am_get_ip_address\<close>, of a string without its terminating zero. The four numbers are not initialised: a string of
  at most 7 characters, or one of three dots with fewer numbers, has the code read what it did not write.
\<close>

definition am_get_ip_address :: "bytes \<Rightarrow> UINT32 res" where
  "am_get_ip_address am_name =
     (let len = (of_nat (length am_name) :: UINT32);
          dcnt = (of_nat (count_list (take (unat len) am_name) 46) :: UINT32)
      in
      if 7 < len then
        if dcnt = 3 then
          bindr (scan_dotted 4 am_name) (\<lambda>b.
          if length b = 4 then
            Inr (le_dec [word_of_int (b ! 3), word_of_int (b ! 2), word_of_int (b ! 1), word_of_int (b ! 0)])
          else Inl Uninit)
        else Inr 0
      else Inl Uninit)"

section \<open>Entry points\<close>

text \<open>
  \<open>am_get_entry_point\<close>. A name with an address is one of the network, any other name a file of the kernel module,
  and no name the process itself. \<open>al 0\<close> is the 64 bytes for the name; the later allocations are those of
  \<open>am_net_init_entry\<close>.
\<close>

definition am_get_entry_point ::
  "'w sock \<Rightarrow> sys \<Rightarrow> alloc \<Rightarrow> bool \<Rightarrow> (nat \<Rightarrow> UINT8) \<Rightarrow> bytes option \<Rightarrow> amlib_entry option \<Rightarrow> UINT32 set \<Rightarrow> 'w net \<Rightarrow>
   (AM_RETURN \<times> amlib_entry option \<times> UINT32 set \<times> 'w net) res" where
  "am_get_entry_point sk sy al run junk am_name pEntry fds n =
     (case pEntry of
        None \<Rightarrow> Inr (AM_RET_PARAM_ERR, None, fds, n)
      | Some e \<Rightarrow>
          (case am_name of
             None \<Rightarrow>
               Inr (AM_RET_GOOD, Some (e\<lparr>en_am_name := Some (c_bytes ''virtd''), en_create_function := Some En_virtd_create_function,
                 en_get_capabilities := Some En_virtd_get_capabilities, en_get_cap_count := Some En_virtd_get_capabilites_count,
                 en_close := Some En_virtd_entry_close, en_get_cap_details := Some En_virt_get_cap_details\<rparr>), fds, n)
           | Some name \<Rightarrow>
               bindr (am_get_ip_address name) (\<lambda>ipaddr.
               if ipaddr \<noteq> 0 then
                 if \<not> al 0 then Inl NullDeref
                 else
                   bindr (putb (fresh junk 64) 0 (c_bytes ''appmem'' @ name @ [0])) (\<lambda>buf.
                   bindr (am_net_init_entry sk sy (\<lambda>i. al (1 + i)) run junk
                            (e\<lparr>en_am_name := Some (c_bytes ''appmem'' @ name)\<rparr>) ipaddr fds n) (\<lambda>(error, e, fds, n).
                   if error \<noteq> AM_RET_GOOD then Inr (AM_RET_IO_ERR, Some (e\<lparr>en_am_name := None\<rparr>), fds, n)
                   else
                     Inr (AM_RET_GOOD, Some (e\<lparr>en_get_cap_count := Some En_net_get_capabilites_count,
                       en_get_capabilities := Some En_net_get_capabilities, en_create_function := Some En_net_create_function,
                       en_close := Some En_net_entry_close\<rparr>), fds, n)))
               else
                 Inr (AM_RET_GOOD, Some (e\<lparr>en_am_name := Some name, en_create_function := Some En_kd_create_function,
                   en_get_capabilities := Some En_kd_get_capabilities, en_get_cap_count := Some En_kd_get_capabilities_count,
                   en_close := Some En_kd_entry_close, en_get_cap_details := Some En_kd_get_cap_details\<rparr>), fds, n))))"

section \<open>Texts of capabilities\<close>

definition fmt_08x :: "UINT32 \<Rightarrow> string" where
  "fmt_08x w = (let s = hex_digits (unat w) in replicate (8 - length s) (CHR ''0'') @ s)"

definition fmt_016llx :: "UINT64 \<Rightarrow> string" where
  "fmt_016llx w = (let s = hex_digits (unat w) in replicate (16 - length s) (CHR ''0'') @ s)"

text \<open>The conversion \<open>%s\<close> of a \<^verbatim>\<open>char\<close> array: what stands before its terminating zero, which it must have.\<close>

definition fmt_s :: "bytes \<Rightarrow> bytes res" where
  "fmt_s b = (if 0 \<in> set b then Inr (takeWhile (\<lambda>x. x \<noteq> 0) b) else Inl OutOfBounds)"

text \<open>
  \<open>snprintf\<close> of the C library (\<^verbatim>\<open>AM_SNPRINTF\<close> of the Linux build): at most \<open>n\<close> bytes with the terminating zero, and the answer is
  the length of the whole text.
\<close>

definition snprintf :: "bytes \<Rightarrow> nat \<Rightarrow> UINT32 \<Rightarrow> bytes \<Rightarrow> (UINT32 \<times> bytes) res" where
  "snprintf blk off n s =
     (if n = 0 then Inr (of_nat (length s), blk)
      else bindr (putb blk off (take (unat n - 1) s @ [0])) (\<lambda>blk. Inr (of_nat (length s), blk)))"

text \<open>
  One statement after the other, each of the form \<open>sb = snprintf (buf, buf_size, ..)\<close>, with \<open>buf_size -= sb\<close> and
  \<open>buf += sb\<close> behind it unless \<open>sb\<close> is -1, which ends the function early. The last answer says whether all were done.
\<close>

fun sn_lines :: "bytes res list \<Rightarrow> bytes \<Rightarrow> nat \<Rightarrow> UINT32 \<Rightarrow> (bytes \<times> UINT32 \<times> bool) res" where
  "sn_lines [] blk buf buf_size = Inr (blk, buf_size, True)"
| "sn_lines (l # ls) blk buf buf_size =
     bindr l (\<lambda>s.
     bindr (snprintf blk buf buf_size s) (\<lambda>(sb, blk).
     if sb = - 1 then Inr (blk, buf_size, False)
     else sn_lines ls blk (buf + unat sb) (buf_size - sb)))"

text \<open>The end of both functions: the last byte of the buffer is cleared if not everything was written.\<close>

definition sn_end :: "UINT32 \<Rightarrow> bytes \<times> UINT32 \<times> bool \<Rightarrow> (UINT32 \<times> bytes) res" where
  "sn_end bytes_written r =
     (case r of (blk, buf_size, complete) \<Rightarrow>
        if complete then Inr (bytes_written - buf_size, blk)
        else bindr (wr8 blk (unat (bytes_written - 1)) 0) (\<lambda>blk. Inr (bytes_written, blk)))"

definition AmCapTypeStr :: "string list" where
  "AmCapTypeStr = [''Appmem Base Capabilites'', ''Flat Memory'', ''Static Array'', ''Associative Array'', ''Linked List'']"

definition cap_lines :: "mem_cap \<Rightarrow> bytes res list" where
  "cap_lines c =
     [if unat (cap_amType c) < length AmCapTypeStr
      then Inr (c_bytes (''MEMORY TYPE = 0x'' @ fmt_08x (cap_amType c) @ '' : '' @ AmCapTypeStr ! unat (cap_amType c)) @ [10])
      else Inl OutOfBounds,
      Inr (c_bytes (''MAX_SIZE    = 0x'' @ fmt_016llx (cap_maxSize c) @ '' : '' @ fmt_d (ucast (cap_maxSize c div (1024 * 1024))) @ '' MB'') @ [10]),
      Inr (c_bytes (''SUB_TYPES = = 0x'' @ fmt_08x (cap_subType c)) @ [10])]"

text \<open>
  Without a capability, a buffer or a size the last byte is cleared all the same, through the pointer that may be null and the index that
  may be -1.
\<close>

definition am_sprintf_capability :: "mem_cap option \<Rightarrow> buf \<Rightarrow> UINT32 \<Rightarrow> (UINT32 \<times> bytes) res" where
  "am_sprintf_capability pAmCap buf buf_size =
     bindr (the_buf buf) (\<lambda>blk.
     case pAmCap of
       Some c \<Rightarrow> bindr (if buf_size \<noteq> 0 then sn_lines (cap_lines c) blk 0 buf_size else Inr (blk, buf_size, False)) (sn_end buf_size)
     | None \<Rightarrow> sn_end buf_size (blk, buf_size, False))"

definition details_lines :: "cap_details \<Rightarrow> bytes res list" where
  "details_lines d =
     [bindr (fmt_s (cd_amTypeSz d)) (\<lambda>s. Inr (c_bytes (''amType  = 0x'' @ fmt_08x (cd_amType d) @ '' : '') @ s @ [10])),
      bindr (fmt_s (cd_subTypeSz d)) (\<lambda>s. Inr (c_bytes (''subType = 0x'' @ fmt_08x (cd_subType d) @ '' : '') @ s @ [10])),
      Inr (c_bytes (''typeSpecificCount = 0x'' @ fmt_08x (cd_typeSpecificCount d) @ '' '') @ [10])] @
     map (\<lambda>i. if i < length (cd_typeSpecificSz d)
              then bindr (fmt_s (cd_typeSpecificSz d ! i)) (\<lambda>s. Inr (c_bytes (''TS#'' @ fmt_d (of_nat i) @ '' = '') @ s @ [10]))
              else Inl OutOfBounds) [0..<unat (cd_typeSpecificCount d)]"

text \<open>Here the end is skipped with the rest when a parameter is missing.\<close>

definition am_sprintf_cap_details :: "cap_details option \<Rightarrow> buf \<Rightarrow> UINT32 \<Rightarrow> (UINT32 \<times> buf) res" where
  "am_sprintf_cap_details pCapDetails buf buf_size =
     (case (pCapDetails, buf) of
        (Some d, Some blk) \<Rightarrow>
          if buf_size \<noteq> 0 then
            bindr (bindr (sn_lines (details_lines d) blk 0 buf_size) (sn_end buf_size)) (\<lambda>(n, blk). Inr (n, Some blk))
          else Inr (buf_size, buf)
      | _ \<Rightarrow> Inr (buf_size, buf))"

end
