(* ===== verification/AM_Entry_Props.thy ===== *)
theory AM_Entry_Props
  imports AM_Entry AM_Remote AM_Pack_Props
begin

text \<open>
  What the entries of the library keep to: addresses are read back as they are written, the connection to a target is made and closed, and
  the texts of capabilities stay in their buffer exactly when they fit.
\<close>

section \<open>Addresses in dotted form\<close>

definition dotted :: "UINT8 \<Rightarrow> UINT8 \<Rightarrow> UINT8 \<Rightarrow> UINT8 \<Rightarrow> bytes" where
  "dotted a b c d = c_bytes (dec_digits (unat a)) @ 46 # c_bytes (dec_digits (unat b)) @ 46 #
     c_bytes (dec_digits (unat c)) @ 46 # c_bytes (dec_digits (unat d))"

definition ip_of :: "UINT8 \<Rightarrow> UINT8 \<Rightarrow> UINT8 \<Rightarrow> UINT8 \<Rightarrow> UINT32" where
  "ip_of a b c d = push_bit 24 (ucast a) OR push_bit 16 (ucast b) OR push_bit 8 (ucast c) OR ucast d"

lemma of_char_digit:
  assumes "d < 10"
  shows "(of_char (hex_digit d) :: UINT8) = of_nat (48 + d)"
proof -
  have "(of_char (hex_digit d) :: UINT8) = of_nat (of_char (hex_digit d))" by (simp only: of_nat_of_char)
  then show ?thesis using assms by (simp add: hex_digit_def)
qed

lemma digit_byte:
  assumes "d < 10"
  shows "is_digit (of_nat (48 + d) :: UINT8)" "uint (of_nat (48 + d) :: UINT8) = 48 + int d"
proof -
  have u: "uint (of_nat (48 + d) :: UINT8) = 48 + int d"
    using assms by (simp add: unsigned_of_nat take_bit_nat_eq_self uint_nat del: of_nat_add)
  then show "uint (of_nat (48 + d) :: UINT8) = 48 + int d" .
  then show "is_digit (of_nat (48 + d) :: UINT8)" using assms by (simp add: is_digit_def word_le_def)
qed

lemma dec_digits_bytes:
  "dec_value (c_bytes (dec_digits n)) = int n \<and> (\<forall>c\<in>set (c_bytes (dec_digits n)). is_digit c) \<and> dec_digits n \<noteq> []"
proof (induction n rule: dec_digits.induct)
  case (1 n)
  show ?case
  proof (cases "n < 10")
    case True
    then show ?thesis using digit_byte [OF True] of_char_digit [OF True]
      by (subst (1 2 3) dec_digits.simps) (simp add: c_bytes_def dec_value_def)
  next
    case False
    have m: "n mod 10 < 10" by simp
    note ih = 1 [OF False]
    have "dec_value (c_bytes (dec_digits n)) = 10 * dec_value (c_bytes (dec_digits (n div 10))) + int (n mod 10)"
      using False digit_byte(2) [OF m] of_char_digit [OF m] by (subst dec_digits.simps) (simp add: c_bytes_def dec_value_def)
    moreover have "\<forall>c\<in>set (c_bytes (dec_digits n)). is_digit c"
      using False ih digit_byte(1) [OF m] of_char_digit [OF m] by (subst dec_digits.simps) (auto simp: c_bytes_def)
    moreover have "dec_digits n \<noteq> []" using False by (subst dec_digits.simps) simp
    moreover have "10 * int (n div 10) + int (n mod 10) = int n"
      by (metis mult_div_mod_eq of_nat_add of_nat_mult of_nat_numeral)
    ultimately show ?thesis using ih by simp
  qed
qed

lemma digit_not: "is_digit c \<Longrightarrow> \<not> is_space c \<and> c \<noteq> 45 \<and> c \<noteq> 43 \<and> c \<noteq> 46"
  by (auto simp: is_digit_def is_space_def word_le_def)

lemma scan_dec:
  assumes "n < 2 ^ 31" "r = [] \<or> \<not> is_digit (r ! 0)"
  shows "scan_d (c_bytes (dec_digits n) @ r) = Inr (Some (int n), r)"
proof -
  let ?d = "c_bytes (dec_digits n)"
  have d: "dec_value ?d = int n" "\<forall>c\<in>set ?d. is_digit c" "?d \<noteq> []"
    using dec_digits_bytes [of n] by (auto simp: c_bytes_def)
  then obtain x xs where x: "?d = x # xs" "is_digit x" by (cases ?d) auto
  have ws: "dropWhile is_space (?d @ r) = ?d @ r" using x digit_not [OF x(2)] by simp
  have tw: "takeWhile is_digit (?d @ r) = ?d" using assms(2) d(2) by (cases r) (auto simp: takeWhile_append)
  have sg: "(?d @ r) ! 0 \<noteq> 45" "(?d @ r) ! 0 \<noteq> 43" using x digit_not [OF x(2)] by simp_all
  show ?thesis unfolding scan_d_def Let_def ws using sg tw d assms(1) by simp
qed

lemma no_dots: "count_list (c_bytes (dec_digits n)) 46 = 0"
  using dec_digits_bytes [of n] digit_not by (auto simp: count_list_0_iff)

lemma byte_bound: "unat (x :: UINT8) < 256"
proof -
  have "unat x < 2 ^ LENGTH(8)" by (rule unsigned_less)
  then show ?thesis by simp
qed

lemma dec_digits_byte_length: "length (dec_digits (unat (a :: UINT8))) \<le> 3"
  by (rule length_dec_digits) (use byte_bound [of a] in simp_all)

lemma ip_bytes: "ucast d OR push_bit 8 (ucast c) OR push_bit 16 (ucast b) OR push_bit 24 (ucast a) = ip_of a b c d"
  by (simp add: ip_of_def ac_simps)

lemma dotted_length: "length (dotted a b c d) \<le> 15"
  using dec_digits_byte_length [of a] dec_digits_byte_length [of b] dec_digits_byte_length [of c] dec_digits_byte_length [of d]
  by (simp add: dotted_def)

lemma get_ip_address:
  assumes "7 < length (dotted a b c d)"
  shows "am_get_ip_address (dotted a b c d) = Inr (ip_of a b c d)"
proof -
  let ?n = "dotted a b c d"
  have u: "unat (of_nat (length ?n) :: UINT32) = length ?n"
    using dotted_length [of a b c d] by (simp add: unsigned_of_nat take_bit_nat_eq_self)
  then have lt: "(7 :: UINT32) < of_nat (length ?n)" using assms by (simp add: word_less_nat_alt)
  have dots: "count_list ?n 46 = 3" by (simp add: dotted_def no_dots)
  have small: "unat x < 2 ^ 31" for x :: UINT8 using byte_bound [of x] by simp
  have "scan_dotted (Suc (Suc (Suc (Suc 0)))) ?n = Inr [uint a, uint b, uint c, uint d]"
    using scan_dec [OF small] scan_dec [OF small, of "[]"] by (simp add: dotted_def is_digit_def word_le_def)
  then have "scan_dotted 4 ?n = Inr [uint a, uint b, uint c, uint d]" by (simp add: numeral_eq_Suc)
  then show ?thesis using dots u lt by (simp add: am_get_ip_address_def Let_def ip_bytes)
qed

text \<open>
  C35: The address of a dotted name is read back as it was printed, the first number in the highest byte, whatever the four bytes are, if the name
  has more than 7 characters. The shortest names, four digits and three dots, are not: for them the code uses four integers it never
  wrote.
\<close>

theorem am_get_ip_address_dotted:
  "am_get_ip_address (dotted a b c d) = (if 7 < length (dotted a b c d) then Inr (ip_of a b c d) else Inl Uninit)"
proof (cases "7 < length (dotted a b c d)")
  case True
  then show ?thesis using get_ip_address by simp
next
  case False
  then have "\<not> (7 :: UINT32) < of_nat (length (dotted a b c d))"
    by (simp add: word_less_nat_alt unsigned_of_nat take_bit_nat_eq_self)
  then show ?thesis using False by (simp add: am_get_ip_address_def Let_def)
qed

section \<open>Texts in a buffer\<close>

abbreviation text_len :: "bytes list \<Rightarrow> nat" where
  "text_len ss \<equiv> sum_list (map length ss)"

lemma snprintf_fits:
  assumes "off + unat r = length blk" "length s < unat r"
  shows "snprintf blk off r s = Inr (of_nat (length s), take off blk @ s @ 0 # drop (off + length s + 1) blk)"
proof -
  have "take (unat r - 1) s = s" using assms(2) by simp
  moreover have "r \<noteq> 0" using assms(2) by auto
  ultimately show ?thesis using assms by (simp add: snprintf_def putb_in_bounds)
qed

lemma snprintf_cut:
  assumes "off + unat r = length blk"
  shows "\<exists>blk'. snprintf blk off r s = Inr (of_nat (length s), blk') \<and> length blk' = length blk"
proof (cases "r = 0")
  case False
  then have "0 < unat r" by (simp add: unat_gt_0)
  then have "off + length (take (unat r - 1) s @ [0]) \<le> length blk" using assms by simp
  then show ?thesis using False by (simp add: snprintf_def putb_in_bounds)
qed (simp add: snprintf_def)

lemma snprintf_past: "length blk < off \<Longrightarrow> r \<noteq> 0 \<Longrightarrow> snprintf blk off r s = Inl OutOfBounds"
  by (simp add: snprintf_def putb_out_of_bounds)

lemma unat_diff_small:
  assumes "m \<le> unat (r :: UINT32)"
  shows "unat (r - of_nat m) = unat r - m"
proof -
  have u: "unat (of_nat m :: UINT32) = m" by (rule le_unat_uoi [OF assms])
  then have "of_nat m \<le> r" using assms by (simp add: word_le_nat_alt)
  from unat_sub [OF this] show ?thesis unfolding u .
qed

lemma of_nat_not_max: "m < 2 ^ 31 \<Longrightarrow> (of_nat m :: UINT32) \<noteq> - 1"
proof
  assume m: "m < 2 ^ 31" and "(of_nat m :: UINT32) = - 1"
  then have "unat (of_nat m :: UINT32) = unat (- 1 :: UINT32)" by simp
  then show False using m by (simp add: unsigned_of_nat take_bit_nat_eq_self unsigned_minus_1_eq_mask mask_eq_exp_minus_1)
qed

lemma sn_lines_write:
  assumes "off + unat r = length blk" "text_len ss < unat r" "text_len ss < 2 ^ 31" "ss \<noteq> []"
  shows "sn_lines (map Inr ss) blk off r =
    Inr (take off blk @ concat ss @ 0 # drop (off + text_len ss + 1) blk, r - of_nat (text_len ss), True)"
  using assms
proof (induction ss arbitrary: blk off r)
  case (Cons s ss)
  have s: "length s < unat r" "length s < 2 ^ 31" using Cons.prems by simp_all
  let ?b = "take off blk @ s @ 0 # drop (off + length s + 1) blk"
  have u: "unat (of_nat (length s) :: UINT32) = length s" using s(2) by (simp add: unsigned_of_nat take_bit_nat_eq_self)
  note step = snprintf_fits [OF Cons.prems(1) s(1)] of_nat_not_max [OF s(2)] u
  show ?case
  proof (cases "ss = []")
    case True
    then show ?thesis using step by simp
  next
    case False
    have r: "unat (r - of_nat (length s)) = unat r - length s" using unat_diff_small s(1) by simp
    have "off + length s + unat (r - of_nat (length s)) = length ?b" using Cons.prems(1) s(1) r by simp
    from Cons.IH [OF this] Cons.prems False r have "sn_lines (map Inr ss) ?b (off + length s) (r - of_nat (length s)) =
        Inr (take (off + length s) ?b @ concat ss @ 0 # drop (off + length s + text_len ss + 1) ?b, r - of_nat (length s) - of_nat (text_len ss), True)"
      by simp
    moreover have "take (off + length s) ?b = take off blk @ s" using Cons.prems(1) by simp
    moreover have "drop (off + length s + text_len ss + 1) ?b = drop (off + length s + text_len ss + 1) blk"
      using Cons.prems(1) False by (simp add: add.commute add.left_commute)
    ultimately show ?thesis using step by (simp add: algebra_simps)
  qed
qed simp

lemma sn_lines_bound:
  assumes "off + unat r = length blk" "text_len ss < 2 ^ 31" "ss \<noteq> []" "\<forall>s\<in>set ss. s \<noteq> []"
  shows "\<exists>blk'. sn_lines (map Inr ss) blk off r =
      (if text_len (butlast ss) \<le> unat r then Inr (blk', r - of_nat (text_len ss), True) else Inl OutOfBounds) \<and> length blk' = length blk"
  using assms
proof (induction ss arbitrary: blk off r)
  case (Cons s ss)
  have s: "length s < 2 ^ 31" using Cons.prems by simp
  have u: "unat (of_nat (length s) :: UINT32) = length s" using s by (simp add: unsigned_of_nat take_bit_nat_eq_self)
  obtain b where b: "snprintf blk off r s = Inr (of_nat (length s), b)" "length b = length blk"
    using snprintf_cut [OF Cons.prems(1)] by blast
  note step = b(1) of_nat_not_max [OF s] u
  show ?case
  proof (cases ss)
    case Nil
    then show ?thesis using step b(2) by auto
  next
    case ss: (Cons s' ss')
    show ?thesis
    proof (cases "length s \<le> unat r")
      case True
      then have r: "unat (r - of_nat (length s)) = unat r - length s" by (rule unat_diff_small)
      then have "off + length s + unat (r - of_nat (length s)) = length b" using Cons.prems(1) True b(2) by simp
      from Cons.IH [OF this] Cons.prems ss obtain blk' where "sn_lines (map Inr ss) b (off + length s) (r - of_nat (length s)) =
          (if text_len (butlast ss) \<le> unat (r - of_nat (length s)) then Inr (blk', r - of_nat (length s) - of_nat (text_len ss), True)
           else Inl OutOfBounds)" "length blk' = length b" by auto
      then show ?thesis using step b(2) ss True r by (intro exI [of _ blk']) (auto simp: algebra_simps)
    next
      case False
      have "r - of_nat (length s) \<noteq> 0"
      proof
        assume "r - of_nat (length s) = 0"
        then have "r = of_nat (length s)" by simp
        then show False using False u by simp
      qed
      then have "snprintf b (off + length s) (r - of_nat (length s)) s' = Inl OutOfBounds"
        using Cons.prems(1) False b(2) by (intro snprintf_past) simp_all
      then show ?thesis using step b(2) ss False by (intro exI [of _ blk]) simp
    qed
  qed
qed simp

definition cap_texts :: "mem_cap \<Rightarrow> bytes list" where
  "cap_texts c = map projr (cap_lines c)"

lemma length_fmt_08x [simp]: "length (fmt_08x w) = 8"
proof -
  have "unat w < 2 ^ LENGTH(32)" by (rule unsigned_less)
  then have "length (hex_digits (unat w)) \<le> 8" by (intro length_hex_digits) simp_all
  then show ?thesis by (simp add: fmt_08x_def Let_def)
qed

lemma length_fmt_016llx [simp]: "length (fmt_016llx w) = 16"
proof -
  have "unat w < 2 ^ LENGTH(64)" by (rule unsigned_less)
  then have "length (hex_digits (unat w)) \<le> 16" by (intro length_hex_digits) simp_all
  then show ?thesis by (simp add: fmt_016llx_def Let_def)
qed

lemma cap_texts_ok:
  assumes "unat (cap_amType c) < 5"
  shows "cap_lines c = map Inr (cap_texts c)" "\<forall>s\<in>set (cap_texts c). s \<noteq> []" "cap_texts c \<noteq> []" "text_len (cap_texts c) < 2 ^ 31"
    "text_len (butlast (cap_texts c)) = length (AmCapTypeStr ! unat (cap_amType c)) + length (fmt_d (ucast (cap_maxSize c div (1024 * 1024)))) + 67"
proof -
  have n: "length AmCapTypeStr = 5" by (simp add: AmCapTypeStr_def)
  have "\<forall>s\<in>set AmCapTypeStr. length s \<le> 23" by (simp add: AmCapTypeStr_def)
  then have l: "length (AmCapTypeStr ! unat (cap_amType c)) \<le> 23" using assms n nth_mem by metis
  show "cap_lines c = map Inr (cap_texts c)" "\<forall>s\<in>set (cap_texts c). s \<noteq> []" "cap_texts c \<noteq> []"
    using assms n by (simp_all add: cap_texts_def cap_lines_def)
  show b: "text_len (butlast (cap_texts c)) = length (AmCapTypeStr ! unat (cap_amType c)) + length (fmt_d (ucast (cap_maxSize c div (1024 * 1024)))) + 67"
    using assms n by (simp add: cap_texts_def cap_lines_def)
  show "text_len (cap_texts c) < 2 ^ 31"
    using l assms n length_fmt_d [of "ucast (cap_maxSize c div (1024 * 1024))"] by (simp add: cap_texts_def cap_lines_def)
qed

text \<open>
  C36: The text of a capability in a buffer of exactly \<open>n\<close> bytes. It is written correctly if it fits. If only its last line does not, that
  is cut, and the length answered is the one it would have had. If the first two lines together are longer than the buffer, the
  function writes behind it: \<open>snprintf\<close> never answers -1 there, so the space left wraps around to a number near \<open>2 ^ 32\<close> and the
  pointer runs past the end.
\<close>

theorem am_sprintf_capability_bounds:
  assumes "unat (cap_amType c) < 5" "length blk = unat n" "n \<noteq> 0"
  shows "\<exists>blk'. am_sprintf_capability (Some c) (Some blk) n =
      (if text_len (butlast (cap_texts c)) \<le> unat n then Inr (of_nat (text_len (cap_texts c)), blk') else Inl OutOfBounds) \<and>
    length blk' = length blk \<and> (text_len (cap_texts c) < unat n \<longrightarrow> take (text_len (cap_texts c) + 1) blk' = concat (cap_texts c) @ [0])"
proof -
  note t = cap_texts_ok [OF assms(1)]
  have sz: "0 + unat n = length blk" using assms(2) by simp
  have am: "am_sprintf_capability (Some c) (Some blk) n = bindr (sn_lines (map Inr (cap_texts c)) blk 0 n) (sn_end n)"
    using assms(3) t(1) by (simp add: am_sprintf_capability_def)
  show ?thesis
  proof (cases "text_len (cap_texts c) < unat n")
    case True
    have "text_len (butlast (cap_texts c)) \<le> unat n"
      using True append_butlast_last_id [OF t(3)] by (metis add_leD1 less_imp_le map_append sum_list_append)
    moreover have "text_len (cap_texts c) = length (concat (cap_texts c))" by (simp add: length_concat)
    ultimately show ?thesis using sn_lines_write [OF sz True t(4,3)] True assms(2) am
      by (intro exI [of _ "concat (cap_texts c) @ 0 # drop (text_len (cap_texts c) + 1) blk"]) (simp add: sn_end_def)
  next
    case False
    then show ?thesis using sn_lines_bound [OF sz t(4,3,2)] am by (auto simp: sn_end_def)
  qed
qed

lemma am_sprintf_capability_bounds_witness:
  "\<exists>blk. am_sprintf_capability (Some (mk_cap 1 16 1 1 1 [])) (Some (replicate 64 0)) 64 = Inl OutOfBounds \<and>
    am_sprintf_capability (Some (mk_cap 1 16 1 1 1 [])) (Some (replicate 128 0)) 128 = Inr (of_nat (text_len (cap_texts (mk_cap 1 16 1 1 1 []))), blk) \<and>
    take (text_len (cap_texts (mk_cap 1 16 1 1 1 [])) + 1) blk = concat (cap_texts (mk_cap 1 16 1 1 1 [])) @ [0]"
proof -
  let ?c = "mk_cap 1 16 1 1 1 []"
  have ty: "unat (cap_amType ?c) < 5" by (simp add: mk_cap_def)
  have fd: "length (fmt_d (ucast (cap_maxSize ?c div (1024 * 1024)))) = 1" by (simp add: mk_cap_def fmt_d_def dec_digits.simps)
  have b: "text_len (butlast (cap_texts ?c)) = 79" using cap_texts_ok(5) [OF ty] fd by (simp add: AmCapTypeStr_def mk_cap_def)
  have t: "text_len (cap_texts ?c) = 104" using fd by (simp add: cap_texts_def cap_lines_def AmCapTypeStr_def mk_cap_def)
  have "am_sprintf_capability (Some ?c) (Some (replicate 64 0)) 64 = Inl OutOfBounds"
    using am_sprintf_capability_bounds [of ?c "replicate 64 0" 64] ty b by simp
  moreover obtain blk where "am_sprintf_capability (Some ?c) (Some (replicate 128 0)) 128 = Inr (of_nat (text_len (cap_texts ?c)), blk)"
    "take (text_len (cap_texts ?c) + 1) blk = concat (cap_texts ?c) @ [0]"
    using am_sprintf_capability_bounds [of ?c "replicate 128 0" 128] ty b t by auto
  ultimately show ?thesis by blast
qed

section \<open>Connecting\<close>

text \<open>A target that serves identify requests on its base function.\<close>

definition identifies :: "targ \<Rightarrow> bool" where
  "identifies g \<longleftrightarrow> (\<exists>f. has_op g 0 f (ucast AM_OP_IDENTIFY) (Some Fn_targ_identify_resp))"

lemma net_identify_ok:
  assumes n: "net_ready n" "idle (net_w n)" and g: "identifies (ta_g (net_w n))"
  shows "\<exists>n'. am_net_identify (loop_sock cl al junk) stack n = Inr (AM_RET_GOOD, True, n') \<and>
    net_ready n' \<and> idle (net_w n') \<and> ta_g (net_w n') = ta_g (net_w n)"
proof -
  let ?t = "net_w n"
  define w where "w = \<lparr>w_func_id = 0xFFFA, w_packType = 1, w_op = 1, w_appTag = 7777, w_size = 8\<rparr>"
  obtain f where f: "has_op (ta_g ?t) 0 f (w_op w) (Some Fn_targ_identify_resp)" using g by (auto simp: identifies_def w_def)
  obtain w0 where w0: "fresh stack 8 = enc_wrapper w0 @ []" using wrapper_cases [of "fresh stack 8"] by (auto simp: fresh_def)
  have d: "set_wrap (fresh stack 8) 0xFFFA (ucast AM_PACK_TYPE_OPCODE_ONLY) 8 (ucast AM_OP_IDENTIFY) =
      Inr (enc_wrapper (w\<lparr>w_appTag := w_appTag w0\<rparr>) @ [])" "wr16 (enc_wrapper (w\<lparr>w_appTag := w_appTag w0\<rparr>) @ []) off_appTag 7777 = Inr (enc_wrapper w @ [])"
    unfolding w0 by (simp_all only: wrap_simps) (simp_all add: w_def)
  note len = next_length [OF n(2)]
  have "am_validate_function_id (ta_g ?t) 0xFFFA = Inr (Some 0)" using f
    by (auto simp: am_validate_function_id_def has_op_def tbl_slot_def tbl_get_def res_simps split: if_splits)
  moreover have "rd16 (enc_wrapper w) off_func_id = Inr 0xFFFA" using enc_wrapper_rd(1) [of w "[]"] by (simp add: w_def)
  moreover have "am_pack_process_cmd al junk (ta_g ?t) (Some 0) (enc_wrapper w @ drop 8 (next_rx ?t)) (next_tx ?t) =
      Inr (AM_RET_GOOD, ta_g ?t, enc_wrapper w @ drop 8 (next_rx ?t),
        enc_wrapper (resp_wrap w 16) @ le_enc 4 (0xBBBB :: UINT32) @ enc_version AM_VERSION @ drop 16 (next_tx ?t), 16)"
    by (rule am_pack_identify [OF f]) (simp_all add: w_def len)
  ultimately obtain t' where t': "loop_sock cl al junk ?t (enc_wrapper w) = (8,
      [Some (enc_wrapper (resp_wrap w 16) @ le_enc 4 (0xBBBB :: UINT32) @ enc_version AM_VERSION)], t')" "idle t'" "ta_g t' = ta_g ?t"
    using serve_once [OF n(2), of "enc_wrapper w" cl "0xFFFA" "Some 0" al junk] len
    by (auto simp: dgram_ok_def enc_version_def)
  define ans where "ans = le_enc 4 (0xBBBB :: UINT32) @ enc_version AM_VERSION"
  define n1 where "n1 = n\<lparr>net_w := t', net_inbox := [Some (enc_wrapper (resp_wrap w 16) @ ans)]\<rparr>"
  have send: "am_int_send_msg (loop_sock cl al junk) n (enc_wrapper w @ []) 8 = Inr (AM_RET_GOOD, n1)"
    using t'(1) n(1) by (simp add: am_int_send_msg_def getb_def Let_def net_ready_def n1_def ans_def)
  have la: "length ans = 8" by (simp add: ans_def enc_version_def)
  have rsp: "putb (fresh stack 512) 0 (take 512 (enc_wrapper (resp_wrap w 16) @ ans)) = Inr (enc_wrapper (resp_wrap w 16) @ ans @ drop 16 (fresh stack 512))"
    using la by (simp add: putb_in_bounds)
  have "w_packType (resp_wrap w 16) AND AM_FUNC_PACK_TYPE_FLAG_ERR = 0" by (simp add: resp_wrap_def w_def)
  then have "am_net_identify (loop_sock cl al junk) stack n = Inr (AM_RET_GOOD, True, n1\<lparr>net_inbox := []\<rparr>)"
    using d send rsp by (simp add: am_net_identify_def wrap_simps) (simp add: n1_def wrap_simps)
  then show ?thesis using n(1) t'(2,3) by (intro exI [of _ "n1\<lparr>net_inbox := []\<rparr>"]) (simp add: n1_def net_ready_def)
qed

text \<open>System calls that all succeed.\<close>

definition sys_ok :: "sys \<Rightarrow> bool" where
  "sys_ok sy \<longleftrightarrow> 0 \<le> sint (sy_socket sy) \<and> sy_setsockopt sy = 0 \<and> 0 \<le> sint (sy_bind sy) \<and> sy_close sy = 0"

lemma name_buf: "length name \<le> 57 \<Longrightarrow> \<exists>b. putb (fresh junk 64) 0 (c_bytes ''appmem'' @ name @ [0]) = Inr b"
  by (simp add: putb_in_bounds)

lemma establish_ok:
  assumes "sys_ok sy" "al 0"
  shows "\<exists>s. am_net_establish_socket sy al e ip 0 fds = (AM_RET_GOOD, e\<lparr>en_pTransport := Live s\<rparr>, insert (sy_socket sy) fds) \<and>
    us_socket_handle s = sy_socket sy \<and> (ip \<noteq> 0 \<longrightarrow> us_remote_addr s = \<lparr>sin_family = 2, sin_port = htons 4950, sin_addr = htonl ip\<rparr>)"
  using assms
  by (intro exI [of _ "\<lparr>us_socket_handle = sy_socket sy,
      us_local_addr = \<lparr>sin_family = 2, sin_port = htons 1117, sin_addr = 0\<rparr>,
      us_remote_addr = (if ip \<noteq> 0 then \<lparr>sin_family = 2, sin_port = htons 4950, sin_addr = htonl ip\<rparr> else zero_addr),
      us_rcv_timeout = 10, us_send_timeout = 10\<rparr>"])
    (simp add: am_net_establish_socket_def sys_ok_def Let_def not_less)

lemma entry_connects:
  assumes n: "net_ready n" "idle (net_w n)" "identifies (ta_g (net_w n))"
    and name: "7 < length (dotted a b c d)" "ip_of a b c d \<noteq> 0" and sys: "sys_ok sy" "\<And>k. al' k"
  shows "\<exists>e s n'. am_get_entry_point (loop_sock cl al junk) sy al' run stack (Some (dotted a b c d)) (Some ent) fds n =
      Inr (AM_RET_GOOD, Some e, insert (sy_socket sy) fds, n') \<and>
    en_create_function e = Some En_net_create_function \<and> en_close e = Some En_net_entry_close \<and>
    en_pTransport e = Live s \<and> us_socket_handle s = sy_socket sy \<and> sin_addr (us_remote_addr s) = htonl (ip_of a b c d) \<and>
    net_ready n' \<and> idle (net_w n') \<and> ta_g (net_w n') = ta_g (net_w n)"
proof -
  obtain n' where n': "am_net_identify (loop_sock cl al junk) stack n = Inr (AM_RET_GOOD, True, n')"
    "net_ready n'" "idle (net_w n')" "ta_g (net_w n') = ta_g (net_w n)"
    using net_identify_ok [OF n] by blast
  obtain s where s: "am_net_establish_socket sy (\<lambda>i. al' (1 + i)) (ent\<lparr>en_am_name := Some (c_bytes ''appmem'' @ dotted a b c d)\<rparr>) (ip_of a b c d) 0 fds =
      (AM_RET_GOOD, ent\<lparr>en_am_name := Some (c_bytes ''appmem'' @ dotted a b c d), en_pTransport := Live s\<rparr>, insert (sy_socket sy) fds)"
    "us_socket_handle s = sy_socket sy" "sin_addr (us_remote_addr s) = htonl (ip_of a b c d)"
    using establish_ok [OF sys(1), of "\<lambda>i. al' (1 + i)"] sys(2) name(2) by fastforce
  obtain buf where "putb (fresh stack 64) 0 (c_bytes ''appmem'' @ dotted a b c d @ [0]) = Inr buf"
    using name_buf [of "dotted a b c d"] dotted_length [of a b c d] by fastforce
  then show ?thesis
    using n' s sys(2) name(2) get_ip_address [OF name(1)]
    by (simp add: am_get_entry_point_def am_net_init_entry_def)
qed

lemma entry_closes:
  assumes "sys_ok sy" "en_pTransport e = Live s" "us_socket_handle s = sy_socket sy"
  shows "am_net_entry_close sy e (insert (sy_socket sy) fds) = Inr (AM_RET_GOOD, e\<lparr>en_pTransport := Dangling\<rparr>, fds - {sy_socket sy})"
  using assms by (simp add: am_net_entry_close_def am_net_destroy_socket_def sys_ok_def Let_def)

text \<open>
  C38: An entry whose socket was made but could not be set up, for lack of memory, for its options or for its address. The status is
  \<open>AM_RET_IO_ERR\<close>, and the descriptor stays open for good: the entry has no transport, so that neither the clean-up of \<open>am_net_init_entry\<close> nor
  a later close of the entry finds it.
\<close>

theorem am_get_entry_point_leaks:
  assumes "7 < length (dotted a b c d)" "ip_of a b c d \<noteq> 0" "al 0" "0 \<le> sint (sy_socket sy)"
    and "\<not> al 1 \<or> sy_setsockopt sy \<noteq> 0 \<or> sint (sy_bind sy) < 0"
  shows "\<exists>e. am_get_entry_point sk sy al run stack (Some (dotted a b c d)) (Some ent) fds n =
      Inr (AM_RET_IO_ERR, Some e, insert (sy_socket sy) fds, n) \<and> en_am_name e = None \<and> en_pTransport e = Null \<and>
    am_net_entry_close sy e (insert (sy_socket sy) fds) = Inr (AM_RET_GOOD, e, insert (sy_socket sy) fds)"
proof -
  let ?e = "ent\<lparr>en_am_name := Some (c_bytes ''appmem'' @ dotted a b c d)\<rparr>"
  define st :: AM_RETURN where "st = (if al (Suc 0) then AM_RET_SOCKET_ERR else AM_RET_ALLOC_ERR)"
  have st: "am_net_establish_socket sy (\<lambda>i. al (1 + i)) ?e (ip_of a b c d) 0 fds =
      (st, ?e\<lparr>en_pTransport := Null\<rparr>, insert (sy_socket sy) fds)"
    using assms(4,5) by (auto simp: am_net_establish_socket_def Let_def st_def)
  have "st \<noteq> AM_RET_GOOD" by (simp add: st_def)
  obtain buf where "putb (fresh stack 64) 0 (c_bytes ''appmem'' @ dotted a b c d @ [0]) = Inr buf"
    using name_buf [of "dotted a b c d"] dotted_length [of a b c d] by fastforce
  with \<open>st \<noteq> AM_RET_GOOD\<close> show ?thesis
    using st assms(2,3) get_ip_address [OF assms(1)]
    by (simp add: am_get_entry_point_def am_net_init_entry_def am_net_destroy_socket_def am_net_entry_close_def Let_def)
qed

lemma localhost: "length (dotted 127 0 0 1) = 9" "ip_of 127 0 0 1 = 0x7F000001"
  by (simp_all add: dotted_def dec_digits.simps ip_of_def)

lemma am_get_entry_point_leaks_witness:
  "\<forall>n :: nat net. \<exists>e. am_get_entry_point (\<lambda>w d. (0, [], w)) \<lparr>sy_socket = 3, sy_setsockopt = 0, sy_bind = - 1, sy_close = 0, sy_pthread_attr_init = 0\<rparr>
      (\<lambda>_. True) True (\<lambda>_. 0) (Some (dotted 127 0 0 1)) (Some no_entry) {0, 1, 2} n = Inr (3, Some e, insert 3 {0, 1, 2}, n)"
  using am_get_entry_point_leaks [of 127 0 0 1 "\<lambda>_. True" "\<lparr>sy_socket = 3, sy_setsockopt = 0, sy_bind = - 1, sy_close = 0, sy_pthread_attr_init = 0\<rparr>"
      "\<lambda>w d. (0, [], w)" True "\<lambda>_. 0" no_entry "{0, 1, 2}"]
  by (auto simp: localhost)

end
