(* ===== verification/AM_Session.thy ===== *)
theory AM_Session
  imports AM_Remote AM_Device_Props AM_Entry_Props
begin

text \<open>
  A whole session: the target is started, a client opens an entry to it, creates a device on it through packets, writes it
  and reads it, and closes the entry.
\<close>

section \<open>What the client gets of the response\<close>

definition cr_head :: "cr_resp \<Rightarrow> bytes" where
  "cr_head r = cr_am_name r @ le_enc 4 (cr_devt r) @ le_enc 4 (cr_flags r) @ le_enc 8 (cr_globalID r) @
     enc_words (cr_ops r) @ enc_words (cr_acOps r) @ le_enc 4 (cr_data_size r) @ le_enc 4 (cr_idx_size r)"

definition cr_tail :: "cr_resp \<Rightarrow> bytes" where
  "cr_tail r = le_enc 1 (cr_pack_DataOffset r) @ le_enc 1 (cr_wr_pack_qword_size r) @
     le_enc 1 (cr_rd_pack_qword_size r) @ replicate 5 0"

text \<open>The response with the last 8 of its 360 bytes replaced by others.\<close>

definition cr_with_tail :: "bytes \<Rightarrow> cr_resp \<Rightarrow> cr_resp" where
  "cr_with_tail t r = r\<lparr>cr_pack_DataOffset := t ! 0, cr_wr_pack_qword_size := t ! 1, cr_rd_pack_qword_size := t ! 2\<rparr>"

lemma enc_cr_head: "enc_cr_resp r = cr_head r @ cr_tail r"
  by (simp add: enc_cr_resp_def cr_head_def cr_tail_def)

lemma length_cr_head: "wf_cr r \<Longrightarrow> length (cr_head r) = 352"
  by (simp add: cr_head_def wf_cr_def)

lemma length_cr_tail: "length (cr_tail r) = 8"
  by (simp add: cr_tail_def)

lemma rd_cr_with_tail:
  assumes "wf_cr r" "length t = 8"
  shows "rd_cr_resp (cr_head r @ t) 0 = Inr (cr_with_tail t r)"
proof -
  obtain a b c post where t: "t = [a, b, c] @ post"
    using assms(2) by (auto simp: numeral_eq_Suc length_Suc_conv)
  have b: "[x] = le_enc 1 x" for x :: UINT8 by simp
  have "cr_head r @ t = cr_head r @ le_enc 1 a @ le_enc 1 b @ le_enc 1 c @ post" by (simp add: t)
  then show ?thesis using assms(1) unfolding rd_cr_resp_def cr_head_def wf_cr_def append_assoc
    by (simp add: rd_enc_simps) (simp add: getb_def t cr_with_tail_def)
qed

lemma rd32_devt: "wf_cr r \<Longrightarrow> rd32 (cr_head r @ t) 64 = Inr (cr_devt r)"
  unfolding cr_head_def wf_cr_def append_assoc by (simp add: rd_enc_simps)

text \<open>The operators of the client: the calls are set in the block the client passed, whatever it held.\<close>

lemma rd32_total: "off + 4 \<le> length b \<Longrightarrow> \<exists>v. rd32 b off = Inr v"
  by (simp add: rd32_def rd_in_bounds)

lemma net_set_calls_ok:
  assumes "336 \<le> length resp" "fn_calls F = Some c"
  shows "\<exists>c'. net_set_calls resp F = Inr (F\<lparr>fn_calls := Some c'\<rparr>)"
proof -
  obtain v1 where v1: "rd32 resp 104 = Inr v1" using rd32_total [of 104 resp] assms(1) by auto
  obtain v2 where v2: "rd32 resp 108 = Inr v2" using rd32_total [of 108 resp] assms(1) by auto
  obtain v3 where v3: "rd32 resp 112 = Inr v3" using rd32_total [of 112 resp] assms(1) by auto
  have "F\<lparr>fn_calls := Some c\<rparr> = F" using assms(2) by simp
  then have "\<exists>c'. F = F\<lparr>fn_calls := Some c'\<rparr>" by metis
  then show ?thesis using assms(2) v1 v2 v3 by (auto simp: net_set_calls_def Let_def set_call_def)
qed

section \<open>The creation of a function over the network\<close>

text \<open>The base function with its operator for creation in slot 0, a free slot, and what is created there.\<close>

definition new_func :: "nat \<Rightarrow> mem_func" where
  "new_func i = zero_func\<lparr>fn_handle := 0xAA00 OR of_nat i, fn_pfnOps := Some zero_ops\<rparr>"

definition creates :: "alloc \<Rightarrow> (nat \<Rightarrow> UINT8) \<Rightarrow> targ \<Rightarrow> mem_cap \<Rightarrow> nat \<Rightarrow> mem_func \<Rightarrow> bool" where
  "creates al junk g cap i f \<longleftrightarrow> length (tg_table g) = AM_TARGET_MAX_FUNCTIONS \<and>
     (\<exists>b. has_op g 0 b (ucast AM_OP_CREATE_FUNC) (Some Fn_targ_create_function)) \<and>
     find_slot (tg_table g) 0 = Some i \<and> al 0 \<and> al 1 \<and> wf_cap cap \<and>
     targ_create_device (\<lambda>k. al (k + 2)) junk (new_func i) cap = Inr (AM_RET_GOOD, f)"

lemma creates_func:
  assumes "creates al junk g cap i f"
  shows "wf_cr (fn_crResp f)" "fn_handle f = 0xAA00 OR of_nat i" "cr_devt (fn_crResp f) = 0xAA00 OR of_nat i" "i < 256"
    "tg_table g ! 0 \<noteq> Null"
proof -
  have "wf_cr (fn_crResp (new_func i))" by (simp add: new_func_def zero_func_def)
  then show "wf_cr (fn_crResp f)" "fn_handle f = 0xAA00 OR of_nat i" "cr_devt (fn_crResp f) = 0xAA00 OR of_nat i"
    using create_device_ok [of _ junk "new_func i" cap f] assms by (auto simp: creates_def new_func_def)
  show "i < 256" using assms find_slot_Some [of "tg_table g" 0 i] by (simp add: creates_def)
  show "tg_table g ! 0 \<noteq> Null" using assms by (auto simp: creates_def has_op_def tbl_get_def split: if_splits)
qed

lemma served_create:
  assumes c: "creates al junk g cap i f" and w: "w_op w = 4" "w_packType w = 2" and len: "length resp = 512"
  shows "am_pack_process_cmd al junk g (Some 0) (enc_wrapper w @ le_enc 8 (168 :: UINT64) @ enc_mem_cap cap @ e) resp =
    Inr (AM_RET_GOOD, tbl_set g i (Live f), enc_wrapper w @ le_enc 8 (168 :: UINT64) @ enc_mem_cap cap @ e,
      enc_wrapper (resp_wrap w 360) @ cr_head (fn_crResp f) @ cr_tail (fn_crResp f) @ drop 368 resp, 360)"
proof -
  let ?r = "fn_crResp f" and ?p = "le_enc 8 (168 :: UINT64) @ enc_mem_cap cap @ e"
  have cap: "rd_mem_cap (enc_mem_cap cap @ e) 0 = Inr cap" using c by (simp add: rd_enc_mem_cap creates_def)
  have l: "length (cr_head ?r @ cr_tail ?r) = 360" using creates_func(1) [OF c] by (simp add: length_cr_head length_cr_tail)
  have put: "putb (drop 8 resp) 0 (enc_cr_resp ?r) = Inr (cr_head ?r @ cr_tail ?r @ drop 368 resp)"
    using l len by (simp add: putb_def enc_cr_head)
  have create: "am_targ_create_function al junk g (enc_mem_cap cap @ e) (168 :: UINT64) (drop 8 resp) =
      Inr (AM_RET_GOOD, tbl_set g i (Live f), cr_head ?r @ cr_tail ?r @ drop 368 resp, Some 360)"
    using c put cap unfolding creates_def new_func_def by (simp add: am_targ_create_function_def Let_def)
  obtain b where b: "has_op g 0 b (w_op w) (Some Fn_targ_create_function)" using c w(1) by (auto simp: creates_def)
  have l1: "rd64 ?p 0 = Inr 168" by (simp add: rd_enc_simps)
  have "run_func al junk g (Some 0) (enc_wrapper w @ ?p) (resp_start w resp) =
      Inr (AM_RET_GOOD, tbl_set g i (Live f), enc_wrapper w @ ?p,
        enc_wrapper (w\<lparr>w_packType := w_packType w OR AM_FUNC_PACK_TYPE_FLAG_RESP\<rparr>) @
          cr_head ?r @ cr_tail ?r @ drop 368 resp, Some 360)"
    using run_func_Some [OF b, of al junk ?p "resp_start w resp"] w create l1
    by (simp add: dispatch_def wrap_simps resp_start_def)
  then show ?thesis using process_cmd_good [of resp] len by simp
qed

lemma free_req_ready:
  assumes "net_ready n"
  obtains w pay n1 where "w_appTag w = 1" "length pay = 504" "am_net_get_free_req n = Inr (net_iop n1, n1)"
    "net_tx n1 = enc_wrapper w @ pay" "net_ready n1" "net_done n1 = 0" "net_w n1 = net_w n" "net_rx n1 = net_rx n"
proof -
  have eq: "am_net_get_free_req n = Inr x" if "free_iop (net_pkac sk) n = Inr x" for sk x
    using that by (cases "am_net_get_free_req n") (auto simp: free_iop_def net_pkac_def split: prod.splits)
  show thesis
    using free_iop_ready [OF assms] eq that by blast
qed

text \<open>
  The object the client has afterwards: what the target answered, with \<open>t\<close> for the last 8 bytes of the
  response, the target's handle, the transport and the operators.
\<close>

definition made_from :: "bytes \<Rightarrow> mem_func \<Rightarrow> mem_func \<Rightarrow> bool" where
  "made_from t f F \<longleftrightarrow> fn_pEntry F \<and> fn_send_and_wait F \<and> fn_get_free_iop F \<and> fn_handle F = fn_handle f \<and>
     fn_crResp F = cr_with_tail t (fn_crResp f) \<and>
     (\<exists>c. fn_calls F = Some c \<and> fc_write_al c = Some (pack_write_op (fn_crResp f)) \<and> fc_read_al c = Some (pack_read_op (fn_crResp f)))"

lemma pack_op_tail: "pack_write_op (cr_with_tail t r) = pack_write_op r" "pack_read_op (cr_with_tail t r) = pack_read_op r"
  by (simp_all add: pack_write_op_def pack_read_op_def cr_with_tail_def cr_is_32_def)

lemma client_create:
  assumes rx: "resp = cr_head (fn_crResp f) @ rest'" "length resp = 8184" "wf_cr (fn_crResp f)"
    and F: "fn_calls F = Some c" "wf_cr (fn_crResp F)"
    and f: "cr_devt (fn_crResp f) = fn_handle f" "is_pack_op (cr_acOps (fn_crResp f) ! 0)"
      "is_pack_op (cr_acOps (fn_crResp f) ! 1)"
  shows "\<exists>cb cr F1 F'. memcpy (enc_cr_resp (fn_crResp F)) 0 resp 0 360 = Inr cb \<and> rd_cr_resp cb 0 = Inr cr \<and>
    rd32 resp 64 = Inr (fn_handle f) \<and>
    net_set_calls resp (F\<lparr>fn_crResp := cr, fn_pEntry := True, fn_handle := fn_handle f,
      fn_send_and_wait := True, fn_get_free_iop := True\<rparr>) = Inr F1 \<and>
    am_set_pack_access F1 = Inr (AM_RET_GOOD, F') \<and> made_from (take 8 rest') f F'"
proof -
  let ?t = "take 8 rest'"
  have t: "length ?t = 8" using rx length_cr_head by simp
  have cb: "memcpy (enc_cr_resp (fn_crResp F)) 0 resp 0 360 = Inr (cr_head (fn_crResp f) @ ?t)"
    using rx(2) F(2) length_enc_cr_resp length_cr_head [OF rx(3)] by (simp add: memcpy_def getb_def putb_def) (simp add: rx(1))
  define cr where "cr = cr_with_tail ?t (fn_crResp f)"
  have cr: "rd_cr_resp (cr_head (fn_crResp f) @ ?t) 0 = Inr cr" unfolding cr_def by (rule rd_cr_with_tail [OF rx(3) t])
  have dv: "rd32 resp 64 = Inr (fn_handle f)" using rd32_devt [OF rx(3)] rx(1) f(1) by simp
  define F0 where "F0 = F\<lparr>fn_crResp := cr, fn_pEntry := True, fn_handle := fn_handle f,
      fn_send_and_wait := True, fn_get_free_iop := True\<rparr>"
  obtain c' where c': "net_set_calls resp F0 = Inr (F0\<lparr>fn_calls := Some c'\<rparr>)"
    using net_set_calls_ok [of resp F0 c] rx(2) F(1) by (auto simp: F0_def)
  define c'' where "c'' = c'\<lparr>fc_write_al := Some (pack_write_op (fn_crResp f)), fc_read_al := Some (pack_read_op (fn_crResp f))\<rparr>"
  let ?F' = "(F0\<lparr>fn_calls := Some c'\<rparr>)\<lparr>fn_calls := Some c''\<rparr>"
  have "am_set_pack_access (F0\<lparr>fn_calls := Some c'\<rparr>) = Inr (AM_RET_GOOD, ?F')"
    using set_pack_access_calls [of "F0\<lparr>fn_calls := Some c'\<rparr>" c'] f(2,3)
    by (simp add: F0_def cr_def pack_op_tail c''_def) (simp add: cr_with_tail_def)
  moreover have "made_from ?t f ?F'" using t unfolding made_from_def F0_def cr_def
    by (intro conjI exI [of _ c'']) (simp_all add: c''_def)
  ultimately show ?thesis using cb cr dv c' unfolding F0_def by blast
qed

lemma net_create_remote:
  assumes n: "net_ready n" "idle (net_w n)" and c: "creates al junk (ta_g (net_w n)) cap i f"
    and F: "fn_calls F = Some fc" "wf_cr (fn_crResp F)" and extra: "20 \<le> length extra"
    and f: "is_pack_op (cr_acOps (fn_crResp f) ! 0)" "is_pack_op (cr_acOps (fn_crResp f) ! 1)"
  shows "\<exists>F' n'. am_net_create_function (loop_sock cl al junk) n (Some (enc_mem_cap cap @ extra)) F = Inr (AM_RET_GOOD, F', n') \<and>
    made_from (take 8 (drop 360 (net_rx n))) f F' \<and> net_ready n' \<and> idle (net_w n') \<and> ta_g (net_w n') = tbl_set (ta_g (net_w n)) i (Live f)"
proof -
  let ?g = "ta_g (net_w n)" and ?r = "fn_crResp f"
  obtain w0 pay n1 where n1: "w_appTag w0 = 1" "length pay = 504" "am_net_get_free_req n = Inr (net_iop n1, n1)"
    "net_tx n1 = enc_wrapper w0 @ pay" "net_ready n1" "net_done n1 = 0" "net_w n1 = net_w n" "net_rx n1 = net_rx n"
    using free_req_ready [OF n(1)] by metis
  define w where "w = \<lparr>w_func_id = 0xFFFA, w_packType = 2, w_op = 4, w_appTag = 1, w_size = 188\<rparr>"
  define body where "body = le_enc 8 (168 :: UINT64) @ enc_mem_cap cap @ take 4 extra"
  define rest where "rest = take 16 (drop 4 extra) @ drop 196 pay"
  have cl: "length (enc_mem_cap cap) = 168" using c by (simp add: length_enc_mem_cap creates_def)
  have lens: "length (body @ rest) = 504" "length body = 180" using cl extra n1(2) by (simp_all add: body_def rest_def)
  define pIop where "pIop = (net_iop n1)\<lparr>iop_pTx := enc_wrapper w @ body @ rest\<rparr>"
  have tx: "set_wrap (iop_pTx (net_iop n1)) 0xFFFA (ucast AM_PACK_TYPE_FIVO) 188 (ucast AM_OP_CREATE_FUNC) =
      Inr (enc_wrapper w @ pay)"
    by (simp add: net_iop_def n1(1,4) wrap_simps w_def)
  have tx2: "wr64 (enc_wrapper w @ pay) off_fivo_l1 168 = Inr (enc_wrapper w @ le_enc 8 (168 :: UINT64) @ drop 8 pay)"
    using n1(2) by (simp add: wrap_simps wr_defs putb_in_bounds)
  have "take 188 (enc_mem_cap cap @ extra) = enc_mem_cap cap @ take 20 extra" using cl by simp
  moreover have "take 20 extra = take 4 extra @ take 16 (drop 4 extra)" by (simp add: take_add [of 4 16, simplified])
  ultimately have tx3: "memcpy (enc_wrapper w @ le_enc 8 (168 :: UINT64) @ drop 8 pay) off_fivo_data_in
      (enc_mem_cap cap @ extra) 0 188 = Inr (enc_wrapper w @ body @ rest)"
    using cl extra n1(2) by (simp add: memcpy_def getb_def putb_def wrap_simps body_def rest_def)
  have "\<exists>n' rest'. am_net_send_and_wait (loop_sock cl al junk) n1 pIop 188 5000 =
      bindr (if w_packType (resp_wrap w 360) AND AM_FUNC_PACK_TYPE_FLAG_ERR \<noteq> 0 then rd32 (cr_head ?r @ rest') 0 else Inr AM_RET_GOOD)
        (\<lambda>st. Inr (st, net_iop n', n')) \<and>
    net_ready n' \<and> idle (net_w n') \<and> ta_g (net_w n') = tbl_set ?g i (Live f) \<and> net_pRx n' \<and>
    net_resp_bytes n' = of_nat (8 + length (cr_head ?r)) \<and>
    net_rx n' = enc_wrapper (resp_wrap w 360) @ cr_head ?r @ rest' \<and> length (cr_head ?r @ rest') = 8184 \<and>
    rest' = drop (8 + length (cr_head ?r)) (net_rx n1)"
  proof (rule round_trip)
    show "iop_pTx pIop = enc_wrapper w @ body @ rest" by (simp add: pIop_def)
    show "am_validate_function_id (ta_g (net_w n1)) (w_func_id w) = Inr (Some 0)"
      using creates_func(5) [OF c] c n1(7) by (simp add: am_validate_function_id_def w_def tbl_slot_def creates_def)
    fix stale resp :: bytes assume "length stale = 504 - length body" "length resp = 512"
    then show "\<exists>p' g'. am_pack_process_cmd al junk (ta_g (net_w n1)) (Some 0) (enc_wrapper w @ body @ stale) resp =
        Inr (AM_RET_GOOD, g', enc_wrapper w @ body @ stale, enc_wrapper (resp_wrap w 360) @ cr_head ?r @ p', 360) \<and>
        length (cr_head ?r @ p') = 504 \<and> g' = tbl_set ?g i (Live f)"
      using served_create [OF c, of w resp "take 4 extra @ stale"] length_cr_head [OF creates_func(1) [OF c]] n1(7)
      by (simp add: w_def body_def length_cr_tail)
  qed (use n n1 lens length_cr_head [OF creates_func(1) [OF c]] in \<open>simp_all add: w_def resp_wrap_def\<close>)
  then obtain n' rest' where n': "am_net_send_and_wait (loop_sock cl al junk) n1 pIop 188 5000 = Inr (AM_RET_GOOD, net_iop n', n')"
    "net_ready n'" "idle (net_w n')" "ta_g (net_w n') = tbl_set ?g i (Live f)" "net_pRx n'" "net_resp_bytes n' = 360"
    "net_rx n' = enc_wrapper (resp_wrap w 360) @ cr_head ?r @ rest'" "length (cr_head ?r @ rest') = 8184" "rest' = drop 360 (net_rx n)"
    using length_cr_head [OF creates_func(1) [OF c]] n1(8) by (auto simp: w_def resp_wrap_def)
  obtain cb cr F1 F' where F': "memcpy (enc_cr_resp (fn_crResp F)) 0 (cr_head ?r @ rest') 0 360 = Inr cb" "rd_cr_resp cb 0 = Inr cr"
    "rd32 (cr_head ?r @ rest') 64 = Inr (fn_handle f)"
    "net_set_calls (cr_head ?r @ rest') (F\<lparr>fn_crResp := cr, fn_pEntry := True, fn_handle := fn_handle f,
      fn_send_and_wait := True, fn_get_free_iop := True\<rparr>) = Inr F1"
    "am_set_pack_access F1 = Inr (AM_RET_GOOD, F')" "made_from (take 8 rest') f F'"
    using client_create [OF refl n'(8) creates_func(1) [OF c] F _ f] creates_func(2,3) [OF c] by auto
  have iop: "iop_pRx (net_iop n') = Some (enc_wrapper (resp_wrap w 360) @ cr_head ?r @ rest')" "iop_resp_bytes (net_iop n') = 360"
    using n'(5-7) by (simp_all add: net_iop_def)
  have "am_net_create_function (loop_sock cl al junk) n (Some (enc_mem_cap cap @ extra)) F = Inr (AM_RET_GOOD, F', n')"
    using n1(3) tx tx2 tx3 n'(1) F'(1-5) iop unfolding pIop_def
    by (simp add: am_net_create_function_def wrap_simps)
  then show ?thesis using F'(6) n'(2-4,9) by blast
qed

text \<open>
  A creation over the network that the target grants. The client gets the target's handle, the 32-bit operators
  and the creation response, except for the last three members: the target counts the 360 bytes of the
  response without the wrapper, sends 8 too few, and the client fills the members from whatever its
  receive buffer held there.
\<close>

theorem am_net_create_function_tail:
  assumes "net_ready n" "idle (net_w n)" "creates al junk (ta_g (net_w n)) cap i f"
    and "fn_calls F = Some fc" "wf_cr (fn_crResp F)" "20 \<le> length extra"
    and "cr_is_32 (fn_crResp f)" "is_pack_op (cr_acOps (fn_crResp f) ! 0)" "is_pack_op (cr_acOps (fn_crResp f) ! 1)"
  shows "\<exists>F' n' c. am_net_create_function (loop_sock cl al junk) n (Some (enc_mem_cap cap @ extra)) F = Inr (AM_RET_GOOD, F', n') \<and>
    tg_table (ta_g (net_w n')) = (tg_table (ta_g (net_w n)))[i := Live f] \<and>
    fn_handle F' = fn_handle f \<and> fn_calls F' = Some c \<and>
    fc_write_al c = Some Fn_pack_write32_align \<and> fc_read_al c = Some Fn_pack_read32_align \<and>
    fn_crResp F' = (fn_crResp f)\<lparr>cr_pack_DataOffset := net_rx n ! 360, cr_wr_pack_qword_size := net_rx n ! 361,
      cr_rd_pack_qword_size := net_rx n ! 362\<rparr>"
proof -
  obtain F' n' where n': "am_net_create_function (loop_sock cl al junk) n (Some (enc_mem_cap cap @ extra)) F = Inr (AM_RET_GOOD, F', n')"
    "made_from (take 8 (drop 360 (net_rx n))) f F'" "ta_g (net_w n') = tbl_set (ta_g (net_w n)) i (Live f)"
    using net_create_remote [where cl = cl, OF assms(1-6,8,9)] by blast
  have "take 8 (drop 360 (net_rx n)) ! 0 = net_rx n ! 360" "take 8 (drop 360 (net_rx n)) ! 1 = net_rx n ! 361"
    "take 8 (drop 360 (net_rx n)) ! 2 = net_rx n ! 362"
    using assms(1) by (simp_all add: net_ready_def)
  then show ?thesis using n' assms(7) by (auto simp: made_from_def cr_with_tail_def tbl_set_def pack_write_op_def pack_read_op_def)
qed

text \<open>
  A client that passes a capability of its proper size: the request is filled with \<open>tx_size\<close> bytes
  from it, 20 more than it has, and runs out of it.
\<close>

theorem am_net_create_function_overread:
  assumes "net_ready n" "length b < 188"
  shows "am_net_create_function sk n (Some b) F = Inl OutOfBounds"
proof -
  obtain w0 pay n1 where n1: "w_appTag w0 = 1" "length pay = 504" "am_net_get_free_req n = Inr (net_iop n1, n1)"
    "net_tx n1 = enc_wrapper w0 @ pay"
    using free_req_ready [OF assms(1)] by metis
  have "memcpy tx 16 b 0 188 = Inl OutOfBounds" for tx using assms(2) by (simp add: memcpy_def getb_def)
  moreover have "\<exists>tx. wr64 (enc_wrapper w @ pay) off_fivo_l1 168 = Inr tx" for w
    using n1(2) by (simp add: wrap_simps wr_defs putb_in_bounds)
  ultimately show ?thesis
    using n1(1,3,4) by (auto simp: am_net_create_function_def net_iop_def wrap_simps wr_defs putb_in_bounds n1(2))
qed

section \<open>A sort over the network\<close>

text \<open>A static array on the target with the elements \<open>ws\<close>, and its sort operator.\<close>

definition stata_holds :: "mem_func \<Rightarrow> stata_data \<Rightarrow> UINT32 list \<Rightarrow> bool" where
  "stata_holds f sd ws \<longleftrightarrow> fn_pVdF f = Live (FdStata sd) \<and> st_data sd = Live (enc_words ws) \<and>
     st_array_size sd = of_nat (length ws) \<and> st_data_size sd = 4 \<and> length ws < 2 ^ 30"

definition stata_put :: "mem_func \<Rightarrow> stata_data \<Rightarrow> UINT32 list \<Rightarrow> mem_func" where
  "stata_put f sd ws = f\<lparr>fn_pVdF := Live (FdStata (sd\<lparr>st_data := Live (enc_words ws)\<rparr>))\<rparr>"

definition sort_range :: "UINT32 list \<Rightarrow> sort_param \<Rightarrow> nat" where
  "sort_range ws p = (if sp_end_idx p = 0 then length ws else Suc (unat (sp_end_idx p)))"

definition sort_req_ok :: "UINT32 list \<Rightarrow> sort_param \<Rightarrow> bool" where
  "sort_req_ok ws p \<longleftrightarrow> sp_type p = AM_SORT_TYPE_STATA_INTEGRAL_MERGE \<and> sp_start_idx p = 0 \<and> sp_data_signed p = 0 \<and>
     unat (sp_end_idx p) < length ws \<and> 2 \<le> sort_range ws p"

lemma served_sort:
  assumes op: "has_op g i f (w_op w) (Some Fn_stata_sort)" and w: "w_packType w = 4" "w_size w = 30"
    and f: "stata_holds f sd ws" "sort_req_ok ws p" and al: "al 0" and len: "length resp = 512"
  shows "am_pack_process_cmd al junk g (Some i) (enc_wrapper w @ enc_sort_param p @ e) resp =
    Inr (AM_RET_GOOD, tbl_set g i (Live (stata_put f sd (sort (take (sort_range ws p) ws) @ drop (sort_range ws p) ws))),
      enc_wrapper w @ enc_sort_param p @ e, enc_wrapper (resp_wrap w 8) @ drop 8 resp, 8)"
proof -
  have "am_stata_sort al junk f (Some (enc_sort_param p @ e)) 22 =
      Inr (AM_RET_GOOD, stata_put f sd (sort (take (sort_range ws p) ws) @ drop (sort_range ws p) ws))"
    unfolding stata_put_def using f al
    by (intro stata_sort_ok) (auto simp: stata_holds_def sort_req_ok_def sort_range_def)
  then have "run_func al junk g (Some i) (enc_wrapper w @ enc_sort_param p @ e) (resp_start w resp) =
      Inr (AM_RET_GOOD, tbl_set g i (Live (stata_put f sd (sort (take (sort_range ws p) ws) @ drop (sort_range ws p) ws))),
        enc_wrapper w @ enc_sort_param p @ e,
        enc_wrapper (w\<lparr>w_packType := w_packType w OR AM_FUNC_PACK_TYPE_FLAG_RESP\<rparr>) @ drop 8 resp, Some 8)"
    using run_func_Some [OF op, of al junk "enc_sort_param p @ e" "resp_start w resp"] w
    by (simp add: dispatch_def wrap_simps resp_start_def)
  then show ?thesis using process_cmd_good [of resp] len by simp
qed

lemma remote_sort:
  assumes n: "net_ready n" "idle (net_w n)" and F: "client_ok F i"
    and op: "has_op (ta_g (net_w n)) i f 8 (Some Fn_stata_sort)" "length (tg_table (ta_g (net_w n))) = AM_TARGET_MAX_FUNCTIONS"
    and f: "stata_holds f sd ws" "sort_req_ok ws p" and al: "al 0"
  shows "\<exists>n'. am_pack_sort (net_pkac (loop_sock cl al junk)) n (Some F) (Some (enc_sort_param p @ post)) 20 = Inr (AM_RET_GOOD, n') \<and>
    net_ready n' \<and> idle (net_w n') \<and>
    ta_g (net_w n') = tbl_set (ta_g (net_w n)) i
      (Live (stata_put f sd (sort (take (sort_range ws p) ws) @ drop (sort_range ws p) ws)))"
proof -
  let ?sk = "loop_sock cl al junk" and ?g = "ta_g (net_w n)"
    and ?f' = "stata_put f sd (sort (take (sort_range ws p) ws) @ drop (sort_range ws p) ws)"
  obtain w0 pay n1 where n1: "w_appTag w0 = 1" "length pay = 504" "free_iop (net_pkac ?sk) n = Inr (net_iop n1, n1)"
    "net_tx n1 = enc_wrapper w0 @ pay" "net_ready n1" "net_done n1 = 0" "net_w n1 = net_w n"
    using free_iop_ready [OF n(1), of ?sk] by blast
  define w where "w = req_wrap F 1 4 8 30"
  define body where "body = enc_sort_param p @ take 2 (drop 20 pay)"
  have lb: "length body = 22" using n1(2) by (simp add: body_def)
  define pIop where "pIop = (net_iop n1)\<lparr>iop_pTx := enc_wrapper w @ body @ drop 22 pay\<rparr>"
  have "take 2 (drop 20 pay) @ drop 22 pay = drop 20 pay" using append_take_drop_id [of 2 "drop 20 pay"] by simp
  then have cp: "memcpy (enc_wrapper w @ pay) off_action_data_in (enc_sort_param p @ post) 0 20 =
      Inr (enc_wrapper w @ body @ drop 22 pay)"
    using n1(2) by (simp add: memcpy_def getb_def putb_def wrap_simps body_def)
  have i: "i < 256" "fn_handle F = 0xAA00 OR of_nat i" using F by (simp_all add: client_ok_def)
  have vid: "am_validate_function_id (ta_g (net_w n1)) (w_func_id w) = Inr (Some i)"
    using validate_slot [OF i(1), of ?g] func_id_cast(2) [OF i(1)] i op n1(7)
    by (auto simp: w_def req_wrap_def tbl_slot_def has_op_def tbl_get_def split: if_splits)
  have "\<exists>n' rest'. am_net_send_and_wait ?sk n1 pIop 30 5000 =
      bindr (if w_packType (resp_wrap w 8) AND AM_FUNC_PACK_TYPE_FLAG_ERR \<noteq> 0 then rd32 ([] @ rest') 0 else Inr AM_RET_GOOD)
        (\<lambda>st. Inr (st, net_iop n', n')) \<and>
    net_ready n' \<and> idle (net_w n') \<and> ta_g (net_w n') = tbl_set ?g i (Live ?f') \<and> net_pRx n' \<and>
    net_resp_bytes n' = of_nat (8 + length ([] :: bytes)) \<and> net_rx n' = enc_wrapper (resp_wrap w 8) @ [] @ rest' \<and>
    length ([] @ rest') = 8184 \<and> rest' = drop (8 + length ([] :: bytes)) (net_rx n1)"
  proof (rule round_trip [OF n1(5,6) _ _ _ _ vid])
    show "iop_pTx pIop = enc_wrapper w @ body @ drop 22 pay" by (simp add: pIop_def)
    fix stale resp :: bytes assume l: "length stale = 504 - length body" "length resp = 512"
    have "w_op w = 8" by (simp add: w_def req_wrap_def)
    then show "\<exists>p' g'. am_pack_process_cmd al junk (ta_g (net_w n1)) (Some i) (enc_wrapper w @ body @ stale) resp =
        Inr (AM_RET_GOOD, g', enc_wrapper w @ body @ stale, enc_wrapper (resp_wrap w 8) @ [] @ p', 8) \<and>
        length ([] @ p') = 504 \<and> g' = tbl_set ?g i (Live ?f')"
      using served_sort [of ?g i f w sd ws p al resp junk "take 2 (drop 20 pay) @ stale"] op f al l n1(7)
      by (simp add: w_def req_wrap_def body_def)
  qed (use n n1 lb in \<open>simp_all add: w_def req_wrap_def resp_wrap_def\<close>)
  then obtain n' where n': "am_net_send_and_wait ?sk n1 pIop 30 5000 = Inr (AM_RET_GOOD, net_iop n', n')"
    "net_ready n'" "idle (net_w n')" "ta_g (net_w n') = tbl_set ?g i (Live ?f')"
    by (auto simp: w_def req_wrap_def resp_wrap_def)
  have pw: "pack_wrap F (net_iop n1) 4 30 8 = Inr ((net_iop n1)\<lparr>iop_pTx := enc_wrapper w @ pay\<rparr>)"
    using pack_wrap_req [of "net_iop n1" w0 pay F 4 30 8] n1 by (simp add: net_iop_def w_def)
  have "am_pack_sort (net_pkac ?sk) n (Some F) (Some (enc_sort_param p @ post)) 20 = Inr (AM_RET_GOOD, n')"
    using n1(3) pw cp n'(1) asserts_client [OF F] unfolding pIop_def by (simp add: am_pack_sort_def Let_def)
  then show ?thesis using n'(2-4) by blast
qed

text \<open>
  C12: Over a network that delivers, a sort request for a static array on the target, sent by the client's \<open>am_pack_sort\<close>, is answered
  by \<open>AM_RET_GOOD\<close> and leaves the array sorted in ascending unsigned order up to \<open>end_idx\<close>, everything else in the function table as it
  was, and client and target ready. That is the answer for every \<open>order\<close>, the declared \<open>AM_SORT_ORDER_DESC\<close> included: the code never reads
  it, although \<open>appmemlib.h\<close> offers both. The request is one that is accepted: the merge type, from index 0, unsigned, at least two elements,
  its end inside an array of fewer than \<open>2 ^ 30\<close> words, 20 bytes sent; the client is idle and holds the handle of the array, whose object
  has the sort operator; the merge buffer is granted.
\<close>

theorem am_remote_sort:
  assumes "net_ready n" "idle (net_w n)" "client_ok F i" "al 0"
    and "has_op (ta_g (net_w n)) i f (ucast AM_OP_SORT) (Some Fn_stata_sort)"
    and "length (tg_table (ta_g (net_w n))) = AM_TARGET_MAX_FUNCTIONS"
    and "stata_holds f sd ws" "sort_req_ok ws p"
  shows "\<exists>n'. am_pack_sort (net_pkac (loop_sock cl al junk)) n (Some F) (Some (enc_sort_param p @ post)) 20 =
      Inr (AM_RET_GOOD, n') \<and> net_ready n' \<and> idle (net_w n') \<and>
    tg_table (ta_g (net_w n')) = (tg_table (ta_g (net_w n)))[i :=
      Live (stata_put f sd (sort (take (sort_range ws p) ws) @ drop (sort_range ws p) ws))]"
  using remote_sort [where al = al and cl = cl and junk = junk and post = post and f = f, OF assms(1,2,3) _ assms(6-8,4)] assms(5) by (auto simp: tbl_set_def)

text \<open>A target with an array of three elements in slot 1, and its client.\<close>

definition sort_func :: mem_func where
  "sort_func = zero_func\<lparr>fn_handle := 0xAA01, fn_pEntry := True, fn_send_and_wait := True, fn_get_free_iop := True,
     fn_pVdF := Live (FdStata \<lparr>st_data = Live (enc_words [3, 1, 2]), st_size = 12, st_array_size = 3, st_idx_size = 4, st_data_size = 4\<rparr>),
     fn_pfnOps := Some (zero_ops[8 := Some Fn_stata_sort])\<rparr>"

definition fresh_net :: "'w \<Rightarrow> 'w net" where
  "fresh_net w = \<lparr>net_tag = 0, net_done = 0, net_pRx = False, net_resp_bytes = 0, net_tx = replicate 512 0,
     net_rx = replicate 8192 0, net_inbox = [], net_w = w\<rparr>"

lemma fresh_net_simps [simp]: "net_ready (fresh_net w)" "net_w (fresh_net w) = w" "net_rx (fresh_net w) = replicate 8192 0"
  by (simp_all add: fresh_net_def net_ready_def)

definition sort_target :: "nat pack_queue \<Rightarrow> nat target" where
  "sort_target q = \<lparr>ta_g = \<lparr>tg_table = (start_table zero_func)[1 := Live sort_func], tg_reg = []\<rparr>, ta_q = q, ta_sent = []\<rparr>"

lemma am_remote_sort_witness:
  "\<exists>q n'. am_init_pack_queue (\<lambda>_. True) 2 = Some q \<and>
    am_pack_sort (net_pkac (loop_sock 7 (\<lambda>_. True) (\<lambda>_. 0))) (fresh_net (sort_target q)) (Some sort_func)
      (Some (enc_sort_param \<lparr>sp_type = 1, sp_start_idx = 0, sp_end_idx = 0, sp_order = AM_SORT_ORDER_DESC, sp_data_signed = 0\<rparr> @ [])) 20 = Inr (0, n') \<and>
    tg_table (ta_g (net_w n')) ! 1 = Live (stata_put sort_func
      \<lparr>st_data = Live (enc_words [3, 1, 2]), st_size = 12, st_array_size = 3, st_idx_size = 4, st_data_size = 4\<rparr> [1, 2, 3])"
proof -
  let ?sd = "\<lparr>st_data = Live (enc_words [3, 1, 2]), st_size = 12, st_array_size = 3, st_idx_size = 4, st_data_size = 4\<rparr>"
  let ?p = "\<lparr>sp_type = 1, sp_start_idx = 0, sp_end_idx = 0, sp_order = AM_SORT_ORDER_DESC, sp_data_signed = 0\<rparr>"
  obtain q :: "nat pack_queue" where q: "am_init_pack_queue (\<lambda>_. True) 2 = Some q"
    by (simp add: am_init_pack_queue_def Let_def)
  have t: "tg_table (ta_g (sort_target q)) = (start_table zero_func)[1 := Live sort_func]" by (simp add: sort_target_def)
  have "idle (sort_target q)" using init_queue_ok [OF q] by (simp add: idle_def sort_target_def q_waiting_def)
  moreover have "client_ok sort_func 1" by (simp add: client_ok_def sort_func_def)
  moreover have "has_op (ta_g (sort_target q)) 1 sort_func (ucast AM_OP_SORT) (Some Fn_stata_sort)"
    by (simp add: has_op_def tbl_get_def t start_table_def) (simp add: sort_func_def zero_ops_def)
  moreover have "length (tg_table (ta_g (sort_target q))) = 256" by (simp add: t start_table_def)
  moreover have "stata_holds sort_func ?sd [3, 1, 2]" by (simp add: stata_holds_def sort_func_def)
  moreover have "sort_req_ok [3, 1, 2] ?p" by (simp add: sort_req_ok_def sort_range_def)
  ultimately obtain n' where "am_pack_sort (net_pkac (loop_sock 7 (\<lambda>_. True) (\<lambda>_. 0))) (fresh_net (sort_target q)) (Some sort_func)
      (Some (enc_sort_param ?p @ [])) 20 = Inr (0, n')"
    "tg_table (ta_g (net_w n')) = (tg_table (ta_g (sort_target q)))[1 := Live (stata_put sort_func ?sd
      (sort (take (sort_range [3, 1, 2] ?p) [3, 1, 2]) @ drop (sort_range [3, 1, 2] ?p) [3, 1, 2]))]"
    using am_remote_sort [of "fresh_net (sort_target q)" sort_func 1 "\<lambda>_. True" sort_func ?sd "[3, 1, 2]" ?p 7 "\<lambda>_. 0" "[]"]
    by auto
  moreover have "sort (take (sort_range [3, 1, 2] ?p) [3, 1, 2]) @ drop (sort_range [3, 1, 2] ?p) [3, 1, 2] = [1, 2, 3 :: UINT32]"
    by (simp add: sort_range_def word_le_nat_alt)
  ultimately have "tg_table (ta_g (net_w n')) = (tg_table (ta_g (sort_target q)))[1 := Live (stata_put sort_func ?sd [1, 2, 3])]"
    by metis
  moreover have "1 < length (tg_table (ta_g (sort_target q)))" by (simp add: t start_table_def)
  ultimately have "tg_table (ta_g (net_w n')) ! 1 = Live (stata_put sort_func ?sd [1, 2, 3])" by (metis nth_list_update_eq)
  then show ?thesis using q \<open>am_pack_sort _ _ _ _ _ = Inr (0, n')\<close> by blast
qed

section \<open>From the start of the target\<close>

lemma start_target_ok:
  assumes "am_targ_start_target al0 reg = Some t" "\<And>k. al0 k"
  shows "idle t" "length (tg_table (ta_g t)) = 256" "find_slot (tg_table (ta_g t)) 0 = Some 1"
    "\<exists>b. has_op (ta_g t) 0 b (ucast AM_OP_CREATE_FUNC) (Some Fn_targ_create_function)" "identifies (ta_g t)"
proof -
  obtain base ops where b: "am_targ_init_base_function (\<lambda>i. al0 (1 + i)) = (AM_RET_GOOD, Some base)"
    "fn_pfnOps base = Some ops" "length ops = 64" "ops ! 4 = Some Fn_targ_create_function" "ops ! 1 = Some Fn_targ_identify_resp"
    using assms(2) by (simp add: am_targ_init_base_function_def zero_ops_def)
  obtain q where q: "am_init_pack_queue (\<lambda>i. al0 (3 + i)) 1024 = Some q"
    "t = \<lparr>ta_g = \<lparr>tg_table = start_table base, tg_reg = reg\<rparr>, ta_q = q, ta_sent = []\<rparr>"
    using assms b by (auto simp: am_targ_start_target_def split: option.splits)
  note ok = init_queue_ok [OF q(1)]
  show "idle t" using ok assms(2) by (simp add: idle_def q(2) q_waiting_def)
  show "length (tg_table (ta_g t)) = 256" by (simp add: q(2) start_table_def)
  show "find_slot (tg_table (ta_g t)) 0 = Some 1" by (simp add: q(2) start_table_def numeral_eq_Suc)
  show "\<exists>b. has_op (ta_g t) 0 b (ucast AM_OP_CREATE_FUNC) (Some Fn_targ_create_function)"
    using b(2-4) by (simp add: has_op_def tbl_get_def q(2) start_table_def)
  show "identifies (ta_g t)" using b(2,3,5) by (simp add: identifies_def has_op_def tbl_get_def q(2) start_table_def)
qed

lemma new_func_simps [simp]: "fn_pfnOps (new_func i) = Some zero_ops" "wf_cr (fn_crResp (new_func i))"
  by (simp_all add: new_func_def zero_func_def)

text \<open>The client's view of what \<open>am_net_create_function\<close> made.\<close>

definition remote_of :: "mem_func \<Rightarrow> nat \<Rightarrow> 'c \<Rightarrow> alloc \<Rightarrow> (nat \<Rightarrow> UINT8) \<Rightarrow> 'c target net \<Rightarrow> 'c remote" where
  "remote_of F i cl al junk n = \<lparr>rm_F = F, rm_i = i, rm_cl = cl, rm_al = al, rm_junk = junk, rm_net = n\<rparr>"

lemma remote_of_ok:
  assumes "creates al junk g cap i f" "made_from u f F" "net_ready n" "idle (net_w n)" "ta_g (net_w n) = tbl_set g i (Live f)"
    and "dev_ok rdf wrf f"
  shows "remote_cell rdf wrf cell (remote_of F i cl al junk n) = cell f" "remote_dev (remote_of F i cl al junk n) = f"
proof -
  have i: "i < 256" "i < length (tg_table g)" "fn_handle f = 0xAA00 OR of_nat i" "length (tg_table g) = 256"
    using creates_func [OF assms(1)] assms(1) by (simp_all add: creates_def)
  show d: "remote_dev (remote_of F i cl al junk n) = f"
    using i assms(5) by (simp add: remote_dev_def remote_g_def remote_of_def tbl_set_def)
  have "remote_ok rdf wrf (remote_of F i cl al junk n)"
    using i assms(2-6) by (simp add: remote_ok_def remote_g_def remote_of_def client_ok_def made_from_def tbl_set_def)
  then show "remote_cell rdf wrf cell (remote_of F i cl al junk n) = cell f" by (intro ext) (simp add: remote_cell_def d)
qed

lemma creates_flat:
  assumes "am_targ_start_target al0 reg = Some t" "\<And>k. al0 k"
    and "al 0" "al 1" "al 2" "al 3" "wf_cap cap" "cap_amType cap = AM_TYPE_FLAT_MEM" "cap_typeSpecific cap ! 0 = 4"
  shows "\<exists>f. creates al junk (ta_g t) cap 1 f \<and> flat_store f = flat_mem junk cap \<and>
    dev_ok Fn_flat_read32_align Fn_flat_write32_align f \<and> is_pack_op (cr_acOps (fn_crResp f) ! 0) \<and> is_pack_op (cr_acOps (fn_crResp f) ! 1)"
proof -
  obtain f ops where f: "am_create_flat_device (\<lambda>k. al (k + 2)) junk (new_func 1) cap = Inr (AM_RET_GOOD, f)"
    "flat_store f = flat_mem junk cap" "fn_pfnOps f = Some ops" "length ops = AM_OP_MAX_OPS"
    "ops ! 16 = Some Fn_flat_write32_align" "ops ! 17 = Some Fn_flat_read32_align"
    "cr_data_size (fn_crResp f) = 4" "cr_idx_size (fn_crResp f) = 4"
    "cr_acOps (fn_crResp f) = [op_word AM_PACK_ALIGN AM_OP_WRITE_ALIGN, op_word AM_PACK_ALIGN AM_OP_READ_ALIGN]"
    using create_flat_ok [of "\<lambda>k. al (k + 2)" "new_func 1" zero_ops junk cap] assms(5,6,9)
    by (auto simp: zero_ops_def numeral_eq_Suc)
  then show ?thesis
    using start_target_ok [OF assms(1,2)] assms(3,4,7,8) pack_op_words
    by (intro exI [of _ f]) (simp add: creates_def targ_create_device_def dev_ok_def cr_is_32_def)
qed

text \<open>
  C1: A session over the network, from the name of the target to the end. On a target just started, over a network that delivers, a client
  opens the entry with the target's address, which makes a socket to it and identifies it; creates a zeroed flat memory with 32-bit addresses
  through \<open>am_net_create_function\<close>; writes and reads it through packets; and closes the entry. After any writes inside the memory, of 4 bytes or more each, whose
  cells equal the one read or are disjoint from it, a read into as many returns what was written there last, or zeros; the close leaves
  the descriptors open before. All memory is granted, the client's object has its table of calls, system calls succeed, the socket is a new descriptor. The address is not 0.0.0.0
  and has at least 8 characters (of a shorter one the code reads uninitialised numbers). The capability's 168 bytes must have 20
  readable ones behind them, as 188 are copied (with fewer it overreads, \<open>am_net_create_function_overread\<close>) when there are fewer.
\<close>

theorem am_session_flat:
  assumes "am_targ_start_target al0 reg = Some t" "\<And>k. al0 k" "net_ready n" "net_w n = t"
    and "al 0" "al 1" "al 2" "al 3" "wf_cap cap" "cap_amType cap = AM_TYPE_FLAT_MEM" "cap_typeSpecific cap ! 0 = 4"
    and "cap_typeSpecific cap ! TS_INIT_MEM_VAL = 0" "fn_calls F = Some fc" "wf_cr (fn_crResp F)" "20 \<le> length extra"
    and "writes_fit (flat_addr (unat (cap_maxSize cap))) ws q"
    and "flat_addr (unat (cap_maxSize cap)) k = Some q" "4 \<le> length d"
    and name: "7 < length (dotted b1 b2 b3 b4)" "ip_of b1 b2 b3 b4 \<noteq> 0" and sys: "sys_ok sy" "\<And>k. al' k" "sy_socket sy \<notin> fds"
  shows "\<exists>e n1 F' n' r1 r2.
    am_get_entry_point (loop_sock cl al junk) sy al' run stack (Some (dotted b1 b2 b3 b4)) (Some ent) fds n =
      Inr (AM_RET_GOOD, Some e, insert (sy_socket sy) fds, n1) \<and>
    en_create_function e = Some En_net_create_function \<and> en_close e = Some En_net_entry_close \<and>
    am_net_create_function (loop_sock cl al junk) n1 (Some (enc_mem_cap cap @ extra)) F = Inr (AM_RET_GOOD, F', n') \<and>
    write_all remote_write (remote_of F' 1 cl al junk n') ws = Inr (AM_RET_GOOD, r1) \<and>
    remote_read r1 (Some k) (Some d) = Inr (AM_RET_GOOD, r2,
      Some ((case last_write (flat_addr (unat (cap_maxSize cap))) ws q of Some x \<Rightarrow> x | None \<Rightarrow> replicate 4 0) @ drop 4 d)) \<and>
    am_net_entry_close sy e (insert (sy_socket sy) fds) = Inr (AM_RET_GOOD, e\<lparr>en_pTransport := Dangling\<rparr>, fds)"
proof -
  note t = start_target_ok [OF assms(1,2)]
  obtain e s n1 where e: "am_get_entry_point (loop_sock cl al junk) sy al' run stack (Some (dotted b1 b2 b3 b4)) (Some ent) fds n =
      Inr (AM_RET_GOOD, Some e, insert (sy_socket sy) fds, n1)" "en_create_function e = Some En_net_create_function"
      "en_close e = Some En_net_entry_close" "en_pTransport e = Live s" "us_socket_handle s = sy_socket sy"
      "net_ready n1" "idle (net_w n1)" "ta_g (net_w n1) = ta_g t"
    using entry_connects [where al' = al' and cl = cl and al = al and junk = junk and run = run and stack = stack and ent = ent and fds = fds,
      OF assms(3) _ _ name sys(1,2)] t(1,5) unfolding assms(4) by blast
  obtain f where f: "creates al junk (ta_g (net_w n1)) cap 1 f" "flat_store f = flat_mem junk cap"
    "dev_ok Fn_flat_read32_align Fn_flat_write32_align f" "is_pack_op (cr_acOps (fn_crResp f) ! 0)" "is_pack_op (cr_acOps (fn_crResp f) ! 1)"
    using creates_flat [OF assms(1,2,5-11)] e(8) by metis
  obtain F' n' where n': "am_net_create_function (loop_sock cl al junk) n1 (Some (enc_mem_cap cap @ extra)) F = Inr (AM_RET_GOOD, F', n')"
    "made_from (take 8 (drop 360 (net_rx n1))) f F'" "net_ready n'" "idle (net_w n')" "ta_g (net_w n') = tbl_set (ta_g (net_w n1)) 1 (Live f)"
    using net_create_remote [where cl = cl, OF e(6,7) f(1) assms(13-15) f(4,5)] by blast
  let ?r = "remote_of F' 1 cl al junk n'"
  note r = remote_of_ok(1) [where cell = flat_cell and cl = cl, OF f(1) n'(2-5) f(3)]
    remote_of_ok(2) [where cl = cl, OF f(1) n'(2-5) f(3)]
  have c: "remote_cell Fn_flat_read32_align Fn_flat_write32_align flat_cell ?r = flat_addr (unat (cap_maxSize cap))"
    using r(1) f(2) assms(12) by (simp add: flat_cell_addr flat_mem_def)
  have z: "take 4 (drop q (flat_store f)) = replicate 4 0"
    using addr_bound(1) [OF assms(17)] f(2) assms(12) by (simp add: flat_mem_def min_def)
  have close: "am_net_entry_close sy e (insert (sy_socket sy) fds) = Inr (AM_RET_GOOD, e\<lparr>en_pTransport := Dangling\<rparr>, fds)"
    using entry_closes [OF sys(1) e(4,5), of fds] sys(3) by simp
  obtain r1 r2 where "write_all remote_write ?r ws = Inr (AM_RET_GOOD, r1)" "remote_read r1 (Some k) (Some d) = Inr (AM_RET_GOOD, r2,
      Some ((case last_write (flat_addr (unat (cap_maxSize cap))) ws q of Some x \<Rightarrow> x | None \<Rightarrow> replicate 4 0) @ drop 4 d))"
    using flat_packets.remote.last_write_wins [of ?r ws q k d, unfolded c] assms(16-18) z r(2)
    by (auto simp: remote_store_def cong: option.case_cong)
  then show ?thesis using e(1-3) n'(1) close by blast
qed

definition good_sys :: sys where
  "good_sys = \<lparr>sy_socket = 3, sy_setsockopt = 0, sy_bind = 0, sy_close = 0, sy_pthread_attr_init = 0\<rparr>"

lemma am_session_flat_witness:
  "\<exists>t e n1 F' n' r1 r2. am_targ_start_target (\<lambda>_. True) [] = Some t \<and>
    am_get_entry_point (loop_sock (7 :: nat) (\<lambda>_. True) (\<lambda>_. 0)) good_sys (\<lambda>_. True) True (\<lambda>_. 0) (Some (dotted 127 0 0 1)) (Some no_entry)
      {0, 1, 2} (fresh_net t) = Inr (0, Some e, {0, 1, 2, 3}, n1) \<and>
    en_create_function e = Some En_net_create_function \<and> en_close e = Some En_net_entry_close \<and>
    am_net_create_function (loop_sock 7 (\<lambda>_. True) (\<lambda>_. 0)) n1
      (Some (enc_mem_cap (mk_cap 1 16 1 1 0 [4, 1, 0]) @ replicate 20 0)) call_func = Inr (0, F', n') \<and>
    write_all remote_write (remote_of F' 1 7 (\<lambda>_. True) (\<lambda>_. 0) n') [([4, 0, 0, 0], [9, 8, 7, 6])] = Inr (0, r1) \<and>
    remote_read r1 (Some [4, 0, 0, 0]) (Some [0, 0, 0, 0]) = Inr (0, r2, Some [9, 8, 7, 6]) \<and>
    am_net_entry_close good_sys e {0, 1, 2, 3} = Inr (0, e\<lparr>en_pTransport := Dangling\<rparr>, {0, 1, 2})"
proof -
  obtain t :: "nat target" where t: "am_targ_start_target (\<lambda>_. True) [] = Some t"
    by (simp add: am_targ_start_target_def am_targ_init_base_function_def am_init_pack_queue_def Let_def)
  let ?cap = "mk_cap 1 16 1 1 0 [4, 1, 0]"
  have c: "cap_amType ?cap = 1" "cap_typeSpecific ?cap ! 0 = 4" "cap_typeSpecific ?cap ! 2 = 0" "unat (cap_maxSize ?cap) = 16"
    by (simp_all add: mk_cap_def ts_init_def)
  have a: "flat_addr 16 [4, 0, 0, 0] = Some 4" by (simp add: flat_addr_def)
  then have w: "writes_fit (flat_addr 16) [([4, 0, 0, 0], [9, 8, 7, 6])] 4" by (simp add: writes_fit_def)
  have sy: "sys_ok good_sys" "sy_socket good_sys = 3" by (simp_all add: good_sys_def sys_ok_def)
  have ins: "insert 3 {0, 1, 2 :: UINT32} = {0, 1, 2, 3}" by blast
  show ?thesis
    by (intro exI [of _ t]) (use am_session_flat [of "\<lambda>_. True" "[]" t "fresh_net t" "\<lambda>_. True" ?cap call_func zero_calls "replicate 20 0"
        "[([4, 0, 0, 0], [9, 8, 7, 6])]" 4 "[4, 0, 0, 0]" "[0, 0, 0, 0]" 127 0 0 1 good_sys "\<lambda>_. True" "{0, 1, 2}" 7 "\<lambda>_. 0" True "\<lambda>_. 0" no_entry]
      t c a w localhost sy ins in simp)
qed

lemma am_net_create_function_tail_witness:
  "\<exists>t F' n'. am_targ_start_target (\<lambda>_. True) [] = Some t \<and>
    am_net_create_function (loop_sock (7 :: nat) (\<lambda>_. True) (\<lambda>_. 0)) (fresh_net t)
      (Some (enc_mem_cap (mk_cap 1 16 1 1 0 [4, 1, 0]) @ replicate 20 0)) call_func = Inr (0, F', n') \<and>
    cr_pack_DataOffset (fn_crResp F') = 0 \<and> cr_idx_size (fn_crResp F') = 4"
proof -
  obtain t :: "nat target" where t: "am_targ_start_target (\<lambda>_. True) [] = Some t"
    by (simp add: am_targ_start_target_def am_targ_init_base_function_def am_init_pack_queue_def Let_def)
  let ?cap = "mk_cap 1 16 1 1 0 [4, 1, 0]"
  have c: "cap_amType ?cap = 1" "cap_typeSpecific ?cap ! 0 = 4" by (simp_all add: mk_cap_def ts_init_def)
  obtain f where f: "creates (\<lambda>_. True) (\<lambda>_. 0) (ta_g t) ?cap 1 f"
    "dev_ok Fn_flat_read32_align Fn_flat_write32_align f" "is_pack_op (cr_acOps (fn_crResp f) ! 0)" "is_pack_op (cr_acOps (fn_crResp f) ! 1)"
    using creates_flat [OF t, of "\<lambda>_. True" ?cap "\<lambda>_. 0"] c by auto
  have id: "idle (net_w (fresh_net t))" using start_target_ok(1) [OF t] by simp
  have cr: "cr_is_32 (fn_crResp f)" using f(2) by (simp add: dev_ok_def)
  have g: "creates (\<lambda>_. True) (\<lambda>_. 0) (ta_g (net_w (fresh_net t))) ?cap 1 f" using f(1) by simp
  have "20 \<le> length (replicate 20 (0 :: UINT8))" by simp
  from am_net_create_function_tail [where cl = 7, OF fresh_net_simps(1) id g call_func_simps this cr f(3,4)] t cr
  show ?thesis by (auto simp: cr_is_32_def)
qed

lemma am_net_create_function_overread_witness:
  "am_net_create_function (\<lambda>w d. (int (length d), [], w)) (fresh_net (0 :: nat)) (Some (enc_mem_cap flat_caps)) call_func = Inl OutOfBounds"
  by (rule am_net_create_function_overread) (simp_all add: length_enc_mem_cap flat_caps_def)

end
