(* ===== verification/AM_Kernel.thy ===== *)
theory AM_Kernel
  imports AM_Pack
begin

text \<open>
  The kernel module, \<^verbatim>\<open>appmemk/appmemk.c\<close>: its devices, the \<open>ioctl\<close> entry and the commands behind it. A
  device file is named by its minor number; 0 is the base device. \<open>appmemd_ioctl\<close> answers a C \<^verbatim>\<open>int\<close>,
  negative for an error of the driver.

  The module compiles the device files and the dispatcher for the kernel. They differ from the user-mode
  build in three ways. \<open>GET32_FROM_USER\<close>, \<open>PUT32_TO_USER\<close> and \<open>COPY_TO_USER\<close> depend on the flag
  \<open>AM_FUNC_DATA_FLAG_MMAPPED\<close> of the device. \<open>AM_ASSERT\<close> prints and goes on; the assertions of the code
  reached from here hold. \<open>am_targ_open\<close> is the module's own and does not set the length.
\<close>

abbreviation (input) APPMEMD_IOC_MAGIC :: UINT32 where "APPMEMD_IOC_MAGIC \<equiv> 0x4B"
abbreviation (input) APPMEMD_IOC_MAXNR :: UINT32 where "APPMEMD_IOC_MAXNR \<equiv> 32"
abbreviation (input) AM_OP_GET_CAP_DETAILS :: UINT32 where "AM_OP_GET_CAP_DETAILS \<equiv> 0x9"
abbreviation (input) AM_FUNC_DATA_FLAG_MMAPPED :: UINT32 where "AM_FUNC_DATA_FLAG_MMAPPED \<equiv> 1"
abbreviation (input) AM_CAP_AC_FLAG_PACK_MMAP :: UINT32 where "AM_CAP_AC_FLAG_PACK_MMAP \<equiv> 1"
abbreviation (input) MINUS_ENOTTY :: UINT32 where "MINUS_ENOTTY \<equiv> - 25"
abbreviation (input) MINUS_ENOMEM :: UINT32 where "MINUS_ENOMEM \<equiv> - 12"
abbreviation (input) sizeof_CMD_U :: nat where "sizeof_CMD_U \<equiv> 256"
abbreviation (input) sizeof_CAP_DETAILS :: nat where "sizeof_CAP_DETAILS \<equiv> 2188"

section \<open>User memory\<close>

text \<open>
  The memory of the calling process, by byte; \<open>None\<close> is an address that is not mapped. The kernel's
  \<^verbatim>\<open>copy_from_user\<close> and \<^verbatim>\<open>copy_to_user\<close> copy up to the first such address and say whether they copied
  everything; the former fills what it did not copy with zeros.
\<close>

type_synonym umem = "UINT64 \<Rightarrow> UINT8 option"

fun um_prefix :: "umem \<Rightarrow> UINT64 \<Rightarrow> nat \<Rightarrow> bytes" where
  "um_prefix um a 0 = []"
| "um_prefix um a (Suc n) = (case um a of None \<Rightarrow> [] | Some x \<Rightarrow> x # um_prefix um (a + 1) n)"

definition copy_from_user :: "umem \<Rightarrow> UINT64 \<Rightarrow> nat \<Rightarrow> bytes \<times> bool" where
  "copy_from_user um a n =
     (let xs = um_prefix um a n in (xs @ replicate (n - length xs) 0, length xs = n))"

fun copy_to_user :: "umem \<Rightarrow> UINT64 \<Rightarrow> bytes \<Rightarrow> umem \<times> bool" where
  "copy_to_user um a [] = (um, True)"
| "copy_to_user um a (x # xs) =
     (if um a = None then (um, False) else copy_to_user (um(a \<mapsto> x)) (a + 1) xs)"

text \<open>Accesses of the process itself, and of the kernel through a plain pointer: they must not fault.\<close>

definition um_get :: "umem \<Rightarrow> UINT64 \<Rightarrow> nat \<Rightarrow> bytes res" where
  "um_get um a n = (let xs = um_prefix um a n in if length xs = n then Inr xs else Inl OutOfBounds)"

definition um_put :: "umem \<Rightarrow> UINT64 \<Rightarrow> bytes \<Rightarrow> umem res" where
  "um_put um a xs = (case copy_to_user um a xs of (um', ok) \<Rightarrow> if ok then Inr um' else Inl OutOfBounds)"

text \<open>\<^verbatim>\<open>put_user\<close> and \<^verbatim>\<open>__put_user\<close> of 32 bits: all of them, or none.\<close>

definition put_user32 :: "umem \<Rightarrow> UINT64 \<Rightarrow> bytes \<Rightarrow> umem \<times> bool" where
  "put_user32 um a xs = (case um_put um a xs of Inr um' \<Rightarrow> (um', True) | Inl e \<Rightarrow> (um, False))"

definition PUT32_TO_USER :: "UINT32 \<Rightarrow> umem \<Rightarrow> UINT64 \<Rightarrow> bytes \<Rightarrow> umem res" where
  "PUT32_TO_USER flags um uaddr v =
     (if flags AND AM_FUNC_DATA_FLAG_MMAPPED \<noteq> 0 then um_put um uaddr v
      else Inr (fst (put_user32 um uaddr v)))"

section \<open>Devices\<close>

text \<open>
  \<open>APPMEM_KDEVICE\<close>. Its operator table is the one of its function, which shares it. \<open>kd_flags\<close> is the
  member \<open>common.flags\<close> of the function's data union.
\<close>

record kdevice =
  kd_func :: "mem_func option"
  kd_amType :: UINT32
  kd_devt :: UINT32
  kd_am_name :: bytes
  kd_pack_DataOffset :: UINT8
  kd_wr_pack_size :: UINT8
  kd_rd_pack_size :: UINT8
  kd_flags :: UINT32

text \<open>
  The module: \<open>gAppmemkDeviceFunctionEntry\<close>, \<open>appmemd_major\<close>, \<open>appmemd_minor\<close>, the devices by minor
  number with the list from \<open>pFunctionDevicesHead\<close>, \<open>g_temp_KCMD\<close>, and the memory of the process.
\<close>

record kern =
  kn_reg :: registry
  kn_major :: UINT32
  kn_minor :: UINT32
  kn_devs :: "UINT32 \<Rightarrow> kdevice option"
  kn_head :: "UINT32 list"
  kn_cmd :: bytes
  kn_um :: umem

text \<open>
  What the allocators of the kernel answer: whether they succeed, what fresh memory holds, as bytes, as
  a function object and as the flags of a data union. None of it is cleared.
\<close>

record kenv =
  ke_al :: alloc
  ke_junk :: "nat \<Rightarrow> UINT8"
  ke_func :: mem_func
  ke_flags :: UINT32

definition MKDEV :: "UINT32 \<Rightarrow> UINT32 \<Rightarrow> UINT32" where
  "MKDEV ma mi = push_bit 20 ma OR mi"

definition set_dev :: "UINT32 \<Rightarrow> (kdevice \<Rightarrow> kdevice) \<Rightarrow> kern \<Rightarrow> kern" where
  "set_dev m g k = k\<lparr>kn_devs := (kn_devs k)(m := map_option g (kn_devs k m))\<rparr>"

text \<open>
  \<open>al 0\<close> is the device node, \<open>al 1\<close> the device, \<open>al 2\<close> its operator table. Without the device the code
  goes on and stores through the null pointer; the table is not compared with null either.
\<close>

definition appmem_device_func_create ::
  "alloc \<Rightarrow> string \<Rightarrow> UINT32 \<Rightarrow> kern \<Rightarrow> (UINT32 option \<times> kern) res" where
  "appmem_device_func_create al name amType k =
     (let minor = kn_minor k; full_name = name @ fmt_d minor in
      bindr (sprintf_to (replicate 32 0) full_name) (\<lambda>_.
      let k = k\<lparr>kn_minor := minor + 1\<rparr> in
      if \<not> al 0 then Inr (None, k)
      else if \<not> al 1 then Inl NullDeref
      else if \<not> al 2 then Inl NullDeref
      else
        let d = \<lparr>kd_func = None, kd_amType = amType, kd_devt = MKDEV (kn_major k) minor,
                 kd_am_name = c_array 64 full_name, kd_pack_DataOffset = 0, kd_wr_pack_size = 0,
                 kd_rd_pack_size = 0, kd_flags = 0\<rparr>
        in Inr (Some minor, k\<lparr>kn_devs := (kn_devs k)(minor \<mapsto> d), kn_head := minor # kn_head k\<rparr>)))"

text \<open>One case of the switch: the new device, if there is one, gets the function once that is made.\<close>

definition k_create_case ::
  "kenv \<Rightarrow> string \<Rightarrow> UINT32 \<Rightarrow> (mem_func \<Rightarrow> (AM_RETURN \<times> mem_func) res) \<Rightarrow> kern \<Rightarrow>
   (AM_RETURN \<times> (UINT32 \<times> mem_func) option \<times> kern) res" where
  "k_create_case e name amType create k =
     bindr (appmem_device_func_create (\<lambda>i. ke_al e (1 + i)) name amType k) (\<lambda>(pNewDevice, k).
     case pNewDevice of
       None \<Rightarrow> Inr (AM_RET_ALLOC_ERR, None, k)
     | Some m \<Rightarrow>
         bindr (create ((ke_func e)\<lparr>fn_pfnOps := Some zero_ops\<rparr>)) (\<lambda>(error, f).
         if error = AM_RET_GOOD then
           Inr (error, Some (m, f), set_dev m (\<lambda>d. d\<lparr>kd_func := Some f, kd_flags := ke_flags e\<rparr>) k)
         else Inr (error, None, k)))"

text \<open>The sizes of the packets in bytes, cut to 8 bits.\<close>

definition k_pack_sizes :: "(AM_RETURN \<times> (UINT32 \<times> mem_func) option \<times> kern) \<Rightarrow>
    (AM_RETURN \<times> (UINT32 \<times> mem_func) option \<times> kern)" where
  "k_pack_sizes r =
     (case r of
        (error, Some (m, f), k) \<Rightarrow>
          (error, Some (m, f), set_dev m (\<lambda>d. d\<lparr>kd_pack_DataOffset := cr_pack_DataOffset (fn_crResp f),
             kd_wr_pack_size := cr_wr_pack_qword_size (fn_crResp f) * 8,
             kd_rd_pack_size := cr_rd_pack_qword_size (fn_crResp f) * 8\<rparr>) k)
      | _ \<Rightarrow> r)"

text \<open>
  The command in \<open>g_temp_KCMD\<close> is an \<open>APPMEM_CMD_BIDIR_T\<close>. \<open>al 0\<close> is the function object. On an error
  nothing is freed. The last five bytes of the response are padding.
\<close>

definition appmem_create_function :: "kenv \<Rightarrow> kern \<Rightarrow> mem_func \<Rightarrow> (AM_RETURN \<times> kern) res" where
  "appmem_create_function e k pBaseFunc =
     bindr (rd32 (kn_cmd k) 4) (\<lambda>len_in.
     bindr (rd64 (kn_cmd k) 8) (\<lambda>data_in.
     bindr (rd64 (kn_cmd k) 24) (\<lambda>data_out.
     if fn_amType pBaseFunc \<noteq> AM_TYPE_BASE_APPMEM then Inr (MINUS_ENOTTY, k)
     else if len_in < of_nat sizeof_MEM_CAP then Inr (MINUS_ENOTTY, k)
     else
       case copy_from_user (kn_um k) data_in sizeof_MEM_CAP of
         (b, ok) \<Rightarrow>
           if \<not> ok then Inr (MINUS_ENOTTY, k)
           else if \<not> ke_al e 0 then Inr (AM_RET_ALLOC_ERR, k)
           else
             bindr (rd_mem_cap b 0) (\<lambda>cap.
             let al = (\<lambda>i. ke_al e (4 + i)) in
             bindr (if cap_amType cap = AM_TYPE_FLAT_MEM then
                      k_create_case e ''am_flat'' AM_TYPE_FLAT_MEM (\<lambda>f. am_create_flat_device al (ke_junk e) f cap) k
                    else if cap_amType cap = AM_TYPE_STATIC_ARRAY then
                      k_create_case e ''am_stata'' AM_TYPE_STATIC_ARRAY (\<lambda>f. am_create_stata_device al (ke_junk e) f cap) k
                    else if cap_amType cap = AM_TYPE_ASSOC_ARRAY then
                      bindr (k_create_case e ''am_assca'' AM_TYPE_ASSOC_ARRAY (\<lambda>f. am_create_assca_device al f cap) k)
                        (\<lambda>r. Inr (k_pack_sizes r))
                    else Inr (MINUS_ENOTTY, None, k)) (\<lambda>(error, dev, k).
             case dev of
               None \<Rightarrow> Inr (error, k)
             | Some (m, f) \<Rightarrow>
                 (case kn_devs k m of
                    None \<Rightarrow> Inl UseAfterFree
                  | Some d \<Rightarrow>
                      let f = upd_cr (\<lambda>r. r\<lparr>cr_am_name := take 32 (kd_am_name d) @ drop 32 (cr_am_name r),
                                          cr_devt := kd_devt d\<rparr>) (f\<lparr>fn_amType := kd_amType d\<rparr>);
                          k = set_dev m (\<lambda>d. d\<lparr>kd_func := Some f\<rparr>) k;
                          resp = take 355 (enc_cr_resp (fn_crResp f)) @ fresh (ke_junk e) 5
                      in case copy_to_user (kn_um k) data_out resp of
                           (um, ok) \<Rightarrow> Inr (if ok then error else MINUS_ENOMEM, k\<lparr>kn_um := um\<rparr>)))))))"

section \<open>Capabilities\<close>

definition appmem_get_cap_count :: "kern \<Rightarrow> mem_func \<Rightarrow> (AM_RETURN \<times> kern) res" where
  "appmem_get_cap_count k pBaseFunc =
     bindr (rd64 (kn_cmd k) 8) (\<lambda>pData.
     let cap_count = (if fn_amType pBaseFunc = AM_TYPE_BASE_APPMEM then cap_subType virtd_base_cap else 1) in
     case put_user32 (kn_um k) pData (le_enc 4 cap_count) of
       (um, ok) \<Rightarrow> if ok then Inr (AM_RET_GOOD, k\<lparr>kn_um := um\<rparr>) else Inr (MINUS_ENOTTY, k))"

text \<open>
  The loop over the capabilities, run for the passes that do anything. From the second capability on, each
  is first copied with \<^verbatim>\<open>memcpy\<close> to the address of the process, and then again with \<^verbatim>\<open>copy_to_user\<close>.
\<close>

fun k_copy_caps :: "nat \<Rightarrow> nat \<Rightarrow> registry \<Rightarrow> umem \<Rightarrow> UINT64 \<Rightarrow> (bool \<times> umem) res" where
  "k_copy_caps 0 i reg um pCaps = Inr (True, um)"
| "k_copy_caps (Suc n) i reg um pCaps =
     (if i = 0 then
        case copy_to_user um pCaps (enc_mem_cap virtd_base_cap) of
          (um, ok) \<Rightarrow> if ok then k_copy_caps n (Suc i) reg um (pCaps + of_nat sizeof_MEM_CAP) else Inr (False, um)
      else
        case Option.bind (reg ! i) fe_pCap of
          None \<Rightarrow> k_copy_caps n (Suc i) reg um pCaps
        | Some c \<Rightarrow>
            bindr (um_put um pCaps (enc_mem_cap c)) (\<lambda>um.
            case copy_to_user um pCaps (enc_mem_cap c) of
              (um, ok) \<Rightarrow> if ok then k_copy_caps n (Suc i) reg um (pCaps + of_nat sizeof_MEM_CAP) else Inr (False, um)))"

definition appmem_get_capabilites :: "kern \<Rightarrow> mem_func \<Rightarrow> (AM_RETURN \<times> kern) res" where
  "appmem_get_capabilites k pBaseFunc =
     bindr (rd32 (kn_cmd k) 4) (\<lambda>len.
     bindr (rd64 (kn_cmd k) 8) (\<lambda>pData.
     if fn_amType pBaseFunc = AM_TYPE_BASE_APPMEM then
       let cap_count = len div of_nat sizeof_MEM_CAP in
       bindr (k_copy_caps (min (unat cap_count) (unat (cap_subType virtd_base_cap))) 0 (kn_reg k) (kn_um k) pData)
         (\<lambda>(ok, um). Inr (if ok then AM_RET_GOOD else MINUS_ENOTTY, k\<lparr>kn_um := um\<rparr>))
     else Inr (AM_RET_GOOD, k)))"

definition enc_cap_details :: "cap_details \<Rightarrow> bytes" where
  "enc_cap_details d =
     le_enc 4 (cd_amType d) @ cd_amTypeSz d @ le_enc 4 (cd_subType d) @ cd_subTypeSz d @
     le_enc 4 (cd_typeSpecificCount d) @ concat (cd_typeSpecificSz d)"

definition appmem_get_cap_details :: "kern \<Rightarrow> mem_func \<Rightarrow> (AM_RETURN \<times> kern) res" where
  "appmem_get_cap_details k pBaseFunc =
     bindr (rd64 (kn_cmd k) 8) (\<lambda>pCapDetails.
     bindr (rd64 (kn_cmd k) 16) (\<lambda>parameter.
     let amType = (ucast parameter :: UINT32) in
     if fn_amType pBaseFunc = AM_TYPE_BASE_APPMEM \<and> unat amType < MAX_VIRTD_DEVICE_FUNCTIONS then
       case kn_reg k ! unat amType of
         None \<Rightarrow> Inr (MINUS_ENOTTY, k)
       | Some fe \<Rightarrow>
           (case fe_pCapDetails fe of
              None \<Rightarrow> Inr (MINUS_ENOTTY, k)
            | Some ds \<Rightarrow>
                bindr (if amType = AM_TYPE_BASE_APPMEM then Inr 1
                       else case fe_pCap fe of None \<Rightarrow> Inl NullDeref | Some c \<Rightarrow> Inr (unat (cap_subType c))) (\<lambda>st_count.
                bindr (getb (concat (map enc_cap_details ds)) 0 (st_count * sizeof_CAP_DETAILS)) (\<lambda>b.
                case copy_to_user (kn_um k) pCapDetails b of
                  (um, ok) \<Rightarrow> Inr (if ok then AM_RET_GOOD else MINUS_ENOTTY, k\<lparr>kn_um := um\<rparr>))))
     else Inr (MINUS_ENOTTY, k)))"

section \<open>Aligned calls from a command\<close>

text \<open>
  A read of an associative array, \<open>am_assca_read32_align\<close> and \<open>amlib_assca_get_key_val\<close> with the kernel's
  macros. Without the mapped flag, \<open>COPY_TO_USER\<close> calls \<^verbatim>\<open>copy_from_user\<close> with the
  item as its destination: the data of the item is replaced by what the buffer of the process holds.
\<close>

definition COPY_TO_USER :: "UINT32 \<Rightarrow> umem \<Rightarrow> UINT64 \<Rightarrow> bytes \<Rightarrow> nat \<Rightarrow> (umem \<times> bytes) res" where
  "COPY_TO_USER flags um uaddr loc n =
     (if flags AND AM_FUNC_DATA_FLAG_MMAPPED \<noteq> 0 then
        bindr (getb loc 0 n) (\<lambda>b. bindr (um_put um uaddr b) (\<lambda>um. Inr (um, loc)))
      else bindr (putb loc 0 (fst (copy_from_user um uaddr n))) (\<lambda>loc. Inr (um, loc)))"

definition k_assca_get_key_val ::
  "UINT32 \<Rightarrow> umem \<Rightarrow> amlib_assca \<Rightarrow> bytes \<Rightarrow> UINT64 \<Rightarrow> (AM_RETURN \<times> amlib_assca \<times> umem) res" where
  "k_assca_get_key_val flags um aa pKey pData =
     bindr (HASH_FIND (aa_hash aa) pKey (aa_key_len aa)) (\<lambda>pAI.
     case pAI of
       None \<Rightarrow> Inr (AM_RET_KEY_NOT_FOUND, aa, um)
     | Some a \<Rightarrow>
         bindr (getel (uh_elems (aa_hash aa)) a) (\<lambda>x.
         bindr (COPY_TO_USER flags um pData (ue_val x) (unat (aa_data_len aa))) (\<lambda>(um, v).
         bindr (upd_el (uh_elems (aa_hash aa)) a (\<lambda>x. x\<lparr>ue_val := v\<rparr>)) (\<lambda>es.
         Inr (AM_RET_GOOD, aa\<lparr>aa_hash := (aa_hash aa)\<lparr>uh_elems := es\<rparr>\<rparr>, um)))))"

definition k_assca_read ::
  "UINT32 \<Rightarrow> umem \<Rightarrow> mem_func \<Rightarrow> bytes \<Rightarrow> UINT64 \<Rightarrow> (AM_RETURN \<times> mem_func \<times> umem) res" where
  "k_assca_read flags um f p1 p2 =
     (if fn_pVdF f = Null then Inr (AM_RET_INVALID_HDL, f, um)
      else
        bindr (bindr (deref (fn_pVdF f)) fd_assca) (\<lambda>fd.
        bindr (deref (as_data fd)) (\<lambda>aa.
        bindr (k_assca_get_key_val flags um aa p1 p2) (\<lambda>(st, aa, um).
        Inr (st, set_assca f fd aa, um)))))"

text \<open>
  \<open>p1\<close> points into the command, and so does \<open>p2\<close> of a write; \<open>p2\<close> of a read is an address of the
  process.
\<close>

fun k_align_read ::
  "fn_ptr \<Rightarrow> UINT32 \<Rightarrow> umem \<Rightarrow> mem_func \<Rightarrow> bytes \<Rightarrow> UINT64 \<Rightarrow> (AM_RETURN \<times> mem_func \<times> umem) res" where
  "k_align_read Fn_flat_read32_align flags um f p1 p2 =
     bindr (am_flat_read32_align f (Some p1) (Some (replicate 4 0))) (\<lambda>(st, f, b).
     bindr (the_buf b) (\<lambda>b. bindr (PUT32_TO_USER flags um p2 b) (\<lambda>um. Inr (st, f, um))))"
| "k_align_read Fn_stata_read_idx32 flags um f p1 p2 =
     bindr (am_stata_read_idx32 f (Some p1) (Some (replicate 4 0))) (\<lambda>(st, f, b).
     bindr (the_buf b) (\<lambda>b. bindr (PUT32_TO_USER flags um p2 b) (\<lambda>um. Inr (st, f, um))))"
| "k_align_read Fn_assca_read32_align flags um f p1 p2 = k_assca_read flags um f p1 p2"
| "k_align_read _ flags um f p1 p2 = Inl BadCall"

definition k_align_write :: "fn_ptr \<Rightarrow> alloc \<Rightarrow> mem_func \<Rightarrow> bytes \<Rightarrow> bytes \<Rightarrow> (AM_RETURN \<times> mem_func) res" where
  "k_align_write fp al f p1 p2 =
     (if fp \<in> {Fn_flat_write32_align, Fn_stata_write_idx32, Fn_assca_write32_align} then
        bindr (call_align fp al f (Some p1) (Some p2)) (\<lambda>(st, f, _). Inr (st, f))
      else Inl BadCall)"

text \<open>
  A call with the command itself. The module's \<open>am_targ_release\<close>, \<open>am_targ_open\<close> and \<open>am_targ_close\<close> get fewer arguments
  than they have, and read none.
\<close>

abbreviation (input) k_targ_release :: AM_RETURN where "k_targ_release \<equiv> AM_RET_GOOD"
abbreviation (input) k_targ_open :: AM_RETURN where "k_targ_open \<equiv> AM_RET_GOOD"
abbreviation (input) k_targ_close :: AM_RETURN where "k_targ_close \<equiv> AM_RET_GOOD"

fun k_config :: "fn_ptr \<Rightarrow> kenv \<Rightarrow> kern \<Rightarrow> mem_func \<Rightarrow> (AM_RETURN \<times> kern) res" where
  "k_config Fn_k_get_cap_count e k f = appmem_get_cap_count k f"
| "k_config Fn_k_get_capabilites e k f = appmem_get_capabilites k f"
| "k_config Fn_k_get_cap_details e k f = appmem_get_cap_details k f"
| "k_config Fn_k_create_function e k f = appmem_create_function e k f"
| "k_config Fn_targ_release e k f = Inr (k_targ_release, k)"
| "k_config Fn_targ_open e k f = Inr (k_targ_open, k)"
| "k_config Fn_targ_close e k f = Inr (k_targ_close, k)"
| "k_config _ e k f = Inl BadCall"

section \<open>The command entry\<close>

definition k_put_func :: "UINT32 \<Rightarrow> mem_func \<Rightarrow> kern \<Rightarrow> kern" where
  "k_put_func m f = set_dev m (\<lambda>d. d\<lparr>kd_func := Some f\<rparr>)"

text \<open>A command in \<open>g_temp_KCMD\<close>, of which \<open>cmd_bytes\<close> were copied, for the device \<open>m\<close>.\<close>

definition k_dispatch ::
  "kenv \<Rightarrow> kern \<Rightarrow> UINT32 \<Rightarrow> kdevice \<Rightarrow> mem_func \<Rightarrow> UINT32 \<Rightarrow> UINT32 \<Rightarrow> fn_ptr \<Rightarrow> (AM_RETURN \<times> kern) res" where
  "k_dispatch e k m d f cmd_bytes opc fp =
     (let cmd = kn_cmd k;
          read = (\<lambda>p2. bindr (k_align_read fp (kd_flags d) (kn_um k) f (drop 4 cmd) p2) (\<lambda>(st, f, um).
                   Inr (st, (k_put_func m f k)\<lparr>kn_um := um\<rparr>)));
          write = (\<lambda>p2. bindr (k_align_write fp (ke_al e) f (drop 4 cmd) p2) (\<lambda>(st, f).
                   Inr (st, k_put_func m f k)))
      in
      if IS_OP_ALIGNED opc then
        if opc AND 1 \<noteq> 0 then bindr (rd64 cmd 8) (\<lambda>p2. read p2)
        else write (drop 8 cmd)
      else if IS_OP_PACKET opc then
        if opc AND 1 \<noteq> 0 then
          if ucast (kd_rd_pack_size d) \<le> cmd_bytes
          then bindr (rd64 cmd (4 + 4 * unat (cr_pack_DataOffset (fn_crResp f)))) (\<lambda>rdptr. read rdptr)
          else Inr (MINUS_ENOTTY, k)
        else
          if ucast (kd_wr_pack_size d) \<le> cmd_bytes then write (drop (4 + 4 * unat (kd_pack_DataOffset d)) cmd)
          else Inr (MINUS_ENOTTY, k)
      else k_config fp e k f)"

text \<open>
  \<open>appmemd_ioctl\<close> on the device \<open>m\<close>. The number in \<open>cmd\<close> says how much is copied: eight bytes more than
  it counts, up to 264, into a command of 256 bytes. A copy that fails is answered by 0.
\<close>

definition appmemd_ioctl :: "kenv \<Rightarrow> kern \<Rightarrow> UINT32 \<Rightarrow> UINT32 \<Rightarrow> UINT64 \<Rightarrow> (AM_RETURN \<times> kern) res" where
  "appmemd_ioctl e k m cmd arg =
     (if drop_bit 8 cmd AND 0xFF \<noteq> APPMEMD_IOC_MAGIC then Inr (MINUS_ENOTTY, k)
      else
        let nr = cmd AND 0xFF in
        if APPMEMD_IOC_MAXNR < nr then Inr (MINUS_ENOTTY, k)
        else
          let cmd_bytes = nr * 8 + 8 in
          if arg = 0 then Inr (0, k)
          else
            case kn_devs k m of
              None \<Rightarrow> Inl UseAfterFree
            | Some d \<Rightarrow>
                (case kd_func d of
                   None \<Rightarrow> Inr (MINUS_ENOTTY, k)
                 | Some f \<Rightarrow>
                     (case copy_from_user (kn_um k) arg (unat cmd_bytes) of
                        (b, ok) \<Rightarrow>
                          bindr (putb (kn_cmd k) 0 b) (\<lambda>c.
                          let k = k\<lparr>kn_cmd := c\<rparr> in
                          if \<not> ok then Inr (0, k)
                          else
                            bindr (rd32 c 0) (\<lambda>opc.
                            bindr (case fn_pfnOps f of None \<Rightarrow> Inl NullDeref
                                     | Some ops \<Rightarrow> op_entry ops (ucast (AM_OPCODE opc))) (\<lambda>entry.
                            case entry of
                              None \<Rightarrow> Inr (MINUS_ENOTTY, k)
                            | Some fp \<Rightarrow> k_dispatch e k m d f cmd_bytes opc fp))))))"

text \<open>The other operations of the device file but \<^verbatim>\<open>mmap\<close>: none does anything.\<close>

definition appmemd_open :: AM_RETURN where "appmemd_open = 0"
definition appmemd_read :: UINT64 where "appmemd_read = 0"
definition appmemd_write :: UINT64 where "appmemd_write = 0"
definition appmemd_llseek :: UINT64 where "appmemd_llseek = 0"
definition appmemd_release :: AM_RETURN where "appmemd_release = 0"

section \<open>Initialisation\<close>

text \<open>
  \<open>appmemd_init\<close> announces that every registered type can be mapped, without comparing the entry with
  null, and makes the base device. \<open>result\<close> is what \<^verbatim>\<open>alloc_chrdev_region\<close> returns, with the major number
  \<open>major\<close>. \<open>al 0\<close> is the class, \<open>al 1\<close> the node, \<open>al 2\<close> the devices, \<open>al 3\<close> the operator table, \<open>al 4\<close> the
  function.
\<close>

definition k_announce :: "function_entry \<Rightarrow> function_entry res" where
  "k_announce fe = (case fe_pCap fe of None \<Rightarrow> Inl NullDeref
     | Some c \<Rightarrow> Inr (fe\<lparr>fe_pCap := Some (c\<lparr>cap_access_flags := cap_access_flags c OR AM_CAP_AC_FLAG_PACK_MMAP\<rparr>)\<rparr>))"

fun k_announce_all :: "nat \<Rightarrow> nat \<Rightarrow> registry \<Rightarrow> registry res" where
  "k_announce_all 0 i reg = Inr reg"
| "k_announce_all (Suc n) i reg =
     (if i = 0 then k_announce_all n (Suc i) reg
      else case reg ! i of
        None \<Rightarrow> Inl NullDeref
      | Some fe \<Rightarrow> bindr (k_announce fe) (\<lambda>fe. k_announce_all n (Suc i) (reg[i := Some fe])))"

definition k_base_ops :: "fn_ptr option list" where
  "k_base_ops = zero_ops[unat AM_OP_GET_CAP_COUNT := Some Fn_k_get_cap_count,
     unat AM_OP_GET_CAP := Some Fn_k_get_capabilites, unat AM_OP_CREATE_FUNC := Some Fn_k_create_function,
     unat AM_OP_GET_CAP_DETAILS := Some Fn_k_get_cap_details]"

definition appmemd_init :: "kenv \<Rightarrow> AM_RETURN \<Rightarrow> UINT32 \<Rightarrow> registry \<Rightarrow> umem \<Rightarrow> (AM_RETURN \<times> kern) res" where
  "appmemd_init e result major reg um =
     bindr (k_announce_all (unat (cap_subType virtd_base_cap)) 0 reg) (\<lambda>reg.
     let al = ke_al e;
         k = \<lparr>kn_reg = reg, kn_major = major, kn_minor = 0, kn_devs = \<lambda>_. None, kn_head = [],
              kn_cmd = replicate sizeof_CMD_U 0, kn_um = um\<rparr>
     in
     if sint result < 0 then Inr (result, k\<lparr>kn_minor := 1\<rparr>)
     else if \<not> al 0 \<or> \<not> al 1 then Inr (- 1, k)
     else if \<not> al 2 then Inr (MINUS_ENOMEM, k\<lparr>kn_minor := 1\<rparr>)
     else if \<not> al 3 \<or> \<not> al 4 then Inl NullDeref
     else
       let f = (ke_func e)\<lparr>fn_amType := AM_TYPE_BASE_APPMEM, fn_pfnOps := Some k_base_ops\<rparr>;
           d = \<lparr>kd_func = Some f, kd_amType = AM_TYPE_BASE_APPMEM, kd_devt = MKDEV major 0,
                kd_am_name = replicate 64 0, kd_pack_DataOffset = 0, kd_wr_pack_size = 0,
                kd_rd_pack_size = 0, kd_flags = 0\<rparr>
       in Inr (result, k\<lparr>kn_minor := 1, kn_devs := (\<lambda>_. None)(0 \<mapsto> d)\<rparr>))"

section \<open>Unloading\<close>

text \<open>\<open>appmemd_release_device\<close> frees the function object, the operator table and the device.\<close>

definition appmemd_release_device :: "kern \<Rightarrow> UINT32 \<Rightarrow> AM_RETURN \<times> kern" where
  "appmemd_release_device k m = (AM_RET_GOOD, k\<lparr>kn_devs := (kn_devs k)(m := None)\<rparr>)"

text \<open>
  The release operator of a device, which is called with a null command. A device without a function has an
  empty table.
\<close>

definition k_release_op :: "kdevice \<Rightarrow> unit res" where
  "k_release_op d =
     (case kd_func d of
        None \<Rightarrow> Inr ()
      | Some f \<Rightarrow>
          (case fn_pfnOps f of
             None \<Rightarrow> Inl NullDeref
           | Some ops \<Rightarrow>
               (case ops ! unat AM_OP_RELEASE_FUNC of
                  None \<Rightarrow> Inr ()
                | Some Fn_targ_release \<Rightarrow> Inr ()
                | _ \<Rightarrow> Inl BadCall)))"

text \<open>
  \<open>appmemd_exit\<close>, the threads aside. The second answer are the function objects freed, as they were then: what
  their \<open>pVdF\<close> points to is not freed with them.
\<close>

fun k_exit_list :: "UINT32 list \<Rightarrow> kern \<Rightarrow> (kern \<times> mem_func list) res" where
  "k_exit_list [] k = Inr (k, [])"
| "k_exit_list (m # ms) k =
     (case kn_devs k m of
        None \<Rightarrow> Inl UseAfterFree
      | Some d \<Rightarrow>
          bindr (k_release_op d) (\<lambda>_.
          bindr (k_exit_list ms (snd (appmemd_release_device k m))) (\<lambda>(k, fs).
          Inr (k, (case kd_func d of None \<Rightarrow> fs | Some f \<Rightarrow> f # fs)))))"

definition appmemd_exit :: "kern \<Rightarrow> (kern \<times> mem_func list) res" where
  "appmemd_exit k =
     bindr (k_exit_list (kn_head k) k) (\<lambda>(k, fs).
     Inr (snd (appmemd_release_device (k\<lparr>kn_head := []\<rparr>) 0), fs))"

end
