(* ===== verification/AM_Kmap.thy ===== *)
theory AM_Kmap
  imports AM_Kernel
begin

text \<open>
  The command page of a device of the kernel module, shared with the process that mapped it: the thread of
  \<^verbatim>\<open>appmemk/appmemk.c\<close> (lines 127 to 301) that polls it, and the client of \<^verbatim>\<open>appmemlib/appmem_kd.c\<close> (lines
  379 to 553). The client puts a request into the page and moves \<open>mapPi\<close>; the thread serves it and
  moves \<open>mapCi\<close> after it.
\<close>

abbreviation (input) AM_K_MAP_PI_START :: UINT32 where "AM_K_MAP_PI_START \<equiv> 0xAA3EBB11"
abbreviation (input) AM_K_MAP_CI_START :: UINT32 where "AM_K_MAP_CI_START \<equiv> 0x74000001"
abbreviation (input) AM_MAP_STATE_SYNCED :: UINT32 where "AM_MAP_STATE_SYNCED \<equiv> 0xBABAD000"

text \<open>\<open>DEVICE_MMAP\<close>\<close>

record dev_mmap =
  dm_Pi :: UINT32
  dm_Ci :: UINT32
  dm_State :: UINT32
  dm_Control :: UINT32
  dm_Tx :: bytes
  dm_Rx :: bytes

text \<open>The device as its thread sees it.\<close>

record kmap =
  km_page :: dev_mmap
  km_isMapped :: bool
  km_func :: "mem_func option"
  km_flags :: UINT32

section \<open>The thread\<close>

text \<open>
  The page the fault handler makes: cleared, with a test string at its start. Without memory for it the
  handler clears through a null pointer. The answer says whether the thread was made.
\<close>

definition fault_page :: dev_mmap where
  "fault_page = (let s = c_bytes ''BRANDON TEST'' in
     \<lparr>dm_Pi = le_dec (take 4 s), dm_Ci = le_dec (take 4 (drop 4 s)), dm_State = le_dec (drop 8 s),
      dm_Control = 0, dm_Tx = replicate MAX_BASIC_PACK_UNION_SIZE 0, dm_Rx = replicate MAX_BASIC_PACK_UNION_SIZE 0\<rparr>)"

definition appmemd_vma_fault :: "alloc \<Rightarrow> kdevice \<Rightarrow> (kmap \<times> bool) res" where
  "appmemd_vma_fault al d =
     (if \<not> al 0 then Inl NullDeref
      else Inr (\<lparr>km_page = fault_page, km_isMapped = True, km_func = kd_func d, km_flags = kd_flags d\<rparr>, al 1))"

text \<open>
  The dispatcher on the device's function. The module's \<open>am_targ_open\<close> sets no length, so that an open
  request has no defined answer here.
\<close>

definition opens :: "mem_func \<Rightarrow> bytes \<Rightarrow> bool" where
  "opens f rx = (case (fn_pfnOps f, rd8 rx off_op, rd8 rx off_packType) of
     (Some ops, Inr opc, Inr t) \<Rightarrow> op_entry ops opc = Inr (Some Fn_targ_open) \<and> t = ucast AM_PACK_TYPE_OPCODE_ONLY
   | _ \<Rightarrow> False)"

definition k_process_cmd ::
  "alloc \<Rightarrow> (nat \<Rightarrow> UINT8) \<Rightarrow> mem_func \<Rightarrow> bytes \<Rightarrow> bytes \<Rightarrow> (AM_RETURN \<times> mem_func \<times> bytes \<times> bytes \<times> UINT32) res" where
  "k_process_cmd al junk f rx resp =
     (if opens f rx then Inl Uninit
      else
        bindr (am_pack_process_cmd al junk \<lparr>tg_table = [Live f], tg_reg = empty_registry\<rparr> (Some 0) rx resp)
          (\<lambda>(st, g, rx, resp, tx). bindr (tbl_get g 0) (\<lambda>f. Inr (st, f, rx, resp, tx))))"

definition set_page :: "(dev_mmap \<Rightarrow> dev_mmap) \<Rightarrow> kmap \<Rightarrow> kmap" where
  "set_page g m = m\<lparr>km_page := g (km_page m)\<rparr>"

text \<open>Where the thread is: at its start, between its two stores, in its two loops, or before the store of \<open>mapCi\<close>.\<close>

datatype kthread = T_start | T_start_ci | T_sync | T_run | T_ack | T_exit

text \<open>
  One step of the thread. The function is compared with null only in name: the test of line 146 compares
  the device again.
\<close>

fun k_thread_step :: "alloc \<Rightarrow> (nat \<Rightarrow> UINT8) \<Rightarrow> kthread \<Rightarrow> kmap \<Rightarrow> (kthread \<times> kmap) res" where
  "k_thread_step al junk T_start m =
     (if \<not> km_isMapped m then Inr (T_exit, m)
      else Inr (T_start_ci, set_page (\<lambda>p. p\<lparr>dm_Pi := AM_K_MAP_PI_START\<rparr>) m))"
| "k_thread_step al junk T_start_ci m = Inr (T_sync, set_page (\<lambda>p. p\<lparr>dm_Ci := AM_K_MAP_CI_START\<rparr>) m)"
| "k_thread_step al junk T_sync m =
     (if km_isMapped m \<and> dm_Pi (km_page m) \<noteq> dm_Ci (km_page m) then Inr (T_sync, m)
      else if km_func m = None then Inl NullDeref
      else Inr (T_run, (set_page (\<lambda>p. p\<lparr>dm_State := AM_MAP_STATE_SYNCED\<rparr>) m)
                         \<lparr>km_flags := km_flags m OR AM_FUNC_DATA_FLAG_MMAPPED\<rparr>))"
| "k_thread_step al junk T_run m =
     (if \<not> km_isMapped m then Inr (T_exit, m)
      else if dm_Pi (km_page m) = dm_Ci (km_page m) then Inr (T_run, m)
      else
        case km_func m of
          None \<Rightarrow> Inl NullDeref
        | Some f \<Rightarrow>
            bindr (k_process_cmd al junk f (dm_Tx (km_page m)) (dm_Rx (km_page m))) (\<lambda>(st, f, rx, resp, tx).
            Inr (T_ack, (set_page (\<lambda>p. p\<lparr>dm_Tx := rx, dm_Rx := resp\<rparr>) m)\<lparr>km_func := Some f\<rparr>)))"
| "k_thread_step al junk T_ack m = Inr (T_run, set_page (\<lambda>p. p\<lparr>dm_Ci := dm_Pi p\<rparr>) m)"
| "k_thread_step al junk T_exit m = Inr (T_exit, m)"

fun k_thread_steps :: "nat \<Rightarrow> alloc \<Rightarrow> (nat \<Rightarrow> UINT8) \<Rightarrow> kthread \<Rightarrow> kmap \<Rightarrow> (kthread \<times> kmap) res" where
  "k_thread_steps 0 al junk th m = Inr (th, m)"
| "k_thread_steps (Suc n) al junk th m = bindr (k_thread_step al junk th m) (\<lambda>(th, m). k_thread_steps n al junk th m)"

section \<open>The client's transport\<close>

text \<open>
  \<open>AM_MMAP\<close> of the client's function object. Its transaction points into the page; \<open>fm_pMMap\<close> says
  whether the page is mapped.
\<close>

record am_mmap =
  fm_pMMap :: bool
  fm_uPI :: UINT32
  fm_map_size :: UINT32
  fm_map_flags :: UINT32
  fm_resp_bytes :: UINT32

record kpack =
  kp_map :: am_mmap
  kp_th :: kthread
  kp_dev :: kmap

definition kp_iop :: "kpack \<Rightarrow> iop" where
  "kp_iop s = \<lparr>iop_pTx = dm_Tx (km_page (kp_dev s)), iop_pRx = Some (dm_Rx (km_page (kp_dev s))),
     iop_tag = 0, iop_done = 0, iop_resp_bytes = fm_resp_bytes (kp_map s)\<rparr>"

text \<open>
  The client waits for \<open>mapCi\<close> to reach \<open>uPI\<close> while the thread runs. A thread that is at its loop needs two
  steps for a request; with \<open>mapCi\<close> still behind after that the wait does not end.
\<close>

definition kp_wait :: "alloc \<Rightarrow> (nat \<Rightarrow> UINT8) \<Rightarrow> kpack \<Rightarrow> kpack res" where
  "kp_wait al junk s =
     (if dm_Ci (km_page (kp_dev s)) = fm_uPI (kp_map s) then Inr s
      else
        bindr (k_thread_steps 2 al junk (kp_th s) (kp_dev s)) (\<lambda>(th, m).
        if dm_Ci (km_page m) = fm_uPI (kp_map s) then Inr (s\<lparr>kp_th := th, kp_dev := m\<rparr>) else Inl NoReturn))"

definition am_kpack_get_free_req :: "alloc \<Rightarrow> (nat \<Rightarrow> UINT8) \<Rightarrow> kpack \<Rightarrow> (iop \<times> kpack) res" where
  "am_kpack_get_free_req al junk s =
     bindr (AM_ASSERT (fm_pMMap (kp_map s))) (\<lambda>_.
     bindr (kp_wait al junk s) (\<lambda>s. Inr (kp_iop s, s)))"

definition am_kpack_send_and_wait ::
  "alloc \<Rightarrow> (nat \<Rightarrow> UINT8) \<Rightarrow> kpack \<Rightarrow> iop \<Rightarrow> UINT32 \<Rightarrow> UINT32 \<Rightarrow> (AM_RETURN \<times> iop \<times> kpack) res" where
  "am_kpack_send_and_wait al junk s pIop tx_size timeOutMs =
     bindr (AM_ASSERT (fm_pMMap (kp_map s))) (\<lambda>_.
     let uPI = fm_uPI (kp_map s) + 1;
         s = s\<lparr>kp_map := (kp_map s)\<lparr>fm_uPI := uPI\<rparr>,
               kp_dev := set_page (\<lambda>p. p\<lparr>dm_Tx := iop_pTx pIop, dm_Pi := uPI\<rparr>) (kp_dev s)\<rparr>
     in
     bindr (kp_wait al junk s) (\<lambda>s.
     let rx = dm_Rx (km_page (kp_dev s)) in
     bindr (rd8 rx off_packType) (\<lambda>t.
     bindr (if t AND AM_FUNC_PACK_TYPE_FLAG_ERR \<noteq> 0 then rd32 rx off_status else Inr AM_RET_GOOD) (\<lambda>error.
     bindr (rd16 rx off_size) (\<lambda>sz.
     let s = s\<lparr>kp_map := (kp_map s)\<lparr>fm_resp_bytes := ucast sz\<rparr>\<rparr> in
     Inr (error, kp_iop s, s))))))"

text \<open>The accessor \<open>am_kd_open\<close> puts into a function object.\<close>

definition kpack_pkac :: "alloc \<Rightarrow> (nat \<Rightarrow> UINT8) \<Rightarrow> kpack pkac" where
  "kpack_pkac al junk =
     \<lparr>pk_get_free_iop = (\<lambda>s. case am_kpack_get_free_req al junk s of
                              Inr (pIop, s) \<Rightarrow> (Some pIop, s) | Inl e \<Rightarrow> (None, s)),
      pk_send_and_wait = am_kpack_send_and_wait al junk\<rparr>"

section \<open>Opening a device\<close>

text \<open>
  The client looks for the two start values up to 15 times, sleeping in between; the thread takes \<open>sch i\<close>
  steps during the \<open>i\<close>-th sleep. It then sets \<open>mapPi\<close> to \<open>mapCi\<close> and waits for the state, the thread
  taking one step at a time: at most \<open>fuel\<close> of them, after which the wait counts as endless.
\<close>

fun kd_sync :: "nat \<Rightarrow> (nat \<Rightarrow> nat) \<Rightarrow> nat \<Rightarrow> alloc \<Rightarrow> (nat \<Rightarrow> UINT8) \<Rightarrow> kthread \<Rightarrow> kmap \<Rightarrow> (bool \<times> kthread \<times> kmap) res" where
  "kd_sync 0 sch i al junk th m = Inr (False, th, m)"
| "kd_sync (Suc n) sch i al junk th m =
     (if dm_Pi (km_page m) = AM_K_MAP_PI_START \<and> dm_Ci (km_page m) = AM_K_MAP_CI_START then Inr (True, th, m)
      else bindr (k_thread_steps (sch i) al junk th m) (\<lambda>(th, m). kd_sync n sch (Suc i) al junk th m))"

fun kd_wait_synced :: "nat \<Rightarrow> alloc \<Rightarrow> (nat \<Rightarrow> UINT8) \<Rightarrow> kthread \<Rightarrow> kmap \<Rightarrow> (kthread \<times> kmap) res" where
  "kd_wait_synced 0 al junk th m = Inl NoReturn"
| "kd_wait_synced (Suc n) al junk th m =
     (if dm_State (km_page m) = AM_MAP_STATE_SYNCED then Inr (th, m)
      else bindr (k_thread_step al junk th m) (\<lambda>(th, m). kd_wait_synced n al junk th m))"

text \<open>
  \<open>am_kd_open\<close>. \<open>fd\<close> is what \<^verbatim>\<open>open\<close> returns for the path \<^verbatim>\<open>/dev/\<close> and the name in \<open>crResp\<close>, \<open>mapped\<close> the device
  with its new page if \<^verbatim>\<open>mmap\<close> succeeds. The accessor is set only after the two sides are in step; in all
  other cases the function is left to its \<open>ioctl\<close> operators, and the status is the same.
\<close>

definition c_string :: "bytes \<Rightarrow> bytes" where
  "c_string b = takeWhile (\<lambda>x. x \<noteq> 0) b"

definition am_kd_open ::
  "alloc \<Rightarrow> (nat \<Rightarrow> UINT8) \<Rightarrow> (nat \<Rightarrow> nat) \<Rightarrow> nat \<Rightarrow> UINT32 \<Rightarrow> (kthread \<times> kmap) option \<Rightarrow> mem_func \<Rightarrow> am_mmap \<Rightarrow>
   (AM_RETURN \<times> mem_func \<times> am_mmap \<times> (kthread \<times> kmap) option) res" where
  "am_kd_open al junk sch fuel fd mapped f fm =
     bindr (putb (replicate 64 0) 0 (c_bytes ''/dev/'' @ c_string (cr_am_name (fn_crResp f)) @ [0])) (\<lambda>full_path.
     if sint fd > - 1 then
       let f = f\<lparr>fn_handle := fd\<rparr> in
       if fm_map_flags fm AND AM_CAP_AC_FLAG_PACK_MMAP \<noteq> 0 then
         case mapped of
           None \<Rightarrow> Inr (AM_RET_GOOD, f, fm, None)
         | Some (th, m) \<Rightarrow>
             let fm = fm\<lparr>fm_pMMap := True, fm_map_size := 4096, fm_resp_bytes := 0\<rparr> in
             bindr (kd_sync 15 sch 0 al junk th m) (\<lambda>(ok, th, m).
             if ok then
               let m = set_page (\<lambda>p. p\<lparr>dm_Pi := dm_Ci p\<rparr>) m in
               bindr (kd_wait_synced fuel al junk th m) (\<lambda>(th, m).
               let fm = fm\<lparr>fm_uPI := dm_Ci (km_page m)\<rparr> in
               bindr (am_set_pack_access f) (\<lambda>(st, f).
               Inr (AM_RET_GOOD, f\<lparr>fn_send_and_wait := True, fn_get_free_iop := True\<rparr>, fm, Some (th, m))))
             else Inr (AM_RET_GOOD, f, fm, Some (th, m)))
       else Inr (AM_RET_GOOD, f, fm, None)
     else Inr (AM_RET_INVALID_HDL, f, fm, None))"

definition am_kd_close :: AM_RETURN where
  "am_kd_close = AM_RET_GOOD"

end
