(* ===== verification/AM_Kmap_Props.thy ===== *)
theory AM_Kmap_Props
  imports AM_Link AM_Kmap
begin

text \<open>
  The command page at work. It is an accessor with a dispatcher behind it, so that a device of the kernel
  module is read and written through it; opening a device brings the two sides in step; and whatever the
  order in which the client and the thread of the module take their steps, the client gets the answers that
  serving its requests one after the other gives.
\<close>

section \<open>The page as a link\<close>

text \<open>Client and thread in step: no request is under way.\<close>

definition kp_ready :: "kpack \<Rightarrow> bool" where
  "kp_ready s \<longleftrightarrow> fm_pMMap (kp_map s) \<and> kp_th s = T_run \<and> km_isMapped (kp_dev s) \<and> km_func (kp_dev s) \<noteq> None \<and>
     dm_Pi (km_page (kp_dev s)) = fm_uPI (kp_map s) \<and> dm_Ci (km_page (kp_dev s)) = fm_uPI (kp_map s) \<and>
     length (dm_Tx (km_page (kp_dev s))) = 512 \<and> length (dm_Rx (km_page (kp_dev s))) = 512"

definition kp_func :: "kpack \<Rightarrow> mem_func" where
  "kp_func s = the (km_func (kp_dev s))"

definition one_slot :: "mem_func \<Rightarrow> targ" where
  "one_slot f = \<lparr>tg_table = [Live f], tg_reg = empty_registry\<rparr>"

lemma one_slot_simps [simp]:
  "tbl_get (one_slot f) 0 = Inr f" "tbl_set (one_slot f) 0 (Live f') = one_slot f'" "one_slot f = one_slot f' \<longleftrightarrow> f = f'"
  by (simp_all add: one_slot_def tbl_get_def tbl_set_def)

lemma k_process_cmd_eq:
  assumes "\<not> opens f rx" "am_pack_process_cmd al junk (one_slot f) (Some 0) rx resp = Inr (st, one_slot f', rx', resp', tx)"
  shows "k_process_cmd al junk f rx resp = Inr (st, f', rx', resp', tx)"
  using assms by (simp add: k_process_cmd_def flip: one_slot_def)

lemma kpack_pkac_simps [simp]: "pk_send_and_wait (kpack_pkac al junk) = am_kpack_send_and_wait al junk"
  by (simp add: kpack_pkac_def)

lemma set_page_simps [simp]:
  "km_page (set_page g m) = g (km_page m)" "km_isMapped (set_page g m) = km_isMapped m"
  "km_func (set_page g m) = km_func m" "km_flags (set_page g m) = km_flags m"
  by (simp_all add: set_page_def)

text \<open>One request: the thread serves it in two steps.\<close>

lemma kpack_round_trip:
  assumes s: "kp_ready s" and l: "length (iop_pTx pIop) = 512" "\<not> opens (kp_func s) (iop_pTx pIop)"
    and cmd: "am_pack_process_cmd al junk (one_slot (kp_func s)) (Some 0) (iop_pTx pIop) (dm_Rx (km_page (kp_dev s))) =
      Inr (st, one_slot f', iop_pTx pIop, enc_wrapper w @ p, tx)" "length p = 504"
    and w: "(if w_packType w AND AM_FUNC_PACK_TYPE_FLAG_ERR \<noteq> 0 then rd32 p 0 else Inr AM_RET_GOOD) = Inr error"
  shows "\<exists>s'. am_kpack_send_and_wait al junk s pIop tx_size tmo = Inr (error, kp_iop s', s') \<and> kp_ready s' \<and>
    kp_func s' = f' \<and> dm_Rx (km_page (kp_dev s')) = enc_wrapper w @ p \<and> fm_resp_bytes (kp_map s') = ucast (w_size w)"
proof -
  define u where "u = fm_uPI (kp_map s) + 1"
  define m where "m = set_page (\<lambda>p. p\<lparr>dm_Tx := iop_pTx pIop, dm_Pi := u\<rparr>) (kp_dev s)"
  define m1 where "m1 = (set_page (\<lambda>q. q\<lparr>dm_Tx := iop_pTx pIop, dm_Rx := enc_wrapper w @ p\<rparr>) m)\<lparr>km_func := Some f'\<rparr>"
  define m2 where "m2 = set_page (\<lambda>p. p\<lparr>dm_Ci := dm_Pi p\<rparr>) m1"
  have th: "kp_th s = T_run" and fm: "fm_pMMap (kp_map s)" using s by (simp_all add: kp_ready_def)
  have f: "km_func (kp_dev s) = Some (kp_func s)" using s by (auto simp: kp_ready_def kp_func_def)
  have ne: "dm_Pi (km_page m) \<noteq> dm_Ci (km_page m)" using s by (simp add: m_def u_def kp_ready_def)
  have "k_thread_step al junk T_run m = Inr (T_ack, m1)"
    using s ne f k_process_cmd_eq [OF l(2) cmd(1)] by (simp add: m_def m1_def kp_ready_def)
  then have steps: "k_thread_steps 2 al junk T_run m = Inr (T_run, m2)" by (simp add: m2_def numeral_2_eq_2)
  define s2 where "s2 = s\<lparr>kp_map := (kp_map s)\<lparr>fm_uPI := u\<rparr>, kp_dev := m2\<rparr>"
  have "dm_Ci (km_page m) \<noteq> u" using s by (simp add: m_def u_def kp_ready_def)
  moreover have "dm_Ci (km_page m2) = u" by (simp add: m2_def m1_def m_def)
  ultimately have wait: "kp_wait al junk (s\<lparr>kp_map := (kp_map s)\<lparr>fm_uPI := u\<rparr>, kp_dev := m\<rparr>) = Inr s2"
    using steps th by (simp add: kp_wait_def s2_def)
  have rx: "dm_Rx (km_page m2) = enc_wrapper w @ p" by (simp add: m2_def m1_def)
  let ?s = "s2\<lparr>kp_map := (kp_map s2)\<lparr>fm_resp_bytes := ucast (w_size w)\<rparr>\<rparr>"
  have "am_kpack_send_and_wait al junk s pIop tx_size tmo = Inr (error, kp_iop ?s, ?s)"
    using fm wait w rx
    by (simp add: am_kpack_send_and_wait_def AM_ASSERT_def u_def [symmetric] m_def [symmetric])
      (auto simp: s2_def wrap_simps Let_def split: if_splits)
  moreover have "kp_ready ?s" using s l cmd(2) by (simp add: kp_ready_def s2_def m2_def m1_def m_def)
  ultimately show ?thesis using rx by (intro exI [of _ ?s]) (simp add: kp_func_def s2_def m2_def m1_def)
qed

lemma kpack_free:
  assumes "kp_ready s"
  shows "free_iop (kpack_pkac al junk) s = Inr (kp_iop s, s)"
  using assms
  by (simp add: free_iop_def kpack_pkac_def am_kpack_get_free_req_def AM_ASSERT_def kp_wait_def kp_ready_def)

lemma packet_opens: "w_packType w = 3 \<Longrightarrow> \<not> opens f (enc_wrapper w @ p)"
  by (auto simp: opens_def wrap_simps split: option.splits)

interpretation kpack_link:
  pack_link "kpack_pkac al junk" kp_ready kp_ready "\<lambda>s. one_slot (kp_func s)" 0 al junk "\<lambda>_ _. True" "\<lambda>_. True"
  for al junk
proof
  fix s :: kpack assume s: "kp_ready s"
  then obtain w where w: "dm_Tx (km_page (kp_dev s)) = enc_wrapper w @ drop 8 (dm_Tx (km_page (kp_dev s)))"
    using wrapper_cases [of "dm_Tx (km_page (kp_dev s))"] by (auto simp: kp_ready_def)
  then show "\<exists>w pay pIop s1. free_iop (kpack_pkac al junk) s = Inr (pIop, s1) \<and>
      iop_pTx pIop = enc_wrapper w @ pay \<and> True \<and> length pay = 504 \<and> kp_ready s1 \<and> one_slot (kp_func s1) = one_slot (kp_func s)"
    using kpack_free [OF s] s
    by (intro exI [of _ w] exI [of _ "drop 8 (dm_Tx (km_page (kp_dev s)))"] exI [of _ "kp_iop s"] exI [of _ s])
      (simp add: kp_iop_def kp_ready_def)
next
  fix s :: kpack and pIop :: iop and w :: pack_wrapper and body rest ans :: bytes
    and tx_size tx tmo error :: UINT32 and P :: "mem_func \<Rightarrow> bool"
  assume s: "kp_ready s" and pTx: "iop_pTx pIop = enc_wrapper w @ body @ rest" "length (body @ rest) = 504"
    and w: "w_packType w = 3"
    and cmd: "\<And>stale resp. length stale = 504 - length body \<Longrightarrow> length resp = 512 \<Longrightarrow>
        \<exists>p' f'. am_pack_process_cmd al junk (one_slot (kp_func s)) (Some 0) (enc_wrapper w @ body @ stale) resp =
          Inr (error, tbl_set (one_slot (kp_func s)) 0 (Live f'), enc_wrapper w @ body @ stale,
            enc_wrapper (reply_wrap w error tx) @ ans @ p', tx) \<and> length (ans @ p') = 504 \<and> P f'"
    and ans: "unat tx = 8 + length ans" and err: "error \<noteq> AM_RET_GOOD \<Longrightarrow> ans = le_enc 4 error"
  have rest: "length rest = 504 - length body" "length (dm_Rx (km_page (kp_dev s))) = 512"
    using pTx(2) s by (simp_all add: kp_ready_def)
  obtain p' f' where c: "am_pack_process_cmd al junk (one_slot (kp_func s)) (Some 0) (iop_pTx pIop) (dm_Rx (km_page (kp_dev s))) =
      Inr (error, one_slot f', iop_pTx pIop, enc_wrapper (reply_wrap w error tx) @ ans @ p', tx)" "length (ans @ p') = 504" "P f'"
    using cmd [OF rest] unfolding pTx(1) by (auto simp del: append_assoc)
  have l: "length (iop_pTx pIop) = 512" "\<not> opens (kp_func s) (iop_pTx pIop)"
    using pTx w by (simp_all add: packet_opens)
  have st: "(if w_packType (reply_wrap w error tx) AND AM_FUNC_PACK_TYPE_FLAG_ERR \<noteq> 0 then rd32 (ans @ p') 0
      else Inr AM_RET_GOOD) = Inr error"
    using w err by (auto simp: rd32_def rd_in_bounds)
  have "unat tx < 2 ^ 16" using ans c(2) by simp
  then have "ucast (ucast tx :: UINT16) = tx"
    by (simp add: word_unat_eq_iff unsigned_ucast_eq unsigned_take_bit_eq take_bit_nat_eq_self)
  moreover have "tx = 12" if "error \<noteq> AM_RET_GOOD" using ans err [OF that] by (simp add: word_unat_eq_iff)
  ultimately have sz: "ucast (w_size (reply_wrap w error tx)) = tx" by (simp add: reply_wrap_def resp_wrap_def err_wrap_def)
  from kpack_round_trip [OF s l c(1,2) st, of tx_size tmo, unfolded sz] c(3)
  show "\<exists>s' pIop' rest' f'. pk_send_and_wait (kpack_pkac al junk) s pIop tx_size tmo = Inr (error, pIop', s') \<and>
      kp_ready s' \<and> one_slot (kp_func s') = tbl_set (one_slot (kp_func s)) 0 (Live f') \<and> P f' \<and>
      iop_pRx pIop' = Some (enc_wrapper (reply_wrap w error tx) @ ans @ rest') \<and> iop_resp_bytes pIop' = tx"
    by (auto simp: kp_iop_def)
qed

section \<open>A mapped device\<close>

text \<open>
  A device used through its page: \<open>md_F\<close> is the client's function object. It keeps the contract of the
  device behind the page.
\<close>

record mapped_dev =
  md_F :: mem_func
  md_al :: alloc
  md_junk :: "nat \<Rightarrow> UINT8"
  md_kp :: kpack

definition mapped_read :: "mapped_dev \<Rightarrow> buf \<Rightarrow> buf \<Rightarrow> (AM_RETURN \<times> mapped_dev \<times> buf) res" where
  "mapped_read r p1 p2 =
     bindr (am_pack_read32_align (kpack_pkac (md_al r) (md_junk r)) (md_kp r) (Some (md_F r)) p1 p2) (\<lambda>(st, p2, s).
     Inr (st, r\<lparr>md_kp := s\<rparr>, p2))"

definition mapped_write :: "mapped_dev \<Rightarrow> buf \<Rightarrow> buf \<Rightarrow> (AM_RETURN \<times> mapped_dev \<times> buf) res" where
  "mapped_write r p1 p2 =
     bindr (am_pack_write32_align (kpack_pkac (md_al r) (md_junk r)) (md_kp r) (Some (md_F r)) p1 p2) (\<lambda>(st, s).
     Inr (st, r\<lparr>md_kp := s\<rparr>, p2))"

definition mapped_ok :: "fn_ptr \<Rightarrow> fn_ptr \<Rightarrow> mapped_dev \<Rightarrow> bool" where
  "mapped_ok rdf wrf r \<longleftrightarrow> kp_ready (md_kp r) \<and> dev_ok rdf wrf (kp_func (md_kp r)) \<and>
     fn_pEntry (md_F r) \<and> fn_get_free_iop (md_F r) \<and> fn_send_and_wait (md_F r)"

definition mapped_store :: "(mem_func \<Rightarrow> bytes) \<Rightarrow> mapped_dev \<Rightarrow> bytes" where
  "mapped_store store r = store (kp_func (md_kp r))"

definition mapped_cell ::
  "fn_ptr \<Rightarrow> fn_ptr \<Rightarrow> (mem_func \<Rightarrow> bytes \<Rightarrow> nat option) \<Rightarrow> mapped_dev \<Rightarrow> bytes \<Rightarrow> nat option" where
  "mapped_cell rdf wrf cell r k = (if mapped_ok rdf wrf r then cell (kp_func (md_kp r)) k else None)"

lemma mapped_cell_Some:
  assumes "mapped_cell rdf wrf cell r k = Some q"
  shows "mapped_ok rdf wrf r" "cell (kp_func (md_kp r)) k = Some q" "kp_ready (md_kp r)" "dev_ok rdf wrf (kp_func (md_kp r))"
    "pack_asserts (Some (md_F r)) = Inr (md_F r)"
  using assms by (auto simp: mapped_cell_def mapped_ok_def pack_asserts_def split: if_splits)

lemma mapped_next:
  assumes "mapped_cell rdf wrf cell r k = Some q" "kp_ready s" "cell (kp_func s) = cell (kp_func (md_kp r))"
    "fn_pfnOps (kp_func s) = fn_pfnOps (kp_func (md_kp r))" "fn_crResp (kp_func s) = fn_crResp (kp_func (md_kp r))"
  shows "mapped_cell rdf wrf cell (r\<lparr>md_kp := s\<rparr>) = mapped_cell rdf wrf cell r"
  using mapped_cell_Some(1) [OF assms(1)] assms(2-5)
  by (intro ext) (simp add: mapped_cell_def mapped_ok_def dev_ok_def)

context packet_device
begin

lemma kmap_linked:
  assumes "pack_asserts (Some F) = Inr F"
  shows "linked_device rdf wrf store cell (kpack_pkac al junk) kp_ready kp_ready (\<lambda>s. one_slot (kp_func s)) 0 al junk
    (\<lambda>_ _. True) (\<lambda>_. True) F"
  by (intro linked_device.intro linked_device_axioms.intro packet_device_axioms kpack_link.pack_link_axioms assms)

lemma mapped_read_ok:
  assumes c: "mapped_cell rdf wrf cell r k = Some q" and d: "4 \<le> length d"
  shows "\<exists>r'. mapped_read r (Some k) (Some d) =
      Inr (AM_RET_GOOD, r', Some (take 4 (drop q (mapped_store store r)) @ drop 4 d)) \<and>
    mapped_store store r' = mapped_store store r \<and> mapped_cell rdf wrf cell r' = mapped_cell rdf wrf cell r"
proof -
  note r = mapped_cell_Some [OF c]
  obtain s where s: "am_pack_read32_align (kpack_pkac (md_al r) (md_junk r)) (md_kp r) (Some (md_F r)) (Some k) (Some d) =
      Inr (AM_RET_GOOD, Some (take 4 (drop q (store (kp_func (md_kp r)))) @ drop 4 d), s)" "kp_ready s"
    "store (kp_func s) = store (kp_func (md_kp r))" "cell (kp_func s) = cell (kp_func (md_kp r))"
    "fn_pfnOps (kp_func s) = fn_pfnOps (kp_func (md_kp r))" "fn_crResp (kp_func s) = fn_crResp (kp_func (md_kp r))"
    using linked_device.read_link [OF kmap_linked [OF r(5), of "md_al r" "md_junk r"] r(3) TrueI one_slot_simps(1) r(4,2) d]
    by auto
  show ?thesis
    using s mapped_next [OF c s(2,4-6)]
    by (intro exI [of _ "r\<lparr>md_kp := s\<rparr>"]) (simp add: mapped_read_def mapped_store_def)
qed

lemma mapped_write_ok:
  assumes c: "mapped_cell rdf wrf cell r k = Some q" and d: "4 \<le> length d"
  shows "\<exists>r'. mapped_write r (Some k) (Some d) = Inr (AM_RET_GOOD, r', Some d) \<and>
    mapped_store store r' = splice_at (mapped_store store r) q (take 4 d) \<and>
    mapped_cell rdf wrf cell r' = mapped_cell rdf wrf cell r"
proof -
  note r = mapped_cell_Some [OF c]
  obtain s where s: "am_pack_write32_align (kpack_pkac (md_al r) (md_junk r)) (md_kp r) (Some (md_F r)) (Some k) (Some d) =
      Inr (AM_RET_GOOD, s)" "kp_ready s"
    "store (kp_func s) = splice_at (store (kp_func (md_kp r))) q (take 4 d)" "cell (kp_func s) = cell (kp_func (md_kp r))"
    "fn_pfnOps (kp_func s) = fn_pfnOps (kp_func (md_kp r))" "fn_crResp (kp_func s) = fn_crResp (kp_func (md_kp r))"
    using linked_device.write_link [OF kmap_linked [OF r(5), of "md_al r" "md_junk r"] r(3) TrueI one_slot_simps(1) r(4,2) d]
    by auto
  show ?thesis
    using s mapped_next [OF c s(2,4-6)]
    by (intro exI [of _ "r\<lparr>md_kp := s\<rparr>"]) (simp add: mapped_write_def mapped_store_def)
qed

end

sublocale packet_device \<subseteq> mapped:
  aligned_device mapped_read mapped_write "mapped_store store" "mapped_cell rdf wrf cell"
proof
  fix r k p assume "mapped_cell rdf wrf cell r k = Some p"
  from mapped_cell_Some(2) [OF this] show "p + 4 \<le> length (mapped_store store r)"
    unfolding mapped_store_def by (rule cell_bound)
qed (rule mapped_read_ok mapped_write_ok; assumption)+

section \<open>Opening\<close>

text \<open>The thread and its page after \<open>c\<close> steps, while the client has not answered.\<close>

fun sync_at :: "kmap \<Rightarrow> nat \<Rightarrow> kthread \<times> kmap" where
  "sync_at m 0 = (T_start, m)"
| "sync_at m (Suc 0) = (T_start_ci, set_page (\<lambda>p. p\<lparr>dm_Pi := AM_K_MAP_PI_START\<rparr>) m)"
| "sync_at m (Suc (Suc c)) =
     (T_sync, set_page (\<lambda>p. p\<lparr>dm_Pi := AM_K_MAP_PI_START, dm_Ci := AM_K_MAP_CI_START\<rparr>) m)"

lemma sync_step:
  assumes "km_isMapped m"
  shows "k_thread_step al junk (fst (sync_at m c)) (snd (sync_at m c)) = Inr (sync_at m (Suc c))"
  using assms by (cases "(m, c)" rule: sync_at.cases) (simp_all add: set_page_def)

lemma sync_steps:
  assumes "km_isMapped m"
  shows "k_thread_steps n al junk (fst (sync_at m c)) (snd (sync_at m c)) = Inr (sync_at m (c + n))"
proof (induction n arbitrary: c)
  case 0
  then show ?case by simp
next
  case (Suc n)
  then show ?case using sync_step [OF assms, of al junk c] by (simp add: case_prod_beta)
qed

lemma sync_seen:
  assumes "dm_Ci (km_page m) \<noteq> AM_K_MAP_CI_START"
  shows "dm_Pi (km_page (snd (sync_at m c))) = AM_K_MAP_PI_START \<and> dm_Ci (km_page (snd (sync_at m c))) = AM_K_MAP_CI_START \<longleftrightarrow> 2 \<le> c"
  using assms by (cases "(m, c)" rule: sync_at.cases) simp_all

lemma sync_at_2: "2 \<le> c \<Longrightarrow> sync_at m c = sync_at m 2"
  by (cases "(m, c)" rule: sync_at.cases) (simp_all add: numeral_2_eq_2)

text \<open>The client sees the start values exactly if the thread gets two steps before its last look.\<close>

lemma kd_sync_eq:
  assumes m: "km_isMapped m" "dm_Ci (km_page m) \<noteq> AM_K_MAP_CI_START"
  shows "kd_sync (Suc n) sch i al junk (fst (sync_at m c)) (snd (sync_at m c)) =
    (if 2 \<le> c + sum sch {i..<i + n} then Inr (True, sync_at m 2)
     else Inr (False, sync_at m (c + sum sch {i..<i + Suc n})))"
proof (induction n arbitrary: i c)
  case 0
  then show ?case
    using sync_seen [OF m(2), of c] sync_steps [OF m(1), of "sch i" al junk c] sync_at_2 [of c m]
    by (auto simp: case_prod_beta)
next
  case (Suc n)
  have s: "sum sch {i..<i + Suc k} = sch i + sum sch {Suc i..<Suc i + k}" for k
    by (subst sum.atLeast_Suc_lessThan) auto
  show ?case
  proof (cases "2 \<le> c")
    case True
    then show ?thesis using sync_seen [OF m(2), of c] sync_at_2 [OF True, of m] by (simp add: case_prod_beta)
  next
    case False
    then have "kd_sync (Suc (Suc n)) sch i al junk (fst (sync_at m c)) (snd (sync_at m c)) =
        kd_sync (Suc n) sch (Suc i) al junk (fst (sync_at m (c + sch i))) (snd (sync_at m (c + sch i)))"
      using sync_seen [OF m(2), of c] sync_steps [OF m(1), of "sch i" al junk c]
      by (subst kd_sync.simps) (auto simp: case_prod_beta simp del: kd_sync.simps)
    then show ?thesis using Suc.IH [of "Suc i" "c + sch i"] s [of n] s [of "Suc n"] by (simp add: add.assoc)
  qed
qed

text \<open>The client answers, and waits until the thread has set the state.\<close>

lemma wait_synced:
  assumes "km_isMapped m" "km_func m = Some f" "dm_State (km_page m) \<noteq> AM_MAP_STATE_SYNCED" "2 \<le> fuel"
  shows "kd_wait_synced fuel al junk T_sync (set_page (\<lambda>p. p\<lparr>dm_Pi := dm_Ci p\<rparr>) m) =
    Inr (T_run, (set_page (\<lambda>p. p\<lparr>dm_Pi := dm_Ci p, dm_State := AM_MAP_STATE_SYNCED\<rparr>) m)\<lparr>km_flags := km_flags m OR AM_FUNC_DATA_FLAG_MMAPPED\<rparr>)"
proof -
  obtain n where "fuel = Suc (Suc n)" using assms(4) by (metis Suc_le_D numeral_2_eq_2 Suc_le_mono)
  then show ?thesis using assms by (simp add: set_page_def)
qed

lemma fault_page_simps:
  "dm_Ci fault_page \<noteq> AM_K_MAP_CI_START" "dm_State fault_page \<noteq> AM_MAP_STATE_SYNCED"
  "length (dm_Tx fault_page) = 512" "length (dm_Rx fault_page) = 512"
  by (simp_all add: fault_page_def Let_def c_bytes_def)

text \<open>
  \<open>am_kd_open\<close> on a device whose page was just made, by the time the thread gets its steps: with two steps before
  the client's last look the two end in step and the client has its accessor, with fewer it has none, and
  the status is the same.
\<close>

lemma kd_open_sync:
  assumes f: "length (c_string (cr_am_name (fn_crResp F))) \<le> 58" "sint fd > - 1" "fm_map_flags fm AND AM_CAP_AC_FLAG_PACK_MMAP \<noteq> 0"
    and m: "km_page m = fault_page" "km_isMapped m" "km_func m = Some f" and fuel: "2 \<le> fuel"
    and c: "fn_calls F = Some fc" "is_pack_op (cr_acOps (fn_crResp F) ! 0)" "is_pack_op (cr_acOps (fn_crResp F) ! 1)"
  shows "2 \<le> sum sch {..<14} \<Longrightarrow> \<exists>fm' m'. am_kd_open al junk sch fuel fd (Some (T_start, m)) F fm = Inr (AM_RET_GOOD,
      F\<lparr>fn_handle := fd, fn_calls := Some (fc\<lparr>fc_write_al := Some (pack_write_op (fn_crResp F)), fc_read_al := Some (pack_read_op (fn_crResp F))\<rparr>),
        fn_send_and_wait := True, fn_get_free_iop := True\<rparr>, fm', Some (T_run, m')) \<and>
      kp_ready \<lparr>kp_map = fm', kp_th = T_run, kp_dev = m'\<rparr> \<and> km_func m' = Some f \<and> km_flags m' = km_flags m OR AM_FUNC_DATA_FLAG_MMAPPED"
    and "sum sch {..<14} < 2 \<Longrightarrow> \<exists>fm' th. am_kd_open al junk sch fuel fd (Some (T_start, m)) F fm =
      Inr (AM_RET_GOOD, F\<lparr>fn_handle := fd\<rparr>, fm', th)"
proof -
  have len: "\<exists>b. putb (replicate 64 0) 0 (c_bytes ''/dev/'' @ c_string (cr_am_name (fn_crResp F)) @ [0]) = Inr b"
    using f(1) by (simp add: putb_in_bounds)
  note s = kd_sync_eq [where n = 14 and i = 0 and c = 0, OF m(2), simplified, of sch al junk]
  have e: "sum sch {0..<14} = sum sch {..<14}" by (simp add: atLeast0LessThan)
  { assume "2 \<le> sum sch {..<14}"
    then have ks: "kd_sync 15 sch 0 al junk T_start m = Inr (True, sync_at m 2)"
      using s m fault_page_simps(1) e by (simp add: eval_nat_numeral)
    define m1 where "m1 = snd (sync_at m 2)"
    have m1: "sync_at m 2 = (T_sync, m1)" "km_isMapped m1" "km_func m1 = Some f" "dm_State (km_page m1) \<noteq> AM_MAP_STATE_SYNCED"
      "km_flags m1 = km_flags m" "length (dm_Tx (km_page m1)) = 512" "length (dm_Rx (km_page m1)) = 512"
      using m fault_page_simps by (simp_all add: m1_def numeral_2_eq_2)
    note w = wait_synced [OF m1(2-4) fuel, of al junk]
    have sp: "am_set_pack_access (F\<lparr>fn_handle := fd\<rparr>) = Inr (AM_RET_GOOD, F\<lparr>fn_handle := fd,
        fn_calls := Some (fc\<lparr>fc_write_al := Some (pack_write_op (fn_crResp F)), fc_read_al := Some (pack_read_op (fn_crResp F))\<rparr>)\<rparr>)"
      using set_pack_access_calls [of "F\<lparr>fn_handle := fd\<rparr>" fc] c by simp
    show "\<exists>fm' m'. am_kd_open al junk sch fuel fd (Some (T_start, m)) F fm = Inr (AM_RET_GOOD,
      F\<lparr>fn_handle := fd, fn_calls := Some (fc\<lparr>fc_write_al := Some (pack_write_op (fn_crResp F)), fc_read_al := Some (pack_read_op (fn_crResp F))\<rparr>),
        fn_send_and_wait := True, fn_get_free_iop := True\<rparr>, fm', Some (T_run, m')) \<and>
      kp_ready \<lparr>kp_map = fm', kp_th = T_run, kp_dev = m'\<rparr> \<and> km_func m' = Some f \<and> km_flags m' = km_flags m OR AM_FUNC_DATA_FLAG_MMAPPED"
      using len f(2,3) ks m1 w sp unfolding am_kd_open_def Let_def by (auto simp: kp_ready_def) }
  { assume "sum sch {..<14} < 2"
    then obtain th m1 where "kd_sync 15 sch 0 al junk T_start m = Inr (False, th, m1)"
      using s m fault_page_simps(1) e by (cases "sync_at m (sum sch {0..<15})") (auto simp: eval_nat_numeral)
    then show "\<exists>fm' th. am_kd_open al junk sch fuel fd (Some (T_start, m)) F fm = Inr (AM_RET_GOOD, F\<lparr>fn_handle := fd\<rparr>, fm', th)"
      using len f(2,3) unfolding am_kd_open_def Let_def by auto }
qed

text \<open>
  C39: Opening a device and mapping its page, by the steps the thread takes while the client sleeps. With two steps
  before the client's last look, the wait ends, client and thread are in step, and the client has its accessor for the device
  and, in its block of calls, the packet operators for the sizes of the device. With fewer it has none; the status is \<open>AM_RET_GOOD\<close> either way.
\<close>

theorem am_kd_open_syncs:
  assumes "length (c_string (cr_am_name (fn_crResp F))) \<le> 58" "sint fd > - 1" "fm_map_flags fm AND AM_CAP_AC_FLAG_PACK_MMAP \<noteq> 0"
    and "appmemd_vma_fault al0 d = Inr (m, True)" "kd_func d = Some f" "2 \<le> fuel"
    and "fn_calls F = Some fc" "is_pack_op (cr_acOps (fn_crResp F) ! 0)" "is_pack_op (cr_acOps (fn_crResp F) ! 1)"
  shows "\<exists>F' fm' t. am_kd_open al junk sch fuel fd (Some (T_start, m)) F fm = Inr (AM_RET_GOOD, F', fm', t) \<and> fn_handle F' = fd \<and>
    (if 2 \<le> sum sch {..<14} then
       fn_get_free_iop F' \<and> fn_send_and_wait F' \<and> fn_calls F' = Some (fc\<lparr>fc_write_al := Some (pack_write_op (fn_crResp F)),
         fc_read_al := Some (pack_read_op (fn_crResp F))\<rparr>) \<and>
       (\<exists>m'. t = Some (T_run, m') \<and> kp_ready \<lparr>kp_map = fm', kp_th = T_run, kp_dev = m'\<rparr> \<and> km_func m' = Some f)
     else F' = F\<lparr>fn_handle := fd\<rparr>)"
proof -
  have m: "km_page m = fault_page" "km_isMapped m" "km_func m = Some f"
    using assms(4,5) by (auto simp: appmemd_vma_fault_def split: if_splits)
  note o = kd_open_sync [OF assms(1-3) m assms(6-9), of sch al junk]
  show ?thesis
  proof (cases "2 \<le> sum sch {..<14}")
    case True
    then show ?thesis using o(1) by fastforce
  next
    case False
    then show ?thesis using o(2) by force
  qed
qed

definition open_func :: mem_func where
  "open_func = zero_func\<lparr>fn_calls := Some zero_calls, fn_crResp := zero_cr\<lparr>cr_data_size := 4, cr_idx_size := 4,
     cr_acOps := [op_word AM_PACK_ALIGN AM_OP_WRITE_ALIGN, op_word AM_PACK_ALIGN AM_OP_READ_ALIGN]\<rparr>\<rparr>"

definition open_map :: am_mmap where
  "open_map = \<lparr>fm_pMMap = False, fm_uPI = 0, fm_map_size = 0, fm_map_flags = 1, fm_resp_bytes = 0\<rparr>"

definition open_dev :: kdevice where
  "open_dev = \<lparr>kd_func = Some demo_flat, kd_amType = 1, kd_devt = 1, kd_am_name = [], kd_pack_DataOffset = 0,
     kd_wr_pack_size = 0, kd_rd_pack_size = 0, kd_flags = 0\<rparr>"

lemma am_kd_open_syncs_witness:
  "\<exists>m F1 fm1 t1 fm2 t2. appmemd_vma_fault (\<lambda>_. True) open_dev = Inr (m, True) \<and>
    am_kd_open (\<lambda>_. True) (\<lambda>_. 0) (\<lambda>i. if i = 13 then 2 else 0) 2 4 (Some (T_start, m)) open_func open_map = Inr (0, F1, fm1, t1) \<and>
    fn_get_free_iop F1 \<and>
    am_kd_open (\<lambda>_. True) (\<lambda>_. 0) (\<lambda>i. if i = 14 then 9 else 0) 2 4 (Some (T_start, m)) open_func open_map =
      Inr (0, open_func\<lparr>fn_handle := 4\<rparr>, fm2, t2)"
proof -
  obtain m where m: "appmemd_vma_fault (\<lambda>_. True) open_dev = Inr (m, True)" by (simp add: appmemd_vma_fault_def)
  have f: "length (c_string (cr_am_name (fn_crResp open_func))) \<le> 58" "fn_calls open_func = Some zero_calls"
    "is_pack_op (cr_acOps (fn_crResp open_func) ! 0)" "is_pack_op (cr_acOps (fn_crResp open_func) ! 1)"
    "fm_map_flags open_map AND AM_CAP_AC_FLAG_PACK_MMAP \<noteq> 0" "kd_func open_dev = Some demo_flat"
    using pack_op_words by (simp_all add: open_func_def open_map_def open_dev_def c_string_def zero_cr_def cr_is_32_def)
  have "- 1 < sint (4 :: UINT32)" by simp
  note o = am_kd_open_syncs [OF f(1) this f(5) m f(6) order_refl f(2-4), of "\<lambda>_. True" "\<lambda>_. 0"]
  obtain F1 fm1 t1 where 1: "am_kd_open (\<lambda>_. True) (\<lambda>_. 0) (\<lambda>i. if i = 13 then 2 else 0) 2 4 (Some (T_start, m)) open_func open_map = Inr (0, F1, fm1, t1)"
    "fn_get_free_iop F1" using o [of "\<lambda>i. if i = 13 then 2 else 0"] by auto
  obtain fm2 t2 where 2: "am_kd_open (\<lambda>_. True) (\<lambda>_. 0) (\<lambda>i. if i = 14 then 9 else 0) 2 4 (Some (T_start, m)) open_func open_map =
      Inr (0, open_func\<lparr>fn_handle := 4\<rparr>, fm2, t2)" using o [of "\<lambda>i. if i = 14 then 9 else 0"] by auto
  from m 1 2 show ?thesis by blast
qed

end
