(* ===== verification/AM_Kmap_Steps.thy ===== *)
theory AM_Kmap_Steps
  imports AM_Kmap_Props
begin

text \<open>
  The command page with its two sides free to interleave: the client of \<^verbatim>\<open>appmemlib/appmem_kd.c\<close>
  (\<open>am_kpack_get_free_req\<close>, \<open>am_kpack_send_and_wait\<close>), which writes its request into the page byte by byte, and
  the thread of \<^verbatim>\<open>appmemk/appmemk.c\<close>. Neither takes a lock; the two counters are all that keeps them apart.
\<close>

section \<open>Steps\<close>

text \<open>
  Where the client is: before the wait for a free request, with \<open>n\<close> bytes of the request written, with
  \<open>uPI\<close> counted, and in the wait for the answer. \<open>kr_reqs\<close> are the requests left, the first one being the one
  under way, and \<open>kr_log\<close> the answers seen. A test that fails is no step of the client; a byte behind the
  buffer is not written.
\<close>

datatype kclient = C_get | C_fill nat | C_bell | C_wait

record kp_run =
  kr_pc :: kclient
  kr_reqs :: "bytes list"
  kr_log :: "bytes list"
  kr_kp :: kpack

abbreviation kr_page :: "kp_run \<Rightarrow> dev_mmap" where "kr_page s \<equiv> km_page (kp_dev (kr_kp s))"
abbreviation kr_uPI :: "kp_run \<Rightarrow> UINT32" where "kr_uPI s \<equiv> fm_uPI (kp_map (kr_kp s))"

definition on_page :: "(dev_mmap \<Rightarrow> dev_mmap) \<Rightarrow> kp_run \<Rightarrow> kp_run" where
  "on_page g s = s\<lparr>kr_kp := (kr_kp s)\<lparr>kp_dev := set_page g (kp_dev (kr_kp s))\<rparr>\<rparr>"

inductive kp_step :: "alloc \<Rightarrow> (nat \<Rightarrow> UINT8) \<Rightarrow> kp_run \<Rightarrow> kp_run \<Rightarrow> bool" for al junk where
  get: "kr_pc s = C_get \<Longrightarrow> kr_reqs s \<noteq> [] \<Longrightarrow> dm_Ci (kr_page s) = kr_uPI s \<Longrightarrow>
    kp_step al junk s (s\<lparr>kr_pc := C_fill 0\<rparr>)"
| fill: "kr_pc s = C_fill n \<Longrightarrow> n < length (hd (kr_reqs s)) \<Longrightarrow> n < length (dm_Tx (kr_page s)) \<Longrightarrow>
    kp_step al junk s ((on_page (\<lambda>p. p\<lparr>dm_Tx := (dm_Tx p)[n := hd (kr_reqs s) ! n]\<rparr>) s)\<lparr>kr_pc := C_fill (Suc n)\<rparr>)"
| uPI: "kr_pc s = C_fill (length (hd (kr_reqs s))) \<Longrightarrow>
    kp_step al junk s (s\<lparr>kr_pc := C_bell, kr_kp := (kr_kp s)\<lparr>kp_map := (kp_map (kr_kp s))\<lparr>fm_uPI := kr_uPI s + 1\<rparr>\<rparr>\<rparr>)"
| bell: "kr_pc s = C_bell \<Longrightarrow>
    kp_step al junk s ((on_page (\<lambda>p. p\<lparr>dm_Pi := kr_uPI s\<rparr>) s)\<lparr>kr_pc := C_wait\<rparr>)"
| wait: "kr_pc s = C_wait \<Longrightarrow> dm_Ci (kr_page s) = kr_uPI s \<Longrightarrow>
    kp_step al junk s (s\<lparr>kr_pc := C_get, kr_reqs := tl (kr_reqs s), kr_log := kr_log s @ [dm_Rx (kr_page s)]\<rparr>)"
| thread: "k_thread_step al junk (kp_th (kr_kp s)) (kp_dev (kr_kp s)) = Inr (th, m) \<Longrightarrow>
    kp_step al junk s (s\<lparr>kr_kp := (kr_kp s)\<lparr>kp_th := th, kp_dev := m\<rparr>\<rparr>)"

inductive_cases kp_stepE: "kp_step al junk s s'"

definition kp_begin :: "kpack \<Rightarrow> bytes list \<Rightarrow> kp_run" where
  "kp_begin k reqs = \<lparr>kr_pc = C_get, kr_reqs = reqs, kr_log = [], kr_kp = k\<rparr>"

section \<open>The sequential reference\<close>

text \<open>
  The requests served one after the other: each is laid over the transmit buffer, which must hold it, and
  handed to the dispatcher.
\<close>

type_synonym kserver = "mem_func \<times> bytes \<times> bytes"

definition lay :: "bytes \<Rightarrow> bytes \<Rightarrow> bytes" where
  "lay r tx = r @ drop (length r) tx"

definition kserve1 :: "alloc \<Rightarrow> (nat \<Rightarrow> UINT8) \<Rightarrow> kserver \<Rightarrow> bytes \<Rightarrow> kserver res" where
  "kserve1 al junk c r =
     (case c of (f, tx, rx) \<Rightarrow>
        if length r \<le> length tx
        then bindr (k_process_cmd al junk f (lay r tx) rx) (\<lambda>(st, f, tx, rx, n). Inr (f, tx, rx))
        else Inl OutOfBounds)"

fun kserve :: "alloc \<Rightarrow> (nat \<Rightarrow> UINT8) \<Rightarrow> kserver \<Rightarrow> bytes list \<Rightarrow> (bytes list \<times> kserver) res" where
  "kserve al junk c [] = Inr ([], c)"
| "kserve al junk c (r # rs) =
     bindr (kserve1 al junk c r) (\<lambda>c. bindr (kserve al junk c rs) (\<lambda>(log, c'). Inr (snd (snd c) # log, c')))"

lemma kserve_snoc:
  assumes "kserve al junk c rs = Inr (log, c1)" "kserve1 al junk c1 r = Inr c2"
  shows "kserve al junk c (rs @ [r]) = Inr (log @ [snd (snd c2)], c2)"
  using assms by (cases c2; induction rs arbitrary: c log) (auto simp: res_simps)

lemma kserve_append:
  "kserve al junk c (rs @ rs') = Inr (log, c2) \<Longrightarrow> \<exists>log1 c1 log2. kserve al junk c rs = Inr (log1, c1) \<and>
    kserve al junk c1 rs' = Inr (log2, c2) \<and> log = log1 @ log2"
proof (induction rs arbitrary: c log)
  case Nil
  then show ?case by simp
next
  case (Cons r rs)
  obtain c' log' where c': "kserve1 al junk c r = Inr c'" "kserve al junk c' (rs @ rs') = Inr (log', c2)"
    "log = snd (snd c') # log'"
    using Cons.prems by (auto simp: res_simps)
  from Cons.IH [OF c'(2)] c'(1,3) show ?case by auto
qed

section \<open>The invariant\<close>

text \<open>The thread at \<open>th\<close>, the counters of the page, and its contents.\<close>

definition page_is :: "kp_run \<Rightarrow> kthread \<Rightarrow> UINT32 \<Rightarrow> UINT32 \<Rightarrow> kserver \<Rightarrow> bool" where
  "page_is s th pi ci c \<longleftrightarrow> kp_th (kr_kp s) = th \<and> km_isMapped (kp_dev (kr_kp s)) \<and>
     dm_Pi (kr_page s) = pi \<and> dm_Ci (kr_page s) = ci \<and>
     (case c of (f, tx, rx) \<Rightarrow> km_func (kp_dev (kr_kp s)) = Some f \<and> dm_Tx (kr_page s) = tx \<and> dm_Rx (kr_page s) = rx)"

text \<open>With \<open>c\<close> what the answered requests left: what the page holds, by the place of the client.\<close>

fun kp_at :: "alloc \<Rightarrow> (nat \<Rightarrow> UINT8) \<Rightarrow> kserver \<Rightarrow> kp_run \<Rightarrow> kclient \<Rightarrow> bool" where
  "kp_at al junk c s C_get = page_is s T_run (kr_uPI s) (kr_uPI s) c"
| "kp_at al junk (f, tx, rx) s (C_fill n) = (kr_reqs s \<noteq> [] \<and> n \<le> length (hd (kr_reqs s)) \<and> n \<le> length tx \<and>
     page_is s T_run (kr_uPI s) (kr_uPI s) (f, take n (hd (kr_reqs s)) @ drop n tx, rx))"
| "kp_at al junk (f, tx, rx) s C_bell = (kr_reqs s \<noteq> [] \<and> length (hd (kr_reqs s)) \<le> length tx \<and>
     page_is s T_run (kr_uPI s - 1) (kr_uPI s - 1) (f, lay (hd (kr_reqs s)) tx, rx))"
| "kp_at al junk (f, tx, rx) s C_wait = (kr_reqs s \<noteq> [] \<and> length (hd (kr_reqs s)) \<le> length tx \<and>
     (page_is s T_run (kr_uPI s) (kr_uPI s - 1) (f, lay (hd (kr_reqs s)) tx, rx) \<or>
      (\<exists>c'. kserve1 al junk (f, tx, rx) (hd (kr_reqs s)) = Inr c' \<and>
        (page_is s T_ack (kr_uPI s) (kr_uPI s - 1) c' \<or> page_is s T_run (kr_uPI s) (kr_uPI s) c'))))"

definition kp_inv :: "alloc \<Rightarrow> (nat \<Rightarrow> UINT8) \<Rightarrow> kserver \<Rightarrow> bytes list \<Rightarrow> kp_run \<Rightarrow> bool" where
  "kp_inv al junk c0 reqs s \<longleftrightarrow> (\<exists>served c. reqs = served @ kr_reqs s \<and>
     kserve al junk c0 served = Inr (kr_log s, c) \<and> kp_at al junk c s (kr_pc s))"

lemma on_page_simps [simp]:
  "kr_page (on_page g s) = g (kr_page s)" "kr_uPI (on_page g s) = kr_uPI s" "kr_pc (on_page g s) = kr_pc s"
  "kr_reqs (on_page g s) = kr_reqs s" "kr_log (on_page g s) = kr_log s" "kp_th (kr_kp (on_page g s)) = kp_th (kr_kp s)"
  "km_isMapped (kp_dev (kr_kp (on_page g s))) = km_isMapped (kp_dev (kr_kp s))"
  "km_func (kp_dev (kr_kp (on_page g s))) = km_func (kp_dev (kr_kp s))"
  by (simp_all add: on_page_def)

text \<open>What a step of the thread does to the page, by where the thread is.\<close>

definition thread_to :: "kp_run \<Rightarrow> kthread \<Rightarrow> kmap \<Rightarrow> kp_run" where
  "thread_to s th m = s\<lparr>kr_kp := (kr_kp s)\<lparr>kp_th := th, kp_dev := m\<rparr>\<rparr>"

lemma thread_to_simps [simp]:
  "kr_uPI (thread_to s th m) = kr_uPI s" "kr_pc (thread_to s th m) = kr_pc s"
  "kr_reqs (thread_to s th m) = kr_reqs s" "kr_log (thread_to s th m) = kr_log s"
  by (simp_all add: thread_to_def)

lemma thread_idle:
  assumes "page_is s T_run u u c" "k_thread_step al junk (kp_th (kr_kp s)) (kp_dev (kr_kp s)) = Inr (th, m)"
  shows "thread_to s th m = s"
  using assms by (simp add: page_is_def thread_to_def)

lemma thread_serves:
  assumes "page_is s T_run u v (f, lay r tx, rx)" "u \<noteq> v" "length r \<le> length tx"
    and "k_thread_step al junk (kp_th (kr_kp s)) (kp_dev (kr_kp s)) = Inr (th, m)"
  shows "\<exists>c'. kserve1 al junk (f, tx, rx) r = Inr c' \<and> page_is (thread_to s th m) T_ack u v c'"
  using assms by (fastforce simp: page_is_def thread_to_def kserve1_def res_simps)

lemma thread_acks:
  assumes "page_is s T_ack u v c" "k_thread_step al junk (kp_th (kr_kp s)) (kp_dev (kr_kp s)) = Inr (th, m)"
  shows "page_is (thread_to s th m) T_run u u c"
  using assms by (auto simp: page_is_def thread_to_def)

lemma pred_neq: "(u :: UINT32) \<noteq> u - 1" "u - 1 \<noteq> u"
  by (metis add_cancel_right_right diff_add_cancel one_neq_zero)+

lemma fill_byte:
  assumes "n < length r" "n < length tx"
  shows "(take n r @ drop n tx)[n := r ! n] = take (Suc n) r @ drop (Suc n) tx"
  using assms by (auto simp: list_update_append take_Suc_conv_app_nth Cons_nth_drop_Suc [symmetric])

lemma thread_wait:
  assumes w: "kp_at al junk (f, tx, rx) s C_wait"
    and st: "k_thread_step al junk (kp_th (kr_kp s)) (kp_dev (kr_kp s)) = Inr (th, m)"
  shows "kp_at al junk (f, tx, rx) (thread_to s th m) C_wait"
proof -
  let ?u = "kr_uPI s" and ?r = "hd (kr_reqs s)"
  have len: "kr_reqs s \<noteq> []" "length ?r \<le> length tx" using w by auto
  consider (todo) "page_is s T_run ?u (?u - 1) (f, lay ?r tx, rx)"
    | (ack) c' where "kserve1 al junk (f, tx, rx) ?r = Inr c'" "page_is s T_ack ?u (?u - 1) c'"
    | (served) c' where "kserve1 al junk (f, tx, rx) ?r = Inr c'" "page_is s T_run ?u ?u c'"
    using w by auto
  then show ?thesis
  proof cases
    case todo
    then show ?thesis using thread_serves [OF todo pred_neq(1) len(2) st] len by auto
  next
    case ack
    then show ?thesis using thread_acks [OF ack(2) st] len by auto
  next
    case served
    then show ?thesis using thread_idle [OF served(2) st] w by simp
  qed
qed

lemma kp_inv_step:
  assumes "kp_inv al junk c0 reqs s" "kp_step al junk s s'"
  shows "kp_inv al junk c0 reqs s'"
proof -
  obtain served f tx rx where i: "reqs = served @ kr_reqs s" "kserve al junk c0 served = Inr (kr_log s, f, tx, rx)"
    "kp_at al junk (f, tx, rx) s (kr_pc s)"
    using assms(1) by (auto simp: kp_inv_def)
  have same: "kp_inv al junk c0 reqs t" if "kr_reqs t = kr_reqs s" "kr_log t = kr_log s" "kp_at al junk (f, tx, rx) t (kr_pc t)" for t
    using i that by (auto simp: kp_inv_def)
  from assms(2) show ?thesis
  proof cases
    case get
    then show ?thesis using i(3) by (intro same) (simp_all add: page_is_def)
  next
    case (fill n)
    then show ?thesis using i(3) by (intro same) (auto simp: page_is_def fill_byte)
  next
    case uPI
    then show ?thesis using i(3) by (intro same) (simp_all add: page_is_def lay_def)
  next
    case bell
    then show ?thesis using i(3) by (intro same) (simp_all add: page_is_def)
  next
    case wait
    then obtain c' where c': "kserve1 al junk (f, tx, rx) (hd (kr_reqs s)) = Inr c'" "page_is s T_run (kr_uPI s) (kr_uPI s) c'" "kr_reqs s \<noteq> []"
      using i(3) pred_neq [of "kr_uPI s"] by (auto simp: page_is_def)
    have "kserve al junk c0 (served @ [hd (kr_reqs s)]) = Inr (kr_log s @ [dm_Rx (kr_page s)], c')"
      using kserve_snoc [OF i(2) c'(1)] c'(2) by (auto simp: page_is_def split: prod.splits)
    moreover have "reqs = (served @ [hd (kr_reqs s)]) @ tl (kr_reqs s)" using i(1) c'(3) by simp
    moreover have "kp_at al junk c' s' C_get" using c'(2) wait(1) by (simp add: page_is_def)
    ultimately show ?thesis unfolding kp_inv_def using wait(1)
      by (intro exI [of _ "served @ [hd (kr_reqs s)]"] exI [of _ c']) simp
  next
    case (thread th m)
    have s': "s' = thread_to s th m" using thread(1) by (simp add: thread_to_def)
    show ?thesis
    proof (cases "kr_pc s = C_wait")
      case True
      then show ?thesis using thread_wait [OF _ thread(2)] i(3) unfolding s' by (intro same) simp_all
    next
      case False
      then obtain u c where "page_is s T_run u u c" using i(3) by (cases "kr_pc s") auto
      from thread_idle [OF this thread(2)] show ?thesis using assms(1) unfolding s' by simp
    qed
  qed
qed

lemma kp_inv_reach:
  assumes "(kp_step al junk)\<^sup>*\<^sup>* s s'" "kp_inv al junk c0 reqs s"
  shows "kp_inv al junk c0 reqs s'"
  using assms by (induction rule: rtranclp_induct) (auto intro: kp_inv_step)

lemma kp_inv_begin:
  assumes "kp_ready k"
  shows "kp_inv al junk (kp_func k, dm_Tx (km_page (kp_dev k)), dm_Rx (km_page (kp_dev k))) reqs (kp_begin k reqs)"
  using assms by (auto simp: kp_inv_def kp_begin_def page_is_def kp_ready_def kp_func_def)

section \<open>Progress\<close>

text \<open>The steps left, polls that change nothing aside.\<close>

definition kp_pos :: "kp_run \<Rightarrow> nat" where
  "kp_pos s = (let n = length (hd (kr_reqs s)) in
     case kr_pc s of
       C_get \<Rightarrow> 0
     | C_fill k \<Rightarrow> Suc k
     | C_bell \<Rightarrow> n + 2
     | C_wait \<Rightarrow> if kp_th (kr_kp s) = T_ack then n + 4 else if dm_Pi (kr_page s) \<noteq> dm_Ci (kr_page s) then n + 3 else n + 5)"

definition kp_left :: "kp_run \<Rightarrow> nat" where
  "kp_left s = sum_list (map (\<lambda>r. length r + 6) (kr_reqs s)) - kp_pos s"

lemma kp_left_less:
  assumes "kr_reqs s \<noteq> []" "kr_reqs s' = kr_reqs s" "kp_pos s < kp_pos s'" "kp_pos s' < length (hd (kr_reqs s)) + 6"
  shows "kp_left s' < kp_left s"
  using assms by (cases "kr_reqs s") (auto simp: kp_left_def)

lemma kp_work:
  assumes "kp_inv al junk c0 reqs s" "kp_step al junk s s'"
  shows "s' = s \<or> kp_left s' < kp_left s"
proof -
  obtain f tx rx where i: "kp_at al junk (f, tx, rx) s (kr_pc s)" using assms(1) by (auto simp: kp_inv_def)
  from assms(2) show ?thesis
  proof cases
    case get
    then show ?thesis by (intro disjI2 kp_left_less) (simp_all add: kp_pos_def)
  next
    case (fill n)
    then show ?thesis using i by (intro disjI2 kp_left_less) (simp_all add: kp_pos_def Let_def)
  next
    case uPI
    then show ?thesis using i by (intro disjI2 kp_left_less) (simp_all add: kp_pos_def Let_def)
  next
    case bell
    then show ?thesis using i by (intro disjI2 kp_left_less) (simp_all add: kp_pos_def Let_def page_is_def)
  next
    case wait
    then obtain c' r rs where "page_is s T_run (kr_uPI s) (kr_uPI s) c'" "kr_reqs s = r # rs"
      using i pred_neq [of "kr_uPI s"] by (cases "kr_reqs s") (auto simp: page_is_def)
    then show ?thesis using wait by (auto simp: kp_left_def kp_pos_def page_is_def)
  next
    case (thread th m)
    have s': "s' = thread_to s th m" using thread(1) by (simp add: thread_to_def)
    show ?thesis
    proof (cases "kr_pc s = C_wait")
      case False
      then obtain u c where "page_is s T_run u u c" using i by (cases "kr_pc s") auto
      from thread_idle [OF this thread(2)] show ?thesis unfolding s' by simp
    next
      case True
      let ?u = "kr_uPI s" and ?r = "hd (kr_reqs s)"
      have len: "kr_reqs s \<noteq> []" "length ?r \<le> length tx" using i True by auto
      consider (todo) "page_is s T_run ?u (?u - 1) (f, lay ?r tx, rx)"
        | (ack) c' where "page_is s T_ack ?u (?u - 1) c'" | (served) c' where "page_is s T_run ?u ?u c'"
        using i True by auto
      then show ?thesis
      proof cases
        case todo
        then show ?thesis using thread_serves [OF todo pred_neq(1) len(2) thread(2)] len True pred_neq [of ?u] unfolding s'
          by (intro disjI2 kp_left_less) (auto simp: kp_pos_def Let_def page_is_def)
      next
        case ack
        then show ?thesis using thread_acks [OF ack thread(2)] len True pred_neq [of ?u] unfolding s'
          by (intro disjI2 kp_left_less) (auto simp: kp_pos_def Let_def page_is_def)
      next
        case served
        then show ?thesis using thread_idle [OF served thread(2)] unfolding s' by simp
      qed
    qed
  qed
qed

lemma kp_next:
  assumes "kp_inv al junk c0 reqs s" "kserve al junk c0 reqs = Inr (log, c1)" "kr_reqs s \<noteq> []"
  shows "\<exists>s'. kp_step al junk s s' \<and> s' \<noteq> s"
proof -
  obtain served f tx rx where i: "reqs = served @ kr_reqs s" "kserve al junk c0 served = Inr (kr_log s, f, tx, rx)"
    "kp_at al junk (f, tx, rx) s (kr_pc s)"
    using assms(1) by (auto simp: kp_inv_def)
  obtain r rs where r: "kr_reqs s = r # rs" using assms(3) by (cases "kr_reqs s") auto
  obtain log1 where "kserve al junk (f, tx, rx) (r # rs) = Inr (log1, c1)"
    using kserve_append [of al junk c0 served "r # rs"] assms(2) i(1,2) r by auto
  then obtain c' where c': "kserve1 al junk (f, tx, rx) r = Inr c'" by (auto simp: res_simps)
  then have len: "length r \<le> length tx" by (auto simp: kserve1_def split: if_splits)
  have moves: ?thesis if "kp_step al junk s t" "kr_pc t \<noteq> kr_pc s \<or> kp_th (kr_kp t) \<noteq> kp_th (kr_kp s)" for t
    using that by (intro exI [of _ t]) auto
  show ?thesis
  proof (cases "kr_pc s")
    case C_get
    then have "kp_step al junk s (s\<lparr>kr_pc := C_fill 0\<rparr>)" using i(3) assms(3) by (intro kp_step.get) (simp_all add: page_is_def)
    from moves [OF this] show ?thesis using C_get by simp
  next
    case (C_fill n)
    show ?thesis
    proof (cases "n = length r")
      case True
      then have "kr_pc s = C_fill (length (hd (kr_reqs s)))" using C_fill r by simp
      from moves [OF kp_step.uPI [OF this]] show ?thesis using C_fill by simp
    next
      case False
      then have "n < length (hd (kr_reqs s))" "n < length (dm_Tx (kr_page s))"
        using i(3) C_fill r len by (auto simp: page_is_def)
      from moves [OF kp_step.fill [OF C_fill this]] show ?thesis using C_fill by simp
    qed
  next
    case C_bell
    from moves [OF kp_step.bell [OF this]] show ?thesis using C_bell by simp
  next
    case C_wait
    let ?u = "kr_uPI s"
    consider (todo) "page_is s T_run ?u (?u - 1) (f, lay r tx, rx)"
      | (ack) c' where "page_is s T_ack ?u (?u - 1) c'" | (served) c' where "page_is s T_run ?u ?u c'"
      using i(3) C_wait r by auto
    then show ?thesis
    proof cases
      case todo
      obtain st f' tx' rx' n where k: "k_process_cmd al junk f (lay r tx) rx = Inr (st, f', tx', rx', n)"
        using c' by (auto simp: kserve1_def res_simps split: if_splits)
      then obtain m where "k_thread_step al junk (kp_th (kr_kp s)) (kp_dev (kr_kp s)) = Inr (T_ack, m)"
        using todo pred_neq [of ?u] by (auto simp: page_is_def)
      from moves [OF kp_step.thread [OF this]] show ?thesis using todo by (simp add: page_is_def split: prod.splits)
    next
      case ack
      then obtain m where "k_thread_step al junk (kp_th (kr_kp s)) (kp_dev (kr_kp s)) = Inr (T_run, m)"
        by (auto simp: page_is_def)
      from moves [OF kp_step.thread [OF this]] show ?thesis using ack by (simp add: page_is_def split: prod.splits)
    next
      case served
      then have "dm_Ci (kr_page s) = kr_uPI s" by (simp add: page_is_def)
      from moves [OF kp_step.wait [OF C_wait this]] show ?thesis using C_wait by simp
    qed
  qed
qed

lemma kp_finish:
  assumes "kp_inv al junk c0 reqs s" "kserve al junk c0 reqs = Inr (log, c1)"
  shows "\<exists>s'. (kp_step al junk)\<^sup>*\<^sup>* s s' \<and> kr_reqs s' = [] \<and> kr_log s' = log"
  using assms(1)
proof (induction s rule: measure_induct_rule [of kp_left])
  case (less s)
  show ?case
  proof (cases "kr_reqs s = []")
    case True
    then show ?thesis using less.prems assms(2) by (auto simp: kp_inv_def)
  next
    case False
    obtain s1 where s1: "kp_step al junk s s1" "s1 \<noteq> s" using kp_next [OF less.prems assms(2) False] by blast
    then have "kp_left s1 < kp_left s" using kp_work [OF less.prems] by blast
    from less.IH [OF this kp_inv_step [OF less.prems s1(1)]] s1(1) show ?thesis
      by (blast intro: converse_rtranclp_into_rtranclp)
  qed
qed

section \<open>Properties\<close>

text \<open>
  C16: Whatever the order in which the client's and the thread's steps interleave, the answers the client has
  seen are those of its first requests served one after the other by the dispatcher: none is lost, repeated,
  reordered, or read before it is complete.
\<close>

theorem kpack_in_order:
  assumes "kp_ready k" "(kp_step al junk)\<^sup>*\<^sup>* (kp_begin k reqs) s"
  shows "\<exists>served c. reqs = served @ kr_reqs s \<and>
    kserve al junk (kp_func k, dm_Tx (km_page (kp_dev k)), dm_Rx (km_page (kp_dev k))) served = Inr (kr_log s, c)"
  using kp_inv_reach [OF assms(2) kp_inv_begin [OF assms(1)]] by (auto simp: kp_inv_def)

text \<open>
  C25: The two counters keep the sides apart. While the client is anywhere but in its wait, a step of the thread
  changes nothing; while the counters of the page differ, the client is in its wait, and its test fails.
\<close>

theorem kpack_exclusive:
  assumes "kp_ready k" "(kp_step al junk)\<^sup>*\<^sup>* (kp_begin k reqs) s"
  shows "(kr_pc s \<noteq> C_wait \<longrightarrow>
      k_thread_step al junk (kp_th (kr_kp s)) (kp_dev (kr_kp s)) = Inr (kp_th (kr_kp s), kp_dev (kr_kp s))) \<and>
    (dm_Pi (kr_page s) \<noteq> dm_Ci (kr_page s) \<longrightarrow> kr_pc s = C_wait \<and> dm_Ci (kr_page s) \<noteq> kr_uPI s)"
proof -
  obtain c where c: "kp_at al junk c s (kr_pc s)"
    using kp_inv_reach [OF assms(2) kp_inv_begin [OF assms(1)]] by (auto simp: kp_inv_def)
  obtain f tx rx where ft: "c = (f, tx, rx)" by (cases c)
  show ?thesis
  proof (cases "kr_pc s = C_wait")
    case True
    then show ?thesis using c ft pred_neq [of "kr_uPI s"] by (auto simp: page_is_def)
  next
    case False
    then obtain u c' where "page_is s T_run u u c'" using c ft by (cases "kr_pc s") auto
    then show ?thesis by (simp add: page_is_def)
  qed
qed

text \<open>
  C26: No request is stuck. If the requests can be served, then from every reachable state all of them can be
  answered; a step is the poll of a loop that changes nothing or brings the end nearer; and until the end there
  is a step that does.
\<close>

theorem kpack_progress:
  assumes "kp_ready k" "(kp_step al junk)\<^sup>*\<^sup>* (kp_begin k reqs) s"
    and "kserve al junk (kp_func k, dm_Tx (km_page (kp_dev k)), dm_Rx (km_page (kp_dev k))) reqs = Inr (log, c)"
  shows "(\<exists>s'. (kp_step al junk)\<^sup>*\<^sup>* s s' \<and> kr_reqs s' = [] \<and> kr_log s' = log) \<and>
    (\<forall>s'. kp_step al junk s s' \<longrightarrow> s' = s \<or> kp_left s' < kp_left s) \<and>
    (kr_reqs s \<noteq> [] \<longrightarrow> (\<exists>s'. kp_step al junk s s' \<and> kp_left s' < kp_left s))"
proof -
  note i = kp_inv_reach [OF assms(2) kp_inv_begin [OF assms(1)]]
  show ?thesis using kp_finish [OF i assms(3)] kp_work [OF i] kp_next [OF i assms(3)] by blast
qed

text \<open>A mapped device, its counters about to wrap, and a request that reads the second word.\<close>

definition demo_kpack :: "mem_func \<Rightarrow> kpack" where
  "demo_kpack f = \<lparr>kp_map = \<lparr>fm_pMMap = True, fm_uPI = - 1, fm_map_size = 4096, fm_map_flags = 1, fm_resp_bytes = 0\<rparr>,
     kp_th = T_run,
     kp_dev = \<lparr>km_page = \<lparr>dm_Pi = - 1, dm_Ci = - 1, dm_State = AM_MAP_STATE_SYNCED, dm_Control = 0,
       dm_Tx = replicate 512 0, dm_Rx = replicate 512 0\<rparr>, km_isMapped = True, km_func = Some f, km_flags = 1\<rparr>\<rparr>"

definition demo_wrap :: pack_wrapper where
  "demo_wrap = \<lparr>w_func_id = 3, w_packType = 3, w_op = 0x11, w_appTag = 0, w_size = 12\<rparr>"

lemma demo_kpack_simps [simp]:
  "kp_ready (demo_kpack f)" "kp_func (demo_kpack f) = f" "dm_Tx (km_page (kp_dev (demo_kpack f))) = replicate 512 0"
  "dm_Rx (km_page (kp_dev (demo_kpack f))) = replicate 512 0"
  by (simp_all add: kp_ready_def kp_func_def demo_kpack_def)

lemma demo_kserve:
  "\<exists>c. kserve al junk (demo_flat, replicate 512 0, replicate 512 0) [enc_wrapper demo_wrap @ [4, 0, 0, 0]] =
    Inr ([enc_wrapper (resp_wrap demo_wrap 12) @ [1, 1, 1, 1] @ replicate 500 0], c)"
proof -
  let ?p = "[4, 0, 0, 0] @ replicate 500 0 :: bytes"
  have st: "flat_store demo_flat = replicate 8 1" by (simp add: flat_store_def demo_flat_def demo_func_def)
  have c: "flat_cell demo_flat ?p = Some 4" by (simp add: flat_cell_def st)
  have op: "has_op (one_slot demo_flat) 0 demo_flat (w_op demo_wrap) (Some Fn_flat_read32_align)"
    by (simp add: has_op_def demo_wrap_def) (simp add: demo_flat_def demo_func_def demo_ops_def zero_ops_def)
  have w: "w_op demo_wrap = 0x11" "w_packType demo_wrap = 3" by (simp_all add: demo_wrap_def)
  have ds: "cr_data_size (fn_crResp demo_flat) = 4" by (simp add: demo_flat_def demo_func_def)
  have r4: "replicate 4 (1 :: UINT8) = [1, 1, 1, 1]" by (simp add: eval_nat_numeral)
  obtain f' where "am_pack_process_cmd al junk (one_slot demo_flat) (Some 0) (enc_wrapper demo_wrap @ ?p) (replicate 512 0) =
      Inr (AM_RET_GOOD, one_slot f', enc_wrapper demo_wrap @ ?p, enc_wrapper (resp_wrap demo_wrap 12) @ [1, 1, 1, 1] @ replicate 500 0, 12)"
    using flat_packets.served_read [OF op w ds c, of "replicate 512 0" al junk] by (auto simp: st r4)
  from k_process_cmd_eq [OF packet_opens [OF w(2)] this] show ?thesis by (simp add: kserve1_def lay_def)
qed

lemma demo_run:
  "\<exists>s. (kp_step al junk)\<^sup>*\<^sup>* (kp_begin (demo_kpack demo_flat) [enc_wrapper demo_wrap @ [4, 0, 0, 0]]) s \<and> kr_reqs s = [] \<and>
    kr_log s = [enc_wrapper (resp_wrap demo_wrap 12) @ [1, 1, 1, 1] @ replicate 500 0]"
proof -
  obtain c where c: "kserve al junk (demo_flat, replicate 512 0, replicate 512 0) [enc_wrapper demo_wrap @ [4, 0, 0, 0]] =
      Inr ([enc_wrapper (resp_wrap demo_wrap 12) @ [1, 1, 1, 1] @ replicate 500 0], c)" using demo_kserve by blast
  show ?thesis using kp_finish [OF kp_inv_begin [OF demo_kpack_simps(1)], of al junk demo_flat, unfolded demo_kpack_simps, OF c] .
qed

lemma kpack_in_order_witness:
  "\<exists>s c. (kp_step (\<lambda>_. True) (\<lambda>_. 0))\<^sup>*\<^sup>* (kp_begin (demo_kpack demo_flat) [enc_wrapper demo_wrap @ [4, 0, 0, 0]]) s \<and>
    kserve (\<lambda>_. True) (\<lambda>_. 0) (demo_flat, replicate 512 0, replicate 512 0) [enc_wrapper demo_wrap @ [4, 0, 0, 0]] = Inr (kr_log s, c) \<and>
    kr_log s = [enc_wrapper (resp_wrap demo_wrap 12) @ [1, 1, 1, 1] @ replicate 500 0]"
proof -
  obtain s where s: "(kp_step (\<lambda>_. True) (\<lambda>_. 0))\<^sup>*\<^sup>* (kp_begin (demo_kpack demo_flat) [enc_wrapper demo_wrap @ [4, 0, 0, 0]]) s"
    "kr_reqs s = []" "kr_log s = [enc_wrapper (resp_wrap demo_wrap 12) @ [1, 1, 1, 1] @ replicate 500 0]"
    using demo_run by blast
  from kpack_in_order [OF demo_kpack_simps(1) s(1), unfolded demo_kpack_simps s(2) append_Nil2] s(1,3) show ?thesis by blast
qed

lemma kpack_exclusive_witness:
  "\<exists>s. (kp_step (\<lambda>_. True) (\<lambda>_. 0))\<^sup>*\<^sup>* (kp_begin (demo_kpack demo_flat) [enc_wrapper demo_wrap @ [4, 0, 0, 0]]) s \<and>
    kr_pc s = C_fill 0 \<and> k_thread_step (\<lambda>_. True) (\<lambda>_. 0) (kp_th (kr_kp s)) (kp_dev (kr_kp s)) = Inr (kp_th (kr_kp s), kp_dev (kr_kp s))"
proof -
  let ?s = "kp_begin (demo_kpack demo_flat) [enc_wrapper demo_wrap @ [4, 0, 0, 0]]"
  have "kp_step (\<lambda>_. True) (\<lambda>_. 0) ?s (?s\<lparr>kr_pc := C_fill 0\<rparr>)"
    by (rule kp_step.get) (simp_all add: kp_begin_def demo_kpack_def)
  then have r: "(kp_step (\<lambda>_. True) (\<lambda>_. 0))\<^sup>*\<^sup>* ?s (?s\<lparr>kr_pc := C_fill 0\<rparr>)" by (rule r_into_rtranclp)
  from kpack_exclusive [OF demo_kpack_simps(1) r] r show ?thesis
    by (intro exI [of _ "?s\<lparr>kr_pc := C_fill 0\<rparr>"]) simp
qed

lemma kpack_progress_witness:
  "\<exists>s'. (kp_step (\<lambda>_. True) (\<lambda>_. 0))\<^sup>*\<^sup>* (kp_begin (demo_kpack demo_flat) [enc_wrapper demo_wrap @ [4, 0, 0, 0]]) s' \<and>
    kr_reqs s' = [] \<and> kr_log s' = [enc_wrapper (resp_wrap demo_wrap 12) @ [1, 1, 1, 1] @ replicate 500 0]"
proof -
  obtain c where c: "kserve (\<lambda>_. True) (\<lambda>_. 0) (demo_flat, replicate 512 0, replicate 512 0) [enc_wrapper demo_wrap @ [4, 0, 0, 0]] =
      Inr ([enc_wrapper (resp_wrap demo_wrap 12) @ [1, 1, 1, 1] @ replicate 500 0], c)" using demo_kserve by blast
  from kpack_progress [OF demo_kpack_simps(1) rtranclp.rtrancl_refl, of "\<lambda>_. True" "\<lambda>_. 0" demo_flat, unfolded demo_kpack_simps, OF c]
  show ?thesis by blast
qed

end
