(* ===== verification/AM_Keyed.thy ===== *)
theory AM_Keyed
  imports AM_Remote AM_Kmap_Props
begin

text \<open>
  The associative array behind packets. A client that inserts and looks up through packets drives the array of
  the target step by step: every transport is a simulation of the array (locale \<open>array_link\<close>), so a run of
  inserts and lookups gets the answers of a finite map.
\<close>

section \<open>Runs of inserts and lookups\<close>

datatype kop = Put bytes bytes | Get bytes bytes

text \<open>
  A run over any store: the status of every call and the data buffer it leaves.
\<close>

fun keyed_run ::
  "('s \<Rightarrow> bytes \<Rightarrow> bytes \<Rightarrow> (AM_RETURN \<times> 's \<times> bytes) res) \<Rightarrow> ('s \<Rightarrow> bytes \<Rightarrow> bytes \<Rightarrow> (AM_RETURN \<times> 's) res) \<Rightarrow>
   's \<Rightarrow> kop list \<Rightarrow> ((AM_RETURN \<times> bytes) list \<times> 's) res" where
  "keyed_run get put s [] = Inr ([], s)"
| "keyed_run get put s (Put k d # ops) =
     bindr (put s k d) (\<lambda>(st, s). bindr (keyed_run get put s ops) (\<lambda>(as, s). Inr ((st, d) # as, s)))"
| "keyed_run get put s (Get k d # ops) =
     bindr (get s k d) (\<lambda>(st, s, d). bindr (keyed_run get put s ops) (\<lambda>(as, s). Inr ((st, d) # as, s)))"

text \<open>What a finite map answers.\<close>

fun map_run :: "(bytes \<Rightarrow> bytes option) \<Rightarrow> kop list \<Rightarrow> (AM_RETURN \<times> bytes) list" where
  "map_run m [] = []"
| "map_run m (Put k d # ops) = (AM_RET_GOOD, d) # map_run (m(k \<mapsto> d)) ops"
| "map_run m (Get k d # ops) =
     (case m k of None \<Rightarrow> (AM_RET_KEY_NOT_FOUND, d) | Some v \<Rightarrow> (AM_RET_GOOD, v)) # map_run m ops"

text \<open>Keys and data have the sizes of the array, and no key is inserted a second time.\<close>

fun kops_ok :: "nat \<Rightarrow> nat \<Rightarrow> bytes set \<Rightarrow> kop list \<Rightarrow> bool" where
  "kops_ok kl vl ks [] = True"
| "kops_ok kl vl ks (Put k d # ops) = (length k = kl \<and> length d = vl \<and> k \<notin> ks \<and> kops_ok kl vl (insert k ks) ops)"
| "kops_ok kl vl ks (Get k d # ops) = (length k = kl \<and> length d = vl \<and> kops_ok kl vl ks ops)"

fun kop_puts :: "kop list \<Rightarrow> (bytes \<times> bytes) list" where
  "kop_puts [] = []"
| "kop_puts (Put k d # ops) = (k, d) # kop_puts ops"
| "kop_puts (Get k d # ops) = kop_puts ops"

section \<open>The array depends on the key and the data only\<close>

abbreviation klen :: "amlib_assca \<Rightarrow> nat" where "klen aa \<equiv> unat (aa_key_len aa)"
abbreviation vlen :: "amlib_assca \<Rightarrow> nat" where "vlen aa \<equiv> unat (aa_data_len aa)"

lemma getb_take:
  assumes "take n k' = take n k" "n \<le> length k" "n \<le> length k'"
  shows "getb k' 0 n = getb k 0 n"
  using assms by (simp add: getb_def)

lemma HASH_FIND_IN_BKT_take:
  assumes "take (unat n) k' = take (unat n) k" "unat n \<le> length k" "unat n \<le> length k'"
  shows "HASH_FIND_IN_BKT fuel es p k' n = HASH_FIND_IN_BKT fuel es p k n"
proof (induction fuel arbitrary: p)
  case 0
  then show ?case by (cases p) simp_all
next
  case (Suc fuel)
  then show ?case by (cases p) (simp_all add: getb_take [OF assms] cong: if_cong)
qed

lemma HASH_FIND_take:
  assumes "take (unat n) k' = take (unat n) k" "unat n \<le> length k" "unat n \<le> length k'"
  shows "HASH_FIND h k' n = HASH_FIND h k n"
  by (simp add: HASH_FIND_def getb_take [OF assms] HASH_FIND_IN_BKT_take [OF assms])

lemma assca_get_cong:
  assumes "amlib_assca_get_key_val aa k d = Inr (st, d1)" "klen aa \<le> length k" "vlen aa = length d"
    and "take (klen aa) k' = take (klen aa) k" "klen aa \<le> length k'" "vlen aa \<le> length d'"
  shows "(st = AM_RET_GOOD \<and> length d1 = vlen aa \<and> amlib_assca_get_key_val aa k' d' = Inr (AM_RET_GOOD, d1 @ drop (vlen aa) d')) \<or>
    (st = AM_RET_KEY_NOT_FOUND \<and> d1 = d \<and> amlib_assca_get_key_val aa k' d' = Inr (AM_RET_KEY_NOT_FOUND, d'))"
proof -
  note f = HASH_FIND_take [OF assms(4,2,5), of "aa_hash aa"]
  obtain r where r: "HASH_FIND (aa_hash aa) k (aa_key_len aa) = Inr r"
    using assms(1) by (auto simp: amlib_assca_get_key_val_def res_simps)
  show ?thesis
  proof (cases r)
    case None
    then show ?thesis using assms(1) r f by (simp add: amlib_assca_get_key_val_def)
  next
    case (Some a)
    then obtain e where e: "getel (uh_elems (aa_hash aa)) a = Inr e" "vlen aa \<le> length (ue_val e)" "st = AM_RET_GOOD"
      "d1 = take (vlen aa) (ue_val e)"
      using assms(1,3) r by (auto simp: amlib_assca_get_key_val_def memcpy_def res_simps)
    then show ?thesis using assms(6) r f Some
      by (simp add: amlib_assca_get_key_val_def memcpy_def getb_def putb_def)
  qed
qed

lemma assca_put_cong:
  assumes "take (klen aa) k' = take (klen aa) k" "klen aa \<le> length k" "klen aa \<le> length k'"
    and "take (vlen aa) d' = take (vlen aa) d" "vlen aa \<le> length d" "vlen aa \<le> length d'"
  shows "amlib_assca_add_key_fixfix al aa k' d' = amlib_assca_add_key_fixfix al aa k d"
  by (simp add: amlib_assca_add_key_fixfix_def getb_take [OF assms(1-3)] getb_take [OF assms(4-6)])

lemma assca_put_sizes:
  assumes "amlib_assca_add_key_fixfix al aa k d = Inr (st, aa')"
  shows "aa_key_len aa' = aa_key_len aa" "aa_data_len aa' = aa_data_len aa"
  using assms by (auto simp: amlib_assca_add_key_fixfix_def Let_def res_simps split: if_splits)

section \<open>A store that follows the array\<close>

locale array_link =
  fixes R :: "'s \<Rightarrow> amlib_assca \<Rightarrow> bool"
    and get :: "'s \<Rightarrow> bytes \<Rightarrow> bytes \<Rightarrow> (AM_RETURN \<times> 's \<times> bytes) res"
    and put :: "'s \<Rightarrow> bytes \<Rightarrow> bytes \<Rightarrow> (AM_RETURN \<times> 's) res"
  assumes get_sim: "R s aa \<Longrightarrow> length k = klen aa \<Longrightarrow> length d = vlen aa \<Longrightarrow>
      amlib_assca_get_key_val aa k d = Inr (st, d1) \<Longrightarrow> \<exists>s'. get s k d = Inr (st, s', d1) \<and> R s' aa"
    and put_sim: "R s aa \<Longrightarrow> length k = klen aa \<Longrightarrow> length d = vlen aa \<Longrightarrow>
      amlib_assca_add_key_fixfix (\<lambda>_. True) aa k d = Inr (AM_RET_GOOD, aa') \<Longrightarrow>
      \<exists>s'. put s k d = Inr (AM_RET_GOOD, s') \<and> R s' aa'"
begin

lemma run_map:
  assumes "R s aa" "assca_inv aa es" "distinct (map fst es)" "kops_ok (klen aa) (vlen aa) (fst ` set es) ops"
    and "room_for assca_room (amlib_assca_add_key_fixfix (\<lambda>_. True)) aa (kop_puts ops)"
  shows "\<exists>s' aa'. keyed_run get put s ops = Inr (map_run (map_of es) ops, s') \<and> R s' aa' \<and> assca_inv aa' (es @ kop_puts ops)"
  using assms
proof (induction ops arbitrary: s aa es)
  case Nil
  then show ?case by auto
next
  case (Cons op ops)
  show ?case
  proof (cases op)
    case (Get k d)
    have l: "length k = klen aa" "length d = vlen aa" and ok: "kops_ok (klen aa) (vlen aa) (fst ` set es) ops"
      using Cons.prems(4) Get by simp_all
    define a where "a = (case map_of es k of None \<Rightarrow> (AM_RET_KEY_NOT_FOUND, d) | Some v \<Rightarrow> (AM_RET_GOOD, v))"
    have "amlib_assca_get_key_val aa k d = Inr (fst a, snd a)"
      using assca.get_map [OF Cons.prems(2,3), of k d] l by (auto simp: a_def split: option.splits)
    then obtain s1 where s1: "get s k d = Inr (fst a, s1, snd a)" "R s1 aa"
      using get_sim [OF Cons.prems(1) l] by blast
    obtain s' aa' where "keyed_run get put s1 ops = Inr (map_run (map_of es) ops, s')" "R s' aa'" "assca_inv aa' (es @ kop_puts ops)"
      using Cons.IH [OF s1(2) Cons.prems(2,3) ok] Cons.prems(5) Get by auto
    then show ?thesis using s1(1) Get by (cases "map_of es k") (auto simp: a_def)
  next
    case (Put k d)
    have l: "length k = klen aa" "length d = vlen aa" "k \<notin> fst ` set es" "kops_ok (klen aa) (vlen aa) (insert k (fst ` set es)) ops"
      using Cons.prems(4) Put by simp_all
    have room: "assca_room aa" using Cons.prems(5) Put by simp
    obtain aa1 where aa1: "amlib_assca_add_key_fixfix (\<lambda>_. True) aa k d = Inr (AM_RET_GOOD, aa1)" "assca_inv aa1 (es @ [(k, d)])"
      "klen aa1 = klen aa" "vlen aa1 = vlen aa"
      using assca.put_ok [OF Cons.prems(2) room, of k d] l(1,2) by auto
    obtain s1 where s1: "put s k d = Inr (AM_RET_GOOD, s1)" "R s1 aa1"
      using put_sim [OF Cons.prems(1) l(1,2) aa1(1)] by blast
    have fresh: "distinct (map fst (es @ [(k, d)]))" "map_of (es @ [(k, d)]) = (map_of es)(k \<mapsto> d)"
      using Cons.prems(3) l(3) map_of_snoc [OF l(3)] by simp_all
    have ok: "kops_ok (klen aa1) (vlen aa1) (fst ` set (es @ [(k, d)])) ops" using l(4) aa1(3,4) by simp
    have "room_for assca_room (amlib_assca_add_key_fixfix (\<lambda>_. True)) aa1 (kop_puts ops)" using Cons.prems(5) Put aa1(1) by simp
    from Cons.IH [OF s1(2) aa1(2) fresh(1) ok this] show ?thesis using s1(1) Put fresh(2) by auto
  qed
qed

end

section \<open>Requests to the dispatcher\<close>

text \<open>The object in the slot is an array with its two operators, and key and data fit into a packet together.\<close>

definition assca_dev :: "mem_func \<Rightarrow> amlib_assca \<Rightarrow> bool" where
  "assca_dev f aa \<longleftrightarrow> assca_func f aa \<and> klen aa + vlen aa \<le> 504 \<and>
     cr_idx_size (fn_crResp f) = aa_key_len aa \<and> cr_data_size (fn_crResp f) = aa_data_len aa \<and>
     (\<exists>ops. fn_pfnOps f = Some ops \<and> length ops = AM_OP_MAX_OPS \<and>
       ops ! 16 = Some Fn_assca_write32_align \<and> ops ! 17 = Some Fn_assca_read32_align)"

lemma assca_dev_op:
  assumes "assca_dev f aa" "tbl_get g i = Inr f"
  shows "has_op g i f 0x10 (Some Fn_assca_write32_align)" "has_op g i f 0x11 (Some Fn_assca_read32_align)"
  using assms by (auto simp: assca_dev_def has_op_def)

lemma served_get:
  assumes f: "assca_dev f aa" "tbl_get g i = Inr f" and w: "w_op w = 0x11" "w_packType w = 3"
    and get: "amlib_assca_get_key_val aa k d = Inr (st, d1)" "length k = klen aa" "length d = vlen aa"
  obtains tx ans where "unat tx = 8 + length ans" "st = AM_RET_GOOD \<Longrightarrow> ans = d1 \<and> length d1 = vlen aa"
    "st \<noteq> AM_RET_GOOD \<Longrightarrow> ans = le_enc 4 st \<and> d1 = d"
    "\<And>p resp. take (klen aa) p = k \<Longrightarrow> length resp = 512 \<Longrightarrow>
      \<exists>p'. am_pack_process_cmd al junk g (Some i) (enc_wrapper w @ p) resp =
        Inr (st, tbl_set g i (Live f), enc_wrapper w @ p, enc_wrapper (reply_wrap w st tx) @ ans @ p', tx) \<and> length (ans @ p') = 504"
proof -
  have vl: "vlen aa \<le> 504" and cr: "cr_data_size (fn_crResp f) = aa_data_len aa" and af: "assca_func f aa"
    using f(1) by (simp_all add: assca_dev_def)
  have l: "take (klen aa) p = take (klen aa) k \<and> klen aa \<le> length p" if "take (klen aa) p = k" for p :: bytes
    using that get(2) by auto
  have op: "has_op g i f (w_op w) (Some Fn_assca_read32_align)" using assca_dev_op [OF f] w(1) by simp
  have cong: "(st = AM_RET_GOOD \<and> length d1 = vlen aa \<and> amlib_assca_get_key_val aa p (drop 8 resp) = Inr (AM_RET_GOOD, d1 @ drop (vlen aa) (drop 8 resp))) \<or>
      (st = AM_RET_KEY_NOT_FOUND \<and> d1 = d \<and> amlib_assca_get_key_val aa p (drop 8 resp) = Inr (AM_RET_KEY_NOT_FOUND, drop 8 resp))"
    if "take (klen aa) p = k" "length resp = 512" for p resp
    using assca_get_cong [OF get(1) _ _ conjunct1 [OF l] conjunct2 [OF l], OF _ _ that(1,1), of "drop 8 resp"] get(2,3) vl that(2) by simp
  have run: "run_func al junk g (Some i) (enc_wrapper w @ p) (resp_start w resp) =
      bindr (amlib_assca_get_key_val aa p (drop 8 resp)) (\<lambda>(st, b). Inr (st, tbl_set g i (Live f), enc_wrapper w @ p,
        enc_wrapper (w\<lparr>w_packType := w_packType w OR AM_FUNC_PACK_TYPE_FLAG_RESP\<rparr>) @ b, Some (8 + aa_data_len aa)))"
    if "length resp = 512" for p resp
    using op w that cr by (cases "amlib_assca_get_key_val aa p (drop 8 resp)")
      (auto simp: run_func_Some dispatch_def dispatch_align_def wrap_simps resp_start_def assca_func_read [OF af])
  show thesis
  proof (cases "st = AM_RET_GOOD")
    case True
    have "length (k @ replicate 512 0) = klen aa + 512" using get(2) by simp
    then have d1: "length d1 = vlen aa" using cong [of "k @ replicate 512 0" "replicate 512 0"] True get(2) by simp
    show thesis
    proof (rule that [of "8 + aa_data_len aa" d1])
      show "unat (8 + aa_data_len aa) = 8 + length d1" using vl d1 by (simp add: unat_word_ariths)
      fix p resp :: bytes assume p: "take (klen aa) p = k" "length resp = 512"
      have "am_pack_process_cmd al junk g (Some i) (enc_wrapper w @ p) resp =
          Inr (AM_RET_GOOD, tbl_set g i (Live f), enc_wrapper w @ p,
            enc_wrapper (resp_wrap w (8 + aa_data_len aa)) @ d1 @ drop (vlen aa) (drop 8 resp), 8 + aa_data_len aa)"
        by (rule process_cmd_good) (use p cong [OF p] run [OF p(2), of p] True in simp_all)
      then show "\<exists>p'. am_pack_process_cmd al junk g (Some i) (enc_wrapper w @ p) resp =
          Inr (st, tbl_set g i (Live f), enc_wrapper w @ p, enc_wrapper (reply_wrap w st (8 + aa_data_len aa)) @ d1 @ p', 8 + aa_data_len aa) \<and>
          length (d1 @ p') = 504"
        using True p(2) d1 vl by (intro exI [of _ "drop (vlen aa) (drop 8 resp)"]) simp
    qed (use True d1 in simp_all)
  next
    case False
    have "length (k @ replicate 512 0) = klen aa + 512" using get(2) by simp
    then have st: "st = AM_RET_KEY_NOT_FOUND" "d1 = d" using cong [of "k @ replicate 512 0" "replicate 512 0"] False get(2) by simp_all
    show thesis
    proof (rule that [of 12 "le_enc 4 st"])
      fix p resp :: bytes assume p: "take (klen aa) p = k" "length resp = 512"
      have r: "run_func al junk g (Some i) (enc_wrapper w @ p) (resp_start w resp) =
          Inr (st, tbl_set g i (Live f), enc_wrapper w @ p, resp_start w resp, Some (8 + aa_data_len aa))"
        using run [OF p(2), of p] cong [OF p] st p(2) by (simp add: resp_start_def)
      have "am_pack_process_cmd al junk g (Some i) (enc_wrapper w @ p) resp =
          Inr (st, tbl_set g i (Live f), enc_wrapper w @ p, err_packet w st (drop 12 resp), 12)"
        using process_cmd_error_same [OF _ r False] p(2) by simp
      then show "\<exists>p'. am_pack_process_cmd al junk g (Some i) (enc_wrapper w @ p) resp =
          Inr (st, tbl_set g i (Live f), enc_wrapper w @ p, enc_wrapper (reply_wrap w st 12) @ le_enc 4 st @ p', 12) \<and>
          length (le_enc 4 st @ p') = 504"
        using False p(2) by (intro exI [of _ "drop 12 resp"]) (simp add: err_packet_def reply_wrap_def)
    qed (use False st in simp_all)
  qed
qed

lemma served_put:
  assumes f: "assca_dev f aa" "tbl_get g i = Inr f" and w: "w_op w = 0x10" "w_packType w = 3"
    and put: "amlib_assca_add_key_fixfix (\<lambda>_. True) aa k d = Inr (AM_RET_GOOD, aa')" "length k = klen aa" "length d = vlen aa"
    and p: "take (klen aa + vlen aa) p = k @ d" and resp: "length resp = 512"
  shows "\<exists>f'. am_pack_process_cmd (\<lambda>_. True) junk g (Some i) (enc_wrapper w @ p) resp =
      Inr (AM_RET_GOOD, tbl_set g i (Live f'), enc_wrapper w @ p, enc_wrapper (resp_wrap w 8) @ drop 8 resp, 8) \<and> assca_dev f' aa'"
proof -
  have cr: "cr_idx_size (fn_crResp f) = aa_key_len aa" and af: "assca_func f aa" using f(1) by (simp_all add: assca_dev_def)
  have lp: "klen aa + vlen aa \<le> length p"
    using arg_cong [OF p, of length] put(2,3) by simp
  have k: "take (klen aa) p = k" using arg_cong [OF p, of "take (klen aa)"] put(2) by simp
  have d: "take (vlen aa) (drop (klen aa) p) = d"
    using arg_cong [OF p, of "drop (klen aa)"] put(2) by (simp add: drop_take)
  have add: "amlib_assca_add_key_fixfix (\<lambda>_. True) aa p (drop (klen aa) p) = Inr (AM_RET_GOOD, aa')"
    using assca_put_cong [of aa p k "drop (klen aa) p" d] k d lp put by simp
  obtain fd where fd: "fn_pVdF f = Live (FdAssca fd)" "as_data fd = Live aa" using af by (auto simp: assca_func_def)
  have wr: "am_assca_write32_align (\<lambda>_. True) f (Some p) (Some (drop (klen aa) p)) =
      Inr (AM_RET_GOOD, set_assca f fd aa', Some (drop (klen aa) p))"
    using fd add by (simp add: am_assca_write32_align_def)
  have dev: "assca_dev (set_assca f fd aa') aa'"
    using f(1) assca_put_sizes [OF put(1)] by (simp add: assca_dev_def assca_func_def set_assca_def)
  have op: "has_op g i f (w_op w) (Some Fn_assca_write32_align)" using assca_dev_op [OF f] w(1) by simp
  have "am_pack_process_cmd (\<lambda>_. True) junk g (Some i) (enc_wrapper w @ p) resp =
      Inr (AM_RET_GOOD, tbl_set g i (Live (set_assca f fd aa')), enc_wrapper w @ p, enc_wrapper (resp_wrap w 8) @ drop 8 resp, 8)"
    by (rule process_cmd_good) (use op w cr wr lp resp in
      \<open>simp_all add: run_func_Some dispatch_def dispatch_align_def wrap_simps resp_start_def Let_def\<close>)
  then show ?thesis using dev by blast
qed

section \<open>A client of the array over any link\<close>

text \<open>The client's function object \<open>F\<close> has the sizes of the array.\<close>

definition sized_for :: "mem_func \<Rightarrow> amlib_assca \<Rightarrow> bool" where
  "sized_for F aa \<longleftrightarrow> cr_idx_size (fn_crResp F) = aa_key_len aa \<and> cr_data_size (fn_crResp F) = aa_data_len aa"

lemma memcpy_payload:
  assumes "off \<le> length pay" "off + n \<le> length pay" "n \<le> length b"
  shows "memcpy (enc_wrapper w @ pay) (8 + off) b 0 n = Inr (enc_wrapper w @ take off pay @ take n b @ drop (off + n) pay)"
  using assms by (simp add: memcpy_def getb_def putb_def)

text \<open>The calls that \<open>am_set_pack_access\<close> puts into the object: those for two words of 32 bits, or those that copy blocks.\<close>

definition pack_read :: "'n pkac \<Rightarrow> 'n \<Rightarrow> mem_func \<Rightarrow> buf \<Rightarrow> buf \<Rightarrow> (AM_RETURN \<times> buf \<times> 'n) res" where
  "pack_read pk n F p1 p2 = (if pack_read_op (fn_crResp F) = Fn_pack_read32_align
     then am_pack_read32_align pk n (Some F) p1 p2 else am_pack_read_align pk n (Some F) p1 p2)"

definition pack_write :: "'n pkac \<Rightarrow> 'n \<Rightarrow> mem_func \<Rightarrow> buf \<Rightarrow> buf \<Rightarrow> (AM_RETURN \<times> 'n) res" where
  "pack_write pk n F p1 p2 = (if pack_write_op (fn_crResp F) = Fn_pack_write32_align
     then am_pack_write32_align pk n (Some F) p1 p2 else am_pack_write_align pk n (Some F) p1 p2)"

lemma pack_calls:
  "cr_is_32 (fn_crResp F) \<Longrightarrow> pack_read pk n F p1 p2 = am_pack_read32_align pk n (Some F) p1 p2"
  "\<not> cr_is_32 (fn_crResp F) \<Longrightarrow> pack_read pk n F p1 p2 = am_pack_read_align pk n (Some F) p1 p2"
  "cr_is_32 (fn_crResp F) \<Longrightarrow> pack_write pk n F p1 p2 = am_pack_write32_align pk n (Some F) p1 p2"
  "\<not> cr_is_32 (fn_crResp F) \<Longrightarrow> pack_write pk n F p1 p2 = am_pack_write_align pk n (Some F) p1 p2"
  by (simp_all add: pack_read_def pack_write_def pack_read_op_def pack_write_op_def)

lemma sized_32: "sized_for F aa \<Longrightarrow> cr_is_32 (fn_crResp F) \<Longrightarrow> klen aa = 4 \<and> vlen aa = 4 \<and> aa_key_len aa = 4 \<and> aa_data_len aa = 4"
  by (auto simp: sized_for_def cr_is_32_def)

context pack_link
begin

text \<open>The packet of a lookup, sent: the answer is the data of the key, or the error status.\<close>

lemma assca_get_send:
  assumes n: "armed n" "fid_ok (G n) (w_func_id w)" "tag_ok (w_appTag w)" and w: "w_op w = 0x11" "w_packType w = 3"
    and f: "tbl_get (G n) i = Inr f" "assca_dev f aa"
    and get: "amlib_assca_get_key_val aa k d = Inr (st, d1)" "length k = klen aa" "length d = vlen aa"
    and tx: "iop_pTx pIop = enc_wrapper w @ k @ rest" "length (k @ rest) = 504" "unat tx_size = 8 + length k"
  shows "\<exists>n' pIop' rx. pk_send_and_wait pk n pIop tx_size tmo = Inr (st, pIop', n') \<and> ready n' \<and>
    G n' = tbl_set (G n) i (Live f) \<and> iop_pRx pIop' = Some rx \<and> (st \<noteq> AM_RET_GOOD \<longrightarrow> d1 = d) \<and>
    (st = AM_RET_GOOD \<longrightarrow> length d1 = vlen aa \<and> unat (iop_resp_bytes pIop') = 8 + vlen aa \<and> getb rx 8 (vlen aa) = Inr d1)"
proof -
  obtain txn ans where served: "unat txn = 8 + length ans" "st = AM_RET_GOOD \<Longrightarrow> ans = d1 \<and> length d1 = vlen aa"
    "st \<noteq> AM_RET_GOOD \<Longrightarrow> ans = le_enc 4 st \<and> d1 = d"
    "\<And>p resp. take (klen aa) p = k \<Longrightarrow> length resp = 512 \<Longrightarrow>
      \<exists>p'. am_pack_process_cmd al junk (G n) (Some i) (enc_wrapper w @ p) resp =
        Inr (st, tbl_set (G n) i (Live f), enc_wrapper w @ p, enc_wrapper (reply_wrap w st txn) @ ans @ p', txn) \<and> length (ans @ p') = 504"
    using served_get [OF f(2,1) w get, of al junk] by metis
  have cmd: "\<exists>p' f'. am_pack_process_cmd al junk (G n) (Some i) (enc_wrapper w @ k @ stale) resp =
      Inr (st, tbl_set (G n) i (Live f'), enc_wrapper w @ k @ stale, enc_wrapper (reply_wrap w st txn) @ ans @ p', txn) \<and>
      length (ans @ p') = 504 \<and> f' = f" if "length stale = 504 - length k" "length resp = 512" for stale resp
    using served(4) [of "k @ stale" resp] that(2) get(2) by auto
  have err: "st \<noteq> AM_RET_GOOD \<Longrightarrow> ans = le_enc 4 st" using served(3) by simp
  from send [where P = "\<lambda>f'. f' = f" and error = st, OF n(1) tx n(2,3) w(2) cmd served(1) err, of tmo] obtain n' pIop' rest' where n':
    "pk_send_and_wait pk n pIop tx_size tmo = Inr (st, pIop', n')" "ready n'" "G n' = tbl_set (G n) i (Live f)"
    "iop_pRx pIop' = Some (enc_wrapper (reply_wrap w st txn) @ ans @ rest')" "iop_resp_bytes pIop' = txn"
    by blast
  have "getb (enc_wrapper (reply_wrap w st txn) @ d1 @ rest') 8 (length d1) = Inr d1" by (simp add: getb_def)
  then show ?thesis using n' served(1-3) by (cases "st = AM_RET_GOOD") auto
qed

lemma assca_get_link:
  assumes n: "ready n" "fid_ok (G n) (ucast (fn_handle F))" and f: "tbl_get (G n) i = Inr f" "assca_dev f aa"
    and F: "pack_asserts (Some F) = Inr F" "sized_for F aa"
    and get: "amlib_assca_get_key_val aa k d = Inr (st, d1)" "length k = klen aa" "length d = vlen aa"
  shows "\<exists>n'. pack_read pk n F (Some k) (Some d) = Inr (st, Some d1, n') \<and> ready n' \<and> G n' = tbl_set (G n) i (Live f)"
proof -
  obtain w0 pay pIop n1 where n1: "free_iop pk n = Inr (pIop, n1)" "iop_pTx pIop = enc_wrapper w0 @ pay"
    "tag_ok (w_appTag w0)" "length pay = 504" "armed n1" "G n1 = G n"
    using free [OF n(1)] by blast
  define tx_size where "tx_size = 8 + aa_key_len aa"
  define w where "w = req_wrap F (w_appTag w0) 3 0x11 tx_size"
  have w: "w_op w = 0x11" "w_packType w = 3" "fid_ok (G n1) (w_func_id w)" "tag_ok (w_appTag w)"
    using n1(3,6) n(2) by (simp_all add: w_def req_wrap_def)
  have sz: "klen aa + vlen aa \<le> 504" "cr_idx_size (fn_crResp F) = aa_key_len aa" "cr_data_size (fn_crResp F) = aa_data_len aa"
    using f(2) F(2) by (simp_all add: assca_dev_def sized_for_def)
  let ?pIop = "pIop\<lparr>iop_pTx := enc_wrapper w @ k @ drop (klen aa) pay\<rparr>"
  have tx: "iop_pTx ?pIop = enc_wrapper w @ k @ drop (klen aa) pay" "length (k @ drop (klen aa) pay) = 504"
    "unat tx_size = 8 + length k"
    using sz(1) n1(4) get(2) by (simp_all add: tx_size_def unat_word_ariths)
  obtain n' pIop' rx where n': "pk_send_and_wait pk n1 ?pIop tx_size 5000 = Inr (st, pIop', n')" "ready n'"
    "G n' = tbl_set (G n) i (Live f)" "iop_pRx pIop' = Some rx" "st \<noteq> AM_RET_GOOD \<Longrightarrow> d1 = d"
    "st = AM_RET_GOOD \<Longrightarrow> length d1 = vlen aa \<and> unat (iop_resp_bytes pIop') = 8 + vlen aa \<and> getb rx 8 (vlen aa) = Inr d1"
    using assca_get_send [OF n1(5) w(3,4) w(1,2) _ f(2) get tx, of 5000] f(1) unfolding n1(6) by blast
  have wrap: "pack_wrap F pIop 3 tx_size 0x11 = Inr (pIop\<lparr>iop_pTx := enc_wrapper w @ pay\<rparr>)"
    unfolding w_def by (rule pack_wrap_req [OF n1(2)])
  have "pack_read pk n F (Some k) (Some d) = Inr (st, Some d1, n')"
  proof (cases "cr_is_32 (fn_crResp F)")
    case False
    have cp: "memcpy (enc_wrapper w @ pay) 8 k 0 (klen aa) = Inr (iop_pTx ?pIop)"
      using memcpy_payload [of 0 pay "klen aa" k w] sz(1) n1(4) get(2) by simp
    have data: "memcpy d 0 rx 8 (vlen aa) = Inr d1" if "st = AM_RET_GOOD"
      using n'(6) [OF that] get(3) by (simp add: memcpy_def putb_def)
    show ?thesis using False n1(1) wrap cp n'(1,4-6) sz(2,3) data
      by (cases "st = AM_RET_GOOD") (auto simp: pack_calls am_pack_read_align_def F(1) tx_size_def [symmetric] Let_def)
  next
    case True
    note s4 = sized_32 [OF F(2) True]
    have tx12: "tx_size = 12" using s4 by (simp add: tx_size_def)
    have rdk: "rd32 k 0 = Inr (le_dec k)" using get(2) s4 by (simp add: rd32_def rd_in_bounds)
    have wrk: "wr32 (enc_wrapper w @ pay) 8 (le_dec k) = Inr (iop_pTx ?pIop)"
      using wr32_payload [of 8 pay k w] get(2) s4 n1(4) by (simp add: splice_at_def)
    have data: "rd32 rx 8 = Inr (le_dec d1)" "wr32 d 0 (le_dec d1) = Inr d1" "12 \<le> iop_resp_bytes pIop'" if "st = AM_RET_GOOD"
      using n'(6) [OF that] get(3) s4 wr32_le_dec [of d1 0 d]
      by (simp_all add: rd32_def rd_def splice_at_def word_le_nat_alt)
    show ?thesis using True n1(1) wrap rdk wrk n'(1,4,5) data unfolding tx12
      by (cases "st = AM_RET_GOOD") (auto simp: pack_calls am_pack_read32_align_def F(1) Let_def)
  qed
  with n'(2,3) show ?thesis by blast
qed

text \<open>The packet of an insert, with any bytes behind key and data.\<close>

lemma assca_put_send:
  assumes n: "armed n" "fid_ok (G n) (w_func_id w)" "tag_ok (w_appTag w)" and w: "w_op w = 0x10" "w_packType w = 3"
    and f: "tbl_get (G n) i = Inr f" "assca_dev f aa" and al: "\<forall>m. al m"
    and put: "amlib_assca_add_key_fixfix (\<lambda>_. True) aa k d = Inr (AM_RET_GOOD, aa')" "length k = klen aa" "length d = vlen aa"
    and tx: "iop_pTx pIop = enc_wrapper w @ (k @ d @ post) @ rest" "length ((k @ d @ post) @ rest) = 504"
      "unat tx_size = 8 + length (k @ d @ post)"
  shows "\<exists>n' pIop' f'. pk_send_and_wait pk n pIop tx_size tmo = Inr (AM_RET_GOOD, pIop', n') \<and> ready n' \<and>
    G n' = tbl_set (G n) i (Live f') \<and> assca_dev f' aa'"
proof -
  have all: "al = (\<lambda>_. True)" using al by (simp add: fun_eq_iff)
  have cmd: "\<exists>p' f'. am_pack_process_cmd al junk (G n) (Some i) (enc_wrapper w @ (k @ d @ post) @ stale) resp =
      Inr (AM_RET_GOOD, tbl_set (G n) i (Live f'), enc_wrapper w @ (k @ d @ post) @ stale, enc_wrapper (resp_wrap w 8) @ [] @ p', 8) \<and>
      length ([] @ p') = 504 \<and> assca_dev f' aa'" if "length stale = 504 - length (k @ d @ post)" "length resp = 512" for stale resp
    using served_put [OF f(2,1) w put, of "(k @ d @ post) @ stale" resp junk] all that put(2,3) by auto
  have l: "unat (8 :: UINT32) = 8 + length ([] :: bytes)" by simp
  from send [where P = "\<lambda>f'. assca_dev f' aa'" and error = AM_RET_GOOD, simplified reply_wrap_simps,
      OF n(1) tx n(2,3) w(2) cmd l, of tmo] show ?thesis by blast
qed

lemma assca_put_link:
  assumes n: "ready n" "fid_ok (G n) (ucast (fn_handle F))" and f: "tbl_get (G n) i = Inr f" "assca_dev f aa"
    and F: "pack_asserts (Some F) = Inr F" "sized_for F aa" and al: "\<forall>m. al m"
    and put: "amlib_assca_add_key_fixfix (\<lambda>_. True) aa k d = Inr (AM_RET_GOOD, aa')" "length k = klen aa" "length d = vlen aa"
  shows "\<exists>n' f'. pack_write pk n F (Some k) (Some d) = Inr (AM_RET_GOOD, n') \<and>
    ready n' \<and> G n' = tbl_set (G n) i (Live f') \<and> assca_dev f' aa'"
proof -
  obtain w0 pay pIop n1 where n1: "free_iop pk n = Inr (pIop, n1)" "iop_pTx pIop = enc_wrapper w0 @ pay"
    "tag_ok (w_appTag w0)" "length pay = 504" "armed n1" "G n1 = G n"
    using free [OF n(1)] by blast
  have sz: "klen aa + vlen aa \<le> 504" "cr_idx_size (fn_crResp F) = aa_key_len aa" "cr_data_size (fn_crResp F) = aa_data_len aa"
    using f(2) F(2) by (simp_all add: assca_dev_def sized_for_def)
  define w where "w sz = req_wrap F (w_appTag w0) 3 0x10 sz" for sz
  have w: "w_op (w sz) = 0x10" "w_packType (w sz) = 3" "fid_ok (G n1) (w_func_id (w sz))" "tag_ok (w_appTag (w sz))" for sz
    using n1(3,6) n(2) by (simp_all add: w_def req_wrap_def)
  have wrap: "pack_wrap F pIop 3 sz 0x10 = Inr (pIop\<lparr>iop_pTx := enc_wrapper (w sz) @ pay\<rparr>)" for sz
    unfolding w_def by (rule pack_wrap_req [OF n1(2)])
  have f1: "tbl_get (G n1) i = Inr f" using f(1) n1(6) by simp
  show ?thesis
  proof (cases "cr_is_32 (fn_crResp F)")
    case False
    define tx_size where "tx_size = 8 + aa_data_len aa + aa_key_len aa"
    let ?w = "w tx_size" and ?rest = "drop (klen aa + vlen aa) pay"
    let ?pIop = "pIop\<lparr>iop_pTx := enc_wrapper ?w @ (k @ d @ []) @ ?rest\<rparr>"
    have tx: "iop_pTx ?pIop = enc_wrapper ?w @ (k @ d @ []) @ ?rest" "length ((k @ d @ []) @ ?rest) = 504"
      "unat tx_size = 8 + length (k @ d @ [])"
      using sz(1) n1(4) put(2,3) by (simp_all add: tx_size_def unat_word_ariths)
    obtain n' pIop' f' where n': "pk_send_and_wait pk n1 ?pIop tx_size 5000 = Inr (AM_RET_GOOD, pIop', n')" "ready n'"
      "G n' = tbl_set (G n) i (Live f')" "assca_dev f' aa'"
      using assca_put_send [OF n1(5) w(3,4) w(1,2) f1 f(2) al put tx, of 5000] unfolding n1(6) by blast
    have cp: "memcpy (enc_wrapper ?w @ pay) 8 k 0 (klen aa) = Inr (enc_wrapper ?w @ k @ drop (klen aa) pay)"
      "memcpy (enc_wrapper ?w @ k @ drop (klen aa) pay) (8 + klen aa) d 0 (vlen aa) = Inr (iop_pTx ?pIop)"
      using memcpy_payload [of 0 pay "klen aa" k ?w] memcpy_payload [of "klen aa" "k @ drop (klen aa) pay" "vlen aa" d ?w]
        sz(1) n1(4) put(2,3) by (simp_all add: add.commute)
    have "pack_write pk n F (Some k) (Some d) = Inr (AM_RET_GOOD, n')"
      using False n1(1) wrap [of tx_size] cp n'(1) sz(2,3)
      by (simp add: pack_calls am_pack_write_align_def F(1) tx_size_def [symmetric] Let_def)
    with n'(2-4) show ?thesis by blast
  next
    case True
    note s4 = sized_32 [OF F(2) True]
    let ?w = "w 17" and ?post = "take 1 (drop 8 pay)" and ?rest = "drop 9 pay"
    let ?pIop = "pIop\<lparr>iop_pTx := enc_wrapper ?w @ (k @ d @ ?post) @ ?rest\<rparr>"
    have tx: "iop_pTx ?pIop = enc_wrapper ?w @ (k @ d @ ?post) @ ?rest" "length ((k @ d @ ?post) @ ?rest) = 504"
      "unat (17 :: UINT32) = 8 + length (k @ d @ ?post)"
      using s4 n1(4) put(2,3) by simp_all
    obtain n' pIop' f' where n': "pk_send_and_wait pk n1 ?pIop 17 5000 = Inr (AM_RET_GOOD, pIop', n')" "ready n'"
      "G n' = tbl_set (G n) i (Live f')" "assca_dev f' aa'"
      using assca_put_send [OF n1(5) w(3,4) w(1,2) f1 f(2) al put tx, of 5000] unfolding n1(6) by blast
    have rdk: "rd32 k 0 = Inr (le_dec k)" "rd32 d 0 = Inr (le_dec d)" using put(2,3) s4 by (simp_all add: rd32_def rd_in_bounds)
    have wrk: "wr32 (enc_wrapper ?w @ pay) 8 (le_dec k) = Inr (enc_wrapper ?w @ k @ drop 4 pay)"
      using wr32_payload [of 8 pay k ?w] put(2) s4 n1(4) by (simp add: splice_at_def)
    have "?post @ ?rest = drop 8 pay" using append_take_drop_id [of 1 "drop 8 pay"] by simp
    then have wrd: "wr32 (enc_wrapper ?w @ k @ drop 4 pay) 12 (le_dec d) = Inr (iop_pTx ?pIop)"
      using wr32_payload [of 12 "k @ drop 4 pay" d ?w] put(2,3) s4 n1(4) by (simp add: splice_at_def)
    have "pack_write pk n F (Some k) (Some d) = Inr (AM_RET_GOOD, n')"
      using True n1(1) wrap [of 17] rdk wrk wrd n'(1)
      by (simp add: pack_calls am_pack_write32_align_def F(1) Let_def)
    with n'(2-4) show ?thesis by blast
  qed
qed

end

section \<open>Over the network\<close>

definition remote_get :: "'c remote \<Rightarrow> bytes \<Rightarrow> bytes \<Rightarrow> (AM_RETURN \<times> 'c remote \<times> bytes) res" where
  "remote_get r k d =
     bindr (pack_read (remote_pk r) (rm_net r) (rm_F r) (Some k) (Some d)) (\<lambda>(st, b, n).
     bindr (the_buf b) (\<lambda>d. Inr (st, r\<lparr>rm_net := n\<rparr>, d)))"

definition remote_put :: "'c remote \<Rightarrow> bytes \<Rightarrow> bytes \<Rightarrow> (AM_RETURN \<times> 'c remote) res" where
  "remote_put r k d =
     bindr (pack_write (remote_pk r) (rm_net r) (rm_F r) (Some k) (Some d)) (\<lambda>(st, n).
     Inr (st, r\<lparr>rm_net := n\<rparr>))"

text \<open>An idle target with the array in the slot of the client's handle.\<close>

definition remote_assca :: "'c remote \<Rightarrow> amlib_assca \<Rightarrow> bool" where
  "remote_assca r aa \<longleftrightarrow> net_ready (rm_net r) \<and> idle (net_w (rm_net r)) \<and> client_ok (rm_F r) (rm_i r) \<and>
     sized_for (rm_F r) aa \<and> (\<forall>k. rm_al r k) \<and> length (tg_table (remote_g r)) = AM_TARGET_MAX_FUNCTIONS \<and>
     (\<exists>f. tg_table (remote_g r) ! rm_i r = Live f \<and> assca_dev f aa)"

lemma remote_asscaD:
  assumes "remote_assca r aa"
  obtains f where "net_ready (rm_net r) \<and> idle (net_w (rm_net r))" "client_ok (rm_F r) (rm_i r)" "sized_for (rm_F r) aa"
    "\<forall>k. rm_al r k" "am_validate_function_id (ta_g (net_w (rm_net r))) (ucast (fn_handle (rm_F r))) = Inr (Some (rm_i r))"
    "tbl_get (ta_g (net_w (rm_net r))) (rm_i r) = Inr f" "assca_dev f aa" "pack_asserts (Some (rm_F r)) = Inr (rm_F r)"
proof -
  obtain f where f: "tg_table (remote_g r) ! rm_i r = Live f" "assca_dev f aa" and r: "client_ok (rm_F r) (rm_i r)"
      "length (tg_table (remote_g r)) = AM_TARGET_MAX_FUNCTIONS"
    using assms by (auto simp: remote_assca_def)
  have i: "rm_i r < 256" "fn_handle (rm_F r) = 0xAA00 OR of_nat (rm_i r)" using r(1) by (simp_all add: client_ok_def)
  have "am_validate_function_id (remote_g r) (ucast (fn_handle (rm_F r))) = Inr (Some (rm_i r))"
    using validate_slot [OF i(1), of "remote_g r"] func_id_cast(2) [OF i(1)] f(1) i r(2) by (simp add: tbl_slot_def)
  moreover have "tbl_get (remote_g r) (rm_i r) = Inr f" using f(1) i(1) r(2) by (simp add: tbl_get_def)
  ultimately show thesis
    using assms f(2) r(1) asserts_client [OF r(1)] by (intro that [of f]) (auto simp: remote_assca_def remote_g_def)
qed

lemma remote_assca_next:
  assumes "remote_assca r aa" "net_ready n' \<and> idle (net_w n')" "ta_g (net_w n') = tbl_set (ta_g (net_w (rm_net r))) (rm_i r) (Live f')"
    and "assca_dev f' aa'" "aa_key_len aa' = aa_key_len aa" "aa_data_len aa' = aa_data_len aa"
  shows "remote_assca (r\<lparr>rm_net := n'\<rparr>) aa'"
  using assms by (auto simp: remote_assca_def remote_g_def sized_for_def tbl_set_def client_ok_def)

interpretation remote_array: array_link remote_assca remote_get remote_put
proof
  fix r :: "'c remote" and aa k d st d1
  assume r: "remote_assca r aa" and l: "length k = klen aa" "length d = vlen aa"
    and get: "amlib_assca_get_key_val aa k d = Inr (st, d1)"
  from remote_asscaD [OF r] obtain f where f: "net_ready (rm_net r) \<and> idle (net_w (rm_net r))" "client_ok (rm_F r) (rm_i r)" "sized_for (rm_F r) aa"
    "\<forall>k. rm_al r k" "am_validate_function_id (ta_g (net_w (rm_net r))) (ucast (fn_handle (rm_F r))) = Inr (Some (rm_i r))"
    "tbl_get (ta_g (net_w (rm_net r))) (rm_i r) = Inr f" "assca_dev f aa" "pack_asserts (Some (rm_F r)) = Inr (rm_F r)" by metis
  obtain n' where n': "pack_read (remote_pk r) (rm_net r) (rm_F r) (Some k) (Some d) = Inr (st, Some d1, n')"
    "net_ready n' \<and> idle (net_w n')" "ta_g (net_w n') = tbl_set (ta_g (net_w (rm_net r))) (rm_i r) (Live f)"
    unfolding remote_pk_def using net_link.assca_get_link [OF f(1,5-7) f(8,3) get l] by blast
  show "\<exists>r'. remote_get r k d = Inr (st, r', d1) \<and> remote_assca r' aa"
    using n'(1) remote_assca_next [OF r n'(2,3) f(7)] by (simp add: remote_get_def)
next
  fix r :: "'c remote" and aa aa' k d
  assume r: "remote_assca r aa" and l: "length k = klen aa" "length d = vlen aa"
    and put: "amlib_assca_add_key_fixfix (\<lambda>_. True) aa k d = Inr (AM_RET_GOOD, aa')"
  from remote_asscaD [OF r] obtain f where f: "net_ready (rm_net r) \<and> idle (net_w (rm_net r))" "client_ok (rm_F r) (rm_i r)" "sized_for (rm_F r) aa"
    "\<forall>k. rm_al r k" "am_validate_function_id (ta_g (net_w (rm_net r))) (ucast (fn_handle (rm_F r))) = Inr (Some (rm_i r))"
    "tbl_get (ta_g (net_w (rm_net r))) (rm_i r) = Inr f" "assca_dev f aa" "pack_asserts (Some (rm_F r)) = Inr (rm_F r)" by metis
  obtain n' f' where n': "pack_write (remote_pk r) (rm_net r) (rm_F r) (Some k) (Some d) = Inr (AM_RET_GOOD, n')"
    "net_ready n' \<and> idle (net_w n')" "ta_g (net_w n') = tbl_set (ta_g (net_w (rm_net r))) (rm_i r) (Live f')" "assca_dev f' aa'"
    unfolding remote_pk_def using net_link.assca_put_link [OF f(1,5-7) f(8,3,4) put l] by blast
  show "\<exists>r'. remote_put r k d = Inr (AM_RET_GOOD, r') \<and> remote_assca r' aa'"
    using n'(1) remote_assca_next [OF r n'(2-4) assca_put_sizes [OF put]] by (simp add: remote_put_def)
qed

section \<open>Through the command page\<close>

definition mapped_get :: "mapped_dev \<Rightarrow> bytes \<Rightarrow> bytes \<Rightarrow> (AM_RETURN \<times> mapped_dev \<times> bytes) res" where
  "mapped_get r k d =
     bindr (pack_read (kpack_pkac (md_al r) (md_junk r)) (md_kp r) (md_F r) (Some k) (Some d)) (\<lambda>(st, b, s).
     bindr (the_buf b) (\<lambda>d. Inr (st, r\<lparr>md_kp := s\<rparr>, d)))"

definition mapped_put :: "mapped_dev \<Rightarrow> bytes \<Rightarrow> bytes \<Rightarrow> (AM_RETURN \<times> mapped_dev) res" where
  "mapped_put r k d =
     bindr (pack_write (kpack_pkac (md_al r) (md_junk r)) (md_kp r) (md_F r) (Some k) (Some d)) (\<lambda>(st, s).
     Inr (st, r\<lparr>md_kp := s\<rparr>))"

definition mapped_assca :: "mapped_dev \<Rightarrow> amlib_assca \<Rightarrow> bool" where
  "mapped_assca r aa \<longleftrightarrow> kp_ready (md_kp r) \<and> assca_dev (kp_func (md_kp r)) aa \<and> sized_for (md_F r) aa \<and>
     (\<forall>k. md_al r k) \<and> pack_asserts (Some (md_F r)) = Inr (md_F r)"

interpretation mapped_array: array_link mapped_assca mapped_get mapped_put
proof
  fix r aa k d st d1
  assume r: "mapped_assca r aa" and l: "length k = klen aa" "length d = vlen aa"
    and get: "amlib_assca_get_key_val aa k d = Inr (st, d1)"
  note f = r [unfolded mapped_assca_def]
  obtain s where s: "pack_read (kpack_pkac (md_al r) (md_junk r)) (md_kp r) (md_F r) (Some k) (Some d) = Inr (st, Some d1, s)"
    "kp_ready s" "one_slot (kp_func s) = tbl_set (one_slot (kp_func (md_kp r))) 0 (Live (kp_func (md_kp r)))"
    using kpack_link.assca_get_link [OF _ _ one_slot_simps(1) _ _ _ get l, of "md_kp r" "md_F r" "md_al r" "md_junk r"] f by blast
  show "\<exists>r'. mapped_get r k d = Inr (st, r', d1) \<and> mapped_assca r' aa"
    using s f by (auto simp: mapped_get_def mapped_assca_def)
next
  fix r aa aa' k d
  assume r: "mapped_assca r aa" and l: "length k = klen aa" "length d = vlen aa"
    and put: "amlib_assca_add_key_fixfix (\<lambda>_. True) aa k d = Inr (AM_RET_GOOD, aa')"
  note f = r [unfolded mapped_assca_def]
  obtain s f' where s: "pack_write (kpack_pkac (md_al r) (md_junk r)) (md_kp r) (md_F r) (Some k) (Some d) = Inr (AM_RET_GOOD, s)"
    "kp_ready s" "one_slot (kp_func s) = tbl_set (one_slot (kp_func (md_kp r))) 0 (Live f')" "assca_dev f' aa'"
    using kpack_link.assca_put_link [OF _ _ one_slot_simps(1) _ _ _ _ put l, of "md_kp r" "md_F r" "md_al r" "md_junk r"] f by blast
  show "\<exists>r'. mapped_put r k d = Inr (AM_RET_GOOD, r') \<and> mapped_assca r' aa'"
    using s f assca_put_sizes [OF put] by (auto simp: mapped_put_def mapped_assca_def sized_for_def)
qed

end
