(* ===== verification/AM_Kd.thy ===== *)
theory AM_Kd
  imports AM_Kmap
begin

text \<open>
  The client of the kernel module, \<^verbatim>\<open>appmemlib/appmem_kd.c\<close>: the calls that go through \<^verbatim>\<open>ioctl\<close>. Pointers
  are addresses in the memory of the process, \<open>kn_um\<close>; \<open>sp\<close> is the address of the local \<open>cmd\<close>. The file
  table of the process is the parameter \<open>fds\<close>, and \<open>fd\<close> is what \<^verbatim>\<open>open\<close> returns; \<^verbatim>\<open>ioctl\<close> on a descriptor that
  is not open is an error. A local command is written byte by byte as it lies on the stack, \<open>junk\<close> where
  it is not set.
\<close>

type_synonym fd_table = "UINT32 \<Rightarrow> UINT32 option"

definition APPMEMD_OP :: "UINT32 \<Rightarrow> UINT32" where
  "APPMEMD_OP nr = 0xC0044B00 OR nr"

abbreviation (input) APPMEMD_OP_COMMON :: UINT32 where "APPMEMD_OP_COMMON \<equiv> APPMEMD_OP 2"
abbreviation (input) APPMEMD_OP_BIDIR :: UINT32 where "APPMEMD_OP_BIDIR \<equiv> APPMEMD_OP 3"

definition AM_OP_CODE_GETC_CAP_COUNT :: UINT32 where
  "AM_OP_CODE_GETC_CAP_COUNT = AM_SET_PACKTYPE AM_PACK_TYPE_OPCODE_ONLY AM_OP_GET_CAP_COUNT"
definition AM_OP_CODE_GET_CAPS :: UINT32 where
  "AM_OP_CODE_GET_CAPS = AM_SET_PACKTYPE AM_PACK_TYPE_FIVO AM_OP_GET_CAP"
definition AM_OP_CODE_GET_CAP_DETAILS :: UINT32 where
  "AM_OP_CODE_GET_CAP_DETAILS = AM_SET_PACKTYPE AM_PACK_TYPE_FIVO AM_OP_GET_CAP_DETAILS"
definition AM_OP_CODE_CREATE_FUNC :: UINT32 where
  "AM_OP_CODE_CREATE_FUNC = AM_SET_PACKTYPE AM_PACK_TYPE_FIVO AM_OP_CREATE_FUNC"
definition AM_OP_CODE_WRITE_ALIGN :: UINT32 where
  "AM_OP_CODE_WRITE_ALIGN = AM_SET_PACKTYPE AM_PACK_ALIGN AM_OP_WRITE_ALIGN"
definition AM_OP_CODE_READ_ALIGN :: UINT32 where
  "AM_OP_CODE_READ_ALIGN = AM_SET_PACKTYPE AM_PACK_ALIGN AM_OP_READ_ALIGN"
definition AM_OP_CODE_WRITE_FIX_PACKET :: UINT32 where
  "AM_OP_CODE_WRITE_FIX_PACKET = AM_SET_PACKTYPE AM_KPACK AM_OP_WRITE_ALIGN"
definition AM_OP_CODE_READ_FIX_PACKET :: UINT32 where
  "AM_OP_CODE_READ_FIX_PACKET = AM_SET_PACKTYPE AM_KPACK AM_OP_READ_ALIGN"

text \<open>A command put on the stack and handed to the driver; the answer is negative on any error.\<close>

definition kd_ioctl ::
  "kenv \<Rightarrow> fd_table \<Rightarrow> UINT64 \<Rightarrow> kern \<Rightarrow> UINT32 \<Rightarrow> UINT32 \<Rightarrow> bytes \<Rightarrow> (AM_RETURN \<times> kern) res" where
  "kd_ioctl e fds sp k fd nr cmd =
     bindr (um_put (kn_um k) sp cmd) (\<lambda>um.
     let k = k\<lparr>kn_um := um\<rparr> in
     case fds fd of None \<Rightarrow> Inr (- 1, k) | Some m \<Rightarrow> appmemd_ioctl e k m nr sp)"

definition enc_cmd_common :: "UINT32 \<Rightarrow> UINT32 \<Rightarrow> UINT64 \<Rightarrow> bytes \<Rightarrow> bytes" where
  "enc_cmd_common opc len data parameter = le_enc 4 opc @ le_enc 4 len @ le_enc 8 data @ parameter"

definition enc_cmd_aligned :: "UINT32 \<Rightarrow> UINT32 \<Rightarrow> UINT64 \<Rightarrow> bytes" where
  "enc_cmd_aligned opc offset data = le_enc 4 opc @ le_enc 4 offset @ le_enc 8 data"

definition enc_cmd_bidir :: "UINT32 \<Rightarrow> UINT32 \<Rightarrow> UINT64 \<Rightarrow> UINT32 \<Rightarrow> bytes \<Rightarrow> UINT64 \<Rightarrow> bytes" where
  "enc_cmd_bidir opc len_in data_in len_out flags data_out =
     le_enc 4 opc @ le_enc 4 len_in @ le_enc 8 data_in @ le_enc 4 len_out @ flags @ le_enc 8 data_out"

section \<open>Calls on the base device\<close>

definition am_kd_entry_close :: AM_RETURN where
  "am_kd_entry_close = AM_RET_GOOD"

definition am_kd_get_capabilities ::
  "kenv \<Rightarrow> fd_table \<Rightarrow> UINT64 \<Rightarrow> (nat \<Rightarrow> UINT8) \<Rightarrow> UINT32 \<Rightarrow> kern \<Rightarrow> UINT64 \<Rightarrow> UINT32 \<Rightarrow> (AM_RETURN \<times> kern) res" where
  "am_kd_get_capabilities e fds sp junk fd k pAmCaps cnt =
     (if sint fd > - 1 then
        bindr (kd_ioctl e fds sp k fd APPMEMD_OP_COMMON
                 (enc_cmd_common AM_OP_CODE_GET_CAPS (cnt * of_nat sizeof_MEM_CAP) pAmCaps (fresh junk 8))) (\<lambda>(c, k).
        Inr (if sint c < 0 then AM_RET_IO_ERR else AM_RET_GOOD, k))
      else Inr (AM_RET_OPEN_ERR, k))"

text \<open>An error of the driver ends the process.\<close>

definition am_kd_get_cap_details ::
  "kenv \<Rightarrow> fd_table \<Rightarrow> UINT64 \<Rightarrow> UINT32 \<Rightarrow> kern \<Rightarrow> UINT64 \<Rightarrow> UINT32 \<Rightarrow> (AM_RETURN \<times> kern) res" where
  "am_kd_get_cap_details e fds sp fd k pCapDetails amType =
     (if sint fd > - 1 then
        bindr (kd_ioctl e fds sp k fd APPMEMD_OP_COMMON
                 (enc_cmd_common AM_OP_CODE_GET_CAP_DETAILS (of_nat (sizeof_CAP_DETAILS * 5)) pCapDetails
                    (le_enc 8 amType))) (\<lambda>(c, k).
        if sint c < 0 then Inl NoReturn else Inr (AM_RET_GOOD, k))
      else Inr (AM_RET_OPEN_ERR, k))"

text \<open>\<open>pcount\<close> is the address of the local \<open>count\<close>.\<close>

definition am_kd_get_capabilities_count ::
  "kenv \<Rightarrow> fd_table \<Rightarrow> UINT64 \<Rightarrow> (nat \<Rightarrow> UINT8) \<Rightarrow> UINT64 \<Rightarrow> UINT32 \<Rightarrow> kern \<Rightarrow> (UINT32 \<times> kern) res" where
  "am_kd_get_capabilities_count e fds sp junk pcount fd k =
     bindr (um_put (kn_um k) pcount (le_enc 4 (0 :: UINT32))) (\<lambda>um.
     let k = k\<lparr>kn_um := um\<rparr> in
     bindr (if sint fd > - 1 then
              bindr (kd_ioctl e fds sp k fd APPMEMD_OP_COMMON
                       (enc_cmd_common AM_OP_CODE_GETC_CAP_COUNT 4 pcount (fresh junk 8))) (\<lambda>(c, k). Inr k)
            else Inr k) (\<lambda>k.
     bindr (um_get (kn_um k) pcount 4) (\<lambda>b. Inr (le_dec b, k))))"

section \<open>Calls on a device\<close>

text \<open>The command has 16 bytes; the driver copies 24.\<close>

definition am_kd_write32_align ::
  "kenv \<Rightarrow> fd_table \<Rightarrow> UINT64 \<Rightarrow> kern \<Rightarrow> mem_func \<Rightarrow> UINT64 \<Rightarrow> UINT64 \<Rightarrow> (AM_RETURN \<times> kern) res" where
  "am_kd_write32_align e fds sp k f p1 p2 =
     bindr (um_get (kn_um k) p1 4) (\<lambda>offset.
     bindr (um_get (kn_um k) p2 4) (\<lambda>data.
     bindr (kd_ioctl e fds sp k (fn_handle f) APPMEMD_OP_COMMON
              (enc_cmd_aligned AM_OP_CODE_WRITE_ALIGN (le_dec offset) (ucast (le_dec data :: UINT32)))) (\<lambda>(c, k).
     Inr (if sint c < 0 then AM_RET_IO_ERR else AM_RET_GOOD, k))))"

definition am_kd_read32_align ::
  "kenv \<Rightarrow> fd_table \<Rightarrow> UINT64 \<Rightarrow> kern \<Rightarrow> mem_func \<Rightarrow> UINT64 \<Rightarrow> UINT64 \<Rightarrow> (AM_RETURN \<times> kern) res" where
  "am_kd_read32_align e fds sp k f p1 p2 =
     bindr (um_get (kn_um k) p1 4) (\<lambda>offset.
     bindr (kd_ioctl e fds sp k (fn_handle f) APPMEMD_OP_COMMON
              (enc_cmd_aligned AM_OP_CODE_READ_ALIGN (le_dec offset) p2)) (\<lambda>(c, k).
     Inr (if sint c < 0 then AM_RET_IO_ERR else AM_RET_GOOD, k)))"

text \<open>\<open>data\<close> of a packet command is an array of 63 words behind \<open>op\<close>; neither copy is bounded by it.\<close>

definition am_kd_fixed_write_packet ::
  "kenv \<Rightarrow> fd_table \<Rightarrow> UINT64 \<Rightarrow> (nat \<Rightarrow> UINT8) \<Rightarrow> kern \<Rightarrow> mem_func \<Rightarrow> UINT64 \<Rightarrow> UINT64 \<Rightarrow> (AM_RETURN \<times> kern) res" where
  "am_kd_fixed_write_packet e fds sp junk k f p1 p2 =
     (let cr = fn_crResp f in
      bindr (um_get (kn_um k) p1 (unat (cr_idx_size cr))) (\<lambda>b1.
      bindr (um_get (kn_um k) p2 (unat (cr_data_size cr))) (\<lambda>b2.
      bindr (putb (fresh junk 252) 0 b1) (\<lambda>data.
      bindr (putb data (4 * unat (cr_pack_DataOffset cr)) b2) (\<lambda>data.
      bindr (kd_ioctl e fds sp k (fn_handle f) (APPMEMD_OP (ucast (cr_wr_pack_qword_size cr)))
               (le_enc 4 AM_OP_CODE_WRITE_FIX_PACKET @ data)) (\<lambda>(c, k).
      Inr (if sint c < 0 then AM_RET_IO_ERR else AM_RET_GOOD, k)))))))"

definition am_kd_fixed_read_packet ::
  "kenv \<Rightarrow> fd_table \<Rightarrow> UINT64 \<Rightarrow> (nat \<Rightarrow> UINT8) \<Rightarrow> kern \<Rightarrow> mem_func \<Rightarrow> UINT64 \<Rightarrow> UINT64 \<Rightarrow> (AM_RETURN \<times> kern) res" where
  "am_kd_fixed_read_packet e fds sp junk k f p1 p2 =
     (let cr = fn_crResp f in
      bindr (um_get (kn_um k) p1 (unat (cr_idx_size cr))) (\<lambda>b1.
      bindr (putb (fresh junk 252) 0 b1) (\<lambda>data.
      bindr (putb data (4 * unat (cr_pack_DataOffset cr)) (le_enc 8 p2)) (\<lambda>data.
      bindr (kd_ioctl e fds sp k (fn_handle f) (APPMEMD_OP (ucast (cr_rd_pack_qword_size cr)))
               (le_enc 4 AM_OP_CODE_READ_FIX_PACKET @ data)) (\<lambda>(c, k).
      Inr (if sint c < 0 then AM_RET_IO_ERR else AM_RET_GOOD, k))))))"

section \<open>Creation of a function\<close>

text \<open>The operators chosen from \<open>crResp.acOps\<close>.\<close>

definition kd_calls :: "cr_resp \<Rightarrow> func_calls \<Rightarrow> func_calls" where
  "kd_calls cr c =
     (let c = c\<lparr>fc_open := Some Fn_kd_open, fc_close := Some Fn_kd_close\<rparr>;
          w = cr_acOps cr ! ACOP_WRITE; r = cr_acOps cr ! ACOP_READ;
          c = (if w = AM_OP_CODE_WRITE_ALIGN then c\<lparr>fc_write_al := Some Fn_kd_write32_align\<rparr>
               else if w = AM_OP_CODE_WRITE_FIX_PACKET then c\<lparr>fc_write_al := Some Fn_kd_fixed_write_packet\<rparr> else c)
      in if r = AM_OP_CODE_READ_ALIGN then c\<lparr>fc_read_al := Some Fn_kd_read32_align\<rparr>
         else if r = AM_OP_CODE_READ_FIX_PACKET then c\<lparr>fc_read_al := Some Fn_kd_fixed_read_packet\<rparr> else c)"

text \<open>
  \<open>pCap\<close> and \<open>pcr\<close> are the addresses of the capability and of \<open>pFunc->crResp\<close>, which is read back from the
  memory of the process. Without the device file the status is \<open>AM_RET_GOOD\<close> all the same.
\<close>

definition am_kd_create_function ::
  "kenv \<Rightarrow> fd_table \<Rightarrow> UINT64 \<Rightarrow> (nat \<Rightarrow> UINT8) \<Rightarrow> UINT32 \<Rightarrow> kern \<Rightarrow> UINT64 \<Rightarrow> UINT64 \<Rightarrow> mem_func \<Rightarrow> am_mmap \<Rightarrow>
   (AM_RETURN \<times> mem_func \<times> am_mmap \<times> kern) res" where
  "am_kd_create_function e fds sp junk fd k pCap pcr f fm =
     (if sint fd > - 1 then
        bindr (kd_ioctl e fds sp k fd APPMEMD_OP_BIDIR
                 (enc_cmd_bidir AM_OP_CODE_CREATE_FUNC (of_nat sizeof_MEM_CAP) pCap (of_nat sizeof_CR_RESP)
                    (fresh junk 4) pcr)) (\<lambda>(c, k).
        if sint c < 0 then Inr (AM_RET_IO_ERR, f, fm, k)
        else
          bindr (um_get (kn_um k) pcr sizeof_CR_RESP) (\<lambda>b.
          bindr (rd_cr_resp b 0) (\<lambda>cr.
          let f = f\<lparr>fn_crResp := cr, fn_handle := - 1, fn_pEntry := True\<rparr> in
          case fn_calls f of
            None \<Rightarrow> Inr (AM_RET_GOOD, f, fm, k)
          | Some calls \<Rightarrow>
              bindr (um_get (kn_um k) pCap sizeof_MEM_CAP) (\<lambda>b.
              bindr (rd_mem_cap b 0) (\<lambda>cap.
              let fm = (if cap_access_flags cap AND AM_CAP_AC_FLAG_PACK_MMAP \<noteq> 0
                        then fm\<lparr>fm_map_flags := cap_access_flags cap\<rparr> else fm)
              in Inr (AM_RET_GOOD, f\<lparr>fn_calls := Some (kd_calls cr calls)\<rparr>, fm, k))))))
      else Inr (AM_RET_GOOD, f, fm, k))"

end
