(* ===== verification/AM_Kernel_Props.thy ===== *)
theory AM_Kernel_Props
  imports AM_Link AM_Kd AM_Assca_Props
begin

text \<open>
  The kernel module behind \<^verbatim>\<open>ioctl\<close>: memory of the process, the commands the driver refuses, and the devices
  it serves, which keep their contract when the client reads and writes them through the driver.
\<close>

section \<open>Memory of the process\<close>

definition um_range :: "UINT64 \<Rightarrow> nat \<Rightarrow> UINT64 set" where
  "um_range a n = (\<lambda>i. a + of_nat i) ` {..<n}"

definition um_mapped :: "umem \<Rightarrow> UINT64 \<Rightarrow> nat \<Rightarrow> bool" where
  "um_mapped um a n \<longleftrightarrow> um_range a n \<subseteq> dom um"

text \<open>\<open>um'\<close> differs from \<open>um\<close> in the contents of \<open>S\<close> at most.\<close>

definition um_upd :: "UINT64 set \<Rightarrow> umem \<Rightarrow> umem \<Rightarrow> bool" where
  "um_upd S um um' \<longleftrightarrow> dom um' = dom um \<and> (\<forall>x. x \<notin> S \<longrightarrow> um' x = um x)"

lemma um_range_Suc: "um_range a (Suc n) = insert a (um_range (a + 1) n)"
proof -
  have "um_range a (Suc n) = (\<lambda>i. a + of_nat i) ` insert 0 (Suc ` {..<n})" by (simp add: um_range_def lessThan_Suc_eq_insert_0)
  also have "\<dots> = insert a (um_range (a + 1) n)" by (simp add: um_range_def image_image add.assoc)
  finally show ?thesis .
qed

lemma um_range_0 [simp]: "um_range a 0 = {}"
  by (simp add: um_range_def)

lemma um_range_mono: "n \<le> n' \<Longrightarrow> um_range a n \<subseteq> um_range a n'"
  by (auto simp: um_range_def)

lemma um_range_fresh:
  assumes "n < 2 ^ 64"
  shows "a \<notin> um_range (a + 1) n"
proof
  assume "a \<in> um_range (a + 1) n"
  then obtain i where i: "i < n" "a = a + 1 + of_nat i" by (auto simp: um_range_def)
  then have "a + of_nat (Suc i) = a" by (simp add: add.assoc)
  then have "(of_nat (Suc i) :: UINT64) = 0" by (simp del: of_nat_Suc)
  then have "2 ^ 64 dvd Suc i" by (simp add: word_of_nat_eq_0_iff del: of_nat_Suc)
  then show False using i(1) assms by (auto dest: dvd_imp_le)
qed

lemma um_range_apart:
  assumes "unat a + n \<le> unat b" "unat b + m \<le> 2 ^ 64"
  shows "um_range a n \<inter> um_range b m = {}"
proof -
  have u: "unat (c + of_nat i) = unat c + i" if "unat c + i < 2 ^ 64" for c :: UINT64 and i
    using that by (simp add: unat_word_ariths unat_of_nat)
  have False if x: "i < n" "j < m" "a + of_nat i = b + of_nat j" for i j
    using u [of a i] u [of b j] assms x by simp
  then show ?thesis by (auto simp: um_range_def)
qed

lemma um_prefix_cong: "(\<And>x. x \<in> um_range a n \<Longrightarrow> um' x = um x) \<Longrightarrow> um_prefix um' a n = um_prefix um a n"
  by (induction n arbitrary: a) (auto simp: um_range_Suc split: option.splits)

lemma um_prefix_length: "um_mapped um a n \<Longrightarrow> length (um_prefix um a n) = n"
  by (induction n arbitrary: a) (auto simp: um_mapped_def um_range_Suc split: option.splits)

lemma um_mappedD: "um_mapped um a n \<Longrightarrow> n' \<le> n \<Longrightarrow> um_mapped um a n'"
  using um_range_mono by (fastforce simp: um_mapped_def)

lemma copy_from_user_ok: "um_mapped um a n \<Longrightarrow> copy_from_user um a n = (um_prefix um a n, True)"
  by (simp add: copy_from_user_def um_prefix_length)

lemma um_get_ok: "um_mapped um a n \<Longrightarrow> um_get um a n = Inr (um_prefix um a n)"
  by (simp add: um_get_def um_prefix_length)

lemma copy_to_user_ok:
  assumes "um_mapped um a (length xs)" "length xs < 2 ^ 64"
  shows "\<exists>um'. copy_to_user um a xs = (um', True) \<and> um_upd (um_range a (length xs)) um um' \<and>
    um_prefix um' a (length xs) = xs"
  using assms
proof (induction xs arbitrary: um a)
  case Nil
  then show ?case by (simp add: um_upd_def)
next
  case (Cons x xs)
  have l: "length xs < 2 ^ 64" using Cons.prems(2) by simp
  have a: "um a \<noteq> None" and m: "um_mapped (um(a \<mapsto> x)) (a + 1) (length xs)"
    using Cons.prems(1) by (auto simp: um_mapped_def um_range_Suc)
  obtain um' where um': "copy_to_user (um(a \<mapsto> x)) (a + 1) xs = (um', True)"
    "um_upd (um_range (a + 1) (length xs)) (um(a \<mapsto> x)) um'" "um_prefix um' (a + 1) (length xs) = xs"
    using Cons.IH [OF m l] by blast
  have "a \<notin> um_range (a + 1) (length xs)" using Cons.prems(2) by (intro um_range_fresh) simp
  then have "um' a = Some x" using um'(2) by (auto simp: um_upd_def)
  then show ?case using um' a by (auto simp: um_upd_def um_range_Suc)
qed

lemma um_put_ok:
  assumes "um_mapped um a (length xs)" "length xs < 2 ^ 64"
  shows "\<exists>um'. um_put um a xs = Inr um' \<and> um_upd (um_range a (length xs)) um um' \<and> um_prefix um' a (length xs) = xs"
  using copy_to_user_ok [OF assms] by (auto simp: um_put_def)

lemma um_upd_mapped: "um_upd S um um' \<Longrightarrow> um_mapped um' a n = um_mapped um a n"
  by (simp add: um_upd_def um_mapped_def)

lemma um_upd_prefix: "um_upd S um um' \<Longrightarrow> um_range a n \<inter> S = {} \<Longrightarrow> um_prefix um' a n = um_prefix um a n"
  by (rule um_prefix_cong) (auto simp: um_upd_def)

lemma um_prefix_append: "um_mapped um a (m + n) \<Longrightarrow> um_prefix um a (m + n) = um_prefix um a m @ um_prefix um (a + of_nat m) n"
proof (induction m arbitrary: a)
  case 0
  then show ?case by simp
next
  case (Suc m)
  then show ?case by (auto simp: um_mapped_def um_range_Suc add.assoc add.commute [of 1] split: option.splits)
qed

lemma um_prefix_take: "um_mapped um a (m + n) \<Longrightarrow> um_prefix um a (m + n) = um_prefix um a m @ drop m (um_prefix um a (m + n))"
  using um_prefix_append [of um a m n] um_prefix_length [of um a m] um_mappedD [of um a "m + n" m] by simp

lemma PUT32_ok:
  assumes "um_mapped um a 4" "length v = 4"
  shows "\<exists>um'. PUT32_TO_USER flags um a v = Inr um' \<and> um_upd (um_range a 4) um um' \<and> um_prefix um' a 4 = v"
  using um_put_ok [of um a v] assms by (auto simp: PUT32_TO_USER_def put_user32_def)

lemma rd_cr_resp_total:
  assumes "off + sizeof_CR_RESP \<le> length b"
  shows "\<exists>r. rd_cr_resp b off = Inr r"
proof -
  obtain ops where ops: "rd_words 64 b (off + 80) = Inr ops" using rd_words_total [of "off + 80" 64 b] assms by auto
  obtain ac where ac: "rd_words 2 b (off + 336) = Inr ac" using rd_words_total [of "off + 336" 2 b] assms by auto
  show ?thesis using assms ops ac by (simp add: rd_cr_resp_def rd_defs rd_in_bounds getb_def)
qed

section \<open>A command the driver serves\<close>

lemma ioctl_served:
  assumes cmd: "drop_bit 8 cmd AND 0xFF = APPMEMD_IOC_MAGIC" "cmd AND 0xFF = nr" "nr < 32" "arg \<noteq> 0"
    and dev: "kn_devs k m = Some d" "kd_func d = Some f" "fn_pfnOps f = Some ops" "length ops = AM_OP_MAX_OPS"
    and um: "um_mapped (kn_um k) arg (unat nr * 8 + 8)" "um_prefix (kn_um k) arg (unat nr * 8 + 8) = le_enc 4 opc @ rest"
    and opc: "unat (AM_OPCODE opc) < AM_OP_MAX_OPS" "ops ! unat (AM_OPCODE opc) = Some fp" "length (kn_cmd k) = sizeof_CMD_U"
  shows "appmemd_ioctl e k m cmd arg =
    k_dispatch e (k\<lparr>kn_cmd := le_enc 4 opc @ rest @ drop (unat nr * 8 + 8) (kn_cmd k)\<rparr>) m d f (nr * 8 + 8) opc fp"
proof -
  have nr: "unat nr < 32" using cmd(3) by (simp add: word_less_nat_alt)
  have n: "unat (nr * 8 + 8) = unat nr * 8 + 8"
  proof -
    have "unat (nr * 8) = unat nr * 8" using nr by (subst unat_mult_lem [THEN iffD1]) simp_all
    then show ?thesis using nr by (subst unat_add_lem [THEN iffD1]) simp_all
  qed
  have le: "\<not> 32 < nr" using cmd(3) by simp
  have len: "length (le_enc 4 opc @ rest) = unat nr * 8 + 8" using um_prefix_length [OF um(1)] unfolding um(2) .
  have put: "putb (kn_cmd k) 0 (le_enc 4 opc @ rest) = Inr (le_enc 4 opc @ rest @ drop (unat nr * 8 + 8) (kn_cmd k))"
    using len nr opc(3) by (simp add: putb_in_bounds add.commute)
  have rd: "rd32 (le_enc 4 opc @ rest @ drop (unat nr * 8 + 8) (kn_cmd k)) 0 = Inr opc" by (simp add: rd_defs rd_enc)
  have "ucast (AM_OPCODE opc) = (ucast (AM_OPCODE opc) :: UINT8) \<and> unat (ucast (AM_OPCODE opc) :: UINT8) = unat (AM_OPCODE opc)"
    using opc(1) by (simp add: unsigned_ucast_eq unsigned_take_bit_eq take_bit_nat_eq_self)
  then have en: "op_entry ops (ucast (AM_OPCODE opc)) = Inr (Some fp)" using opc(1,2) dev(4) by (simp add: op_entry_def)
  show ?thesis
    using cmd(1,2,4) le dev(1-3) put rd en
    by (simp add: appmemd_ioctl_def Let_def n copy_from_user_ok [OF um(1)] um(2))
qed

section \<open>Devices through the driver\<close>

text \<open>
  A client of a device file: its function object, the driver, the address of its command, two places for the
  address and the data of an operation, and the kernel.
\<close>

record kd_client =
  kc_F :: mem_func
  kc_e :: kenv
  kc_fds :: fd_table
  kc_sp :: UINT64
  kc_p1 :: UINT64
  kc_p2 :: UINT64
  kc_k :: kern

definition kc_load :: "kd_client \<Rightarrow> bytes \<Rightarrow> bytes \<Rightarrow> kern res" where
  "kc_load c b1 b2 =
     bindr (um_put (kn_um (kc_k c)) (kc_p1 c) (take 4 b1)) (\<lambda>um.
     bindr (um_put um (kc_p2 c) (take 4 b2)) (\<lambda>um. Inr ((kc_k c)\<lparr>kn_um := um\<rparr>)))"

definition kd_read :: "kd_client \<Rightarrow> buf \<Rightarrow> buf \<Rightarrow> (AM_RETURN \<times> kd_client \<times> buf) res" where
  "kd_read c p1 p2 =
     bindr (the_buf p1) (\<lambda>b1. bindr (the_buf p2) (\<lambda>b2.
     bindr (kc_load c b1 b2) (\<lambda>k.
     bindr (am_kd_read32_align (kc_e c) (kc_fds c) (kc_sp c) k (kc_F c) (kc_p1 c) (kc_p2 c)) (\<lambda>(st, k).
     bindr (um_get (kn_um k) (kc_p2 c) 4) (\<lambda>d. Inr (st, c\<lparr>kc_k := k\<rparr>, Some (d @ drop 4 b2)))))))"

definition kd_write :: "kd_client \<Rightarrow> buf \<Rightarrow> buf \<Rightarrow> (AM_RETURN \<times> kd_client \<times> buf) res" where
  "kd_write c p1 p2 =
     bindr (the_buf p1) (\<lambda>b1. bindr (the_buf p2) (\<lambda>b2.
     bindr (kc_load c b1 b2) (\<lambda>k.
     bindr (am_kd_write32_align (kc_e c) (kc_fds c) (kc_sp c) k (kc_F c) (kc_p1 c) (kc_p2 c)) (\<lambda>(st, k).
     Inr (st, c\<lparr>kc_k := k\<rparr>, p2)))))"

definition kc_minor :: "kd_client \<Rightarrow> UINT32 option" where
  "kc_minor c = kc_fds c (fn_handle (kc_F c))"

definition kc_dev :: "kd_client \<Rightarrow> mem_func option" where
  "kc_dev c = Option.bind (Option.bind (kc_minor c) (kn_devs (kc_k c))) kd_func"

definition kc_ok :: "fn_ptr \<Rightarrow> fn_ptr \<Rightarrow> kd_client \<Rightarrow> bool" where
  "kc_ok rdf wrf c \<longleftrightarrow> (\<exists>f. kc_dev c = Some f \<and> dev_ok rdf wrf f) \<and> length (kn_cmd (kc_k c)) = sizeof_CMD_U \<and>
     kc_sp c \<noteq> 0 \<and> um_mapped (kn_um (kc_k c)) (kc_sp c) 24 \<and> um_mapped (kn_um (kc_k c)) (kc_p1 c) 4 \<and>
     um_mapped (kn_um (kc_k c)) (kc_p2 c) 4 \<and> um_range (kc_p1 c) 4 \<inter> um_range (kc_sp c) 24 = {} \<and>
     um_range (kc_p2 c) 4 \<inter> um_range (kc_sp c) 24 = {} \<and> um_range (kc_p1 c) 4 \<inter> um_range (kc_p2 c) 4 = {}"

definition kc_store :: "(mem_func \<Rightarrow> bytes) \<Rightarrow> kd_client \<Rightarrow> bytes" where
  "kc_store store c = (case kc_dev c of Some f \<Rightarrow> store f | None \<Rightarrow> [])"

definition kc_cell ::
  "fn_ptr \<Rightarrow> fn_ptr \<Rightarrow> (mem_func \<Rightarrow> bytes \<Rightarrow> nat option) \<Rightarrow> kd_client \<Rightarrow> bytes \<Rightarrow> nat option" where
  "kc_cell rdf wrf cell c k = (if kc_ok rdf wrf c then (case kc_dev c of Some f \<Rightarrow> cell f k | None \<Rightarrow> None) else None)"

lemma kc_cell_Some:
  assumes "kc_cell rdf wrf cell c k = Some q"
  obtains m d f ops where "kc_ok rdf wrf c" "kc_fds c (fn_handle (kc_F c)) = Some m" "kn_devs (kc_k c) m = Some d"
    "kd_func d = Some f" "kc_dev c = Some f" "dev_ok rdf wrf f" "cell f k = Some q" "fn_pfnOps f = Some ops"
    "length ops = 64" "ops ! 16 = Some wrf" "ops ! 17 = Some rdf"
  using assms
  by (auto simp: kc_cell_def kc_ok_def kc_dev_def kc_minor_def dev_ok_def bind_eq_Some_conv split: if_splits)

lemma kc_load_ok:
  assumes "kc_ok rdf wrf c" "4 \<le> length b1" "4 \<le> length b2"
  shows "\<exists>um. kc_load c b1 b2 = Inr ((kc_k c)\<lparr>kn_um := um\<rparr>) \<and> dom um = dom (kn_um (kc_k c)) \<and>
    um_prefix um (kc_p1 c) 4 = take 4 b1 \<and> um_prefix um (kc_p2 c) 4 = take 4 b2"
proof -
  let ?um = "kn_um (kc_k c)"
  have m1: "um_mapped ?um (kc_p1 c) (length (take 4 b1))" using assms by (simp add: kc_ok_def min_absorb2)
  obtain um1 where um1: "um_put ?um (kc_p1 c) (take 4 b1) = Inr um1" "um_upd (um_range (kc_p1 c) 4) ?um um1"
    "um_prefix um1 (kc_p1 c) 4 = take 4 b1"
    using um_put_ok [OF m1] assms(2) by (auto simp: min_absorb2)
  have m2: "um_mapped um1 (kc_p2 c) (length (take 4 b2))" using assms um_upd_mapped [OF um1(2)] by (simp add: kc_ok_def min_absorb2)
  obtain um2 where um2: "um_put um1 (kc_p2 c) (take 4 b2) = Inr um2" "um_upd (um_range (kc_p2 c) 4) um1 um2"
    "um_prefix um2 (kc_p2 c) 4 = take 4 b2"
    using um_put_ok [OF m2] assms(3) by (auto simp: min_absorb2)
  have "um_prefix um2 (kc_p1 c) 4 = take 4 b1"
    using um_upd_prefix [OF um2(2)] um1(3) assms(1) by (simp add: kc_ok_def)
  moreover have "dom um2 = dom ?um" using um1(2) um2(2) by (simp add: um_upd_def)
  ultimately show ?thesis using um1(1) um2(1,3) by (auto simp: kc_load_def)
qed

text \<open>The command on the stack, as the driver copies it: 16 bytes of it are set.\<close>

lemma kd_ioctl_aligned:
  assumes "um_mapped um sp 24" "length cmd = 16"
  shows "\<exists>um' junk8. um_put um sp cmd = Inr um' \<and> um_upd (um_range sp 16) um um' \<and>
    um_prefix um' sp 24 = cmd @ junk8 \<and> length junk8 = 8"
proof -
  have m: "um_mapped um sp (length cmd)" using um_mappedD [OF assms(1)] assms(2) by simp
  obtain um' where um': "um_put um sp cmd = Inr um'" "um_upd (um_range sp 16) um um'" "um_prefix um' sp 16 = cmd"
    using um_put_ok [OF m] assms(2) by auto
  have "um_mapped um' sp (16 + 8)" using assms(1) um_upd_mapped [OF um'(2)] by simp
  from um_prefix_take [OF this] um_prefix_length [OF this] um' show ?thesis
    by (intro exI [of _ um'] exI [of _ "drop 16 (um_prefix um' sp 24)"]) simp
qed

lemma aligned_op_codes:
  "AM_OPCODE AM_OP_CODE_WRITE_ALIGN = 16" "AM_OPCODE AM_OP_CODE_READ_ALIGN = 17"
  "IS_OP_ALIGNED AM_OP_CODE_WRITE_ALIGN" "IS_OP_ALIGNED AM_OP_CODE_READ_ALIGN"
  "AM_OP_CODE_WRITE_ALIGN AND 1 = 0" "AM_OP_CODE_READ_ALIGN AND 1 = 1"
  by (simp_all add: AM_OP_CODE_WRITE_ALIGN_def AM_OP_CODE_READ_ALIGN_def AM_SET_PACKTYPE_def AM_OPCODE_def
      IS_OP_ALIGNED_def AM_NET_GET_PACKTYPE_def)

lemma APPMEMD_OP_simps:
  "drop_bit 8 APPMEMD_OP_COMMON AND 0xFF = APPMEMD_IOC_MAGIC" "APPMEMD_OP_COMMON AND 0xFF = 2"
  "drop_bit 8 APPMEMD_OP_BIDIR AND 0xFF = APPMEMD_IOC_MAGIC" "APPMEMD_OP_BIDIR AND 0xFF = 3"
  by (simp_all add: APPMEMD_OP_def)

lemma kc_next:
  assumes "kc_ok rdf wrf c" "kc_fds c (fn_handle (kc_F c)) = Some m" "kn_devs (kc_k c) m = Some d" "kd_func d = Some f"
    and "kn_devs k' = (kn_devs (kc_k c))(m \<mapsto> d\<lparr>kd_func := Some f'\<rparr>)" "length (kn_cmd k') = sizeof_CMD_U"
    and "dom (kn_um k') = dom (kn_um (kc_k c))"
    and "fn_pfnOps f' = fn_pfnOps f" "fn_crResp f' = fn_crResp f" "cell f' = cell f"
  shows "kc_cell rdf wrf cell (c\<lparr>kc_k := k'\<rparr>) = kc_cell rdf wrf cell c" "kc_dev (c\<lparr>kc_k := k'\<rparr>) = Some f'"
proof -
  show d: "kc_dev (c\<lparr>kc_k := k'\<rparr>) = Some f'" using assms(2,5) by (simp add: kc_dev_def kc_minor_def)
  have f: "kc_dev c = Some f" using assms(2-4) by (simp add: kc_dev_def kc_minor_def)
  have "kc_ok rdf wrf (c\<lparr>kc_k := k'\<rparr>)"
    using assms(1,6-9) f d by (auto simp: kc_ok_def dev_ok_def um_mapped_def)
  then show "kc_cell rdf wrf cell (c\<lparr>kc_k := k'\<rparr>) = kc_cell rdf wrf cell c"
    using assms(1,10) f d by (intro ext) (simp add: kc_cell_def)
qed

text \<open>An aligned command of the client reaches the operator of the device.\<close>

lemma kd_command:
  assumes c: "kc_ok rdf wrf c" "kc_fds c (fn_handle (kc_F c)) = Some m" "kn_devs (kc_k c) m = Some d" "kd_func d = Some f"
    and ops: "fn_pfnOps f = Some ops" "length ops = 64" "unat (AM_OPCODE opc) < 64" "ops ! unat (AM_OPCODE opc) = Some fp"
    and k: "4 \<le> length k" and um: "dom um = dom (kn_um (kc_k c))"
  shows "\<exists>um' j. kd_ioctl e (kc_fds c) (kc_sp c) ((kc_k c)\<lparr>kn_um := um\<rparr>) (fn_handle (kc_F c)) APPMEMD_OP_COMMON
      (enc_cmd_aligned opc (le_dec (take 4 k)) data) =
    k_dispatch e ((kc_k c)\<lparr>kn_um := um', kn_cmd := le_enc 4 opc @ take 4 k @ le_enc 8 data @ j\<rparr>) m d f 24 opc fp \<and>
    length j = 240 \<and> dom um' = dom um"
proof -
  let ?cmd = "enc_cmd_aligned opc (le_dec (take 4 k)) data"
  have m: "um_mapped um (kc_sp c) 24" using c(1) um by (auto simp: kc_ok_def um_mapped_def)
  obtain um' j where um': "um_put um (kc_sp c) ?cmd = Inr um'" "um_upd (um_range (kc_sp c) 16) um um'"
    "um_prefix um' (kc_sp c) 24 = ?cmd @ j" "length j = 8"
    using kd_ioctl_aligned [OF m] by (force simp: enc_cmd_aligned_def)
  have cmd: "?cmd @ j = le_enc 4 opc @ take 4 k @ le_enc 8 data @ j"
    using k by (simp add: enc_cmd_aligned_def le_enc_le_dec_word)
  have "appmemd_ioctl e ((kc_k c)\<lparr>kn_um := um'\<rparr>) m APPMEMD_OP_COMMON (kc_sp c) = k_dispatch e
      ((kc_k c)\<lparr>kn_um := um', kn_cmd := le_enc 4 opc @ take 4 k @ le_enc 8 data @ j @ drop 24 (kn_cmd (kc_k c))\<rparr>) m d f 24 opc fp"
    using ioctl_served [of APPMEMD_OP_COMMON 2 "kc_sp c" "(kc_k c)\<lparr>kn_um := um'\<rparr>" m d f ops opc "take 4 k @ le_enc 8 data @ j" fp e]
      c ops um'(3) cmd um_upd_mapped [OF um'(2)] m
    by (simp add: APPMEMD_OP_simps kc_ok_def)
  moreover have "length (j @ drop 24 (kn_cmd (kc_k c))) = 240" using um'(4) c(1) by (simp add: kc_ok_def)
  moreover have "dom um' = dom um" using um'(2) by (simp add: um_upd_def)
  ultimately show ?thesis using um'(1) c(2)
    by (intro exI [of _ um'] exI [of _ "j @ drop 24 (kn_cmd (kc_k c))"]) (simp add: kd_ioctl_def)
qed

lemma take_le_enc_ucast: "take 4 (le_enc 8 (ucast (w :: UINT32) :: UINT64)) = le_enc 4 w"
proof -
  have "(ucast (drop_bit n (ucast w :: UINT64)) :: UINT8) = ucast (drop_bit n w)" for n
    by (intro bit_word_eqI) (auto simp: bit_simps dest: bit_imp_le_length)
  from this [of 0] this [of 8] this [of 16] this [of 24] show ?thesis by (simp add: numeral_eq_Suc)
qed

locale kernel_device = packet_device +
  assumes k_read: "k_align_read rdf flags um f p1 ua =
      bindr (call_align rdf (\<lambda>_. True) f (Some p1) (Some (replicate 4 0))) (\<lambda>(st, f, b).
      bindr (the_buf b) (\<lambda>b. bindr (PUT32_TO_USER flags um ua b) (\<lambda>um. Inr (st, f, um))))"
    and k_write: "k_align_write wrf al f p1 p2 =
      bindr (call_align wrf (\<lambda>_. True) f (Some p1) (Some p2)) (\<lambda>(st, f, _). Inr (st, f))"
begin

lemma kd_read_ok:
  assumes c: "kc_cell rdf wrf cell c k = Some q" and d: "4 \<le> length b"
  shows "\<exists>c'. kd_read c (Some k) (Some b) = Inr (AM_RET_GOOD, c', Some (take 4 (drop q (kc_store store c)) @ drop 4 b)) \<and>
    kc_store store c' = kc_store store c \<and> kc_cell rdf wrf cell c' = kc_cell rdf wrf cell c"
proof -
  from kc_cell_Some [OF c] obtain m dv f ops where f: "kc_ok rdf wrf c" "kc_fds c (fn_handle (kc_F c)) = Some m"
    "kn_devs (kc_k c) m = Some dv" "kd_func dv = Some f" "kc_dev c = Some f" "dev_ok rdf wrf f" "cell f k = Some q"
    "fn_pfnOps f = Some ops" "length ops = 64" "ops ! 16 = Some wrf" "ops ! 17 = Some rdf" .
  have k: "4 \<le> length k" using cell_key(2) [OF f(7)] .
  obtain um where um: "kc_load c k b = Inr ((kc_k c)\<lparr>kn_um := um\<rparr>)" "dom um = dom (kn_um (kc_k c))"
    "um_prefix um (kc_p1 c) 4 = take 4 k" "um_prefix um (kc_p2 c) 4 = take 4 b"
    using kc_load_ok [OF f(1) k d] by blast
  have m: "um_mapped um (kc_p1 c) 4" "um_mapped um (kc_p2 c) 4" using f(1) um(2) by (auto simp: kc_ok_def um_mapped_def)
  have op: "unat (AM_OPCODE AM_OP_CODE_READ_ALIGN) < 64" "ops ! unat (AM_OPCODE AM_OP_CODE_READ_ALIGN) = Some rdf"
    using f(11) by (simp_all add: aligned_op_codes)
  obtain um' j where io: "kd_ioctl (kc_e c) (kc_fds c) (kc_sp c) ((kc_k c)\<lparr>kn_um := um\<rparr>) (fn_handle (kc_F c)) APPMEMD_OP_COMMON
      (enc_cmd_aligned AM_OP_CODE_READ_ALIGN (le_dec (take 4 k)) (kc_p2 c)) =
    k_dispatch (kc_e c) ((kc_k c)\<lparr>kn_um := um', kn_cmd := le_enc 4 AM_OP_CODE_READ_ALIGN @ take 4 k @ le_enc 8 (kc_p2 c) @ j\<rparr>)
      m dv f 24 AM_OP_CODE_READ_ALIGN rdf" "length j = 240" "dom um' = dom um"
    using kd_command [OF f(1-4,8,9) op k um(2)] by blast
  let ?rest = "take 4 k @ le_enc 8 (kc_p2 c) @ j"
  have ck: "cell f ?rest = Some q"
    using cell_key(1) [of f ?rest] cell_key(1) [of f k] k f(7) by (simp add: min_absorb2)
  obtain f' where f': "call_align rdf (\<lambda>_. True) f (Some ?rest) (Some (replicate 4 0)) =
      Inr (AM_RET_GOOD, f', Some (take 4 (drop q (store f))))" "store f' = store f" "cell f' = cell f"
    using read_ok [OF ck, of "replicate 4 0"] by auto
  have l4: "length (take 4 (drop q (store f))) = 4" using cell_bound [OF f(7)] by simp
  have m': "um_mapped um' (kc_p2 c) 4" using m(2) io(3) by (simp add: um_mapped_def)
  obtain um2 where um2: "PUT32_TO_USER (kd_flags dv) um' (kc_p2 c) (take 4 (drop q (store f))) = Inr um2"
    "um_upd (um_range (kc_p2 c) 4) um' um2" "um_prefix um2 (kc_p2 c) 4 = take 4 (drop q (store f))"
    using PUT32_ok [OF m' l4, of "kd_flags dv"] by blast
  define k2 where "k2 = (k_put_func m f' ((kc_k c)\<lparr>kn_um := um2, kn_cmd := le_enc 4 AM_OP_CODE_READ_ALIGN @ ?rest\<rparr>))"
  have "rd64 (le_enc 4 AM_OP_CODE_READ_ALIGN @ ?rest) 8 = Inr (kc_p2 c)" using k by (simp add: rd_defs rd_enc)
  then have "k_dispatch (kc_e c) ((kc_k c)\<lparr>kn_um := um', kn_cmd := le_enc 4 AM_OP_CODE_READ_ALIGN @ ?rest\<rparr>)
      m dv f 24 AM_OP_CODE_READ_ALIGN rdf = Inr (AM_RET_GOOD, k2)"
    using f'(1) um2(1) by (simp add: k_dispatch_def Let_def aligned_op_codes k_read k2_def k_put_func_def set_dev_def)
  then have "kd_read c (Some k) (Some b) = Inr (AM_RET_GOOD, c\<lparr>kc_k := k2\<rparr>, Some (take 4 (drop q (store f)) @ drop 4 b))"
    using um um_get_ok [OF m(1)] io(1) um2(3) um_get_ok [of um2 "kc_p2 c" 4] m' um_upd_mapped [OF um2(2)]
    by (simp add: kd_read_def am_kd_read32_align_def) (simp add: k2_def k_put_func_def set_dev_def)
  moreover have fr: "fn_pfnOps f' = fn_pfnOps f" "fn_crResp f' = fn_crResp f" using rd_frame [OF f'(1)] by simp_all
  have devs: "kn_devs k2 = (kn_devs (kc_k c))(m \<mapsto> dv\<lparr>kd_func := Some f'\<rparr>)"
    using f(3) by (simp add: k2_def k_put_func_def set_dev_def)
  have cl: "length (kn_cmd k2) = 256" "dom (kn_um k2) = dom (kn_um (kc_k c))"
    using k io(2,3) um2(2) um(2) by (simp_all add: k2_def k_put_func_def set_dev_def um_upd_def)
  note kc_next [OF f(1-4) devs cl fr f'(3)]
  ultimately show ?thesis using f(5) f'(2) by (intro exI [of _ "c\<lparr>kc_k := k2\<rparr>"]) (simp add: kc_store_def)
qed

lemma kd_write_ok:
  assumes c: "kc_cell rdf wrf cell c k = Some q" and d: "4 \<le> length b"
  shows "\<exists>c'. kd_write c (Some k) (Some b) = Inr (AM_RET_GOOD, c', Some b) \<and>
    kc_store store c' = splice_at (kc_store store c) q (take 4 b) \<and> kc_cell rdf wrf cell c' = kc_cell rdf wrf cell c"
proof -
  from kc_cell_Some [OF c] obtain m dv f ops where f: "kc_ok rdf wrf c" "kc_fds c (fn_handle (kc_F c)) = Some m"
    "kn_devs (kc_k c) m = Some dv" "kd_func dv = Some f" "kc_dev c = Some f" "dev_ok rdf wrf f" "cell f k = Some q"
    "fn_pfnOps f = Some ops" "length ops = 64" "ops ! 16 = Some wrf" "ops ! 17 = Some rdf" .
  have k: "4 \<le> length k" using cell_key(2) [OF f(7)] .
  obtain um where um: "kc_load c k b = Inr ((kc_k c)\<lparr>kn_um := um\<rparr>)" "dom um = dom (kn_um (kc_k c))"
    "um_prefix um (kc_p1 c) 4 = take 4 k" "um_prefix um (kc_p2 c) 4 = take 4 b"
    using kc_load_ok [OF f(1) k d] by blast
  have m: "um_mapped um (kc_p1 c) 4" "um_mapped um (kc_p2 c) 4" using f(1) um(2) by (auto simp: kc_ok_def um_mapped_def)
  have op: "unat (AM_OPCODE AM_OP_CODE_WRITE_ALIGN) < 64" "ops ! unat (AM_OPCODE AM_OP_CODE_WRITE_ALIGN) = Some wrf"
    using f(10) by (simp_all add: aligned_op_codes)
  let ?w = "ucast (le_dec (take 4 b) :: UINT32) :: UINT64"
  obtain um' j where io: "kd_ioctl (kc_e c) (kc_fds c) (kc_sp c) ((kc_k c)\<lparr>kn_um := um\<rparr>) (fn_handle (kc_F c)) APPMEMD_OP_COMMON
      (enc_cmd_aligned AM_OP_CODE_WRITE_ALIGN (le_dec (take 4 k)) ?w) =
    k_dispatch (kc_e c) ((kc_k c)\<lparr>kn_um := um', kn_cmd := le_enc 4 AM_OP_CODE_WRITE_ALIGN @ take 4 k @ le_enc 8 ?w @ j\<rparr>)
      m dv f 24 AM_OP_CODE_WRITE_ALIGN wrf" "length j = 240" "dom um' = dom um"
    using kd_command [OF f(1-4,8,9) op k um(2)] by blast
  let ?rest = "take 4 k @ le_enc 8 ?w @ j"
  have ck: "cell f ?rest = Some q"
    using cell_key(1) [of f ?rest] cell_key(1) [of f k] k f(7) by (simp add: min_absorb2)
  have w4: "take 4 (le_enc 8 ?w @ j) = take 4 b" using d by (simp add: take_le_enc_ucast le_enc_le_dec_word)
  obtain f' where f': "call_align wrf (\<lambda>_. True) f (Some ?rest) (Some (le_enc 8 ?w @ j)) = Inr (AM_RET_GOOD, f', Some (le_enc 8 ?w @ j))"
    "store f' = splice_at (store f) q (take 4 b)" "cell f' = cell f"
    using write_ok [OF ck, of "le_enc 8 ?w @ j"] unfolding w4 by auto
  define k2 where "k2 = (k_put_func m f' ((kc_k c)\<lparr>kn_um := um', kn_cmd := le_enc 4 AM_OP_CODE_WRITE_ALIGN @ ?rest\<rparr>))"
  have "k_dispatch (kc_e c) ((kc_k c)\<lparr>kn_um := um', kn_cmd := le_enc 4 AM_OP_CODE_WRITE_ALIGN @ ?rest\<rparr>)
      m dv f 24 AM_OP_CODE_WRITE_ALIGN wrf = Inr (AM_RET_GOOD, k2)"
    using f'(1) k by (simp add: k_dispatch_def Let_def aligned_op_codes k_write k2_def)
  then have "kd_write c (Some k) (Some b) = Inr (AM_RET_GOOD, c\<lparr>kc_k := k2\<rparr>, Some b)"
    using um um_get_ok [OF m(1)] um_get_ok [OF m(2)] io(1) by (simp add: kd_write_def am_kd_write32_align_def)
  moreover have fr: "fn_pfnOps f' = fn_pfnOps f" "fn_crResp f' = fn_crResp f" using wr_frame [OF f'(1)] by simp_all
  have devs: "kn_devs k2 = (kn_devs (kc_k c))(m \<mapsto> dv\<lparr>kd_func := Some f'\<rparr>)"
    using f(3) by (simp add: k2_def k_put_func_def set_dev_def)
  have cl: "length (kn_cmd k2) = 256" "dom (kn_um k2) = dom (kn_um (kc_k c))"
    using k io(2,3) um(2) by (simp_all add: k2_def k_put_func_def set_dev_def)
  note kc_next [OF f(1-4) devs cl fr f'(3)]
  ultimately show ?thesis using f(5) f'(2) by (intro exI [of _ "c\<lparr>kc_k := k2\<rparr>"]) (simp add: kc_store_def)
qed

end

interpretation flat_kernel: kernel_device Fn_flat_read32_align Fn_flat_write32_align flat_store flat_cell
  by unfold_locales (simp_all add: k_align_write_def case_prod_beta)

interpretation stata_kernel: kernel_device Fn_stata_read_idx32 Fn_stata_write_idx32 stata_store stata_cell
  by unfold_locales (simp_all add: k_align_write_def case_prod_beta)

sublocale kernel_device \<subseteq> kd:
  aligned_device kd_read kd_write "kc_store store" "kc_cell rdf wrf cell"
proof
  fix c k p assume c: "kc_cell rdf wrf cell c k = Some p"
  from kc_cell_Some [OF c] obtain f where "kc_dev c = Some f" "cell f k = Some p" .
  with cell_bound show "p + 4 \<le> length (kc_store store c)" by (simp add: kc_store_def)
qed (rule kd_read_ok kd_write_ok; assumption)+

section \<open>Refusals and faults of the driver\<close>

lemma opc_cast: "unat (ucast (AM_OPCODE opc) :: UINT8) = unat (AM_OPCODE opc)"
proof -
  have "AM_OPCODE opc \<le> 0xFF" by (simp add: AM_OPCODE_def word_and_le2)
  then have "unat (AM_OPCODE opc) < 2 ^ 8" by (simp add: word_le_nat_alt)
  then show ?thesis by (simp add: unsigned_ucast_eq unsigned_take_bit_eq take_bit_nat_eq_self)
qed

text \<open>
  A command to an opened device. One with another magic number or a number above 32 changes nothing and is answered
  by \<open>-ENOTTY\<close>, and a null argument by 0. The number 32 has the driver copy 264 bytes into its command of 256: that is a write
  outside it whatever the arguments are.
\<close>

theorem appmemd_ioctl_bounds:
  assumes "kn_devs k m = Some d" "kd_func d = Some f" "length (kn_cmd k) = sizeof_CMD_U"
  shows "(drop_bit 8 cmd AND 0xFF \<noteq> APPMEMD_IOC_MAGIC \<or> 32 < cmd AND 0xFF \<longrightarrow>
      appmemd_ioctl e k m cmd arg = Inr (MINUS_ENOTTY, k)) \<and>
    (drop_bit 8 cmd AND 0xFF = APPMEMD_IOC_MAGIC \<and> cmd AND 0xFF \<le> 32 \<and> arg = 0 \<longrightarrow> appmemd_ioctl e k m cmd arg = Inr (0, k)) \<and>
    (drop_bit 8 cmd AND 0xFF = APPMEMD_IOC_MAGIC \<and> cmd AND 0xFF = 32 \<and> arg \<noteq> 0 \<longrightarrow> appmemd_ioctl e k m cmd arg = Inl OutOfBounds)"
proof -
  have "length (um_prefix um a n) \<le> n" for um a n by (induction n arbitrary: a) (auto split: option.splits)
  from this [of "kn_um k" arg 264] have "length (fst (copy_from_user (kn_um k) arg 264)) = 264"
    by (simp add: copy_from_user_def Let_def)
  then have "putb (kn_cmd k) 0 (fst (copy_from_user (kn_um k) arg 264)) = Inl OutOfBounds"
    using assms(3) by (simp add: putb_out_of_bounds)
  then show ?thesis using assms(1,2) by (auto simp: appmemd_ioctl_def Let_def case_prod_beta)
qed

text \<open>
  An opcode is not bounded by the 64 entries of the operator table: from 64 on, the driver reads behind it; below,
  a missing entry is answered by \<open>-ENOTTY\<close>, with nothing changed but the driver's buffer.
\<close>

theorem appmemd_ioctl_opcode:
  assumes "kn_devs k m = Some d" "kd_func d = Some f" "fn_pfnOps f = Some ops" "length ops = AM_OP_MAX_OPS" "arg \<noteq> 0"
    and "um_mapped (kn_um k) arg 24" "um_prefix (kn_um k) arg 24 = le_enc 4 opc @ rest" "length (kn_cmd k) = sizeof_CMD_U"
    and "64 \<le> unat (AM_OPCODE opc) \<or> ops ! unat (AM_OPCODE opc) = None"
  shows "appmemd_ioctl e k m APPMEMD_OP_COMMON arg =
    (if 64 \<le> unat (AM_OPCODE opc) then Inl OutOfBounds
     else Inr (MINUS_ENOTTY, k\<lparr>kn_cmd := le_enc 4 opc @ rest @ drop 24 (kn_cmd k)\<rparr>))"
proof -
  have len: "length (le_enc 4 opc @ rest) = 24" using um_prefix_length [OF assms(6)] unfolding assms(7) .
  have put: "putb (kn_cmd k) 0 (le_enc 4 opc @ rest) = Inr (le_enc 4 opc @ rest @ drop 24 (kn_cmd k))"
    using len assms(8) by (simp add: putb_in_bounds add.commute)
  have rd: "rd32 (le_enc 4 opc @ rest @ drop 24 (kn_cmd k)) 0 = Inr opc" by (simp add: rd_defs rd_enc)
  show ?thesis
    using assms(1-5,9) put rd
    by (simp add: appmemd_ioctl_def APPMEMD_OP_simps Let_def copy_from_user_ok [OF assms(6)] assms(7) op_entry_def opc_cast) auto
qed

text \<open>
  A read of an associative array through \<^verbatim>\<open>ioctl\<close> goes the wrong way: the driver answers \<open>AM_RET_GOOD\<close>, the memory of
  the process keeps what it held, and the data of the item is replaced by the contents of the buffer that was to receive it.
\<close>

theorem k_assca_read_overwrites:
  assumes "fn_pVdF f = Live (FdAssca fd)" "as_data fd = Live aa" "HASH_FIND (aa_hash aa) key (aa_key_len aa) = Inr (Some i)"
    and "uh_elems (aa_hash aa) i = Some x" "length (ue_val x) = unat (aa_data_len aa)"
    and "flags AND AM_FUNC_DATA_FLAG_MMAPPED = 0" "um_mapped um ua (unat (aa_data_len aa))"
  shows "k_align_read Fn_assca_read32_align flags um f key ua = Inr (AM_RET_GOOD, set_assca f fd (aa\<lparr>aa_hash := (aa_hash aa)
      \<lparr>uh_elems := (uh_elems (aa_hash aa))(i \<mapsto> x\<lparr>ue_val := um_prefix um ua (unat (aa_data_len aa))\<rparr>)\<rparr>\<rparr>), um)"
proof -
  have "putb (ue_val x) 0 (um_prefix um ua (unat (aa_data_len aa))) = Inr (um_prefix um ua (unat (aa_data_len aa)))"
    using assms(5) um_prefix_length [OF assms(7)] by (simp add: putb_in_bounds)
  then show ?thesis
    using assms by (simp add: k_assca_read_def k_assca_get_key_val_def COPY_TO_USER_def copy_from_user_ok [OF assms(7)] getel_def upd_el_def)
qed

section \<open>A kernel to run the properties on\<close>

text \<open>One device with a flat memory; every allocation succeeds.\<close>

definition demo_kenv :: kenv where
  "demo_kenv = \<lparr>ke_al = \<lambda>_. True, ke_junk = \<lambda>_. 0, ke_func = zero_func, ke_flags = 0\<rparr>"

lemma demo_kenv_simps [simp]: "ke_al demo_kenv i" "wf_cr (fn_crResp (ke_func demo_kenv))"
  by (simp_all add: demo_kenv_def zero_func_def)

definition demo_kern :: "umem \<Rightarrow> kern" where
  "demo_kern um = \<lparr>kn_reg = empty_registry, kn_major = 250, kn_minor = 2,
     kn_devs = [1 \<mapsto> \<lparr>kd_func = Some demo_flat, kd_amType = AM_TYPE_FLAT_MEM, kd_devt = 1, kd_am_name = [],
       kd_pack_DataOffset = 0, kd_wr_pack_size = 0, kd_rd_pack_size = 0, kd_flags = 0\<rparr>],
     kn_head = [1], kn_cmd = replicate sizeof_CMD_U 0, kn_um = um\<rparr>"

lemma appmemd_ioctl_bounds_witness:
  "appmemd_ioctl demo_kenv (demo_kern (\<lambda>_. None)) 1 (APPMEMD_OP 32) 5000 = Inl OutOfBounds \<and>
   appmemd_ioctl demo_kenv (demo_kern (\<lambda>_. None)) 1 (APPMEMD_OP 33) 5000 = Inr (- 25, demo_kern (\<lambda>_. None)) \<and>
   appmemd_ioctl demo_kenv (demo_kern (\<lambda>_. None)) 1 (APPMEMD_OP 2) 0 = Inr (0, demo_kern (\<lambda>_. None))"
  using appmemd_ioctl_bounds [of "demo_kern (\<lambda>_. None)" 1 _ demo_flat]
  by (simp add: demo_kern_def APPMEMD_OP_def)

lemma demo_um:
  "\<exists>um. um_mapped um 5000 24 \<and> um_prefix um 5000 24 = le_enc 4 (opc :: UINT32) @ replicate 20 0"
proof -
  have m: "um_mapped (\<lambda>_. Some 0) a n" for a n by (simp add: um_mapped_def dom_def)
  show ?thesis
    using um_put_ok [of "\<lambda>_. Some 0" 5000 "le_enc 4 opc @ replicate 20 0"] m [of 5000 24] um_upd_mapped [of _ "\<lambda>_. Some 0" _ 5000 24]
    by auto
qed

lemma appmemd_ioctl_opcode_witness:
  "\<exists>um um'. appmemd_ioctl demo_kenv (demo_kern um) 1 (APPMEMD_OP 2) 5000 = Inl OutOfBounds \<and>
    (\<exists>k. appmemd_ioctl demo_kenv (demo_kern um') 1 (APPMEMD_OP 2) 5000 = Inr (- 25, k))"
proof -
  have ops: "fn_pfnOps demo_flat = Some (demo_ops Fn_flat_read32_align Fn_flat_write32_align)"
    "length (demo_ops Fn_flat_read32_align Fn_flat_write32_align) = 64"
    "demo_ops Fn_flat_read32_align Fn_flat_write32_align ! 5 = None"
    by (simp_all add: demo_flat_def demo_func_def demo_ops_def zero_ops_def)
  have o: "AM_OPCODE 64 = 64" "AM_OPCODE 5 = 5" by (simp_all add: AM_OPCODE_def)
  obtain um where um: "um_mapped um 5000 24" "um_prefix um 5000 24 = le_enc 4 (64 :: UINT32) @ replicate 20 0" using demo_um by blast
  obtain um' where um': "um_mapped um' 5000 24" "um_prefix um' 5000 24 = le_enc 4 (5 :: UINT32) @ replicate 20 0" using demo_um by blast
  have "appmemd_ioctl demo_kenv (demo_kern um) 1 (APPMEMD_OP 2) 5000 = Inl OutOfBounds"
    using appmemd_ioctl_opcode [of "demo_kern um" 1 _ demo_flat _ 5000 64 "replicate 20 0" demo_kenv] um ops o
    by (simp add: demo_kern_def)
  moreover have "\<exists>k. appmemd_ioctl demo_kenv (demo_kern um') 1 (APPMEMD_OP 2) 5000 = Inr (- 25, k)"
    using appmemd_ioctl_opcode [of "demo_kern um'" 1 _ demo_flat _ 5000 5 "replicate 20 0" demo_kenv] um' ops o
    by (simp add: demo_kern_def)
  ultimately show ?thesis by blast
qed

lemma k_assca_read_overwrites_witness:
  "\<exists>aa i x fd f. uh_elems (aa_hash aa) i = Some x \<and> ue_val x = [7] \<and> fn_pVdF f = Live (FdAssca fd) \<and> as_data fd = Live aa \<and>
    k_align_read Fn_assca_read32_align 0 (\<lambda>_. Some 9) f [1, 2] 4000 = Inr (0, set_assca f fd (aa\<lparr>aa_hash := (aa_hash aa)
      \<lparr>uh_elems := (uh_elems (aa_hash aa))(i \<mapsto> x\<lparr>ue_val := [9]\<rparr>)\<rparr>\<rparr>), \<lambda>_. Some 9)"
proof -
  obtain aa where aa: "assca_inv aa [([1, 2], [7])]" "aa_key_len aa = 2" "aa_data_len aa = 1" using one_entry by blast
  obtain order where rep: "assca_rep aa order [([1, 2], [7])]" using aa(1) by (auto simp: assca_inv_def)
  then have inv: "uh_inv (aa_hash aa) order" and es: "map (uh_entry (uh_elems (aa_hash aa))) order = [([1, 2], [7])]"
    by (auto simp: assca_rep_def uh_entries_def)
  have kl: "unat (2 :: UINT32) \<le> length ([1, 2] :: bytes)" by simp
  obtain r where r: "HASH_FIND (aa_hash aa) [1, 2] 2 = Inr r" and
    c: "case r of None \<Rightarrow> \<forall>x\<in>set order. fst (uh_entry (uh_elems (aa_hash aa)) x) \<noteq> take (unat (2 :: UINT32)) [1, 2]
        | Some a \<Rightarrow> a \<in> set order \<and> fst (uh_entry (uh_elems (aa_hash aa)) a) = take (unat (2 :: UINT32)) [1, 2]"
    using HASH_FIND_ok [OF inv kl] by blast
  obtain i where i: "order = [i]" "uh_entry (uh_elems (aa_hash aa)) i = ([1, 2], [7])" using es by auto
  then have ri: "r = Some i" using c by (cases r) auto
  obtain x where x: "uh_elems (aa_hash aa) i = Some x" using rep i(1) unfolding assca_rep_def by (metis list.set_intros(1) option.exhaust)
  then have v: "ue_val x = [7]" using i(2) by (simp add: uh_entry_def)
  define fd where "fd = \<lparr>as_data = Live aa, as_size = 0, as_cur_count = 0\<rparr>"
  define f where "f = zero_func\<lparr>fn_pVdF := Live (FdAssca fd)\<rparr>"
  have "um_mapped (\<lambda>_. Some 9) 4000 1" by (simp add: um_mapped_def dom_def)
  then show ?thesis
    using k_assca_read_overwrites [of f fd aa "[1, 2]" i x 0 "\<lambda>_. Some 9" 4000] r ri x v aa(2,3)
    by (intro exI [of _ aa] exI [of _ i] exI [of _ x] exI [of _ fd] exI [of _ f]) (simp add: f_def fd_def)
qed

end
