(* ===== verification/AM_Kd_Session.thy ===== *)
theory AM_Kd_Session
  imports AM_Kernel_Props AM_Kmap_Props AM_Session AM_Caps_Props
begin

text \<open>
  Sessions with the kernel module: the module is loaded, a client creates a device through \<^verbatim>\<open>ioctl\<close>, opens its
  file, and uses it through the driver or through the page it mapped.
\<close>

section \<open>The module after loading\<close>

definition k_based :: "kern \<Rightarrow> bool" where
  "k_based k \<longleftrightarrow> (\<exists>d f. kn_devs k 0 = Some d \<and> kd_func d = Some f \<and> fn_amType f = AM_TYPE_BASE_APPMEM \<and>
     fn_pfnOps f = Some k_base_ops) \<and> length (kn_cmd k) = sizeof_CMD_U"

lemma appmemd_init_based:
  assumes "appmemd_init e result major reg um = Inr (st, k)" "0 \<le> sint result" "\<And>i. ke_al e i"
  shows "k_based k" "kn_um k = um" "kn_minor k = 1"
  using assms by (auto simp: appmemd_init_def k_based_def res_simps Let_def)

section \<open>Creation in the module\<close>

lemma device_func_create_ok:
  assumes "\<And>i. al i" "length name \<le> 8"
  shows "\<exists>d. appmem_device_func_create al name ty k = Inr (Some (kn_minor k),
      k\<lparr>kn_minor := kn_minor k + 1, kn_devs := (kn_devs k)(kn_minor k \<mapsto> d), kn_head := kn_minor k # kn_head k\<rparr>) \<and>
    kd_func d = None \<and> kd_am_name d = c_array 64 (name @ fmt_d (kn_minor k)) \<and> kd_amType d = ty"
proof -
  have "length (name @ fmt_d (kn_minor k)) < length (replicate 32 (0 :: UINT8))"
    using length_fmt_d [of "kn_minor k"] assms(2) by simp
  from sprintf_to_fits [OF this] show ?thesis using assms(1) by (auto simp: appmem_device_func_create_def Let_def)
qed

lemma c_string_name:
  assumes "length s \<le> 31"
  shows "length (c_string (take 32 (c_array 64 s) @ rest)) \<le> length s"
proof -
  have tw: "length (takeWhile (\<lambda>x. x \<noteq> 0) (xs @ 0 # ys)) \<le> length xs" for xs ys :: bytes by (induction xs) auto
  have "take 32 (c_array 64 s) = c_bytes s @ 0 # replicate (31 - length s) 0"
    using assms by (simp add: c_array_def min_def replicate_Suc [symmetric] del: replicate_Suc) arith
  then show ?thesis using tw [of "c_bytes s" "replicate (31 - length s) 0 @ rest"] by (simp add: c_string_def)
qed

lemma flat_store_upd [simp]: "flat_store (upd_cr g f) = flat_store f" "flat_store (f\<lparr>fn_amType := ty\<rparr>) = flat_store f"
  by (simp_all add: flat_store_def upd_cr_def)

lemma take_enc_cr_resp:
  assumes "wf_cr r" "length p = 5"
  shows "length (take 355 (enc_cr_resp r) @ p) = 360" "rd_cr_resp (take 355 (enc_cr_resp r) @ p) 0 = Inr r"
proof -
  have b: "[x] = le_enc 1 x" for x :: UINT8 by simp
  have e: "take 355 (enc_cr_resp r) @ p = cr_head r @ [cr_pack_DataOffset r, cr_wr_pack_qword_size r, cr_rd_pack_qword_size r] @ p"
    using length_cr_head [OF assms(1)] by (simp add: enc_cr_head cr_tail_def)
  show "length (take 355 (enc_cr_resp r) @ p) = 360" using assms length_cr_head [OF assms(1)] by (simp add: e)
  show "rd_cr_resp (take 355 (enc_cr_resp r) @ p) 0 = Inr r"
    using rd_cr_with_tail [OF assms(1), of "[cr_pack_DataOffset r, cr_wr_pack_qword_size r, cr_rd_pack_qword_size r] @ p"] assms(2)
    by (simp add: e cr_with_tail_def)
qed

text \<open>
  What a creation makes of the device \<open>f\<close> the device file created: the next minor number, and a function with the data and the
  operators of \<open>f\<close> whose name is that of the device file.
\<close>

definition k_dev_of :: "mem_func \<Rightarrow> mem_func \<Rightarrow> bool" where
  "k_dev_of f f1 \<longleftrightarrow> fn_pVdF f1 = fn_pVdF f \<and> fn_pfnOps f1 = fn_pfnOps f \<and> cr_acOps (fn_crResp f1) = cr_acOps (fn_crResp f) \<and>
     cr_data_size (fn_crResp f1) = cr_data_size (fn_crResp f) \<and> cr_idx_size (fn_crResp f1) = cr_idx_size (fn_crResp f) \<and>
     length (c_string (cr_am_name (fn_crResp f1))) \<le> 58"

definition k_creates :: "kenv \<Rightarrow> mem_cap \<Rightarrow> mem_func \<Rightarrow> bool" where
  "k_creates e cap f \<longleftrightarrow> wf_cr (fn_crResp f) \<and>
     (let al = \<lambda>i. ke_al e (4 + i); f0 = (ke_func e)\<lparr>fn_pfnOps := Some zero_ops\<rparr> in
      if cap_amType cap = AM_TYPE_FLAT_MEM then am_create_flat_device al (ke_junk e) f0 cap = Inr (AM_RET_GOOD, f)
      else if cap_amType cap = AM_TYPE_STATIC_ARRAY then am_create_stata_device al (ke_junk e) f0 cap = Inr (AM_RET_GOOD, f)
      else cap_amType cap = AM_TYPE_ASSOC_ARRAY \<and> am_create_assca_device al f0 cap = Inr (AM_RET_GOOD, f))"

lemma k_case_ok:
  assumes "\<And>i. ke_al e i" "length name \<le> 8" "create ((ke_func e)\<lparr>fn_pfnOps := Some zero_ops\<rparr>) = Inr (AM_RET_GOOD, f)"
  shows "\<exists>d. k_create_case e name ty create k = Inr (AM_RET_GOOD, Some (kn_minor k, f), k\<lparr>kn_minor := kn_minor k + 1,
      kn_devs := (kn_devs k)(kn_minor k \<mapsto> d), kn_head := kn_minor k # kn_head k\<rparr>) \<and>
    kd_am_name d = c_array 64 (name @ fmt_d (kn_minor k))"
proof -
  obtain d where "appmem_device_func_create (\<lambda>i. ke_al e (1 + i)) name ty k = Inr (Some (kn_minor k),
      k\<lparr>kn_minor := kn_minor k + 1, kn_devs := (kn_devs k)(kn_minor k \<mapsto> d), kn_head := kn_minor k # kn_head k\<rparr>)"
    "kd_am_name d = c_array 64 (name @ fmt_d (kn_minor k))"
    using device_func_create_ok [of "\<lambda>i. ke_al e (1 + i)" name ty k] assms(1,2) by auto
  then show ?thesis using assms(3)
    by (intro exI [of _ "d\<lparr>kd_func := Some f, kd_flags := ke_flags e\<rparr>"]) (simp add: k_create_case_def set_dev_def)
qed

lemma k_create_ok:
  assumes f0: "fn_amType f0 = AM_TYPE_BASE_APPMEM"
    and cmd: "rd32 (kn_cmd k) 4 = Inr (of_nat sizeof_MEM_CAP)" "rd64 (kn_cmd k) 8 = Inr pCap" "rd64 (kn_cmd k) 24 = Inr pcr"
    and cap: "um_mapped (kn_um k) pCap 168" "rd_mem_cap (um_prefix (kn_um k) pCap 168) 0 = Inr cap" "k_creates e cap f"
    and e: "\<And>i. ke_al e i" and pcr: "um_mapped (kn_um k) pcr 360"
  shows "\<exists>d f1 um. appmem_create_function e k f0 = Inr (AM_RET_GOOD, k\<lparr>kn_minor := kn_minor k + 1,
      kn_devs := (kn_devs k)(kn_minor k \<mapsto> d), kn_head := kn_minor k # kn_head k, kn_um := um\<rparr>) \<and>
    kd_func d = Some f1 \<and> k_dev_of f f1 \<and> um_upd (um_range pcr 360) (kn_um k) um \<and>
    rd_cr_resp (um_prefix um pcr 360) 0 = Inr (fn_crResp f1)"
proof -
  define name where "name = (if cap_amType cap = AM_TYPE_FLAT_MEM then ''am_flat''
    else if cap_amType cap = AM_TYPE_STATIC_ARRAY then ''am_stata'' else ''am_assca'')"
  define create where "create = (if cap_amType cap = AM_TYPE_FLAT_MEM
    then (\<lambda>f. am_create_flat_device (\<lambda>i. ke_al e (4 + i)) (ke_junk e) f cap)
    else if cap_amType cap = AM_TYPE_STATIC_ARRAY then (\<lambda>f. am_create_stata_device (\<lambda>i. ke_al e (4 + i)) (ke_junk e) f cap)
    else (\<lambda>f. am_create_assca_device (\<lambda>i. ke_al e (4 + i)) f cap))"
  define sizes where "sizes = (if cap_amType cap = AM_TYPE_ASSOC_ARRAY then k_pack_sizes else (\<lambda>r. r))"
  have c: "create ((ke_func e)\<lparr>fn_pfnOps := Some zero_ops\<rparr>) = Inr (AM_RET_GOOD, f)" and wf: "wf_cr (fn_crResp f)"
    using cap(3) by (auto simp: k_creates_def create_def Let_def split: if_splits)
  have ln: "length name \<le> 8" by (simp add: name_def)
  obtain d0 where d0: "k_create_case e name (cap_amType cap) create k = Inr (AM_RET_GOOD, Some (kn_minor k, f), k\<lparr>kn_minor := kn_minor k + 1,
      kn_devs := (kn_devs k)(kn_minor k \<mapsto> d0), kn_head := kn_minor k # kn_head k\<rparr>)"
    "kd_am_name d0 = c_array 64 (name @ fmt_d (kn_minor k))"
    using k_case_ok [of e name create f "cap_amType cap" k] e ln c by blast
  define d1 where "d1 = (if cap_amType cap = AM_TYPE_ASSOC_ARRAY
    then d0\<lparr>kd_pack_DataOffset := cr_pack_DataOffset (fn_crResp f), kd_wr_pack_size := cr_wr_pack_qword_size (fn_crResp f) * 8,
      kd_rd_pack_size := cr_rd_pack_qword_size (fn_crResp f) * 8\<rparr> else d0)"
  have d1: "bindr (k_create_case e name (cap_amType cap) create k) (\<lambda>r. Inr (sizes r)) =
      Inr (AM_RET_GOOD, Some (kn_minor k, f), k\<lparr>kn_minor := kn_minor k + 1,
        kn_devs := (kn_devs k)(kn_minor k \<mapsto> d1), kn_head := kn_minor k # kn_head k\<rparr>)"
    "kd_am_name d1 = c_array 64 (name @ fmt_d (kn_minor k))"
    using d0 by (simp_all add: sizes_def k_pack_sizes_def set_dev_def d1_def)
  define f1 where "f1 = upd_cr (\<lambda>r. r\<lparr>cr_am_name := take 32 (kd_am_name d1) @ drop 32 (cr_am_name r), cr_devt := kd_devt d1\<rparr>)
      (f\<lparr>fn_amType := kd_amType d1\<rparr>)"
  define resp where "resp = take 355 (enc_cr_resp (fn_crResp f1)) @ fresh (ke_junk e) 5"
  have wf1: "wf_cr (fn_crResp f1)" using wf by (simp add: f1_def upd_cr_def wf_cr_def d1(2))
  define s where "s = name @ fmt_d (kn_minor k)"
  have s: "length s \<le> 31" "length s \<le> 58" using length_fmt_d [of "kn_minor k"] ln by (simp_all add: s_def)
  have cs: "length (c_string (cr_am_name (fn_crResp f1))) \<le> 58"
    using le_trans [OF c_string_name [OF s(1)] s(2)] by (simp add: f1_def upd_cr_def d1(2) s_def [symmetric])
  have dev: "k_dev_of f f1" using cs by (simp add: k_dev_of_def) (simp add: f1_def)
  note r = take_enc_cr_resp [OF wf1, of "fresh (ke_junk e) 5", folded resp_def]
  have lr: "length resp = 360" "rd_cr_resp resp 0 = Inr (fn_crResp f1)" using r by (simp_all add: fresh_def)
  have m: "um_mapped (kn_um k) pcr (length resp)" using pcr lr(1) by simp
  obtain um where um: "copy_to_user (kn_um k) pcr resp = (um, True)" "um_upd (um_range pcr 360) (kn_um k) um" "um_prefix um pcr 360 = resp"
    using copy_to_user_ok [OF m] lr(1) by auto
  have "cap_amType cap \<in> {AM_TYPE_FLAT_MEM, AM_TYPE_STATIC_ARRAY, AM_TYPE_ASSOC_ARRAY}"
    using cap(3) by (auto simp: k_creates_def Let_def split: if_splits)
  moreover have "bindr x Inr = x" for x :: "(AM_RETURN \<times> (UINT32 \<times> mem_func) option \<times> kern) res" by (cases x) simp_all
  ultimately have "appmem_create_function e k f0 = Inr (AM_RET_GOOD, k\<lparr>kn_minor := kn_minor k + 1,
      kn_devs := (kn_devs k)(kn_minor k \<mapsto> d1\<lparr>kd_func := Some f1\<rparr>), kn_head := kn_minor k # kn_head k, kn_um := um\<rparr>)"
    using f0 cmd cap(2) copy_from_user_ok [OF cap(1)] e d1(1) um(1) unfolding resp_def f1_def name_def create_def sizes_def
    by (elim insertE emptyE) (simp_all add: appmem_create_function_def Let_def set_dev_def)
  then show ?thesis using dev um(2,3) lr(2)
    by (intro exI [of _ "d1\<lparr>kd_func := Some f1\<rparr>"] exI [of _ f1] exI [of _ um]) simp
qed

text \<open>The same from the client. Its block of calls gets the operators that go through \<^verbatim>\<open>ioctl\<close>.\<close>

lemma create_op_code:
  "AM_OPCODE AM_OP_CODE_CREATE_FUNC = 4" "\<not> IS_OP_ALIGNED AM_OP_CODE_CREATE_FUNC" "\<not> IS_OP_PACKET AM_OP_CODE_CREATE_FUNC"
  by (simp_all add: AM_OP_CODE_CREATE_FUNC_def AM_SET_PACKTYPE_def AM_OPCODE_def IS_OP_ALIGNED_def IS_OP_PACKET_def AM_NET_GET_PACKTYPE_def)

lemma kd_calls_align:
  assumes "cr_acOps cr = [op_word AM_PACK_ALIGN AM_OP_WRITE_ALIGN, op_word AM_PACK_ALIGN AM_OP_READ_ALIGN]"
  shows "kd_calls cr c = c\<lparr>fc_open := Some Fn_kd_open, fc_close := Some Fn_kd_close,
    fc_write_al := Some Fn_kd_write32_align, fc_read_al := Some Fn_kd_read32_align\<rparr>"
  using assms by (simp add: kd_calls_def Let_def op_word_def AM_OP_CODE_WRITE_ALIGN_def AM_OP_CODE_READ_ALIGN_def AM_SET_PACKTYPE_def)

text \<open>The memory of the client: the capability, the place of the response, and the command on the stack.\<close>

definition kd_mem :: "umem \<Rightarrow> UINT64 \<Rightarrow> UINT64 \<Rightarrow> UINT64 \<Rightarrow> mem_cap \<Rightarrow> bool" where
  "kd_mem um sp pCap pcr cap \<longleftrightarrow> sp \<noteq> 0 \<and> um_mapped um sp 32 \<and> um_mapped um pCap 168 \<and> um_mapped um pcr 360 \<and>
     um_range pCap 168 \<inter> um_range sp 32 = {} \<and> um_range pCap 168 \<inter> um_range pcr 360 = {} \<and>
     rd_mem_cap (um_prefix um pCap 168) 0 = Inr cap"

text \<open>The command for a creation reaches the base device with its three members.\<close>

lemma kd_create_command:
  assumes k: "k_based k" and fd: "fds fd = Some 0" and mem: "kd_mem (kn_um k) sp pCap pcr cap"
  shows "\<exists>f0 k1. kd_ioctl e fds sp k fd APPMEMD_OP_BIDIR (enc_cmd_bidir AM_OP_CODE_CREATE_FUNC (of_nat sizeof_MEM_CAP) pCap
      (of_nat sizeof_CR_RESP) (fresh junk 4) pcr) = appmem_create_function e k1 f0 \<and>
    fn_amType f0 = AM_TYPE_BASE_APPMEM \<and> rd32 (kn_cmd k1) 4 = Inr (of_nat sizeof_MEM_CAP) \<and>
    rd64 (kn_cmd k1) 8 = Inr pCap \<and> rd64 (kn_cmd k1) 24 = Inr pcr \<and>
    (\<exists>cmd. length cmd = sizeof_CMD_U \<and> k1 = k\<lparr>kn_um := kn_um k1, kn_cmd := cmd\<rparr>) \<and> um_upd (um_range sp 32) (kn_um k) (kn_um k1)"
proof -
  let ?cmd = "enc_cmd_bidir AM_OP_CODE_CREATE_FUNC (of_nat sizeof_MEM_CAP) pCap (of_nat sizeof_CR_RESP) (fresh junk 4) pcr"
  note M = mem [unfolded kd_mem_def]
  have l: "length ?cmd = 32" by (simp add: enc_cmd_bidir_def fresh_def)
  have msp: "um_mapped (kn_um k) sp (length ?cmd)" using M unfolding l by simp
  obtain um1 where um1: "um_put (kn_um k) sp ?cmd = Inr um1" "um_upd (um_range sp 32) (kn_um k) um1" "um_prefix um1 sp 32 = ?cmd"
    using um_put_ok [OF msp] unfolding l by auto
  define rest where "rest = le_enc 4 (of_nat sizeof_MEM_CAP :: UINT32) @ le_enc 8 pCap @ le_enc 4 (of_nat sizeof_CR_RESP :: UINT32) @ fresh junk 4 @ le_enc 8 pcr"
  have cmd: "?cmd = le_enc 4 AM_OP_CODE_CREATE_FUNC @ rest" by (simp add: enc_cmd_bidir_def rest_def)
  obtain d0 f0 where d0: "kn_devs k 0 = Some d0" "kd_func d0 = Some f0" "fn_amType f0 = AM_TYPE_BASE_APPMEM" "fn_pfnOps f0 = Some k_base_ops"
    and lc: "length (kn_cmd k) = 256" using k by (auto simp: k_based_def)
  define k1 where "k1 = k\<lparr>kn_um := um1, kn_cmd := le_enc 4 AM_OP_CODE_CREATE_FUNC @ rest @ drop 32 (kn_cmd k)\<rparr>"
  have io: "appmemd_ioctl e (k\<lparr>kn_um := um1\<rparr>) 0 APPMEMD_OP_BIDIR sp =
      k_dispatch e k1 0 d0 f0 32 AM_OP_CODE_CREATE_FUNC Fn_k_create_function"
    using ioctl_served [of APPMEMD_OP_BIDIR 3 sp "k\<lparr>kn_um := um1\<rparr>" 0 d0 f0 k_base_ops AM_OP_CODE_CREATE_FUNC rest Fn_k_create_function e]
      d0 lc um1(3) cmd um_upd_mapped [OF um1(2)] M
    by (simp add: APPMEMD_OP_simps create_op_code k1_def k_base_ops_def)
  have "kd_ioctl e fds sp k fd APPMEMD_OP_BIDIR ?cmd = appmem_create_function e k1 f0"
    using um1(1) fd io by (simp add: kd_ioctl_def k_dispatch_def create_op_code)
  moreover have "rd32 (kn_cmd k1) 4 = Inr (of_nat sizeof_MEM_CAP)" "rd64 (kn_cmd k1) 8 = Inr pCap" "rd64 (kn_cmd k1) 24 = Inr pcr"
    by (simp_all add: k1_def rest_def rd_defs rd_enc fresh_def)
  moreover have "\<exists>cmd. length cmd = sizeof_CMD_U \<and> k1 = k\<lparr>kn_um := kn_um k1, kn_cmd := cmd\<rparr>"
    using lc by (intro exI [of _ "kn_cmd k1"]) (simp add: k1_def rest_def fresh_def)
  ultimately show ?thesis using d0(3) um1(2) by (intro exI [of _ f0] exI [of _ k1]) (simp add: k1_def)
qed

lemma kd_create_ok:
  assumes k: "k_based k" and fd: "sint fd > - 1" "fds fd = Some 0" and mem: "kd_mem (kn_um k) sp pCap pcr cap"
    and cap: "k_creates e cap f" and e: "\<And>i. ke_al e i" and F: "fn_calls F = Some fc"
  shows "\<exists>F' fm' k' d f1. am_kd_create_function e fds sp junk fd k pCap pcr F fm = Inr (AM_RET_GOOD, F', fm', k') \<and>
    F' = F\<lparr>fn_crResp := fn_crResp f1, fn_handle := - 1, fn_pEntry := True, fn_calls := Some (kd_calls (fn_crResp f1) fc)\<rparr> \<and>
    fm' = (if cap_access_flags cap AND AM_CAP_AC_FLAG_PACK_MMAP \<noteq> 0 then fm\<lparr>fm_map_flags := cap_access_flags cap\<rparr> else fm) \<and>
    kn_devs k' = (kn_devs k)(kn_minor k \<mapsto> d) \<and> kd_func d = Some f1 \<and> k_dev_of f f1 \<and>
    length (kn_cmd k') = sizeof_CMD_U \<and> dom (kn_um k') = dom (kn_um k)"
proof -
  note M = mem [unfolded kd_mem_def]
  from kd_create_command [where fds = fds and fd = fd and e = e and junk = junk, OF k fd(2) mem]
  obtain f0 k1 cmd where c: "kd_ioctl e fds sp k fd APPMEMD_OP_BIDIR (enc_cmd_bidir AM_OP_CODE_CREATE_FUNC (of_nat sizeof_MEM_CAP) pCap
      (of_nat sizeof_CR_RESP) (fresh junk 4) pcr) = appmem_create_function e k1 f0"
    "fn_amType f0 = AM_TYPE_BASE_APPMEM" "rd32 (kn_cmd k1) 4 = Inr (of_nat sizeof_MEM_CAP)" "rd64 (kn_cmd k1) 8 = Inr pCap"
    "rd64 (kn_cmd k1) 24 = Inr pcr" "length cmd = sizeof_CMD_U" "k1 = k\<lparr>kn_um := kn_um k1, kn_cmd := cmd\<rparr>"
    "um_upd (um_range sp 32) (kn_um k) (kn_um k1)" by blast
  have um: "um_mapped (kn_um k1) pCap 168" "um_mapped (kn_um k1) pcr 360" "rd_mem_cap (um_prefix (kn_um k1) pCap 168) 0 = Inr cap"
    using M um_upd_mapped [OF c(8)] um_upd_prefix [OF c(8), of pCap 168] by simp_all
  obtain d f1 um2 where f: "appmem_create_function e k1 f0 = Inr (AM_RET_GOOD, k1\<lparr>kn_minor := kn_minor k1 + 1,
      kn_devs := (kn_devs k1)(kn_minor k1 \<mapsto> d), kn_head := kn_minor k1 # kn_head k1, kn_um := um2\<rparr>)"
    "kd_func d = Some f1" "k_dev_of f f1" "um_upd (um_range pcr 360) (kn_um k1) um2"
    "rd_cr_resp (um_prefix um2 pcr 360) 0 = Inr (fn_crResp f1)"
    using k_create_ok [where k = k1, OF c(2-5) um(1,3) cap e um(2)] by blast
  define k2 where "k2 = k1\<lparr>kn_minor := kn_minor k1 + 1,
      kn_devs := (kn_devs k1)(kn_minor k1 \<mapsto> d), kn_head := kn_minor k1 # kn_head k1, kn_um := um2\<rparr>"
  have m2: "um_mapped (kn_um k2) pcr 360" "um_mapped (kn_um k2) pCap 168"
    using um(1,2) um_upd_mapped [OF f(4)] by (simp_all add: k2_def)
  have p2: "rd_mem_cap (um_prefix (kn_um k2) pCap 168) 0 = Inr cap"
    using um(3) um_upd_prefix [OF f(4), of pCap 168] M by (simp add: k2_def)
  have "am_kd_create_function e fds sp junk fd k pCap pcr F fm = Inr (AM_RET_GOOD,
      F\<lparr>fn_crResp := fn_crResp f1, fn_handle := - 1, fn_pEntry := True, fn_calls := Some (kd_calls (fn_crResp f1) fc)\<rparr>,
      if cap_access_flags cap AND AM_CAP_AC_FLAG_PACK_MMAP \<noteq> 0 then fm\<lparr>fm_map_flags := cap_access_flags cap\<rparr> else fm, k2)"
    using fd(1) c(1) f(1,5) um_get_ok [OF m2(1)] um_get_ok [OF m2(2)] p2 F
    by (simp add: am_kd_create_function_def k2_def)
  moreover have "kn_devs k1 = kn_devs k" "kn_minor k1 = kn_minor k" "length (kn_cmd k1) = 256"
    using c(6) by (subst c(7), simp)+
  then have "length (kn_cmd k2) = 256" "dom (kn_um k2) = dom (kn_um k)" "kn_devs k2 = (kn_devs k)(kn_minor k \<mapsto> d)"
    using f(4) c(8) by (simp_all add: k2_def um_upd_def)
  ultimately show ?thesis using f(2,3) by blast
qed

text \<open>A flat memory made so.\<close>

definition k_made_flat :: "kenv \<Rightarrow> mem_cap \<Rightarrow> mem_func \<Rightarrow> bool" where
  "k_made_flat e cap f \<longleftrightarrow> flat_store f = flat_mem (ke_junk e) cap \<and> dev_ok Fn_flat_read32_align Fn_flat_write32_align f \<and>
     cr_acOps (fn_crResp f) = [op_word AM_PACK_ALIGN AM_OP_WRITE_ALIGN, op_word AM_PACK_ALIGN AM_OP_READ_ALIGN] \<and>
     cr_is_32 (fn_crResp f) \<and> length (c_string (cr_am_name (fn_crResp f))) \<le> 58"

lemma k_flat_made:
  assumes "\<And>i. ke_al e i" "wf_cr (fn_crResp (ke_func e))" "cap_amType cap = AM_TYPE_FLAT_MEM" "cap_typeSpecific cap ! 0 = 4"
  shows "\<exists>f. k_creates e cap f \<and> (\<forall>f1. k_dev_of f f1 \<longrightarrow> k_made_flat e cap f1)"
proof -
  define F0 where "F0 = (ke_func e)\<lparr>fn_pfnOps := Some zero_ops\<rparr>"
  have F0: "fn_pfnOps F0 = Some zero_ops" "length zero_ops = AM_OP_MAX_OPS" "wf_cr (fn_crResp F0)"
    using assms(2) by (simp_all add: F0_def)
  obtain f ops where f: "am_create_flat_device (\<lambda>i. ke_al e (4 + i)) (ke_junk e) F0 cap = Inr (AM_RET_GOOD, f)"
    "flat_store f = flat_mem (ke_junk e) cap" "fn_pfnOps f = Some ops" "length ops = AM_OP_MAX_OPS"
    "ops ! 16 = Some Fn_flat_write32_align" "ops ! 17 = Some Fn_flat_read32_align"
    "cr_data_size (fn_crResp f) = 4" "cr_idx_size (fn_crResp f) = 4" "wf_cr (fn_crResp f)"
    "cr_acOps (fn_crResp f) = [op_word AM_PACK_ALIGN AM_OP_WRITE_ALIGN, op_word AM_PACK_ALIGN AM_OP_READ_ALIGN]"
    using create_flat_ok [of "\<lambda>i. ke_al e (4 + i)" F0 zero_ops "ke_junk e" cap] F0 assms(1,4) by auto
  have "flat_store f1 = flat_store f" if "fn_pVdF f1 = fn_pVdF f" for f1 using that by (simp add: flat_store_def)
  then show ?thesis using f assms(3)
    by (intro exI [of _ f]) (simp add: k_creates_def Let_def F0_def k_dev_of_def k_made_flat_def dev_ok_def cr_is_32_def)
qed

lemma kd_create_flat:
  assumes k: "k_based k" and fd: "sint fd > - 1" "fds fd = Some 0" and mem: "kd_mem (kn_um k) sp pCap pcr cap"
    and cap: "cap_amType cap = AM_TYPE_FLAT_MEM" "cap_typeSpecific cap ! 0 = 4"
    and e: "\<And>i. ke_al e i" "wf_cr (fn_crResp (ke_func e))" and F: "fn_calls F = Some fc"
  shows "\<exists>F' fm' k' d f. am_kd_create_function e fds sp junk fd k pCap pcr F fm = Inr (AM_RET_GOOD, F', fm', k') \<and>
    F' = F\<lparr>fn_crResp := fn_crResp f, fn_handle := - 1, fn_pEntry := True, fn_calls := Some (kd_calls (fn_crResp f) fc)\<rparr> \<and>
    fm' = (if cap_access_flags cap AND AM_CAP_AC_FLAG_PACK_MMAP \<noteq> 0 then fm\<lparr>fm_map_flags := cap_access_flags cap\<rparr> else fm) \<and>
    kn_devs k' = (kn_devs k)(kn_minor k \<mapsto> d) \<and> kd_func d = Some f \<and> k_made_flat e cap f \<and>
    length (kn_cmd k') = sizeof_CMD_U \<and> dom (kn_um k') = dom (kn_um k)"
proof -
  obtain f where f: "k_creates e cap f" "\<forall>f1. k_dev_of f f1 \<longrightarrow> k_made_flat e cap f1" using k_flat_made [OF e cap] by blast
  show ?thesis using kd_create_ok [where k = k and fds = fds and fd = fd and e = e and F = F and junk = junk and fm = fm, OF k fd mem f(1) e(1) F] f(2) by blast
qed

text \<open>
  A creation for which the driver finds no memory. The driver answers \<open>AM_RET_ALLOC_ERR\<close>, which is not negative, and the
  client takes it for success: it returns \<open>AM_RET_GOOD\<close> with a function object made of whatever the place of the response
  held, and there is no new device.
\<close>

theorem am_kd_create_no_memory:
  assumes "k_based k" "sint fd > - 1" "fds fd = Some 0" "kd_mem (kn_um k) sp pCap pcr cap" "um_range pcr 360 \<inter> um_range sp 32 = {}"
    and "\<not> ke_al e 0" "fn_calls F = Some fc" "rd_cr_resp (um_prefix (kn_um k) pcr 360) 0 = Inr cr"
  shows "\<exists>fm' k'. am_kd_create_function e fds sp junk fd k pCap pcr F fm = Inr (AM_RET_GOOD,
      F\<lparr>fn_crResp := cr, fn_handle := - 1, fn_pEntry := True, fn_calls := Some (kd_calls cr fc)\<rparr>, fm', k') \<and> kn_devs k' = kn_devs k"
proof -
  note M = assms(4) [unfolded kd_mem_def]
  from kd_create_command [where fds = fds and fd = fd and e = e and junk = junk, OF assms(1,3,4)]
  obtain f0 k1 cmd where c: "kd_ioctl e fds sp k fd APPMEMD_OP_BIDIR (enc_cmd_bidir AM_OP_CODE_CREATE_FUNC (of_nat sizeof_MEM_CAP) pCap
      (of_nat sizeof_CR_RESP) (fresh junk 4) pcr) = appmem_create_function e k1 f0"
    "fn_amType f0 = AM_TYPE_BASE_APPMEM" "rd32 (kn_cmd k1) 4 = Inr (of_nat sizeof_MEM_CAP)" "rd64 (kn_cmd k1) 8 = Inr pCap"
    "rd64 (kn_cmd k1) 24 = Inr pcr" "k1 = k\<lparr>kn_um := kn_um k1, kn_cmd := cmd\<rparr>"
    "um_upd (um_range sp 32) (kn_um k) (kn_um k1)" by blast
  have um: "um_mapped (kn_um k1) pCap 168" "um_mapped (kn_um k1) pcr 360" "rd_mem_cap (um_prefix (kn_um k1) pCap 168) 0 = Inr cap"
    "rd_cr_resp (um_prefix (kn_um k1) pcr 360) 0 = Inr cr"
    using M assms(5,8) um_upd_mapped [OF c(7)] um_upd_prefix [OF c(7)] by simp_all
  have "appmem_create_function e k1 f0 = Inr (AM_RET_ALLOC_ERR, k1)"
    using c(2-5) copy_from_user_ok [OF um(1)] assms(6) by (simp add: appmem_create_function_def)
  then have "\<exists>fm'. am_kd_create_function e fds sp junk fd k pCap pcr F fm = Inr (AM_RET_GOOD,
      F\<lparr>fn_crResp := cr, fn_handle := - 1, fn_pEntry := True, fn_calls := Some (kd_calls cr fc)\<rparr>, fm', k1)"
    using assms(2,7) c(1) um_get_ok [OF um(2)] um_get_ok [OF um(1)] um(3,4) by (simp add: am_kd_create_function_def)
  moreover have "kn_devs k1 = kn_devs k" by (subst c(6), simp)
  ultimately show ?thesis by blast
qed

section \<open>Sessions\<close>

lemma made_flat_addr:
  assumes "k_made_flat e cap f" "cap_typeSpecific cap ! TS_INIT_MEM_VAL = 0"
  shows "flat_cell f = flat_addr (unat (cap_maxSize cap))"
    "flat_addr (unat (cap_maxSize cap)) k = Some q \<Longrightarrow> take 4 (drop q (flat_store f)) = replicate 4 0"
  using assms addr_bound(1) [of "unat (cap_maxSize cap)" k q] by (simp_all add: k_made_flat_def flat_cell_addr flat_mem_def min_def)

text \<open>
  C13: A session over the command page. The module is loaded; a client creates a zeroed flat memory with 32-bit
  addresses through \<^verbatim>\<open>ioctl\<close>, its capability asking for the page; the file is opened and mapped, with the thread
  of the module taking at least two steps before the client's last look. Then, after any list of writes through the page whose
  cells are equal to or disjoint from the one read, a read through the page returns what was written there
  last, or zeros.
\<close>

theorem am_kd_session_mapped:
  assumes k: "appmemd_init e result major reg um = Inr (st, k)" "0 \<le> sint result" "\<And>i. ke_al e i" "wf_cr (fn_crResp (ke_func e))"
    and fd: "sint fd > - 1" "fds fd = Some 0" "sint fd' > - 1" and mem: "kd_mem um sp pCap pcr cap"
    and cap: "cap_amType cap = AM_TYPE_FLAT_MEM" "cap_typeSpecific cap ! 0 = 4" "cap_typeSpecific cap ! TS_INIT_MEM_VAL = 0"
      "cap_access_flags cap AND AM_CAP_AC_FLAG_PACK_MMAP \<noteq> 0"
    and F: "fn_calls F = Some fc" and th: "al 0" "al 1" "2 \<le> sum sch {..<14}" "2 \<le> fuel"
    and ws: "writes_fit (flat_addr (unat (cap_maxSize cap))) ws q" "flat_addr (unat (cap_maxSize cap)) a = Some q" "4 \<le> length b"
  shows "\<exists>F1 fm1 k1 d m F2 fm2 m2 r1 r2.
    am_kd_create_function e fds sp junk fd k pCap pcr F fm = Inr (AM_RET_GOOD, F1, fm1, k1) \<and> kn_devs k1 1 = Some d \<and>
    appmemd_vma_fault al d = Inr (m, True) \<and>
    am_kd_open al' junk sch fuel fd' (Some (T_start, m)) F1 fm1 = Inr (AM_RET_GOOD, F2, fm2, Some (T_run, m2)) \<and>
    write_all mapped_write \<lparr>md_F = F2, md_al = al', md_junk = junk, md_kp = \<lparr>kp_map = fm2, kp_th = T_run, kp_dev = m2\<rparr>\<rparr> ws =
      Inr (AM_RET_GOOD, r1) \<and>
    mapped_read r1 (Some a) (Some b) = Inr (AM_RET_GOOD, r2,
      Some ((case last_write (flat_addr (unat (cap_maxSize cap))) ws q of Some x \<Rightarrow> x | None \<Rightarrow> replicate 4 0) @ drop 4 b))"
proof -
  note init = appmemd_init_based [OF k(1-3)]
  have mem': "kd_mem (kn_um k) sp pCap pcr cap" using mem init(2) by simp
  obtain F1 fm1 k1 d f where c: "am_kd_create_function e fds sp junk fd k pCap pcr F fm = Inr (AM_RET_GOOD, F1, fm1, k1)"
    "F1 = F\<lparr>fn_crResp := fn_crResp f, fn_handle := - 1, fn_pEntry := True, fn_calls := Some (kd_calls (fn_crResp f) fc)\<rparr>"
    "fm1 = fm\<lparr>fm_map_flags := cap_access_flags cap\<rparr>" "kn_devs k1 = (kn_devs k)(1 \<mapsto> d)" "kd_func d = Some f" "k_made_flat e cap f"
    using kd_create_flat [where k = k and fds = fds and fd = fd and e = e and F = F and junk = junk and fm = fm, OF init(1) fd(1,2) mem' cap(1,2) k(3,4) F] cap(4) init(3) by auto
  define m where "m = \<lparr>km_page = fault_page, km_isMapped = True, km_func = Some f, km_flags = kd_flags d\<rparr>"
  have fault: "appmemd_vma_fault al d = Inr (m, True)" using th(1,2) c(5) by (simp add: appmemd_vma_fault_def m_def)
  have f: "flat_store f = flat_mem (ke_junk e) cap" "dev_ok Fn_flat_read32_align Fn_flat_write32_align f" "cr_is_32 (fn_crResp f)"
    "cr_acOps (fn_crResp f) = [op_word AM_PACK_ALIGN AM_OP_WRITE_ALIGN, op_word AM_PACK_ALIGN AM_OP_READ_ALIGN]"
    "length (c_string (cr_am_name (fn_crResp f))) \<le> 58"
    using c(6) by (simp_all add: k_made_flat_def)
  have o: "length (c_string (cr_am_name (fn_crResp F1))) \<le> 58" "fm_map_flags fm1 AND AM_CAP_AC_FLAG_PACK_MMAP \<noteq> 0"
    "km_page m = fault_page" "km_isMapped m" "km_func m = Some f" "fn_calls F1 = Some (kd_calls (fn_crResp f) fc)"
    "is_pack_op (cr_acOps (fn_crResp F1) ! 0)" "is_pack_op (cr_acOps (fn_crResp F1) ! 1)"
    using f(3-5) cap(4) pack_op_words by (simp_all add: c(2,3) m_def)
  obtain F2 fm2 m2 where op: "am_kd_open al' junk sch fuel fd' (Some (T_start, m)) F1 fm1 = Inr (AM_RET_GOOD, F2, fm2, Some (T_run, m2))"
    "fn_pEntry F2" "fn_get_free_iop F2" "fn_send_and_wait F2" "kp_ready \<lparr>kp_map = fm2, kp_th = T_run, kp_dev = m2\<rparr>" "km_func m2 = Some f"
    using kd_open_sync(1) [OF o(1) fd(3) o(2-5) th(4) o(6-8) th(3), of al' junk] by (auto simp: c(2))
  let ?r = "\<lparr>md_F = F2, md_al = al', md_junk = junk, md_kp = \<lparr>kp_map = fm2, kp_th = T_run, kp_dev = m2\<rparr>\<rparr>"
  have kf: "kp_func (md_kp ?r) = f" using op(6) by (simp add: kp_func_def)
  note a = made_flat_addr [OF c(6) cap(3)]
  have cell: "mapped_cell Fn_flat_read32_align Fn_flat_write32_align flat_cell ?r = flat_addr (unat (cap_maxSize cap))"
    using op(2-5) f(2) a(1) by (intro ext) (simp add: mapped_cell_def mapped_ok_def kf [simplified])
  obtain r1 r2 where "write_all mapped_write ?r ws = Inr (AM_RET_GOOD, r1)"
    "mapped_read r1 (Some a) (Some b) = Inr (AM_RET_GOOD, r2,
      Some ((case last_write (flat_addr (unat (cap_maxSize cap))) ws q of Some x \<Rightarrow> x | None \<Rightarrow> replicate 4 0) @ drop 4 b))"
    using flat_packets.mapped.last_write_wins [of ?r ws q a b, unfolded cell mapped_store_def kf a(2) [OF ws(2)], OF ws] by blast
  then show ?thesis using c(1,4) fault op(1) by auto
qed

text \<open>
  C15: A session over \<^verbatim>\<open>ioctl\<close>. The same with a file that is opened and not mapped: every write and read is a
  command to the driver, which finds the address in it and copies the data from it or to the memory of the process.
\<close>

theorem am_kd_session_ioctl:
  assumes k: "appmemd_init e result major reg um = Inr (st, k)" "0 \<le> sint result" "\<And>i. ke_al e i" "wf_cr (fn_crResp (ke_func e))"
    and fd: "sint fd > - 1" "fds fd = Some 0" "sint fd' > - 1" "fds fd' = Some 1" and mem: "kd_mem um sp pCap pcr cap"
    and cap: "cap_amType cap = AM_TYPE_FLAT_MEM" "cap_typeSpecific cap ! 0 = 4" "cap_typeSpecific cap ! TS_INIT_MEM_VAL = 0"
      "cap_access_flags cap AND AM_CAP_AC_FLAG_PACK_MMAP = 0" "fm_map_flags fm AND AM_CAP_AC_FLAG_PACK_MMAP = 0"
    and F: "fn_calls F = Some fc" and p: "um_mapped um pa 4" "um_mapped um pd 4" "um_range pa 4 \<inter> um_range sp 24 = {}"
      "um_range pd 4 \<inter> um_range sp 24 = {}" "um_range pa 4 \<inter> um_range pd 4 = {}"
    and ws: "writes_fit (flat_addr (unat (cap_maxSize cap))) ws q" "flat_addr (unat (cap_maxSize cap)) a = Some q" "4 \<le> length b"
  shows "\<exists>F1 k1 F2 r1 r2.
    am_kd_create_function e fds sp junk fd k pCap pcr F fm = Inr (AM_RET_GOOD, F1, fm, k1) \<and>
    am_kd_open al junk sch fuel fd' None F1 fm = Inr (AM_RET_GOOD, F2, fm, None) \<and>
    write_all kd_write \<lparr>kc_F = F2, kc_e = e, kc_fds = fds, kc_sp = sp, kc_p1 = pa, kc_p2 = pd, kc_k = k1\<rparr> ws = Inr (AM_RET_GOOD, r1) \<and>
    kd_read r1 (Some a) (Some b) = Inr (AM_RET_GOOD, r2,
      Some ((case last_write (flat_addr (unat (cap_maxSize cap))) ws q of Some x \<Rightarrow> x | None \<Rightarrow> replicate 4 0) @ drop 4 b))"
proof -
  note init = appmemd_init_based [OF k(1-3)]
  have mem': "kd_mem (kn_um k) sp pCap pcr cap" using mem init(2) by simp
  obtain F1 k1 d f where c: "am_kd_create_function e fds sp junk fd k pCap pcr F fm = Inr (AM_RET_GOOD, F1, fm, k1)"
    "F1 = F\<lparr>fn_crResp := fn_crResp f, fn_handle := - 1, fn_pEntry := True, fn_calls := Some (kd_calls (fn_crResp f) fc)\<rparr>"
    "kn_devs k1 = (kn_devs k)(1 \<mapsto> d)" "kd_func d = Some f" "k_made_flat e cap f" "length (kn_cmd k1) = 256" "dom (kn_um k1) = dom um"
    using kd_create_flat [where k = k and fds = fds and fd = fd and e = e and F = F and junk = junk and fm = fm, OF init(1) fd(1,2) mem' cap(1,2) k(3,4) F] cap(4) init(2,3) by auto
  let ?F2 = "F1\<lparr>fn_handle := fd'\<rparr>"
  let ?c = "\<lparr>kc_F = ?F2, kc_e = e, kc_fds = fds, kc_sp = sp, kc_p1 = pa, kc_p2 = pd, kc_k = k1\<rparr>"
  have "length (c_string (cr_am_name (fn_crResp F1))) \<le> 58" using c(5) by (simp add: c(2) k_made_flat_def)
  then have op: "am_kd_open al junk sch fuel fd' None F1 fm = Inr (AM_RET_GOOD, ?F2, fm, None)"
    using fd(3) cap(5) by (simp add: am_kd_open_def putb_in_bounds Let_def)
  have dev: "kc_dev ?c = Some f" using fd(4) c(3,4) by (simp add: kc_dev_def kc_minor_def)
  note a = made_flat_addr [OF c(5) cap(3)]
  have m: "um_mapped (kn_um k1) x n = um_mapped um x n" for x n using c(7) by (simp add: um_mapped_def)
  have "um_mapped um sp 24" using mem um_mappedD [of um sp 32 24] by (simp add: kd_mem_def)
  then have "kc_ok Fn_flat_read32_align Fn_flat_write32_align ?c"
    using p c(5,6) dev mem by (simp add: kc_ok_def m kd_mem_def k_made_flat_def)
  then have cell: "kc_cell Fn_flat_read32_align Fn_flat_write32_align flat_cell ?c = flat_addr (unat (cap_maxSize cap))"
    using dev a(1) by (intro ext) (simp add: kc_cell_def)
  have st: "kc_store flat_store ?c = flat_store f" using dev by (simp add: kc_store_def)
  obtain r1 r2 where "write_all kd_write ?c ws = Inr (AM_RET_GOOD, r1)"
    "kd_read r1 (Some a) (Some b) = Inr (AM_RET_GOOD, r2,
      Some ((case last_write (flat_addr (unat (cap_maxSize cap))) ws q of Some x \<Rightarrow> x | None \<Rightarrow> replicate 4 0) @ drop 4 b))"
    using flat_kernel.kd.last_write_wins [of ?c ws q a b, unfolded cell st a(2) [OF ws(2)], OF ws] by blast
  then show ?thesis using c(1) op by blast
qed

text \<open>A module with all types registered, and a process with a capability at 1000 and everything mapped.\<close>

lemma demo_init: "\<exists>k. appmemd_init demo_kenv 0 250 full_registry um = Inr (0, k)"
proof -
  have "unat (cap_subType virtd_base_cap) = Suc (Suc (Suc (Suc (Suc 0))))" by (simp add: virtd_base_cap_def mk_cap_def)
  then have "\<exists>reg. k_announce_all (unat (cap_subType virtd_base_cap)) 0 full_registry = Inr reg"
    by (simp add: full_registry_def k_announce_def flat_function_entry_def stata_function_entry_def
        assca_function_entry_def list_function_entry_def)
  then show ?thesis by (auto simp: appmemd_init_def Let_def)
qed

lemma demo_mem:
  assumes "wf_cap cap"
  shows "\<exists>um. kd_mem um 5000 1000 2000 cap \<and> um_mapped um 3000 4 \<and> um_mapped um 4000 4"
proof -
  have m: "um_mapped um a n" if "dom um = UNIV" for um a n using that by (simp add: um_mapped_def)
  have l: "length (enc_mem_cap cap) = 168" using length_enc_mem_cap [OF assms] .
  obtain um where um: "um_upd (um_range 1000 168) (\<lambda>_. Some 0) um" "um_prefix um 1000 168 = enc_mem_cap cap"
    using um_put_ok [of "\<lambda>_. Some 0" 1000 "enc_mem_cap cap"] by (auto simp: l um_mapped_def)
  have "dom um = UNIV" using um(1) by (auto simp: um_upd_def)
  moreover have "um_range 1000 168 \<inter> um_range 5000 32 = {}" "um_range 1000 168 \<inter> um_range 2000 360 = {}"
    by (rule um_range_apart; simp)+
  ultimately show ?thesis using um(2) rd_enc_mem_cap [OF assms, of "[]"] m by (intro exI [of _ um]) (simp add: kd_mem_def)
qed

lemma demo_ranges:
  "um_range 3000 4 \<inter> um_range 5000 24 = {}" "um_range 4000 4 \<inter> um_range 5000 24 = {}" "um_range 3000 4 \<inter> um_range 4000 4 = {}"
  by (rule um_range_apart; simp)+

definition mmap0 :: am_mmap where
  "mmap0 = \<lparr>fm_pMMap = False, fm_uPI = 0, fm_map_size = 0, fm_map_flags = 0, fm_resp_bytes = 0\<rparr>"

lemma am_kd_session_mapped_witness:
  "\<exists>um k F1 fm1 k1 d m F2 fm2 m2 r1 r2. appmemd_init demo_kenv 0 250 full_registry um = Inr (0, k) \<and>
    am_kd_create_function demo_kenv (\<lambda>_. Some 0) 5000 (\<lambda>_. 0) 3 k 1000 2000 call_func mmap0 = Inr (0, F1, fm1, k1) \<and>
    kn_devs k1 1 = Some d \<and> appmemd_vma_fault (\<lambda>_. True) d = Inr (m, True) \<and>
    am_kd_open (\<lambda>_. True) (\<lambda>_. 0) (\<lambda>_. 1) 2 4 (Some (T_start, m)) F1 fm1 = Inr (0, F2, fm2, Some (T_run, m2)) \<and>
    write_all mapped_write \<lparr>md_F = F2, md_al = \<lambda>_. True, md_junk = \<lambda>_. 0, md_kp = \<lparr>kp_map = fm2, kp_th = T_run, kp_dev = m2\<rparr>\<rparr>
      [([4, 0, 0, 0], [9, 8, 7, 6])] = Inr (0, r1) \<and>
    mapped_read r1 (Some [4, 0, 0, 0]) (Some [0, 0, 0, 0]) = Inr (0, r2, Some [9, 8, 7, 6])"
proof -
  let ?cap = "mk_cap 1 16 1 1 1 [4, 1, 0]"
  have c: "cap_amType ?cap = 1" "cap_typeSpecific ?cap ! 0 = 4" "cap_typeSpecific ?cap ! 2 = 0" "unat (cap_maxSize ?cap) = 16"
    "cap_access_flags ?cap = 1" by (simp_all add: mk_cap_def ts_init_def)
  obtain um where um: "kd_mem um 5000 1000 2000 ?cap" using demo_mem [of ?cap] by auto
  obtain k where k: "appmemd_init demo_kenv 0 250 full_registry um = Inr (0, k)" using demo_init by blast
  have a: "flat_addr 16 [4, 0, 0, 0] = Some 4" by (simp add: flat_addr_def)
  then have w: "writes_fit (flat_addr 16) [([4, 0, 0, 0], [9, 8, 7, 6])] 4" by (simp add: writes_fit_def)
  from am_kd_session_mapped [OF k _ demo_kenv_simps, where fd = 3 and fds = "\<lambda>_. Some 0" and fd' = 4 and cap = ?cap and F = call_func and
      al = "\<lambda>_. True" and sch = "\<lambda>_. 1" and fuel = 2 and ws = "[([4, 0, 0, 0], [9, 8, 7, 6])]" and q = 4 and a = "[4, 0, 0, 0]" and
      b = "[0, 0, 0, 0]" and junk = "\<lambda>_. 0" and fm = mmap0 and al' = "\<lambda>_. True", OF _ _ _ _ um]
  show ?thesis by (intro exI [of _ um] exI [of _ k]) (use k c a w in simp)
qed

lemma am_kd_session_ioctl_witness:
  "\<exists>um k F1 k1 F2 r1 r2. appmemd_init demo_kenv 0 250 full_registry um = Inr (0, k) \<and>
    am_kd_create_function demo_kenv (\<lambda>fd. if fd = 3 then Some 0 else Some 1) 5000 (\<lambda>_. 0) 3 k 1000 2000 call_func mmap0 = Inr (0, F1, mmap0, k1) \<and>
    am_kd_open (\<lambda>_. True) (\<lambda>_. 0) (\<lambda>_. 1) 2 4 None F1 mmap0 = Inr (0, F2, mmap0, None) \<and>
    write_all kd_write \<lparr>kc_F = F2, kc_e = demo_kenv, kc_fds = (\<lambda>fd. if fd = 3 then Some 0 else Some 1), kc_sp = 5000, kc_p1 = 3000,
      kc_p2 = 4000, kc_k = k1\<rparr> [([4, 0, 0, 0], [9, 8, 7, 6])] = Inr (0, r1) \<and>
    kd_read r1 (Some [4, 0, 0, 0]) (Some [0, 0, 0, 0]) = Inr (0, r2, Some [9, 8, 7, 6])"
proof -
  let ?cap = "mk_cap 1 16 1 1 0 [4, 1, 0]"
  have c: "cap_amType ?cap = 1" "cap_typeSpecific ?cap ! 0 = 4" "cap_typeSpecific ?cap ! 2 = 0" "unat (cap_maxSize ?cap) = 16"
    "cap_access_flags ?cap = 0" "fm_map_flags mmap0 = 0" by (simp_all add: mk_cap_def ts_init_def mmap0_def)
  obtain um where um: "kd_mem um 5000 1000 2000 ?cap" "um_mapped um 3000 4" "um_mapped um 4000 4" using demo_mem [of ?cap] by auto
  obtain k where k: "appmemd_init demo_kenv 0 250 full_registry um = Inr (0, k)" using demo_init by blast
  have a: "flat_addr 16 [4, 0, 0, 0] = Some 4" by (simp add: flat_addr_def)
  then have w: "writes_fit (flat_addr 16) [([4, 0, 0, 0], [9, 8, 7, 6])] 4" by (simp add: writes_fit_def)
  from am_kd_session_ioctl [OF k _ demo_kenv_simps, where fd = 3 and fds = "\<lambda>fd. if fd = 3 then Some 0 else Some 1" and fd' = 4 and
      cap = ?cap and F = call_func and ws = "[([4, 0, 0, 0], [9, 8, 7, 6])]" and q = 4 and a = "[4, 0, 0, 0]" and
      b = "[0, 0, 0, 0]" and junk = "\<lambda>_. 0" and fm = mmap0 and al = "\<lambda>_. True" and sch = "\<lambda>_. 1" and fuel = 2 and
      pa = 3000 and pd = 4000, OF _ _ _ _ _ um(1)]
  show ?thesis by (intro exI [of _ um] exI [of _ k]) (use k c a w um(2,3) demo_ranges in simp)
qed

lemma am_kd_create_no_memory_witness:
  "\<exists>um k F' fm' k'. appmemd_init demo_kenv 0 250 full_registry um = Inr (0, k) \<and>
    am_kd_create_function (demo_kenv\<lparr>ke_al := \<lambda>_. False\<rparr>) (\<lambda>_. Some 0) 5000 (\<lambda>_. 0) 3 k 1000 2000 call_func mmap0 = Inr (0, F', fm', k') \<and>
    kn_devs k' = kn_devs k"
proof -
  let ?cap = "mk_cap 1 16 1 1 0 [4, 1, 0]"
  obtain um where um: "kd_mem um 5000 1000 2000 ?cap" using demo_mem [of ?cap] by auto
  obtain k where k: "appmemd_init demo_kenv 0 250 full_registry um = Inr (0, k)" using demo_init by blast
  note b = appmemd_init_based [OF k _ demo_kenv_simps(1), simplified]
  have "length (um_prefix um 2000 360) = 360" using um by (simp add: kd_mem_def um_prefix_length)
  then obtain cr where cr: "rd_cr_resp (um_prefix um 2000 360) 0 = Inr cr"
    using rd_cr_resp_total [of 0 "um_prefix um 2000 360"] by auto
  have "um_range 2000 360 \<inter> um_range 5000 32 = {}" by (rule um_range_apart) simp_all
  from am_kd_create_no_memory [where fd = 3 and fds = "\<lambda>_. Some 0" and F = call_func and e = "demo_kenv\<lparr>ke_al := \<lambda>_. False\<rparr>" and
      cr = cr and junk = "\<lambda>_. 0" and fm = mmap0, OF b(1) _ _ um [folded b(2)] this] cr b(2) k
  show ?thesis by (intro exI [of _ um] exI [of _ k]) auto
qed

end
