(* ===== verification/AM_Keyed_Session.thy ===== *)
theory AM_Keyed_Session
  imports AM_Keyed AM_Kd_Session
begin

text \<open>
  Sessions with an associative array: made on a target over the network, or in the kernel module, and used through
  packets. Whatever the sizes of key and data, as long as both fit into one packet, the client sees a finite map.
\<close>

section \<open>Creation\<close>

lemma create_assca_ok:
  assumes "al 0" "al 1" "fn_pfnOps f = Some ops" "length ops = AM_OP_MAX_OPS" "wf_cr (fn_crResp f)"
    and "cap_amType cap = AM_TYPE_ASSOC_ARRAY" "kl = cap_typeSpecific cap ! TS_ASSCA_KEY_MAX_SIZE" "vl = cap_typeSpecific cap ! TS_ASSCA_DATA_MAX_SIZE"
    and "unat kl + unat vl \<le> 504"
  shows "\<exists>f'. am_create_assca_device al f cap = Inr (AM_RET_GOOD, f') \<and> assca_dev f' (empty_assca kl vl) \<and>
    sized_for f' (empty_assca kl vl) \<and> wf_cr (fn_crResp f') \<and>
    cr_acOps (fn_crResp f') = [op_word AM_KPACK AM_OP_WRITE_ALIGN, op_word AM_KPACK AM_OP_READ_ALIGN]"
proof -
  have nm: "length (''am_assca_'' @ fmt_04x (fn_handle f)) < 64" using length_fmt_04x [of "fn_handle f"] by simp
  define wr rd where "wr = op_word AM_KPACK AM_OP_WRITE_ALIGN" and "rd = op_word AM_KPACK AM_OP_READ_ALIGN"
  define g where "g = (upd_cr (assca_pack_sizes kl vl) (set_acOps wr rd
      (set_cr_op AM_OP_WRITE_ALIGN wr (set_op AM_OP_WRITE_ALIGN Fn_assca_write32_align
      (set_cr_op AM_OP_READ_ALIGN rd (set_op AM_OP_READ_ALIGN Fn_assca_read32_align
      (set_base_ops (upd_cr (\<lambda>r. r\<lparr>cr_data_size := vl, cr_idx_size := kl\<rparr>) f))))))))
    \<lparr>fn_pVdF := Live (FdAssca \<lparr>as_data = Live (empty_assca kl vl), as_size = cap_maxSize cap, as_cur_count = 0\<rparr>)\<rparr>"
  have wf: "wf_cr (fn_crResp g)"
    using assms(5) by (simp add: g_def wf_cr_def set_base_ops_def set_acOps_def set_cr_op_def assca_pack_sizes_def Let_def)
  have h: "fn_handle g = fn_handle f" by (simp add: g_def)
  obtain b where b: "length b = 64" "set_name (''am_assca_'' @ fmt_04x (fn_handle f)) g = Inr (upd_cr (\<lambda>r. r\<lparr>cr_am_name := b\<rparr>) g)"
    using set_name_fits [OF wf nm] by blast
  let ?f' = "upd_cr (\<lambda>r. r\<lparr>cr_devt := fn_handle g\<rparr>) (upd_cr (\<lambda>r. r\<lparr>cr_am_name := b\<rparr>) g)"
  have "am_create_assca_device al f cap = Inr (AM_RET_GOOD, ?f')"
    using assms(1-3,6-8) h b(2)
    by (simp add: am_create_assca_device_def Let_def amlib_assca_init_empty g_def wr_def rd_def)
  moreover have "assca_dev ?f' (empty_assca kl vl)" "sized_for ?f' (empty_assca kl vl)"
    using assms(3,4,9)
    by (simp_all add: assca_dev_def sized_for_def assca_func_def g_def set_base_ops_def set_acOps_def set_cr_op_def
        assca_pack_sizes_def Let_def empty_assca_def)
  moreover have "wf_cr (fn_crResp ?f')" using wf b(1) by (simp add: wf_cr_def)
  moreover have "cr_acOps (fn_crResp ?f') = [wr, rd]"
    by (simp add: g_def set_acOps_def assca_pack_sizes_def Let_def)
  ultimately show ?thesis unfolding wr_def rd_def by blast
qed

lemma kpack_op_words: "is_pack_op (op_word AM_KPACK AM_OP_WRITE_ALIGN)" "is_pack_op (op_word AM_KPACK AM_OP_READ_ALIGN)"
  by (simp_all add: is_pack_op_def op_word_def IS_OP_PACKET_def AM_NET_GET_PACKTYPE_def)

text \<open>A capability that asks for an array whose key and data fit into one packet.\<close>

definition assca_req :: "mem_cap \<Rightarrow> UINT32 \<Rightarrow> UINT32 \<Rightarrow> bool" where
  "assca_req cap kl vl \<longleftrightarrow> cap_amType cap = AM_TYPE_ASSOC_ARRAY \<and> cap_typeSpecific cap ! TS_ASSCA_KEY_MAX_SIZE = kl \<and>
     cap_typeSpecific cap ! TS_ASSCA_DATA_MAX_SIZE = vl \<and> unat kl + unat vl \<le> 504"

text \<open>A run on an array that is new.\<close>

context array_link
begin

lemma new_run:
  assumes "R s (empty_assca kl vl)" "kops_ok (unat kl) (unat vl) {} ops"
    and "room_for assca_room (amlib_assca_add_key_fixfix (\<lambda>_. True)) (empty_assca kl vl) (kop_puts ops)"
  shows "\<exists>s'. keyed_run get put s ops = Inr (map_run Map.empty ops, s')"
  using run_map [OF assms(1) assca_inv_empty, of ops] assms(2,3) by (auto simp: empty_assca_def)

end

section \<open>Over the network\<close>

lemma creates_assca:
  assumes "am_targ_start_target al0 reg = Some t" "\<And>k. al0 k" "\<forall>k. al k" "wf_cap cap" "assca_req cap kl vl"
  shows "\<exists>f. creates al junk (ta_g t) cap 1 f \<and> assca_dev f (empty_assca kl vl) \<and> sized_for f (empty_assca kl vl) \<and>
    cr_acOps (fn_crResp f) = [op_word AM_KPACK AM_OP_WRITE_ALIGN, op_word AM_KPACK AM_OP_READ_ALIGN]"
proof -
  obtain f where "am_create_assca_device (\<lambda>k. al (k + 2)) (new_func 1) cap = Inr (AM_RET_GOOD, f)" "assca_dev f (empty_assca kl vl)"
    "sized_for f (empty_assca kl vl)" "cr_acOps (fn_crResp f) = [op_word AM_KPACK AM_OP_WRITE_ALIGN, op_word AM_KPACK AM_OP_READ_ALIGN]"
    using create_assca_ok [of "\<lambda>k. al (k + 2)" "new_func 1" zero_ops cap kl vl] assms(3,5)
    by (auto simp: zero_ops_def assca_req_def)
  then show ?thesis
    using start_target_ok [OF assms(1,2)] assms(3-5)
    by (intro exI [of _ f]) (simp add: creates_def targ_create_device_def assca_req_def)
qed

lemma remote_of_assca:
  assumes "creates al junk g cap i f" "made_from u f F" "net_ready n" "idle (net_w n)" "ta_g (net_w n) = tbl_set g i (Live f)"
    and "assca_dev f aa" "sized_for f aa" "\<forall>k. al k"
  shows "remote_assca (remote_of F i cl al junk n) aa"
proof -
  have i: "i < 256" "i < length (tg_table g)" "fn_handle f = 0xAA00 OR of_nat i" "length (tg_table g) = 256"
    using creates_func [OF assms(1)] assms(1) by (simp_all add: creates_def)
  have "sized_for F aa" using assms(2,7) by (simp add: made_from_def sized_for_def cr_with_tail_def)
  then show ?thesis
    using i assms(2-6,8) by (simp add: remote_assca_def remote_g_def remote_of_def client_ok_def made_from_def tbl_set_def)
qed

text \<open>
  C2: A session with an associative array over a network that delivers. On a target just started, a client opens the entry with the
  target's address (8 characters or more) and creates an array with keys and data whose sizes make 504 bytes at most; it gets the
  packet operators its sizes select, the 32-bit ones for 4 and 4 and those that copy blocks otherwise. Then a run of inserts with fresh
  keys and of lookups, all of the array's sizes, gets call by call the status and data of a finite map: an inserted key
  is found with its data, any other is answered with \<open>AM_RET_KEY_NOT_FOUND\<close> and leaves the buffer alone. The close leaves the
  descriptors open before. Each insert must find room in the table (\<open>assca_room\<close>: fewer than \<open>2 ^ 31\<close> buckets and \<open>2 ^ 32 - 1\<close> items), as
  the first 26 always do (\<open>room_for_few\<close>); memory and system calls do not fail; the client's object has its table of calls; 20 readable bytes follow the capability's 168,
  as 188 are copied (\<open>am_net_create_function_overread\<close>).
\<close>

theorem am_session_assca:
  assumes "am_targ_start_target al0 reg = Some t" "\<And>k. al0 k" "net_ready n" "net_w n = t" "\<forall>k. al k"
    and "wf_cap cap" "assca_req cap kl vl" "fn_calls F = Some fc" "wf_cr (fn_crResp F)" "20 \<le> length extra"
    and ops: "kops_ok (unat kl) (unat vl) {} ops"
      "room_for assca_room (amlib_assca_add_key_fixfix (\<lambda>_. True)) (empty_assca kl vl) (kop_puts ops)"
    and name: "7 < length (dotted b1 b2 b3 b4)" "ip_of b1 b2 b3 b4 \<noteq> 0" and sys: "sys_ok sy" "\<And>k. al' k" "sy_socket sy \<notin> fds"
  shows "\<exists>e n1 F' n' c r.
    am_get_entry_point (loop_sock cl al junk) sy al' run stack (Some (dotted b1 b2 b3 b4)) (Some ent) fds n =
      Inr (AM_RET_GOOD, Some e, insert (sy_socket sy) fds, n1) \<and> en_create_function e = Some En_net_create_function \<and>
    am_net_create_function (loop_sock cl al junk) n1 (Some (enc_mem_cap cap @ extra)) F = Inr (AM_RET_GOOD, F', n') \<and>
    fn_calls F' = Some c \<and> fc_write_al c = Some (pack_write_op (fn_crResp F')) \<and> fc_read_al c = Some (pack_read_op (fn_crResp F')) \<and>
    keyed_run remote_get remote_put (remote_of F' 1 cl al junk n') ops = Inr (map_run Map.empty ops, r) \<and>
    am_net_entry_close sy e (insert (sy_socket sy) fds) = Inr (AM_RET_GOOD, e\<lparr>en_pTransport := Dangling\<rparr>, fds)"
proof -
  note t = start_target_ok [OF assms(1,2)]
  obtain e s n1 where e: "am_get_entry_point (loop_sock cl al junk) sy al' run stack (Some (dotted b1 b2 b3 b4)) (Some ent) fds n =
      Inr (AM_RET_GOOD, Some e, insert (sy_socket sy) fds, n1)" "en_create_function e = Some En_net_create_function"
      "en_pTransport e = Live s" "us_socket_handle s = sy_socket sy" "net_ready n1" "idle (net_w n1)" "ta_g (net_w n1) = ta_g t"
    using entry_connects [where al' = al' and cl = cl and al = al and junk = junk and run = run and stack = stack and ent = ent and fds = fds,
      OF assms(3) _ _ name sys(1,2)] t(1,5) unfolding assms(4) by blast
  obtain f where f: "creates al junk (ta_g (net_w n1)) cap 1 f" "assca_dev f (empty_assca kl vl)" "sized_for f (empty_assca kl vl)"
    "cr_acOps (fn_crResp f) = [op_word AM_KPACK AM_OP_WRITE_ALIGN, op_word AM_KPACK AM_OP_READ_ALIGN]"
    using creates_assca [OF assms(1,2,5-7)] e(7) by metis
  have acs: "is_pack_op (cr_acOps (fn_crResp f) ! 0)" "is_pack_op (cr_acOps (fn_crResp f) ! 1)"
    using f(4) kpack_op_words by simp_all
  obtain F' n' where n': "am_net_create_function (loop_sock cl al junk) n1 (Some (enc_mem_cap cap @ extra)) F = Inr (AM_RET_GOOD, F', n')"
    "made_from (take 8 (drop 360 (net_rx n1))) f F'" "net_ready n'" "idle (net_w n')" "ta_g (net_w n') = tbl_set (ta_g (net_w n1)) 1 (Live f)"
    using net_create_remote [where cl = cl, OF e(5,6) f(1) assms(8-10) acs] by blast
  obtain c where c: "fn_calls F' = Some c" "fc_write_al c = Some (pack_write_op (fn_crResp F'))" "fc_read_al c = Some (pack_read_op (fn_crResp F'))"
    using n'(2) by (auto simp: made_from_def pack_op_tail)
  have "remote_assca (remote_of F' 1 cl al junk n') (empty_assca kl vl)"
    by (rule remote_of_assca [OF f(1) n'(2-5) f(2,3) assms(5)])
  then obtain r where "keyed_run remote_get remote_put (remote_of F' 1 cl al junk n') ops = Inr (map_run Map.empty ops, r)"
    using remote_array.new_run ops by blast
  moreover have "am_net_entry_close sy e (insert (sy_socket sy) fds) = Inr (AM_RET_GOOD, e\<lparr>en_pTransport := Dangling\<rparr>, fds)"
    using entry_closes [OF sys(1) e(3,4), of fds] sys(3) by simp
  ultimately show ?thesis using e(1,2) n'(1) c by blast
qed

text \<open>An array with keys of 2 bytes and data of 1: a key is looked up before and after it is inserted.\<close>

definition demo_ops_run :: "kop list" where
  "demo_ops_run = [Get [1, 2] [0], Put [1, 2] [7], Get [1, 2] [0], Get [3, 4] [9]]"

lemma demo_ops_run_ok:
  "kops_ok (unat (2 :: UINT32)) (unat (1 :: UINT32)) {} demo_ops_run"
  "room_for assca_room (amlib_assca_add_key_fixfix (\<lambda>_. True)) (empty_assca 2 1) (kop_puts demo_ops_run)"
  "map_run Map.empty demo_ops_run = [(5, [0]), (0, [7]), (0, [7]), (5, [9])]"
  using assca_room_empty by (simp_all add: demo_ops_run_def split: sum.splits)

lemma am_session_assca_witness:
  "\<exists>t e n1 F' n' r. am_targ_start_target (\<lambda>_. True) [] = Some t \<and>
    am_get_entry_point (loop_sock (7 :: nat) (\<lambda>_. True) (\<lambda>_. 0)) good_sys (\<lambda>_. True) True (\<lambda>_. 0) (Some (dotted 127 0 0 1)) (Some no_entry)
      {0, 1, 2} (fresh_net t) = Inr (0, Some e, {0, 1, 2, 3}, n1) \<and>
    am_net_create_function (loop_sock 7 (\<lambda>_. True) (\<lambda>_. 0)) n1
      (Some (enc_mem_cap (mk_cap 3 16 1 1 0 [2, 1, 1, 1]) @ replicate 20 0)) call_func = Inr (0, F', n') \<and>
    keyed_run remote_get remote_put (remote_of F' 1 7 (\<lambda>_. True) (\<lambda>_. 0) n') demo_ops_run =
      Inr ([(5, [0]), (0, [7]), (0, [7]), (5, [9])], r)"
proof -
  obtain t :: "nat target" where t: "am_targ_start_target (\<lambda>_. True) [] = Some t"
    by (simp add: am_targ_start_target_def am_targ_init_base_function_def am_init_pack_queue_def Let_def)
  let ?cap = "mk_cap 3 16 1 1 0 [2, 1, 1, 1]"
  have c: "assca_req ?cap 2 1" by (simp add: assca_req_def mk_cap_def ts_init_def)
  have wf: "wf_cap ?cap" by simp
  have l: "7 < length (dotted 127 0 0 1)" "ip_of 127 0 0 1 \<noteq> 0" by (simp_all add: localhost)
  have sy: "sys_ok good_sys" "sy_socket good_sys = 3" by (simp_all add: good_sys_def sys_ok_def)
  have ins: "insert 3 {0, 1, 2 :: UINT32} = {0, 1, 2, 3}" by blast
  from am_session_assca [where cl = 7 and n = "fresh_net t" and al = "\<lambda>_. True" and junk = "\<lambda>_. 0" and F = call_func and fc = zero_calls
      and extra = "replicate 20 0" and fds = "{0, 1, 2}" and run = True and stack = "\<lambda>_. 0" and ent = no_entry and sy = good_sys
      and al' = "\<lambda>_. True", OF t _ _ _ _ wf c _ _ _ demo_ops_run_ok(1,2) l sy(1)] t sy(2) ins demo_ops_run_ok(3)
  show ?thesis by auto
qed

section \<open>Through the command page\<close>

lemma k_assca_made:
  assumes "\<And>i. ke_al e i" "wf_cr (fn_crResp (ke_func e))" "assca_req cap kl vl"
  shows "\<exists>f. k_creates e cap f \<and> (\<forall>f1. k_dev_of f f1 \<longrightarrow> assca_dev f1 (empty_assca kl vl) \<and> sized_for f1 (empty_assca kl vl) \<and>
    cr_acOps (fn_crResp f1) = [op_word AM_KPACK AM_OP_WRITE_ALIGN, op_word AM_KPACK AM_OP_READ_ALIGN] \<and>
    length (c_string (cr_am_name (fn_crResp f1))) \<le> 58)"
proof -
  obtain f where f: "am_create_assca_device (\<lambda>i. ke_al e (4 + i)) ((ke_func e)\<lparr>fn_pfnOps := Some zero_ops\<rparr>) cap = Inr (AM_RET_GOOD, f)"
    "assca_dev f (empty_assca kl vl)" "sized_for f (empty_assca kl vl)" "wf_cr (fn_crResp f)"
    "cr_acOps (fn_crResp f) = [op_word AM_KPACK AM_OP_WRITE_ALIGN, op_word AM_KPACK AM_OP_READ_ALIGN]"
    using create_assca_ok [of "\<lambda>i. ke_al e (4 + i)" "(ke_func e)\<lparr>fn_pfnOps := Some zero_ops\<rparr>" zero_ops cap kl vl] assms
    by (auto simp: zero_ops_def assca_req_def)
  then show ?thesis using assms(3)
    by (intro exI [of _ f])
      (simp add: k_creates_def Let_def assca_req_def k_dev_of_def assca_dev_def sized_for_def assca_func_def)
qed

text \<open>
  C14: The same session with the kernel module. The module is loaded; a client creates the array through \<^verbatim>\<open>ioctl\<close>, its
  capability asking for the page and for sizes that make 504 bytes at most, in mapped areas of its memory that do not overlap; the file is
  opened and mapped, with the thread of the module taking at least two steps before the client's last look. Then a run of inserts with fresh
  keys and of lookups through the page, all keys and data of the array's sizes, gets the status and the data of a finite map. Each insert
  must find room in the table (\<open>assca_room\<close>: fewer than \<open>2 ^ 31\<close> buckets and \<open>2 ^ 32 - 1\<close> items), as the first 26 always
  do (\<open>room_for_few\<close>), all memory is granted, and the client's object has its table of calls.
\<close>

theorem am_kd_session_assca:
  assumes k: "appmemd_init e result major reg um = Inr (st, k)" "0 \<le> sint result" "\<And>i. ke_al e i" "wf_cr (fn_crResp (ke_func e))"
    and fd: "sint fd > - 1" "fds fd = Some 0" "sint fd' > - 1" and mem: "kd_mem um sp pCap pcr cap"
    and cap: "assca_req cap kl vl" "cap_access_flags cap AND AM_CAP_AC_FLAG_PACK_MMAP \<noteq> 0"
    and F: "fn_calls F = Some fc" and th: "al 0" "al 1" "2 \<le> sum sch {..<14}" "2 \<le> fuel" "\<forall>i. al' i"
    and ops: "kops_ok (unat kl) (unat vl) {} ops"
      "room_for assca_room (amlib_assca_add_key_fixfix (\<lambda>_. True)) (empty_assca kl vl) (kop_puts ops)"
  shows "\<exists>F1 fm1 k1 d m F2 fm2 m2 c r.
    am_kd_create_function e fds sp junk fd k pCap pcr F fm = Inr (AM_RET_GOOD, F1, fm1, k1) \<and> kn_devs k1 1 = Some d \<and>
    appmemd_vma_fault al d = Inr (m, True) \<and>
    am_kd_open al' junk sch fuel fd' (Some (T_start, m)) F1 fm1 = Inr (AM_RET_GOOD, F2, fm2, Some (T_run, m2)) \<and>
    fn_calls F2 = Some c \<and> fc_write_al c = Some (pack_write_op (fn_crResp F2)) \<and> fc_read_al c = Some (pack_read_op (fn_crResp F2)) \<and>
    keyed_run mapped_get mapped_put \<lparr>md_F = F2, md_al = al', md_junk = junk, md_kp = \<lparr>kp_map = fm2, kp_th = T_run, kp_dev = m2\<rparr>\<rparr> ops =
      Inr (map_run Map.empty ops, r)"
proof -
  let ?aa = "empty_assca kl vl"
  note init = appmemd_init_based [OF k(1-3)]
  have mem': "kd_mem (kn_um k) sp pCap pcr cap" using mem init(2) by simp
  obtain f0 where f0: "k_creates e cap f0" "\<forall>f1. k_dev_of f0 f1 \<longrightarrow> assca_dev f1 ?aa \<and> sized_for f1 ?aa \<and>
      cr_acOps (fn_crResp f1) = [op_word AM_KPACK AM_OP_WRITE_ALIGN, op_word AM_KPACK AM_OP_READ_ALIGN] \<and>
      length (c_string (cr_am_name (fn_crResp f1))) \<le> 58"
    using k_assca_made [OF k(3,4) cap(1)] by blast
  obtain F1 fm1 k1 d f where c: "am_kd_create_function e fds sp junk fd k pCap pcr F fm = Inr (AM_RET_GOOD, F1, fm1, k1)"
    "F1 = F\<lparr>fn_crResp := fn_crResp f, fn_handle := - 1, fn_pEntry := True, fn_calls := Some (kd_calls (fn_crResp f) fc)\<rparr>"
    "fm1 = fm\<lparr>fm_map_flags := cap_access_flags cap\<rparr>" "kn_devs k1 = (kn_devs k)(1 \<mapsto> d)" "kd_func d = Some f" "k_dev_of f0 f"
    using kd_create_ok [where k = k and fds = fds and fd = fd and e = e and F = F and junk = junk and fm = fm,
        OF init(1) fd(1,2) mem' f0(1) k(3) F] cap(2) init(3) by auto
  have f: "assca_dev f ?aa" "sized_for f ?aa" "length (c_string (cr_am_name (fn_crResp f))) \<le> 58"
    "cr_acOps (fn_crResp f) = [op_word AM_KPACK AM_OP_WRITE_ALIGN, op_word AM_KPACK AM_OP_READ_ALIGN]"
    using f0(2) c(6) by auto
  define m where "m = \<lparr>km_page = fault_page, km_isMapped = True, km_func = Some f, km_flags = kd_flags d\<rparr>"
  have fault: "appmemd_vma_fault al d = Inr (m, True)" using th(1,2) c(5) by (simp add: appmemd_vma_fault_def m_def)
  have o: "length (c_string (cr_am_name (fn_crResp F1))) \<le> 58" "fm_map_flags fm1 AND AM_CAP_AC_FLAG_PACK_MMAP \<noteq> 0"
    "km_page m = fault_page" "km_isMapped m" "km_func m = Some f" "fn_calls F1 = Some (kd_calls (fn_crResp f) fc)"
    "is_pack_op (cr_acOps (fn_crResp F1) ! 0)" "is_pack_op (cr_acOps (fn_crResp F1) ! 1)"
    using f(3,4) cap(2) kpack_op_words by (simp_all add: c(2,3) m_def)
  obtain F2 fm2 m2 cl where op: "am_kd_open al' junk sch fuel fd' (Some (T_start, m)) F1 fm1 = Inr (AM_RET_GOOD, F2, fm2, Some (T_run, m2))"
    "fn_pEntry F2" "fn_get_free_iop F2" "fn_send_and_wait F2" "fn_crResp F2 = fn_crResp f"
    "fn_calls F2 = Some cl" "fc_write_al cl = Some (pack_write_op (fn_crResp F2))" "fc_read_al cl = Some (pack_read_op (fn_crResp F2))"
    "kp_ready \<lparr>kp_map = fm2, kp_th = T_run, kp_dev = m2\<rparr>" "km_func m2 = Some f"
    using kd_open_sync(1) [OF o(1) fd(3) o(2-5) th(4) o(6-8) th(3), of al' junk] by (auto simp: c(2))
  let ?r = "\<lparr>md_F = F2, md_al = al', md_junk = junk, md_kp = \<lparr>kp_map = fm2, kp_th = T_run, kp_dev = m2\<rparr>\<rparr>"
  have "mapped_assca ?r ?aa"
    using op f(1,2) th(5) by (simp add: mapped_assca_def kp_func_def sized_for_def pack_asserts_def)
  then obtain r where "keyed_run mapped_get mapped_put ?r ops = Inr (map_run Map.empty ops, r)"
    using mapped_array.new_run ops by blast
  then show ?thesis using c(1,4) fault op(1,6-8) by auto
qed

lemma am_kd_session_assca_witness:
  "\<exists>um k F1 fm1 k1 d m F2 fm2 m2 r. appmemd_init demo_kenv 0 250 full_registry um = Inr (0, k) \<and>
    am_kd_create_function demo_kenv (\<lambda>_. Some 0) 5000 (\<lambda>_. 0) 3 k 1000 2000 call_func mmap0 = Inr (0, F1, fm1, k1) \<and>
    kn_devs k1 1 = Some d \<and> appmemd_vma_fault (\<lambda>_. True) d = Inr (m, True) \<and>
    am_kd_open (\<lambda>_. True) (\<lambda>_. 0) (\<lambda>_. 1) 2 4 (Some (T_start, m)) F1 fm1 = Inr (0, F2, fm2, Some (T_run, m2)) \<and>
    keyed_run mapped_get mapped_put \<lparr>md_F = F2, md_al = \<lambda>_. True, md_junk = \<lambda>_. 0, md_kp = \<lparr>kp_map = fm2, kp_th = T_run, kp_dev = m2\<rparr>\<rparr>
      demo_ops_run = Inr ([(5, [0]), (0, [7]), (0, [7]), (5, [9])], r)"
proof -
  let ?cap = "mk_cap 3 16 1 1 1 [2, 1, 1, 1]"
  have c: "assca_req ?cap 2 1" "cap_access_flags ?cap = 1" by (simp_all add: assca_req_def mk_cap_def ts_init_def)
  obtain um where um: "kd_mem um 5000 1000 2000 ?cap" using demo_mem [of ?cap] by auto
  obtain k where k: "appmemd_init demo_kenv 0 250 full_registry um = Inr (0, k)" using demo_init by blast
  from am_kd_session_assca [OF k _ demo_kenv_simps, where fd = 3 and fds = "\<lambda>_. Some 0" and fd' = 4 and cap = ?cap and F = call_func and
      al = "\<lambda>_. True" and sch = "\<lambda>_. 1" and fuel = 2 and junk = "\<lambda>_. 0" and fm = mmap0 and al' = "\<lambda>_. True",
      OF _ _ _ _ um c(1) _ _ _ _ _ _ _ demo_ops_run_ok(1,2), unfolded demo_ops_run_ok(3)]
  show ?thesis by (intro exI [of _ um] exI [of _ k]) (use k c in auto)
qed

section \<open>Past the packet\<close>

text \<open>
  Key and data that do not fit into a packet together: the client copies them all the same, and writes behind the
  512 bytes of the packet.
\<close>

lemma am_pack_write_align_oversize:
  assumes "pack_asserts (Some F) = Inr F" "free_iop pk n = Inr (pIop, n1)" "length (iop_pTx pIop) = 512"
    and "504 < unat (cr_idx_size (fn_crResp F)) + unat (cr_data_size (fn_crResp F))"
    and "unat (cr_idx_size (fn_crResp F)) \<le> length k" "unat (cr_data_size (fn_crResp F)) \<le> length d"
  shows "am_pack_write_align pk n (Some F) (Some k) (Some d) = Inl OutOfBounds"
proof -
  obtain w where w: "iop_pTx pIop = enc_wrapper w @ drop 8 (iop_pTx pIop)" using wrapper_cases [of "iop_pTx pIop"] assms(3) by auto
  define tx_size where "tx_size = 8 + cr_data_size (fn_crResp F) + cr_idx_size (fn_crResp F)"
  define tx where "tx = enc_wrapper (req_wrap F (w_appTag w) 3 0x10 tx_size) @ drop 8 (iop_pTx pIop)"
  have wrap: "pack_wrap F pIop 3 tx_size 0x10 = Inr (pIop\<lparr>iop_pTx := tx\<rparr>)" unfolding tx_def by (rule pack_wrap_req [OF w])
  have l: "length tx = 512" using assms(3) by (simp add: tx_def)
  show ?thesis
  proof (cases "unat (cr_idx_size (fn_crResp F)) \<le> 504")
    case True
    obtain tx' where tx': "memcpy tx 8 k 0 (unat (cr_idx_size (fn_crResp F))) = Inr tx'" "length tx' = 512"
      using True assms(5) l by (simp add: memcpy_def getb_def putb_def)
    have "memcpy tx' (8 + unat (cr_idx_size (fn_crResp F))) d 0 (unat (cr_data_size (fn_crResp F))) = Inl OutOfBounds"
      using assms(4,6) tx'(2) by (simp add: memcpy_def getb_def putb_def)
    then show ?thesis using assms(1,2) wrap tx'(1) by (simp add: am_pack_write_align_def Let_def tx_size_def)
  next
    case False
    then have "memcpy tx 8 k 0 (unat (cr_idx_size (fn_crResp F))) = Inl OutOfBounds"
      using assms(5) l by (simp add: memcpy_def getb_def putb_def)
    then show ?thesis using assms(1,2) wrap by (simp add: am_pack_write_align_def Let_def tx_size_def)
  qed
qed

end
