(* ===== verification/AM_Kernel_Inv.thy ===== *)
theory AM_Kernel_Inv
  imports AM_Kernel
begin

text \<open>
  The state of the module over any sequence of commands: the devices and their list, the minor numbers, the
  operator tables and the command buffer stay well formed, and unloading takes all of it down.
\<close>

section \<open>The invariant\<close>

definition ops_ok :: "mem_func \<Rightarrow> bool" where
  "ops_ok f \<longleftrightarrow> (\<exists>ops. fn_pfnOps f = Some ops \<and> length ops = AM_OP_MAX_OPS \<and> ops ! 5 = Some Fn_targ_release)"

text \<open>
  The devices in use are the base device and those on the list, each with a minor number of its own that was given
  out before; a device has no function yet or one with an operator table.
\<close>

definition kern_inv :: "kern \<Rightarrow> bool" where
  "kern_inv k \<longleftrightarrow> length (kn_cmd k) = sizeof_CMD_U \<and> distinct (kn_head k) \<and>
     dom (kn_devs k) = insert 0 (set (kn_head k)) \<and> (\<forall>m\<in>set (kn_head k). 0 < unat m \<and> unat m < unat (kn_minor k)) \<and>
     0 < unat (kn_minor k) \<and>
     (\<exists>d f. kn_devs k 0 = Some d \<and> kd_func d = Some f \<and> fn_amType f = AM_TYPE_BASE_APPMEM \<and> fn_pfnOps f = Some k_base_ops) \<and>
     (\<forall>m\<in>set (kn_head k). \<forall>d f. kn_devs k m = Some d \<longrightarrow> kd_func d = Some f \<longrightarrow> ops_ok f \<and> fn_amType f \<noteq> AM_TYPE_BASE_APPMEM)"

lemma set_name_frame: "set_name s f = Inr f' \<Longrightarrow> fn_pfnOps f' = fn_pfnOps f \<and> fn_amType f' = fn_amType f"
  by (auto simp: set_name_def res_simps upd_cr_def)

lemma zero_ops_64 [simp]: "length zero_ops = AM_OP_MAX_OPS"
  by (simp add: zero_ops_def)

lemma set_base_ops_ok: "fn_pfnOps f = Some zero_ops \<Longrightarrow> ops_ok (set_base_ops f)"
  by (simp add: ops_ok_def set_base_ops_def set_op_def set_cr_op_def upd_cr_def)

lemma set_op_ok: "ops_ok f \<Longrightarrow> unat opc \<noteq> 5 \<Longrightarrow> ops_ok (set_op opc fp f)"
  by (auto simp: ops_ok_def set_op_def)

lemma ops_ok_upd [simp]:
  "ops_ok (upd_cr g f) = ops_ok f" "ops_ok (set_cr_op opc w f) = ops_ok f" "ops_ok (set_acOps v w f) = ops_ok f"
  "ops_ok (f\<lparr>fn_pVdF := p\<rparr>) = ops_ok f" "ops_ok (f\<lparr>fn_amType := ty\<rparr>) = ops_ok f"
  by (simp_all add: ops_ok_def upd_cr_def set_cr_op_def set_acOps_def)

lemma ops_ok_name: "set_name s f = Inr f' \<Longrightarrow> ops_ok f' = ops_ok f"
  using set_name_frame by (simp add: ops_ok_def)

lemma create_ops_ok:
  assumes "fn_pfnOps f = Some zero_ops"
  shows "am_create_flat_device al junk f cap = Inr (AM_RET_GOOD, f') \<Longrightarrow> ops_ok f'"
    and "am_create_stata_device al junk f cap = Inr (AM_RET_GOOD, f') \<Longrightarrow> ops_ok f'"
    and "am_create_assca_device al f cap = Inr (AM_RET_GOOD, f') \<Longrightarrow> ops_ok f'"
  using assms
  by (auto simp: am_create_flat_device_def am_create_stata_device_def am_create_assca_device_def Let_def res_simps
      set_op_ok set_base_ops_ok dest!: ops_ok_name split: if_splits)

text \<open>An aligned operator changes the data of a function only.\<close>

lemma align_frame:
  assumes "call_align fp al f p1 p2 = Inr (st, f', p')"
  shows "fn_pfnOps f' = fn_pfnOps f \<and> fn_amType f' = fn_amType f"
  using assms
  by (cases fp) (auto simp: am_flat_read32_align_def am_flat_write32_align_def am_stata_read_idx32_def am_stata_write_idx32_def
      am_assca_read32_align_def am_assca_write32_align_def set_assca_def res_simps Let_def split: if_splits)

lemma k_align_read_frame:
  assumes "k_align_read fp flags um f p1 p2 = Inr (st, f', um')"
  shows "fn_pfnOps f' = fn_pfnOps f \<and> fn_amType f' = fn_amType f"
  using assms align_frame [of fp "\<lambda>_. True" f "Some p1" "Some (replicate 4 0)"]
  by (cases fp) (auto simp: k_assca_read_def k_assca_get_key_val_def set_assca_def res_simps split: if_splits option.splits)

lemma k_align_write_frame:
  "k_align_write fp al f p1 p2 = Inr (st, f') \<Longrightarrow> fn_pfnOps f' = fn_pfnOps f \<and> fn_amType f' = fn_amType f"
  using align_frame [of fp al f "Some p1" "Some p2"] by (auto simp: k_align_write_def res_simps split: if_splits)

section \<open>What keeps the invariant\<close>

lemma kern_inv_cong:
  assumes "kern_inv k" "length (kn_cmd k') = sizeof_CMD_U" "kn_head k' = kn_head k" "kn_minor k' = kn_minor k" "kn_devs k' = kn_devs k"
  shows "kern_inv k'"
  using assms by (simp add: kern_inv_def)

lemma kern_inv_um: "kern_inv k \<Longrightarrow> kern_inv (k\<lparr>kn_um := um\<rparr>)"
  by (rule kern_inv_cong) (auto simp: kern_inv_def)

lemma set_dev_simps [simp]:
  "kn_head (set_dev m g k) = kn_head k" "kn_minor (set_dev m g k) = kn_minor k" "kn_cmd (set_dev m g k) = kn_cmd k"
  "kn_devs (set_dev m g k) m' = (if m' = m then map_option g (kn_devs k m) else kn_devs k m')"
  by (simp_all add: set_dev_def)

lemma dom_set_dev [simp]: "dom (kn_devs (set_dev m g k)) = dom (kn_devs k)"
  by (auto simp: dom_def)

lemma set_dev_set_dev: "set_dev m g (set_dev m h k) = set_dev m (\<lambda>d. g (h d)) k"
  by (simp add: set_dev_def option.map_comp o_def)

lemma kern_inv_set_func:
  assumes "kern_inv k" "m \<in> set (kn_head k)" "ops_ok f" "fn_amType f \<noteq> AM_TYPE_BASE_APPMEM" "\<And>d. kd_func (g d) = Some f"
  shows "kern_inv (set_dev m g k)"
proof -
  have "m \<noteq> 0" using assms(1,2) by (auto simp: kern_inv_def)
  then show ?thesis using assms by (auto simp: kern_inv_def)
qed

lemma k_put_func_inv:
  assumes k: "kern_inv k" and d: "kn_devs k m = Some d" "kd_func d = Some f"
    and f': "fn_pfnOps f' = fn_pfnOps f" "fn_amType f' = fn_amType f"
  shows "kern_inv (k_put_func m f' k)"
proof (cases "m = 0")
  case True
  then show ?thesis using assms by (auto simp: kern_inv_def k_put_func_def)
next
  case False
  then have m: "m \<in> set (kn_head k)" using k d(1) by (auto simp: kern_inv_def)
  then have "ops_ok f'" "fn_amType f' \<noteq> AM_TYPE_BASE_APPMEM" using k d f' by (auto simp: kern_inv_def ops_ok_def)
  then show ?thesis unfolding k_put_func_def by (rule kern_inv_set_func [OF k m]) simp
qed

lemma device_create_inv:
  assumes "appmem_device_func_create al name ty k = Inr (r, k')" "kern_inv k" "unat (kn_minor k) + 1 < 2 ^ 32"
  shows "kern_inv k' \<and> (\<forall>m. r = Some m \<longrightarrow> m \<in> set (kn_head k') \<and> (\<forall>d. kn_devs k' m = Some d \<longrightarrow> kd_amType d = ty))"
proof -
  have n: "unat (kn_minor k + 1) = unat (kn_minor k) + 1" using assms(3) by (simp add: unat_word_ariths)
  note K = assms(2) [unfolded kern_inv_def]
  have new: "kn_minor k \<notin> set (kn_head k)" "kn_minor k \<noteq> 0" using K by auto
  have dom: "dom (kn_devs k) = insert 0 (set (kn_head k))" using K by blast
  consider (none) "r = None" "k' = k\<lparr>kn_minor := kn_minor k + 1\<rparr>"
    | (dev) d where "r = Some (kn_minor k)" "kd_func d = None" "kd_amType d = ty"
      "k' = k\<lparr>kn_minor := kn_minor k + 1, kn_devs := (kn_devs k)(kn_minor k \<mapsto> d), kn_head := kn_minor k # kn_head k\<rparr>"
    using assms(1) by (auto simp: appmem_device_func_create_def Let_def res_simps split: if_splits
      intro: that(2) [where d = "\<lparr>kd_func = None, kd_amType = ty, kd_devt = MKDEV (kn_major k) (kn_minor k),
        kd_am_name = c_array 64 (name @ fmt_d (kn_minor k)), kd_pack_DataOffset = 0, kd_wr_pack_size = 0,
        kd_rd_pack_size = 0, kd_flags = 0\<rparr>"])
  then show ?thesis
  proof cases
    case none
    then show ?thesis using K n by (simp add: kern_inv_def less_Suc_eq)
  next
    case dev
    have "kern_inv k'" using K n new dev(2) unfolding kern_inv_def dev(4)
      by (simp add: dom insert_commute less_Suc_eq)
    then show ?thesis using dev by simp
  qed
qed

text \<open>A case of the creation: the new device is put on the list, and holds the function if that could be made.\<close>

definition made_in :: "kern \<Rightarrow> UINT32 \<Rightarrow> mem_func \<Rightarrow> bool" where
  "made_in k m f \<longleftrightarrow> (\<exists>k0 h. kern_inv k0 \<and> k = set_dev m h k0 \<and> m \<in> set (kn_head k0) \<and> ops_ok f \<and>
     (\<forall>d. kn_devs k m = Some d \<longrightarrow> kd_amType d \<noteq> AM_TYPE_BASE_APPMEM))"

lemma k_create_case_inv:
  assumes c: "k_create_case e name ty create k = Inr (st, dev, k')" and k: "kern_inv k" "unat (kn_minor k) + 1 < 2 ^ 32"
    and ty: "ty \<noteq> AM_TYPE_BASE_APPMEM"
    and create: "\<And>f f'. fn_pfnOps f = Some zero_ops \<Longrightarrow> create f = Inr (AM_RET_GOOD, f') \<Longrightarrow> ops_ok f'"
  shows "case dev of None \<Rightarrow> kern_inv k' | Some (m, f) \<Rightarrow> made_in k' m f"
proof -
  obtain r k1 where d: "appmem_device_func_create (\<lambda>i. ke_al e (1 + i)) name ty k = Inr (r, k1)"
    and r: "(case r of None \<Rightarrow> Inr (AM_RET_ALLOC_ERR, None, k1)
      | Some m \<Rightarrow> bindr (create ((ke_func e)\<lparr>fn_pfnOps := Some zero_ops\<rparr>)) (\<lambda>(error, f).
          if error = AM_RET_GOOD then Inr (error, Some (m, f), set_dev m (\<lambda>d. d\<lparr>kd_func := Some f, kd_flags := ke_flags e\<rparr>) k1)
          else Inr (error, None, k1))) = Inr (st, dev, k')"
    using c by (auto simp: k_create_case_def res_simps)
  note i = device_create_inv [OF d k]
  show ?thesis
  proof (cases r)
    case None
    then show ?thesis using r i by auto
  next
    case (Some m)
    then obtain error f where f: "create ((ke_func e)\<lparr>fn_pfnOps := Some zero_ops\<rparr>) = Inr (error, f)"
      "(if error = AM_RET_GOOD then Inr (error, Some (m, f), set_dev m (\<lambda>d. d\<lparr>kd_func := Some f, kd_flags := ke_flags e\<rparr>) k1)
          else Inr (error, None, k1)) = (Inr (st, dev, k') :: (AM_RETURN \<times> (UINT32 \<times> mem_func) option \<times> kern) res)"
      using r by (auto simp: res_simps)
    show ?thesis
    proof (cases "error = AM_RET_GOOD")
      case True
      then have "ops_ok f" using create [OF _ f(1) [unfolded True]] by simp
      then have "made_in (set_dev m (\<lambda>d. d\<lparr>kd_func := Some f, kd_flags := ke_flags e\<rparr>) k1) m f"
        unfolding made_in_def using i Some ty
        by (intro exI [of _ k1] exI [of _ "\<lambda>d. d\<lparr>kd_func := Some f, kd_flags := ke_flags e\<rparr>"]) auto
      then show ?thesis using f(2) True by auto
    next
      case False
      then show ?thesis using f(2) i by auto
    qed
  qed
qed

lemma made_in_set_dev:
  assumes "made_in k m f" "\<And>d. kd_amType (g d) = kd_amType d"
  shows "made_in (set_dev m g k) m f"
proof -
  obtain k0 h where h: "kern_inv k0" "k = set_dev m h k0" "m \<in> set (kn_head k0)" "ops_ok f"
    "\<forall>d. kn_devs k m = Some d \<longrightarrow> kd_amType d \<noteq> AM_TYPE_BASE_APPMEM"
    using assms(1) by (auto simp: made_in_def)
  have "set_dev m g k = set_dev m (\<lambda>d. g (h d)) k0" by (simp add: h(2) set_dev_set_dev)
  moreover have "\<forall>d. kn_devs (set_dev m g k) m = Some d \<longrightarrow> kd_amType d \<noteq> AM_TYPE_BASE_APPMEM"
    using h(5) assms(2) by auto
  ultimately show ?thesis using h(1,3,4) unfolding made_in_def by blast
qed

lemma k_pack_sizes_inv:
  assumes "case dev of None \<Rightarrow> kern_inv k | Some (m, f) \<Rightarrow> made_in k m f" "k_pack_sizes (st, dev, k) = (st', dev', k')"
  shows "case dev' of None \<Rightarrow> kern_inv k' | Some (m, f) \<Rightarrow> made_in k' m f"
proof (cases dev)
  case None
  then show ?thesis using assms by (auto simp: k_pack_sizes_def)
next
  case (Some mf)
  obtain m f where mf: "mf = (m, f)" by (cases mf)
  then have "made_in k m f" using assms(1) Some by simp
  from made_in_set_dev [OF this] show ?thesis using assms(2) Some mf by (auto simp: k_pack_sizes_def)
qed

lemma made_in_final:
  assumes "made_in k m f" "kn_devs k m = Some d"
  shows "kern_inv (set_dev m (\<lambda>x. x\<lparr>kd_func := Some (upd_cr g (f\<lparr>fn_amType := kd_amType d\<rparr>))\<rparr>) k)"
proof -
  obtain k0 h where h: "kern_inv k0" "k = set_dev m h k0" "m \<in> set (kn_head k0)" "ops_ok f" "kd_amType d \<noteq> AM_TYPE_BASE_APPMEM"
    using assms by (auto simp: made_in_def)
  let ?f = "upd_cr g (f\<lparr>fn_amType := kd_amType d\<rparr>)"
  have "set_dev m (\<lambda>d. d\<lparr>kd_func := Some ?f\<rparr>) k = set_dev m (\<lambda>d. (h d)\<lparr>kd_func := Some ?f\<rparr>) k0"
    by (simp add: h(2) set_dev_set_dev)
  moreover have "kern_inv (set_dev m (\<lambda>d. (h d)\<lparr>kd_func := Some ?f\<rparr>) k0)"
    by (rule kern_inv_set_func [OF h(1,3)]) (use h(4,5) in \<open>simp_all add: upd_cr_def ops_ok_def\<close>)
  ultimately show ?thesis by simp
qed

text \<open>A command gives out one minor number at most.\<close>

lemma create_case_minor:
  assumes "k_create_case e name ty create k = Inr (st, dev, k')"
  shows "kn_minor k' = kn_minor k + 1"
  using assms by (auto simp: k_create_case_def appmem_device_func_create_def Let_def res_simps split: if_splits option.splits)

lemma k_pack_sizes_minor: "k_pack_sizes (st, dev, k) = (st', dev', k') \<Longrightarrow> kn_minor k' = kn_minor k"
  by (cases dev) (auto simp: k_pack_sizes_def)

text \<open>The state after a command: the invariant again.\<close>

definition kept :: "kern \<Rightarrow> kern \<Rightarrow> bool" where
  "kept k k' \<longleftrightarrow> kern_inv k' \<and> kn_minor k' \<in> {kn_minor k, kn_minor k + 1}"

text \<open>What a creation is made of: the making of the device with its function, and the response to the process.\<close>

definition k_make :: "kenv \<Rightarrow> kern \<Rightarrow> mem_cap \<Rightarrow> (AM_RETURN \<times> (UINT32 \<times> mem_func) option \<times> kern) res" where
  "k_make e k cap =
    (if cap_amType cap = AM_TYPE_FLAT_MEM then
      k_create_case e ''am_flat'' AM_TYPE_FLAT_MEM (\<lambda>f. am_create_flat_device (\<lambda>i. ke_al e (4 + i)) (ke_junk e) f cap) k
    else if cap_amType cap = AM_TYPE_STATIC_ARRAY then
      k_create_case e ''am_stata'' AM_TYPE_STATIC_ARRAY (\<lambda>f. am_create_stata_device (\<lambda>i. ke_al e (4 + i)) (ke_junk e) f cap) k
    else if cap_amType cap = AM_TYPE_ASSOC_ARRAY then
      bindr (k_create_case e ''am_assca'' AM_TYPE_ASSOC_ARRAY (\<lambda>f. am_create_assca_device (\<lambda>i. ke_al e (4 + i)) f cap) k)
        (\<lambda>r. Inr (k_pack_sizes r))
    else Inr (MINUS_ENOTTY, None, k))"

lemma k_make_cases:
  assumes "k_make e k cap = Inr (st, dev, k')"
  obtains (flat) "k_create_case e ''am_flat'' AM_TYPE_FLAT_MEM (\<lambda>f. am_create_flat_device (\<lambda>i. ke_al e (4 + i)) (ke_junk e) f cap) k = Inr (st, dev, k')"
    | (stata) "k_create_case e ''am_stata'' AM_TYPE_STATIC_ARRAY (\<lambda>f. am_create_stata_device (\<lambda>i. ke_al e (4 + i)) (ke_junk e) f cap) k = Inr (st, dev, k')"
    | (assca) st2 dev2 k2 where "k_create_case e ''am_assca'' AM_TYPE_ASSOC_ARRAY (\<lambda>f. am_create_assca_device (\<lambda>i. ke_al e (4 + i)) f cap) k = Inr (st2, dev2, k2)"
        "k_pack_sizes (st2, dev2, k2) = (st, dev, k')"
    | (none) "dev = None" "k' = k"
  using assms by (auto simp: k_make_def res_simps split: if_splits)

definition k_finish :: "kenv \<Rightarrow> UINT64 \<Rightarrow> AM_RETURN \<Rightarrow> (UINT32 \<times> mem_func) option \<Rightarrow> kern \<Rightarrow> (AM_RETURN \<times> kern) res" where
  "k_finish e data_out error dev k = (case dev of
      None \<Rightarrow> Inr (error, k)
    | Some (m, f) \<Rightarrow>
        (case kn_devs k m of
           None \<Rightarrow> Inl UseAfterFree
         | Some d \<Rightarrow>
             let f = upd_cr (\<lambda>r. r\<lparr>cr_am_name := take 32 (kd_am_name d) @ drop 32 (cr_am_name r),
                                 cr_devt := kd_devt d\<rparr>) (f\<lparr>fn_amType := kd_amType d\<rparr>);
                 k = set_dev m (\<lambda>d. d\<lparr>kd_func := Some f\<rparr>) k;
                 resp = take 355 (enc_cr_resp (fn_crResp f)) @ fresh (ke_junk e) 5
             in case copy_to_user (kn_um k) data_out resp of
                  (um, ok) \<Rightarrow> Inr (if ok then error else MINUS_ENOMEM, k\<lparr>kn_um := um\<rparr>)))"

lemma appmem_create_function_parts: "appmem_create_function e k f0 =
     bindr (rd32 (kn_cmd k) 4) (\<lambda>len_in.
     bindr (rd64 (kn_cmd k) 8) (\<lambda>data_in.
     bindr (rd64 (kn_cmd k) 24) (\<lambda>data_out.
     if fn_amType f0 \<noteq> AM_TYPE_BASE_APPMEM then Inr (MINUS_ENOTTY, k)
     else if len_in < of_nat sizeof_MEM_CAP then Inr (MINUS_ENOTTY, k)
     else
       case copy_from_user (kn_um k) data_in sizeof_MEM_CAP of
         (b, ok) \<Rightarrow>
           if \<not> ok then Inr (MINUS_ENOTTY, k)
           else if \<not> ke_al e 0 then Inr (AM_RET_ALLOC_ERR, k)
           else bindr (rd_mem_cap b 0) (\<lambda>cap.
             bindr (k_make e k cap) (\<lambda>(error, dev, k). k_finish e data_out error dev k)))))"
  by (simp only: appmem_create_function_def k_make_def k_finish_def Let_def)

lemma k_finish_dev:
  assumes "k_finish e data_out error (Some (m, f)) k = Inr (st, k')"
  shows "\<exists>d g um. kn_devs k m = Some d \<and>
    k' = (set_dev m (\<lambda>x. x\<lparr>kd_func := Some (upd_cr g (f\<lparr>fn_amType := kd_amType d\<rparr>))\<rparr>) k)\<lparr>kn_um := um\<rparr>"
  using assms by (auto simp: k_finish_def Let_def split: option.splits prod.splits)

text \<open>A creation changes nothing, or makes the device, which then gets the function with its response.\<close>

lemma k_function_cases:
  assumes "appmem_create_function e k f0 = Inr (st, k')"
  obtains (refused) "k' = k"
    | (undone) cap st1 where "k_make e k cap = Inr (st1, None, k')"
    | (created) cap st1 m f k1 d g um where "k_make e k cap = Inr (st1, Some (m, f), k1)" "kn_devs k1 m = Some d"
        "k' = (set_dev m (\<lambda>x. x\<lparr>kd_func := Some (upd_cr g (f\<lparr>fn_amType := kd_amType d\<rparr>))\<rparr>) k1)\<lparr>kn_um := um\<rparr>"
proof (cases "k' = k")
  case False
  then obtain cap data_out st1 dev k1 where m: "k_make e k cap = Inr (st1, dev, k1)" "k_finish e data_out st1 dev k1 = Inr (st, k')"
    using assms unfolding appmem_create_function_parts by (auto simp: res_simps split: if_splits prod.splits)
  show ?thesis
  proof (cases dev)
    case None
    then show ?thesis using m undone by (simp add: k_finish_def)
  next
    case (Some mf)
    then show ?thesis using m k_finish_dev created by (metis surj_pair)
  qed
qed (rule refused)

lemma k_make_inv:
  assumes m: "k_make e k cap = Inr (st, dev, k')" and k: "kern_inv k" "unat (kn_minor k) + 1 < 2 ^ 32"
  shows "(case dev of None \<Rightarrow> kern_inv k' | Some (m, f) \<Rightarrow> made_in k' m f) \<and> kn_minor k' \<in> {kn_minor k, kn_minor k + 1}"
  using m
proof (cases rule: k_make_cases)
  case flat
  show ?thesis using k_create_case_inv [OF flat k] create_case_minor [OF flat] create_ops_ok(1) by simp
next
  case stata
  show ?thesis using k_create_case_inv [OF stata k] create_case_minor [OF stata] create_ops_ok(2) by simp
next
  case (assca st2 dev2 k2)
  have "case dev2 of None \<Rightarrow> kern_inv k2 | Some (m, f) \<Rightarrow> made_in k2 m f"
    by (rule k_create_case_inv [OF assca(1) k]) (auto dest: create_ops_ok(3))
  then show ?thesis using k_pack_sizes_inv [OF _ assca(2)] k_pack_sizes_minor [OF assca(2)] create_case_minor [OF assca(1)] by simp
next
  case none
  then show ?thesis using k(1) by simp
qed

lemma create_function_inv:
  assumes c: "appmem_create_function e k f0 = Inr (st, k')" and k: "kern_inv k" "unat (kn_minor k) + 1 < 2 ^ 32"
  shows "kept k k'"
  using c
proof (cases rule: k_function_cases)
  case refused
  then show ?thesis using k(1) by (simp add: kept_def)
next
  case (undone cap st1)
  then show ?thesis using k_make_inv [OF _ k] by (fastforce simp: kept_def)
next
  case (created cap st1 m f k1 d g um)
  note i = k_make_inv [OF created(1) k]
  have "kern_inv k'" unfolding created(3) by (rule kern_inv_um, rule made_in_final) (use i created(2) in simp_all)
  then show ?thesis using i by (simp add: created(3) kept_def)
qed

definition um_only :: "kern \<Rightarrow> kern \<Rightarrow> bool" where
  "um_only k k' \<longleftrightarrow> (\<exists>um. k' = k\<lparr>kn_um := um\<rparr>)"

lemma um_only_intros [intro!]: "um_only k k" "um_only k (k\<lparr>kn_um := um\<rparr>)"
  by (auto simp: um_only_def intro: exI [of _ "kn_um k"])

lemma um_only_inv: "um_only k k' \<Longrightarrow> kern_inv k \<Longrightarrow> kept k k'"
  by (auto simp: um_only_def kern_inv_um kept_def)

lemma cap_count_um:
  assumes "appmem_get_cap_count k f = Inr (st, k')"
  shows "um_only k k'"
proof -
  obtain p where p: "rd64 (kn_cmd k) 8 = Inr p" using assms by (auto simp: appmem_get_cap_count_def res_simps)
  define n where "n = (if fn_amType f = AM_TYPE_BASE_APPMEM then cap_subType virtd_base_cap else 1)"
  obtain um ok where "put_user32 (kn_um k) p (le_enc 4 n) = (um, ok)" by fastforce
  then have "k' = (if ok then k\<lparr>kn_um := um\<rparr> else k)"
    using assms p unfolding appmem_get_cap_count_def n_def by (simp add: Let_def split: if_splits)
  then show ?thesis by auto
qed

lemma capabilites_um: "appmem_get_capabilites k f = Inr (st, k') \<Longrightarrow> um_only k k'"
  by (auto simp: appmem_get_capabilites_def res_simps Let_def split: if_splits)

lemma cap_details_um: "appmem_get_cap_details k f = Inr (st, k') \<Longrightarrow> um_only k k'"
  by (auto simp: appmem_get_cap_details_def res_simps Let_def split: if_splits option.splits prod.splits)

lemma k_config_inv:
  assumes c: "k_config fp e k f = Inr (st, k')" and k: "kern_inv k" "unat (kn_minor k) + 1 < 2 ^ 32"
  shows "kept k k'"
proof -
  consider "um_only k k'" | "appmem_create_function e k f = Inr (st, k')"
    using c by (cases fp) (auto dest: cap_count_um capabilites_um cap_details_um)
  then show ?thesis
    by cases (use um_only_inv k create_function_inv in \<open>blast+\<close>)
qed

text \<open>The shape of the dispatcher, its parts left open.\<close>

lemma dispatch_shape:
  assumes "(if c1 then if c2 then bindr x R else W a
     else if c3 then if c2 then if fit then bindr y R else Inr (s, k) else if fit2 then W b else Inr (s, k)
     else C) = Inr (st, k')"
  shows "(\<exists>p. R p = Inr (st, k')) \<or> (\<exists>p. W p = Inr (st, k')) \<or> C = Inr (st, k') \<or> k' = k"
  using assms by (auto simp: res_simps split: if_splits)

lemma k_dispatch_inv:
  assumes d: "k_dispatch e k m d f n opc fp = Inr (st, k')" and k: "kern_inv k" "unat (kn_minor k) + 1 < 2 ^ 32"
    and dev: "kn_devs k m = Some d" "kd_func d = Some f"
  shows "kept k k'"
proof -
  have put: "kept k (k_put_func m f' k)" if "fn_pfnOps f' = fn_pfnOps f \<and> fn_amType f' = fn_amType f" for f'
    using k_put_func_inv [OF k(1) dev] that by (simp add: kept_def k_put_func_def)
  consider (config) "k_config fp e k f = Inr (st, k')"
    | (rd) p2 where "bindr (k_align_read fp (kd_flags d) (kn_um k) f (drop 4 (kn_cmd k)) p2) (\<lambda>(st, f, um).
                   Inr (st, (k_put_func m f k)\<lparr>kn_um := um\<rparr>)) = Inr (st, k')"
    | (wr) p2 where "bindr (k_align_write fp (ke_al e) f (drop 4 (kn_cmd k)) p2) (\<lambda>(st, f).
                   Inr (st, k_put_func m f k)) = Inr (st, k')"
    | (refused) "k' = k"
    using dispatch_shape [where R = "\<lambda>p2. bindr (k_align_read fp (kd_flags d) (kn_um k) f (drop 4 (kn_cmd k)) p2)
          (\<lambda>(st, f, um). Inr (st, (k_put_func m f k)\<lparr>kn_um := um\<rparr>))"
        and W = "\<lambda>p2. bindr (k_align_write fp (ke_al e) f (drop 4 (kn_cmd k)) p2) (\<lambda>(st, f). Inr (st, k_put_func m f k))"
        and C = "k_config fp e k f", OF d [unfolded k_dispatch_def Let_def]] by blast
  then show ?thesis
  proof cases
    case config
    then show ?thesis using k by (rule k_config_inv)
  next
    case (rd p2)
    then obtain f' um where "k_align_read fp (kd_flags d) (kn_um k) f (drop 4 (kn_cmd k)) p2 = Inr (st, f', um)"
      "k' = (k_put_func m f' k)\<lparr>kn_um := um\<rparr>" by (auto simp: res_simps)
    then show ?thesis using put [OF k_align_read_frame] kern_inv_um by (simp add: kept_def)
  next
    case (wr p2)
    then obtain f' where "k_align_write fp (ke_al e) f (drop 4 (kn_cmd k)) p2 = Inr (st, f')" "k' = k_put_func m f' k"
      by (auto simp: res_simps)
    then show ?thesis using put [OF k_align_write_frame] by blast
  next
    case refused
    then show ?thesis using k(1) by (simp add: kept_def)
  qed
qed

lemma ioctl_inv:
  assumes io: "appmemd_ioctl e k m cmd arg = Inr (st, k')" and k: "kern_inv k" "unat (kn_minor k) + 1 < 2 ^ 32"
  shows "kept k k'"
proof -
  have len: "kern_inv (k\<lparr>kn_cmd := c\<rparr>)" if "putb (kn_cmd k) 0 b = Inr c" for b c
    using k(1) that by (auto intro: kern_inv_cong simp: kern_inv_def putb_Inr)
  consider (refused) "k' = k"
    | (copied) b c where "putb (kn_cmd k) 0 b = Inr c" "k' = k\<lparr>kn_cmd := c\<rparr>"
    | (served) b c d f n opc fp where "putb (kn_cmd k) 0 b = Inr c" "kn_devs k m = Some d" "kd_func d = Some f"
        "k_dispatch e (k\<lparr>kn_cmd := c\<rparr>) m d f n opc fp = Inr (st, k')"
  proof (cases "drop_bit 8 cmd AND 0xFF \<noteq> APPMEMD_IOC_MAGIC \<or> 32 < cmd AND 0xFF \<or> arg = 0")
    case True
    then show ?thesis using io refused by (auto simp: appmemd_ioctl_def Let_def split: if_splits)
  next
    case False
    then obtain d where d: "kn_devs k m = Some d" using io by (cases "kn_devs k m") (auto simp: appmemd_ioctl_def Let_def)
    show ?thesis
    proof (cases "kd_func d")
      case None
      then show ?thesis using io False d refused by (simp add: appmemd_ioctl_def Let_def)
    next
      case (Some f)
      obtain b ok where b: "copy_from_user (kn_um k) arg (unat ((cmd AND 0xFF) * 8 + 8)) = (b, ok)" by fastforce
      note io' = io [unfolded appmemd_ioctl_def Let_def]
      have io'': "bindr (putb (kn_cmd k) 0 b) (\<lambda>c.
          if \<not> ok then Inr (0, k\<lparr>kn_cmd := c\<rparr>)
          else bindr (rd32 c 0) (\<lambda>opc.
            bindr (case fn_pfnOps f of None \<Rightarrow> Inl NullDeref | Some ops \<Rightarrow> op_entry ops (ucast (AM_OPCODE opc))) (\<lambda>entry.
            case entry of None \<Rightarrow> Inr (MINUS_ENOTTY, k\<lparr>kn_cmd := c\<rparr>)
            | Some fp \<Rightarrow> k_dispatch e (k\<lparr>kn_cmd := c\<rparr>) m d f ((cmd AND 0xFF) * 8 + 8) opc fp))) = Inr (st, k')"
        using io' False d Some b by simp
      then obtain c where c: "putb (kn_cmd k) 0 b = Inr c" by (auto simp: res_simps)
      show ?thesis
      proof (cases "k' = k\<lparr>kn_cmd := c\<rparr>")
        case True
        then show ?thesis using copied [OF c] by simp
      next
        case neq: False
        then obtain opc fp where "k_dispatch e (k\<lparr>kn_cmd := c\<rparr>) m d f ((cmd AND 0xFF) * 8 + 8) opc fp = Inr (st, k')"
          using io'' c by (auto simp: res_simps split: if_splits option.splits)
        then show ?thesis using served [OF c d Some] by blast
      qed
    qed
  qed
  then show ?thesis
  proof cases
    case refused
    then show ?thesis using k(1) by (simp add: kept_def)
  next
    case copied
    then show ?thesis using len by (simp add: kept_def)
  next
    case served
    then show ?thesis using k_dispatch_inv [OF served(4) len [OF served(1)]] k(2) served(2,3) by (simp add: kept_def)
  qed
qed

lemma init_inv:
  assumes "appmemd_init e result major reg um = Inr (st, k)" "0 \<le> sint st"
  shows "kern_inv k"
proof -
  let ?d = "\<lparr>kd_func = Some ((ke_func e)\<lparr>fn_amType := AM_TYPE_BASE_APPMEM, fn_pfnOps := Some k_base_ops\<rparr>), kd_amType = AM_TYPE_BASE_APPMEM,
    kd_devt = MKDEV major 0, kd_am_name = replicate 64 0, kd_pack_DataOffset = 0, kd_wr_pack_size = 0, kd_rd_pack_size = 0, kd_flags = 0\<rparr>"
  obtain reg' where "k = \<lparr>kn_reg = reg', kn_major = major, kn_minor = 1, kn_devs = [0 \<mapsto> ?d], kn_head = [],
      kn_cmd = replicate sizeof_CMD_U 0, kn_um = um\<rparr>"
    using assms by (auto simp: appmemd_init_def Let_def res_simps split: if_splits)
  then show ?thesis by (simp add: kern_inv_def)
qed

lemma init_minor:
  assumes "appmemd_init e result major reg um = Inr (st, k)" "0 \<le> sint st"
  shows "kn_minor k = 1"
  using assms by (auto simp: appmemd_init_def Let_def res_simps split: if_splits)

section \<open>Unloading\<close>

lemma exit_list_ok:
  assumes "distinct ms" "set ms \<subseteq> dom (kn_devs k)"
    and "\<forall>m\<in>set ms. \<forall>d f. kn_devs k m = Some d \<longrightarrow> kd_func d = Some f \<longrightarrow> ops_ok f"
  shows "k_exit_list ms k = Inr (k\<lparr>kn_devs := (kn_devs k) |` (- set ms)\<rparr>,
    List.map_filter (\<lambda>m. Option.bind (kn_devs k m) kd_func) ms)"
  using assms
proof (induction ms arbitrary: k)
  case Nil
  have "(kn_devs k) |` UNIV = kn_devs k" by (simp add: restrict_map_def)
  then show ?case by (simp add: List.map_filter_simps)
next
  case (Cons m ms)
  obtain d where d: "kn_devs k m = Some d" using Cons.prems(2) by auto
  have op: "k_release_op d = Inr ()"
    using Cons.prems(3) d by (auto simp: k_release_op_def ops_ok_def split: option.splits)
  let ?k = "k\<lparr>kn_devs := (kn_devs k)(m := None)\<rparr>"
  have m: "m \<notin> set ms" using Cons.prems(1) by simp
  have "k_exit_list ms ?k = Inr (?k\<lparr>kn_devs := (kn_devs ?k) |` (- set ms)\<rparr>,
      List.map_filter (\<lambda>m. Option.bind (kn_devs ?k m) kd_func) ms)"
    using Cons.prems m by (intro Cons.IH) auto
  moreover have "(kn_devs ?k) |` (- set ms) = (kn_devs k) |` (- set (m # ms))"
    by (auto simp: restrict_map_def fun_eq_iff)
  moreover have "List.map_filter (\<lambda>m. Option.bind (kn_devs ?k m) kd_func) ms = List.map_filter (\<lambda>m. Option.bind (kn_devs k m) kd_func) ms"
    using m by (auto simp: List.map_filter_def intro!: map_cong filter_cong)
  ultimately show ?case using d op
    by (simp add: appmemd_release_device_def List.map_filter_simps split: option.splits)
qed

end
