(* ===== verification/AM_Kernel_Life.thy ===== *)
theory AM_Kernel_Life
  imports AM_Kernel_Inv AM_Kd_Session
begin

text \<open>
  The life of the kernel module, from loading it to unloading it: what holds after any commands of any process, and
  what unloading frees.
\<close>

text \<open>
  Runs of the module: commands on any device, of any content and with any answer of the allocators, and in between
  the process, or another one, changes the memory the next command sees. Commands that the model stops at
  (\<open>Inl\<close>, undefined in C) end a run. The number counts the commands.
\<close>

inductive k_run :: "nat \<Rightarrow> kern \<Rightarrow> kern \<Rightarrow> bool" where
  k_start: "k_run 0 k k"
| k_command: "k_run n k0 k \<Longrightarrow> appmemd_ioctl e k m cmd arg = Inr (st, k') \<Longrightarrow> k_run (Suc n) k0 k'"
| k_process: "k_run n k0 k \<Longrightarrow> k_run n k0 (k\<lparr>kn_um := um\<rparr>)"

inductive_cases k_run_SucE: "k_run (Suc n) k0 k"

lemma k_run_inv:
  assumes "k_run n k0 k" "kern_inv k0" "unat (kn_minor k0) + n < 2 ^ 32"
  shows "kern_inv k \<and> unat (kn_minor k) \<le> unat (kn_minor k0) + n"
  using assms
proof (induction rule: k_run.induct)
  case (k_command n k0 k e m cmd arg st k')
  then have i: "kern_inv k" "unat (kn_minor k) \<le> unat (kn_minor k0) + n" by simp_all
  then have lt: "unat (kn_minor k) + 1 < 2 ^ 32" using k_command.prems by simp
  have "unat (kn_minor k + 1) = unat (kn_minor k) + 1" using lt by (simp add: unat_word_ariths)
  then show ?case using ioctl_inv [OF k_command.hyps(2) i(1) lt] i(2) by (auto simp: kept_def)
qed (simp_all add: kern_inv_um)

text \<open>
  C24: Whatever commands arrive once the module is loaded, its state stays well formed. The devices are the base
  device and those on the list, without repetition; every one on the list has a minor number that was given out, is
  not of the base type, and has no function or one whose table has 64 entries with the release operator in
  place; the base device keeps its own table; and the command buffer keeps its size. This holds until the 32 bits
  of the minor number are used up.
\<close>

theorem appmemd_commands_inv:
  assumes "appmemd_init e result major reg um = Inr (st, k0)" "0 \<le> sint st" "k_run n k0 k" "n + 1 < 2 ^ 32"
  shows "kern_inv k"
  using k_run_inv [OF assms(3) init_inv [OF assms(1,2)]] init_minor [OF assms(1,2)] assms(4) by simp

text \<open>
  Unloading the module takes every device out of a well-formed state, calls no operator that is not there, and
  leaves the list empty. Of the functions it frees the objects only: each is freed as it stands, so the data that
  its \<open>pVdF\<close> points to, and the array or memory behind that, are still allocated and no longer reachable.
\<close>

theorem appmemd_exit_leaks:
  assumes "kern_inv k"
  shows "\<exists>fs. appmemd_exit k = Inr (k\<lparr>kn_devs := \<lambda>_. None, kn_head := []\<rparr>, fs) \<and>
    (\<forall>m\<in>set (kn_head k). \<forall>d f. kn_devs k m = Some d \<longrightarrow> kd_func d = Some f \<longrightarrow> f \<in> set fs) \<and>
    (\<forall>f\<in>set fs. ops_ok f)"
proof -
  let ?fs = "List.map_filter (\<lambda>m. Option.bind (kn_devs k m) kd_func) (kn_head k)"
  have "k_exit_list (kn_head k) k = Inr (k\<lparr>kn_devs := (kn_devs k) |` (- set (kn_head k))\<rparr>, ?fs)"
    by (rule exit_list_ok) (use assms in \<open>auto simp: kern_inv_def\<close>)
  moreover have "((kn_devs k) |` (- set (kn_head k)))(0 := None) = (\<lambda>_. None)"
    using assms by (auto simp: kern_inv_def restrict_map_def fun_eq_iff domIff)
  ultimately have "appmemd_exit k = Inr (k\<lparr>kn_devs := \<lambda>_. None, kn_head := []\<rparr>, ?fs)"
    by (simp add: appmemd_exit_def appmemd_release_device_def)
  moreover have "f \<in> set ?fs" if "m \<in> set (kn_head k)" "kn_devs k m = Some d" "kd_func d = Some f" for m d f
    using that by (force simp: List.map_filter_def)
  moreover have "ops_ok f" if "f \<in> set ?fs" for f
    using that assms by (auto simp: List.map_filter_def kern_inv_def split: Option.bind_splits)
  ultimately show ?thesis by blast
qed

section \<open>On a module with two devices\<close>

definition loaded_kern :: kern where
  "loaded_kern = (demo_kern (\<lambda>_. None))\<lparr>kn_devs :=
     [0 \<mapsto> \<lparr>kd_func = Some (zero_func\<lparr>fn_amType := AM_TYPE_BASE_APPMEM, fn_pfnOps := Some k_base_ops\<rparr>), kd_amType = AM_TYPE_BASE_APPMEM,
        kd_devt = 0, kd_am_name = [], kd_pack_DataOffset = 0, kd_wr_pack_size = 0, kd_rd_pack_size = 0, kd_flags = 0\<rparr>,
      1 \<mapsto> \<lparr>kd_func = Some (demo_flat\<lparr>fn_amType := AM_TYPE_FLAT_MEM, fn_pfnOps := Some (zero_ops[5 := Some Fn_targ_release])\<rparr>), kd_amType = AM_TYPE_FLAT_MEM,
        kd_devt = 1, kd_am_name = [], kd_pack_DataOffset = 0, kd_wr_pack_size = 0, kd_rd_pack_size = 0, kd_flags = 0\<rparr>]\<rparr>"

lemma loaded_kern_inv: "kern_inv loaded_kern"
  by (auto simp: loaded_kern_def demo_kern_def kern_inv_def ops_ok_def)

lemma appmemd_commands_inv_witness:
  "\<exists>k0 k. appmemd_init demo_kenv 0 250 full_registry (\<lambda>_. None) = Inr (0, k0) \<and>
     appmemd_ioctl demo_kenv k0 0 (APPMEMD_OP 2) 5000 = Inr (0, k) \<and> kern_inv k"
proof -
  obtain k0 where k0: "appmemd_init demo_kenv 0 250 full_registry (\<lambda>_. None) = Inr (0, k0)" using demo_init by blast
  have "\<exists>k. appmemd_ioctl demo_kenv k0 0 (APPMEMD_OP 2) 5000 = Inr (0, k)"
  proof -
    have "um_prefix (\<lambda>_. None) a n = []" for a n by (cases n) simp_all
    then show ?thesis using appmemd_init_based [OF k0]
      by (auto simp: appmemd_ioctl_def k_based_def APPMEMD_OP_simps copy_from_user_def putb_in_bounds)
  qed
  then obtain k where k: "appmemd_ioctl demo_kenv k0 0 (APPMEMD_OP 2) 5000 = Inr (0, k)" by blast
  have "kern_inv k" using appmemd_commands_inv [OF k0 _ k_command [OF k_start k]] by simp
  then show ?thesis using k0 k by blast
qed

lemma appmemd_exit_leaks_witness:
  "\<exists>fs f. appmemd_exit loaded_kern = Inr (loaded_kern\<lparr>kn_devs := \<lambda>_. None, kn_head := []\<rparr>, fs) \<and> f \<in> set fs \<and> fn_pVdF f \<noteq> Null"
proof -
  obtain f where f: "kd_func (the (kn_devs loaded_kern 1)) = Some f" "fn_pVdF f \<noteq> Null"
    by (simp add: loaded_kern_def demo_flat_def demo_func_def)
  moreover have "1 \<in> set (kn_head loaded_kern)" "\<exists>d. kn_devs loaded_kern 1 = Some d"
    by (simp_all add: loaded_kern_def demo_kern_def)
  ultimately show ?thesis using appmemd_exit_leaks [OF loaded_kern_inv] by force
qed

end
