(* ===== verification/AM_Kchar.thy ===== *)
theory AM_Kchar
  imports AM_Kmap AM_Kernel_Life
begin

text \<open>
  The files of the module's devices, \<^verbatim>\<open>appmemk/appmemk.c\<close>: the character device that is set up for every device, and the way
  from a device number over the mapping of its file to the page of the device. What the kernel does with a character device is
  the map \<open>cdevs\<close>: the number it was added under leads to the device it is part of.
\<close>

section \<open>Character devices and mappings\<close>

type_synonym cdevs = "UINT32 \<Rightarrow> UINT32 option"

text \<open>\<open>err\<close> is what \<^verbatim>\<open>cdev_add\<close> answers. The number is stored in the device all the same, and nothing is returned.\<close>

definition appmemd_setup_cdev :: "UINT32 \<Rightarrow> UINT32 \<Rightarrow> UINT32 \<Rightarrow> cdevs \<Rightarrow> kern \<Rightarrow> cdevs \<times> kern" where
  "appmemd_setup_cdev err m devno cd k =
     (if err = 0 then cd(devno \<mapsto> m) else cd, set_dev m (\<lambda>d. d\<lparr>kd_devt := devno\<rparr>) k)"

text \<open>The members of a \<^verbatim>\<open>vm_area_struct\<close> the module writes; \<open>vm_ops\<close> says that they are those of the module.\<close>

record vm_area =
  vm_ops :: bool
  vm_flags :: UINT64
  vm_private_data :: "UINT32 option"

definition appmemd_vma_open :: "vm_area \<Rightarrow> vm_area" where
  "appmemd_vma_open vma = vma"

definition appmemd_vma_close :: "vm_area \<Rightarrow> vm_area" where
  "appmemd_vma_close vma = vma"

text \<open>
  \<open>i_cdev\<close> is the character device of the file's inode. The device around it is compared with null only after its
  name was printed, and after \<^verbatim>\<open>container_of\<close>, which makes no null pointer of a null pointer. \<open>VM_RESERVED\<close> is a
  constant of the kernel.
\<close>

definition appmemd_mmap :: "UINT64 \<Rightarrow> UINT32 option \<Rightarrow> vm_area \<Rightarrow> (UINT32 \<times> vm_area) res" where
  "appmemd_mmap VM_RESERVED i_cdev vma =
     (case i_cdev of
        None \<Rightarrow> Inl NullDeref
      | Some m \<Rightarrow>
          Inr (0, appmemd_vma_open (vma\<lparr>vm_ops := True, vm_flags := vm_flags vma OR VM_RESERVED, vm_private_data := Some m\<rparr>)))"

text \<open>
  A fault of a mapping. Without a device the page that was made is not given back, and the answer is \<open>VM_FAULT_NOPAGE\<close>,
  here \<open>None\<close>.
\<close>

definition vma_fault :: "alloc \<Rightarrow> kern \<Rightarrow> vm_area \<Rightarrow> (kmap \<times> bool) option res" where
  "vma_fault al k vma =
     (case vm_private_data vma of
        None \<Rightarrow> if al 0 then Inr None else Inl NullDeref
      | Some m \<Rightarrow>
          (case kn_devs k m of
             None \<Rightarrow> Inl UseAfterFree
           | Some d \<Rightarrow> bindr (appmemd_vma_fault al d) (\<lambda>r. Inr (Some r))))"

text \<open>A process maps the file with the number \<open>devt\<close> and touches the page: no file, a fault, or what the handler answers.\<close>

definition map_file :: "UINT64 \<Rightarrow> alloc \<Rightarrow> cdevs \<Rightarrow> kern \<Rightarrow> UINT32 \<Rightarrow> (kmap \<times> bool) option res" where
  "map_file VM_RESERVED al cd k devt =
     (case cd devt of
        None \<Rightarrow> Inr None
      | Some m \<Rightarrow>
          bindr (appmemd_mmap VM_RESERVED (Some m) \<lparr>vm_ops = False, vm_flags = 0, vm_private_data = None\<rparr>) (\<lambda>(st, vma).
          vma_fault al k vma))"

text \<open>
  The creation of a function, with the file of the device it makes: \<open>appmem_device_func_create\<close> sets up the character device
  of the minor number it takes.
\<close>

definition create_file :: "UINT32 \<Rightarrow> kenv \<Rightarrow> cdevs \<Rightarrow> kern \<Rightarrow> mem_func \<Rightarrow> (AM_RETURN \<times> cdevs \<times> kern) res" where
  "create_file err e cd k f =
     bindr (appmem_create_function e k f) (\<lambda>(st, k').
     if kn_devs k (kn_minor k) = None \<and> kn_devs k' (kn_minor k) \<noteq> None then
       case appmemd_setup_cdev err (kn_minor k) (MKDEV (kn_major k) (kn_minor k)) cd k' of
         (cd, k') \<Rightarrow> Inr (st, cd, k')
     else Inr (st, cd, k'))"

section \<open>Every device has its file\<close>

text \<open>Minor numbers have 20 bits: below that bound the numbers of two devices differ.\<close>

lemma MKDEV_minor: "unat m < 2 ^ 20 \<Longrightarrow> take_bit 20 (MKDEV ma m) = m"
proof -
  assume "unat m < 2 ^ 20"
  then have "take_bit 20 m = m" by (intro word_unat_eq_iff [THEN iffD2]) (simp add: unsigned_take_bit_eq take_bit_nat_eq_self)
  then show ?thesis by (simp add: MKDEV_def take_bit_or take_bit_push_bit)
qed

lemma MKDEV_inj: "MKDEV ma m = MKDEV ma m' \<Longrightarrow> unat m < 2 ^ 20 \<Longrightarrow> unat m' < 2 ^ 20 \<Longrightarrow> m = m'"
  by (metis MKDEV_minor)

text \<open>At the bound they need not: under an odd major number the device gets the number of the base device.\<close>

lemma MKDEV_collides: "MKDEV 1 (2 ^ 20) = MKDEV 1 0"
  by (simp add: MKDEV_def)

definition devts :: "kern \<Rightarrow> UINT32 \<Rightarrow> UINT32 option" where
  "devts k m = map_option kd_devt (kn_devs k m)"

definition files_ok :: "cdevs \<Rightarrow> kern \<Rightarrow> bool" where
  "files_ok cd k \<longleftrightarrow> (\<forall>m v. devts k m = Some v \<longrightarrow> unat m < 2 ^ 20 \<and> v = MKDEV (kn_major k) m \<and> cd v = Some m)"

lemma devts_set_dev: "(\<And>d. kd_devt (g d) = kd_devt d) \<Longrightarrow> devts (set_dev m g k) = devts k"
  by (auto simp: devts_def set_dev_def map_option.compositionality comp_def fun_eq_iff)

lemma devts_frame [simp]:
  "devts (k\<lparr>kn_um := um\<rparr>) = devts k" "kn_major (set_dev m g k) = kn_major k" "kn_minor (set_dev m g k) = kn_minor k"
  by (simp_all add: devts_def set_dev_def fun_eq_iff)

text \<open>What a creation does to the devices: nothing, or one more under the next minor number.\<close>

definition dev_step :: "kern \<Rightarrow> kern \<Rightarrow> bool" where
  "dev_step k k' \<longleftrightarrow> kn_major k' = kn_major k \<and>
     (devts k' = devts k \<or> devts k' = (devts k)(kn_minor k \<mapsto> MKDEV (kn_major k) (kn_minor k)))"

lemma dev_step_refl [simp]: "dev_step k k"
  by (simp add: dev_step_def)

lemma dev_step_create: "appmem_device_func_create al name ty k = Inr (r, k') \<Longrightarrow> dev_step k k'"
  by (auto simp: appmem_device_func_create_def Let_def res_simps dev_step_def devts_def fun_eq_iff split: if_splits)

lemma dev_step_case: "k_create_case e name ty create k = Inr (st, r, k') \<Longrightarrow> dev_step k k'"
  by (auto simp: k_create_case_def res_simps devts_set_dev dev_step_def dest!: dev_step_create split: option.splits if_splits)

lemma dev_step_sizes: "k_pack_sizes (st, r, k1) = (st', r', k') \<Longrightarrow> dev_step k k1 \<Longrightarrow> dev_step k k'"
  by (auto simp: k_pack_sizes_def devts_set_dev dev_step_def split: option.splits)

lemma dev_step_make: "k_make e k cap = Inr (st, dev, k') \<Longrightarrow> dev_step k k'"
  by (erule k_make_cases) (auto intro: dev_step_case dev_step_sizes)

lemma dev_step_function:
  assumes "appmem_create_function e k f = Inr (st, k')"
  shows "dev_step k k'"
  using assms
proof (cases rule: k_function_cases)
  case (created cap st1 m f k1 d g um)
  then show ?thesis using dev_step_make [OF created(1)] by (simp add: dev_step_def devts_set_dev)
qed (auto intro: dev_step_make)

lemma devts_None [simp]: "devts k m = None \<longleftrightarrow> kn_devs k m = None"
  by (simp add: devts_def)

lemma devts_set_devt: "devts k m = Some v \<Longrightarrow> devts (set_dev m (\<lambda>d. d\<lparr>kd_devt := v\<rparr>) k) = devts k"
  by (auto simp: devts_def set_dev_def fun_eq_iff)

text \<open>A creation with the file it makes: either no device is new, or the next minor number has a device and a number.\<close>

lemma create_file_cases:
  assumes c: "create_file err e cd k f = Inr (st, cd', k')" and ok: "files_ok cd k"
  obtains (same) "devts k' = devts k" "kn_major k' = kn_major k" "cd' = cd"
    | (new) "kn_devs k (kn_minor k) = None" "devts k' = (devts k)(kn_minor k \<mapsto> MKDEV (kn_major k) (kn_minor k))"
        "kn_major k' = kn_major k" "cd' = (if err = 0 then cd(MKDEV (kn_major k) (kn_minor k) \<mapsto> kn_minor k) else cd)"
proof -
  let ?m = "kn_minor k" and ?v = "MKDEV (kn_major k) (kn_minor k)"
  obtain k1 where k1: "appmem_create_function e k f = Inr (st, k1)"
    "kn_devs k ?m = None \<and> kn_devs k1 ?m \<noteq> None \<Longrightarrow> (cd', k') = appmemd_setup_cdev err ?m ?v cd k1"
    "\<not> (kn_devs k ?m = None \<and> kn_devs k1 ?m \<noteq> None) \<Longrightarrow> (cd', k') = (cd, k1)"
  proof -
    obtain st1 k1 where k: "appmem_create_function e k f = Inr (st1, k1)"
      using c unfolding create_file_def by (cases "appmem_create_function e k f") auto
    show ?thesis
      by (rule that [of k1]; use c k in \<open>auto simp: create_file_def split: prod.splits if_splits\<close>)
  qed
  have step: "dev_step k k1" by (rule dev_step_function [OF k1(1)])
  show ?thesis
  proof (cases "kn_devs k ?m = None \<and> kn_devs k1 ?m \<noteq> None")
    case True
    then have "devts k1 ?m \<noteq> devts k ?m" by (metis devts_None)
    then have d: "devts k1 = (devts k)(?m \<mapsto> ?v)" using step by (auto simp: dev_step_def)
    then have "devts (set_dev ?m (\<lambda>d. d\<lparr>kd_devt := ?v\<rparr>) k1) = devts k1" by (intro devts_set_devt) simp
    then show ?thesis using new d True k1(2) step by (simp add: appmemd_setup_cdev_def dev_step_def)
  next
    case False
    have "devts k1 = devts k"
    proof (cases "kn_devs k ?m = None")
      case True
      then have "devts k1 ?m = None" using False by simp
      then show ?thesis using step by (metis dev_step_def fun_upd_same option.distinct(1))
    next
      case used: False
      then have "devts k ?m = Some ?v" using ok by (auto simp: files_ok_def devts_def)
      then show ?thesis using step by (auto simp: dev_step_def fun_eq_iff)
    qed
    then show ?thesis using same k1(3) [OF False] step by (simp add: dev_step_def)
  qed
qed






text \<open>
  A \<^verbatim>\<open>cdev_add\<close> that fails changes nothing of the creation, whose response names the number all the same: the device is on
  the list and has no file.
\<close>

lemma create_file_lost:
  assumes c: "create_file err e cd k f = Inr (st, cd', k')" and ok: "files_ok cd k" and err: "err \<noteq> 0"
    and free: "cd (MKDEV (kn_major k) (kn_minor k)) = None"
  shows "cd' = cd" "map_file res al cd' k' (MKDEV (kn_major k) (kn_minor k)) = Inr None"
proof -
  show "cd' = cd" using c ok by (cases rule: create_file_cases) (simp_all add: err)
  then show "map_file res al cd' k' (MKDEV (kn_major k) (kn_minor k)) = Inr None" using free by (simp add: map_file_def)
qed




text \<open>The numbers past the 32 that the module asked the kernel for are handed out too.\<close>

lemma devt_outside_region:
  assumes "appmem_device_func_create al name ty k = Inr (Some m, k')" "32 \<le> unat (kn_minor k)" "unat (kn_minor k) < 2 ^ 20"
  shows "\<exists>d. kn_devs k' m = Some d \<and> kd_devt d \<notin> MKDEV (kn_major k) ` {m. unat m < 32}"
proof -
  have "MKDEV (kn_major k) (kn_minor k) \<notin> MKDEV (kn_major k) ` {m. unat m < 32}"
    using assms(2,3) MKDEV_inj by fastforce
  then show ?thesis using assms(1) by (auto simp: appmem_device_func_create_def Let_def res_simps split: if_splits)
qed

end
