(* ===== verification/AM_Kunload.thy ===== *)
theory AM_Kunload
  imports AM_Kchar AM_Kernel_Life
begin

text \<open>
  The threads of the mapped pages and the unloading of the module, \<^verbatim>\<open>appmemk/appmemk.c\<close>: faults make threads, threads share
  the function of their device, and \<open>appmemd_exit\<close> stops the thread a device remembers before it frees the device.
\<close>

section \<open>Threads and devices\<close>

text \<open>
  Every thread that was made, with its device, where it is, and its page; and of every device the members \<open>isMapped\<close>
  and \<open>pMapThread\<close> of its \<open>map\<close>.
\<close>

record kmaps =
  mp_threads :: "(UINT32 \<times> kthread \<times> kmap) list"
  mp_isMapped :: "UINT32 \<Rightarrow> bool"
  mp_thread :: "UINT32 \<Rightarrow> nat option"



text \<open>
  A step of the thread \<open>i\<close>: it looks at its device, which may be gone, and works on the function of the device. A
  thread that has returned does nothing.
\<close>

definition thread_turn :: "alloc \<Rightarrow> (nat \<Rightarrow> UINT8) \<Rightarrow> nat \<Rightarrow> kern \<Rightarrow> kmaps \<Rightarrow> (kern \<times> kmaps) res" where
  "thread_turn al junk i k s =
     (case mp_threads s ! i of
        (m, th, km) \<Rightarrow>
          if th = T_exit then Inr (k, s)
          else
            case kn_devs k m of
              None \<Rightarrow> Inl UseAfterFree
            | Some d \<Rightarrow>
                bindr (k_thread_step al junk th
                         (km\<lparr>km_isMapped := mp_isMapped s m, km_func := kd_func d, km_flags := kd_flags d\<rparr>)) (\<lambda>(th, km).
                Inr (set_dev m (\<lambda>d. d\<lparr>kd_func := km_func km, kd_flags := km_flags km\<rparr>) k,
                     s\<lparr>mp_threads := (mp_threads s)[i := (m, th, km)]\<rparr>)))"

text \<open>\<^verbatim>\<open>kthread_stop\<close> waits until the thread has returned, here for at most \<open>n\<close> of its steps.\<close>

fun kthread_stop :: "nat \<Rightarrow> alloc \<Rightarrow> (nat \<Rightarrow> UINT8) \<Rightarrow> nat \<Rightarrow> kern \<Rightarrow> kmaps \<Rightarrow> (kern \<times> kmaps) res" where
  "kthread_stop 0 al junk i k s = (if fst (snd (mp_threads s ! i)) = T_exit then Inr (k, s) else Inl NoReturn)"
| "kthread_stop (Suc n) al junk i k s =
     (if fst (snd (mp_threads s ! i)) = T_exit then Inr (k, s)
      else bindr (thread_turn al junk i k s) (\<lambda>(k, s). kthread_stop n al junk i k s))"

definition stop_map :: "alloc \<Rightarrow> (nat \<Rightarrow> UINT8) \<Rightarrow> UINT32 \<Rightarrow> kern \<Rightarrow> kmaps \<Rightarrow> (kern \<times> kmaps) res" where
  "stop_map al junk m k s =
     (if mp_isMapped s m then
        let s = s\<lparr>mp_isMapped := (mp_isMapped s)(m := False)\<rparr> in
        case mp_thread s m of
          None \<Rightarrow> Inr (k, s)
        | Some i \<Rightarrow> kthread_stop 3 al junk i k s
      else Inr (k, s))"

text \<open>\<open>appmemd_exit\<close> with the threads; the base device is freed without a look at its mapping.\<close>

fun unload_list ::
  "alloc \<Rightarrow> (nat \<Rightarrow> UINT8) \<Rightarrow> UINT32 list \<Rightarrow> kern \<Rightarrow> kmaps \<Rightarrow> (kern \<times> kmaps \<times> mem_func list) res" where
  "unload_list al junk [] k s = Inr (k, s, [])"
| "unload_list al junk (m # ms) k s =
     bindr (stop_map al junk m k s) (\<lambda>(k, s).
     case kn_devs k m of
       None \<Rightarrow> Inl UseAfterFree
     | Some d \<Rightarrow>
         bindr (k_release_op d) (\<lambda>_.
         bindr (unload_list al junk ms (snd (appmemd_release_device k m)) s) (\<lambda>(k, s, fs).
         Inr (k, s, (case kd_func d of None \<Rightarrow> fs | Some f \<Rightarrow> f # fs)))))"

definition appmemd_unload :: "alloc \<Rightarrow> (nat \<Rightarrow> UINT8) \<Rightarrow> kern \<Rightarrow> kmaps \<Rightarrow> (kern \<times> kmaps \<times> mem_func list) res" where
  "appmemd_unload al junk k s =
     bindr (unload_list al junk (kn_head k) k s) (\<lambda>(k, s, fs).
     Inr (snd (appmemd_release_device (k\<lparr>kn_head := []\<rparr>) 0), s, fs))"

text \<open>Without mappings it is \<open>appmemd_exit\<close>.\<close>

lemma unload_list_unmapped:
  "\<forall>m. \<not> mp_isMapped s m \<Longrightarrow> unload_list al junk ms k s = bindr (k_exit_list ms k) (\<lambda>(k, fs). Inr (k, s, fs))"
proof (induction ms arbitrary: k)
  case (Cons m ms)
  then show ?case by (auto simp: stop_map_def bindr_def split: option.splits sum.splits)
qed simp

lemma appmemd_unload_unmapped:
  "\<forall>m. \<not> mp_isMapped s m \<Longrightarrow> appmemd_unload al junk k s = bindr (appmemd_exit k) (\<lambda>(k, fs). Inr (k, s, fs))"
  by (auto simp: appmemd_unload_def appmemd_exit_def unload_list_unmapped bindr_def split: sum.splits)

section \<open>Stopping a thread\<close>



text \<open>The thread \<open>i\<close> is the one its device remembers.\<close>

definition remembered :: "kmaps \<Rightarrow> nat \<Rightarrow> bool" where
  "remembered s i \<longleftrightarrow> (let m = fst (mp_threads s ! i) in mp_isMapped s m \<and> mp_thread s m = Some i)"

text \<open>
  What a mapped device remembers is a thread of this device, and the device has a function. Both steps that change
  mappings keep it: a fault of a device with a function, and a step of any thread.
\<close>

definition maps_ok :: "kern \<Rightarrow> kmaps \<Rightarrow> bool" where
  "maps_ok k s \<longleftrightarrow> (\<forall>m i. mp_isMapped s m \<longrightarrow> mp_thread s m = Some i \<longrightarrow>
     i < length (mp_threads s) \<and> fst (mp_threads s ! i) = m \<and> (\<exists>d. kn_devs k m = Some d \<and> kd_func d \<noteq> None))"



lemma k_thread_step_func:
  "k_thread_step al junk th m = Inr (th', m') \<Longrightarrow> km_func m \<noteq> None \<Longrightarrow> km_func m' \<noteq> None"
  by (cases th) (auto simp: set_page_def res_simps split: if_splits)

lemma maps_ok_turn:
  assumes t: "thread_turn al junk i k s = Inr (k', s')" and ok: "maps_ok k s" and i: "i < length (mp_threads s)"
  shows "maps_ok k' s'"
proof -
  obtain m th km where m: "mp_threads s ! i = (m, th, km)" by (cases "mp_threads s ! i")
  show ?thesis
  proof (cases "th = T_exit")
    case True
    then show ?thesis using t ok m by (simp add: thread_turn_def)
  next
    case False
    then obtain d th' km' where d: "kn_devs k m = Some d"
      "k_thread_step al junk th (km\<lparr>km_isMapped := mp_isMapped s m, km_func := kd_func d, km_flags := kd_flags d\<rparr>) = Inr (th', km')"
      "k' = set_dev m (\<lambda>d. d\<lparr>kd_func := km_func km', kd_flags := km_flags km'\<rparr>) k"
      "s' = s\<lparr>mp_threads := (mp_threads s)[i := (m, th', km')]\<rparr>"
      using t m by (auto simp: thread_turn_def res_simps split: option.splits)
    have f: "kd_func d \<noteq> None \<Longrightarrow> km_func km' \<noteq> None" using k_thread_step_func [OF d(2)] by simp
    have fst: "fst (mp_threads s' ! j) = fst (mp_threads s ! j)" if "j < length (mp_threads s)" for j
      using m d(4) that by (cases "j = i") simp_all
    have dev: "\<exists>d. kn_devs k' n = Some d \<and> kd_func d \<noteq> None" if "\<exists>d. kn_devs k n = Some d \<and> kd_func d \<noteq> None" for n
      using that d(1,3) f by (cases "n = m") (auto simp: set_dev_def)
    show ?thesis using ok fst dev d(4) unfolding maps_ok_def by simp
  qed
qed

section \<open>Unloading\<close>

text \<open>What unloading the devices \<open>M\<close> does to the threads: those their devices remember have returned, all others are as they were.\<close>

definition stopped :: "UINT32 set \<Rightarrow> kmaps \<Rightarrow> kmaps \<Rightarrow> bool" where
  "stopped M s s' \<longleftrightarrow> mp_thread s' = mp_thread s \<and> (\<forall>m. mp_isMapped s' m \<longleftrightarrow> m \<notin> M \<and> mp_isMapped s m) \<and>
     length (mp_threads s') = length (mp_threads s) \<and>
     (\<forall>i<length (mp_threads s). fst (mp_threads s' ! i) = fst (mp_threads s ! i) \<and>
        (if fst (mp_threads s ! i) \<in> M \<and> remembered s i then fst (snd (mp_threads s' ! i)) = T_exit
         else mp_threads s' ! i = mp_threads s ! i))"

lemma stopped_empty [simp]: "stopped {} s s"
  by (simp add: stopped_def)








end
