(* ===== verification/AM_Ksock.thy ===== *)
theory AM_Ksock
  imports AM_Entry_Props
begin

text \<open>
  The socket of the kernel module, \<^verbatim>\<open>appmemk/am_k_sock.c\<close>: one function that makes a datagram socket, connects it and
  sends a test message. The state are the static variables of the file, the sockets that are open in the kernel, the address
  limit of the running task, and what was handed to \<^verbatim>\<open>sock_sendmsg\<close>. The answers of the kernel's socket layer are parameters.
\<close>

section \<open>State\<close>

text \<open>The objects of the file that its pointers point to.\<close>

datatype ks_ref = To_null | To_sin | To_iov | To_message

record ks_iovec =
  iov_base :: ks_ref
  iov_len :: UINT64

record ks_msghdr =
  msg_name :: ks_ref
  msg_namelen :: UINT32
  msg_iov :: ks_ref
  msg_iovlen :: UINT64
  msg_control :: ks_ref
  msg_controllen :: UINT64
  msg_flags :: UINT32

text \<open>The address limit below which the kernel checks pointers of a system call.\<close>

datatype mm_segment = KERNEL_DS | USER_DS

record ks_send =
  sd_sock :: nat
  sd_msg :: ks_msghdr
  sd_len :: UINT32
  sd_limit :: mm_segment

record ksock =
  ks_sock_init :: bool
  ks_sock :: "nat option"
  ks_sin :: sockaddr
  ks_msg :: ks_msghdr
  ks_iov :: ks_iovec
  ks_old_fs :: mm_segment
  ks_message :: bytes
  ks_limit :: mm_segment
  ks_open :: "nat list"
  ks_sent :: "ks_send list"

text \<open>
  What the socket layer answers in one call: the status of \<^verbatim>\<open>sock_create\<close> and the socket it stores on success, the
  status of \<^verbatim>\<open>connect\<close>. That of \<^verbatim>\<open>sock_sendmsg\<close> is only printed.
\<close>

record ks_sys =
  ky_create :: UINT32
  ky_sock :: nat
  ky_connect :: UINT32

section \<open>The operation\<close>

definition MESSAGE_SIZE :: nat where
  "MESSAGE_SIZE = 1024"

definition ks_text :: "UINT64 \<Rightarrow> UINT16 \<Rightarrow> string" where
  "ks_text ipaddr port =
     ''Brandon test message to IP '' @ fmt_016llx ipaddr @ '' Port '' @ fmt_08x (ucast port) @ [CHR 0x0A]"

text \<open>\<^verbatim>\<open>strlen\<close> of the message: what stands before its first zero.\<close>

definition ks_strlen :: "bytes \<Rightarrow> nat" where
  "ks_strlen b = length (takeWhile (\<lambda>x. x \<noteq> 0) b)"

definition ks_prepare :: "UINT64 \<Rightarrow> ksock \<Rightarrow> ksock res" where
  "ks_prepare ipaddr s =
     (let s = s\<lparr>ks_msg := (ks_msg s)\<lparr>msg_flags := 0, msg_name := To_sin, msg_namelen := 16, msg_control := To_null,
                  msg_controllen := 0, msg_iov := To_iov\<rparr>, ks_sock_init := True\<rparr> in
      bindr (sprintf_to (ks_message s) (ks_text ipaddr (sin_port (ks_sin s)))) (\<lambda>m.
      let len = ks_strlen m in
      Inr (s\<lparr>ks_message := m, ks_iov := \<lparr>iov_base = To_message, iov_len = of_nat len\<rparr>,
             ks_msg := (ks_msg s)\<lparr>msg_iovlen := of_nat len\<rparr>\<rparr>)))"

text \<open>The address limit is lifted for the send and put back after it, whatever the send answers.\<close>

definition ks_send_message :: "ksock \<Rightarrow> ksock res" where
  "ks_send_message s =
     (let s = s\<lparr>ks_old_fs := ks_limit s\<rparr>; s = s\<lparr>ks_limit := KERNEL_DS\<rparr> in
      case ks_sock s of
        None \<Rightarrow> Inl NullDeref
      | Some so \<Rightarrow>
          let s = s\<lparr>ks_sent := ks_sent s @ [\<lparr>sd_sock = so, sd_msg = ks_msg s,
                      sd_len = of_nat (ks_strlen (ks_message s)), sd_limit = ks_limit s\<rparr>]\<rparr>
          in Inr (s\<lparr>ks_limit := ks_old_fs s\<rparr>))"

definition am_k_sock_init :: "ks_sys \<Rightarrow> UINT64 \<Rightarrow> ksock \<Rightarrow> ksock res" where
  "am_k_sock_init ky ipaddr s =
     (if sint (ky_create ky) < 0 then Inr s
      else
        let s = s\<lparr>ks_sock := Some (ky_sock ky), ks_open := ky_sock ky # ks_open s,
                  ks_sin := \<lparr>sin_family = AF_INET, sin_port = htons 4950, sin_addr = htonl (ucast ipaddr)\<rparr>\<rparr>
        in if sint (ky_connect ky) < 0 then Inr s
           else bindr (ks_prepare ipaddr s) ks_send_message)"

text \<open>The static variables as the module is loaded, and calls one after the other.\<close>

definition ks_start :: "mm_segment \<Rightarrow> ksock" where
  "ks_start lim = \<lparr>ks_sock_init = False, ks_sock = None, ks_sin = zero_addr,
     ks_msg = \<lparr>msg_name = To_null, msg_namelen = 0, msg_iov = To_null, msg_iovlen = 0, msg_control = To_null,
               msg_controllen = 0, msg_flags = 0\<rparr>,
     ks_iov = \<lparr>iov_base = To_null, iov_len = 0\<rparr>, ks_old_fs = KERNEL_DS, ks_message = replicate MESSAGE_SIZE 0,
     ks_limit = lim, ks_open = [], ks_sent = []\<rparr>"

fun ks_run :: "ksock \<Rightarrow> (ks_sys \<times> UINT64) list \<Rightarrow> ksock res" where
  "ks_run s [] = Inr s"
| "ks_run s ((ky, ip) # cs) = bindr (am_k_sock_init ky ip s) (\<lambda>s. ks_run s cs)"

section \<open>What it does\<close>

lemma hex_digit_byte: "d < 16 \<Longrightarrow> (of_char (hex_digit d) :: UINT8) \<noteq> 0"
proof -
  assume d: "d < 16"
  have "(of_char (hex_digit d) :: UINT8) = of_nat (of_char (hex_digit d))" by (simp only: of_nat_of_char)
  also have "\<dots> = of_nat (if d < 10 then 48 + d else 87 + d)" using d by (simp add: hex_digit_def)
  also have "\<dots> \<noteq> 0"
  proof
    assume "(of_nat (if d < 10 then 48 + d else 87 + d) :: UINT8) = 0"
    then have "256 dvd (if d < 10 then 48 + d else 87 + d)" by (simp only: word_of_nat_eq_0_iff) simp
    then show False using d by (auto dest: dvd_imp_le split: if_splits)
  qed
  finally show ?thesis .
qed

lemma hex_digits_bytes: "0 \<notin> set (c_bytes (hex_digits n))"
proof (induction n rule: hex_digits.induct)
  case (1 n)
  then show ?case using hex_digit_byte [of n] hex_digit_byte [of "n mod 16"]
    by (subst hex_digits.simps) (auto simp: c_bytes_def)
qed

text \<open>The message has 58 characters for every address, and none of them is a zero.\<close>

lemma length_ks_text [simp]: "length (ks_text ip port) = 58"
  by (simp add: ks_text_def)

lemma ks_text_no_zero: "0 \<notin> set (c_bytes (ks_text ip port))"
  using hex_digits_bytes [of "unat ip"] hex_digits_bytes [of "unat (ucast port :: UINT32)"]
  by (auto simp: ks_text_def c_bytes_def fmt_016llx_def fmt_08x_def Let_def)

lemma ks_strlen_text: "0 \<notin> set b \<Longrightarrow> ks_strlen (b @ 0 # r) = length b"
  by (simp add: ks_strlen_def takeWhile_append)

lemma sprintf_message:
  assumes "length buf = MESSAGE_SIZE"
  shows "\<exists>m. sprintf_to buf (ks_text ip port) = Inr m \<and> length m = MESSAGE_SIZE \<and> ks_strlen m = 58 \<and>
    take 59 m = c_bytes (ks_text ip port) @ [0]"
proof -
  have l: "length (c_bytes (ks_text ip port)) = 58" by (simp add: c_bytes_def)
  show ?thesis using assms l ks_strlen_text [OF ks_text_no_zero]
    by (simp add: sprintf_to_def putb_def MESSAGE_SIZE_def)
qed

text \<open>The header and the vector handed to the kernel: one vector is there, the header counts 58 of them.\<close>

definition ks_header :: ks_msghdr where
  "ks_header = \<lparr>msg_name = To_sin, msg_namelen = 16, msg_iov = To_iov, msg_iovlen = 58, msg_control = To_null,
     msg_controllen = 0, msg_flags = 0\<rparr>"

text \<open>A call whose socket is made and connected sends the message, and leaves the address limit as it was.\<close>

lemma am_k_sock_init_sends:
  assumes "length (ks_message s) = MESSAGE_SIZE" "0 \<le> sint (ky_create ky)" "0 \<le> sint (ky_connect ky)"
  shows "\<exists>s'. am_k_sock_init ky ip s = Inr s' \<and> ks_sock_init s' \<and> ks_limit s' = ks_limit s \<and>
    length (ks_message s') = MESSAGE_SIZE \<and> take 59 (ks_message s') = c_bytes (ks_text ip (htons 4950)) @ [0] \<and>
    ks_iov s' = \<lparr>iov_base = To_message, iov_len = 58\<rparr> \<and> sin_addr (ks_sin s') = htonl (ucast ip) \<and>
    ks_sock s' = Some (ky_sock ky) \<and> ks_open s' = ky_sock ky # ks_open s \<and>
    ks_sent s' = ks_sent s @ [\<lparr>sd_sock = ky_sock ky, sd_msg = ks_header, sd_len = 58, sd_limit = KERNEL_DS\<rparr>]"
proof -
  obtain m where m: "sprintf_to (ks_message s) (ks_text ip (htons 4950)) = Inr m" "length m = MESSAGE_SIZE" "ks_strlen m = 58"
    "take 59 m = c_bytes (ks_text ip (htons 4950)) @ [0]"
    using sprintf_message [OF assms(1)] by blast
  show ?thesis using assms(2,3) m
    by (simp add: am_k_sock_init_def ks_prepare_def ks_send_message_def Let_def ks_header_def)
qed

text \<open>A call that fails before that sends nothing; the socket that could not be connected stays open.\<close>

lemma am_k_sock_init_fails:
  "sint (ky_create ky) < 0 \<Longrightarrow> am_k_sock_init ky ip s = Inr s"
  "0 \<le> sint (ky_create ky) \<Longrightarrow> sint (ky_connect ky) < 0 \<Longrightarrow>
     \<exists>s'. am_k_sock_init ky ip s = Inr s' \<and> ks_open s' = ky_sock ky # ks_open s \<and> ks_sock s' = Some (ky_sock ky) \<and>
       ks_sock_init s' = ks_sock_init s \<and> ks_sent s' = ks_sent s \<and> ks_limit s' = ks_limit s \<and> ks_message s' = ks_message s"
  by (simp_all add: am_k_sock_init_def Let_def)

definition ks_made :: "ks_sys \<Rightarrow> bool" where
  "ks_made ky \<longleftrightarrow> 0 \<le> sint (ky_create ky)"

definition ks_sends :: "ks_sys \<Rightarrow> bool" where
  "ks_sends ky \<longleftrightarrow> ks_made ky \<and> 0 \<le> sint (ky_connect ky)"

definition ks_inv :: "mm_segment \<Rightarrow> ksock \<Rightarrow> bool" where
  "ks_inv lim s \<longleftrightarrow> length (ks_message s) = MESSAGE_SIZE \<and> ks_limit s = lim \<and> (ks_sock_init s \<longleftrightarrow> ks_sent s \<noteq> []) \<and>
     (\<forall>d\<in>set (ks_sent s). sd_msg d = ks_header \<and> sd_len d = 58 \<and> sd_limit d = KERNEL_DS \<and> sd_sock d \<in> set (ks_open s))"

lemma ks_inv_start: "ks_inv lim (ks_start lim)"
  by (simp add: ks_inv_def ks_start_def)

lemma am_k_sock_init_step:
  assumes "ks_inv lim s"
  shows "\<exists>s'. am_k_sock_init ky ip s = Inr s' \<and> ks_inv lim s' \<and>
    ks_open s' = (if ks_made ky then [ky_sock ky] else []) @ ks_open s \<and>
    map sd_sock (ks_sent s') = map sd_sock (ks_sent s) @ (if ks_sends ky then [ky_sock ky] else [])"
proof -
  have l: "length (ks_message s) = MESSAGE_SIZE" using assms by (simp add: ks_inv_def)
  consider (none) "sint (ky_create ky) < 0" | (lost) "0 \<le> sint (ky_create ky)" "sint (ky_connect ky) < 0"
    | (sent) "0 \<le> sint (ky_create ky)" "0 \<le> sint (ky_connect ky)" by linarith
  then show ?thesis
  proof cases
    case none
    then show ?thesis using assms am_k_sock_init_fails(1) [OF none] by (simp add: ks_made_def ks_sends_def)
  next
    case lost
    show ?thesis using assms am_k_sock_init_fails(2) [OF lost, of ip s] lost by (auto simp: ks_inv_def ks_made_def ks_sends_def)
  next
    case sent
    show ?thesis using assms am_k_sock_init_sends [OF l sent, of ip] sent by (auto simp: ks_inv_def ks_made_def ks_sends_def)
  qed
qed

text \<open>
  Whatever the socket layer answers in any number of calls, none of them faults, the buffer holds, the messages go out in
  order, one by each call that gets as far, and every socket that was ever made is still open.
\<close>

lemma ks_run_inv:
  assumes "ks_inv lim s"
  shows "\<exists>s'. ks_run s cs = Inr s' \<and> ks_inv lim s' \<and>
    ks_open s' = rev (map (ky_sock \<circ> fst) (filter (ks_made \<circ> fst) cs)) @ ks_open s \<and>
    map sd_sock (ks_sent s') = map sd_sock (ks_sent s) @ map (ky_sock \<circ> fst) (filter (ks_sends \<circ> fst) cs)"
  using assms
proof (induction cs arbitrary: s)
  case (Cons c cs)
  obtain ky ip where c: "c = (ky, ip)" by (cases c)
  obtain s1 where s1: "am_k_sock_init ky ip s = Inr s1" "ks_inv lim s1"
    "ks_open s1 = (if ks_made ky then [ky_sock ky] else []) @ ks_open s"
    "map sd_sock (ks_sent s1) = map sd_sock (ks_sent s) @ (if ks_sends ky then [ky_sock ky] else [])"
    using am_k_sock_init_step [OF Cons.prems, of ky ip] by blast
  show ?case using Cons.IH [OF s1(2)] s1 c by (auto simp: ks_sends_def)
qed simp

text \<open>Both ways of failing happen: the last socket is the one of the failed \<^verbatim>\<open>connect\<close>.\<close>

lemma ks_run_demo:
  "\<exists>s'. ks_run (ks_start USER_DS)
      [(\<lparr>ky_create = 0, ky_sock = 7, ky_connect = 0\<rparr>, 0xC0A801DD),
       (\<lparr>ky_create = - 12, ky_sock = 8, ky_connect = 0\<rparr>, 0xC0A801DD),
       (\<lparr>ky_create = 0, ky_sock = 9, ky_connect = - 101\<rparr>, 0x7F000001)] = Inr s' \<and>
     ks_open s' = [9, 7] \<and> map sd_sock (ks_sent s') = [7] \<and> ks_sock_init s' \<and> ks_limit s' = USER_DS"
  using ks_run_inv [OF ks_inv_start, of USER_DS "[(\<lparr>ky_create = 0, ky_sock = 7, ky_connect = 0\<rparr>, 0xC0A801DD),
       (\<lparr>ky_create = - 12, ky_sock = 8, ky_connect = 0\<rparr>, 0xC0A801DD),
       (\<lparr>ky_create = 0, ky_sock = 9, ky_connect = - 101\<rparr>, 0x7F000001)]"]
  by (auto simp: ks_inv_def ks_made_def ks_sends_def ks_start_def)

end
