(* ===== verification/AM_Targ_Start.thy ===== *)
theory AM_Targ_Start
  imports AM_Target AM_Sock
begin

text \<open>
  The start of the target process, \<^verbatim>\<open>am_targ/am_target.c\<close>: the socket, the queue, the receive thread, and what the process
  does when one of them is not there. \<^verbatim>\<open>AM_Target\<close> has the state the endless loop starts from.
\<close>

section \<open>Starting\<close>

text \<open>
  \<open>am_targ_recv_thread_create\<close>: the status, and whether a thread runs. \<open>pTarget\<close> says that the entry has a target; it is
  checked after the thread was made.
\<close>

definition am_targ_recv_thread_create :: "sys \<Rightarrow> bool \<Rightarrow> bool \<Rightarrow> bool \<Rightarrow> (AM_RETURN \<times> bool) res" where
  "am_targ_recv_thread_create sy al run pTarget =
     (case am_thread_create sy al run of
        (pThread, runs) \<Rightarrow>
          bindr (AM_ASSERT pTarget) (\<lambda>_.
          if pThread then Inr (AM_RET_GOOD, runs) else Inr (AM_RET_THREAD_ERR, runs)))"

text \<open>The process is in its endless loop, with or without a receive thread that runs, or the function has returned.\<close>

datatype 'c boot = Looping "'c target" bool | Returned AM_RETURN

text \<open>
  \<open>am_targ_start_target\<close>. \<open>al\<close> is as in \<open>am_targ_start_target\<close> of \<^verbatim>\<open>AM_Target\<close>: \<open>al 0\<close> the target, \<open>al 1\<close> and \<open>al 2\<close> its base
  function, the rest the queue; \<open>als 0\<close> is the socket object and \<open>als 1\<close> the thread object.
\<close>

definition am_targ_boot ::
  "sys \<Rightarrow> alloc \<Rightarrow> alloc \<Rightarrow> bool \<Rightarrow> registry \<Rightarrow> UINT32 set \<Rightarrow> ('c boot \<times> UINT32 set) res" where
  "am_targ_boot sy al als run reg fds =
     (if \<not> al 0 then Inr (Returned AM_RET_ALLOC_ERR, fds)
      else
        case am_targ_init_base_function (\<lambda>i. al (1 + i)) of
          (st, None) \<Rightarrow> Inr (Returned AM_RET_ALLOC_ERR, fds)
        | (st, Some base) \<Rightarrow>
            if st \<noteq> AM_RET_GOOD then Inr (Returned AM_RET_ALLOC_ERR, fds)
            else
              case am_net_establish_socket sy als no_entry 0 4950 fds of
                (error, targEntry, fds) \<Rightarrow>
                  if error \<noteq> AM_RET_GOOD then Inr (Returned error, fds)
                  else
                    case am_init_pack_queue (\<lambda>i. al (3 + i)) 1024 of
                      None \<Rightarrow> Inr (Returned error, fds)
                    | Some q \<Rightarrow>
                        bindr (am_targ_recv_thread_create sy (als 1) run True) (\<lambda>(st, runs).
                        if st = AM_RET_GOOD then
                          Inr (Looping \<lparr>ta_g = \<lparr>tg_table = start_table base, tg_reg = reg\<rparr>, ta_q = q, ta_sent = []\<rparr> runs, fds)
                        else Inr (Returned error, fds)))"

text \<open>The status of the process, if it ends: \<open>main\<close> prints what the start returned.\<close>

definition am_targ_main :: "'c boot \<Rightarrow> UINT32 option" where
  "am_targ_main b = (case b of Looping t runs \<Rightarrow> None | Returned error \<Rightarrow> Some 0)"

section \<open>What a start leads to\<close>

lemma am_targ_boot_total: "\<exists>b fds'. am_targ_boot sy al als run reg fds = Inr (b, fds')"
  by (simp add: am_targ_boot_def am_targ_recv_thread_create_def am_thread_create_def split: prod.split option.split)

lemma base_function_none:
  "am_targ_init_base_function al = (st, None) \<Longrightarrow> st = AM_RET_ALLOC_ERR"
  "am_targ_init_base_function al = (st, Some f) \<Longrightarrow> st = AM_RET_GOOD"
  by (auto simp: am_targ_init_base_function_def split: if_splits)

text \<open>
  The loop is reached exactly when the socket was made, the memory was granted and a thread object was; the target is then the
  one the sessions start from. The thread runs only if the system could start it, which the code does not ask.
\<close>

lemma am_targ_boot_loops:
  "am_targ_boot sy al als run reg fds = Inr (Looping t runs, fds') \<longleftrightarrow>
     am_targ_start_target al reg = Some t \<and> als 1 \<and> runs = (sy_pthread_attr_init sy = 0 \<and> run) \<and>
     (\<exists>e. am_net_establish_socket sy als no_entry 0 4950 fds = (AM_RET_GOOD, e, fds'))"
  by (cases "am_targ_init_base_function (\<lambda>i. al (1 + i))"; cases "snd (am_targ_init_base_function (\<lambda>i. al (1 + i)))";
      cases "am_net_establish_socket sy als no_entry 0 4950 fds")
    (auto simp: am_targ_boot_def am_targ_start_target_def am_targ_recv_thread_create_def am_thread_create_def
      dest: base_function_none split: option.splits)

text \<open>
  When it returns, the status is good just when the socket was made: no memory for the queue and no thread object are not
  reported. The socket is then still open, and whatever went wrong, the process ends with the status 0.
\<close>

lemma am_targ_boot_returns:
  assumes "am_targ_boot sy al als run reg fds = Inr (Returned st :: 'c boot, fds')"
  shows "am_targ_main (Returned st :: 'c boot) = Some 0" "fds \<subseteq> fds'"
    and "st = AM_RET_GOOD \<Longrightarrow> sy_socket sy \<in> fds' \<and> (am_init_pack_queue (\<lambda>i. al (3 + i)) 1024 = (None :: 'c pack_queue option) \<or> \<not> als 1)"
proof -
  show "am_targ_main (Returned st :: 'c boot) = Some 0" by (simp add: am_targ_main_def)
  obtain b f where f: "am_targ_init_base_function (\<lambda>i. al (1 + i)) = (b, f)" by fastforce
  obtain e en fd where n: "am_net_establish_socket sy als no_entry 0 4950 fds = (e, en, fd)" by (cases "am_net_establish_socket sy als no_entry 0 4950 fds")
  have fd: "fds \<subseteq> fd" "e = AM_RET_GOOD \<Longrightarrow> sy_socket sy \<in> fd"
    using n by (auto simp: am_net_establish_socket_def Let_def split: if_splits)
  show "fds \<subseteq> fds'"
    using assms f n fd(1) by (auto simp: am_targ_boot_def am_targ_recv_thread_create_def am_thread_create_def split: if_splits option.splits)
  assume "st = AM_RET_GOOD"
  then show "sy_socket sy \<in> fds' \<and> (am_init_pack_queue (\<lambda>i. al (3 + i)) 1024 = (None :: 'c pack_queue option) \<or> \<not> als 1)"
    using assms f n fd(2) by (auto simp: am_targ_boot_def am_targ_recv_thread_create_def am_thread_create_def split: if_splits option.splits)
qed

end
