(* ===== verification/AM_Cpp.thy ===== *)
theory AM_Cpp
  imports AM_Entry AM_Kd AM_Virtd
begin

text \<open>
  The C++ classes, \<^verbatim>\<open>appmemlib/appmemcpp.cpp\<close> and \<^verbatim>\<open>inc/appmemcpp.h\<close>, and the program \<^verbatim>\<open>api.cpp\<close>. A class is a record, a
  derived class an extension of it, so that the operations of the base class apply to every object. An object is
  made in memory that held something: the constructors take that as an argument. The calls go through the
  pointers of the library entry and of the function object; the first sections are those indirect calls.
\<close>

abbreviation (input) AM_RET_KEY_OUT_OF_RANGE :: AM_RETURN where "AM_RET_KEY_OUT_OF_RANGE \<equiv> 8"

section \<open>The library as its client sees it\<close>

text \<open>
  What the operations depend on and do not change: the socket, the answers of the system calls and of the
  allocators (\<open>lv_new\<close> those of \<^verbatim>\<open>new\<close> in \<open>initBase\<close>), what fresh memory holds (\<open>lv_calls\<close> as a table of calls), and
  what lies behind the local \<open>configCap\<close> on the stack. The members from \<open>lv_ke\<close> on are for the kernel module: the
  descriptors that \<^verbatim>\<open>open\<close> returns for the base device and for the new one, the file table, whether \<^verbatim>\<open>mmap\<close> succeeds,
  the steps of the thread while the client sleeps, and the addresses of the command, of the local \<open>count\<close>, of
  \<open>pAllCaps\<close>, \<open>configCap\<close> and \<open>amFunc.crResp\<close>, and of key and data.
\<close>

record 'w libenv =
  lv_sk :: "'w sock"
  lv_sys :: sys
  lv_al :: alloc
  lv_new :: alloc
  lv_run :: bool
  lv_junk :: "nat \<Rightarrow> UINT8"
  lv_calls :: func_calls
  lv_stack :: bytes
  lv_ke :: kenv
  lv_fd_base :: UINT32
  lv_fd_dev :: UINT32
  lv_fds :: fd_table
  lv_mmap :: bool
  lv_sch :: "nat \<Rightarrow> nat"
  lv_fuel :: nat
  lv_a_cmd :: UINT64
  lv_a_count :: UINT64
  lv_a_caps :: UINT64
  lv_a_cap :: UINT64
  lv_a_cr :: UINT64
  lv_a_key :: UINT64
  lv_a_data :: UINT64

text \<open>The state: the in-process device, the network client, its open sockets, the kernel, and the mapped page.\<close>

record 'w lib =
  lb_virtd :: virtd
  lb_net :: "'w net"
  lb_socks :: "UINT32 set"
  lb_kern :: kern
  lb_kp :: kpack

section \<open>Calls through the entry\<close>

definition kern_put :: "UINT64 \<Rightarrow> bytes \<Rightarrow> 'w lib \<Rightarrow> 'w lib res" where
  "kern_put a b s = bindr (um_put (kn_um (lb_kern s)) a b) (\<lambda>um. Inr (s\<lparr>lb_kern := (lb_kern s)\<lparr>kn_um := um\<rparr>\<rparr>))"

definition call_get_cap_count :: "'w libenv \<Rightarrow> entry_fn option \<Rightarrow> 'w lib \<Rightarrow> (UINT32 \<times> 'w lib) res" where
  "call_get_cap_count v fp s =
     (case fp of
        None \<Rightarrow> Inl NullDeref
      | Some En_virtd_get_capabilites_count \<Rightarrow> Inr (am_virtd_get_capabilites_count, s)
      | Some En_net_get_capabilites_count \<Rightarrow>
          bindr (am_net_get_capabilites_count (lv_sk v) (lb_net s)) (\<lambda>(c, n). Inr (c, s\<lparr>lb_net := n\<rparr>))
      | Some En_kd_get_capabilities_count \<Rightarrow>
          bindr (am_kd_get_capabilities_count (lv_ke v) (lv_fds v) (lv_a_cmd v) (lv_junk v) (lv_a_count v) (lv_fd_base v) (lb_kern s))
            (\<lambda>(c, k). Inr (c, s\<lparr>lb_kern := k\<rparr>))
      | Some _ \<Rightarrow> Inl BadCall)"

definition call_get_capabilities ::
  "'w libenv \<Rightarrow> entry_fn option \<Rightarrow> 'w lib \<Rightarrow> bytes \<Rightarrow> UINT32 \<Rightarrow> (AM_RETURN \<times> bytes \<times> 'w lib) res" where
  "call_get_capabilities v fp s pAmCaps cnt =
     (case fp of
        None \<Rightarrow> Inl NullDeref
      | Some En_virtd_get_capabilities \<Rightarrow>
          bindr (am_virtd_get_capabilities (lb_virtd s) (Some pAmCaps) cnt) (\<lambda>(st, b).
          bindr (the_buf b) (\<lambda>b. Inr (st, b, s)))
      | Some En_net_get_capabilities \<Rightarrow>
          bindr (am_net_get_capabilities (lv_sk v) (lb_net s) (Some pAmCaps) cnt) (\<lambda>(st, b, n).
          bindr (the_buf b) (\<lambda>b. Inr (st, b, s\<lparr>lb_net := n\<rparr>)))
      | Some En_kd_get_capabilities \<Rightarrow>
          bindr (kern_put (lv_a_caps v) pAmCaps s) (\<lambda>s.
          bindr (am_kd_get_capabilities (lv_ke v) (lv_fds v) (lv_a_cmd v) (lv_junk v) (lv_fd_base v) (lb_kern s) (lv_a_caps v) cnt)
            (\<lambda>(st, k).
          bindr (um_get (kn_um k) (lv_a_caps v) (length pAmCaps)) (\<lambda>b. Inr (st, b, s\<lparr>lb_kern := k\<rparr>))))
      | Some _ \<Rightarrow> Inl BadCall)"

definition call_create_function ::
  "'w libenv \<Rightarrow> entry_fn option \<Rightarrow> 'w lib \<Rightarrow> mem_cap \<Rightarrow> mem_func \<Rightarrow> (AM_RETURN \<times> mem_func \<times> 'w lib) res" where
  "call_create_function v fp s cap f =
     (case fp of
        None \<Rightarrow> Inl NullDeref
      | Some En_virtd_create_function \<Rightarrow>
          bindr (am_virtd_create_function (lv_al v) (lv_junk v) (lb_virtd s) (Some cap) (Some f)) (\<lambda>(st, vd, f).
          Inr (st, f, s\<lparr>lb_virtd := vd\<rparr>))
      | Some En_net_create_function \<Rightarrow>
          bindr (am_net_create_function (lv_sk v) (lb_net s) (Some (enc_mem_cap cap @ lv_stack v)) f) (\<lambda>(st, f, n).
          Inr (st, f, s\<lparr>lb_net := n\<rparr>))
      | Some En_kd_create_function \<Rightarrow>
          bindr (kern_put (lv_a_cap v) (enc_mem_cap cap) s) (\<lambda>s.
          bindr (kern_put (lv_a_cr v) (enc_cr_resp (fn_crResp f)) s) (\<lambda>s.
          bindr (am_kd_create_function (lv_ke v) (lv_fds v) (lv_a_cmd v) (lv_junk v) (lv_fd_base v) (lb_kern s) (lv_a_cap v) (lv_a_cr v)
                   f (kp_map (lb_kp s))) (\<lambda>(st, f, fm, k).
          Inr (st, f, s\<lparr>lb_kern := k, lb_kp := (lb_kp s)\<lparr>kp_map := fm\<rparr>\<rparr>))))
      | Some _ \<Rightarrow> Inl BadCall)"

section \<open>Calls through the function object\<close>

text \<open>The device whose file was opened, with the page the fault handler makes for it.\<close>

definition mapped_device :: "'w libenv \<Rightarrow> kern \<Rightarrow> (kthread \<times> kmap) option res" where
  "mapped_device v k =
     (case Option.bind (lv_fds v (lv_fd_dev v)) (kn_devs k) of
        Some d \<Rightarrow>
          if lv_mmap v then bindr (appmemd_vma_fault (lv_al v) d) (\<lambda>(m, started). Inr (Some (if started then T_start else T_exit, m)))
          else Inr None
      | None \<Rightarrow> Inr None)"

definition call_open :: "'w libenv \<Rightarrow> 'w lib \<Rightarrow> fn_ptr option \<Rightarrow> mem_func \<Rightarrow> (AM_RETURN \<times> mem_func \<times> 'w lib) res" where
  "call_open v s fp f =
     (case fp of
        None \<Rightarrow> Inl NullDeref
      | Some Fn_virtd_open \<Rightarrow> Inr (am_virtd_open, f, s)
      | Some Fn_net_open \<Rightarrow>
          bindr (am_net_open (net_pkac (lv_sk v)) (lb_net s) (Some f)) (\<lambda>(st, n). Inr (st, f, s\<lparr>lb_net := n\<rparr>))
      | Some Fn_kd_open \<Rightarrow>
          bindr (mapped_device v (lb_kern s)) (\<lambda>mapped.
          bindr (am_kd_open (lv_al v) (lv_junk v) (lv_sch v) (lv_fuel v) (lv_fd_dev v) mapped f (kp_map (lb_kp s))) (\<lambda>(st, f, fm, page).
          Inr (st, f, s\<lparr>lb_kp := (case page of None \<Rightarrow> (lb_kp s)\<lparr>kp_map := fm\<rparr>
                                    | Some (th, m) \<Rightarrow> \<lparr>kp_map = fm, kp_th = th, kp_dev = m\<rparr>)\<rparr>)))
      | Some _ \<Rightarrow> Inl BadCall)"

text \<open>A function object made through the kernel module has the accessor of the page, any other that of the network.\<close>

definition by_kernel :: "amlib_entry \<Rightarrow> bool" where
  "by_kernel e \<longleftrightarrow> en_create_function e = Some En_kd_create_function"

definition kd_place :: "'w libenv \<Rightarrow> 'w lib \<Rightarrow> bytes \<Rightarrow> bytes \<Rightarrow> kern res" where
  "kd_place v s key data = bindr (kern_put (lv_a_key v) key s) (\<lambda>s. bindr (kern_put (lv_a_data v) data s) (\<lambda>s. Inr (lb_kern s)))"

definition call_write_al ::
  "'w libenv \<Rightarrow> 'w lib \<Rightarrow> amlib_entry \<Rightarrow> fn_ptr option \<Rightarrow> mem_func \<Rightarrow> bytes \<Rightarrow> bytes \<Rightarrow> (AM_RETURN \<times> mem_func \<times> 'w lib) res" where
  "call_write_al v s e fp f key data =
     (case fp of
        None \<Rightarrow> Inl NullDeref
      | Some Fn_pack_write32_align \<Rightarrow>
          if by_kernel e then
            bindr (am_pack_write32_align (kpack_pkac (lv_al v) (lv_junk v)) (lb_kp s) (Some f) (Some key) (Some data)) (\<lambda>(st, kp).
            Inr (st, f, s\<lparr>lb_kp := kp\<rparr>))
          else
            bindr (am_pack_write32_align (net_pkac (lv_sk v)) (lb_net s) (Some f) (Some key) (Some data)) (\<lambda>(st, n).
            Inr (st, f, s\<lparr>lb_net := n\<rparr>))
      | Some Fn_pack_write_align \<Rightarrow>
          if by_kernel e then
            bindr (am_pack_write_align (kpack_pkac (lv_al v) (lv_junk v)) (lb_kp s) (Some f) (Some key) (Some data)) (\<lambda>(st, kp).
            Inr (st, f, s\<lparr>lb_kp := kp\<rparr>))
          else
            bindr (am_pack_write_align (net_pkac (lv_sk v)) (lb_net s) (Some f) (Some key) (Some data)) (\<lambda>(st, n).
            Inr (st, f, s\<lparr>lb_net := n\<rparr>))
      | Some Fn_kd_write32_align \<Rightarrow>
          bindr (kd_place v s key data) (\<lambda>k.
          bindr (am_kd_write32_align (lv_ke v) (lv_fds v) (lv_a_cmd v) k f (lv_a_key v) (lv_a_data v)) (\<lambda>(st, k).
          Inr (st, f, s\<lparr>lb_kern := k\<rparr>)))
      | Some Fn_kd_fixed_write_packet \<Rightarrow>
          bindr (kd_place v s key data) (\<lambda>k.
          bindr (am_kd_fixed_write_packet (lv_ke v) (lv_fds v) (lv_a_cmd v) (lv_junk v) k f (lv_a_key v) (lv_a_data v)) (\<lambda>(st, k).
          Inr (st, f, s\<lparr>lb_kern := k\<rparr>)))
      | Some fp \<Rightarrow> bindr (call_align fp (lv_al v) f (Some key) (Some data)) (\<lambda>(st, f, _). Inr (st, f, s)))"

definition call_read_al ::
  "'w libenv \<Rightarrow> 'w lib \<Rightarrow> amlib_entry \<Rightarrow> fn_ptr option \<Rightarrow> mem_func \<Rightarrow> bytes \<Rightarrow> bytes \<Rightarrow> (AM_RETURN \<times> mem_func \<times> bytes \<times> 'w lib) res" where
  "call_read_al v s e fp f key data =
     (case fp of
        None \<Rightarrow> Inl NullDeref
      | Some Fn_pack_read32_align \<Rightarrow>
          if by_kernel e then
            bindr (am_pack_read32_align (kpack_pkac (lv_al v) (lv_junk v)) (lb_kp s) (Some f) (Some key) (Some data)) (\<lambda>(st, b, kp).
            bindr (the_buf b) (\<lambda>b. Inr (st, f, b, s\<lparr>lb_kp := kp\<rparr>)))
          else
            bindr (am_pack_read32_align (net_pkac (lv_sk v)) (lb_net s) (Some f) (Some key) (Some data)) (\<lambda>(st, b, n).
            bindr (the_buf b) (\<lambda>b. Inr (st, f, b, s\<lparr>lb_net := n\<rparr>)))
      | Some Fn_pack_read_align \<Rightarrow>
          if by_kernel e then
            bindr (am_pack_read_align (kpack_pkac (lv_al v) (lv_junk v)) (lb_kp s) (Some f) (Some key) (Some data)) (\<lambda>(st, b, kp).
            bindr (the_buf b) (\<lambda>b. Inr (st, f, b, s\<lparr>lb_kp := kp\<rparr>)))
          else
            bindr (am_pack_read_align (net_pkac (lv_sk v)) (lb_net s) (Some f) (Some key) (Some data)) (\<lambda>(st, b, n).
            bindr (the_buf b) (\<lambda>b. Inr (st, f, b, s\<lparr>lb_net := n\<rparr>)))
      | Some Fn_kd_read32_align \<Rightarrow>
          bindr (kd_place v s key data) (\<lambda>k.
          bindr (am_kd_read32_align (lv_ke v) (lv_fds v) (lv_a_cmd v) k f (lv_a_key v) (lv_a_data v)) (\<lambda>(st, k).
          bindr (um_get (kn_um k) (lv_a_data v) (length data)) (\<lambda>b. Inr (st, f, b, s\<lparr>lb_kern := k\<rparr>))))
      | Some Fn_kd_fixed_read_packet \<Rightarrow>
          bindr (kd_place v s key data) (\<lambda>k.
          bindr (am_kd_fixed_read_packet (lv_ke v) (lv_fds v) (lv_a_cmd v) (lv_junk v) k f (lv_a_key v) (lv_a_data v)) (\<lambda>(st, k).
          bindr (um_get (kn_um k) (lv_a_data v) (length data)) (\<lambda>b. Inr (st, f, b, s\<lparr>lb_kern := k\<rparr>))))
      | Some fp \<Rightarrow>
          bindr (call_align fp (lv_al v) f (Some key) (Some data)) (\<lambda>(st, f, b). bindr (the_buf b) (\<lambda>b. Inr (st, f, b, s))))"

section \<open>The base class\<close>

text \<open>
  \<open>pCalls\<close> points to the table that \<open>amFunc.fn\<close> points to as well, whose contents are \<open>fn_calls\<close> of \<open>amFunc\<close>; it is
  \<open>None\<close> while it was never set. \<open>pBaseCaps\<close> owns one capability, or all of them.
\<close>

record cappmem =
  cm_amFunc :: mem_func
  cm_amEntry :: amlib_entry
  cm_cap_count :: UINT32
  cm_pBaseCaps :: "bytes ptr"
  cm_bReady :: bool
  cm_pCalls :: "unit ptr option"

definition CAppMem_default :: "'a cappmem_scheme \<Rightarrow> 'a cappmem_scheme" where
  "CAppMem_default ob = ob\<lparr>cm_cap_count := 0, cm_pBaseCaps := Null, cm_bReady := False, cm_pCalls := Some Null\<rparr>"

definition CAppMem_configCaps :: "'a cappmem_scheme \<Rightarrow> mem_cap \<Rightarrow> AM_RETURN \<times> mem_cap" where
  "CAppMem_configCaps ob pCap = (AM_RET_GOOD, pCap)"

definition driverName :: "'a cappmem_scheme \<Rightarrow> bytes option" where
  "driverName ob = en_am_name (cm_amEntry ob)"

definition ready :: "'a cappmem_scheme \<Rightarrow> bool" where
  "ready ob = cm_bReady ob"

text \<open>The capability of the type asked for: the first one, from index \<open>i\<close> on, among \<open>k\<close> of them.\<close>

fun find_cap :: "bytes \<Rightarrow> UINT32 \<Rightarrow> nat \<Rightarrow> nat \<Rightarrow> bytes option res" where
  "find_cap pAllCaps amType 0 i = Inr None"
| "find_cap pAllCaps amType (Suc k) i =
     bindr (rd32 pAllCaps (sizeof_MEM_CAP * i)) (\<lambda>ty.
     if ty = amType then bindr (getb pAllCaps (sizeof_MEM_CAP * i) sizeof_MEM_CAP) (\<lambda>c. Inr (Some c))
     else find_cap pAllCaps amType k (Suc i))"

text \<open>
  The device of a derived class: \<open>configCaps\<close> is the virtual function of the object. \<open>amFunc\<close> keeps what the memory of the
  object held, except for \<open>fn\<close>, which points to a new table; neither is cleared. A status that is not good leaves the object not
  ready, and a device that was made but could not be opened is kept.
\<close>

definition init_device ::
  "'w libenv \<Rightarrow> ('a cappmem_scheme \<Rightarrow> mem_cap \<Rightarrow> AM_RETURN \<times> mem_cap) \<Rightarrow> UINT32 \<Rightarrow> bytes \<Rightarrow> 'a cappmem_scheme \<Rightarrow> 'w lib \<Rightarrow>
   ('a cappmem_scheme \<times> 'w lib) res" where
  "init_device v configCaps amType pAllCaps ob s =
     bindr (find_cap pAllCaps amType (unat (cm_cap_count ob)) 0) (\<lambda>found.
     bindr (case found of
              None \<Rightarrow> Inr ob
            | Some c \<Rightarrow> if lv_new v 1 then Inr (ob\<lparr>cm_pBaseCaps := Live c, cm_cap_count := 1\<rparr>) else Inl BadAlloc) (\<lambda>ob.
     if cm_pBaseCaps ob = Null then Inr (ob, s)
     else if \<not> lv_new v 2 then Inl BadAlloc
     else
       let ob = ob\<lparr>cm_pCalls := Some (Live ()), cm_amFunc := (cm_amFunc ob)\<lparr>fn_calls := Some (lv_calls v)\<rparr>\<rparr> in
       bindr (deref (cm_pBaseCaps ob)) (\<lambda>c.
       bindr (rd_mem_cap c 0) (\<lambda>configCap.
       case configCaps ob configCap of
         (st, configCap) \<Rightarrow>
           if st = AM_RET_GOOD then
             bindr (call_create_function v (en_create_function (cm_amEntry ob)) s configCap (cm_amFunc ob)) (\<lambda>(st, f, s).
             let ob = ob\<lparr>cm_amFunc := f\<rparr> in
             if st = AM_RET_GOOD then
               bindr (call_open v s (Option.bind (fn_calls f) fc_open) f) (\<lambda>(st, f, s).
               Inr (ob\<lparr>cm_amFunc := f, cm_bReady := (if st = AM_RET_GOOD then True else cm_bReady ob)\<rparr>, s))
             else Inr (ob, s))
           else Inr (ob, s)))))"

definition initBase ::
  "'w libenv \<Rightarrow> ('a cappmem_scheme \<Rightarrow> mem_cap \<Rightarrow> AM_RETURN \<times> mem_cap) \<Rightarrow> bytes option \<Rightarrow> UINT32 \<Rightarrow> 'a cappmem_scheme \<Rightarrow> 'w lib \<Rightarrow>
   ('a cappmem_scheme \<times> 'w lib) res" where
  "initBase v configCaps am_name amType ob s =
     bindr (am_get_entry_point (lv_sk v) (lv_sys v) (lv_al v) (lv_run v) (lv_junk v) am_name (Some (cm_amEntry ob)) (lb_socks s) (lb_net s))
       (\<lambda>(st, e, fds, n).
     let ob = (case e of None \<Rightarrow> ob | Some e \<Rightarrow> ob\<lparr>cm_amEntry := e\<rparr>); s = s\<lparr>lb_socks := fds, lb_net := n\<rparr> in
     if st = AM_RET_GOOD then
       bindr (call_get_cap_count v (en_get_cap_count (cm_amEntry ob)) s) (\<lambda>(cap_count, s).
       let ob = ob\<lparr>cm_cap_count := cap_count\<rparr> in
       if cap_count = 0 then Inr (ob, s)
       else if \<not> lv_new v 0 then Inl BadAlloc
       else
         bindr (call_get_capabilities v (en_get_capabilities (cm_amEntry ob)) s
                  (fresh (lv_junk v) (sizeof_MEM_CAP * unat cap_count)) cap_count) (\<lambda>(st, pAllCaps, s).
         if st = AM_RET_GOOD then
           if amType = AM_TYPE_BASE_APPMEM then Inr (ob\<lparr>cm_pBaseCaps := Live pAllCaps, cm_bReady := True\<rparr>, s)
           else init_device v configCaps amType pAllCaps ob s
         else Inr (ob, s)))
     else Inr (ob, s))"

text \<open>The constructor with a name does not set \<open>pCalls\<close>.\<close>

definition CAppMem_named :: "'w libenv \<Rightarrow> bytes option \<Rightarrow> 'a cappmem_scheme \<Rightarrow> 'w lib \<Rightarrow> ('a cappmem_scheme \<times> 'w lib) res" where
  "CAppMem_named v am_name ob s =
     initBase v CAppMem_configCaps am_name AM_TYPE_BASE_APPMEM
       (ob\<lparr>cm_cap_count := 0, cm_pBaseCaps := Null, cm_bReady := False, cm_pCalls := None\<rparr>) s"

text \<open>The destructor, of the base class and of every derived one, neither closes nor releases the device.\<close>

definition delete_ptr :: "'b ptr \<Rightarrow> 'b ptr res" where
  "delete_ptr p = (case p of Null \<Rightarrow> Inr Null | Live _ \<Rightarrow> Inr Dangling | Dangling \<Rightarrow> Inl UseAfterFree)"

definition CAppMem_destroy :: "'a cappmem_scheme \<Rightarrow> 'a cappmem_scheme res" where
  "CAppMem_destroy ob =
     bindr (delete_ptr (cm_pBaseCaps ob)) (\<lambda>caps.
     case cm_pCalls ob of
       None \<Rightarrow> Inl Uninit
     | Some p \<Rightarrow> bindr (delete_ptr p) (\<lambda>calls. Inr (ob\<lparr>cm_pBaseCaps := caps, cm_pCalls := Some calls\<rparr>)))"

text \<open>The two calls of the derived classes through \<open>pCalls\<close>.\<close>

definition obj_calls :: "'a cappmem_scheme \<Rightarrow> func_calls res" where
  "obj_calls ob =
     (case cm_pCalls ob of
        None \<Rightarrow> Inl Uninit
      | Some p \<Rightarrow> bindr (deref p) (\<lambda>_. case fn_calls (cm_amFunc ob) of None \<Rightarrow> Inl NullDeref | Some c \<Rightarrow> Inr c))"

definition obj_write_al ::
  "'w libenv \<Rightarrow> bytes \<Rightarrow> bytes \<Rightarrow> 'a cappmem_scheme \<Rightarrow> 'w lib \<Rightarrow> (AM_RETURN \<times> 'a cappmem_scheme \<times> 'w lib) res" where
  "obj_write_al v key data ob s =
     bindr (obj_calls ob) (\<lambda>c.
     bindr (call_write_al v s (cm_amEntry ob) (fc_write_al c) (cm_amFunc ob) key data) (\<lambda>(st, f, s).
     Inr (st, ob\<lparr>cm_amFunc := f\<rparr>, s)))"

definition obj_read_al ::
  "'w libenv \<Rightarrow> bytes \<Rightarrow> bytes \<Rightarrow> 'a cappmem_scheme \<Rightarrow> 'w lib \<Rightarrow> (AM_RETURN \<times> bytes \<times> 'a cappmem_scheme \<times> 'w lib) res" where
  "obj_read_al v key data ob s =
     bindr (obj_calls ob) (\<lambda>c.
     bindr (call_read_al v s (cm_amEntry ob) (fc_read_al c) (cm_amFunc ob) key data) (\<lambda>(st, f, b, s).
     Inr (st, b, ob\<lparr>cm_amFunc := f\<rparr>, s)))"

section \<open>Flat memory\<close>

record cappmem_flat = cappmem +
  cf_mem_size :: UINT32
  cf_address_size :: UINT32
  cf_elements :: UINT32
  cf_scratch_pad :: UINT32

definition CAppMemFlat_configCaps :: "cappmem_flat \<Rightarrow> mem_cap \<Rightarrow> AM_RETURN \<times> mem_cap" where
  "CAppMemFlat_configCaps ob pCap =
     (AM_RET_GOOD, pCap\<lparr>cap_typeSpecific := (cap_typeSpecific pCap)[TS_FLAT_ADDRESS_BYTE_SIZE := cf_address_size ob],
                        cap_maxSize := ucast (cf_mem_size ob)\<rparr>)"

definition CAppMemFlat :: "'w libenv \<Rightarrow> bytes option \<Rightarrow> UINT32 \<Rightarrow> UINT8 \<Rightarrow> cappmem_flat \<Rightarrow> 'w lib \<Rightarrow> (cappmem_flat \<times> 'w lib) res" where
  "CAppMemFlat v am_name memSize addressSize ob s =
     (let ob = (CAppMem_default ob)\<lparr>cf_address_size := ucast addressSize, cf_mem_size := memSize, cf_elements := 0\<rparr>;
          ob = (if cf_address_size ob \<noteq> 0 then ob\<lparr>cf_elements := cf_mem_size ob div cf_address_size ob\<rparr> else ob)
      in initBase v CAppMemFlat_configCaps am_name AM_TYPE_FLAT_MEM ob s)"

definition CAppMemFlat_count :: "cappmem_flat \<Rightarrow> UINT32" where
  "CAppMemFlat_count ob = cf_elements ob"

definition write32 :: "'w libenv \<Rightarrow> UINT32 \<Rightarrow> UINT32 \<Rightarrow> cappmem_flat \<Rightarrow> 'w lib \<Rightarrow> (AM_RETURN \<times> cappmem_flat \<times> 'w lib) res" where
  "write32 v offset val ob s =
     (if cf_address_size ob = 4 then obj_write_al v (le_enc 4 offset) (le_enc 4 val) ob s else Inl AssertFail)"

definition read32 ::
  "'w libenv \<Rightarrow> UINT32 \<Rightarrow> UINT32 \<Rightarrow> cappmem_flat \<Rightarrow> 'w lib \<Rightarrow> (AM_RETURN \<times> UINT32 \<times> cappmem_flat \<times> 'w lib) res" where
  "read32 v offset val ob s =
     (if cf_address_size ob = 4 then
        bindr (obj_read_al v (le_enc 4 offset) (le_enc 4 val) ob s) (\<lambda>(st, b, ob, s). Inr (st, le_dec b, ob, s))
      else Inl AssertFail)"

text \<open>\<open>operator[]\<close>: the answer is the scratch pad, which the read has filled.\<close>

definition flat_index :: "'w libenv \<Rightarrow> UINT32 \<Rightarrow> cappmem_flat \<Rightarrow> 'w lib \<Rightarrow> (UINT32 \<times> cappmem_flat \<times> 'w lib) res" where
  "flat_index v idx ob s =
     (if idx < cf_elements ob then
        bindr (read32 v (idx * cf_address_size ob) (cf_scratch_pad ob) ob s) (\<lambda>(st, val, ob, s).
        let ob = ob\<lparr>cf_scratch_pad := val\<rparr> in
        if st = AM_RET_GOOD then Inr (cf_scratch_pad ob, ob, s) else Inl AssertFail)
      else Inl AssertFail)"

section \<open>Static array\<close>

record cappmem_stata = cappmem +
  ca_elements :: UINT32
  ca_mem_size :: UINT32
  ca_index_size :: UINT32
  ca_data_size :: UINT32
  ca_scratch_pad :: UINT32

abbreviation (input) TS_STAT_ARRAY_VAL_DATA_TYPES :: nat where "TS_STAT_ARRAY_VAL_DATA_TYPES \<equiv> 3"

text \<open>The size of an element is 4, whatever \<open>data_size\<close> is.\<close>

definition CAppMemStaticArray_configCaps :: "cappmem_stata \<Rightarrow> mem_cap \<Rightarrow> AM_RETURN \<times> mem_cap" where
  "CAppMemStaticArray_configCaps ob pCap =
     (if cap_typeSpecific pCap ! TS_STAT_ARRAY_IDX_BYTE_SIZE AND ca_index_size ob \<noteq> 0 then
        (AM_RET_GOOD, pCap\<lparr>cap_typeSpecific := (cap_typeSpecific pCap)[TS_STAT_ARRAY_IDX_BYTE_SIZE := ca_index_size ob,
           TS_STAT_ARRAY_VAL_DATA_TYPES := TS_STAT_DT_FIXED_WIDTH, TS_STAT_ARRAY_VAL_MAX_SIZE := 4],
           cap_maxSize := ucast (ca_elements ob)\<rparr>)
      else (AM_RET_PARAM_ERR, pCap))"

definition CAppMemStaticArray ::
  "'w libenv \<Rightarrow> bytes option \<Rightarrow> UINT32 \<Rightarrow> UINT32 \<Rightarrow> UINT32 \<Rightarrow> cappmem_stata \<Rightarrow> 'w lib \<Rightarrow> (cappmem_stata \<times> 'w lib) res" where
  "CAppMemStaticArray v am_name elemCount dataSize indexSize ob s =
     initBase v CAppMemStaticArray_configCaps am_name AM_TYPE_STATIC_ARRAY
       ((CAppMem_default ob)\<lparr>ca_index_size := indexSize, ca_data_size := dataSize, ca_elements := elemCount,
          ca_mem_size := dataSize * elemCount\<rparr>) s"

definition CAppMemStaticArray_count :: "cappmem_stata \<Rightarrow> UINT32" where
  "CAppMemStaticArray_count ob = ca_elements ob"

definition stata_insert :: "'w libenv \<Rightarrow> UINT32 \<Rightarrow> bytes \<Rightarrow> cappmem_stata \<Rightarrow> 'w lib \<Rightarrow> (AM_RETURN \<times> cappmem_stata \<times> 'w lib) res" where
  "stata_insert v index pVal ob s =
     (if index < ca_elements ob then obj_write_al v (le_enc 4 index) pVal ob s else Inr (AM_RET_KEY_OUT_OF_RANGE, ob, s))"

definition stata_get ::
  "'w libenv \<Rightarrow> UINT32 \<Rightarrow> bytes \<Rightarrow> cappmem_stata \<Rightarrow> 'w lib \<Rightarrow> (AM_RETURN \<times> bytes \<times> cappmem_stata \<times> 'w lib) res" where
  "stata_get v index pVal ob s =
     (if index < ca_elements ob then obj_read_al v (le_enc 4 index) pVal ob s else Inr (AM_RET_KEY_OUT_OF_RANGE, pVal, ob, s))"

section \<open>Associative array\<close>

record cappmem_assca = cappmem +
  cs_bFixedKey :: bool
  cs_bFixedData :: bool
  cs_bErrorOnDupe :: bool
  cs_key_size :: UINT32
  cs_data_size :: UINT32

abbreviation (input) TS_ASSCA_KEY_TYPE :: nat where "TS_ASSCA_KEY_TYPE \<equiv> 2"
abbreviation (input) TS_ASSCA_DATA_TYPE :: nat where "TS_ASSCA_DATA_TYPE \<equiv> 3"
abbreviation (input) TS_ASSCA_KEY_FIXED_WIDTH :: UINT32 where "TS_ASSCA_KEY_FIXED_WIDTH \<equiv> 1"
abbreviation (input) TS_ASSCA_DATA_FIXED_WIDTH :: UINT32 where "TS_ASSCA_DATA_FIXED_WIDTH \<equiv> 1"

text \<open>Sizes above those of the capability leave it as it is, and the status is good all the same.\<close>

definition CAppMemAsscArray_configCaps :: "cappmem_assca \<Rightarrow> mem_cap \<Rightarrow> AM_RETURN \<times> mem_cap" where
  "CAppMemAsscArray_configCaps ob pCap =
     (AM_RET_GOOD,
      let ts = cap_typeSpecific pCap in
      if cs_key_size ob \<le> ts ! TS_ASSCA_KEY_MAX_SIZE \<and> cs_data_size ob \<le> ts ! TS_ASSCA_DATA_MAX_SIZE then
        let ts = ts[TS_ASSCA_KEY_MAX_SIZE := cs_key_size ob, TS_ASSCA_DATA_MAX_SIZE := cs_data_size ob];
            ts = (if cs_bFixedKey ob then ts[TS_ASSCA_KEY_TYPE := TS_ASSCA_KEY_FIXED_WIDTH] else ts);
            ts = (if cs_bFixedData ob then ts[TS_ASSCA_DATA_TYPE := TS_ASSCA_DATA_FIXED_WIDTH] else ts)
        in pCap\<lparr>cap_typeSpecific := ts\<rparr>
      else pCap)"

definition CAppMemAsscArray ::
  "'w libenv \<Rightarrow> bytes option \<Rightarrow> UINT32 \<Rightarrow> UINT32 \<Rightarrow> bool \<Rightarrow> bool \<Rightarrow> bool \<Rightarrow> cappmem_assca \<Rightarrow> 'w lib \<Rightarrow> (cappmem_assca \<times> 'w lib) res" where
  "CAppMemAsscArray v am_name keySize dataSize bFKey bFData bODupe ob s =
     initBase v CAppMemAsscArray_configCaps am_name AM_TYPE_ASSOC_ARRAY
       ((CAppMem_default ob)\<lparr>cs_key_size := keySize, cs_data_size := dataSize, cs_bFixedKey := bFKey,
          cs_bFixedData := bFData, cs_bErrorOnDupe := bODupe\<rparr>) s"

definition assca_insert :: "'w libenv \<Rightarrow> bytes \<Rightarrow> bytes \<Rightarrow> cappmem_assca \<Rightarrow> 'w lib \<Rightarrow> (AM_RETURN \<times> cappmem_assca \<times> 'w lib) res" where
  "assca_insert v pKey pVal ob s =
     (if cs_bFixedKey ob \<and> cs_bFixedData ob then obj_write_al v pKey pVal ob s else Inr (AM_RET_PARAM_ERR, ob, s))"

definition assca_get ::
  "'w libenv \<Rightarrow> bytes \<Rightarrow> bytes \<Rightarrow> cappmem_assca \<Rightarrow> 'w lib \<Rightarrow> (AM_RETURN \<times> bytes \<times> cappmem_assca \<times> 'w lib) res" where
  "assca_get v pKey pVal ob s =
     (if cs_bFixedKey ob \<and> cs_bFixedData ob then obj_read_al v pKey pVal ob s else Inr (AM_RET_PARAM_ERR, pVal, ob, s))"

section \<open>The example program\<close>

text \<open>
  \<^verbatim>\<open>main\<close> of \<^verbatim>\<open>api.cpp\<close>, up to its prints: the status of the lookup and the value read, if the array is ready; the object is
  destroyed at the end.
\<close>

definition api_main :: "'w libenv \<Rightarrow> cappmem_assca \<Rightarrow> 'w lib \<Rightarrow> ((AM_RETURN \<times> UINT32) option \<times> cappmem_assca \<times> 'w lib) res" where
  "api_main v ob s =
     (let key = c_bytes ''0123456789ABCDE'' @ [0]; key_val = (0xBADA5DAD :: UINT32); read_val = (0 :: UINT32) in
      bindr (CAppMemAsscArray v None 16 4 True True False ob s) (\<lambda>(ob, s).
      bindr (if ready ob then
               bindr (assca_insert v key (le_enc 4 key_val) ob s) (\<lambda>(_, ob, s).
               bindr (assca_get v key (le_enc 4 read_val) ob s) (\<lambda>(st, b, ob, s).
               Inr (Some (st, le_dec b), ob, s)))
             else Inr (None, ob, s)) (\<lambda>(r, ob, s).
      bindr (CAppMem_destroy ob) (\<lambda>ob. Inr (r, ob, s)))))"

end
