(* ===== verification/AM_Cpp_Props.thy ===== *)
theory AM_Cpp_Props
  imports AM_Cpp AM_Session AM_Caps_Props
begin

text \<open>
  What the objects of the C++ classes do: their two calls are those of the device behind them, wherever that is, so
  that a static array is an array, and a program that uses one sees the same answers over every entry.
\<close>

section \<open>Words in a block\<close>

lemma enc_words_get:
  assumes "i < length ws"
  shows "take 4 (drop (4 * i) (enc_words ws)) = le_enc 4 (ws ! i)"
  using assms
proof (induction ws arbitrary: i)
  case (Cons w ws)
  then show ?case by (cases i) simp_all
qed simp

lemma enc_words_put:
  assumes "i < length ws"
  shows "splice_at (enc_words ws) (4 * i) (le_enc 4 x) = enc_words (ws[i := x])"
  using assms
proof (induction ws arbitrary: i)
  case (Cons w ws)
  then show ?case by (cases i) (simp_all add: splice_at_def add.commute)
qed simp

text \<open>Any block of a multiple of four bytes is made of words.\<close>

lemma enc_words_ex:
  assumes "length b = 4 * n"
  shows "\<exists>ws. b = enc_words ws \<and> length ws = n"
  using assms
proof (induction n arbitrary: b)
  case (Suc n)
  then obtain ws where ws: "drop 4 b = enc_words ws" "length ws = n" by (metis length_drop add_diff_cancel_left' mult_Suc_right)
  have "le_enc 4 (le_dec (take 4 b) :: UINT32) = take 4 b" using le_enc_dec [where 'a = 32, of "take 4 b"] Suc.prems by simp
  then show ?case using ws Suc.prems by (intro exI [of _ "le_dec (take 4 b) # ws"]) (metis append_take_drop_id enc_words_Cons length_Cons)
qed simp

lemma enc_words_zeros: "enc_words (replicate n 0) = replicate (4 * n) 0"
proof (induction n)
  case (Suc n)
  have "replicate (4 * Suc n) (0 :: UINT8) = replicate 4 0 @ replicate (4 * n) 0" unfolding replicate_add [symmetric] by simp
  moreover have "le_enc 4 (0 :: UINT32) = replicate 4 0" by (simp add: eval_nat_numeral)
  ultimately show ?case using Suc.IH by simp
qed simp

section \<open>A device addressed by the index of its elements\<close>

datatype word_op = Put UINT32 UINT32 | Fetch UINT32

text \<open>
  What an array of words answers: the status and, for a \<open>Fetch\<close>, the element; an index outside has the status
  \<open>AM_RET_KEY_OUT_OF_RANGE\<close> and changes nothing.
\<close>

fun array_op :: "word_op \<Rightarrow> UINT32 list \<Rightarrow> (AM_RETURN \<times> UINT32) \<times> UINT32 list" where
  "array_op (Put i x) ws = (if unat i < length ws then ((AM_RET_GOOD, 0), ws[unat i := x]) else ((AM_RET_KEY_OUT_OF_RANGE, 0), ws))"
| "array_op (Fetch i) ws = (if unat i < length ws then ((AM_RET_GOOD, ws ! unat i), ws) else ((AM_RET_KEY_OUT_OF_RANGE, 0), ws))"

fun array_run :: "word_op list \<Rightarrow> UINT32 list \<Rightarrow> (AM_RETURN \<times> UINT32) list" where
  "array_run [] ws = []"
| "array_run (p # ps) ws = (case array_op p ws of (r, ws) \<Rightarrow> r # array_run ps ws)"

text \<open>The elements of \<open>w\<close> were written, and every element read was written before.\<close>

fun writes_first :: "nat set \<Rightarrow> word_op list \<Rightarrow> bool" where
  "writes_first w [] = True"
| "writes_first w (Put i x # ps) = writes_first (insert (unat i) w) ps"
| "writes_first w (Fetch i # ps) = (unat i \<in> w \<and> writes_first w ps)"

lemma array_run_independent:
  assumes "writes_first w ps" "length ws = length ws'" "\<And>i. i \<in> w \<Longrightarrow> i < length ws \<Longrightarrow> ws ! i = ws' ! i"
  shows "array_run ps ws = array_run ps ws'"
  using assms
proof (induction ps arbitrary: w ws ws')
  case (Cons p ps)
  show ?case
  proof (cases p)
    case (Put i x)
    show ?thesis
    proof (cases "unat i < length ws")
      case True
      have "array_run ps (ws[unat i := x]) = array_run ps (ws'[unat i := x])"
        by (rule Cons.IH [of "insert (unat i) w"]) (use Cons.prems Put True in \<open>auto simp: nth_list_update\<close>)
      then show ?thesis using Put True Cons.prems(2) by simp
    next
      case False
      have "array_run ps ws = array_run ps ws'"
        by (rule Cons.IH [of "insert (unat i) w"]) (use Cons.prems Put False in auto)
      then show ?thesis using Put False Cons.prems(2) by simp
    qed
  next
    case (Fetch i)
    have "array_run ps ws = array_run ps ws'" by (rule Cons.IH [of w]) (use Cons.prems Fetch in auto)
    then show ?thesis using Fetch Cons.prems by auto
  qed
qed simp

text \<open>A device that holds the words \<open>ws\<close>, element \<open>i\<close> being found by the key \<open>key i\<close>.\<close>

definition holds_at :: "(UINT32 \<Rightarrow> bytes) \<Rightarrow> ('f \<Rightarrow> bytes) \<Rightarrow> ('f \<Rightarrow> bytes \<Rightarrow> nat option) \<Rightarrow> 'f \<Rightarrow> UINT32 list \<Rightarrow> bool" where
  "holds_at key store cell f ws \<longleftrightarrow> store f = enc_words ws \<and>
     (\<forall>i. unat i < length ws \<longrightarrow> cell f (key i) = Some (4 * unat i))"

abbreviation holds_words :: "('f \<Rightarrow> bytes) \<Rightarrow> ('f \<Rightarrow> bytes \<Rightarrow> nat option) \<Rightarrow> 'f \<Rightarrow> UINT32 list \<Rightarrow> bool" where
  "holds_words \<equiv> holds_at (le_enc 4)"

context aligned_device
begin

lemma put_word:
  assumes "holds_at key store cell f ws" "unat i < length ws"
  shows "\<exists>f'. write_al f (Some (key i)) (Some (le_enc 4 (x :: UINT32))) = Inr (AM_RET_GOOD, f', Some (le_enc 4 x)) \<and>
    holds_at key store cell f' (ws[unat i := x]) \<and> cell f' = cell f"
proof -
  have c: "cell f (key i) = Some (4 * unat i)" using assms by (simp add: holds_at_def)
  obtain f' where f': "write_al f (Some (key i)) (Some (le_enc 4 x)) = Inr (AM_RET_GOOD, f', Some (le_enc 4 x))"
    "store f' = splice_at (store f) (4 * unat i) (take 4 (le_enc 4 x))" "cell f' = cell f"
    using write_ok [OF c, of "le_enc 4 x"] by auto
  have "store f' = enc_words (ws[unat i := x])"
    using f'(2) assms enc_words_put [OF assms(2), of x] by (simp add: holds_at_def)
  then show ?thesis using f'(1,3) assms(1) by (intro exI [of _ f']) (simp add: holds_at_def)
qed

lemma fetch_word:
  assumes "holds_at key store cell f ws" "unat i < length ws"
  shows "\<exists>f'. read_al f (Some (key i)) (Some (le_enc 4 (x :: UINT32))) = Inr (AM_RET_GOOD, f', Some (le_enc 4 (ws ! unat i))) \<and>
    holds_at key store cell f' ws \<and> cell f' = cell f"
proof -
  have c: "cell f (key i) = Some (4 * unat i)" using assms by (simp add: holds_at_def)
  obtain f' where "read_al f (Some (key i)) (Some (le_enc 4 x)) =
      Inr (AM_RET_GOOD, f', Some (take 4 (drop (4 * unat i) (store f)) @ drop 4 (le_enc 4 x)))" "store f' = store f" "cell f' = cell f"
    using read_ok [OF c, of "le_enc 4 x"] by auto
  then show ?thesis using assms enc_words_get [OF assms(2)] by (intro exI [of _ f']) (simp add: holds_at_def)
qed

end

section \<open>The object as a device\<close>

text \<open>An object in use: what the library depends on, the object and the state of the library.\<close>

type_synonym ('a, 'w) use = "'w libenv \<times> 'a cappmem_scheme \<times> 'w lib"

fun use_read :: "('a, 'w) use \<Rightarrow> buf \<Rightarrow> buf \<Rightarrow> (AM_RETURN \<times> ('a, 'w) use \<times> buf) res" where
  "use_read (v, ob, s) p1 p2 =
     bindr (the_buf p1) (\<lambda>k. bindr (the_buf p2) (\<lambda>d.
     bindr (obj_read_al v k d ob s) (\<lambda>(st, b, ob, s). Inr (st, (v, ob, s), Some b))))"

fun use_write :: "('a, 'w) use \<Rightarrow> buf \<Rightarrow> buf \<Rightarrow> (AM_RETURN \<times> ('a, 'w) use \<times> buf) res" where
  "use_write (v, ob, s) p1 p2 =
     bindr (the_buf p1) (\<lambda>k. bindr (the_buf p2) (\<lambda>d.
     bindr (obj_write_al v k d ob s) (\<lambda>(st, ob, s). Inr (st, (v, ob, s), p2))))"

text \<open>The object has the two operators.\<close>

definition uses :: "fn_ptr \<Rightarrow> fn_ptr \<Rightarrow> 'a cappmem_scheme \<Rightarrow> bool" where
  "uses rdf wrf ob \<longleftrightarrow> (\<exists>c. obj_calls ob = Inr c \<and> fc_read_al c = Some rdf \<and> fc_write_al c = Some wrf)"

lemma uses_cong: "fn_calls f = fn_calls (cm_amFunc ob) \<Longrightarrow> uses rdf wrf (ob\<lparr>cm_amFunc := f\<rparr>) = uses rdf wrf ob"
  by (auto simp: uses_def obj_calls_def res_simps split: option.splits)

subsection \<open>In the process\<close>

fun local_store :: "(mem_func \<Rightarrow> bytes) \<Rightarrow> ('a, 'w) use \<Rightarrow> bytes" where
  "local_store store (v, ob, s) = store (cm_amFunc ob)"

fun local_cell :: "fn_ptr \<Rightarrow> fn_ptr \<Rightarrow> (mem_func \<Rightarrow> bytes \<Rightarrow> nat option) \<Rightarrow> ('a, 'w) use \<Rightarrow> bytes \<Rightarrow> nat option" where
  "local_cell rdf wrf cell (v, ob, s) k = (if uses rdf wrf ob then cell (cm_amFunc ob) k else None)"

text \<open>A device whose operators are client calls as they are.\<close>

definition plain_fn :: "fn_ptr \<Rightarrow> bool" where
  "plain_fn fp \<longleftrightarrow> fp \<notin> {Fn_pack_write32_align, Fn_pack_write_align, Fn_pack_read32_align, Fn_pack_read_align,
     Fn_kd_write32_align, Fn_kd_read32_align, Fn_kd_fixed_write_packet, Fn_kd_fixed_read_packet}"

lemma call_plain:
  assumes "plain_fn fp"
  shows "call_write_al v s e (Some fp) f key data = bindr (call_align fp (lv_al v) f (Some key) (Some data)) (\<lambda>(st, f, _). Inr (st, f, s))"
    "call_read_al v s e (Some fp) f key data =
      bindr (call_align fp (lv_al v) f (Some key) (Some data)) (\<lambda>(st, f, b). bindr (the_buf b) (\<lambda>b. Inr (st, f, b, s)))"
  using assms by (cases fp; simp add: plain_fn_def call_write_al_def call_read_al_def)+

locale local_device = packet_device +
  assumes plain: "plain_fn rdf" "plain_fn wrf"
    and rd_calls: "call_align rdf (\<lambda>_. True) f a b = Inr (st, f', c) \<Longrightarrow> fn_calls f' = fn_calls f"
    and wr_calls: "call_align wrf (\<lambda>_. True) f a b = Inr (st, f', c) \<Longrightarrow> fn_calls f' = fn_calls f"
begin

lemma local_read_ok:
  assumes "local_cell rdf wrf cell u k = Some q" "4 \<le> length d"
  shows "\<exists>u'. use_read u (Some k) (Some d) = Inr (AM_RET_GOOD, u', Some (take 4 (drop q (local_store store u)) @ drop 4 d)) \<and>
    local_store store u' = local_store store u \<and> local_cell rdf wrf cell u' = local_cell rdf wrf cell u"
proof -
  obtain v ob s where u: "u = (v, ob, s)" by (cases u)
  have o: "uses rdf wrf ob" "cell (cm_amFunc ob) k = Some q" using assms(1) by (auto simp: u split: if_splits)
  then obtain c where c: "obj_calls ob = Inr c" "fc_read_al c = Some rdf" by (auto simp: uses_def)
  obtain f' where f': "call_align rdf (\<lambda>_. True) (cm_amFunc ob) (Some k) (Some d) =
      Inr (AM_RET_GOOD, f', Some (take 4 (drop q (store (cm_amFunc ob))) @ drop 4 d))" "store f' = store (cm_amFunc ob)" "cell f' = cell (cm_amFunc ob)"
    using read_ok [OF o(2) assms(2)] by blast
  have "use_read u (Some k) (Some d) =
      Inr (AM_RET_GOOD, (v, ob\<lparr>cm_amFunc := f'\<rparr>, s), Some (take 4 (drop q (local_store store u)) @ drop 4 d))"
    using c f'(1) rd_al [of "lv_al v"] by (simp add: u obj_read_al_def call_plain [OF plain(1)])
  moreover have "local_cell rdf wrf cell (v, ob\<lparr>cm_amFunc := f'\<rparr>, s) = local_cell rdf wrf cell u"
    using uses_cong [OF rd_calls [OF f'(1)], of rdf wrf] f'(3) by (intro ext) (simp add: u)
  ultimately show ?thesis using f'(2) by (intro exI [of _ "(v, ob\<lparr>cm_amFunc := f'\<rparr>, s)"]) (simp add: u)
qed

lemma local_write_ok:
  assumes "local_cell rdf wrf cell u k = Some q" "4 \<le> length d"
  shows "\<exists>u'. use_write u (Some k) (Some d) = Inr (AM_RET_GOOD, u', Some d) \<and>
    local_store store u' = splice_at (local_store store u) q (take 4 d) \<and> local_cell rdf wrf cell u' = local_cell rdf wrf cell u"
proof -
  obtain v ob s where u: "u = (v, ob, s)" by (cases u)
  have o: "uses rdf wrf ob" "cell (cm_amFunc ob) k = Some q" using assms(1) by (auto simp: u split: if_splits)
  then obtain c where c: "obj_calls ob = Inr c" "fc_write_al c = Some wrf" by (auto simp: uses_def)
  obtain f' where f': "call_align wrf (\<lambda>_. True) (cm_amFunc ob) (Some k) (Some d) = Inr (AM_RET_GOOD, f', Some d)"
    "store f' = splice_at (store (cm_amFunc ob)) q (take 4 d)" "cell f' = cell (cm_amFunc ob)"
    using write_ok [OF o(2) assms(2)] by blast
  have "use_write u (Some k) (Some d) = Inr (AM_RET_GOOD, (v, ob\<lparr>cm_amFunc := f'\<rparr>, s), Some d)"
    using c f'(1) wr_al [of "lv_al v"] by (simp add: u obj_write_al_def call_plain [OF plain(2)])
  moreover have "local_cell rdf wrf cell (v, ob\<lparr>cm_amFunc := f'\<rparr>, s) = local_cell rdf wrf cell u"
    using uses_cong [OF wr_calls [OF f'(1)], of rdf wrf] f'(3) by (intro ext) (simp add: u)
  ultimately show ?thesis using f'(2) by (intro exI [of _ "(v, ob\<lparr>cm_amFunc := f'\<rparr>, s)"]) (simp add: u)
qed

end

sublocale local_device \<subseteq> inproc: aligned_device use_read use_write "local_store store" "local_cell rdf wrf cell"
proof
  fix u k p assume "local_cell rdf wrf cell u k = Some p"
  then show "p + 4 \<le> length (local_store store u)"
    by (cases u) (auto split: if_splits intro: cell_bound)
qed (rule local_read_ok local_write_ok; assumption)+

interpretation flat_local: local_device Fn_flat_read32_align Fn_flat_write32_align flat_store flat_cell
  by unfold_locales (auto simp: plain_fn_def am_flat_read32_align_def am_flat_write32_align_def res_simps Let_def split: if_splits)

interpretation stata_local: local_device Fn_stata_read_idx32 Fn_stata_write_idx32 stata_store stata_cell
  by unfold_locales (auto simp: plain_fn_def am_stata_read_idx32_def am_stata_write_idx32_def res_simps Let_def split: if_splits)

section \<open>Making an object\<close>

lemma find_cap_ok:
  assumes "length pre = sizeof_MEM_CAP * i" "\<forall>c\<in>set cs. wf_cap c" "length cs \<le> k"
    and "find (\<lambda>c. cap_amType c = ty) cs = Some c"
  shows "find_cap (pre @ enc_caps cs @ rest) ty k i = Inr (Some (enc_mem_cap c))"
  using assms
proof (induction cs arbitrary: pre i k)
  case (Cons a cs)
  obtain k' where k: "k = Suc k'" using Cons.prems(3) by (cases k) auto
  have l: "length (enc_mem_cap a) = sizeof_MEM_CAP" using Cons.prems(2) length_enc_mem_cap by simp
  have e: "enc_caps (a # cs) = enc_mem_cap a @ enc_caps cs" by (simp add: enc_caps_def)
  have ty: "rd32 (pre @ enc_caps (a # cs) @ rest) (sizeof_MEM_CAP * i) = Inr (cap_amType a)"
    unfolding e Cons.prems(1) [symmetric] by (simp add: rd_enc_simps enc_mem_cap_def)
  show ?case
  proof (cases "cap_amType a = ty")
    case True
    then have "c = a" using Cons.prems(4) by simp
    moreover have "getb (pre @ enc_caps (a # cs) @ rest) (sizeof_MEM_CAP * i) sizeof_MEM_CAP = Inr (enc_mem_cap a)"
      unfolding e Cons.prems(1) [symmetric] using l by (simp add: getb_def)
    ultimately show ?thesis using ty True by (simp add: k)
  next
    case False
    have "find_cap ((pre @ enc_mem_cap a) @ enc_caps cs @ rest) ty k' (Suc i) = Inr (Some (enc_mem_cap c))"
      by (rule Cons.IH) (use Cons.prems False k l in simp_all)
    then show ?thesis using ty False by (simp add: k e)
  qed
qed simp

text \<open>What a derived class makes of the capability found, for any entry.\<close>

lemma init_device_found:
  assumes "find_cap caps ty (unat (cm_cap_count ob)) 0 = Inr (Some (enc_mem_cap c))" "wf_cap c" "lv_new v 1" "lv_new v 2"
  shows "\<exists>ob1. init_device v cc ty caps ob s =
      (case cc ob1 c of
         (st, cap) \<Rightarrow>
           if st = AM_RET_GOOD then
             bindr (call_create_function v (en_create_function (cm_amEntry ob)) s cap ((cm_amFunc ob)\<lparr>fn_calls := Some (lv_calls v)\<rparr>)) (\<lambda>(st, f, s).
             if st = AM_RET_GOOD then
               bindr (call_open v s (Option.bind (fn_calls f) fc_open) f) (\<lambda>(st, f, s).
               Inr (ob1\<lparr>cm_amFunc := f, cm_bReady := (if st = AM_RET_GOOD then True else cm_bReady ob)\<rparr>, s))
             else Inr (ob1\<lparr>cm_amFunc := f\<rparr>, s))
           else Inr (ob1, s)) \<and>
    ob1 = ob\<lparr>cm_pBaseCaps := Live (enc_mem_cap c), cm_cap_count := 1, cm_pCalls := Some (Live ()),
      cm_amFunc := (cm_amFunc ob)\<lparr>fn_calls := Some (lv_calls v)\<rparr>\<rparr>"
  using assms rd_enc_mem_cap [OF assms(2), of "[]"]
  by (auto simp: init_device_def Let_def intro!: bindr_cong split: prod.split)

definition virtd_entry :: "amlib_entry \<Rightarrow> amlib_entry" where
  "virtd_entry e = e\<lparr>en_am_name := Some (c_bytes ''virtd''), en_create_function := Some En_virtd_create_function,
     en_get_capabilities := Some En_virtd_get_capabilities, en_get_cap_count := Some En_virtd_get_capabilites_count,
     en_close := Some En_virtd_entry_close, en_get_cap_details := Some En_virt_get_cap_details\<rparr>"

lemma virtd_count: "am_virtd_get_capabilites_count = 5"
  by (simp add: am_virtd_get_capabilites_count_def virtd_base_cap_def mk_cap_def)

lemma length_caps_from: "length (caps_from n i reg) \<le> n"
  by (induction n arbitrary: i) (auto intro: le_SucI split: option.split)

lemma initBase_virtd:
  assumes "reg_ok (vd_reg (lb_virtd s))" "lv_new v 0" "ty \<noteq> AM_TYPE_BASE_APPMEM"
  shows "\<exists>rest. initBase v cc None ty ob s =
    init_device v cc ty (enc_caps (caps_of 5 (vd_reg (lb_virtd s))) @ rest)
      (ob\<lparr>cm_amEntry := virtd_entry (cm_amEntry ob), cm_cap_count := 5\<rparr>) s"
proof -
  let ?cs = "caps_of 5 (vd_reg (lb_virtd s))" and ?b = "fresh (lv_junk v) 840"
  have "length ?cs \<le> 5" using length_caps_from [of 5 0 "vd_reg (lb_virtd s)"] by simp
  then have "copy_caps (min (unat (5 :: UINT32)) (unat (cap_subType virtd_base_cap))) 0 (vd_reg (lb_virtd s)) ?b 0 =
      Inr (enc_caps ?cs @ drop (168 * length ?cs) ?b)"
    using copy_caps_request [OF assms(1), of 5 ?b] by (simp add: fresh_def)
  then have "am_virtd_get_capabilities (lb_virtd s) (Some ?b) 5 = Inr (AM_RET_GOOD, Some (enc_caps ?cs @ drop (168 * length ?cs) ?b))"
    by (simp add: am_virtd_get_capabilities_def)
  then show ?thesis
    using assms(2,3)
    by (intro exI [of _ "drop (168 * length ?cs) ?b"])
      (simp add: initBase_def am_get_entry_point_def call_get_cap_count_def call_get_capabilities_def virtd_count
        virtd_entry_def Let_def)
qed

text \<open>The entry lists the capability as the first of its type.\<close>

definition lists_cap :: "registry \<Rightarrow> mem_cap \<Rightarrow> bool" where
  "lists_cap reg c \<longleftrightarrow> reg_ok reg \<and> find (\<lambda>c'. cap_amType c' = cap_amType c) (caps_of 5 reg) = Some c"

lemma lists_cap_wf: "lists_cap reg c \<Longrightarrow> wf_cap c"
  using caps_from_wf [of reg 0 5] by (auto simp: lists_cap_def find_Some_iff)

text \<open>A derived class over the in-process device: what is left is the creation and the open, which always succeeds.\<close>

lemma new_virtd:
  assumes "lists_cap (vd_reg (lb_virtd s)) c" "cap_amType c \<noteq> AM_TYPE_BASE_APPMEM" "\<And>i. lv_new v i"
    and "obj = ob\<lparr>cm_amEntry := virtd_entry (cm_amEntry ob), cm_pBaseCaps := Live (enc_mem_cap c), cm_cap_count := 1,
      cm_pCalls := Some (Live ()), cm_amFunc := (cm_amFunc ob)\<lparr>fn_calls := Some (lv_calls v)\<rparr>\<rparr>"
    and "cc obj c = (AM_RET_GOOD, cap)"
    and "am_virtd_create_function (lv_al v) (lv_junk v) (lb_virtd s) (Some cap) (Some (cm_amFunc obj)) = Inr (AM_RET_GOOD, vd, f)"
    and "fn_calls f = Some fc" "fc_open fc = Some Fn_virtd_open"
  shows "initBase v cc None (cap_amType c) ob s = Inr (obj\<lparr>cm_amFunc := f, cm_bReady := True\<rparr>, s\<lparr>lb_virtd := vd\<rparr>)"
proof -
  let ?cs = "caps_of 5 (vd_reg (lb_virtd s))"
  let ?ob = "ob\<lparr>cm_amEntry := virtd_entry (cm_amEntry ob), cm_cap_count := 5\<rparr>"
  have reg: "reg_ok (vd_reg (lb_virtd s))" using assms(1) by (simp add: lists_cap_def)
  obtain rest where i: "initBase v cc None (cap_amType c) ob s = init_device v cc (cap_amType c) (enc_caps ?cs @ rest) ?ob s"
    using initBase_virtd [where cc = cc and ob = ob, OF reg assms(3,2)] by blast
  have "find_cap ([] @ enc_caps ?cs @ rest) (cap_amType c) 5 0 = Inr (Some (enc_mem_cap c))"
    by (rule find_cap_ok) (use assms(1) caps_from_wf [OF reg, of 0 5] length_caps_from [of 5 0] in \<open>simp_all add: lists_cap_def\<close>)
  then have f: "find_cap (enc_caps ?cs @ rest) (cap_amType c) (unat (cm_cap_count ?ob)) 0 = Inr (Some (enc_mem_cap c))" by simp
  have o1: "?ob\<lparr>cm_pBaseCaps := Live (enc_mem_cap c), cm_cap_count := 1, cm_pCalls := Some (Live ()),
      cm_amFunc := (cm_amFunc ?ob)\<lparr>fn_calls := Some (lv_calls v)\<rparr>\<rparr> = obj" using assms(4) by simp
  have cf: "cm_amFunc obj = (cm_amFunc ob)\<lparr>fn_calls := Some (lv_calls v)\<rparr>" by (simp add: assms(4))
  have "init_device v cc (cap_amType c) (enc_caps ?cs @ rest) ?ob s = Inr (obj\<lparr>cm_amFunc := f, cm_bReady := True\<rparr>, s\<lparr>lb_virtd := vd\<rparr>)"
    using init_device_found [where cc = cc and s = s, OF f lists_cap_wf [OF assms(1)] assms(3) assms(3), unfolded o1] assms(5-8)
    by (simp add: call_create_function_def virtd_entry_def call_open_def am_virtd_open_def cf)
  then show ?thesis using i by simp
qed

section \<open>The array class\<close>

text \<open>A program that uses an array: each operation by the class's \<open>insert\<close> or \<open>get\<close>, with a local variable for the element.\<close>

fun stata_op :: "'w libenv \<Rightarrow> word_op \<Rightarrow> cappmem_stata \<Rightarrow> 'w lib \<Rightarrow> ((AM_RETURN \<times> UINT32) \<times> cappmem_stata \<times> 'w lib) res" where
  "stata_op v (Put i x) ob s = bindr (stata_insert v i (le_enc 4 x) ob s) (\<lambda>(st, ob, s). Inr ((st, 0), ob, s))"
| "stata_op v (Fetch i) ob s = bindr (stata_get v i (le_enc 4 (0 :: UINT32)) ob s) (\<lambda>(st, b, ob, s). Inr ((st, le_dec b), ob, s))"

fun stata_ops ::
  "'w libenv \<Rightarrow> word_op list \<Rightarrow> cappmem_stata \<Rightarrow> 'w lib \<Rightarrow> ((AM_RETURN \<times> UINT32) list \<times> cappmem_stata \<times> 'w lib) res" where
  "stata_ops v [] ob s = Inr ([], ob, s)"
| "stata_ops v (p # ps) ob s =
     bindr (stata_op v p ob s) (\<lambda>(r, ob, s).
     bindr (stata_ops v ps ob s) (\<lambda>(rs, ob, s). Inr (r # rs, ob, s)))"

text \<open>Both operations change nothing of the object but \<open>amFunc\<close>.\<close>

lemma use_write_Inr:
  assumes "use_write (v, ob, s) (Some k) (Some d) = Inr (st, u', b)"
  shows "\<exists>f s'. obj_write_al v k d ob s = Inr (st, ob\<lparr>cm_amFunc := f\<rparr>, s') \<and> u' = (v, ob\<lparr>cm_amFunc := f\<rparr>, s')"
  using assms by (auto simp: res_simps obj_write_al_def)

lemma use_read_Inr:
  assumes "use_read (v, ob, s) (Some k) (Some d) = Inr (st, u', Some b)"
  shows "\<exists>f s'. obj_read_al v k d ob s = Inr (st, b, ob\<lparr>cm_amFunc := f\<rparr>, s') \<and> u' = (v, ob\<lparr>cm_amFunc := f\<rparr>, s')"
  using assms by (auto simp: res_simps obj_read_al_def)

lemma stata_op_ok:
  assumes dev: "aligned_device use_read use_write store cell"
    and ws: "holds_words store cell (v, ob, s) ws" "unat (ca_elements ob) = length ws"
  shows "\<exists>ob' s'. stata_op v p ob s = Inr (fst (array_op p ws), ob', s') \<and>
    holds_words store cell (v, ob', s') (snd (array_op p ws)) \<and> unat (ca_elements ob') = length (snd (array_op p ws))"
proof (cases p)
  case (Put i x)
  show ?thesis
  proof (cases "unat i < length ws")
    case True
    obtain u' where u': "use_write (v, ob, s) (Some (le_enc 4 i)) (Some (le_enc 4 x)) = Inr (AM_RET_GOOD, u', Some (le_enc 4 x))"
      "holds_words store cell u' (ws[unat i := x])"
      using aligned_device.put_word [OF dev ws(1) True] by blast
    obtain f s' where "obj_write_al v (le_enc 4 i) (le_enc 4 x) ob s = Inr (AM_RET_GOOD, ob\<lparr>cm_amFunc := f\<rparr>, s')" "u' = (v, ob\<lparr>cm_amFunc := f\<rparr>, s')"
      using use_write_Inr [OF u'(1)] by blast
    then show ?thesis
      using True ws(2) u'(2) by (intro exI [of _ "ob\<lparr>cm_amFunc := f\<rparr>"] exI [of _ s']) (simp add: Put stata_insert_def word_less_nat_alt)
  qed (use ws in \<open>simp add: Put stata_insert_def word_less_nat_alt\<close>)
next
  case (Fetch i)
  show ?thesis
  proof (cases "unat i < length ws")
    case True
    obtain u' where u': "use_read (v, ob, s) (Some (le_enc 4 i)) (Some (le_enc 4 (0 :: UINT32))) =
        Inr (AM_RET_GOOD, u', Some (le_enc 4 (ws ! unat i)))" "holds_words store cell u' ws"
      using aligned_device.fetch_word [OF dev ws(1) True] by blast
    obtain f s' where "obj_read_al v (le_enc 4 i) (le_enc 4 (0 :: UINT32)) ob s = Inr (AM_RET_GOOD, le_enc 4 (ws ! unat i), ob\<lparr>cm_amFunc := f\<rparr>, s')"
      "u' = (v, ob\<lparr>cm_amFunc := f\<rparr>, s')"
      using use_read_Inr [OF u'(1)] by blast
    then show ?thesis
      using True ws(2) u'(2) by (intro exI [of _ "ob\<lparr>cm_amFunc := f\<rparr>"] exI [of _ s']) (simp add: Fetch stata_get_def word_less_nat_alt)
  next
    case False
    then show ?thesis using ws le_dec_enc [of 4 "0 :: UINT32"] by (simp add: Fetch stata_get_def word_less_nat_alt)
  qed
qed

lemma stata_ops_ok:
  assumes "aligned_device use_read use_write store cell"
    and "holds_words store cell (v, ob, s) ws" "unat (ca_elements ob) = length ws"
  shows "\<exists>ob' s'. stata_ops v ps ob s = Inr (array_run ps ws, ob', s')"
  using assms(2,3)
proof (induction ps arbitrary: ob s ws)
  case (Cons p ps)
  obtain ob1 s1 where o1: "stata_op v p ob s = Inr (fst (array_op p ws), ob1, s1)"
    "holds_words store cell (v, ob1, s1) (snd (array_op p ws))" "unat (ca_elements ob1) = length (snd (array_op p ws))"
    using stata_op_ok [OF assms(1) Cons.prems] by blast
  obtain ob' s' where "stata_ops v ps ob1 s1 = Inr (array_run ps (snd (array_op p ws)), ob', s')"
    using Cons.IH [OF o1(2,3)] by blast
  then show ?case using o1(1) by (simp add: case_prod_beta)
qed simp

text \<open>An array of \<open>n\<close> elements made with the capability \<open>stata_caps\<close>: the one asked for.\<close>

definition stata_cap :: "UINT32 \<Rightarrow> UINT32 \<Rightarrow> mem_cap" where
  "stata_cap n indexSize = stata_caps\<lparr>cap_typeSpecific := (cap_typeSpecific stata_caps)[TS_STAT_ARRAY_IDX_BYTE_SIZE := indexSize,
     TS_STAT_ARRAY_VAL_DATA_TYPES := TS_STAT_DT_FIXED_WIDTH, TS_STAT_ARRAY_VAL_MAX_SIZE := 4], cap_maxSize := ucast n\<rparr>"

lemma stata_cap_simps [simp]:
  "cap_amType stata_caps = AM_TYPE_STATIC_ARRAY" "cap_amType (stata_cap n is) = AM_TYPE_STATIC_ARRAY"
  "cap_typeSpecific stata_caps ! 0 = 15" "cap_typeSpecific (stata_cap n is) ! 0 = is" "cap_typeSpecific (stata_cap n is) ! 2 = 4"
  "cap_maxSize (stata_cap n is) = ucast n" "wf_cap (stata_cap n is)"
  by (simp_all add: stata_cap_def stata_caps_def mk_cap_def ts_init_def wf_cap_def)

lemma stata_configured:
  assumes "15 AND ca_index_size ob \<noteq> 0"
  shows "CAppMemStaticArray_configCaps ob stata_caps = (AM_RET_GOOD, stata_cap (ca_elements ob) (ca_index_size ob))"
  using assms by (simp add: CAppMemStaticArray_configCaps_def stata_cap_def)

lemma stata_bytes: "unat (ucast (4 :: UINT32) * ucast (n :: UINT32) :: UINT64) = 4 * unat n"
proof -
  have "unat n < 2 ^ LENGTH(32)" by (rule unsigned_less)
  moreover from this have "unat (ucast n :: UINT64) = unat n" by (simp add: unsigned_ucast_eq take_bit_nat_eq_self)
  ultimately show ?thesis by (simp add: unat_word_ariths)
qed

lemma stata_cell_index:
  assumes "length (stata_store f) = 4 * n" "unat (i :: UINT32) < n"
  shows "stata_cell f (le_enc 4 i) = Some (4 * unat i)"
proof -
  have "4 * unat i + 4 \<le> 4 * n" using assms(2) by simp
  then show ?thesis using assms(1) by (simp add: stata_cell_def Let_def)
qed

text \<open>The array is made and ready in the process, with zeros in it.\<close>

lemma new_stata_virtd:
  assumes "lists_cap (vd_reg (lb_virtd s)) stata_caps" "15 AND indexSize \<noteq> 0" "\<And>i. lv_new v i" "lv_al v 0" "lv_al v 1"
    and "wf_cr (fn_crResp (cm_amFunc ob))"
  shows "\<exists>ob' s'. CAppMemStaticArray v None n dataSize indexSize ob s = Inr (ob', s') \<and> ready ob' \<and> ca_elements ob' = n \<and>
    holds_words (local_store stata_store) (local_cell Fn_stata_read_idx32 Fn_stata_write_idx32 stata_cell) (v, ob', s')
      (replicate (unat n) 0)"
proof -
  define ob0 where "ob0 = (CAppMem_default ob)\<lparr>ca_index_size := indexSize, ca_data_size := dataSize, ca_elements := n,
     ca_mem_size := dataSize * n\<rparr>"
  define ob1 where "ob1 = ob0\<lparr>cm_amEntry := virtd_entry (cm_amEntry ob0), cm_pBaseCaps := Live (enc_mem_cap stata_caps), cm_cap_count := 1,
      cm_pCalls := Some (Live ()), cm_amFunc := (cm_amFunc ob0)\<lparr>fn_calls := Some (lv_calls v)\<rparr>\<rparr>"
  have F: "fn_calls (cm_amFunc ob1) = Some (lv_calls v)" "wf_cr (fn_crResp (cm_amFunc ob1))"
    using assms(6) by (simp_all add: ob1_def ob0_def CAppMem_default_def)
  let ?cap = "stata_cap n indexSize" and ?vd = "(lb_virtd s)\<lparr>vd_minor := vd_minor (lb_virtd s) + 1\<rparr>"
  let ?F = "(cm_amFunc ob1)\<lparr>fn_amCap := ?cap, fn_pVdF := Live FdRaw\<rparr>"
  have cc: "CAppMemStaticArray_configCaps ob1 stata_caps = (AM_RET_GOOD, ?cap)"
    using stata_configured [of ob1] assms(2) by (simp add: ob1_def ob0_def)
  obtain f where f: "virtd_stata (\<lambda>i. lv_al v (Suc i)) (vd_minor (lb_virtd s)) ?cap ?F = Inr (AM_RET_GOOD, f)"
    "stata_store f = replicate (4 * unat n) 0" "fn_calls f = Some (stata_calls (lv_calls v))"
    using virtd_stata_ok [of "\<lambda>i. lv_al v (Suc i)" ?F "vd_minor (lb_virtd s)" ?cap] assms(5) F stata_bytes [of n] by auto
  have create: "am_virtd_create_function (lv_al v) (lv_junk v) (lb_virtd s) (Some ?cap) (Some (cm_amFunc ob1)) = Inr (AM_RET_GOOD, ?vd, f)"
    using assms(4) f(1) by (simp add: am_virtd_create_function_def Let_def word_less_nat_alt)
  have op: "fc_open (stata_calls (lv_calls v)) = Some Fn_virtd_open" by (simp add: stata_calls_def)
  let ?ob = "ob1\<lparr>cm_amFunc := f, cm_bReady := True\<rparr>"
  have new: "CAppMemStaticArray v None n dataSize indexSize ob s = Inr (?ob, s\<lparr>lb_virtd := ?vd\<rparr>)"
    unfolding CAppMemStaticArray_def ob0_def [symmetric]
    using new_virtd [where obj = ob1 and v = v and cc = CAppMemStaticArray_configCaps, OF assms(1) _ assms(3) ob1_def cc create f(3) op] by simp
  have uses: "uses Fn_stata_read_idx32 Fn_stata_write_idx32 ?ob"
    using f(3) by (simp add: uses_def obj_calls_def ob1_def stata_calls_def)
  have "holds_words (local_store stata_store) (local_cell Fn_stata_read_idx32 Fn_stata_write_idx32 stata_cell) (v, ?ob, s\<lparr>lb_virtd := ?vd\<rparr>)
      (replicate (unat n) 0)"
    using uses f(2) stata_cell_index [of f "unat n"] by (simp add: holds_at_def enc_words_zeros)
  then show ?thesis using new by (intro exI [of _ ?ob] exI [of _ "s\<lparr>lb_virtd := ?vd\<rparr>"]) (simp add: ready_def ob1_def ob0_def)
qed

end
