(* ===== verification/AM_Cpp_Classes.thy ===== *)
theory AM_Cpp_Classes
  imports AM_Cpp_Props AM_Assca_Props AM_Kd_Session
begin

text \<open>
  The objects of the derived classes over the in-process device: an array is an array, an associative array a map,
  flat memory holds the words written to it. What the base class leaves undone: its destructor and the
  sizes \<open>configCaps\<close> lets through.
\<close>

section \<open>Destruction\<close>

text \<open>An object that was made by a derived class, whose operations change its function object only, is destroyed once.\<close>

definition destructible :: "'a cappmem_scheme \<Rightarrow> bool" where
  "destructible ob \<longleftrightarrow> cm_pBaseCaps ob \<noteq> Dangling \<and> cm_pCalls ob \<noteq> None \<and> cm_pCalls ob \<noteq> Some Dangling"

lemma destroy_ok:
  assumes "destructible ob"
  shows "\<exists>ob'. CAppMem_destroy ob = Inr ob' \<and> cm_amFunc ob' = cm_amFunc ob"
  using assms by (cases "cm_pBaseCaps ob"; cases "cm_pCalls ob"; cases "the (cm_pCalls ob)")
    (auto simp: destructible_def CAppMem_destroy_def delete_ptr_def)

section \<open>An associative array in use\<close>

definition assca_obj :: "'w libenv \<times> cappmem_assca \<times> 'w lib \<Rightarrow> amlib_assca \<Rightarrow> bool" where
  "assca_obj u aa \<longleftrightarrow> (case u of (v, ob, s) \<Rightarrow> lv_al v = (\<lambda>_. True) \<and> cs_bFixedKey ob \<and> cs_bFixedData ob \<and> destructible ob \<and>
     uses Fn_assca_read32_align Fn_assca_write32_align ob \<and> assca_func (cm_amFunc ob) aa)"

fun cpp_get :: "'w libenv \<times> cappmem_assca \<times> 'w lib \<Rightarrow> bytes \<Rightarrow> bytes \<Rightarrow> (AM_RETURN \<times> bytes) res" where
  "cpp_get (v, ob, s) k d = bindr (assca_get v k d ob s) (\<lambda>(st, b, ob, s). Inr (st, b))"

fun cpp_put :: "'w libenv \<times> cappmem_assca \<times> 'w lib \<Rightarrow> bytes \<Rightarrow> bytes \<Rightarrow> (AM_RETURN \<times> 'w libenv \<times> cappmem_assca \<times> 'w lib) res" where
  "cpp_put (v, ob, s) k d = bindr (assca_insert v k d ob s) (\<lambda>(st, ob, s). Inr (st, v, ob, s))"

lemma assca_plain: "plain_fn Fn_assca_read32_align" "plain_fn Fn_assca_write32_align"
  by (simp_all add: plain_fn_def)

text \<open>The two members are the operators of the table behind the object.\<close>

lemma cpp_get_aa:
  assumes "assca_obj (v, ob, s) aa"
  shows "assca_get v k d ob s = bindr (amlib_assca_get_key_val aa k d) (\<lambda>(st, b). Inr (st, b, ob, s))"
proof -
  have o: "cs_bFixedKey ob" "cs_bFixedData ob" "assca_func (cm_amFunc ob) aa" using assms by (auto simp: assca_obj_def)
  obtain c where c: "obj_calls ob = Inr c" "fc_read_al c = Some Fn_assca_read32_align"
    using assms by (auto simp: assca_obj_def uses_def)
  show ?thesis using o c
    by (cases "amlib_assca_get_key_val aa k d") (auto simp: assca_get_def obj_read_al_def call_plain [OF assca_plain(1)] assca_func_read)
qed

lemma cpp_put_aa:
  assumes "assca_obj (v, ob, s) aa"
  shows "case amlib_assca_add_key_fixfix (\<lambda>_. True) aa k d of
      Inl e \<Rightarrow> assca_insert v k d ob s = Inl e
    | Inr (st, aa') \<Rightarrow> \<exists>ob'. assca_insert v k d ob s = Inr (st, ob', s) \<and> assca_obj (v, ob', s) aa'"
proof -
  let ?F = "cm_amFunc ob"
  have o: "cs_bFixedKey ob" "cs_bFixedData ob" "destructible ob" "lv_al v = (\<lambda>_. True)" using assms by (auto simp: assca_obj_def)
  obtain fd where fd: "fn_pVdF ?F = Live (FdAssca fd)" "as_data fd = Live aa" using assms by (auto simp: assca_obj_def assca_func_def)
  have us: "uses Fn_assca_read32_align Fn_assca_write32_align ob" using assms by (auto simp: assca_obj_def)
  then obtain c where c: "obj_calls ob = Inr c" "fc_write_al c = Some Fn_assca_write32_align" by (auto simp: uses_def)
  have ins: "assca_insert v k d ob s = bindr (amlib_assca_add_key_fixfix (\<lambda>_. True) aa k d) (\<lambda>(st, aa').
      Inr (st, ob\<lparr>cm_amFunc := set_assca ?F fd aa'\<rparr>, s))"
    using o c fd
    by (cases "amlib_assca_add_key_fixfix (\<lambda>_. True) aa k d")
      (auto simp: assca_insert_def obj_write_al_def call_plain [OF assca_plain(2)] am_assca_write32_align_def)
  have "assca_obj (v, ob\<lparr>cm_amFunc := set_assca ?F fd aa'\<rparr>, s) aa'" for aa'
    using o us by (simp add: assca_obj_def destructible_def uses_cong set_assca_def assca_func_def)
  then show ?thesis unfolding ins by (auto split: sum.split)
qed

text \<open>An object is a store of entries, as the array behind it is.\<close>

definition cpp_aa :: "'w libenv \<times> cappmem_assca \<times> 'w lib \<Rightarrow> amlib_assca" where
  "cpp_aa u = (case u of (v, ob, s) \<Rightarrow> case fn_pVdF (cm_amFunc ob) of Live (FdAssca fd) \<Rightarrow>
     (case as_data fd of Live aa \<Rightarrow> aa | _ \<Rightarrow> empty_assca 0 0) | _ \<Rightarrow> empty_assca 0 0)"

lemma cpp_aa_obj: "assca_obj u aa \<Longrightarrow> cpp_aa u = aa"
  by (auto simp: assca_obj_def cpp_aa_def assca_func_def split: prod.splits)

interpretation cpp_assca: keyed_store "\<lambda>u es. assca_obj u (cpp_aa u) \<and> assca_inv (cpp_aa u) es" "\<lambda>u. unat (aa_key_len (cpp_aa u))"
  "\<lambda>u. unat (aa_data_len (cpp_aa u))" cpp_get cpp_put "\<lambda>u. assca_room (cpp_aa u)"
proof
  fix u :: "'w libenv \<times> cappmem_assca \<times> 'w lib" and es and k d :: bytes
  obtain v ob s where u: "u = (v, ob, s)" by (cases u)
  let ?aa = "cpp_aa u"
  assume a: "assca_obj u ?aa \<and> assca_inv ?aa es" "unat (aa_key_len ?aa) \<le> length k" "unat (aa_data_len ?aa) \<le> length d"
  have g: "cpp_get u k d = amlib_assca_get_key_val ?aa k d"
    using cpp_get_aa [of v ob s ?aa k d] a(1) by (simp add: u) (cases "amlib_assca_get_key_val (cpp_aa (v, ob, s)) k d"; auto)
  show "take (unat (aa_key_len ?aa)) k \<notin> fst ` set es \<and> cpp_get u k d = Inr (AM_RET_KEY_NOT_FOUND, d) \<or>
    (\<exists>x. (take (unat (aa_key_len ?aa)) k, x) \<in> set es \<and> cpp_get u k d = Inr (AM_RET_GOOD, x @ drop (unat (aa_data_len ?aa)) d))"
    unfolding g by (rule assca.get_ok [OF conjunct2 [OF a(1)] a(2,3)])
  assume r: "assca_room ?aa"
  obtain aa' where aa': "amlib_assca_add_key_fixfix (\<lambda>_. True) ?aa k d = Inr (AM_RET_GOOD, aa')"
    "assca_inv aa' (es @ [(take (unat (aa_key_len ?aa)) k, take (unat (aa_data_len ?aa)) d)])"
    "aa_key_len aa' = aa_key_len ?aa" "aa_data_len aa' = aa_data_len ?aa"
    using assca_put_ok [OF conjunct2 [OF a(1)] r _ a(2,3), of "\<lambda>_. True"] by auto
  obtain ob' where ob': "assca_insert v k d ob s = Inr (AM_RET_GOOD, ob', s)" "assca_obj (v, ob', s) aa'"
    using cpp_put_aa [of v ob s ?aa k d] a(1) aa'(1) by (auto simp: u)
  then show "\<exists>u'. cpp_put u k d = Inr (AM_RET_GOOD, u') \<and> (assca_obj u' (cpp_aa u') \<and>
      assca_inv (cpp_aa u') (es @ [(take (unat (aa_key_len ?aa)) k, take (unat (aa_data_len ?aa)) d)])) \<and>
      unat (aa_key_len (cpp_aa u')) = unat (aa_key_len ?aa) \<and> unat (aa_data_len (cpp_aa u')) = unat (aa_data_len ?aa)"
    using aa' cpp_aa_obj [OF ob'(2)] by (intro exI [of _ "(v, ob', s)"]) (simp add: u)
qed

section \<open>Making one\<close>

definition assca_cap :: "UINT32 \<Rightarrow> UINT32 \<Rightarrow> mem_cap" where
  "assca_cap keySize dataSize = (if keySize \<le> 512 \<and> dataSize \<le> 0x100000
     then assca_caps\<lparr>cap_typeSpecific := (cap_typeSpecific assca_caps)[TS_ASSCA_KEY_MAX_SIZE := keySize,
       TS_ASSCA_DATA_MAX_SIZE := dataSize, TS_ASSCA_KEY_TYPE := 1, TS_ASSCA_DATA_TYPE := 1]\<rparr>
     else assca_caps)"

lemma assca_cap_simps [simp]:
  "cap_amType assca_caps = AM_TYPE_ASSOC_ARRAY" "cap_amType (assca_cap ks ds) = AM_TYPE_ASSOC_ARRAY"
  "cap_typeSpecific assca_caps ! 0 = 512" "cap_typeSpecific assca_caps ! Suc 0 = 0x100000"
  by (simp_all add: assca_cap_def assca_caps_def mk_cap_def ts_init_def)

lemma assca_cap_sizes:
  "cap_typeSpecific (assca_cap ks ds) ! 0 = (if ks \<le> 512 \<and> ds \<le> 0x100000 then ks else 512)"
  "cap_typeSpecific (assca_cap ks ds) ! Suc 0 = (if ks \<le> 512 \<and> ds \<le> 0x100000 then ds else 0x100000)"
  by (simp_all add: assca_cap_def assca_caps_def mk_cap_def ts_init_def)

lemma assca_configured:
  assumes "cs_bFixedKey ob" "cs_bFixedData ob"
  shows "CAppMemAsscArray_configCaps ob assca_caps = (AM_RET_GOOD, assca_cap (cs_key_size ob) (cs_data_size ob))"
  using assms by (simp add: CAppMemAsscArray_configCaps_def assca_cap_def Let_def)

lemma virtd_assca_ok:
  assumes "al 0" "wf_cr (fn_crResp f)" "fn_calls f = Some c" "cap_amType cap = AM_TYPE_ASSOC_ARRAY"
  shows "\<exists>f'. virtd_assca al m cap f = Inr (AM_RET_GOOD, f') \<and> fn_calls f' = Some (assca_calls c) \<and>
    assca_func f' (empty_assca (cap_typeSpecific cap ! TS_ASSCA_KEY_MAX_SIZE) (cap_typeSpecific cap ! TS_ASSCA_DATA_MAX_SIZE))"
proof -
  have "length (''virtd_assca'' @ fmt_d m) < 64" by (rule length_fmt_name) simp
  from set_name_fits [OF assms(2) this] obtain nm where
    "set_name (''virtd_assca'' @ fmt_d m) f = Inr (upd_cr (\<lambda>r. r\<lparr>cr_am_name := nm\<rparr>) f)" by blast
  then show ?thesis
    using assms by (simp add: virtd_assca_def am_virtd_init_assca_def Let_def amlib_assca_init_empty assca_func_def map_calls_def upd_cr_def)
qed

text \<open>The array is made, is ready and is empty; for sizes that are too large it is made with those of the capability.\<close>

lemma new_assca_virtd:
  assumes "lists_cap (vd_reg (lb_virtd s)) assca_caps" "\<And>i. lv_new v i" "lv_al v = (\<lambda>_. True)" "wf_cr (fn_crResp (cm_amFunc ob))"
  shows "\<exists>ob' s'. CAppMemAsscArray v None keySize dataSize True True dupe ob s = Inr (ob', s') \<and> ready ob' \<and>
    assca_obj (v, ob', s') (if keySize \<le> 512 \<and> dataSize \<le> 0x100000 then empty_assca keySize dataSize else empty_assca 512 0x100000)"
proof -
  define bare where "bare = (CAppMem_default ob)\<lparr>cs_key_size := keySize, cs_data_size := dataSize, cs_bFixedKey := True,
     cs_bFixedData := True, cs_bErrorOnDupe := dupe\<rparr>"
  define obj where "obj = bare\<lparr>cm_amEntry := virtd_entry (cm_amEntry bare), cm_pBaseCaps := Live (enc_mem_cap assca_caps), cm_cap_count := 1,
      cm_pCalls := Some (Live ()), cm_amFunc := (cm_amFunc bare)\<lparr>fn_calls := Some (lv_calls v)\<rparr>\<rparr>"
  have F: "fn_calls (cm_amFunc obj) = Some (lv_calls v)" "wf_cr (fn_crResp (cm_amFunc obj))" "cs_bFixedKey obj" "cs_bFixedData obj"
    "cs_key_size obj = keySize" "cs_data_size obj = dataSize" "cm_pCalls obj = Some (Live ())" "cm_pBaseCaps obj = Live (enc_mem_cap assca_caps)"
    using assms(4) by (simp_all add: obj_def bare_def CAppMem_default_def)
  let ?cap = "assca_cap keySize dataSize" and ?vd = "(lb_virtd s)\<lparr>vd_minor := vd_minor (lb_virtd s) + 1\<rparr>"
  let ?F = "(cm_amFunc obj)\<lparr>fn_amCap := ?cap, fn_pVdF := Live FdRaw\<rparr>"
  have cc: "CAppMemAsscArray_configCaps obj assca_caps = (AM_RET_GOOD, ?cap)"
    using assca_configured [OF F(3,4)] F(5,6) by simp
  obtain f where f: "virtd_assca (\<lambda>i. True) (vd_minor (lb_virtd s)) ?cap ?F = Inr (AM_RET_GOOD, f)" "fn_calls f = Some (assca_calls (lv_calls v))"
    "assca_func f (empty_assca (cap_typeSpecific ?cap ! 0) (cap_typeSpecific ?cap ! 1))"
    using virtd_assca_ok [of "\<lambda>i. True" ?F "lv_calls v" ?cap] F by auto
  have create: "am_virtd_create_function (lv_al v) (lv_junk v) (lb_virtd s) (Some ?cap) (Some (cm_amFunc obj)) = Inr (AM_RET_GOOD, ?vd, f)"
    using assms(3) f(1) by (simp add: am_virtd_create_function_def Let_def)
  have op: "fc_open (assca_calls (lv_calls v)) = Some Fn_virtd_open" by (simp add: assca_calls_def)
  let ?ob = "obj\<lparr>cm_amFunc := f, cm_bReady := True\<rparr>"
  have new: "CAppMemAsscArray v None keySize dataSize True True dupe ob s = Inr (?ob, s\<lparr>lb_virtd := ?vd\<rparr>)"
    unfolding CAppMemAsscArray_def bare_def [symmetric]
    using new_virtd [where obj = obj and v = v and cc = CAppMemAsscArray_configCaps, OF assms(1) _ assms(2) obj_def cc create f(2) op] by simp
  have "uses Fn_assca_read32_align Fn_assca_write32_align ?ob"
    using f(2) F(7) by (simp add: uses_def obj_calls_def assca_calls_def)
  then have "assca_obj (v, ?ob, s\<lparr>lb_virtd := ?vd\<rparr>) (empty_assca (cap_typeSpecific ?cap ! 0) (cap_typeSpecific ?cap ! 1))"
    using F f(3) assms(3) by (simp add: assca_obj_def destructible_def)
  moreover have "empty_assca (cap_typeSpecific ?cap ! 0) (cap_typeSpecific ?cap ! 1) =
      (if keySize \<le> 512 \<and> dataSize \<le> 0x100000 then empty_assca keySize dataSize else empty_assca 512 0x100000)"
    by (simp add: assca_cap_sizes)
  ultimately show ?thesis using new by (intro exI [of _ ?ob] exI [of _ "s\<lparr>lb_virtd := ?vd\<rparr>"]) (simp add: ready_def)
qed

section \<open>Flat memory in use\<close>

text \<open>A program that uses flat memory by the index of its words: \<open>write32\<close> at the offset, and \<open>operator[]\<close>.\<close>

fun flat_op :: "'w libenv \<Rightarrow> word_op \<Rightarrow> cappmem_flat \<Rightarrow> 'w lib \<Rightarrow> ((AM_RETURN \<times> UINT32) \<times> cappmem_flat \<times> 'w lib) res" where
  "flat_op v (Put i x) ob s = bindr (write32 v (i * 4) x ob s) (\<lambda>(st, ob, s). Inr ((st, 0), ob, s))"
| "flat_op v (Fetch i) ob s = bindr (flat_index v i ob s) (\<lambda>(x, ob, s). Inr ((AM_RET_GOOD, x), ob, s))"

fun flat_ops ::
  "'w libenv \<Rightarrow> word_op list \<Rightarrow> cappmem_flat \<Rightarrow> 'w lib \<Rightarrow> ((AM_RETURN \<times> UINT32) list \<times> cappmem_flat \<times> 'w lib) res" where
  "flat_ops v [] ob s = Inr ([], ob, s)"
| "flat_ops v (p # ps) ob s =
     bindr (flat_op v p ob s) (\<lambda>(r, ob, s).
     bindr (flat_ops v ps ob s) (\<lambda>(rs, ob, s). Inr (r # rs, ob, s)))"

text \<open>All indices are inside an array of \<open>n\<close> elements.\<close>

fun op_index :: "word_op \<Rightarrow> nat" where
  "op_index (Put i x) = unat i"
| "op_index (Fetch i) = unat i"

abbreviation flat_key :: "UINT32 \<Rightarrow> bytes" where
  "flat_key i \<equiv> le_enc 4 (i * 4)"

abbreviation flat_holds :: "'w libenv \<Rightarrow> cappmem_flat \<Rightarrow> 'w lib \<Rightarrow> UINT32 list \<Rightarrow> bool" where
  "flat_holds v ob s ws \<equiv> holds_at flat_key (local_store flat_store) (local_cell Fn_flat_read32_align Fn_flat_write32_align flat_cell)
     (v, ob, s) ws"

lemma flat_holds_scratch: "flat_holds v (ob\<lparr>cf_scratch_pad := x\<rparr>) s ws = flat_holds v ob s ws"
proof -
  have "obj_calls (ob\<lparr>cf_scratch_pad := x\<rparr>) = obj_calls ob" by (cases "cm_pCalls ob") (simp_all add: obj_calls_def)
  then show ?thesis by (simp add: holds_at_def uses_def)
qed

lemma flat_op_ok:
  assumes ws: "flat_holds v ob s ws" and ob: "unat (cf_elements ob) = length ws" "cf_address_size ob = 4" and p: "op_index p < length ws"
  shows "\<exists>ob' s'. flat_op v p ob s = Inr (fst (array_op p ws), ob', s') \<and> flat_holds v ob' s' (snd (array_op p ws)) \<and>
    unat (cf_elements ob') = length (snd (array_op p ws)) \<and> cf_address_size ob' = 4"
proof (cases p)
  case (Put i x)
  obtain u' where u': "use_write (v, ob, s) (Some (flat_key i)) (Some (le_enc 4 x)) = Inr (AM_RET_GOOD, u', Some (le_enc 4 x))"
    "holds_at flat_key (local_store flat_store) (local_cell Fn_flat_read32_align Fn_flat_write32_align flat_cell) u' (ws[unat i := x])"
    using flat_local.inproc.put_word [OF ws, of i x] p by (auto simp: Put)
  obtain f s' where "obj_write_al v (flat_key i) (le_enc 4 x) ob s = Inr (AM_RET_GOOD, ob\<lparr>cm_amFunc := f\<rparr>, s')" "u' = (v, ob\<lparr>cm_amFunc := f\<rparr>, s')"
    using use_write_Inr [OF u'(1)] by blast
  then show ?thesis using p ob u'(2) by (intro exI [of _ "ob\<lparr>cm_amFunc := f\<rparr>"] exI [of _ s']) (simp add: Put write32_def)
next
  case (Fetch i)
  obtain u' where u': "use_read (v, ob, s) (Some (flat_key i)) (Some (le_enc 4 (cf_scratch_pad ob))) =
      Inr (AM_RET_GOOD, u', Some (le_enc 4 (ws ! unat i)))"
    "holds_at flat_key (local_store flat_store) (local_cell Fn_flat_read32_align Fn_flat_write32_align flat_cell) u' ws"
    using flat_local.inproc.fetch_word [OF ws, of i "cf_scratch_pad ob"] p unfolding Fetch op_index.simps by blast
  obtain f s' where "obj_read_al v (flat_key i) (le_enc 4 (cf_scratch_pad ob)) ob s = Inr (AM_RET_GOOD, le_enc 4 (ws ! unat i), ob\<lparr>cm_amFunc := f\<rparr>, s')"
    "u' = (v, ob\<lparr>cm_amFunc := f\<rparr>, s')"
    using use_read_Inr [OF u'(1)] by blast
  then show ?thesis
    using p ob u'(2) flat_holds_scratch [where v = v and ob = "ob\<lparr>cm_amFunc := f\<rparr>" and x = "ws ! unat i" and ws = ws]
    by (intro exI [of _ "ob\<lparr>cm_amFunc := f, cf_scratch_pad := ws ! unat i\<rparr>"] exI [of _ s'])
      (simp add: Fetch flat_index_def read32_def word_less_nat_alt Let_def)
qed

lemma length_array_op: "length (snd (array_op p ws)) = length ws"
  by (cases p) auto

lemma flat_ops_ok:
  assumes "flat_holds v ob s ws" "unat (cf_elements ob) = length ws" "cf_address_size ob = 4" "\<forall>p\<in>set ps. op_index p < length ws"
  shows "\<exists>ob' s'. flat_ops v ps ob s = Inr (array_run ps ws, ob', s')"
  using assms
proof (induction ps arbitrary: ob s ws)
  case (Cons p ps)
  obtain ob1 s1 where o1: "flat_op v p ob s = Inr (fst (array_op p ws), ob1, s1)" "flat_holds v ob1 s1 (snd (array_op p ws))"
    "unat (cf_elements ob1) = length (snd (array_op p ws))" "cf_address_size ob1 = 4"
    using flat_op_ok [OF Cons.prems(1-3), of p] Cons.prems(4) by auto
  obtain ob' s' where "flat_ops v ps ob1 s1 = Inr (array_run ps (snd (array_op p ws)), ob', s')"
    using Cons.IH [OF o1(2-4)] Cons.prems(4) by (auto simp: length_array_op)
  then show ?case using o1(1) by (simp add: case_prod_beta)
qed simp

definition flat_cap :: "UINT32 \<Rightarrow> mem_cap" where
  "flat_cap memSize = flat_caps\<lparr>cap_typeSpecific := (cap_typeSpecific flat_caps)[TS_FLAT_ADDRESS_BYTE_SIZE := 4], cap_maxSize := ucast memSize\<rparr>"

lemma flat_cap_simps [simp]:
  "cap_amType flat_caps = AM_TYPE_FLAT_MEM" "cap_amType (flat_cap m) = AM_TYPE_FLAT_MEM" "cap_maxSize (flat_cap m) = ucast m"
  by (simp_all add: flat_cap_def flat_caps_def mk_cap_def ts_init_def)

lemma flat_cell_word:
  assumes "length (flat_store f) = 4 * n" "n < 2 ^ 30" "unat (i :: UINT32) < n"
  shows "flat_cell f (flat_key i) = Some (4 * unat i)"
proof -
  have "unat (i * 4) = 4 * unat i" using assms(2,3) by (simp add: unat_word_ariths)
  then show ?thesis using assms(1,3) by (simp add: flat_cell_def Let_def)
qed

text \<open>Flat memory made over the in-process device: \<open>n\<close> words, whatever they are.\<close>

lemma new_flat_virtd:
  assumes "lists_cap (vd_reg (lb_virtd s)) flat_caps" "\<And>i. lv_new v i" "lv_al v 0" "lv_al v 1" "wf_cr (fn_crResp (cm_amFunc ob))"
    and n: "unat memSize = 4 * n"
  shows "\<exists>ob' s' ws. CAppMemFlat v None memSize 4 ob s = Inr (ob', s') \<and> ready ob' \<and> unat (cf_elements ob') = n \<and> cf_address_size ob' = 4 \<and>
    length ws = n \<and> flat_holds v ob' s' ws"
proof -
  define bare where "bare = (CAppMem_default ob)\<lparr>cf_address_size := 4, cf_mem_size := memSize, cf_elements := memSize div 4\<rparr>"
  define obj where "obj = bare\<lparr>cm_amEntry := virtd_entry (cm_amEntry bare), cm_pBaseCaps := Live (enc_mem_cap flat_caps), cm_cap_count := 1,
      cm_pCalls := Some (Live ()), cm_amFunc := (cm_amFunc bare)\<lparr>fn_calls := Some (lv_calls v)\<rparr>\<rparr>"
  have F: "fn_calls (cm_amFunc obj) = Some (lv_calls v)" "wf_cr (fn_crResp (cm_amFunc obj))" "cf_address_size obj = 4"
    "cm_pCalls obj = Some (Live ())" "cf_mem_size obj = memSize" "cf_elements obj = memSize div 4"
    using assms(5) by (simp_all add: obj_def bare_def CAppMem_default_def)
  let ?cap = "flat_cap memSize" and ?vd = "(lb_virtd s)\<lparr>vd_minor := vd_minor (lb_virtd s) + 1\<rparr>"
  let ?F = "(cm_amFunc obj)\<lparr>fn_amCap := ?cap, fn_pVdF := Live FdRaw\<rparr>"
  have cc: "CAppMemFlat_configCaps obj flat_caps = (AM_RET_GOOD, ?cap)" using F by (simp add: CAppMemFlat_configCaps_def flat_cap_def)
  obtain f where f: "virtd_flat (\<lambda>i. lv_al v (Suc i)) (lv_junk v) (vd_minor (lb_virtd s)) ?cap ?F = Inr (AM_RET_GOOD, f)"
    "flat_store f = flat_mem (lv_junk v) ?cap" "fn_calls f = Some (flat_calls (lv_calls v))"
    using virtd_flat_ok [of "\<lambda>i. lv_al v (Suc i)" ?F "lv_junk v" "vd_minor (lb_virtd s)" ?cap] assms(4) F by auto
  have create: "am_virtd_create_function (lv_al v) (lv_junk v) (lb_virtd s) (Some ?cap) (Some (cm_amFunc obj)) = Inr (AM_RET_GOOD, ?vd, f)"
    using assms(3) f(1) by (simp add: am_virtd_create_function_def Let_def word_less_nat_alt)
  have op: "fc_open (flat_calls (lv_calls v)) = Some Fn_virtd_open" by (simp add: flat_calls_def)
  let ?ob = "obj\<lparr>cm_amFunc := f, cm_bReady := True\<rparr>"
  have new: "CAppMemFlat v None memSize 4 ob s = Inr (?ob, s\<lparr>lb_virtd := ?vd\<rparr>)"
    using new_virtd [where obj = obj and v = v and cc = CAppMemFlat_configCaps, OF assms(1) _ assms(2) obj_def cc create f(3) op]
    by (simp add: CAppMemFlat_def bare_def Let_def)
  have b: "unat memSize < 2 ^ LENGTH(32)" by (rule unsigned_less)
  then have "unat (ucast memSize :: UINT64) = unat memSize"
    using b by (simp add: unsigned_ucast_eq take_bit_nat_eq_self)
  then have l: "length (flat_store f) = 4 * n" using f(2) n by (simp add: flat_mem_def fresh_def)
  then obtain ws where ws: "flat_store f = enc_words ws" "length ws = n" using enc_words_ex by blast
  have "n < 2 ^ 30" using n b by simp
  moreover have "uses Fn_flat_read32_align Fn_flat_write32_align ?ob" using f(3) F by (simp add: uses_def obj_calls_def flat_calls_def)
  ultimately have "flat_holds v ?ob (s\<lparr>lb_virtd := ?vd\<rparr>) ws" using flat_cell_word [OF l] ws by (simp add: holds_at_def)
  moreover have "unat (memSize div 4) = n" using n by (simp add: unat_div)
  ultimately show ?thesis using new F ws(2)
    by (intro exI [of _ ?ob] exI [of _ "s\<lparr>lb_virtd := ?vd\<rparr>"] exI [of _ ws]) (simp add: ready_def)
qed

section \<open>The properties\<close>

lemma room_for_cpp:
  assumes "assca_obj u aa"
  shows "room_for (\<lambda>u. assca_room (cpp_aa u)) cpp_put u ws = room_for assca_room (amlib_assca_add_key_fixfix (\<lambda>_. True)) aa ws"
  using assms
proof (induction ws arbitrary: u aa)
  case (Cons w ws)
  obtain k d where w: "w = (k, d)" by (cases w)
  obtain v ob s where u: "u = (v, ob, s)" by (cases u)
  have put: "case amlib_assca_add_key_fixfix (\<lambda>_. True) aa k d of
      Inl e \<Rightarrow> cpp_put u k d = Inl e | Inr (st, aa') \<Rightarrow> \<exists>u'. cpp_put u k d = Inr (st, u') \<and> assca_obj u' aa'"
    using cpp_put_aa [of v ob s aa k d] Cons.prems by (auto simp: u split: sum.splits)
  show ?case
    using put Cons.IH cpp_aa_obj [OF Cons.prems] by (auto simp: w split: sum.splits)
qed simp

text \<open>A library in which all device functions are registered, an environment without failures, and fresh objects.\<close>

definition demo_env :: "unit libenv" where
  "demo_env = \<lparr>lv_sk = (\<lambda>w d. (0, [], w)), lv_sys = good_sys, lv_al = (\<lambda>_. True), lv_new = (\<lambda>_. True), lv_run = True,
     lv_junk = (\<lambda>_. 0), lv_calls = zero_calls, lv_stack = replicate 20 0, lv_ke = demo_kenv, lv_fd_base = 3, lv_fd_dev = 4,
     lv_fds = (\<lambda>fd. if fd = 3 then Some 0 else if fd = 4 then Some 1 else None), lv_mmap = True, lv_sch = (\<lambda>_. 1), lv_fuel = 2,
     lv_a_cmd = 5000, lv_a_count = 6000, lv_a_caps = 7000, lv_a_cap = 1000, lv_a_cr = 2000, lv_a_key = 3000, lv_a_data = 4000\<rparr>"

definition demo_lib :: "kern \<Rightarrow> unit lib" where
  "demo_lib k = \<lparr>lb_virtd = \<lparr>vd_reg = full_registry, vd_minor = 1\<rparr>, lb_net = fresh_net (), lb_socks = {0, 1, 2}, lb_kern = k,
     lb_kp = \<lparr>kp_map = \<lparr>fm_pMMap = False, fm_uPI = 0, fm_map_size = 0, fm_map_flags = 0, fm_resp_bytes = 0\<rparr>, kp_th = T_exit,
       kp_dev = \<lparr>km_page = \<lparr>dm_Pi = 0, dm_Ci = 0, dm_State = 0, dm_Control = 0, dm_Tx = [], dm_Rx = []\<rparr>,
         km_isMapped = False, km_func = None, km_flags = 0\<rparr>\<rparr>\<rparr>"

definition demo_base :: cappmem where
  "demo_base = \<lparr>cm_amFunc = call_func, cm_amEntry = no_entry, cm_cap_count = 0, cm_pBaseCaps = Null, cm_bReady = False, cm_pCalls = None\<rparr>"

definition demo_array :: cappmem_stata where
  "demo_array = cappmem.extend demo_base (cappmem_stata.fields 0 0 0 0 0)"

definition demo_flatob :: cappmem_flat where
  "demo_flatob = cappmem.extend demo_base (cappmem_flat.fields 0 0 0 0)"

definition demo_assca :: cappmem_assca where
  "demo_assca = cappmem.extend demo_base (cappmem_assca.fields False False False 0 0)"

lemma demo_simps [simp]:
  "lv_new demo_env i" "lv_al demo_env = (\<lambda>_. True)" "vd_reg (lb_virtd (demo_lib k)) = full_registry" "lb_kern (demo_lib k) = k"
  "cm_amFunc demo_array = call_func" "cm_amFunc demo_assca = call_func"
  "cm_amFunc demo_flatob = call_func"
  by (simp_all add: demo_env_def demo_lib_def demo_flatob_def cappmem_flat.defs demo_array_def demo_assca_def demo_base_def cappmem.defs cappmem_stata.defs cappmem_assca.defs)

lemma full_lists: "lists_cap full_registry stata_caps" "lists_cap full_registry assca_caps" "lists_cap full_registry flat_caps"
  using full_registry_ok full_registry_caps(1)
  by (simp_all add: lists_cap_def virtd_base_cap_def flat_caps_def stata_caps_def assca_caps_def mk_cap_def)

text \<open>
  C4: An object of the static array class made over the in-process device is ready, and any sequence of its \<open>insert\<close> and \<open>get\<close>
  members answers as an array of that many words would, zeros at first: an index outside has the status
  \<open>AM_RET_KEY_OUT_OF_RANGE\<close> and changes nothing, and no operation fails otherwise.
\<close>

theorem cpp_stata_array:
  assumes "lists_cap (vd_reg (lb_virtd s)) stata_caps" "15 AND indexSize \<noteq> 0" "\<And>i. lv_new v i" "lv_al v 0" "lv_al v 1"
    and "wf_cr (fn_crResp (cm_amFunc ob))"
  shows "\<exists>ob1 s1 ob2 s2. CAppMemStaticArray v None n dataSize indexSize ob s = Inr (ob1, s1) \<and> ready ob1 \<and>
    CAppMemStaticArray_count ob1 = n \<and> stata_ops v ps ob1 s1 = Inr (array_run ps (replicate (unat n) 0), ob2, s2)"
proof -
  obtain ob1 s1 where o1: "CAppMemStaticArray v None n dataSize indexSize ob s = Inr (ob1, s1)" "ready ob1" "ca_elements ob1 = n"
    "holds_words (local_store stata_store) (local_cell Fn_stata_read_idx32 Fn_stata_write_idx32 stata_cell) (v, ob1, s1)
      (replicate (unat n) 0)"
    using new_stata_virtd [where n = n and dataSize = dataSize, OF assms(1,2) assms(3) assms(4-6)] by blast
  obtain ob2 s2 where "stata_ops v ps ob1 s1 = Inr (array_run ps (replicate (unat n) 0), ob2, s2)"
    using stata_ops_ok [OF stata_local.inproc.aligned_device_axioms o1(4), of ps] o1(3) by auto
  then show ?thesis using o1 by (intro exI [of _ ob1] exI [of _ s1] exI [of _ ob2] exI [of _ s2]) (simp add: CAppMemStaticArray_count_def)
qed

lemma cpp_stata_array_witness:
  "\<exists>ob1 s1 ob2 s2. CAppMemStaticArray demo_env None 5 4 4 demo_array (demo_lib (demo_kern (\<lambda>_. None))) = Inr (ob1, s1) \<and> ready ob1 \<and>
    CAppMemStaticArray_count ob1 = 5 \<and>
    stata_ops demo_env [Put 2 0xBAD, Fetch 2, Fetch 4, Put 5 1, Fetch 5] ob1 s1 =
      Inr ([(0, 0), (0, 0xBAD), (0, 0), (8, 0), (8, 0)], ob2, s2)"
  using cpp_stata_array [of "demo_lib (demo_kern (\<lambda>_. None))" 4 demo_env demo_array 5 4 "[Put 2 0xBAD, Fetch 2, Fetch 4, Put 5 1, Fetch 5]"]
  by (simp add: full_lists)

text \<open>
  C5: In the process, for objects made with a null name, flat memory of \<open>4 n\<close> bytes and a static array of \<open>n\<close> words are the same to a
  program that keeps inside them and reads only words it has written: \<open>write32\<close> and \<open>operator[]\<close> of the one class answer as \<open>insert\<close> and
  \<open>get\<close> of the other, although this flat memory is not cleared and this array is. Both capabilities are registered and all
  memory is granted. Over the kernel module the array is not cleared either, and a program that reads first sees the difference.
\<close>

theorem cpp_flat_equals_stata:
  assumes "lists_cap (vd_reg (lb_virtd s)) flat_caps" "lists_cap (vd_reg (lb_virtd s)) stata_caps" "\<And>i. lv_new v i" "lv_al v 0" "lv_al v 1"
    and "wf_cr (fn_crResp (cm_amFunc obf))" "wf_cr (fn_crResp (cm_amFunc oba))"
    and "unat memSize = 4 * unat n" "\<forall>p\<in>set ps. op_index p < unat n" "writes_first {} ps"
  shows "\<exists>ob1 s1 ob2 s2 ob3 s3 ob4 s4 rs. CAppMemFlat v None memSize 4 obf s = Inr (ob1, s1) \<and> CAppMemFlat_count ob1 = n \<and>
    CAppMemStaticArray v None n 4 4 oba s = Inr (ob2, s2) \<and> CAppMemStaticArray_count ob2 = n \<and>
    flat_ops v ps ob1 s1 = Inr (rs, ob3, s3) \<and> stata_ops v ps ob2 s2 = Inr (rs, ob4, s4)"
proof -
  obtain ob1 s1 ws where o1: "CAppMemFlat v None memSize 4 obf s = Inr (ob1, s1)" "unat (cf_elements ob1) = unat n" "cf_address_size ob1 = 4"
    "length ws = unat n" "flat_holds v ob1 s1 ws"
    using new_flat_virtd [OF assms(1) assms(3-6,8)] by blast
  have i: "15 AND (4 :: UINT32) \<noteq> 0" by simp
  obtain ob2 s2 where o2: "CAppMemStaticArray v None n 4 4 oba s = Inr (ob2, s2)" "ca_elements ob2 = n"
    "holds_words (local_store stata_store) (local_cell Fn_stata_read_idx32 Fn_stata_write_idx32 stata_cell) (v, ob2, s2)
      (replicate (unat n) 0)"
    using new_stata_virtd [where n = n and dataSize = 4, OF assms(2) i assms(3-5,7)] by blast
  have "array_run ps ws = array_run ps (replicate (unat n) 0)"
    by (rule array_run_independent [OF assms(10)]) (simp_all add: o1(4))
  moreover obtain ob3 s3 where "flat_ops v ps ob1 s1 = Inr (array_run ps ws, ob3, s3)"
    using flat_ops_ok [OF o1(5), of ps] o1(2-4) assms(9) by auto
  moreover obtain ob4 s4 where "stata_ops v ps ob2 s2 = Inr (array_run ps (replicate (unat n) 0), ob4, s4)"
    using stata_ops_ok [OF stata_local.inproc.aligned_device_axioms o2(3), of ps] o2(2) by auto
  moreover have "CAppMemFlat_count ob1 = n" using o1(2) by (simp add: CAppMemFlat_count_def word_unat_eq_iff)
  ultimately show ?thesis using o1(1) o2(1,2) by (auto simp: CAppMemStaticArray_count_def)
qed

lemma cpp_flat_equals_stata_witness:
  "\<exists>ob1 s1 ob2 s2 ob3 s3 ob4 s4 rs. CAppMemFlat demo_env None 20 4 demo_flatob (demo_lib (demo_kern (\<lambda>_. None))) = Inr (ob1, s1) \<and>
    CAppMemFlat_count ob1 = 5 \<and>
    CAppMemStaticArray demo_env None 5 4 4 demo_array (demo_lib (demo_kern (\<lambda>_. None))) = Inr (ob2, s2) \<and> CAppMemStaticArray_count ob2 = 5 \<and>
    flat_ops demo_env [Put 2 7, Fetch 2] ob1 s1 = Inr (rs, ob3, s3) \<and> stata_ops demo_env [Put 2 7, Fetch 2] ob2 s2 = Inr (rs, ob4, s4)"
  using cpp_flat_equals_stata [of "demo_lib (demo_kern (\<lambda>_. None))" demo_env demo_flatob demo_array 20 5 "[Put 2 7, Fetch 2]"]
  by (simp add: full_lists)

text \<open>
  C6: In the process, an object of the associative array class made with a null name, fixed keys of up to 512 bytes and
  fixed data of up to 1 MB is a finite map: after the insertion of entries with different keys, all of the sizes of the
  object, \<open>get\<close> finds exactly these and answers any other key with \<open>AM_RET_KEY_NOT_FOUND\<close>, the buffer unchanged. Each insertion must find
  room in the table (fewer than \<open>2 ^ 31\<close> buckets and \<open>2 ^ 32 - 1\<close> items), as the first 26 always do (\<open>room_for_few\<close>); the capability is
  registered and all memory is granted. It is not so over the \<^verbatim>\<open>ioctl\<close> of the kernel module, where \<open>get\<close> returns good without
  the data (see \<open>COPY_TO_USER\<close>).
\<close>

theorem cpp_assca_map:
  assumes "lists_cap (vd_reg (lb_virtd s)) assca_caps" "\<And>i. lv_new v i" "lv_al v = (\<lambda>_. True)" "wf_cr (fn_crResp (cm_amFunc ob))"
    and "keySize \<le> 512" "dataSize \<le> 0x100000"
    and "room_for assca_room (amlib_assca_add_key_fixfix (\<lambda>_. True)) (empty_assca keySize dataSize) ws"
    and "\<forall>(k, d)\<in>set ws. length k = unat keySize \<and> length d = unat dataSize" "distinct (map fst ws)"
    and "length k = unat keySize" "length d = unat dataSize"
  shows "\<exists>ob1 s1 u. CAppMemAsscArray v None keySize dataSize True True dupe ob s = Inr (ob1, s1) \<and> ready ob1 \<and>
    put_all cpp_put (v, ob1, s1) ws = Inr (AM_RET_GOOD, u) \<and>
    cpp_get u k d = (case map_of ws k of None \<Rightarrow> Inr (AM_RET_KEY_NOT_FOUND, d) | Some x \<Rightarrow> Inr (AM_RET_GOOD, x))"
proof -
  let ?aa = "empty_assca keySize dataSize"
  obtain ob1 s1 where o1: "CAppMemAsscArray v None keySize dataSize True True dupe ob s = Inr (ob1, s1)" "ready ob1"
    "assca_obj (v, ob1, s1) ?aa"
    using new_assca_virtd [where keySize = keySize and dataSize = dataSize and dupe = dupe, OF assms(1) assms(2-4)] assms(5,6) by auto
  have aa: "cpp_aa (v, ob1, s1) = ?aa" using cpp_aa_obj [OF o1(3)] .
  have kl: "aa_key_len ?aa = keySize" "aa_data_len ?aa = dataSize" by (simp_all add: empty_assca_def)
  have tk: "map (\<lambda>(k, d). take (unat keySize) k) ws = map fst ws"
    "map (\<lambda>(k, d). (take (unat keySize) k, take (unat dataSize) d)) ws = ws"
    using assms(8) by (auto intro!: map_idI)
  have inv: "assca_obj (v, ob1, s1) (cpp_aa (v, ob1, s1)) \<and> assca_inv (cpp_aa (v, ob1, s1)) []" using o1(3) aa assca_inv_empty by simp
  have le: "\<forall>(k, d)\<in>set ws. unat keySize \<le> length k \<and> unat dataSize \<le> length d" using assms(8) by auto
  have room: "room_for (\<lambda>u. assca_room (cpp_aa u)) cpp_put (v, ob1, s1) ws" using room_for_cpp [OF o1(3)] assms(7) by simp
  have "take (unat keySize) k = k" "drop (unat dataSize) d = []" using assms(10,11) by simp_all
  moreover have "unat keySize \<le> length k" "unat dataSize \<le> length d" using assms(10,11) by simp_all
  ultimately obtain u where "put_all cpp_put (v, ob1, s1) ws = Inr (AM_RET_GOOD, u)"
    "cpp_get u k d = (case map_of ws k of None \<Rightarrow> Inr (AM_RET_KEY_NOT_FOUND, d) | Some x \<Rightarrow> Inr (AM_RET_GOOD, x))"
    using cpp_assca.put_all_get [OF inv room, unfolded aa kl tk, OF le assms(9), of k d] by (auto cong: option.case_cong)
  then show ?thesis using o1(1,2) by blast
qed

lemma cpp_assca_map_witness:
  "\<exists>ob1 s1 u. CAppMemAsscArray demo_env None 4 2 True True False demo_assca (demo_lib (demo_kern (\<lambda>_. None))) = Inr (ob1, s1) \<and> ready ob1 \<and>
    put_all cpp_put (demo_env, ob1, s1) [([1, 2, 3, 4], [7, 8])] = Inr (0, u) \<and>
    cpp_get u [1, 2, 3, 4] [0, 0] = Inr (0, [7, 8])"
proof -
  have "room_for assca_room (amlib_assca_add_key_fixfix (\<lambda>_. True)) (empty_assca 4 2) [([1, 2, 3, 4], [7, 8])]"
    by (simp add: assca_room_empty split: sum.splits)
  then show ?thesis
    using cpp_assca_map [of "demo_lib (demo_kern (\<lambda>_. None))" demo_env demo_assca 4 2 "[([1, 2, 3, 4], [7, 8])]" "[1, 2, 3, 4]" "[0, 0]" False]
    by (simp add: full_lists)
qed

text \<open>
  C9: The example program finds what it stored: its lookup has the status good and reads \<open>0xBADA5DAD\<close>, and the object is
  destroyed without a fault. The device stays in the function object: the destructor does not release it.
\<close>

theorem api_main_reads_back:
  assumes "lists_cap (vd_reg (lb_virtd s)) assca_caps" "\<And>i. lv_new v i" "lv_al v = (\<lambda>_. True)" "wf_cr (fn_crResp (cm_amFunc ob))"
  shows "\<exists>ob' s' aa. api_main v ob s = Inr (Some (AM_RET_GOOD, 0xBADA5DAD), ob', s') \<and>
    assca_func (cm_amFunc ob') aa \<and> assca_inv aa [(c_bytes ''0123456789ABCDE'' @ [0], le_enc 4 (0xBADA5DAD :: UINT32))]"
proof -
  define key where "key = c_bytes ''0123456789ABCDE'' @ [0]"
  define val where "val = le_enc 4 (0xBADA5DAD :: UINT32)"
  let ?aa = "empty_assca 16 4"
  have l: "length key = 16" "length val = 4" by (simp_all add: key_def val_def c_bytes_def)
  obtain ob1 s1 where o1: "CAppMemAsscArray v None 16 4 True True False ob s = Inr (ob1, s1)" "ready ob1" "assca_obj (v, ob1, s1) ?aa"
    using new_assca_virtd [where keySize = 16 and dataSize = 4 and dupe = False, OF assms(1) assms(2-4)] by auto
  have aa: "aa_key_len ?aa = 16" "aa_data_len ?aa = 4" by (simp_all add: empty_assca_def)
  obtain aa where put: "amlib_assca_add_key_fixfix (\<lambda>_. True) ?aa key val = Inr (AM_RET_GOOD, aa)" "assca_inv aa [(key, val)]"
    "aa_key_len aa = 16" "aa_data_len aa = 4"
    using assca_put_ok [where aa = ?aa and al = "\<lambda>_. True" and k = key and d = val, OF assca_inv_empty assca_room_empty] aa l by auto
  obtain ob2 where o2: "assca_insert v key val ob1 s1 = Inr (AM_RET_GOOD, ob2, s1)" "assca_obj (v, ob2, s1) aa"
    using cpp_put_aa [OF o1(3), of key val] put(1) by auto
  have "amlib_assca_get_key_val aa key (le_enc 4 (0 :: UINT32)) = Inr (AM_RET_GOOD, val)"
    using assca.get_map [OF put(2), of key "le_enc 4 (0 :: UINT32)"] put(3,4) l by simp
  then have g: "assca_get v key (le_enc 4 (0 :: UINT32)) ob2 s1 = Inr (AM_RET_GOOD, val, ob2, s1)"
    using cpp_get_aa [OF o2(2), of key "le_enc 4 (0 :: UINT32)"] by simp
  have "destructible ob2" using o2(2) by (simp add: assca_obj_def)
  then obtain ob' where ob': "CAppMem_destroy ob2 = Inr ob'" "cm_amFunc ob' = cm_amFunc ob2" using destroy_ok by blast
  have "le_dec val = (0xBADA5DAD :: UINT32)" using le_dec_enc [of 4 "0xBADA5DAD :: UINT32"] by (simp add: val_def)
  then have "api_main v ob s = Inr (Some (AM_RET_GOOD, 0xBADA5DAD), ob', s1)"
    using o1 o2 g ob' by (simp add: api_main_def key_def [symmetric] val_def [symmetric] Let_def)
  then show ?thesis using o2(2) ob'(2) put(2) by (auto simp: assca_obj_def key_def val_def)
qed

lemma api_main_reads_back_witness:
  "\<exists>ob' s' aa. api_main demo_env demo_assca (demo_lib (demo_kern (\<lambda>_. None))) = Inr (Some (0, 0xBADA5DAD), ob', s') \<and>
    assca_func (cm_amFunc ob') aa \<and> assca_inv aa [(c_bytes ''0123456789ABCDE'' @ [0], le_enc 4 (0xBADA5DAD :: UINT32))]"
  using api_main_reads_back [of "demo_lib (demo_kern (\<lambda>_. None))" demo_env demo_assca] by (simp add: full_lists)

text \<open>
  C34: In the process, for a null name, fixed keys and data, the capability registered and all memory granted: keys of more than 512
  bytes or data of more than 1 MB are above the capability and not refused. The object is made and ready, and its array has keys of
  512 bytes and data of 1 MB. An \<open>insert\<close> of a key and data of the sizes the caller asked for then reads out of bounds if either is
  smaller than the array's; if neither is, it returns good, and the array holds the first 512 bytes of the key with the first 1 MB
  of the data.
\<close>

theorem cpp_assca_oversize:
  assumes "lists_cap (vd_reg (lb_virtd s)) assca_caps" "\<And>i. lv_new v i" "lv_al v = (\<lambda>_. True)" "wf_cr (fn_crResp (cm_amFunc ob))"
    and "512 < keySize \<or> 0x100000 < dataSize" "length k = unat keySize" "length d = unat dataSize"
  shows "\<exists>ob1 s1 aa. CAppMemAsscArray v None keySize dataSize True True dupe ob s = Inr (ob1, s1) \<and> ready ob1 \<and>
    assca_func (cm_amFunc ob1) aa \<and> assca_inv aa [] \<and> aa_key_len aa = 512 \<and> aa_data_len aa = 0x100000 \<and>
    (if keySize < 512 \<or> dataSize < 0x100000 then assca_insert v k d ob1 s1 = Inl OutOfBounds
     else \<exists>ob2 aa2. assca_insert v k d ob1 s1 = Inr (AM_RET_GOOD, ob2, s1) \<and> assca_func (cm_amFunc ob2) aa2 \<and>
       assca_inv aa2 [(take 512 k, take 0x100000 d)])"
proof -
  let ?aa = "empty_assca 512 0x100000"
  have sz: "(if keySize \<le> 512 \<and> dataSize \<le> 0x100000 then empty_assca keySize dataSize else ?aa) = ?aa"
    using assms(5) by (subst if_not_P) (auto simp: not_le)
  obtain ob1 s1 where o1: "CAppMemAsscArray v None keySize dataSize True True dupe ob s = Inr (ob1, s1)" "ready ob1"
    "assca_obj (v, ob1, s1) ?aa"
    using new_assca_virtd [where keySize = keySize and dataSize = dataSize and dupe = dupe, OF assms(1) assms(2-4)] unfolding sz by blast
  have aa: "assca_func (cm_amFunc ob1) ?aa" "aa_key_len ?aa = 512" "aa_data_len ?aa = 0x100000"
    using o1(3) by (simp_all add: assca_obj_def empty_assca_def)
  have "if keySize < 512 \<or> dataSize < 0x100000 then assca_insert v k d ob1 s1 = Inl OutOfBounds
     else \<exists>ob2 aa2. assca_insert v k d ob1 s1 = Inr (AM_RET_GOOD, ob2, s1) \<and> assca_func (cm_amFunc ob2) aa2 \<and>
       assca_inv aa2 [(take 512 k, take 0x100000 d)]"
  proof (cases "keySize < 512 \<or> dataSize < 0x100000")
    case True
    then have "length k < 512 \<or> length d < 0x100000" using assms(6,7) by (simp add: word_less_nat_alt)
    then have "amlib_assca_add_key_fixfix (\<lambda>_. True) ?aa k d = Inl OutOfBounds"
      by (auto simp: amlib_assca_add_key_fixfix_def empty_assca_def getb_def)
    then show ?thesis using True cpp_put_aa [OF o1(3), of k d] by simp
  next
    case False
    then have l: "512 \<le> length k" "0x100000 \<le> length d" using assms(6,7) by (simp_all add: word_less_nat_alt not_less)
    obtain aa2 where "amlib_assca_add_key_fixfix (\<lambda>_. True) ?aa k d = Inr (AM_RET_GOOD, aa2)" "assca_inv aa2 [(take 512 k, take 0x100000 d)]"
      using assca_put_ok [where aa = ?aa and al = "\<lambda>_. True" and k = k and d = d, OF assca_inv_empty assca_room_empty] l aa(2,3) by auto
    then show ?thesis using False cpp_put_aa [OF o1(3), of k d] by (auto simp: assca_obj_def)
  qed
  then show ?thesis using o1(1,2) aa assca_inv_empty by blast
qed

lemma cpp_assca_oversize_witness:
  "(\<exists>ob1 s1. CAppMemAsscArray demo_env None 600 4 True True False demo_assca (demo_lib (demo_kern (\<lambda>_. None))) = Inr (ob1, s1) \<and>
     ready ob1 \<and> assca_insert demo_env (replicate 600 0) [1, 2, 3, 4] ob1 s1 = Inl OutOfBounds) \<and>
   (\<exists>ob1 s1 ob2 aa. CAppMemAsscArray demo_env None 600 0x100000 True True False demo_assca (demo_lib (demo_kern (\<lambda>_. None))) = Inr (ob1, s1) \<and>
     assca_insert demo_env (replicate 600 0) (replicate 0x100000 7) ob1 s1 = Inr (0, ob2, s1) \<and>
     assca_func (cm_amFunc ob2) aa \<and> assca_inv aa [(replicate 512 0, replicate 0x100000 7)])"
proof -
  note t = cpp_assca_oversize [where s = "demo_lib (demo_kern (\<lambda>_. None))" and v = demo_env and ob = demo_assca and dupe = False]
  have l: "length (replicate 600 (0 :: UINT8)) = unat (600 :: UINT32)"
    "length (replicate 0x100000 (7 :: UINT8)) = unat (0x100000 :: UINT32)" "length [1, 2, 3, 4 :: UINT8] = unat (4 :: UINT32)"
    by (simp_all only: length_replicate) simp_all
  have h: "lists_cap (vd_reg (lb_virtd (demo_lib (demo_kern (\<lambda>_. None))))) assca_caps" "\<And>i. lv_new demo_env i" "lv_al demo_env = (\<lambda>_. True)"
    "wf_cr (fn_crResp (cm_amFunc demo_assca))" by (simp_all add: full_lists)
  have b: "512 < (600 :: UINT32) \<or> 0x100000 < (4 :: UINT32)" "512 < (600 :: UINT32) \<or> 0x100000 < (0x100000 :: UINT32)" by simp_all
  have tk: "take 512 (replicate 600 (0 :: UINT8)) = replicate 512 0" "take 0x100000 (replicate 0x100000 (7 :: UINT8)) = replicate 0x100000 7"
    by (simp_all only: take_replicate) simp_all
  have c: "(600 :: UINT32) < 512 \<or> (4 :: UINT32) < 0x100000" "\<not> ((600 :: UINT32) < 512 \<or> (0x100000 :: UINT32) < 0x100000)" by simp_all
  show ?thesis
    using t [OF h b(1) l(1,3), unfolded if_P [OF c(1)]] t [OF h b(2) l(1,2), unfolded if_not_P [OF c(2)] tk] by blast
qed

definition base_made :: "'w libenv \<Rightarrow> AM_RETURN \<Rightarrow> 'a cappmem_scheme \<Rightarrow> 'w lib \<Rightarrow> ('a cappmem_scheme \<times> 'w lib) res" where
  "base_made v st ob s =
     (if st = AM_RET_GOOD then
       bindr (call_get_cap_count v (en_get_cap_count (cm_amEntry ob)) s) (\<lambda>(cap_count, s).
       if cap_count = 0 then Inr (ob\<lparr>cm_cap_count := cap_count\<rparr>, s)
       else if \<not> lv_new v 0 then Inl BadAlloc
       else
         bindr (call_get_capabilities v (en_get_capabilities (cm_amEntry ob)) s
                  (fresh (lv_junk v) (sizeof_MEM_CAP * unat cap_count)) cap_count) (\<lambda>(st, pAllCaps, s).
         if st = AM_RET_GOOD then Inr (ob\<lparr>cm_cap_count := cap_count, cm_pBaseCaps := Live pAllCaps, cm_bReady := True\<rparr>, s)
         else Inr (ob\<lparr>cm_cap_count := cap_count\<rparr>, s)))
     else Inr (ob, s))"

lemma bindr_elim: "bindr m f = Inr y \<Longrightarrow> (\<And>x. f x = Inr y \<Longrightarrow> P) \<Longrightarrow> P"
  by (auto simp: res_simps)

lemma initBase_base:
  assumes "am_get_entry_point (lv_sk v) (lv_sys v) (lv_al v) (lv_run v) (lv_junk v) am_name (Some (cm_amEntry ob)) (lb_socks s) (lb_net s) =
    Inr (st, e, fds, n)"
  shows "initBase v cc am_name AM_TYPE_BASE_APPMEM ob s =
    base_made v st (case e of None \<Rightarrow> ob | Some e \<Rightarrow> ob\<lparr>cm_amEntry := e\<rparr>) (s\<lparr>lb_socks := fds, lb_net := n\<rparr>)"
  using assms by (cases e) (auto simp: initBase_def base_made_def Let_def intro!: bindr_cong)

lemma base_made_calls:
  assumes "base_made v st ob s = Inr (ob', s')" "cm_pCalls ob = None" "cm_pBaseCaps ob = Null"
  shows "cm_pCalls ob' = None \<and> cm_pBaseCaps ob' \<noteq> Dangling"
proof (cases "st = AM_RET_GOOD")
  case True
  note m = assms(1) [unfolded base_made_def if_P [OF True]]
  show ?thesis
  proof (rule bindr_elim [OF m], clarsimp split: if_splits)
    fix c s2
    assume "c \<noteq> 0" and m: "bindr (call_get_capabilities v (en_get_capabilities (cm_amEntry ob)) s2
                  (fresh (lv_junk v) (sizeof_MEM_CAP * unat c)) c) (\<lambda>(st, pAllCaps, s).
         if st = AM_RET_GOOD then Inr (ob\<lparr>cm_cap_count := c, cm_pBaseCaps := Live pAllCaps, cm_bReady := True\<rparr>, s)
         else Inr (ob\<lparr>cm_cap_count := c\<rparr>, s)) = Inr (ob', s')"
    show "cm_pCalls ob' = None \<and> cm_pBaseCaps ob' \<noteq> Dangling"
      by (rule bindr_elim [OF m]) (use assms(2,3) in \<open>auto split: if_splits\<close>)
  qed (use assms in auto)
qed (use assms in \<open>simp add: base_made_def\<close>)

text \<open>
  An object made with the constructor of the base class cannot be destroyed: \<open>pCalls\<close> was never set, and the destructor
  tests and deletes it, whatever entry the name leads to.
\<close>

theorem cpp_base_destroy:
  assumes "CAppMem_named v am_name ob s = Inr (ob', s')"
  shows "CAppMem_destroy ob' = Inl Uninit"
proof -
  define bare where "bare = ob\<lparr>cm_cap_count := 0, cm_pBaseCaps := Null, cm_bReady := False, cm_pCalls := None\<rparr>"
  have b: "cm_pCalls bare = None" "cm_pBaseCaps bare = Null" by (simp_all add: bare_def)
  obtain st e fds n where "am_get_entry_point (lv_sk v) (lv_sys v) (lv_al v) (lv_run v) (lv_junk v) am_name (Some (cm_amEntry bare))
      (lb_socks s) (lb_net s) = Inr (st, e, fds, n)"
    using assms unfolding CAppMem_named_def bare_def [symmetric] initBase_def by (auto simp: res_simps)
  from initBase_base [OF this] have i: "base_made v st (case e of None \<Rightarrow> bare | Some e \<Rightarrow> bare\<lparr>cm_amEntry := e\<rparr>)
      (s\<lparr>lb_socks := fds, lb_net := n\<rparr>) = Inr (ob', s')"
    using assms by (simp only: CAppMem_named_def bare_def)
  have "cm_pCalls ob' = None \<and> cm_pBaseCaps ob' \<noteq> Dangling"
    by (rule base_made_calls [OF i]) (use b in \<open>auto split: option.split\<close>)
  then show ?thesis by (cases "cm_pBaseCaps ob'") (simp_all add: CAppMem_destroy_def delete_ptr_def)
qed

lemma cpp_base_destroy_witness:
  "\<exists>ob' s'. CAppMem_named demo_env None demo_base (demo_lib (demo_kern (\<lambda>_. None))) = Inr (ob', s') \<and> ready ob' \<and>
    CAppMem_destroy ob' = Inl Uninit"
proof -
  have r: "reg_ok (vd_reg (lb_virtd (demo_lib (demo_kern (\<lambda>_. None)))))" using full_registry_ok by simp
  have "\<exists>ob' s'. CAppMem_named demo_env None demo_base (demo_lib (demo_kern (\<lambda>_. None))) = Inr (ob', s') \<and> ready ob'"
    using copy_caps_request [OF r, of 5 "fresh (lv_junk demo_env) 840"] full_registry_caps(1)
    by (simp add: CAppMem_named_def initBase_def am_get_entry_point_def call_get_cap_count_def call_get_capabilities_def virtd_count
        am_virtd_get_capabilities_def fresh_def Let_def ready_def)
  then show ?thesis using cpp_base_destroy [of demo_env None demo_base "demo_lib (demo_kern (\<lambda>_. None))"] by blast
qed

end
