(* ===== verification/AM_Cpp_Kernel.thy ===== *)
theory AM_Cpp_Kernel
  imports AM_Cpp_Classes
begin

text \<open>
  The C++ classes over the kernel module: the calls of \<open>initBase\<close> reach the base device through \<^verbatim>\<open>ioctl\<close>, and an object
  whose page is mapped is used through it.
\<close>

section \<open>Asking the base device\<close>

lemma k_based_um: "k_based (k\<lparr>kn_um := um\<rparr>) = k_based k"
  by (simp add: k_based_def)

lemma k_based_cmd: "k_based k \<Longrightarrow> length c = sizeof_CMD_U \<Longrightarrow> k_based (k\<lparr>kn_um := um, kn_cmd := c\<rparr>)"
  by (simp add: k_based_def)

text \<open>A command of three members for the base device.\<close>

lemma kd_base_command:
  assumes k: "k_based k" and fd: "fds fd = Some 0" and sp: "sp \<noteq> 0" "um_mapped (kn_um k) sp 24"
    and opc: "unat (AM_OPCODE opc) < 64" "k_base_ops ! unat (AM_OPCODE opc) = Some fp" "\<not> IS_OP_ALIGNED opc" "\<not> IS_OP_PACKET opc"
  shows "\<exists>um cmd f0. kd_ioctl e fds sp k fd APPMEMD_OP_COMMON (enc_cmd_common opc n data (fresh junk 8)) =
      k_config fp e (k\<lparr>kn_um := um, kn_cmd := cmd\<rparr>) f0 \<and>
    fn_amType f0 = AM_TYPE_BASE_APPMEM \<and> rd32 cmd 4 = Inr n \<and> rd64 cmd 8 = Inr data \<and> length cmd = sizeof_CMD_U \<and>
    um_upd (um_range sp 24) (kn_um k) um"
proof -
  let ?cmd = "enc_cmd_common opc n data (fresh junk 8)"
  define rest where "rest = le_enc 4 n @ le_enc 8 data @ fresh junk 8"
  have cmd: "?cmd = le_enc 4 opc @ rest" by (simp add: enc_cmd_common_def rest_def)
  have l: "length ?cmd = 24" by (simp add: enc_cmd_common_def fresh_def)
  have m: "um_mapped (kn_um k) sp (length ?cmd)" using sp(2) l by simp
  obtain um where um: "um_put (kn_um k) sp ?cmd = Inr um" "um_upd (um_range sp 24) (kn_um k) um" "um_prefix um sp 24 = ?cmd"
    using um_put_ok [OF m] unfolding l by auto
  obtain d0 f0 where d0: "kn_devs k 0 = Some d0" "kd_func d0 = Some f0" "fn_amType f0 = AM_TYPE_BASE_APPMEM" "fn_pfnOps f0 = Some k_base_ops"
    and lc: "length (kn_cmd k) = 256" using k by (auto simp: k_based_def)
  define c where "c = le_enc 4 opc @ rest @ drop 24 (kn_cmd k)"
  have lo: "length k_base_ops = 64" by (simp add: k_base_ops_def zero_ops_def)
  have "appmemd_ioctl e (k\<lparr>kn_um := um\<rparr>) 0 APPMEMD_OP_COMMON sp = k_dispatch e (k\<lparr>kn_um := um, kn_cmd := c\<rparr>) 0 d0 f0 24 opc fp"
    using ioctl_served [of APPMEMD_OP_COMMON 2 sp "k\<lparr>kn_um := um\<rparr>" 0 d0 f0 k_base_ops opc rest fp e]
      d0 lc um(3) cmd um_upd_mapped [OF um(2)] sp opc(1,2) lo
    by (simp add: APPMEMD_OP_simps c_def)
  then have "kd_ioctl e fds sp k fd APPMEMD_OP_COMMON ?cmd = k_config fp e (k\<lparr>kn_um := um, kn_cmd := c\<rparr>) f0"
    using um(1) fd opc(3,4) by (simp add: kd_ioctl_def k_dispatch_def)
  moreover have "rd32 c 4 = Inr n" "rd64 c 8 = Inr data" "length c = 256"
    using lc by (simp_all add: c_def rest_def rd_defs rd_enc fresh_def)
  ultimately show ?thesis using d0(3) um(2) by (intro exI [of _ um] exI [of _ c] exI [of _ f0]) simp
qed

lemma base_op_codes:
  "AM_OPCODE AM_OP_CODE_GETC_CAP_COUNT = 2" "\<not> IS_OP_ALIGNED AM_OP_CODE_GETC_CAP_COUNT" "\<not> IS_OP_PACKET AM_OP_CODE_GETC_CAP_COUNT"
  "AM_OPCODE AM_OP_CODE_GET_CAPS = 3" "\<not> IS_OP_ALIGNED AM_OP_CODE_GET_CAPS" "\<not> IS_OP_PACKET AM_OP_CODE_GET_CAPS"
  "k_base_ops ! 2 = Some Fn_k_get_cap_count" "k_base_ops ! 3 = Some Fn_k_get_capabilites"
  by (simp_all add: AM_OP_CODE_GETC_CAP_COUNT_def AM_OP_CODE_GET_CAPS_def AM_SET_PACKTYPE_def AM_OPCODE_def IS_OP_ALIGNED_def
      IS_OP_PACKET_def AM_NET_GET_PACKTYPE_def k_base_ops_def zero_ops_def)

lemma um_upd_trans: "um_upd S a b \<Longrightarrow> um_upd T b c \<Longrightarrow> um_upd (S \<union> T) a c"
  by (auto simp: um_upd_def)

text \<open>The number of capabilities: five, whatever is registered.\<close>

lemma kd_count_ok:
  assumes k: "k_based k" and fd: "sint fd > - 1" "fds fd = Some 0" and sp: "sp \<noteq> 0" "um_mapped (kn_um k) sp 24"
    and pc: "um_mapped (kn_um k) pc 4"
  shows "\<exists>um cmd. am_kd_get_capabilities_count e fds sp junk pc fd k = Inr (5, k\<lparr>kn_um := um, kn_cmd := cmd\<rparr>) \<and>
    length cmd = sizeof_CMD_U \<and> dom um = dom (kn_um k)"
proof -
  obtain u1 where u1: "um_put (kn_um k) pc (le_enc 4 (0 :: UINT32)) = Inr u1" "um_upd (um_range pc 4) (kn_um k) u1"
    using um_put_ok [of "kn_um k" pc "le_enc 4 (0 :: UINT32)"] pc by auto
  have m1: "um_mapped (kn_um (k\<lparr>kn_um := u1\<rparr>)) sp 24" using sp(2) um_upd_mapped [OF u1(2)] by simp
  have ops: "unat (AM_OPCODE AM_OP_CODE_GETC_CAP_COUNT) < 64"
    "k_base_ops ! unat (AM_OPCODE AM_OP_CODE_GETC_CAP_COUNT) = Some Fn_k_get_cap_count"
    by (simp_all add: base_op_codes)
  obtain um cmd f0 where io: "kd_ioctl e fds sp (k\<lparr>kn_um := u1\<rparr>) fd APPMEMD_OP_COMMON
      (enc_cmd_common AM_OP_CODE_GETC_CAP_COUNT 4 pc (fresh junk 8)) =
      appmem_get_cap_count (k\<lparr>kn_um := um, kn_cmd := cmd\<rparr>) f0" "fn_amType f0 = AM_TYPE_BASE_APPMEM" "rd64 cmd 8 = Inr pc"
    "length cmd = 256" "um_upd (um_range sp 24) u1 um"
    using kd_base_command [where k = "k\<lparr>kn_um := u1\<rparr>" and fds = fds and fd = fd and sp = sp and e = e and junk = junk and data = pc and n = 4,
        OF _ fd(2) sp(1) m1 ops base_op_codes(2,3)] k by (auto simp: k_based_um)
  have m2: "um_mapped um pc (length (le_enc 4 (5 :: UINT32)))" using pc um_upd_mapped [OF u1(2)] um_upd_mapped [OF io(5)] by simp
  obtain u2 where u2: "um_put um pc (le_enc 4 (5 :: UINT32)) = Inr u2" "um_upd (um_range pc 4) um u2" "um_prefix u2 pc 4 = le_enc 4 (5 :: UINT32)"
    using um_put_ok [OF m2] by auto
  have "appmem_get_cap_count (k\<lparr>kn_um := um, kn_cmd := cmd\<rparr>) f0 = Inr (AM_RET_GOOD, k\<lparr>kn_um := u2, kn_cmd := cmd\<rparr>)"
    using io(2,3) u2(1) by (simp add: appmem_get_cap_count_def put_user32_def virtd_base_cap_def mk_cap_def)
  moreover have "um_get u2 pc 4 = Inr (le_enc 4 (5 :: UINT32))"
    using u2(3) um_get_ok [of u2 pc 4] m2 um_upd_mapped [OF u2(2)] by simp
  ultimately have "am_kd_get_capabilities_count e fds sp junk pc fd k = Inr (5, k\<lparr>kn_um := u2, kn_cmd := cmd\<rparr>)"
    using u1(1) fd(1) io(1) le_dec_enc [of 4 "5 :: UINT32"] by (simp add: am_kd_get_capabilities_count_def)
  moreover have "dom u2 = dom (kn_um k)" using u1(2) io(5) u2(2) by (simp add: um_upd_def)
  ultimately show ?thesis using io(4) by blast
qed

section \<open>The capabilities\<close>

lemma um_range_add: "um_range a (m + n) = um_range a m \<union> um_range (a + of_nat m) n"
  by (induction m arbitrary: a) (simp_all add: um_range_Suc add.assoc)

lemma um_range_next:
  assumes "m + n \<le> 2 ^ 64"
  shows "um_range a m \<inter> um_range (a + of_nat m) n = {}"
  using assms
proof (induction m arbitrary: a n)
  case (Suc m)
  have "um_range (a + 1) m \<inter> um_range (a + 1 + of_nat m) n = {}" by (rule Suc.IH) (use Suc.prems in simp)
  moreover have "a \<notin> um_range (a + 1) (m + n)" by (rule um_range_fresh) (use Suc.prems in simp)
  ultimately show ?case by (auto simp: um_range_Suc um_range_add add.assoc)
qed simp

text \<open>A block written twice, the second time by the kernel's copy.\<close>

lemma put_twice:
  assumes "um_mapped um a (length b)" "length b < 2 ^ 64"
  shows "\<exists>um1 um2. um_put um a b = Inr um1 \<and> copy_to_user um1 a b = (um2, True) \<and> um_upd (um_range a (length b)) um um2 \<and>
    um_prefix um2 a (length b) = b"
proof -
  obtain um1 where um1: "um_put um a b = Inr um1" "um_upd (um_range a (length b)) um um1"
    using um_put_ok [OF assms] by blast
  have "um_mapped um1 a (length b)" using assms(1) um_upd_mapped [OF um1(2)] by simp
  from copy_to_user_ok [OF this assms(2)] um1 um_upd_trans [OF um1(2)] show ?thesis by fastforce
qed

lemma k_copy_caps_ok:
  assumes "\<forall>c\<in>set (caps_from n i reg). wf_cap c" "n < 1000" "um_mapped um p (168 * length (caps_from n i reg))"
  shows "\<exists>um'. k_copy_caps n i reg um p = Inr (True, um') \<and> um_upd (um_range p (168 * length (caps_from n i reg))) um um' \<and>
    um_prefix um' p (168 * length (caps_from n i reg)) = enc_caps (caps_from n i reg)"
  using assms
proof (induction n arbitrary: i um p)
  case 0
  then show ?case by (simp add: um_upd_def enc_caps_def)
next
  case (Suc n)
  let ?c = "if i = 0 then Some virtd_base_cap else Option.bind (reg ! i) fe_pCap"
  let ?cs = "caps_from n (Suc i) reg"
  have n: "n < 1000" using Suc.prems(2) by simp
  show ?case
  proof (cases ?c)
    case None
    then have "caps_from (Suc n) i reg = ?cs" "k_copy_caps (Suc n) i reg um p = k_copy_caps n (Suc i) reg um p"
      by (cases "i = 0"; simp)+
    then show ?thesis using Suc.IH [of "Suc i" um p] Suc.prems n by simp
  next
    case (Some c)
    have cf: "caps_from (Suc n) i reg = c # ?cs"
      using Some by (simp only: caps_from.simps option.case append_Cons append_Nil)
    have l: "length (enc_mem_cap c) = 168" using Suc.prems(1) length_enc_mem_cap unfolding cf by simp
    have cs: "length ?cs < 1000" using length_caps_from [of n "Suc i" reg] n by simp
    have r: "168 * length (c # ?cs) = 168 + 168 * length ?cs" by simp
    have m: "um_mapped um p 168" "um_mapped um (p + 168) (168 * length ?cs)"
      using Suc.prems(3) um_range_add [of p 168 "168 * length ?cs"] unfolding cf r by (auto simp: um_mapped_def)
    have m': "um_mapped um p (length (enc_mem_cap c))" using m(1) l by simp
    obtain u1 u2 where u: "um_put um p (enc_mem_cap c) = Inr u1" "copy_to_user u1 p (enc_mem_cap c) = (u2, True)"
      "um_upd (um_range p 168) um u2" "um_prefix u2 p 168 = enc_mem_cap c"
      using put_twice [OF m'] l by auto
    obtain u3 where u3: "copy_to_user um p (enc_mem_cap c) = (u3, True)" "um_upd (um_range p 168) um u3" "um_prefix u3 p 168 = enc_mem_cap c"
      using copy_to_user_ok [OF m'] l by auto
    define v where "v = (if i = 0 then u3 else u2)"
    have v: "um_upd (um_range p 168) um v" "um_prefix v p 168 = enc_mem_cap c" using u u3 by (simp_all add: v_def)
    have step: "k_copy_caps (Suc n) i reg um p = k_copy_caps n (Suc i) reg v (p + 168)"
      using Some u u3 by (cases "i = 0") (simp_all add: v_def)
    have mv: "um_mapped v (p + 168) (168 * length ?cs)" using m(2) um_upd_mapped [OF v(1)] by simp
    obtain um' where um': "k_copy_caps n (Suc i) reg v (p + 168) = Inr (True, um')"
      "um_upd (um_range (p + 168) (168 * length ?cs)) v um'" "um_prefix um' (p + 168) (168 * length ?cs) = enc_caps ?cs"
      using Suc.IH [of "Suc i" v "p + 168"] Suc.prems(1) n mv unfolding cf by auto
    have d: "um_range p 168 \<inter> um_range (p + 168) (168 * length ?cs) = {}"
      using um_range_next [of 168 "168 * length ?cs" p] cs by simp
    have "um_mapped um' p (168 + 168 * length ?cs)"
      using Suc.prems(3) um_upd_mapped [OF v(1)] um_upd_mapped [OF um'(2)] unfolding cf r by simp
    from um_prefix_append [OF this] have "um_prefix um' p (168 + 168 * length ?cs) = enc_caps (c # ?cs)"
      using um_upd_prefix [OF um'(2) d] v(2) um'(3) by (simp add: enc_caps_def)
    moreover have "um_upd (um_range p (168 + 168 * length ?cs)) um um'"
      using um_upd_trans [OF v(1) um'(2)] by (simp add: um_range_add)
    ultimately show ?thesis using step um'(1) unfolding cf r by simp
  qed
qed

lemma kd_caps_ok:
  assumes k: "k_based k" and fd: "sint fd > - 1" "fds fd = Some 0" and sp: "sp \<noteq> 0" "um_mapped (kn_um k) sp 24"
    and reg: "\<forall>c\<in>set (caps_from 5 0 (kn_reg k)). wf_cap c" and p: "um_mapped (kn_um k) p 840"
  shows "\<exists>um cmd rest. am_kd_get_capabilities e fds sp junk fd k p 5 = Inr (AM_RET_GOOD, k\<lparr>kn_um := um, kn_cmd := cmd\<rparr>) \<and>
    length cmd = sizeof_CMD_U \<and> dom um = dom (kn_um k) \<and> um_get um p 840 = Inr (enc_caps (caps_from 5 0 (kn_reg k)) @ rest)"
proof -
  let ?cs = "caps_from 5 0 (kn_reg k)"
  have ops: "unat (AM_OPCODE AM_OP_CODE_GET_CAPS) < 64" "k_base_ops ! unat (AM_OPCODE AM_OP_CODE_GET_CAPS) = Some Fn_k_get_capabilites"
    by (simp_all add: base_op_codes)
  have n: "(5 :: UINT32) * of_nat sizeof_MEM_CAP = 840" by simp
  obtain um cmd f0 where io: "kd_ioctl e fds sp k fd APPMEMD_OP_COMMON
      (enc_cmd_common AM_OP_CODE_GET_CAPS 840 p (fresh junk 8)) =
      appmem_get_capabilites (k\<lparr>kn_um := um, kn_cmd := cmd\<rparr>) f0" "fn_amType f0 = AM_TYPE_BASE_APPMEM" "rd32 cmd 4 = Inr 840" "rd64 cmd 8 = Inr p"
    "length cmd = 256" "um_upd (um_range sp 24) (kn_um k) um"
    using kd_base_command [where k = k and fds = fds and fd = fd and sp = sp and e = e and junk = junk and data = p and n = 840,
        OF k fd(2) sp ops base_op_codes(5,6)] by auto
  have l: "length ?cs \<le> 5" by (rule length_caps_from)
  have m: "um_mapped um p 840" using p um_upd_mapped [OF io(6)] by simp
  then have m1: "um_mapped um p (168 * length ?cs)" by (rule um_mappedD) (use l in simp)
  obtain um2 where um2: "k_copy_caps 5 0 (kn_reg k) um p = Inr (True, um2)" "um_upd (um_range p (168 * length ?cs)) um um2"
    "um_prefix um2 p (168 * length ?cs) = enc_caps ?cs"
    using k_copy_caps_ok [OF reg _ m1] by auto
  have q: "unat ((840 :: UINT32) div 168) = 5" by (simp add: unat_div)
  have "appmem_get_capabilites (k\<lparr>kn_um := um, kn_cmd := cmd\<rparr>) f0 = Inr (AM_RET_GOOD, k\<lparr>kn_um := um2, kn_cmd := cmd\<rparr>)"
    using io(2-4) um2(1) q by (simp add: appmem_get_capabilites_def virtd_base_cap_def mk_cap_def)
  then have "am_kd_get_capabilities e fds sp junk fd k p 5 = Inr (AM_RET_GOOD, k\<lparr>kn_um := um2, kn_cmd := cmd\<rparr>)"
    using fd(1) io(1) by (simp add: am_kd_get_capabilities_def)
  moreover have "um_mapped um2 p (168 * length ?cs + (840 - 168 * length ?cs))" using m um_upd_mapped [OF um2(2)] l by simp
  from um_prefix_take [OF this] have "um_prefix um2 p 840 = enc_caps ?cs @ drop (168 * length ?cs) (um_prefix um2 p 840)"
    using l um2(3) by simp
  moreover have "um_get um2 p 840 = Inr (um_prefix um2 p 840)"
    using m um_upd_mapped [OF um2(2)] by (intro um_get_ok) simp
  moreover have "dom um2 = dom (kn_um k)" using io(6) um2(2) by (simp add: um_upd_def)
  ultimately show ?thesis using io(5) by (metis (no_types))
qed

section \<open>What the module announces\<close>

definition announced :: "mem_cap \<Rightarrow> mem_cap" where
  "announced c = c\<lparr>cap_access_flags := cap_access_flags c OR AM_CAP_AC_FLAG_PACK_MMAP\<rparr>"

lemma caps_from_cong: "(\<And>j. i \<le> j \<Longrightarrow> j < i + n \<Longrightarrow> reg ! j = reg' ! j) \<Longrightarrow> caps_from n i reg = caps_from n i reg'"
proof (induction n arbitrary: i)
  case (Suc n)
  have "caps_from n (Suc i) reg = caps_from n (Suc i) reg'" by (rule Suc.IH) (use Suc.prems in simp)
  then show ?case using Suc.prems [of i] by simp
qed simp

lemma announce_before: "k_announce_all n i reg = Inr reg' \<Longrightarrow> j < i \<Longrightarrow> reg' ! j = reg ! j"
  by (induction n arbitrary: i reg) (auto simp: res_simps split: if_splits option.splits)

lemma announce_caps:
  assumes "k_announce_all n i reg = Inr reg'" "0 < i" "i + n \<le> length reg"
  shows "caps_from n i reg' = map announced (caps_from n i reg)"
  using assms
proof (induction n arbitrary: i reg)
  case (Suc n)
  obtain fe c where fe: "reg ! i = Some fe" "fe_pCap fe = Some c"
    "k_announce_all n (Suc i) (reg[i := Some (fe\<lparr>fe_pCap := Some (announced c)\<rparr>)]) = Inr reg'"
    using Suc.prems(1,2) by (auto simp: res_simps k_announce_def announced_def split: option.splits)
  let ?reg = "reg[i := Some (fe\<lparr>fe_pCap := Some (announced c)\<rparr>)]"
  have "reg' ! i = ?reg ! i" by (rule announce_before [OF fe(3)]) simp
  moreover have "caps_from n (Suc i) reg' = map announced (caps_from n (Suc i) ?reg)"
    by (rule Suc.IH [OF fe(3)]) (use Suc.prems in simp_all)
  moreover have "caps_from n (Suc i) ?reg = caps_from n (Suc i) reg" by (rule caps_from_cong) auto
  ultimately show ?case using fe Suc.prems(2,3) by simp
qed simp

text \<open>A capability the library lists is listed by the module, with the page among its access flags.\<close>

lemma wf_announced [simp]: "wf_cap (announced c) = wf_cap c"
  by (simp add: announced_def wf_cap_def)

definition k_lists :: "registry \<Rightarrow> mem_cap \<Rightarrow> bool" where
  "k_lists reg c \<longleftrightarrow> (\<forall>c\<in>set (caps_from 5 0 reg). wf_cap c) \<and>
     find (\<lambda>c'. cap_amType c' = cap_amType c) (caps_from 5 0 reg) = Some c"

lemma find_map_announced:
  "find (\<lambda>c. cap_amType c = ty) (map announced cs) = map_option announced (find (\<lambda>c. cap_amType c = ty) cs)"
  by (induction cs) (simp_all add: announced_def)

lemma init_lists:
  assumes "appmemd_init e result major reg um = Inr (st, k)" "0 \<le> sint result" "\<And>i. ke_al e i"
    and "lists_cap reg c" "cap_amType c \<noteq> AM_TYPE_BASE_APPMEM"
  shows "k_lists (kn_reg k) (announced c)"
proof -
  have reg: "reg_ok reg" "length reg = 100" using assms(4) by (simp_all add: lists_cap_def reg_ok_def)
  have "k_announce_all 5 0 reg = Inr (kn_reg k)"
    using assms(1-3) by (auto simp: appmemd_init_def res_simps Let_def virtd_base_cap_def mk_cap_def)
  then have a: "k_announce_all 4 (Suc 0) reg = Inr (kn_reg k)" by (simp add: eval_nat_numeral)
  have cf: "caps_from 5 0 reg' = virtd_base_cap # caps_from 4 (Suc 0) reg'" for reg' by (simp add: eval_nat_numeral)
  define cs where "cs = caps_from 4 (Suc 0) reg"
  have k: "caps_from 5 0 (kn_reg k) = virtd_base_cap # map announced cs"
    unfolding cf cs_def using announce_caps [OF a] reg(2) by simp
  have b: "caps_from 5 0 reg = virtd_base_cap # cs" unfolding cf cs_def ..
  have "\<forall>c\<in>set (caps_from 5 0 reg). wf_cap c" using caps_from_wf [OF reg(1), of 0 5] by simp
  then have "\<forall>c\<in>set (caps_from 5 0 (kn_reg k)). wf_cap c" unfolding k b by auto
  moreover have base: "cap_amType virtd_base_cap = AM_TYPE_BASE_APPMEM" by (simp add: virtd_base_cap_def mk_cap_def)
  have "find (\<lambda>c'. cap_amType c' = cap_amType c) (caps_from 5 0 reg) = Some c" using assms(4) by (simp add: lists_cap_def)
  then have "find (\<lambda>c'. cap_amType c' = cap_amType c) cs = Some c" using assms(5) base by (simp add: b)
  then have "find (\<lambda>c'. cap_amType c' = cap_amType c) (caps_from 5 0 (kn_reg k)) = Some (announced c)"
    unfolding k using assms(5) base by (simp add: find_map_announced)
  moreover have "cap_amType (announced c) = cap_amType c" by (simp add: announced_def)
  ultimately show ?thesis by (simp add: k_lists_def)
qed

section \<open>Making an object over the module\<close>

definition kern_entry :: "bytes \<Rightarrow> amlib_entry \<Rightarrow> amlib_entry" where
  "kern_entry name e = e\<lparr>en_am_name := Some name, en_create_function := Some En_kd_create_function,
     en_get_capabilities := Some En_kd_get_capabilities, en_get_cap_count := Some En_kd_get_capabilities_count,
     en_close := Some En_kd_entry_close, en_get_cap_details := Some En_kd_get_cap_details\<rparr>"

text \<open>
  The memory of the process, by the addresses that are mapped: the command on the stack, the local \<open>count\<close>, \<open>pAllCaps\<close>, the
  local capability, and the response in the function object, the capability apart from the command and the response.
\<close>

definition lib_layout :: "'w libenv \<Rightarrow> UINT64 set \<Rightarrow> bool" where
  "lib_layout v D \<longleftrightarrow> lv_a_cmd v \<noteq> 0 \<and> um_range (lv_a_cmd v) 32 \<subseteq> D \<and> um_range (lv_a_count v) 4 \<subseteq> D \<and>
     um_range (lv_a_caps v) 840 \<subseteq> D \<and> um_range (lv_a_cap v) 168 \<subseteq> D \<and> um_range (lv_a_cr v) 360 \<subseteq> D \<and>
     um_range (lv_a_cap v) 168 \<inter> um_range (lv_a_cmd v) 32 = {} \<and> um_range (lv_a_cap v) 168 \<inter> um_range (lv_a_cr v) 360 = {}"

lemma mapped_dom: "um_mapped um a n \<longleftrightarrow> um_range a n \<subseteq> dom um"
  by (auto simp: um_mapped_def)

text \<open>The files: the base device, and the one the next creation makes, whose page is mapped and whose thread runs in time.\<close>

definition lib_files :: "'w libenv \<Rightarrow> kern \<Rightarrow> bool" where
  "lib_files v k \<longleftrightarrow> sint (lv_fd_base v) > - 1 \<and> lv_fds v (lv_fd_base v) = Some 0 \<and> sint (lv_fd_dev v) > - 1 \<and>
     lv_fds v (lv_fd_dev v) = Some (kn_minor k) \<and> lv_mmap v \<and> lv_al v 0 \<and> lv_al v 1 \<and> 2 \<le> sum (lv_sch v) {..<14} \<and> 2 \<le> lv_fuel v \<and>
     (\<forall>i. ke_al (lv_ke v) i)"

lemma initBase_kernel:
  assumes k: "k_based (lb_kern s)" "lib_layout v (dom (kn_um (lb_kern s)))" "lib_files v (lb_kern s)"
    and reg: "\<forall>c\<in>set (caps_from 5 0 (kn_reg (lb_kern s))). wf_cap c"
    and n: "lv_new v 0" "ty \<noteq> AM_TYPE_BASE_APPMEM" "am_get_ip_address name = Inr 0"
  shows "\<exists>um cmd rest. initBase v cc (Some name) ty ob s =
    init_device v cc ty (enc_caps (caps_from 5 0 (kn_reg (lb_kern s))) @ rest)
      (ob\<lparr>cm_amEntry := kern_entry name (cm_amEntry ob), cm_cap_count := 5\<rparr>) (s\<lparr>lb_kern := (lb_kern s)\<lparr>kn_um := um, kn_cmd := cmd\<rparr>\<rparr>) \<and>
    length cmd = sizeof_CMD_U \<and> dom um = dom (kn_um (lb_kern s))"
proof -
  let ?k = "lb_kern s" and ?D = "dom (kn_um (lb_kern s))" and ?b = "fresh (lv_junk v) 840"
  note L = k(2) [unfolded lib_layout_def] and F = k(3) [unfolded lib_files_def]
  have sp: "lv_a_cmd v \<noteq> 0" "um_mapped (kn_um ?k) (lv_a_cmd v) 24" "um_mapped (kn_um ?k) (lv_a_count v) 4"
    using L um_range_mono [of 24 32 "lv_a_cmd v"] by (auto simp: mapped_dom)
  obtain u1 c1 where count: "am_kd_get_capabilities_count (lv_ke v) (lv_fds v) (lv_a_cmd v) (lv_junk v) (lv_a_count v) (lv_fd_base v) ?k =
      Inr (5, ?k\<lparr>kn_um := u1, kn_cmd := c1\<rparr>)" "length c1 = 256" "dom u1 = ?D"
    using kd_count_ok [where k = ?k and fds = "lv_fds v" and fd = "lv_fd_base v" and sp = "lv_a_cmd v" and pc = "lv_a_count v" and
        e = "lv_ke v" and junk = "lv_junk v", OF k(1) _ _ sp] F by auto
  have m2: "um_mapped u1 (lv_a_caps v) (length ?b)" using L count(3) by (simp add: mapped_dom fresh_def)
  obtain u2 where u2: "um_put u1 (lv_a_caps v) ?b = Inr u2" "um_upd (um_range (lv_a_caps v) (length ?b)) u1 u2"
    using um_put_ok [OF m2] by (auto simp: fresh_def)
  have d2: "dom u2 = ?D" using u2(2) count(3) by (simp add: um_upd_def)
  let ?k2 = "?k\<lparr>kn_um := u2, kn_cmd := c1\<rparr>"
  have b2: "k_based ?k2" using k_based_cmd [OF k(1) count(2)] .
  have m3: "um_mapped (kn_um ?k2) (lv_a_cmd v) 24" "um_mapped (kn_um ?k2) (lv_a_caps v) 840"
    using L d2 sp(2) by (auto simp: mapped_dom)
  obtain u3 c3 rest where caps: "am_kd_get_capabilities (lv_ke v) (lv_fds v) (lv_a_cmd v) (lv_junk v) (lv_fd_base v) ?k2 (lv_a_caps v) 5 =
      Inr (AM_RET_GOOD, ?k2\<lparr>kn_um := u3, kn_cmd := c3\<rparr>)" "length c3 = 256" "dom u3 = ?D"
    "um_get u3 (lv_a_caps v) 840 = Inr (enc_caps (caps_from 5 0 (kn_reg ?k)) @ rest)"
    using kd_caps_ok [where k = ?k2 and fds = "lv_fds v" and fd = "lv_fd_base v" and sp = "lv_a_cmd v" and p = "lv_a_caps v" and
        e = "lv_ke v" and junk = "lv_junk v", OF b2 _ _ sp(1) m3(1) _ m3(2)] F reg d2 by auto
  have put: "kern_put (lv_a_caps v) ?b (s\<lparr>lb_kern := ?k\<lparr>kn_um := u1, kn_cmd := c1\<rparr>\<rparr>) = Inr (s\<lparr>lb_kern := ?k2\<rparr>)"
    using u2(1) by (simp add: kern_put_def)
  have "initBase v cc (Some name) ty ob s = init_device v cc ty (enc_caps (caps_from 5 0 (kn_reg ?k)) @ rest)
      (ob\<lparr>cm_amEntry := kern_entry name (cm_amEntry ob), cm_cap_count := 5\<rparr>) (s\<lparr>lb_kern := ?k\<lparr>kn_um := u3, kn_cmd := c3\<rparr>\<rparr>)"
    using n count(1) put caps(1,4)
    by (simp add: initBase_def am_get_entry_point_def call_get_cap_count_def call_get_capabilities_def kern_entry_def Let_def fresh_def)
  then show ?thesis using caps(2,3) by blast
qed

text \<open>The creation: capability and response are put into the memory, and \<open>kd_create_ok\<close> applies.\<close>

lemma call_create_kernel:
  assumes k: "k_based (lb_kern s)" "lib_layout v (dom (kn_um (lb_kern s)))" "lib_files v (lb_kern s)"
    and c: "wf_cap cap" "k_creates (lv_ke v) cap f" "wf_cr (fn_crResp F)" "fn_calls F = Some fc"
  shows "\<exists>s' fm d f1. call_create_function v (Some En_kd_create_function) s cap F = Inr (AM_RET_GOOD, F\<lparr>fn_crResp := fn_crResp f1, fn_handle := - 1,
      fn_pEntry := True, fn_calls := Some (kd_calls (fn_crResp f1) fc)\<rparr>, s') \<and>
    lb_kp s' = (lb_kp s)\<lparr>kp_map := fm\<rparr> \<and>
    fm = (if cap_access_flags cap AND AM_CAP_AC_FLAG_PACK_MMAP \<noteq> 0 then (kp_map (lb_kp s))\<lparr>fm_map_flags := cap_access_flags cap\<rparr>
          else kp_map (lb_kp s)) \<and>
    kn_devs (lb_kern s') = (kn_devs (lb_kern s))(kn_minor (lb_kern s) \<mapsto> d) \<and> kd_func d = Some f1 \<and> k_dev_of f f1"
proof -
  let ?k = "lb_kern s"
  note L = k(2) [unfolded lib_layout_def] and Fi = k(3) [unfolded lib_files_def]
  have l: "length (enc_mem_cap cap) = 168" "length (enc_cr_resp (fn_crResp F)) = 360"
    using length_enc_mem_cap [OF c(1)] length_enc_cr_resp [OF c(3)] by simp_all
  have m1: "um_mapped (kn_um ?k) (lv_a_cap v) (length (enc_mem_cap cap))" using L unfolding l by (simp add: mapped_dom)
  obtain u1 where u1: "um_put (kn_um ?k) (lv_a_cap v) (enc_mem_cap cap) = Inr u1" "um_upd (um_range (lv_a_cap v) 168) (kn_um ?k) u1"
    "um_prefix u1 (lv_a_cap v) 168 = enc_mem_cap cap"
    using um_put_ok [OF m1] unfolding l by auto
  have m2: "um_mapped u1 (lv_a_cr v) (length (enc_cr_resp (fn_crResp F)))"
    using L um_upd_mapped [OF u1(2)] unfolding l by (simp add: mapped_dom)
  obtain u2 where u2: "um_put u1 (lv_a_cr v) (enc_cr_resp (fn_crResp F)) = Inr u2" "um_upd (um_range (lv_a_cr v) 360) u1 u2"
    using um_put_ok [OF m2] unfolding l by auto
  let ?k2 = "?k\<lparr>kn_um := u2\<rparr>"
  have D: "dom u2 = dom (kn_um ?k)" using u1(2) u2(2) by (simp add: um_upd_def)
  have "um_prefix u2 (lv_a_cap v) 168 = enc_mem_cap cap" using um_upd_prefix [OF u2(2)] L u1(3) by simp
  then have mem: "kd_mem (kn_um ?k2) (lv_a_cmd v) (lv_a_cap v) (lv_a_cr v) cap"
    using L D rd_enc_mem_cap [OF c(1), of "[]"] by (simp add: kd_mem_def mapped_dom)
  have b2: "k_based ?k2" using k(1) by (simp add: k_based_um)
  have fd: "- 1 < sint (lv_fd_base v)" "lv_fds v (lv_fd_base v) = Some 0" "\<And>i. ke_al (lv_ke v) i" using Fi by simp_all
  obtain F' fm k' d f1 where create: "am_kd_create_function (lv_ke v) (lv_fds v) (lv_a_cmd v) (lv_junk v) (lv_fd_base v) ?k2 (lv_a_cap v) (lv_a_cr v) F
      (kp_map (lb_kp s)) = Inr (AM_RET_GOOD, F', fm, k')"
    "F' = F\<lparr>fn_crResp := fn_crResp f1, fn_handle := - 1, fn_pEntry := True, fn_calls := Some (kd_calls (fn_crResp f1) fc)\<rparr>"
    "fm = (if cap_access_flags cap AND AM_CAP_AC_FLAG_PACK_MMAP \<noteq> 0 then (kp_map (lb_kp s))\<lparr>fm_map_flags := cap_access_flags cap\<rparr>
          else kp_map (lb_kp s))"
    "kn_devs k' = (kn_devs ?k)(kn_minor ?k \<mapsto> d)" "kd_func d = Some f1" "k_dev_of f f1"
    using kd_create_ok [where k = ?k2 and fds = "lv_fds v" and fd = "lv_fd_base v" and e = "lv_ke v" and F = F and junk = "lv_junk v" and
        fm = "kp_map (lb_kp s)", OF b2 fd(1,2) mem c(2) fd(3) c(4)] by auto
  have "call_create_function v (Some En_kd_create_function) s cap F =
      Inr (AM_RET_GOOD, F', s\<lparr>lb_kern := k', lb_kp := (lb_kp s)\<lparr>kp_map := fm\<rparr>\<rparr>)"
    using u1(1) u2(1) create(1) by (simp add: call_create_function_def kern_put_def)
  then show ?thesis using create(2-6) by (intro exI [of _ "s\<lparr>lb_kern := k', lb_kp := (lb_kp s)\<lparr>kp_map := fm\<rparr>\<rparr>"]) auto
qed

text \<open>The open: the page is mapped and its thread started, and the calls become those of packets.\<close>

lemma call_open_kernel:
  assumes files: "lib_files v k0" and d: "kn_devs (lb_kern s) (kn_minor k0) = Some d" "kd_func d = Some f"
    and F: "length (c_string (cr_am_name (fn_crResp F))) \<le> 58" "fn_calls F = Some fc" "is_pack_op (cr_acOps (fn_crResp F) ! 0)"
      "is_pack_op (cr_acOps (fn_crResp F) ! 1)" "cr_is_32 (fn_crResp F)"
    and fm: "fm_map_flags (kp_map (lb_kp s)) AND AM_CAP_AC_FLAG_PACK_MMAP \<noteq> 0"
  shows "\<exists>s'. call_open v s (Some Fn_kd_open) F = Inr (AM_RET_GOOD, F\<lparr>fn_handle := lv_fd_dev v,
      fn_calls := Some (fc\<lparr>fc_write_al := Some Fn_pack_write32_align, fc_read_al := Some Fn_pack_read32_align\<rparr>),
      fn_send_and_wait := True, fn_get_free_iop := True\<rparr>, s') \<and> kp_ready (lb_kp s') \<and> kp_func (lb_kp s') = f"
proof -
  note L = files [unfolded lib_files_def]
  define m where "m = \<lparr>km_page = fault_page, km_isMapped = True, km_func = Some f, km_flags = kd_flags d\<rparr>"
  have "appmemd_vma_fault (lv_al v) d = Inr (m, True)" using L d(2) by (simp add: appmemd_vma_fault_def m_def)
  then have mapped: "mapped_device v (lb_kern s) = Inr (Some (T_start, m))" using L d(1) by (simp add: mapped_device_def)
  have m: "km_page m = fault_page" "km_isMapped m" "km_func m = Some f" by (simp_all add: m_def)
  obtain fm' m' where "am_kd_open (lv_al v) (lv_junk v) (lv_sch v) (lv_fuel v) (lv_fd_dev v) (Some (T_start, m)) F (kp_map (lb_kp s)) =
      Inr (AM_RET_GOOD, F\<lparr>fn_handle := lv_fd_dev v,
        fn_calls := Some (fc\<lparr>fc_write_al := Some Fn_pack_write32_align, fc_read_al := Some Fn_pack_read32_align\<rparr>),
        fn_send_and_wait := True, fn_get_free_iop := True\<rparr>, fm', Some (T_run, m'))"
    "kp_ready \<lparr>kp_map = fm', kp_th = T_run, kp_dev = m'\<rparr>" "km_func m' = Some f"
    using kd_open_sync(1) [OF F(1) _ fm m _ F(2-4), of "lv_fd_dev v" "lv_fuel v" "lv_sch v" "lv_al v" "lv_junk v"] L F(5)
    by (auto simp: pack_write_op_def pack_read_op_def)
  then show ?thesis using mapped by (simp add: call_open_def kp_func_def)
qed

text \<open>
  A derived class over the module: the object is ready, its calls are those of packets, and behind the page is the device made
  with the capability the class configured.
\<close>

definition paged :: "'a cappmem_scheme \<Rightarrow> bool" where
  "paged ob \<longleftrightarrow> by_kernel (cm_amEntry ob) \<and> uses Fn_pack_read32_align Fn_pack_write32_align ob \<and>
     fn_pEntry (cm_amFunc ob) \<and> fn_get_free_iop (cm_amFunc ob) \<and> fn_send_and_wait (cm_amFunc ob)"

lemma new_kernel:
  assumes k: "k_based (lb_kern s)" "lib_layout v (dom (kn_um (lb_kern s)))" "lib_files v (lb_kern s)"
    and lists: "k_lists (kn_reg (lb_kern s)) c" and ty: "cap_amType c \<noteq> AM_TYPE_BASE_APPMEM"
    and n: "\<And>i. lv_new v i" "am_get_ip_address name = Inr 0"
    and obj: "obj = ob\<lparr>cm_amEntry := kern_entry name (cm_amEntry ob), cm_pBaseCaps := Live (enc_mem_cap c), cm_cap_count := 1,
      cm_pCalls := Some (Live ()), cm_amFunc := (cm_amFunc ob)\<lparr>fn_calls := Some (lv_calls v)\<rparr>\<rparr>"
    and cc: "cc obj c = (AM_RET_GOOD, cap)" and cap: "wf_cap cap" "cap_access_flags cap AND AM_CAP_AC_FLAG_PACK_MMAP \<noteq> 0"
    and f: "k_creates (lv_ke v) cap f" "cr_acOps (fn_crResp f) = [op_word AM_PACK_ALIGN AM_OP_WRITE_ALIGN, op_word AM_PACK_ALIGN AM_OP_READ_ALIGN]"
      "cr_data_size (fn_crResp f) = 4" "cr_idx_size (fn_crResp f) = 4"
    and wf: "wf_cr (fn_crResp (cm_amFunc ob))"
  shows "\<exists>F s' f1. initBase v cc (Some name) (cap_amType c) ob s = Inr (obj\<lparr>cm_amFunc := F, cm_bReady := True\<rparr>, s') \<and>
    paged (obj\<lparr>cm_amFunc := F, cm_bReady := True\<rparr>) \<and> kp_ready (lb_kp s') \<and> kp_func (lb_kp s') = f1 \<and> k_dev_of f f1"
proof -
  let ?cs = "caps_from 5 0 (kn_reg (lb_kern s))" and ?ob = "ob\<lparr>cm_amEntry := kern_entry name (cm_amEntry ob), cm_cap_count := 5\<rparr>"
  let ?F = "(cm_amFunc ob)\<lparr>fn_calls := Some (lv_calls v)\<rparr>"
  note L = lists [unfolded k_lists_def]
  obtain um cmd rest where i: "initBase v cc (Some name) (cap_amType c) ob s = init_device v cc (cap_amType c) (enc_caps ?cs @ rest)
      ?ob (s\<lparr>lb_kern := (lb_kern s)\<lparr>kn_um := um, kn_cmd := cmd\<rparr>\<rparr>)" "length cmd = 256" "dom um = dom (kn_um (lb_kern s))"
    using initBase_kernel [where cc = cc and ob = ob, OF k conjunct1 [OF L] n(1) ty n(2)] by blast
  define s1 where "s1 = s\<lparr>lb_kern := (lb_kern s)\<lparr>kn_um := um, kn_cmd := cmd\<rparr>\<rparr>"
  have k1: "k_based (lb_kern s1)" "lib_layout v (dom (kn_um (lb_kern s1)))" "lib_files v (lb_kern s1)"
    using k k_based_cmd [OF k(1) i(2)] i(3) by (simp_all add: s1_def lib_files_def)
  have "find_cap ([] @ enc_caps ?cs @ rest) (cap_amType c) 5 0 = Inr (Some (enc_mem_cap c))"
    by (rule find_cap_ok) (use L length_caps_from [of 5 0] in simp_all)
  then have fc: "find_cap (enc_caps ?cs @ rest) (cap_amType c) (unat (cm_cap_count ?ob)) 0 = Inr (Some (enc_mem_cap c))" by simp
  have wc: "wf_cap c" using L by (auto simp: find_Some_iff)
  have o1: "?ob\<lparr>cm_pBaseCaps := Live (enc_mem_cap c), cm_cap_count := 1, cm_pCalls := Some (Live ()),
      cm_amFunc := (cm_amFunc ?ob)\<lparr>fn_calls := Some (lv_calls v)\<rparr>\<rparr> = obj" by (simp add: obj)
  have F: "wf_cr (fn_crResp ?F)" "fn_calls ?F = Some (lv_calls v)" using wf by simp_all
  obtain s2 fm d f1 where cr: "call_create_function v (Some En_kd_create_function) s1 cap ?F = Inr (AM_RET_GOOD, ?F\<lparr>fn_crResp := fn_crResp f1,
      fn_handle := - 1, fn_pEntry := True, fn_calls := Some (kd_calls (fn_crResp f1) (lv_calls v))\<rparr>, s2)"
    "lb_kp s2 = (lb_kp s1)\<lparr>kp_map := fm\<rparr>" "fm = (kp_map (lb_kp s1))\<lparr>fm_map_flags := cap_access_flags cap\<rparr>"
    "kn_devs (lb_kern s2) = (kn_devs (lb_kern s1))(kn_minor (lb_kern s1) \<mapsto> d)" "kd_func d = Some f1" "k_dev_of f f1"
    using call_create_kernel [OF k1 cap(1) f(1) F] cap(2) by auto
  define F1 where "F1 = ?F\<lparr>fn_crResp := fn_crResp f1, fn_handle := - 1, fn_pEntry := True, fn_calls := Some (kd_calls (fn_crResp f1) (lv_calls v))\<rparr>"
  note D = cr(6) [unfolded k_dev_of_def]
  have ops: "length (c_string (cr_am_name (fn_crResp F1))) \<le> 58" "fn_calls F1 = Some (kd_calls (fn_crResp f1) (lv_calls v))"
    "is_pack_op (cr_acOps (fn_crResp F1) ! 0)" "is_pack_op (cr_acOps (fn_crResp F1) ! 1)" "cr_is_32 (fn_crResp F1)"
    using D f(2-4) pack_op_words by (simp_all add: F1_def cr_is_32_def)
  have fm: "fm_map_flags (kp_map (lb_kp s2)) AND AM_CAP_AC_FLAG_PACK_MMAP \<noteq> 0" using cr(2,3) cap(2) by simp
  have d2: "kn_devs (lb_kern s2) (kn_minor (lb_kern s1)) = Some d" using cr(4) by simp
  obtain s3 where op: "call_open v s2 (Some Fn_kd_open) F1 = Inr (AM_RET_GOOD, F1\<lparr>fn_handle := lv_fd_dev v,
      fn_calls := Some ((kd_calls (fn_crResp f1) (lv_calls v))\<lparr>fc_write_al := Some Fn_pack_write32_align, fc_read_al := Some Fn_pack_read32_align\<rparr>),
      fn_send_and_wait := True, fn_get_free_iop := True\<rparr>, s3)" "kp_ready (lb_kp s3)" "kp_func (lb_kp s3) = f1"
    using call_open_kernel [OF k1(3) d2 cr(5) ops fm] by blast
  define F2 where "F2 = F1\<lparr>fn_handle := lv_fd_dev v,
      fn_calls := Some ((kd_calls (fn_crResp f1) (lv_calls v))\<lparr>fc_write_al := Some Fn_pack_write32_align, fc_read_al := Some Fn_pack_read32_align\<rparr>),
      fn_send_and_wait := True, fn_get_free_iop := True\<rparr>"
  have opn: "Option.bind (fn_calls F1) fc_open = Some Fn_kd_open" using ops(2) by (simp add: kd_calls_def Let_def)
  have e: "en_create_function (cm_amEntry ?ob) = Some En_kd_create_function" by (simp add: kern_entry_def)
  have "init_device v cc (cap_amType c) (enc_caps ?cs @ rest) ?ob s1 = Inr (obj\<lparr>cm_amFunc := F2, cm_bReady := True\<rparr>, s3)"
    using init_device_found [where cc = cc and s = s1, OF fc wc n(1) n(1), unfolded o1 e] cc cr(1) op(1) opn
    by (simp add: F1_def [symmetric] F2_def [symmetric])
  moreover have "paged (obj\<lparr>cm_amFunc := F2, cm_bReady := True\<rparr>)"
    by (simp add: paged_def by_kernel_def obj kern_entry_def uses_def obj_calls_def F2_def F1_def)
  ultimately show ?thesis using i(1) op(2,3) cr(6) unfolding s1_def [symmetric] by auto
qed

section \<open>An object used through the page\<close>

definition page_of :: "('a, 'w) use \<Rightarrow> mapped_dev" where
  "page_of u = (case u of (v, ob, s) \<Rightarrow> \<lparr>md_F = cm_amFunc ob, md_al = lv_al v, md_junk = lv_junk v, md_kp = lb_kp s\<rparr>)"

fun page_store :: "(mem_func \<Rightarrow> bytes) \<Rightarrow> ('a, 'w) use \<Rightarrow> bytes" where
  "page_store store u = mapped_store store (page_of u)"

fun page_cell :: "fn_ptr \<Rightarrow> fn_ptr \<Rightarrow> (mem_func \<Rightarrow> bytes \<Rightarrow> nat option) \<Rightarrow> ('a, 'w) use \<Rightarrow> bytes \<Rightarrow> nat option" where
  "page_cell rdf wrf cell (v, ob, s) k = (if paged ob then mapped_cell rdf wrf cell (page_of (v, ob, s)) k else None)"

lemma paged_read:
  assumes "paged ob"
  shows "use_read (v, ob, s) (Some k) (Some d) =
    bindr (mapped_read (page_of (v, ob, s)) (Some k) (Some d)) (\<lambda>(st, r, b). bindr (the_buf b) (\<lambda>b. Inr (st, (v, ob, s\<lparr>lb_kp := md_kp r\<rparr>), Some b)))"
proof -
  obtain c where c: "obj_calls ob = Inr c" "fc_read_al c = Some Fn_pack_read32_align" using assms by (auto simp: paged_def uses_def)
  have "by_kernel (cm_amEntry ob)" using assms by (simp add: paged_def)
  then show ?thesis using c
    by (cases "am_pack_read32_align (kpack_pkac (lv_al v) (lv_junk v)) (lb_kp s) (Some (cm_amFunc ob)) (Some k) (Some d)")
      (auto simp: obj_read_al_def call_read_al_def mapped_read_def page_of_def the_buf_def split: option.split)
qed

lemma paged_write:
  assumes "paged ob"
  shows "use_write (v, ob, s) (Some k) (Some d) =
    bindr (mapped_write (page_of (v, ob, s)) (Some k) (Some d)) (\<lambda>(st, r, b). Inr (st, (v, ob, s\<lparr>lb_kp := md_kp r\<rparr>), Some d))"
proof -
  obtain c where c: "obj_calls ob = Inr c" "fc_write_al c = Some Fn_pack_write32_align" using assms by (auto simp: paged_def uses_def)
  have "by_kernel (cm_amEntry ob)" using assms by (simp add: paged_def)
  then show ?thesis using c
    by (cases "am_pack_write32_align (kpack_pkac (lv_al v) (lv_junk v)) (lb_kp s) (Some (cm_amFunc ob)) (Some k) (Some d)")
      (auto simp: obj_write_al_def call_write_al_def mapped_write_def page_of_def)
qed

lemma mapped_same:
  "mapped_read r a b = Inr (st, r', c) \<Longrightarrow> r' = r\<lparr>md_kp := md_kp r'\<rparr>"
  "mapped_write r a b = Inr (st, r', c) \<Longrightarrow> r' = r\<lparr>md_kp := md_kp r'\<rparr>"
  by (auto simp: mapped_read_def mapped_write_def res_simps)

lemma page_of_next: "r' = (page_of (v, ob, s))\<lparr>md_kp := md_kp r'\<rparr> \<Longrightarrow> page_of (v, ob, s\<lparr>lb_kp := md_kp r'\<rparr>) = r'"
  by (metis (no_types, lifting) page_of_def case_prod_conv lib.select_convs(5) lib.surjective lib.update_convs(5) mapped_dev.update_convs(4))

context packet_device
begin

lemma page_read_ok:
  assumes "page_cell rdf wrf cell u k = Some q" "4 \<le> length d"
  shows "\<exists>u'. use_read u (Some k) (Some d) = Inr (AM_RET_GOOD, u', Some (take 4 (drop q (page_store store u)) @ drop 4 d)) \<and>
    page_store store u' = page_store store u \<and> page_cell rdf wrf cell u' = page_cell rdf wrf cell u"
proof -
  obtain v ob s where u: "u = (v, ob, s)" by (cases u)
  have p: "paged ob" "mapped_cell rdf wrf cell (page_of u) k = Some q" using assms(1) by (auto simp: u split: if_splits)
  obtain r' where r: "mapped_read (page_of u) (Some k) (Some d) = Inr (AM_RET_GOOD, r', Some (take 4 (drop q (page_store store u)) @ drop 4 d))"
    "mapped_store store r' = page_store store u" "mapped_cell rdf wrf cell r' = mapped_cell rdf wrf cell (page_of u)"
    using mapped_read_ok [OF p(2) assms(2)] by auto
  have n: "page_of (v, ob, s\<lparr>lb_kp := md_kp r'\<rparr>) = r'" using mapped_same(1) [OF r(1)] by (intro page_of_next) (simp only: u)
  show ?thesis
    using paged_read [OF p(1), of v s k d] r n by (intro exI [of _ "(v, ob, s\<lparr>lb_kp := md_kp r'\<rparr>)"] conjI ext) (simp_all add: u)
qed

lemma page_write_ok:
  assumes "page_cell rdf wrf cell u k = Some q" "4 \<le> length d"
  shows "\<exists>u'. use_write u (Some k) (Some d) = Inr (AM_RET_GOOD, u', Some d) \<and>
    page_store store u' = splice_at (page_store store u) q (take 4 d) \<and> page_cell rdf wrf cell u' = page_cell rdf wrf cell u"
proof -
  obtain v ob s where u: "u = (v, ob, s)" by (cases u)
  have p: "paged ob" "mapped_cell rdf wrf cell (page_of u) k = Some q" using assms(1) by (auto simp: u split: if_splits)
  obtain r' where r: "mapped_write (page_of u) (Some k) (Some d) = Inr (AM_RET_GOOD, r', Some d)"
    "mapped_store store r' = splice_at (page_store store u) q (take 4 d)" "mapped_cell rdf wrf cell r' = mapped_cell rdf wrf cell (page_of u)"
    using mapped_write_ok [OF p(2) assms(2)] by auto
  have n: "page_of (v, ob, s\<lparr>lb_kp := md_kp r'\<rparr>) = r'" using mapped_same(2) [OF r(1)] by (intro page_of_next) (simp only: u)
  show ?thesis
    using paged_write [OF p(1), of v s k d] r n by (intro exI [of _ "(v, ob, s\<lparr>lb_kp := md_kp r'\<rparr>)"] conjI ext) (simp_all add: u)
qed

end

sublocale packet_device \<subseteq> page: aligned_device use_read use_write "page_store store" "page_cell rdf wrf cell"
proof
  fix u k p assume "page_cell rdf wrf cell u k = Some p"
  then have "mapped_cell rdf wrf cell (page_of u) k = Some p" by (cases u) (auto split: if_splits)
  then show "p + 4 \<le> length (page_store store u)" using mapped.cell_bound by simp
qed (rule page_read_ok page_write_ok; assumption)+

section \<open>The static array over the module\<close>

lemma k_stata_made:
  assumes "\<And>i. ke_al e i" "wf_cr (fn_crResp (ke_func e))" "cap_amType cap = AM_TYPE_STATIC_ARRAY"
    and "cap_typeSpecific cap ! 0 = 4" "cap_typeSpecific cap ! 2 = 4" "cap_maxSize cap = ucast (n :: UINT32)"
  shows "\<exists>f. k_creates e cap f \<and> length (stata_store f) = 4 * unat n \<and> dev_ok Fn_stata_read_idx32 Fn_stata_write_idx32 f \<and>
    cr_data_size (fn_crResp f) = 4 \<and> cr_idx_size (fn_crResp f) = 4 \<and>
    cr_acOps (fn_crResp f) = [op_word AM_PACK_ALIGN AM_OP_WRITE_ALIGN, op_word AM_PACK_ALIGN AM_OP_READ_ALIGN]"
proof -
  define base where "base = (ke_func e)\<lparr>fn_pfnOps := Some zero_ops\<rparr>"
  have b: "fn_pfnOps base = Some zero_ops" "length zero_ops = AM_OP_MAX_OPS" "wf_cr (fn_crResp base)"
    using assms(2) by (simp_all add: base_def)
  obtain f ops where f: "am_create_stata_device (\<lambda>i. ke_al e (4 + i)) (ke_junk e) base cap = Inr (AM_RET_GOOD, f)"
    "length (stata_store f) = 4 * unat n" "fn_pfnOps f = Some ops" "length ops = AM_OP_MAX_OPS"
    "ops ! 16 = Some Fn_stata_write_idx32" "ops ! 17 = Some Fn_stata_read_idx32"
    "cr_data_size (fn_crResp f) = 4" "cr_idx_size (fn_crResp f) = 4" "wf_cr (fn_crResp f)"
    "cr_acOps (fn_crResp f) = [op_word AM_PACK_ALIGN AM_OP_WRITE_ALIGN, op_word AM_PACK_ALIGN AM_OP_READ_ALIGN]"
    using create_stata_ok [where al = "\<lambda>i. ke_al e (4 + i)" and junk = "ke_junk e" and f = base and cap = cap, OF _ _ b refl]
      assms(1,4-6) stata_bytes [of n] by (auto simp: stata_store_def fresh_def)
  then show ?thesis using assms(3)
    by (intro exI [of _ f]) (simp add: k_creates_def Let_def base_def dev_ok_def cr_is_32_def)
qed

lemma dev_of_simps:
  assumes "k_dev_of f f1"
  shows "stata_store f1 = stata_store f" "dev_ok rdf wrf f1 = dev_ok rdf wrf f"
  using assms by (simp_all add: k_dev_of_def stata_store_def dev_ok_def cr_is_32_def)

definition k_stata_cap :: "UINT32 \<Rightarrow> mem_cap" where
  "k_stata_cap n = (stata_cap n 4)\<lparr>cap_access_flags := cap_access_flags (announced stata_caps)\<rparr>"

lemma wf_cap_flags [simp]: "wf_cap (c\<lparr>cap_access_flags := x\<rparr>) = wf_cap c"
  by (simp add: wf_cap_def)

lemma k_stata_cap_simps [simp]:
  "cap_amType (k_stata_cap n) = AM_TYPE_STATIC_ARRAY" "cap_typeSpecific (k_stata_cap n) ! 0 = 4" "cap_typeSpecific (k_stata_cap n) ! 2 = 4"
  "cap_maxSize (k_stata_cap n) = ucast n" "wf_cap (k_stata_cap n)" "cap_access_flags (k_stata_cap n) AND AM_CAP_AC_FLAG_PACK_MMAP \<noteq> 0"
  "cap_amType (announced stata_caps) = AM_TYPE_STATIC_ARRAY"
  by (simp_all add: k_stata_cap_def announced_def)

text \<open>The array is made over the module: \<open>n\<close> words, whatever the kernel's memory held.\<close>

lemma new_stata_kernel:
  assumes k: "k_based (lb_kern s)" "lib_layout v (dom (kn_um (lb_kern s)))" "lib_files v (lb_kern s)"
    and lists: "k_lists (kn_reg (lb_kern s)) (announced stata_caps)" and n: "\<And>i. lv_new v i" "am_get_ip_address name = Inr 0"
    and wf: "wf_cr (fn_crResp (cm_amFunc ob))" "wf_cr (fn_crResp (ke_func (lv_ke v)))"
  shows "\<exists>ob' s' ws. CAppMemStaticArray v (Some name) n dataSize 4 ob s = Inr (ob', s') \<and> ready ob' \<and> ca_elements ob' = n \<and>
    length ws = unat n \<and>
    holds_words (page_store stata_store) (page_cell Fn_stata_read_idx32 Fn_stata_write_idx32 stata_cell) (v, ob', s') ws"
proof -
  define bare where "bare = (CAppMem_default ob)\<lparr>ca_index_size := 4, ca_data_size := dataSize, ca_elements := n,
     ca_mem_size := dataSize * n\<rparr>"
  define obj where "obj = bare\<lparr>cm_amEntry := kern_entry name (cm_amEntry bare), cm_pBaseCaps := Live (enc_mem_cap (announced stata_caps)),
      cm_cap_count := 1, cm_pCalls := Some (Live ()), cm_amFunc := (cm_amFunc bare)\<lparr>fn_calls := Some (lv_calls v)\<rparr>\<rparr>"
  have "15 AND (4 :: UINT32) \<noteq> 0" by simp
  then have cc: "CAppMemStaticArray_configCaps obj (announced stata_caps) = (AM_RET_GOOD, k_stata_cap n)"
    by (simp add: CAppMemStaticArray_configCaps_def obj_def bare_def announced_def k_stata_cap_def stata_cap_def)
  have al: "\<And>i. ke_al (lv_ke v) i" using k(3) by (simp add: lib_files_def)
  obtain f where f: "k_creates (lv_ke v) (k_stata_cap n) f" "length (stata_store f) = 4 * unat n" "dev_ok Fn_stata_read_idx32 Fn_stata_write_idx32 f"
    "cr_data_size (fn_crResp f) = 4" "cr_idx_size (fn_crResp f) = 4"
    "cr_acOps (fn_crResp f) = [op_word AM_PACK_ALIGN AM_OP_WRITE_ALIGN, op_word AM_PACK_ALIGN AM_OP_READ_ALIGN]"
    using k_stata_made [OF al wf(2), of "k_stata_cap n" n] by auto
  have wfb: "wf_cr (fn_crResp (cm_amFunc bare))" using wf(1) by (simp add: bare_def CAppMem_default_def)
  have ty: "cap_amType (announced stata_caps) \<noteq> AM_TYPE_BASE_APPMEM" by simp
  obtain F s' where new: "initBase v CAppMemStaticArray_configCaps (Some name) AM_TYPE_STATIC_ARRAY bare s =
      Inr (obj\<lparr>cm_amFunc := F, cm_bReady := True\<rparr>, s')" "paged (obj\<lparr>cm_amFunc := F, cm_bReady := True\<rparr>)" "kp_ready (lb_kp s')"
    "k_dev_of f (kp_func (lb_kp s'))"
    using new_kernel [where cc = CAppMemStaticArray_configCaps, OF k lists ty n obj_def cc _ _ f(1,6,4,5) wfb] by auto
  let ?ob = "obj\<lparr>cm_amFunc := F, cm_bReady := True\<rparr>" and ?f = "kp_func (lb_kp s')"
  note d = dev_of_simps [OF new(4)]
  obtain ws where ws: "stata_store ?f = enc_words ws" "length ws = unat n" using enc_words_ex [of "stata_store ?f" "unat n"] d(1) f(2) by auto
  have "mapped_ok Fn_stata_read_idx32 Fn_stata_write_idx32 (page_of (v, ?ob, s'))"
    using new(2,3) d(2) f(3) by (simp add: mapped_ok_def page_of_def paged_def)
  then have "holds_words (page_store stata_store) (page_cell Fn_stata_read_idx32 Fn_stata_write_idx32 stata_cell) (v, ?ob, s') ws"
    using ws new(2) stata_cell_index [of ?f "unat n"] d(1) f(2) by (simp add: holds_at_def mapped_store_def mapped_cell_def page_of_def)
  moreover have "CAppMemStaticArray v (Some name) n dataSize 4 ob s = Inr (?ob, s')"
    using new(1) by (simp add: CAppMemStaticArray_def bare_def)
  ultimately show ?thesis using ws(2) by (intro exI [of _ ?ob] exI [of _ s'] exI [of _ ws]) (simp add: ready_def obj_def bare_def)
qed

section \<open>One program, two transports\<close>

text \<open>
  C3: A program that uses a static array object gets the same answers whether the object was made in the process or, by the name of
  the module's file, through the module that was loaded, with the commands going through the mapped page: those of an array, if the
  program reads only elements it has written. (In process the array is cleared; the module leaves in it what its memory held.)
\<close>

theorem cpp_stata_equiv:
  assumes new: "\<And>i. lv_new v i" and wf: "wf_cr (fn_crResp (cm_amFunc oba))" "wf_cr (fn_crResp (cm_amFunc obb))"
    and virtd: "lists_cap (vd_reg (lb_virtd s)) stata_caps"
    and init: "appmemd_init (lv_ke v) result major reg um = Inr (st, lb_kern s)" "0 \<le> sint result" "wf_cr (fn_crResp (ke_func (lv_ke v)))"
      "lists_cap reg stata_caps" "lib_layout v (dom um)" "lib_files v (lb_kern s)"
    and name: "am_get_ip_address name = Inr 0" and ps: "writes_first {} ps"
  shows "\<exists>ob1 s1 ob2 s2 ob3 s3 ob4 s4. CAppMemStaticArray v None n dataSize 4 oba s = Inr (ob1, s1) \<and> ready ob1 \<and>
    CAppMemStaticArray v (Some name) n dataSize 4 obb s = Inr (ob2, s2) \<and> ready ob2 \<and>
    stata_ops v ps ob1 s1 = Inr (array_run ps (replicate (unat n) 0), ob3, s3) \<and>
    stata_ops v ps ob2 s2 = Inr (array_run ps (replicate (unat n) 0), ob4, s4)"
proof -
  note F = init(6) [unfolded lib_files_def]
  have i: "15 AND (4 :: UINT32) \<noteq> 0" by simp
  have al: "lv_al v 0" "lv_al v 1" "\<And>i. ke_al (lv_ke v) i" using F by simp_all
  obtain ob1 s1 where o1: "CAppMemStaticArray v None n dataSize 4 oba s = Inr (ob1, s1)" "ready ob1" "ca_elements ob1 = n"
    "holds_words (local_store stata_store) (local_cell Fn_stata_read_idx32 Fn_stata_write_idx32 stata_cell) (v, ob1, s1)
      (replicate (unat n) 0)"
    using new_stata_virtd [where n = n and dataSize = dataSize, OF virtd i new al(1,2) wf(1)] by blast
  note K = appmemd_init_based [OF init(1,2) al(3)]
  have lists: "k_lists (kn_reg (lb_kern s)) (announced stata_caps)" by (rule init_lists [OF init(1,2) al(3) init(4)]) simp
  have lay: "lib_layout v (dom (kn_um (lb_kern s)))" using init(5) K(2) by simp
  obtain ob2 s2 ws where o2: "CAppMemStaticArray v (Some name) n dataSize 4 obb s = Inr (ob2, s2)" "ready ob2" "ca_elements ob2 = n" "length ws = unat n"
    "holds_words (page_store stata_store) (page_cell Fn_stata_read_idx32 Fn_stata_write_idx32 stata_cell) (v, ob2, s2) ws"
    using new_stata_kernel [where n = n and dataSize = dataSize, OF K(1) lay init(6) lists new name wf(2) init(3)] by blast
  obtain ob3 s3 where "stata_ops v ps ob1 s1 = Inr (array_run ps (replicate (unat n) 0), ob3, s3)"
    using stata_ops_ok [OF stata_local.inproc.aligned_device_axioms o1(4), of ps] o1(3) by auto
  moreover obtain ob4 s4 where "stata_ops v ps ob2 s2 = Inr (array_run ps ws, ob4, s4)"
    using stata_ops_ok [OF stata_packets.page.aligned_device_axioms o2(5), of ps] o2(3,4) by auto
  moreover have "array_run ps ws = array_run ps (replicate (unat n) 0)"
    by (rule array_run_independent [OF ps]) (simp_all add: o2(4))
  ultimately show ?thesis using o1(1,2) o2(1,2) by auto
qed

lemma cpp_stata_equiv_witness:
  "\<exists>k ob1 s1 ob2 s2 ob3 s3 ob4 s4. appmemd_init demo_kenv 0 250 full_registry (\<lambda>_. Some 0) = Inr (0, k) \<and>
    CAppMemStaticArray demo_env None 5 4 4 demo_array (demo_lib k) = Inr (ob1, s1) \<and> ready ob1 \<and>
    CAppMemStaticArray demo_env (Some (c_bytes ''/dev/appmem'')) 5 4 4 demo_array (demo_lib k) = Inr (ob2, s2) \<and> ready ob2 \<and>
    stata_ops demo_env [Put 2 0xBAD, Fetch 2, Put 5 1] ob1 s1 = Inr ([(0, 0), (0, 0xBAD), (8, 0)], ob3, s3) \<and>
    stata_ops demo_env [Put 2 0xBAD, Fetch 2, Put 5 1] ob2 s2 = Inr ([(0, 0), (0, 0xBAD), (8, 0)], ob4, s4)"
proof -
  obtain k where k: "appmemd_init demo_kenv 0 250 full_registry (\<lambda>_. Some 0) = Inr (0, k)" using demo_init by blast
  have K: "kn_minor k = 1" using appmemd_init_based(3) [OF k] by simp
  have e: "lv_ke demo_env = demo_kenv" by (simp add: demo_env_def)
  have "um_range 1000 168 \<inter> um_range 5000 32 = {}" "um_range 1000 168 \<inter> um_range 2000 360 = {}"
    by (rule um_range_apart; simp)+
  then have lay: "lib_layout demo_env (dom (\<lambda>_. Some 0))" by (simp add: lib_layout_def demo_env_def dom_def)
  have files: "lib_files demo_env k" using K by (simp add: lib_files_def) (simp add: demo_env_def demo_kenv_def)
  have name: "am_get_ip_address (c_bytes ''/dev/appmem'') = Inr 0" by (simp add: am_get_ip_address_def c_bytes_def)
  have "wf_cr (fn_crResp (ke_func (lv_ke demo_env)))" by (simp add: e)
  from cpp_stata_equiv [where v = demo_env and s = "demo_lib k" and oba = demo_array and obb = demo_array and n = 5 and dataSize = 4 and
      ps = "[Put 2 0xBAD, Fetch 2, Put 5 1]" and result = 0 and major = 250 and reg = full_registry and um = "\<lambda>_. Some 0" and st = 0 and
      name = "c_bytes ''/dev/appmem''", unfolded demo_simps e, OF _ _ _ full_lists(1) k _ _ full_lists(1) lay files name]
  show ?thesis by (intro exI [of _ k]) (simp add: k)
qed

end
