(* ===== verification/AM_Cpp_Test.thy ===== *)
theory AM_Cpp_Test
  imports AM_Cpp
begin

text \<open>
  The test program of the C++ classes, \<^verbatim>\<open>amcpptest.cpp\<close>, with the loops it shares with the C tests of \<^verbatim>\<open>appmem_test.c\<close> and the
  keys these make. What a test prints about an error is its report; the times it takes and prints are left out.
\<close>

section \<open>What the tests depend on\<close>

text \<open>
  \<open>te_rand seed i\<close> is the \<open>i\<close>-th answer of \<^verbatim>\<open>rand\<close> after \<^verbatim>\<open>srand (seed)\<close>, a number that is not negative. \<open>te_mem_size\<close> and
  \<open>te_random_ops\<close> are the globals \<open>gTestMemSize\<close> and \<open>gTestRandomOps\<close>, \<open>te_keys\<close> the allocations of the keys (the first one is
  the table), \<open>te_local\<close> those of a test itself, \<open>te_main\<close> those of \<^verbatim>\<open>main\<close>, and \<open>te_val\<close> what a local variable holds that is
  not initialised.
\<close>

record testenv =
  te_rand :: "UINT32 \<Rightarrow> nat \<Rightarrow> UINT32"
  te_mem_size :: UINT32
  te_random_ops :: UINT32
  te_keys :: alloc
  te_local :: alloc
  te_main :: alloc
  te_val :: UINT32

type_synonym rng = "UINT32 \<times> nat"

definition srand :: "UINT32 \<Rightarrow> rng" where
  "srand seed = (seed, 0)"

definition rand :: "testenv \<Rightarrow> rng \<Rightarrow> UINT32 \<times> rng" where
  "rand te g = (case g of (seed, i) \<Rightarrow> (te_rand te seed i, (seed, Suc i)))"

datatype report =
    Miscompare UINT32 UINT32           \<comment> \<open>the value and the offset it should be\<close>
  | Idx_miscompare UINT32 UINT32 UINT32
  | Key_mismatch UINT32 UINT32
  | Key_not_found bytes
  | Running_val UINT32
  | Not_ready | No_address_size | No_index_size | No_sizes
  | Create_error | Open_error | Close_error | Sort_error | Local_error
  | Iterated nat
  | No_test_case | No_capability | Invalid_entry | Get_caps_error
  | Cap_text bytes | Detail_text bytes

section \<open>Loops\<close>

text \<open>\<open>for (i = 0; i < n; i++)\<close> with a body that does not read \<open>i\<close> and may break.\<close>

fun tries :: "nat \<Rightarrow> ('s \<Rightarrow> (bool \<times> 's) res) \<Rightarrow> 's \<Rightarrow> 's res" where
  "tries 0 body s = Inr s"
| "tries (Suc n) body s = bindr (body s) (\<lambda>(stop, s). if stop then Inr s else tries n body s)"

lemma unat_less_Suc: "(i :: UINT32) < n \<Longrightarrow> unat (i + 1) = Suc (unat i)"
proof -
  assume "i < n"
  moreover have "unat n < 2 ^ LENGTH(32)" by (rule unsigned_less)
  ultimately have "unat i + 1 < 2 ^ 32" by (simp add: word_less_nat_alt)
  then show ?thesis by (simp add: unat_word_ariths)
qed

text \<open>\<open>for (; i < n; i++)\<close>: \<open>i\<close> stays below \<open>n\<close>, so that it does not wrap.\<close>

function up_to :: "UINT32 \<Rightarrow> UINT32 \<Rightarrow> (UINT32 \<Rightarrow> 's \<Rightarrow> 's res) \<Rightarrow> 's \<Rightarrow> 's res" where
  "up_to i n body s = (if i < n then bindr (body i s) (\<lambda>s. up_to (i + 1) n body s) else Inr s)"
  by pat_completeness auto

termination
  by (relation "measure (\<lambda>(i, n, _). unat n - unat i)") (auto simp: unat_less_Suc word_less_nat_alt)

declare up_to.simps [simp del]

text \<open>
  \<open>for (; i < n; i += 4)\<close>: for an \<open>n\<close> above \<open>2 ^ 32 - 4\<close>, \<open>i\<close> wraps to 0 and the loop only ends when its body fails. The passes
  given by \<open>four_fuel\<close> are more than it takes up to the wrap-around.
\<close>

fun by_four :: "nat \<Rightarrow> UINT32 \<Rightarrow> UINT32 \<Rightarrow> (UINT32 \<Rightarrow> 's \<Rightarrow> 's res) \<Rightarrow> 's \<Rightarrow> 's res" where
  "by_four 0 i n body s = (if i < n then Inl NoReturn else Inr s)"
| "by_four (Suc fuel) i n body s = (if i < n then bindr (body i s) (\<lambda>s. by_four fuel (i + 4) n body s) else Inr s)"

definition four_fuel :: "UINT32 \<Rightarrow> nat" where
  "four_fuel n = unat n div 4 + 2"

section \<open>Flat memory\<close>

text \<open>The local buffer, written word by word through a pointer that only moves up.\<close>

definition fill_local :: "UINT32 \<Rightarrow> bytes \<Rightarrow> bytes res" where
  "fill_local mem_size pBase =
     bindr (by_four (four_fuel mem_size) 0 mem_size (\<lambda>i (p, b). bindr (wr32 b p i) (\<lambda>b. Inr (p + 4, b))) (0, pBase)) (\<lambda>(_, b). Inr b)"

definition flat_writes :: "UINT32 \<Rightarrow> (UINT32 \<Rightarrow> UINT32 \<Rightarrow> 's \<Rightarrow> 's res) \<Rightarrow> 's \<Rightarrow> 's res" where
  "flat_writes mem_size put s = by_four (four_fuel mem_size) 0 mem_size (\<lambda>i s. put i i s) s"

definition umod :: "UINT32 \<Rightarrow> UINT32 \<Rightarrow> UINT32 res" where
  "umod a n = (if n = 0 then Inl DivByZero else Inr (a mod n))"

text \<open>One random read, of the local buffer or of the device; the offset comes from the value and the number of the pass before.\<close>

definition flat_try ::
  "testenv \<Rightarrow> (UINT32 \<Rightarrow> UINT32 \<Rightarrow> 's \<Rightarrow> (UINT32 \<times> 's) res) \<Rightarrow> UINT32 \<times> UINT32 \<times> rng \<times> report list \<times> 's \<Rightarrow>
   (bool \<times> UINT32 \<times> UINT32 \<times> rng \<times> report list \<times> 's) res" where
  "flat_try te get = (\<lambda>(val, rval, g, out, s).
     bindr (umod (val + rval) (te_mem_size te)) (\<lambda>r.
     let offset = r AND NOT 3 in
     case rand te g of
       (rval, g) \<Rightarrow>
         bindr (get offset val s) (\<lambda>(val, s).
         Inr (val \<noteq> offset, val, rval, g, (if val \<noteq> offset then out @ [Miscompare val offset] else out), s))))"

definition flat_reads ::
  "testenv \<Rightarrow> (UINT32 \<Rightarrow> UINT32 \<Rightarrow> 's \<Rightarrow> (UINT32 \<times> 's) res) \<Rightarrow> rng \<Rightarrow> 's \<Rightarrow> (rng \<times> report list \<times> 's) res" where
  "flat_reads te get g s =
     bindr (tries (unat (te_random_ops te)) (flat_try te get) (0, 0, g, [], s)) (\<lambda>(_, _, g, out, s). Inr (g, out, s))"

definition local_read :: "bytes \<Rightarrow> UINT32 \<Rightarrow> UINT32 \<Rightarrow> unit \<Rightarrow> (UINT32 \<times> unit) res" where
  "local_read pBase offset val u = bindr (rd32 pBase (unat offset)) (\<lambda>val. Inr (val, u))"

text \<open>The members of the object as the loops use them; their status is not looked at.\<close>

definition flat_put :: "'w libenv \<Rightarrow> UINT32 \<Rightarrow> UINT32 \<Rightarrow> cappmem_flat \<times> 'w lib \<Rightarrow> (cappmem_flat \<times> 'w lib) res" where
  "flat_put v offset val = (\<lambda>(ob, s). bindr (write32 v offset val ob s) (\<lambda>(_, ob, s). Inr (ob, s)))"

definition flat_get :: "'w libenv \<Rightarrow> UINT32 \<Rightarrow> UINT32 \<Rightarrow> cappmem_flat \<times> 'w lib \<Rightarrow> (UINT32 \<times> cappmem_flat \<times> 'w lib) res" where
  "flat_get v offset val = (\<lambda>(ob, s). bindr (read32 v offset val ob s) (\<lambda>(_, val, ob, s). Inr (val, ob, s)))"

text \<open>The object is destroyed at the end; \<open>pBase\<close> is not freed.\<close>

definition am_cpp_flat_mem_test ::
  "'w libenv \<Rightarrow> testenv \<Rightarrow> bytes option \<Rightarrow> cappmem_flat \<Rightarrow> 'w lib \<Rightarrow> rng \<Rightarrow> (int \<times> report list \<times> cappmem_flat \<times> 'w lib \<times> rng) res" where
  "am_cpp_flat_mem_test v te am_name ob s g =
     (let mem_size = te_mem_size te in
      bindr (CAppMemFlat v am_name (1024 * 1024) 4 ob s) (\<lambda>(ob, s).
      bindr (if ready ob then
               if \<not> te_local te 0 then Inl BadAlloc
               else
                 bindr (fill_local mem_size (fresh (lv_junk v) (4 * (unat mem_size div 4)))) (\<lambda>pBase.
                 bindr (flat_writes mem_size (flat_put v) (ob, s)) (\<lambda>(ob, s).
                 bindr (flat_reads te (local_read pBase) (srand 100) ()) (\<lambda>(_, out, _).
                 bindr (flat_reads te (flat_get v) (srand 100) (ob, s)) (\<lambda>(g, out', ob, s).
                 Inr (out @ out', ob, s, g)))))
             else Inr ([], ob, s, g)) (\<lambda>(out, ob, s, g).
      bindr (CAppMem_destroy ob) (\<lambda>ob. Inr (0, out, ob, s, g)))))"

section \<open>Static array\<close>

definition local_ramp :: "UINT32 \<Rightarrow> bytes \<Rightarrow> bytes res" where
  "local_ramp elem_count b = up_to 0 elem_count (\<lambda>i b. wr32 b (4 * unat i) (elem_count - i)) b"

definition stata_writes :: "UINT32 \<Rightarrow> (UINT32 \<Rightarrow> UINT32 \<Rightarrow> 's \<Rightarrow> 's res) \<Rightarrow> 's \<Rightarrow> 's res" where
  "stata_writes elem_count put s = up_to 0 elem_count (\<lambda>i s. put i (elem_count - i) s) s"

text \<open>
  One random read. The C test adds the value to the running sum before it compares (\<open>early\<close>), the C++ test only when the value is
  right.
\<close>

definition stata_try ::
  "bool \<Rightarrow> testenv \<Rightarrow> (UINT32 \<Rightarrow> UINT32 \<Rightarrow> 's \<Rightarrow> (UINT32 \<times> 's) res) \<Rightarrow> UINT32 \<times> UINT32 \<times> rng \<times> report list \<times> 's \<Rightarrow>
   (bool \<times> UINT32 \<times> UINT32 \<times> rng \<times> report list \<times> 's) res" where
  "stata_try early te get = (\<lambda>(val, running, g, out, s).
     case rand te g of
       (rval, g) \<Rightarrow>
         bindr (umod (val + rval) (te_mem_size te)) (\<lambda>idx.
         bindr (get idx val s) (\<lambda>(val, s).
         let temp = te_mem_size te - idx in
         Inr (temp \<noteq> val, val, (if early \<or> temp = val then running + val else running), g,
              (if temp \<noteq> val then out @ [Idx_miscompare idx val temp] else out), s))))"

definition stata_reads ::
  "bool \<Rightarrow> testenv \<Rightarrow> (UINT32 \<Rightarrow> UINT32 \<Rightarrow> 's \<Rightarrow> (UINT32 \<times> 's) res) \<Rightarrow> UINT32 \<Rightarrow> 's \<Rightarrow> (UINT32 \<times> rng \<times> report list \<times> 's) res" where
  "stata_reads early te get running s =
     bindr (tries (unat (te_random_ops te)) (stata_try early te get) (0, running, srand 100, [], s)) (\<lambda>(_, running, g, out, s).
     Inr (running, g, out, s))"

definition local_elem :: "bytes \<Rightarrow> UINT32 \<Rightarrow> UINT32 \<Rightarrow> unit \<Rightarrow> (UINT32 \<times> unit) res" where
  "local_elem b idx val u = bindr (rd32 b (4 * unat idx)) (\<lambda>val. Inr (val, u))"

definition elem_put :: "'w libenv \<Rightarrow> UINT32 \<Rightarrow> UINT32 \<Rightarrow> cappmem_stata \<times> 'w lib \<Rightarrow> (cappmem_stata \<times> 'w lib) res" where
  "elem_put v idx val = (\<lambda>(ob, s). bindr (stata_insert v idx (le_enc 4 val) ob s) (\<lambda>(_, ob, s). Inr (ob, s)))"

definition elem_get :: "'w libenv \<Rightarrow> UINT32 \<Rightarrow> UINT32 \<Rightarrow> cappmem_stata \<times> 'w lib \<Rightarrow> (UINT32 \<times> cappmem_stata \<times> 'w lib) res" where
  "elem_get v idx val = (\<lambda>(ob, s). bindr (stata_get v idx (le_enc 4 val) ob s) (\<lambda>(_, b, ob, s). Inr (le_dec b, ob, s)))"

definition am_cpp_stata_test ::
  "'w libenv \<Rightarrow> testenv \<Rightarrow> bytes option \<Rightarrow> cappmem_stata \<Rightarrow> 'w lib \<Rightarrow> rng \<Rightarrow> (int \<times> report list \<times> cappmem_stata \<times> 'w lib \<times> rng) res" where
  "am_cpp_stata_test v te am_name ob s g =
     (let elem_count = te_mem_size te in
      bindr (CAppMemStaticArray v am_name elem_count 4 4 ob s) (\<lambda>(ob, s).
      bindr (if \<not> ready ob then Inr (- 1, [Not_ready], ob, s, g)
             else if \<not> te_local te 0 then Inl BadAlloc
             else
               bindr (local_ramp elem_count (fresh (lv_junk v) (4 * unat elem_count))) (\<lambda>localArray.
               bindr (stata_writes elem_count (elem_put v) (ob, s)) (\<lambda>(ob, s).
               bindr (stata_reads False te (local_elem localArray) 0 ()) (\<lambda>(running, _, out, _).
               bindr (stata_reads False te (elem_get v) running (ob, s)) (\<lambda>(running, g, out', ob, s).
               Inr (0, out @ out' @ [Running_val running], ob, s, g)))))) (\<lambda>(r, out, ob, s, g).
      bindr (CAppMem_destroy ob) (\<lambda>ob. Inr (r, out, ob, s, g)))))"

section \<open>Associative array\<close>

text \<open>The letters of one key.\<close>

fun key_letters :: "testenv \<Rightarrow> nat \<Rightarrow> rng \<Rightarrow> bytes \<times> rng" where
  "key_letters te 0 g = ([], g)"
| "key_letters te (Suc n) g =
     (case rand te g of (r, g) \<Rightarrow>
      let offset = (ucast (r mod 26) :: UINT8) in
      case key_letters te n g of (k, g) \<Rightarrow> ((65 + offset) # k, g))"

text \<open>The keys from number \<open>i\<close> on. A key of no bytes has its letters written behind it.\<close>

fun make_keys :: "testenv \<Rightarrow> UINT32 \<Rightarrow> nat \<Rightarrow> nat \<Rightarrow> rng \<Rightarrow> (bytes list \<times> rng) res" where
  "make_keys te key_size 0 i g = Inr ([], g)"
| "make_keys te key_size (Suc k) i g =
     (if \<not> te_keys te (Suc i) then Inl NullDeref
      else if key_size = 0 then Inl OutOfBounds
      else
        case key_letters te (unat (key_size - 1)) g of
          (pK, g) \<Rightarrow> bindr (make_keys te key_size k (Suc i) g) (\<lambda>(ks, g). Inr ((pK @ [0]) # ks, g)))"

definition am_get_test_keys :: "testenv \<Rightarrow> UINT32 \<Rightarrow> UINT32 \<Rightarrow> rng \<Rightarrow> (bytes list option \<times> rng) res" where
  "am_get_test_keys te key_count key_size g =
     bindr (make_keys te key_size (unat key_count) 0 g) (\<lambda>(ks, g).
     if te_keys te 0 then Inr (Some ks, g) else if ks = [] then Inr (None, g) else Inl NullDeref)"

definition key_writes :: "UINT32 \<Rightarrow> bytes list \<Rightarrow> (bytes \<Rightarrow> bytes \<Rightarrow> 's \<Rightarrow> 's res) \<Rightarrow> 's \<Rightarrow> 's res" where
  "key_writes key_count keys put s = up_to 0 key_count (\<lambda>i s. put (keys ! unat i) (le_enc 4 i) s) s"

definition key_try ::
  "testenv \<Rightarrow> bytes list \<Rightarrow> (bytes \<Rightarrow> UINT32 \<Rightarrow> 's \<Rightarrow> (AM_RETURN \<times> UINT32 \<times> 's) res) \<Rightarrow> UINT32 \<times> rng \<times> report list \<times> 's \<Rightarrow>
   (bool \<times> UINT32 \<times> rng \<times> report list \<times> 's) res" where
  "key_try te keys get = (\<lambda>(val, g, out, s).
     case rand te g of
       (r, g) \<Rightarrow>
         bindr (umod r (te_mem_size te)) (\<lambda>idx.
         let pK = keys ! unat idx in
         bindr (get pK val s) (\<lambda>(st, val, s).
         if st = AM_RET_GOOD then
           if val \<noteq> idx then Inr (True, val, g, out @ [Key_mismatch val idx], s) else Inr (False, val, g, out, s)
         else Inr (True, val, g, out @ [Key_not_found pK], s))))"

definition key_reads ::
  "testenv \<Rightarrow> bytes list \<Rightarrow> (bytes \<Rightarrow> UINT32 \<Rightarrow> 's \<Rightarrow> (AM_RETURN \<times> UINT32 \<times> 's) res) \<Rightarrow> UINT32 \<Rightarrow> rng \<Rightarrow> 's \<Rightarrow>
   (UINT32 \<times> rng \<times> report list \<times> 's) res" where
  "key_reads te keys get val g s = tries (unat (te_random_ops te)) (key_try te keys get) (val, g, [], s)"

text \<open>The table used directly, as the C test does.\<close>

definition local_add :: "alloc \<Rightarrow> bytes \<Rightarrow> bytes \<Rightarrow> amlib_assca ptr \<Rightarrow> amlib_assca ptr res" where
  "local_add al pK d pAA = bindr (deref pAA) (\<lambda>aa. bindr (amlib_assca_add_key_fixfix al aa pK d) (\<lambda>(_, aa). Inr (Live aa)))"

definition local_get :: "bytes \<Rightarrow> UINT32 \<Rightarrow> amlib_assca ptr \<Rightarrow> (AM_RETURN \<times> UINT32 \<times> amlib_assca ptr) res" where
  "local_get pK val pAA =
     bindr (deref pAA) (\<lambda>aa. bindr (amlib_assca_get_key_val aa pK (le_enc 4 val)) (\<lambda>(st, b). Inr (st, le_dec b, pAA)))"

definition assca_put :: "'w libenv \<Rightarrow> bytes \<Rightarrow> bytes \<Rightarrow> cappmem_assca \<times> 'w lib \<Rightarrow> (cappmem_assca \<times> 'w lib) res" where
  "assca_put v pK d = (\<lambda>(ob, s). bindr (assca_insert v pK d ob s) (\<lambda>(_, ob, s). Inr (ob, s)))"

definition assca_take ::
  "'w libenv \<Rightarrow> bytes \<Rightarrow> UINT32 \<Rightarrow> cappmem_assca \<times> 'w lib \<Rightarrow> (AM_RETURN \<times> UINT32 \<times> cappmem_assca \<times> 'w lib) res" where
  "assca_take v pK val = (\<lambda>(ob, s). bindr (assca_get v pK (le_enc 4 val) ob s) (\<lambda>(st, b, ob, s). Inr (st, le_dec b, ob, s)))"

text \<open>Whether the object is ready is not asked. Keys and table are not freed.\<close>

definition am_cpp_assca_test ::
  "'w libenv \<Rightarrow> testenv \<Rightarrow> bytes option \<Rightarrow> cappmem_assca \<Rightarrow> 'w lib \<Rightarrow> rng \<Rightarrow> (int \<times> report list \<times> cappmem_assca \<times> 'w lib \<times> rng) res" where
  "am_cpp_assca_test v te am_name ob s g =
     (let key_count = te_mem_size te; key_size = 32 in
      bindr (CAppMemAsscArray v am_name key_size 4 True True False ob s) (\<lambda>(ob, s).
      bindr (am_get_test_keys te key_count key_size g) (\<lambda>(pKeys, g).
      bindr (case pKeys of
               None \<Rightarrow> Inr ([], ob, s, g)
             | Some keys \<Rightarrow>
                 bindr (key_writes key_count keys (local_add (lv_al v)) (amlib_assca_init (lv_al v) key_size 4 1 1)) (\<lambda>pAA.
                 bindr (key_writes key_count keys (assca_put v) (ob, s)) (\<lambda>(ob, s).
                 bindr (key_reads te keys local_get (te_val te) g pAA) (\<lambda>(val, g, out, _).
                 bindr (key_reads te keys (assca_take v) val g (ob, s)) (\<lambda>(_, g, out', ob, s).
                 Inr (out @ out', ob, s, g)))))) (\<lambda>(out, ob, s, g).
      bindr (CAppMem_destroy ob) (\<lambda>ob. Inr (0, out, ob, s, g))))))"

section \<open>The test asked for\<close>

text \<open>The three objects are the memory of the stack the tests make theirs in.\<close>

definition am_cpp_test ::
  "'w libenv \<Rightarrow> testenv \<Rightarrow> bytes option \<Rightarrow> UINT32 \<Rightarrow> cappmem_flat \<Rightarrow> cappmem_stata \<Rightarrow> cappmem_assca \<Rightarrow> 'w lib \<Rightarrow> rng \<Rightarrow>
   (int \<times> report list \<times> 'w lib \<times> rng) res" where
  "am_cpp_test v te am_name test obf oba obs s g =
     (if test = AM_TYPE_FLAT_MEM then
        bindr (am_cpp_flat_mem_test v te am_name obf s g) (\<lambda>(r, out, _, s, g). Inr (r, out, s, g))
      else if test = AM_TYPE_STATIC_ARRAY then
        bindr (am_cpp_stata_test v te am_name oba s g) (\<lambda>(r, out, _, s, g). Inr (r, out, s, g))
      else if test = AM_TYPE_ASSOC_ARRAY then
        bindr (am_cpp_assca_test v te am_name obs s g) (\<lambda>(r, out, _, s, g). Inr (r, out, s, g))
      else Inr (0, [], s, g))"

end
