(* ===== verification/AM_Test.thy ===== *)
theory AM_Test
  imports AM_Cpp_Test
begin

text \<open>
  The test program of the C interface, \<^verbatim>\<open>appmem_test.c\<close>: a client that goes through the pointers of the library entry and
  of the function object. An object is made in memory that held something, \<open>fm\<close>. The loops are those of \<^verbatim>\<open>AM_Cpp_Test\<close>.
\<close>

section \<open>More calls through the pointers\<close>

definition call_close :: "'w libenv \<Rightarrow> fn_ptr option \<Rightarrow> mem_func \<Rightarrow> 'w lib \<Rightarrow> (AM_RETURN \<times> 'w lib) res" where
  "call_close v fp f s =
     (case fp of
        None \<Rightarrow> Inl NullDeref
      | Some Fn_virtd_close \<Rightarrow> Inr (am_virtd_close, s)
      | Some Fn_net_close \<Rightarrow> bindr (am_net_close (net_pkac (lv_sk v)) (lb_net s) (Some f)) (\<lambda>(st, n). Inr (st, s\<lparr>lb_net := n\<rparr>))
      | Some Fn_kd_close \<Rightarrow> Inr (am_kd_close, s)
      | Some _ \<Rightarrow> Inl BadCall)"

definition call_sort ::
  "'w libenv \<Rightarrow> amlib_entry \<Rightarrow> fn_ptr option \<Rightarrow> mem_func \<Rightarrow> bytes \<Rightarrow> UINT64 \<Rightarrow> 'w lib \<Rightarrow> (AM_RETURN \<times> mem_func \<times> 'w lib) res" where
  "call_sort v e fp f p1 l1 s =
     (case fp of
        None \<Rightarrow> Inl NullDeref
      | Some Fn_stata_sort \<Rightarrow> bindr (am_stata_sort (lv_al v) (lv_junk v) f (Some p1) l1) (\<lambda>(st, f). Inr (st, f, s))
      | Some Fn_pack_sort \<Rightarrow>
          if by_kernel e then
            bindr (am_pack_sort (kpack_pkac (lv_al v) (lv_junk v)) (lb_kp s) (Some f) (Some p1) l1) (\<lambda>(st, kp). Inr (st, f, s\<lparr>lb_kp := kp\<rparr>))
          else
            bindr (am_pack_sort (net_pkac (lv_sk v)) (lb_net s) (Some f) (Some p1) l1) (\<lambda>(st, n). Inr (st, f, s\<lparr>lb_net := n\<rparr>))
      | Some _ \<Rightarrow> Inl BadCall)"

definition call_release :: "fn_ptr \<Rightarrow> mem_func \<Rightarrow> (AM_RETURN \<times> mem_func) res" where
  "call_release fp f =
     (if fp = Fn_flat_release then am_flat_release f
      else if fp = Fn_stata_release then am_stata_release f
      else if fp = Fn_assca_release then am_assca_release f
      else Inl BadCall)"

definition call_iter ::
  "fn_ptr option \<Rightarrow> mem_func \<Rightarrow> bytes \<Rightarrow> UINT64 \<Rightarrow> bytes \<Rightarrow> UINT64 \<Rightarrow> UINT32 \<Rightarrow> (AM_RETURN \<times> mem_func \<times> buf \<times> buf \<times> UINT32) res" where
  "call_iter fp f p1 l1 p2 l2 handle =
     (case fp of
        None \<Rightarrow> Inl NullDeref
      | Some fp \<Rightarrow> if fp = Fn_assca_iter then am_assca_iter f (Some p1) l1 (Some p2) l2 handle else Inl BadCall)"

definition call_add_al :: "'w libenv \<Rightarrow> fn_ptr option \<Rightarrow> mem_func \<Rightarrow> bytes \<Rightarrow> (AM_RETURN \<times> mem_func) res" where
  "call_add_al v fp f p1 =
     (case fp of
        None \<Rightarrow> Inl NullDeref
      | Some fp \<Rightarrow> if fp = Fn_list_add_fix then am_list_add_fix (lv_al v) f (Some p1) else Inl BadCall)"

definition call_entry_close :: "'w libenv \<Rightarrow> amlib_entry \<Rightarrow> 'w lib \<Rightarrow> (AM_RETURN \<times> 'w lib) res" where
  "call_entry_close v e s =
     (case en_close e of
        None \<Rightarrow> Inl NullDeref
      | Some En_virtd_entry_close \<Rightarrow> Inr (am_virtd_entry_close, s)
      | Some En_net_entry_close \<Rightarrow>
          bindr (am_net_entry_close (lv_sys v) e (lb_socks s)) (\<lambda>(st, _, fds). Inr (st, s\<lparr>lb_socks := fds\<rparr>))
      | Some En_kd_entry_close \<Rightarrow> Inr (am_kd_entry_close, s)
      | Some _ \<Rightarrow> Inl BadCall)"

text \<open>For the kernel module the block is at the address \<open>lv_a_data\<close>.\<close>

definition call_get_cap_details ::
  "'w libenv \<Rightarrow> entry_fn \<Rightarrow> 'w lib \<Rightarrow> bytes \<Rightarrow> UINT32 \<Rightarrow> (AM_RETURN \<times> bytes \<times> 'w lib) res" where
  "call_get_cap_details v fp s pDetails amType =
     (if fp = En_virt_get_cap_details then
        bindr (am_virt_get_cap_details (lb_virtd s) amType) (\<lambda>(st, ds).
        bindr (putb pDetails 0 (concat (map enc_cap_details ds))) (\<lambda>b. Inr (st, b, s)))
      else if fp = En_kd_get_cap_details then
        bindr (kern_put (lv_a_data v) pDetails s) (\<lambda>s.
        bindr (am_kd_get_cap_details (lv_ke v) (lv_fds v) (lv_a_cmd v) (lv_fd_base v) (lb_kern s) (lv_a_data v) amType) (\<lambda>(st, k).
        bindr (um_get (kn_um k) (lv_a_data v) (length pDetails)) (\<lambda>b. Inr (st, b, s\<lparr>lb_kern := k\<rparr>))))
      else Inl BadCall)"

section \<open>Calls of the object\<close>

definition obj_fn :: "mem_func \<Rightarrow> func_calls res" where
  "obj_fn f = (case fn_calls f of None \<Rightarrow> Inl NullDeref | Some c \<Rightarrow> Inr c)"

definition c_put :: "'w libenv \<Rightarrow> amlib_entry \<Rightarrow> bytes \<Rightarrow> bytes \<Rightarrow> mem_func \<times> 'w lib \<Rightarrow> (mem_func \<times> 'w lib) res" where
  "c_put v e key d = (\<lambda>(f, s).
     bindr (obj_fn f) (\<lambda>c. bindr (call_write_al v s e (fc_write_al c) f key d) (\<lambda>(_, f, s). Inr (f, s))))"

definition c_get ::
  "'w libenv \<Rightarrow> amlib_entry \<Rightarrow> bytes \<Rightarrow> UINT32 \<Rightarrow> mem_func \<times> 'w lib \<Rightarrow> (AM_RETURN \<times> UINT32 \<times> mem_func \<times> 'w lib) res" where
  "c_get v e key val = (\<lambda>(f, s).
     bindr (obj_fn f) (\<lambda>c. bindr (call_read_al v s e (fc_read_al c) f key (le_enc 4 val)) (\<lambda>(st, f, b, s). Inr (st, le_dec b, f, s))))"

definition c_put32 :: "'w libenv \<Rightarrow> amlib_entry \<Rightarrow> UINT32 \<Rightarrow> UINT32 \<Rightarrow> mem_func \<times> 'w lib \<Rightarrow> (mem_func \<times> 'w lib) res" where
  "c_put32 v e i val = c_put v e (le_enc 4 i) (le_enc 4 val)"

definition c_get32 :: "'w libenv \<Rightarrow> amlib_entry \<Rightarrow> UINT32 \<Rightarrow> UINT32 \<Rightarrow> mem_func \<times> 'w lib \<Rightarrow> (UINT32 \<times> mem_func \<times> 'w lib) res" where
  "c_get32 v e i val fs = bindr (c_get v e (le_enc 4 i) val fs) (\<lambda>(_, val, fs). Inr (val, fs))"

text \<open>The device made and opened: the object, or what the test reports before it returns.\<close>

definition c_open :: "'w libenv \<Rightarrow> mem_func \<Rightarrow> 'w lib \<Rightarrow> (report option \<times> mem_func \<times> 'w lib) res" where
  "c_open v f s =
     bindr (obj_fn f) (\<lambda>c.
     bindr (call_open v s (fc_open c) f) (\<lambda>(st, f, s).
     Inr (if st \<noteq> AM_RET_GOOD then Some Open_error else None, f, s)))"

definition c_create ::
  "'w libenv \<Rightarrow> amlib_entry \<Rightarrow> mem_cap \<Rightarrow> mem_func \<Rightarrow> 'w lib \<Rightarrow> (report option \<times> mem_func \<times> 'w lib) res" where
  "c_create v e aCap f s =
     bindr (call_create_function v (en_create_function e) s aCap f) (\<lambda>(st, f, s).
     if st \<noteq> AM_RET_GOOD then Inr (Some Create_error, f, s) else c_open v f s)"

section \<open>Flat memory\<close>

text \<open>
  The table of calls is as large as \<open>functionCount\<close> pointers, and not cleared. The pointers behind its end are not there: they are
  filled with a function that no device and no transport installs, so that a store to one of them shows.
\<close>

definition no_fn :: "fn_ptr option" where
  "no_fn = Some Fn_k_create_function"

definition cut :: "nat \<Rightarrow> nat \<Rightarrow> fn_ptr option \<Rightarrow> fn_ptr option" where
  "cut n i p = (if i < n then p else no_fn)"

definition short_table :: "nat \<Rightarrow> func_calls \<Rightarrow> func_calls" where
  "short_table n c =
     \<lparr>fc_open = cut n 0 (fc_open c), fc_close = cut n 1 (fc_close c), fc_release = cut n 2 (fc_release c), fc_read = cut n 3 (fc_read c),
      fc_write = cut n 4 (fc_write c), fc_read_al = cut n 5 (fc_read_al c), fc_write_al = cut n 6 (fc_write_al c),
      fc_add_al = cut n 7 (fc_add_al c), fc_get_al = cut n 8 (fc_get_al c), fc_copy = cut n 9 (fc_copy c),
      fc_iter = cut n 10 (fc_iter c), fc_sort = cut n 11 (fc_sort c)\<rparr>"

definition in_table :: "nat \<Rightarrow> mem_func \<Rightarrow> unit res" where
  "in_table n f = (case fn_calls f of None \<Rightarrow> Inr () | Some c \<Rightarrow> if short_table n c = c then Inr () else Inl OutOfBounds)"

definition am_test_flat_mem ::
  "'w libenv \<Rightarrow> testenv \<Rightarrow> mem_cap \<Rightarrow> amlib_entry \<Rightarrow> mem_func \<Rightarrow> 'w lib \<Rightarrow> rng \<Rightarrow> (report list \<times> mem_func \<times> 'w lib \<times> rng) res" where
  "am_test_flat_mem v te cap e fm s g =
     (let mem_size = te_mem_size te; n = unat (cap_functionCount cap) in
      if cap_typeSpecific cap ! TS_FLAT_ADDRESS_BYTE_SIZE AND 4 \<noteq> 0 then
        let aCap = cap\<lparr>cap_typeSpecific := (cap_typeSpecific cap)[TS_FLAT_ADDRESS_BYTE_SIZE := 4], cap_maxSize := ucast mem_size\<rparr>;
            f = fm\<lparr>fn_calls := (if te_local te 0 then Some (short_table n (lv_calls v)) else None)\<rparr>
        in
        bindr (c_create v e aCap f s) (\<lambda>(err, f, s).
        bindr (in_table n f) (\<lambda>_.
        case err of
          Some r \<Rightarrow> Inr ([r], f, s, g)
        | None \<Rightarrow>
            if \<not> te_local te 1 then Inr ([Local_error], f, s, g)
            else
              bindr (fill_local mem_size (fresh (lv_junk v) (unat mem_size))) (\<lambda>local_buf.
              bindr (flat_writes mem_size (c_put32 v e) (f, s)) (\<lambda>fs.
              bindr (flat_reads te (local_read local_buf) g ()) (\<lambda>(g, out, _).
              bindr (flat_reads te (c_get32 v e) g fs) (\<lambda>(g, out', f, s).
              bindr (obj_fn f) (\<lambda>c.
              bindr (call_close v (fc_close c) f s) (\<lambda>(st, s).
              Inr (out @ out' @ (if st \<noteq> AM_RET_GOOD then [Close_error] else []), f, s, g))))))))) 
      else Inr ([No_address_size], fm, s, g))"

section \<open>Static array\<close>

definition sort_all :: sort_param where
  "sort_all = \<lparr>sp_type = AM_SORT_TYPE_STATA_INTEGRAL_MERGE, sp_start_idx = 0, sp_end_idx = 0, sp_order = AM_SORT_ORDER_ASC, sp_data_signed = 0\<rparr>"

text \<open>The array is neither closed nor released; both blocks are freed at the end, the table of calls with them.\<close>

definition am_test_static_array ::
  "'w libenv \<Rightarrow> testenv \<Rightarrow> mem_cap \<Rightarrow> amlib_entry \<Rightarrow> mem_func \<Rightarrow> 'w lib \<Rightarrow> rng \<Rightarrow> (report list \<times> mem_func \<times> 'w lib \<times> rng) res" where
  "am_test_static_array v te cap e fm s g =
     (let array_size = te_mem_size te in
      if cap_typeSpecific cap ! TS_STAT_ARRAY_IDX_BYTE_SIZE AND 4 \<noteq> 0 then
        let aCap = cap\<lparr>cap_typeSpecific := (cap_typeSpecific cap)[TS_STAT_ARRAY_IDX_BYTE_SIZE := 4,
                         TS_STAT_ARRAY_VAL_DATA_TYPES := TS_STAT_DT_FIXED_WIDTH, TS_STAT_ARRAY_VAL_MAX_SIZE := 4],
                       cap_maxSize := ucast array_size\<rparr>
        in
        if \<not> te_local te 0 then Inl NullDeref
        else
          bindr (c_create v e aCap (fm\<lparr>fn_calls := Some zero_calls\<rparr>) s) (\<lambda>(err, f, s).
          case err of
            Some r \<Rightarrow> Inr ([r], f, s, g)
          | None \<Rightarrow>
              if \<not> te_local te 1 then Inr ([Local_error], f, s, g)
              else
                bindr (local_ramp array_size (fresh (lv_junk v) (unat (array_size * 4)))) (\<lambda>localArray.
                bindr (stata_writes array_size (c_put32 v e) (f, s)) (\<lambda>fs.
                bindr (stata_reads True te (local_elem localArray) 0 ()) (\<lambda>(running, _, out, _).
                bindr (stata_reads True te (c_get32 v e) running fs) (\<lambda>(running, g, out', f, s).
                bindr (obj_fn f) (\<lambda>c.
                bindr (if fc_sort c \<noteq> None then
                         bindr (call_sort v e (fc_sort c) f (enc_sort_param sort_all) (of_nat sizeof_SORT_PARAM) s) (\<lambda>(st, f, s).
                         Inr (if st \<noteq> AM_RET_GOOD then [Sort_error] else [], f, s))
                       else Inr ([], f, s)) (\<lambda>(out'', f, s).
                Inr (out @ out' @ [Running_val running] @ out'', f\<lparr>fn_calls := None\<rparr>, s, g))))))))
      else Inr ([No_index_size], fm, s, g))"

section \<open>Associative array\<close>

text \<open>
  The loop over the iterator. The table has at most one item for each key that was written, so that one pass more than there are keys
  always reaches its end.
\<close>

fun iter_count :: "nat \<Rightarrow> bytes \<Rightarrow> bytes \<Rightarrow> UINT32 \<Rightarrow> nat \<Rightarrow> mem_func \<Rightarrow> (nat \<times> mem_func) res" where
  "iter_count 0 ikey ival handle n f = Inl NoReturn"
| "iter_count (Suc fuel) ikey ival handle n f =
     bindr (obj_fn f) (\<lambda>c.
     bindr (call_iter (fc_iter c) f ikey 32 ival 4 handle) (\<lambda>(st, f, b1, b2, handle).
     if st = AM_RET_GOOD then
       bindr (the_buf b1) (\<lambda>ikey. bindr (the_buf b2) (\<lambda>ival. iter_count fuel ikey ival handle (Suc n) f))
     else Inr (n, f)))"

definition am_test_assc_array ::
  "'w libenv \<Rightarrow> testenv \<Rightarrow> mem_cap \<Rightarrow> amlib_entry \<Rightarrow> mem_func \<Rightarrow> 'w lib \<Rightarrow> rng \<Rightarrow> (report list \<times> mem_func \<times> 'w lib \<times> rng) res" where
  "am_test_assc_array v te cap e fm s g =
     (let key_count = te_mem_size te; key_size = 32; ts = cap_typeSpecific cap in
      bindr (am_get_test_keys te key_count key_size g) (\<lambda>(pKeys, g).
      case pKeys of
        None \<Rightarrow> Inr ([], fm, s, g)
      | Some keys \<Rightarrow>
          if key_size \<le> ts ! TS_ASSCA_KEY_MAX_SIZE \<and> 4 \<le> ts ! TS_ASSCA_DATA_MAX_SIZE then
            let aCap = cap\<lparr>cap_typeSpecific := ts[TS_ASSCA_KEY_MAX_SIZE := key_size, TS_ASSCA_DATA_MAX_SIZE := 4,
                         TS_ASSCA_KEY_TYPE := TS_ASSCA_KEY_FIXED_WIDTH, TS_ASSCA_DATA_TYPE := TS_ASSCA_DATA_FIXED_WIDTH]\<rparr>
            in
            if \<not> te_local te 0 then Inl NullDeref
            else
              bindr (c_create v e aCap (fm\<lparr>fn_calls := Some zero_calls\<rparr>) s) (\<lambda>(err, f, s).
              case err of
                Some r \<Rightarrow> Inr ([r], f, s, g)
              | None \<Rightarrow>
                  bindr (key_writes key_count keys (local_add (lv_al v)) (amlib_assca_init (lv_al v) key_size 4 1 1)) (\<lambda>pAA.
                  bindr (key_writes key_count keys (c_put v e) (f, s)) (\<lambda>fs.
                  bindr (key_reads te keys local_get (te_val te) g pAA) (\<lambda>(_, g, out, _).
                  bindr (key_reads te keys (\<lambda>pK _. c_get v e pK 0) 0 g fs) (\<lambda>(_, g, out', f, s).
                  bindr (obj_fn f) (\<lambda>c.
                  bindr (if fc_iter c \<noteq> None then
                           bindr (iter_count (Suc (unat key_count)) (fresh (lv_junk v) 32) (le_enc 4 (te_val te)) ASSCA_ITER_FLAG_NEW 0 f) (\<lambda>(n, f).
                           Inr ([Iterated n], f))
                         else Inr ([], f)) (\<lambda>(out'', f).
                  bindr (obj_fn f) (\<lambda>c.
                  bindr (case fc_release c of None \<Rightarrow> Inr f | Some fp \<Rightarrow> bindr (call_release fp f) (\<lambda>(_, f). Inr f)) (\<lambda>f.
                  Inr (out @ out' @ out'', f, s, g))))))))))
          else Inr ([No_sizes], fm, s, g)))"

section \<open>Linked list\<close>

definition am_test_list ::
  "'w libenv \<Rightarrow> testenv \<Rightarrow> mem_cap \<Rightarrow> amlib_entry \<Rightarrow> mem_func \<Rightarrow> 'w lib \<Rightarrow> rng \<Rightarrow> (report list \<times> mem_func \<times> 'w lib \<times> rng) res" where
  "am_test_list v te cap e fm s g =
     (let item_count = te_mem_size te;
          aCap = cap\<lparr>cap_subType := AM_LIST_SLL,
                     cap_typeSpecific := (cap_typeSpecific cap)[TS_LIST_DATA_MAX_SIZE := 4, TS_LIST_DATA_TYPE := TS_LIST_DATA_FIXED]\<rparr>
      in
      if \<not> te_local te 0 then Inl NullDeref
      else
        bindr (c_create v e aCap (fm\<lparr>fn_calls := Some zero_calls\<rparr>) s) (\<lambda>(err, f, s).
        case err of
          Some r \<Rightarrow> Inr ([r], f, s, g)
        | None \<Rightarrow>
            bindr (up_to 0 item_count (\<lambda>i f.
                     bindr (obj_fn f) (\<lambda>c. bindr (call_add_al v (fc_add_al c) f (le_enc 4 (item_count - i))) (\<lambda>(_, f). Inr f))) f) (\<lambda>f.
            Inr ([], f, s, g))))"

section \<open>The test asked for\<close>

definition am_test ::
  "'w libenv \<Rightarrow> testenv \<Rightarrow> bytes \<Rightarrow> UINT32 \<Rightarrow> UINT32 \<Rightarrow> amlib_entry \<Rightarrow> mem_func \<Rightarrow> 'w lib \<Rightarrow> rng \<Rightarrow>
   (report list \<times> mem_func \<times> 'w lib \<times> rng) res" where
  "am_test v te pAmCaps cap_count test e fm s g =
     bindr (find_cap pAmCaps test (unat cap_count) 0) (\<lambda>found.
     case found of
       None \<Rightarrow> Inr ([No_capability], fm, s, g)
     | Some c \<Rightarrow>
         bindr (rd_mem_cap c 0) (\<lambda>cap.
         if test = AM_TYPE_FLAT_MEM then am_test_flat_mem v te cap e fm s g
         else if test = AM_TYPE_STATIC_ARRAY then am_test_static_array v te cap e fm s g
         else if test = AM_TYPE_ASSOC_ARRAY then am_test_assc_array v te cap e fm s g
         else if test = AM_TYPE_LIST then am_test_list v te cap e fm s g
         else Inr ([No_test_case], fm, s, g)))"

section \<open>The program\<close>

text \<open>\<open>strtol (s, NULL, 10)\<close> of a string without its terminating zero: \<^verbatim>\<open>long\<close> has 64 bits, and a number beyond is cut to the nearest one.\<close>

definition strtol :: "bytes \<Rightarrow> int" where
  "strtol s =
     (let s = dropWhile is_space s;
          neg = (s \<noteq> [] \<and> s ! 0 = 45);
          s = (if s \<noteq> [] \<and> (s ! 0 = 45 \<or> s ! 0 = 43) then drop 1 s else s);
          v = dec_value (takeWhile is_digit s);
          v = (if neg then - v else v)
      in max (- (2 ^ 63)) (min (2 ^ 63 - 1) v))"

definition rd_cap_details :: "bytes \<Rightarrow> nat \<Rightarrow> cap_details res" where
  "rd_cap_details b off =
     bindr (rd32 b off) (\<lambda>ty.
     bindr (getb b (off + 4) 64) (\<lambda>tysz.
     bindr (rd32 b (off + 68)) (\<lambda>st.
     bindr (getb b (off + 72) 64) (\<lambda>stsz.
     bindr (rd32 b (off + 136)) (\<lambda>n.
     bindr (getb b (off + 140) (64 * AM_MAX_TYPE_SPECIFIC)) (\<lambda>ss.
     Inr \<lparr>cd_amType = ty, cd_amTypeSz = tysz, cd_subType = st, cd_subTypeSz = stsz, cd_typeSpecificCount = n,
          cd_typeSpecificSz = map (\<lambda>i. take 64 (drop (64 * i) ss)) [0..<AM_MAX_TYPE_SPECIFIC]\<rparr>))))))"

text \<open>The details of one capability, \<open>k\<close> of them from index \<open>j\<close> on; of the first capability only one is shown.\<close>

fun show_details :: "bool \<Rightarrow> bytes \<Rightarrow> UINT32 \<Rightarrow> nat \<Rightarrow> nat \<Rightarrow> buf \<Rightarrow> report list res" where
  "show_details first pDetails dsize 0 j dbuff = Inr []"
| "show_details first pDetails dsize (Suc k) j dbuff =
     bindr (rd_cap_details pDetails (sizeof_CAP_DETAILS * j)) (\<lambda>d.
     bindr (am_sprintf_cap_details (Some d) dbuff dsize) (\<lambda>(_, dbuff).
     bindr (bindr (the_buf dbuff) fmt_s) (\<lambda>t.
     if first then Inr [Detail_text t]
     else bindr (show_details first pDetails dsize k (Suc j) dbuff) (\<lambda>out. Inr (Detail_text t # out)))))"

definition cap_shown ::
  "'w libenv \<Rightarrow> testenv \<Rightarrow> amlib_entry \<Rightarrow> nat \<Rightarrow> mem_cap \<Rightarrow> 'w lib \<Rightarrow> (report list \<times> 'w lib) res" where
  "cap_shown v te e i c s =
     (case en_get_cap_details e of
        None \<Rightarrow> Inr ([], s)
      | Some fp \<Rightarrow>
          if \<not> te_main te (2 * i + 1) then Inr ([], s)
          else
            let n = unat (cap_subType c) in
            bindr (call_get_cap_details v fp s (fresh (lv_junk v) (sizeof_CAP_DETAILS * n)) (cap_amType c)) (\<lambda>(st, pDetails, s).
            if st = AM_RET_GOOD \<and> n \<noteq> 0 then
              let dsize = of_nat (sizeof_CAP_DETAILS * n * 2);
                  dbuff = (if te_main te (2 * i + 2) then Some (fresh (lv_junk v) (unat dsize)) else None)
              in bindr (show_details (i = 0) pDetails dsize n 0 dbuff) (\<lambda>out. Inr (out, s))
            else Inr ([], s)))"

fun show_caps ::
  "'w libenv \<Rightarrow> testenv \<Rightarrow> amlib_entry \<Rightarrow> bytes \<Rightarrow> nat \<Rightarrow> nat \<Rightarrow> bytes \<Rightarrow> 'w lib \<Rightarrow> (report list \<times> 'w lib) res" where
  "show_caps v te e pAmCaps 0 i pbuff s = Inr ([], s)"
| "show_caps v te e pAmCaps (Suc k) i pbuff s =
     bindr (rd_mem_cap pAmCaps (sizeof_MEM_CAP * i)) (\<lambda>c.
     bindr (am_sprintf_capability (Some c) (Some pbuff) 512) (\<lambda>(_, pbuff).
     bindr (fmt_s pbuff) (\<lambda>t.
     bindr (cap_shown v te e i c s) (\<lambda>(out, s).
     bindr (show_caps v te e pAmCaps k (Suc i) pbuff s) (\<lambda>(rest, s). Inr (Cap_text t # out @ rest, s))))))"

text \<open>The part for the C tests; it answers whether \<^verbatim>\<open>main\<close> goes on.\<close>

definition main_c ::
  "'w libenv \<Rightarrow> testenv \<Rightarrow> bytes option \<Rightarrow> UINT32 \<Rightarrow> mem_func \<Rightarrow> 'w lib \<Rightarrow> rng \<Rightarrow> (bool \<times> report list \<times> 'w lib \<times> rng) res" where
  "main_c v te driver_name test fm s g =
     bindr (am_get_entry_point (lv_sk v) (lv_sys v) (lv_al v) (lv_run v) (lv_junk v) driver_name (Some no_entry) (lb_socks s) (lb_net s))
       (\<lambda>(st, e, fds, n).
     let s = s\<lparr>lb_socks := fds, lb_net := n\<rparr>; e = (case e of None \<Rightarrow> no_entry | Some e \<Rightarrow> e) in
     if st \<noteq> AM_RET_GOOD then Inr (False, [Invalid_entry], s, g)
     else
       bindr (call_get_cap_count v (en_get_cap_count e) s) (\<lambda>(cap_count, s).
       bindr (if cap_count \<noteq> 0 \<and> te_main te 0 then
                bindr (call_get_capabilities v (en_get_capabilities e) s (fresh (lv_junk v) (sizeof_MEM_CAP * unat cap_count)) cap_count)
                  (\<lambda>(st, pAmCaps, s).
                if st = AM_RET_GOOD then
                  bindr (show_caps v te e pAmCaps (unat cap_count) 0 (fresh (lv_junk v) 512) s) (\<lambda>(out, s).
                  bindr (am_test v te pAmCaps cap_count test e fm s g) (\<lambda>(out', _, s, g). Inr (out @ out', s, g)))
                else Inr ([Get_caps_error], s, g))
              else Inr ([], s, g)) (\<lambda>(out, s, g).
       bindr (call_entry_close v e s) (\<lambda>(_, s). Inr (True, out, s, g)))))"

text \<open>
  \<open>args\<close> are the arguments behind the name of the program. Without \<^verbatim>\<open>srand\<close>, \<^verbatim>\<open>rand\<close> answers as after \<open>srand (1)\<close>.
\<close>

abbreviation (input) TEST_LANG_C :: UINT32 where "TEST_LANG_C \<equiv> 1"
abbreviation (input) TEST_LANG_CPP :: UINT32 where "TEST_LANG_CPP \<equiv> 2"

definition arg :: "bytes list \<Rightarrow> nat \<Rightarrow> UINT32 \<Rightarrow> UINT32" where
  "arg args i d = (if i < length args then word_of_int (strtol (args ! i)) else d)"

definition test_lang :: "bytes list \<Rightarrow> UINT32" where
  "test_lang args = (let l = arg args 4 (TEST_LANG_C OR TEST_LANG_CPP) in
     if TEST_LANG_C OR TEST_LANG_CPP < l then TEST_LANG_C OR TEST_LANG_CPP else l)"

definition appmemtest_main ::
  "'w libenv \<Rightarrow> testenv \<Rightarrow> bytes list \<Rightarrow> mem_func \<Rightarrow> cappmem_flat \<Rightarrow> cappmem_stata \<Rightarrow> cappmem_assca \<Rightarrow> 'w lib \<Rightarrow>
   (report list \<times> 'w lib) res" where
  "appmemtest_main v te args fm obf oba obs s =
     (if args = [] then Inr ([], s)
      else
        let driver_name = (if args ! 0 = c_bytes ''virtd'' then None else Some (args ! 0));
            test = arg args 1 AM_TYPE_ASSOC_ARRAY;
            te = te\<lparr>te_mem_size := arg args 2 1024, te_random_ops := arg args 3 1000\<rparr>;
            lang = test_lang args
        in
        bindr (if lang AND TEST_LANG_C \<noteq> 0 then main_c v te driver_name test fm s (srand 1) else Inr (True, [], s, srand 1))
          (\<lambda>(go_on, out, s, g).
        if go_on \<and> lang AND TEST_LANG_CPP \<noteq> 0 then
          bindr (am_cpp_test v te driver_name test obf oba obs s g) (\<lambda>(_, out', s, _). Inr (out @ out', s))
        else Inr (out, s)))"

end
