(* ===== verification/AM_Test_Loops.thy ===== *)
theory AM_Test_Loops
  imports AM_Test AM_Cpp_Classes
begin

text \<open>
  What the test programs report. The loops are run with an invariant, whatever device is behind them; a test reports no error when
  each read answers what its write stored, for every sequence of random numbers.
\<close>

section \<open>Loops\<close>

lemma tries_inv:
  assumes "I s" "\<And>s. I s \<Longrightarrow> \<exists>s'. body s = Inr (False, s') \<and> I s'"
  shows "\<exists>s'. tries n body s = Inr s' \<and> I s'"
  using assms(1)
proof (induction n arbitrary: s)
  case (Suc n)
  obtain s1 where "body s = Inr (False, s1)" "I s1" using assms(2) [OF Suc.prems] by blast
  then show ?case using Suc.IH by simp
qed simp

lemma up_to_inv:
  assumes "P 0 s" "\<And>k s. k < unat n \<Longrightarrow> P k s \<Longrightarrow> \<exists>s'. body (of_nat k) s = Inr s' \<and> P (Suc k) s'"
  shows "\<exists>s'. up_to 0 n body s = Inr s' \<and> P (unat n) s'"
proof -
  have "\<exists>s'. up_to (of_nat k) n body s = Inr s' \<and> P (unat n) s'" if "k \<le> unat n" "P k s" for k s
    using that
  proof (induction "unat n - k" arbitrary: k s)
    case 0
    then have "k = unat n" by simp
    then show ?case using 0 by (simp add: up_to.simps [of n])
  next
    case (Suc m)
    then have k: "k < unat n" by simp
    moreover have "unat n < 2 ^ LENGTH(32)" by (rule unsigned_less)
    ultimately have "k < 2 ^ 32" by simp
    then have lt: "of_nat k < n" using k by (simp add: word_less_nat_alt unat_of_nat)
    obtain s1 where s1: "body (of_nat k) s = Inr s1" "P (Suc k) s1" using assms(2) [OF k Suc.prems(2)] by blast
    have "of_nat k + 1 = (of_nat (Suc k) :: UINT32)" by simp
    then show ?case using Suc.hyps(1) [of "Suc k" s1] Suc.hyps(2) k lt s1 by (subst up_to.simps) (simp add: add.commute)
  qed
  from this [of 0 s] show ?thesis using assms(1) by simp
qed

lemma by_four_inv:
  assumes "P 0 s" "unat n = 4 * m" "\<And>k s. k < m \<Longrightarrow> P k s \<Longrightarrow> \<exists>s'. body (of_nat (4 * k)) s = Inr s' \<and> P (Suc k) s'"
  shows "\<exists>s'. by_four (four_fuel n) 0 n body s = Inr s' \<and> P m s'"
proof -
  have n: "n = of_nat (4 * m)" using assms(2) by (simp flip: assms(2))
  have "\<exists>s'. by_four fuel (of_nat (4 * k)) n body s = Inr s' \<and> P m s'" if "k \<le> m" "P k s" "m - k < fuel" for fuel k s
    using that
  proof (induction fuel arbitrary: k s)
    case (Suc fuel)
    show ?case
    proof (cases "k = m")
      case True
      then show ?thesis using Suc.prems n by simp
    next
      case False
      then have k: "k < m" using Suc.prems by simp
      moreover have "unat n < 2 ^ LENGTH(32)" by (rule unsigned_less)
      ultimately have "4 * k < 2 ^ 32" using assms(2) by simp
      then have lt: "of_nat (4 * k) < n" using k assms(2) by (simp only: word_less_nat_alt unat_of_nat) simp
      obtain s1 where s1: "body (of_nat (4 * k)) s = Inr s1" "P (Suc k) s1" using assms(3) [OF k Suc.prems(2)] by blast
      have "of_nat (4 * k) + 4 = (of_nat (4 * Suc k) :: UINT32)" by simp
      then show ?thesis using Suc.IH [of "Suc k" s1] Suc.prems k lt s1 by (simp add: add.commute)
    qed
  qed simp
  from this [of 0 s "four_fuel n"] show ?thesis using assms(1,2) by (simp add: four_fuel_def)
qed

section \<open>Flat memory\<close>

lemma and_not_3: "(x :: UINT32) AND NOT 3 = of_nat (4 * (unat x div 4))"
proof -
  have m: "(3 :: UINT32) = mask 2" by (simp add: mask_eq_exp_minus_1)
  have "x AND NOT 3 = push_bit 2 (drop_bit 2 x)" unfolding m by (rule bit_word_eqI) (auto simp: bit_simps not_less le_iff_add)
  also have "\<dots> = of_nat (4 * (unat x div 4))"
    by (rule word_unat_eq_iff [THEN iffD2])
      (simp add: push_bit_eq_mult drop_bit_eq_div unat_word_ariths unat_div unsigned_drop_bit_eq unat_of_nat mult.commute)
  finally show ?thesis .
qed

lemma offset_ok:
  assumes "unat (n :: UINT32) = 4 * m" "0 < m"
  shows "\<exists>k<m. umod a n = Inr (a mod n) \<and> a mod n AND NOT 3 = of_nat (4 * k)"
proof -
  have "n \<noteq> 0" using assms by auto
  moreover from this have "a mod n < n" by (simp add: word_mod_less_divisor word_gt_0)
  then have "unat (a mod n) div 4 < m" using assms(1) by (simp add: word_less_nat_alt less_mult_imp_div_less mult.commute)
  ultimately show ?thesis using and_not_3 [of "a mod n"] by (auto simp: umod_def)
qed

lemma flat_reads_ok:
  assumes "I s" "unat (te_mem_size te) = 4 * m" "0 < m"
    and get: "\<And>k val s. k < m \<Longrightarrow> I s \<Longrightarrow> \<exists>s'. get (of_nat (4 * k)) val s = Inr (of_nat (4 * k), s') \<and> I s'"
  shows "\<exists>g' s'. flat_reads te get g s = Inr (g', [], s') \<and> I s'"
proof -
  let ?I = "\<lambda>(val, rval, g, out, s). out = [] \<and> I s"
  have "\<exists>t'. tries (unat (te_random_ops te)) (flat_try te get) (0, 0, g, [], s) = Inr t' \<and> ?I t'"
  proof (rule tries_inv [where I = ?I])
    fix t :: "UINT32 \<times> UINT32 \<times> rng \<times> report list \<times> 'a" assume "?I t"
    then obtain val rval g s where t: "t = (val, rval, g, [], s)" "I s" by (cases t) auto
    obtain k where k: "k < m" "umod (val + rval) (te_mem_size te) = Inr ((val + rval) mod te_mem_size te)"
      "(val + rval) mod te_mem_size te AND NOT 3 = of_nat (4 * k)" using offset_ok [OF assms(2,3)] by blast
    obtain s' where s': "get (of_nat (4 * k)) val s = Inr (of_nat (4 * k), s')" "I s'" using get [OF k(1) t(2)] by blast
    then show "\<exists>t'. flat_try te get t = Inr (False, t') \<and> ?I t'"
      unfolding t flat_try_def using k(2,3) by (simp add: Let_def case_prod_beta del: of_nat_mult)
  qed (use assms(1) in simp)
  then show ?thesis by (auto simp: flat_reads_def)
qed

text \<open>The local buffer.\<close>

definition offsets :: "nat \<Rightarrow> UINT32 list" where
  "offsets m = map (\<lambda>k. of_nat (4 * k)) [0..<m]"

lemma wr32_words:
  assumes "k < length ws"
  shows "wr32 (enc_words ws) (4 * k) x = Inr (enc_words (ws[k := x]))"
  using assms enc_words_put [OF assms, of x] by (simp add: wr32_def putb_splice_at)

lemma rd32_words:
  assumes "k < length ws"
  shows "rd32 (enc_words ws) (4 * k) = Inr (ws ! k)"
  using assms enc_words_get [OF assms] by (simp add: rd32_def rd_in_bounds)

lemma fill_local_ok:
  assumes "unat n = 4 * m" "length b = 4 * m"
  shows "fill_local n b = Inr (enc_words (offsets m))"
proof -
  let ?P = "\<lambda>k (p, b). p = 4 * k \<and> (\<exists>ws. b = enc_words ws \<and> length ws = m \<and> take k ws = offsets k)"
  have "\<exists>t. by_four (four_fuel n) 0 n (\<lambda>i (p, b). bindr (wr32 b p i) (\<lambda>b. Inr (p + 4, b))) (0, b) = Inr t \<and> ?P m t"
  proof (rule by_four_inv [where P = ?P, OF _ assms(1)])
    show "?P 0 (0, b)" using enc_words_ex [OF assms(2)] by (auto simp: offsets_def)
    fix k and t :: "nat \<times> bytes" assume k: "k < m" and "?P k t"
    then obtain ws where t: "t = (4 * k, enc_words ws)" "length ws = m" "take k ws = offsets k" by auto
    have "take (Suc k) (ws[k := of_nat (4 * k)]) = offsets (Suc k)"
      using k t by (simp add: take_Suc_conv_app_nth offsets_def)
    then show "\<exists>t'. (case t of (p, b) \<Rightarrow> bindr (wr32 b p (of_nat (4 * k))) (\<lambda>b. Inr (p + 4, b))) = Inr t' \<and> ?P (Suc k) t'"
      using k t wr32_words [of k ws] by (auto simp del: of_nat_mult)
  qed
  then show ?thesis by (auto simp: fill_local_def)
qed

lemma local_buf_read:
  assumes "k < m" "unat (n :: UINT32) = 4 * m"
  shows "local_read (enc_words (offsets m)) (of_nat (4 * k)) val u = Inr (of_nat (4 * k), u)"
proof -
  have "unat n < 2 ^ LENGTH(32)" by (rule unsigned_less)
  then have "4 * k < 2 ^ 32" using assms by simp
  then have "unat (of_nat (4 * k) :: UINT32) = 4 * k" by (simp only: unat_of_nat) simp
  then show ?thesis using rd32_words [of k "offsets m"] assms(1) by (simp add: local_read_def offsets_def del: of_nat_mult)
qed

section \<open>Static array\<close>

text \<open>The sum of the values that a sequence of random numbers leads to.\<close>

fun ramp_sum :: "testenv \<Rightarrow> nat \<Rightarrow> UINT32 \<Rightarrow> rng \<Rightarrow> UINT32" where
  "ramp_sum te 0 val g = 0"
| "ramp_sum te (Suc k) val g =
     (case rand te g of (r, g) \<Rightarrow>
      let val = te_mem_size te - (val + r) mod te_mem_size te in val + ramp_sum te k val g)"

definition test_sum :: "testenv \<Rightarrow> UINT32" where
  "test_sum te = ramp_sum te (unat (te_random_ops te)) 0 (srand 100)"

lemma umod_ok:
  assumes "0 < unat n"
  shows "\<exists>k<unat n. umod a n = Inr (of_nat k) \<and> a mod n = of_nat k"
proof -
  have "n \<noteq> 0" using assms by auto
  moreover from this have "a mod n < n" by (simp add: word_mod_less_divisor word_gt_0)
  ultimately show ?thesis by (intro exI [of _ "unat (a mod n)"]) (simp add: umod_def word_less_nat_alt)
qed

lemma stata_reads_ok:
  assumes "I s" "0 < unat (te_mem_size te)"
    and get: "\<And>k val s. k < unat (te_mem_size te) \<Longrightarrow> I s \<Longrightarrow> \<exists>s'. get (of_nat k) val s = Inr (te_mem_size te - of_nat k, s') \<and> I s'"
  shows "\<exists>g' s'. stata_reads early te get running s = Inr (running + test_sum te, g', [], s') \<and> I s'"
proof -
  have "\<exists>v' g' s'. tries n (stata_try early te get) (val, running, g, [], s) = Inr (v', running + ramp_sum te n val g, g', [], s') \<and> I s'"
    if "I s" for n val running g s
    using that
  proof (induction n arbitrary: val running g s)
    case (Suc n)
    obtain r g1 where r: "rand te g = (r, g1)" by (cases "rand te g")
    obtain k where k: "k < unat (te_mem_size te)" "umod (val + r) (te_mem_size te) = Inr (of_nat k)" "(val + r) mod te_mem_size te = of_nat k"
      using umod_ok [OF assms(2)] by blast
    obtain s1 where s1: "get (of_nat k) val s = Inr (te_mem_size te - of_nat k, s1)" "I s1" using get [OF k(1) Suc.prems] by blast
    have "stata_try early te get (val, running, g, [], s) =
        Inr (False, te_mem_size te - of_nat k, running + (te_mem_size te - of_nat k), g1, [], s1)"
      using r k(2) s1(1) by (simp add: stata_try_def Let_def)
    then show ?case using Suc.IH [OF s1(2), of "te_mem_size te - of_nat k" "running + (te_mem_size te - of_nat k)" g1] r k(3)
      by (simp add: Let_def add.assoc)
  qed simp
  from this [OF assms(1), of "unat (te_random_ops te)" 0 running "srand 100"] show ?thesis
    by (auto simp: stata_reads_def test_sum_def)
qed

definition ramp :: "UINT32 \<Rightarrow> UINT32 list" where
  "ramp n = map (\<lambda>k. n - of_nat k) [0..<unat n]"

lemma length_ramp [simp]: "length (ramp n) = unat n"
  by (simp add: ramp_def)

lemma nth_ramp [simp]: "k < unat n \<Longrightarrow> ramp n ! k = n - of_nat k"
  by (simp add: ramp_def)

lemma unat_of_nat_below: "k < unat (n :: UINT32) \<Longrightarrow> unat (of_nat k :: UINT32) = k"
proof -
  assume "k < unat n"
  moreover have "unat n < 2 ^ LENGTH(32)" by (rule unsigned_less)
  ultimately show ?thesis by (simp add: unat_of_nat)
qed

text \<open>An array filled element by element, wherever it is: \<open>H\<close> says what words it holds.\<close>

lemma stata_writes_ok:
  assumes "H ws s" "length ws = unat n"
    and put: "\<And>k x ws s. H ws s \<Longrightarrow> k < length ws \<Longrightarrow> \<exists>s'. put (of_nat k) x s = Inr s' \<and> H (ws[k := x]) s'"
  shows "\<exists>s'. stata_writes n put s = Inr s' \<and> H (ramp n) s'"
proof -
  let ?P = "\<lambda>k s. \<exists>ws. H ws s \<and> length ws = unat n \<and> take k ws = take k (ramp n)"
  have "\<exists>s'. up_to 0 n (\<lambda>i s. put i (n - i) s) s = Inr s' \<and> ?P (unat n) s'"
  proof (rule up_to_inv [where P = ?P])
    show "?P 0 s" using assms(1,2) by auto
    fix k s assume k: "k < unat n" and "?P k s"
    then obtain ws where ws: "H ws s" "length ws = unat n" "take k ws = take k (ramp n)" by blast
    obtain s' where "put (of_nat k) (n - of_nat k) s = Inr s'" "H (ws[k := n - of_nat k]) s'" using put [OF ws(1)] k ws(2) by auto
    then show "\<exists>s'. put (of_nat k) (n - of_nat k) s = Inr s' \<and> ?P (Suc k) s'"
      using k ws(2,3) by (intro exI [of _ s'] conjI exI [of _ "ws[k := n - of_nat k]"]) (simp_all add: take_Suc_conv_app_nth)
  qed
  then show ?thesis by (auto simp: stata_writes_def)
qed

lemma local_ramp_ok:
  assumes "length b = 4 * unat n"
  shows "local_ramp n b = Inr (enc_words (ramp n))"
proof -
  obtain ws where ws: "b = enc_words ws" "length ws = unat n" using enc_words_ex [OF assms] by blast
  have "\<exists>b'. stata_writes n (\<lambda>i x b. wr32 b (4 * unat i) x) b = Inr b' \<and> b' = enc_words (ramp n)"
  proof (rule stata_writes_ok [where H = "\<lambda>ws b. b = enc_words ws \<and> length ws = unat n", THEN exE])
    show "b = enc_words ws \<and> length ws = unat n" using ws by simp
    show "length ws = unat n" by (rule ws(2))
    show "\<exists>s'. wr32 s (4 * unat (of_nat k :: UINT32)) x = Inr s' \<and> s' = enc_words (ws[k := x]) \<and> length (ws[k := x]) = unat n"
      if "s = enc_words ws \<and> length ws = unat n" "k < length ws" for k x ws s
      using that wr32_words [of k ws x] unat_of_nat_below [of k n] by simp
  qed blast
  then show ?thesis by (simp add: local_ramp_def stata_writes_def)
qed

lemma local_elem_ok:
  assumes "k < unat n"
  shows "local_elem (enc_words (ramp n)) (of_nat k) val u = Inr (n - of_nat k, u)"
  using assms rd32_words [of k "ramp n"] unat_of_nat_below [OF assms] by (simp add: local_elem_def)

section \<open>Associative array\<close>

lemma length_key_letters: "length (fst (key_letters te n g)) = n"
proof (induction n arbitrary: g)
  case (Suc n)
  show ?case using Suc.IH [of "snd (rand te g)"] by (simp add: Let_def case_prod_beta)
qed simp

lemma make_keys_ok:
  assumes "\<And>i. te_keys te i" "key_size \<noteq> 0"
  shows "\<exists>ks g'. make_keys te key_size n i g = Inr (ks, g') \<and> length ks = n \<and> (\<forall>k\<in>set ks. length k = unat key_size)"
proof (induction n arbitrary: i g)
  case (Suc n)
  obtain pK g1 where p: "key_letters te (unat (key_size - 1)) g = (pK, g1)"
    by (cases "key_letters te (unat (key_size - 1)) g")
  have "length pK = unat (key_size - 1)" using length_key_letters [of te "unat (key_size - 1)" g] p by simp
  then have "Suc (length pK) = unat key_size" using assms(2) by (simp add: unat_minus_one unat_gt_0)
  moreover obtain ks g' where "make_keys te key_size n (Suc i) g1 = Inr (ks, g')" "length ks = n" "\<forall>k\<in>set ks. length k = unat key_size"
    using Suc.IH by blast
  ultimately show ?case using assms p by simp
qed simp

lemma get_test_keys_ok:
  assumes "\<And>i. te_keys te i" "key_size \<noteq> 0"
  shows "\<exists>ks g'. am_get_test_keys te n key_size g = Inr (Some ks, g') \<and> length ks = unat n \<and> (\<forall>k\<in>set ks. length k = unat key_size)"
proof -
  obtain ks g' where "make_keys te key_size (unat n) 0 g = Inr (ks, g')" "length ks = unat n" "\<forall>k\<in>set ks. length k = unat key_size"
    using make_keys_ok [OF assms] by blast
  then show ?thesis using assms(1) [of 0] by (simp add: am_get_test_keys_def)
qed

lemma key_reads_ok:
  assumes "I s" "0 < unat (te_mem_size te)"
    and get: "\<And>k val s. k < unat (te_mem_size te) \<Longrightarrow> I s \<Longrightarrow> \<exists>s'. get (keys ! k) val s = Inr (AM_RET_GOOD, of_nat k, s') \<and> I s'"
  shows "\<exists>val' g' s'. key_reads te keys get val g s = Inr (val', g', [], s') \<and> I s'"
proof -
  let ?I = "\<lambda>(val, g, out, s). out = [] \<and> I s"
  have "\<exists>t'. tries (unat (te_random_ops te)) (key_try te keys get) (val, g, [], s) = Inr t' \<and> ?I t'"
  proof (rule tries_inv [where I = ?I])
    fix t :: "UINT32 \<times> rng \<times> report list \<times> 'a" assume "?I t"
    then obtain val g s where t: "t = (val, g, [], s)" "I s" by (cases t) auto
    obtain r g1 where r: "rand te g = (r, g1)" by (cases "rand te g")
    obtain k where k: "k < unat (te_mem_size te)" "umod r (te_mem_size te) = Inr (of_nat k)" using umod_ok [OF assms(2)] by blast
    obtain s' where "get (keys ! k) val s = Inr (AM_RET_GOOD, of_nat k, s')" "I s'" using get [OF k(1) t(2)] by blast
    then show "\<exists>t'. key_try te keys get t = Inr (False, t') \<and> ?I t'"
      using r k unat_of_nat_below [OF k(1)] by (simp add: t(1) key_try_def Let_def)
  qed (use assms(1) in simp)
  then show ?thesis by (auto simp: key_reads_def)
qed

text \<open>The entries that the keys are stored with, and a table that is filled with them.\<close>

definition key_entries :: "bytes list \<Rightarrow> (bytes \<times> bytes) list" where
  "key_entries ks = map (\<lambda>i. (ks ! i, le_enc 4 (of_nat i :: UINT32))) [0..<length ks]"

lemma map_fst_key_entries [simp]: "map fst (key_entries ks) = ks"
  by (simp add: key_entries_def comp_def map_nth)

lemma length_key_entries [simp]: "length (key_entries ks) = length ks"
  by (simp add: key_entries_def)

lemma map_of_key_entries:
  assumes "distinct ks" "i < length ks"
  shows "map_of (key_entries ks) (ks ! i) = Some (le_enc 4 (of_nat i :: UINT32))"
proof -
  have "(ks ! i, le_enc 4 (of_nat i :: UINT32)) \<in> set (key_entries ks)" using assms(2) by (auto simp: key_entries_def)
  then show ?thesis using assms(1) by simp
qed

section \<open>The devices as the loops use them\<close>

text \<open>A client of an array of words: \<open>H\<close> says which words the state holds.\<close>

locale word_client =
  fixes H :: "UINT32 list \<Rightarrow> 's \<Rightarrow> bool"
    and put :: "UINT32 \<Rightarrow> UINT32 \<Rightarrow> 's \<Rightarrow> 's res"
    and get :: "UINT32 \<Rightarrow> UINT32 \<Rightarrow> 's \<Rightarrow> (UINT32 \<times> 's) res"
  assumes put: "H ws s \<Longrightarrow> k < length ws \<Longrightarrow> \<exists>s'. put (of_nat k) x s = Inr s' \<and> H (ws[k := x]) s'"
    and get: "H ws s \<Longrightarrow> k < length ws \<Longrightarrow> \<exists>s'. get (of_nat k) val s = Inr (ws ! k, s') \<and> H ws s'"
begin

text \<open>The loops of the static array tests.\<close>

lemma ramp_stored:
  assumes "H ws s" "length ws = unat n"
  shows "\<exists>s'. stata_writes n put s = Inr s' \<and> H (ramp n) s'"
  by (rule stata_writes_ok [where H = H, OF assms]) (rule put)

lemma ramp_read:
  assumes "H (ramp (te_mem_size te)) s" "0 < unat (te_mem_size te)"
  shows "\<exists>g' s'. stata_reads early te get running s = Inr (running + test_sum te, g', [], s') \<and> H (ramp (te_mem_size te)) s'"
proof (rule stata_reads_ok [where I = "H (ramp (te_mem_size te))", OF assms])
  fix k val s assume "k < unat (te_mem_size te)" "H (ramp (te_mem_size te)) s"
  then show "\<exists>s'. get (of_nat k) val s = Inr (te_mem_size te - of_nat k, s') \<and> H (ramp (te_mem_size te)) s'"
    using get [of "ramp (te_mem_size te)" s k val] by simp
qed

text \<open>The loops of the flat memory tests, which address the words by their offset.\<close>

lemma offsets_stored:
  assumes "H ws s" "unat n = 4 * m" "m \<le> length ws" "\<And>i x s. fput (i * 4) x s = put i x s"
  shows "\<exists>s' ws'. flat_writes n fput s = Inr s' \<and> H ws' s' \<and> length ws' = length ws \<and> take m ws' = offsets m"
proof -
  let ?P = "\<lambda>k s. \<exists>ws'. H ws' s \<and> length ws' = length ws \<and> take k ws' = offsets k"
  have "\<exists>s'. by_four (four_fuel n) 0 n (\<lambda>i s. fput i i s) s = Inr s' \<and> ?P m s'"
  proof (rule by_four_inv [where P = ?P, OF _ assms(2)])
    show "?P 0 s" using assms(1) by (auto simp: offsets_def)
    fix k s assume k: "k < m" and "?P k s"
    then obtain ws' where ws': "H ws' s" "length ws' = length ws" "take k ws' = offsets k" by blast
    let ?x = "of_nat (4 * k) :: UINT32"
    obtain s' where "put (of_nat k) ?x s = Inr s'" "H (ws'[k := ?x]) s'" using put [OF ws'(1), of k ?x] k ws'(2) assms(3) by auto
    moreover have "fput ?x ?x s = put (of_nat k) ?x s" using assms(4) [of "of_nat k" ?x s] by (simp add: mult.commute)
    moreover have "take (Suc k) (ws'[k := ?x]) = offsets (Suc k)"
      using k ws' assms(3) by (simp add: take_Suc_conv_app_nth offsets_def)
    ultimately show "\<exists>s'. fput ?x ?x s = Inr s' \<and> ?P (Suc k) s'" using ws'(2) by (metis length_list_update)
  qed
  then show ?thesis by (auto simp: flat_writes_def)
qed

lemma offsets_read:
  assumes "H ws s" "unat (te_mem_size te) = 4 * m" "0 < m" "take m ws = offsets m" "\<And>i x s. fget (i * 4) x s = get i x s"
  shows "\<exists>g' s'. flat_reads te fget g s = Inr (g', [], s') \<and> H ws s'"
proof (rule flat_reads_ok [where I = "H ws", OF assms(1-3)])
  fix k val s assume k: "k < m" and s: "H ws s"
  have "length (take m ws) = m" by (simp add: assms(4) offsets_def)
  then have l: "k < length ws" using k by simp
  have "ws ! k = take m ws ! k" using k by simp
  also have "\<dots> = of_nat (4 * k)" using k unfolding assms(4) by (simp add: offsets_def)
  finally have "ws ! k = of_nat (4 * k)" .
  moreover have "fget (of_nat (4 * k)) val s = get (of_nat k) val s" using assms(5) [of "of_nat k" val s] by (simp add: mult.commute)
  ultimately show "\<exists>s'. fget (of_nat (4 * k)) val s = Inr (of_nat (4 * k), s') \<and> H ws s'" using get [OF s l, of val] by metis
qed

end

lemma put_all_iters:
  "put_all (amlib_assca_add_key_fixfix al) aa ws = Inr (st, aa') \<Longrightarrow> aa_iters aa' = aa_iters aa"
proof (induction ws arbitrary: aa)
  case (Cons w ws)
  obtain k d where w: "w = (k, d)" by (cases w)
  obtain st1 aa1 where aa1: "amlib_assca_add_key_fixfix al aa k d = Inr (st1, aa1)"
    "(if st1 = AM_RET_GOOD then put_all (amlib_assca_add_key_fixfix al) aa1 ws else Inr (st1, aa1)) = Inr (st, aa')"
    using Cons.prems by (auto simp: w bindr_eq_Inr)
  then have "aa_iters aa1 = aa_iters aa" by (auto simp: amlib_assca_add_key_fixfix_def res_simps Let_def split: if_splits)
  then show ?case using aa1(2) Cons.IH by (auto split: if_splits)
qed simp

text \<open>A client of an associative array: \<open>R\<close> says which table is behind the state.\<close>

locale table_client =
  fixes R :: "'s \<Rightarrow> amlib_assca \<Rightarrow> bool"
    and put :: "bytes \<Rightarrow> bytes \<Rightarrow> 's \<Rightarrow> 's res"
    and get :: "bytes \<Rightarrow> UINT32 \<Rightarrow> 's \<Rightarrow> (AM_RETURN \<times> UINT32 \<times> 's) res"
  assumes put: "R s aa \<Longrightarrow> amlib_assca_add_key_fixfix (\<lambda>_. True) aa k d = Inr (st, aa') \<Longrightarrow> \<exists>s'. put k d s = Inr s' \<and> R s' aa'"
    and get: "R s aa \<Longrightarrow> amlib_assca_get_key_val aa k (le_enc 4 val) = Inr (st, b) \<Longrightarrow> \<exists>s'. get k val s = Inr (st, le_dec b, s') \<and> R s' aa"
begin

lemma writes_put_all:
  assumes "R s aa" "put_all (amlib_assca_add_key_fixfix (\<lambda>_. True)) aa (key_entries ks) = Inr (AM_RET_GOOD, aa')" "length ks = unat n"
  shows "\<exists>s'. key_writes n ks put s = Inr s' \<and> R s' aa'"
proof -
  let ?P = "\<lambda>i s. \<exists>aa1. R s aa1 \<and> put_all (amlib_assca_add_key_fixfix (\<lambda>_. True)) aa1 (drop i (key_entries ks)) = Inr (AM_RET_GOOD, aa')"
  have "\<exists>s'. up_to 0 n (\<lambda>i s. put (ks ! unat i) (le_enc 4 i) s) s = Inr s' \<and> ?P (unat n) s'"
  proof (rule up_to_inv [where P = ?P])
    show "?P 0 s" using assms(1,2) by auto
    fix i s assume i: "i < unat n" and "?P i s"
    then obtain aa1 where aa1: "R s aa1"
      "put_all (amlib_assca_add_key_fixfix (\<lambda>_. True)) aa1 (drop i (key_entries ks)) = Inr (AM_RET_GOOD, aa')" by blast
    have "drop i (key_entries ks) = (ks ! i, le_enc 4 (of_nat i :: UINT32)) # drop (Suc i) (key_entries ks)"
      using i assms(3) by (simp add: Cons_nth_drop_Suc [symmetric] key_entries_def)
    then obtain aa2 where aa2: "amlib_assca_add_key_fixfix (\<lambda>_. True) aa1 (ks ! i) (le_enc 4 (of_nat i :: UINT32)) = Inr (AM_RET_GOOD, aa2)"
      "put_all (amlib_assca_add_key_fixfix (\<lambda>_. True)) aa2 (drop (Suc i) (key_entries ks)) = Inr (AM_RET_GOOD, aa')"
      using aa1(2) by (auto simp: res_simps split: if_splits)
    then show "\<exists>s'. put (ks ! unat (of_nat i :: UINT32)) (le_enc 4 (of_nat i :: UINT32)) s = Inr s' \<and> ?P (Suc i) s'"
      using put [OF aa1(1) aa2(1)] unat_of_nat_below [OF i] by auto
  qed
  then show ?thesis using assms(3) by (auto simp: key_writes_def)
qed

text \<open>A table filled with different keys is read as it was written; no iterator of it is in use.\<close>

lemma keys_stored:
  assumes "R s (empty_assca kl 4)" "room_for assca_room (amlib_assca_add_key_fixfix (\<lambda>_. True)) (empty_assca kl 4) (key_entries ks)"
    and "\<forall>k\<in>set ks. length k = unat kl" "length ks = unat n"
  shows "\<exists>s' aa. key_writes n ks put s = Inr s' \<and> R s' aa \<and> assca_inv aa (key_entries ks) \<and> aa_key_len aa = kl \<and> aa_data_len aa = 4 \<and>
    aa_iters aa = replicate MAX_ASSCA_ITERS None"
proof -
  have l: "aa_key_len (empty_assca kl 4) = kl" "aa_data_len (empty_assca kl 4) = 4" by (simp_all add: empty_assca_def)
  have e: "\<forall>(k, d)\<in>set (key_entries ks). length k = unat kl \<and> length d = 4" using assms(3) by (auto simp: key_entries_def)
  have t: "map (\<lambda>(k, d). (take (unat kl) k, take (unat (4 :: UINT32)) d)) (key_entries ks) = key_entries ks"
    using e by (auto intro!: map_idI)
  have "\<forall>(k, d)\<in>set (key_entries ks). unat kl \<le> length k \<and> unat (4 :: UINT32) \<le> length d" using e by auto
  then obtain aa where "put_all (amlib_assca_add_key_fixfix (\<lambda>_. True)) (empty_assca kl 4) (key_entries ks) = Inr (AM_RET_GOOD, aa)"
    "assca_inv aa (key_entries ks)" "unat (aa_key_len aa) = unat kl" "unat (aa_data_len aa) = unat (4 :: UINT32)"
    using assca.put_all_ok [OF assca_inv_empty assms(2), unfolded l t] by auto
  moreover from this have "aa_iters aa = replicate MAX_ASSCA_ITERS None" using put_all_iters by (fastforce simp: empty_assca_def)
  ultimately show ?thesis using writes_put_all [OF assms(1) _ assms(4)] by (auto simp: word_unat_eq_iff)
qed

lemma key_read:
  assumes "R s aa" "assca_inv aa (key_entries ks)" "aa_key_len aa = kl" "aa_data_len aa = 4"
    and "\<forall>k\<in>set ks. length k = unat kl" "distinct ks" "i < length ks"
  shows "\<exists>s'. get (ks ! i) val s = Inr (AM_RET_GOOD, of_nat i, s') \<and> R s' aa"
proof -
  have "amlib_assca_get_key_val aa (ks ! i) (le_enc 4 val) = Inr (AM_RET_GOOD, le_enc 4 (of_nat i :: UINT32))"
    using assca.get_map [OF assms(2), of "ks ! i" "le_enc 4 val"] assms(3-7) map_of_key_entries [OF assms(6,7)] by simp
  from get [OF assms(1) this] show ?thesis by simp
qed

lemma keys_read:
  assumes "R s aa" "assca_inv aa (key_entries ks)" "aa_key_len aa = kl" "aa_data_len aa = 4"
    and "\<forall>k\<in>set ks. length k = unat kl" "distinct ks" "length ks = unat (te_mem_size te)" "0 < unat (te_mem_size te)"
  shows "\<exists>val' g' s'. key_reads te ks get val g s = Inr (val', g', [], s') \<and> R s' aa"
  by (rule key_reads_ok [where I = "\<lambda>s. R s aa", OF assms(1,8)]) (use key_read [OF _ assms(2-6)] assms(7) in simp)

end

interpretation local_table: table_client "\<lambda>p aa. p = Live aa" "local_add (\<lambda>_. True)" local_get
  by unfold_locales (auto simp: local_add_def local_get_def)

end
