(* ===== verification/AM_Cpp_Test_Props.thy ===== *)
theory AM_Cpp_Test_Props
  imports AM_Test_Loops AM_Cpp_Kernel
begin

text \<open>
  The tests of the C++ classes: none reports an error over the in-process device, the one of the static array over the module loaded into
  the kernel neither, and the object of each is destroyed.
\<close>

section \<open>Every object of a derived class can be destroyed\<close>

definition device_made ::
  "'w libenv \<Rightarrow> ('a cappmem_scheme \<Rightarrow> mem_cap \<Rightarrow> AM_RETURN \<times> mem_cap) \<Rightarrow> 'a cappmem_scheme \<Rightarrow> 'w lib \<Rightarrow> ('a cappmem_scheme \<times> 'w lib) res" where
  "device_made v cc ob s =
     bindr (deref (cm_pBaseCaps ob)) (\<lambda>c.
     bindr (rd_mem_cap c 0) (\<lambda>configCap.
     case cc ob configCap of
       (st, configCap) \<Rightarrow>
         if st = AM_RET_GOOD then
           bindr (call_create_function v (en_create_function (cm_amEntry ob)) s configCap (cm_amFunc ob)) (\<lambda>(st, f, s).
           let ob = ob\<lparr>cm_amFunc := f\<rparr> in
           if st = AM_RET_GOOD then
             bindr (call_open v s (Option.bind (fn_calls f) fc_open) f) (\<lambda>(st, f, s).
             Inr (ob\<lparr>cm_amFunc := f, cm_bReady := (if st = AM_RET_GOOD then True else cm_bReady ob)\<rparr>, s))
           else Inr (ob, s))
         else Inr (ob, s)))"

lemma device_made_keeps:
  assumes "device_made v cc ob s = Inr (ob', s')"
  shows "cm_pBaseCaps ob' = cm_pBaseCaps ob \<and> cm_pCalls ob' = cm_pCalls ob"
proof -
  obtain c cap where m: "(case cc ob cap of
       (st, configCap) \<Rightarrow>
         if st = AM_RET_GOOD then
           bindr (call_create_function v (en_create_function (cm_amEntry ob)) s configCap (cm_amFunc ob)) (\<lambda>(st, f, s).
           let ob = ob\<lparr>cm_amFunc := f\<rparr> in
           if st = AM_RET_GOOD then
             bindr (call_open v s (Option.bind (fn_calls f) fc_open) f) (\<lambda>(st, f, s).
             Inr (ob\<lparr>cm_amFunc := f, cm_bReady := (if st = AM_RET_GOOD then True else cm_bReady ob)\<rparr>, s))
           else Inr (ob, s))
         else Inr (ob, s)) = Inr (ob', s')"
    using assms unfolding device_made_def by (auto simp only: bindr_eq_Inr)
  show ?thesis
  proof (cases "cc ob cap")
    case (Pair st cap')
    show ?thesis
    proof (cases "st = AM_RET_GOOD")
      case True
      obtain st1 f s1 where m1: "(let ob = ob\<lparr>cm_amFunc := f\<rparr> in
           if st1 = AM_RET_GOOD then
             bindr (call_open v s1 (Option.bind (fn_calls f) fc_open) f) (\<lambda>(st, f, s).
             Inr (ob\<lparr>cm_amFunc := f, cm_bReady := (if st = AM_RET_GOOD then True else cm_bReady ob)\<rparr>, s))
           else Inr (ob, s1)) = Inr (ob', s')"
        using m [unfolded Pair prod.case if_P [OF True]] by (auto simp only: bindr_eq_Inr prod.case split_paired_Ex)
      show ?thesis
      proof (cases "st1 = AM_RET_GOOD")
        case True
        then show ?thesis using m1 by (auto simp: bindr_eq_Inr Let_def)
      qed (use m1 in \<open>auto simp: Let_def\<close>)
    qed (use m Pair in auto)
  qed
qed

lemma init_device_destructible:
  assumes "init_device v cc ty caps ob s = Inr (ob', s')" "destructible ob"
  shows "destructible ob'"
proof -
  obtain found ob1 where ob1: "(case found of None \<Rightarrow> Inr ob
      | Some c \<Rightarrow> if lv_new v 1 then Inr (ob\<lparr>cm_pBaseCaps := Live c, cm_cap_count := 1\<rparr>) else Inl BadAlloc) = Inr ob1"
    "(if cm_pBaseCaps ob1 = Null then Inr (ob1, s) else if \<not> lv_new v 2 then Inl BadAlloc
      else device_made v cc (ob1\<lparr>cm_pCalls := Some (Live ()), cm_amFunc := (cm_amFunc ob1)\<lparr>fn_calls := Some (lv_calls v)\<rparr>\<rparr>) s) = Inr (ob', s')"
    using assms(1) unfolding init_device_def device_made_def Let_def by (auto simp only: bindr_eq_Inr)
  have d: "destructible ob1" using ob1(1) assms(2) by (auto simp: destructible_def split: option.splits if_splits)
  show ?thesis
  proof (cases "cm_pBaseCaps ob1 = Null")
    case False
    then have "device_made v cc (ob1\<lparr>cm_pCalls := Some (Live ()), cm_amFunc := (cm_amFunc ob1)\<lparr>fn_calls := Some (lv_calls v)\<rparr>\<rparr>) s = Inr (ob', s')"
      using ob1(2) by (auto split: if_splits)
    from device_made_keeps [OF this] show ?thesis using d by (simp add: destructible_def)
  qed (use ob1(2) d in auto)
qed

lemma initBase_destructible:
  assumes "initBase v cc am_name ty ob s = Inr (ob', s')" "destructible ob"
  shows "destructible ob'"
proof -
  obtain st e fds n where "am_get_entry_point (lv_sk v) (lv_sys v) (lv_al v) (lv_run v) (lv_junk v) am_name (Some (cm_amEntry ob))
      (lb_socks s) (lb_net s) = Inr (st, e, fds, n)"
    using assms(1) unfolding initBase_def by (auto simp: bindr_eq_Inr)
  note a = assms(1) [unfolded initBase_def this bindr_Inr prod.case Let_def]
  define ob0 where "ob0 = (case e of None \<Rightarrow> ob | Some e \<Rightarrow> ob\<lparr>cm_amEntry := e\<rparr>)"
  have d: "destructible ob0" using assms(2) by (auto simp: ob0_def destructible_def split: option.split)
  note a = a [folded ob0_def]
  show ?thesis
  proof (cases "st = AM_RET_GOOD")
    case True
    obtain c s1 where c: "(if c = 0 then Inr (ob0\<lparr>cm_cap_count := c\<rparr>, s1) else if \<not> lv_new v 0 then Inl BadAlloc
       else
         bindr (call_get_capabilities v (en_get_capabilities (cm_amEntry (ob0\<lparr>cm_cap_count := c\<rparr>))) s1
                  (fresh (lv_junk v) (sizeof_MEM_CAP * unat c)) c) (\<lambda>(st, pAllCaps, s).
         if st = AM_RET_GOOD then
           if ty = AM_TYPE_BASE_APPMEM then Inr (ob0\<lparr>cm_cap_count := c, cm_pBaseCaps := Live pAllCaps, cm_bReady := True\<rparr>, s)
           else init_device v cc ty pAllCaps (ob0\<lparr>cm_cap_count := c\<rparr>) s
         else Inr (ob0\<lparr>cm_cap_count := c\<rparr>, s))) = Inr (ob', s')"
      using a unfolding if_P [OF True] by (auto simp only: bindr_eq_Inr prod.case split_paired_Ex)
    have d1: "destructible (ob0\<lparr>cm_cap_count := c\<rparr>)" using d by (simp add: destructible_def)
    show ?thesis
    proof (cases "c = 0")
      case False
      have n: "lv_new v 0" using c [unfolded if_not_P [OF False]] by (cases "lv_new v 0") simp_all
      then have n: "\<not> \<not> lv_new v 0" by simp
      obtain st1 b s2 where "(if st1 = AM_RET_GOOD then
           if ty = AM_TYPE_BASE_APPMEM then Inr (ob0\<lparr>cm_cap_count := c, cm_pBaseCaps := Live b, cm_bReady := True\<rparr>, s2)
           else init_device v cc ty b (ob0\<lparr>cm_cap_count := c\<rparr>) s2
         else Inr (ob0\<lparr>cm_cap_count := c\<rparr>, s2)) = Inr (ob', s')"
        using c [unfolded if_not_P [OF False] if_not_P [OF n]] by (auto simp only: bindr_eq_Inr prod.case split_paired_Ex)
      then show ?thesis using d1 init_device_destructible [of v cc ty b "ob0\<lparr>cm_cap_count := c\<rparr>" s2] d
        by (auto simp: destructible_def split: if_splits)
    qed (use c d1 in auto)
  qed (use a d in auto)
qed

lemma derived_destructible:
  "CAppMemFlat v am_name memSize addressSize obf s = Inr (obf', s') \<Longrightarrow> destructible obf'"
  "CAppMemStaticArray v am_name n dataSize indexSize oba s = Inr (oba', s') \<Longrightarrow> destructible oba'"
  by (auto simp: CAppMemFlat_def CAppMemStaticArray_def Let_def CAppMem_default_def destructible_def [of "_\<lparr>ca_index_size := _\<rparr>"]
    elim!: initBase_destructible split: if_splits) (simp_all add: destructible_def)

section \<open>The objects as clients of their devices\<close>

lemma stata_object_client:
  assumes dev: "aligned_device use_read use_write store cell"
  shows "word_client (\<lambda>ws (ob, s). holds_words store cell (v, ob, s) ws \<and> unat (ca_elements ob) = length ws \<and> destructible ob)
    (elem_put v) (elem_get v)"
proof (unfold_locales, goal_cases)
  case (1 ws t k x)
  obtain ob s where t: "t = (ob, s)" by (cases t)
  have k: "unat (of_nat k :: UINT32) = k" using 1 unat_of_nat_below [of k "ca_elements ob"] by (simp add: t)
  then have i: "unat (of_nat k :: UINT32) < length ws" "(of_nat k :: UINT32) < ca_elements ob" using 1 by (simp_all add: t word_less_nat_alt)
  obtain u' where u': "use_write (v, ob, s) (Some (le_enc 4 (of_nat k :: UINT32))) (Some (le_enc 4 x)) = Inr (AM_RET_GOOD, u', Some (le_enc 4 x))"
    "holds_words store cell u' (ws[k := x])"
    using aligned_device.put_word [OF dev _ i(1), of "le_enc 4"] 1(1) unfolding k t by blast
  obtain f s' where "obj_write_al v (le_enc 4 (of_nat k :: UINT32)) (le_enc 4 x) ob s = Inr (AM_RET_GOOD, ob\<lparr>cm_amFunc := f\<rparr>, s')" "u' = (v, ob\<lparr>cm_amFunc := f\<rparr>, s')"
    using use_write_Inr [OF u'(1)] by blast
  then show ?case using i(2) u'(2) 1 by (simp add: t elem_put_def stata_insert_def destructible_def)
next
  case (2 ws t k val)
  obtain ob s where t: "t = (ob, s)" by (cases t)
  have k: "unat (of_nat k :: UINT32) = k" using 2 unat_of_nat_below [of k "ca_elements ob"] by (simp add: t)
  then have i: "unat (of_nat k :: UINT32) < length ws" "(of_nat k :: UINT32) < ca_elements ob" using 2 by (simp_all add: t word_less_nat_alt)
  obtain u' where u': "use_read (v, ob, s) (Some (le_enc 4 (of_nat k :: UINT32))) (Some (le_enc 4 val)) = Inr (AM_RET_GOOD, u', Some (le_enc 4 (ws ! k)))"
    "holds_words store cell u' ws"
    using aligned_device.fetch_word [OF dev _ i(1), of "le_enc 4"] 2(1) unfolding k t by blast
  obtain f s' where "obj_read_al v (le_enc 4 (of_nat k :: UINT32)) (le_enc 4 val) ob s = Inr (AM_RET_GOOD, le_enc 4 (ws ! k), ob\<lparr>cm_amFunc := f\<rparr>, s')"
    "u' = (v, ob\<lparr>cm_amFunc := f\<rparr>, s')"
    using use_read_Inr [OF u'(1)] by blast
  then show ?case using i(2) u'(2) 2 by (simp add: t elem_get_def stata_get_def destructible_def)
qed

interpretation stata_object: word_client
  "\<lambda>ws (ob, s). holds_words (local_store stata_store) (local_cell Fn_stata_read_idx32 Fn_stata_write_idx32 stata_cell) (v, ob, s) ws \<and>
     unat (ca_elements ob) = length ws \<and> destructible ob" "elem_put v" "elem_get v" for v
  by (rule stata_object_client [OF stata_local.inproc.aligned_device_axioms])

interpretation flat_object: word_client
  "\<lambda>ws (ob, s). flat_holds v ob s ws \<and> unat (cf_elements ob) = length ws \<and> cf_address_size ob = 4 \<and> destructible ob"
  "\<lambda>i. flat_put v (i * 4)" "\<lambda>i. flat_get v (i * 4)" for v
proof (unfold_locales, goal_cases)
  case (1 ws t k x)
  obtain ob s where t: "t = (ob, s)" by (cases t)
  have k: "unat (of_nat k :: UINT32) = k" using 1 unat_of_nat_below [of k "cf_elements ob"] by (simp add: t)
  then have i: "unat (of_nat k :: UINT32) < length ws" using 1 by simp
  obtain u' where u': "use_write (v, ob, s) (Some (flat_key (of_nat k))) (Some (le_enc 4 x)) = Inr (AM_RET_GOOD, u', Some (le_enc 4 x))"
    "holds_at flat_key (local_store flat_store) (local_cell Fn_flat_read32_align Fn_flat_write32_align flat_cell) u' (ws[k := x])"
    using flat_local.inproc.put_word [OF _ i, of flat_key] 1(1) unfolding k t by blast
  obtain f s' where "obj_write_al v (flat_key (of_nat k)) (le_enc 4 x) ob s = Inr (AM_RET_GOOD, ob\<lparr>cm_amFunc := f\<rparr>, s')" "u' = (v, ob\<lparr>cm_amFunc := f\<rparr>, s')"
    using use_write_Inr [OF u'(1)] by blast
  then show ?case using u'(2) 1 by (simp add: t flat_put_def write32_def destructible_def)
next
  case (2 ws t k val)
  obtain ob s where t: "t = (ob, s)" by (cases t)
  have k: "unat (of_nat k :: UINT32) = k" using 2 unat_of_nat_below [of k "cf_elements ob"] by (simp add: t)
  then have i: "unat (of_nat k :: UINT32) < length ws" using 2 by simp
  obtain u' where u': "use_read (v, ob, s) (Some (flat_key (of_nat k))) (Some (le_enc 4 val)) = Inr (AM_RET_GOOD, u', Some (le_enc 4 (ws ! k)))"
    "holds_at flat_key (local_store flat_store) (local_cell Fn_flat_read32_align Fn_flat_write32_align flat_cell) u' ws"
    using flat_local.inproc.fetch_word [OF _ i, of flat_key] 2(1) unfolding k t by blast
  obtain f s' where "obj_read_al v (flat_key (of_nat k)) (le_enc 4 val) ob s = Inr (AM_RET_GOOD, le_enc 4 (ws ! k), ob\<lparr>cm_amFunc := f\<rparr>, s')"
    "u' = (v, ob\<lparr>cm_amFunc := f\<rparr>, s')"
    using use_read_Inr [OF u'(1)] by blast
  then show ?case using u'(2) 2 by (simp add: t flat_get_def read32_def destructible_def)
qed

interpretation assca_object: table_client "\<lambda>t aa. assca_obj (v, fst t, snd t) aa" "assca_put v" "assca_take v" for v
proof (unfold_locales, goal_cases)
  case (1 t aa k d st aa')
  then show ?case using cpp_put_aa [of v "fst t" "snd t" aa k d] by (auto simp: assca_put_def case_prod_beta)
next
  case (2 t aa k val st b)
  then show ?case using cpp_get_aa [of v "fst t" "snd t" aa k "le_enc 4 val"] by (auto simp: assca_take_def case_prod_beta)
qed

section \<open>The tests\<close>

lemma flat_test_ok:
  assumes "lists_cap (vd_reg (lb_virtd s)) flat_caps" "\<And>i. lv_new v i" "lv_al v 0" "lv_al v 1" "wf_cr (fn_crResp (cm_amFunc ob))"
    and "te_local te 0" "unat (te_mem_size te) = 4 * m" "0 < m" "m \<le> 0x40000"
  shows "\<exists>ob' s' g'. am_cpp_flat_mem_test v te None ob s g = Inr (0, [], ob', s', g')"
proof -
  have sz: "unat (1024 * 1024 :: UINT32) = 4 * 0x40000" by simp
  obtain ob1 s1 ws where o1: "CAppMemFlat v None (1024 * 1024) 4 ob s = Inr (ob1, s1)" "ready ob1" "unat (cf_elements ob1) = length ws"
    "cf_address_size ob1 = 4" "length ws = 0x40000" "flat_holds v ob1 s1 ws"
    using new_flat_virtd [OF assms(1) assms(2-5) sz] by auto
  let ?H = "\<lambda>ws (ob, s). flat_holds v ob s ws \<and> unat (cf_elements ob) = length ws \<and> cf_address_size ob = 4 \<and> destructible ob"
  have H: "?H ws (ob1, s1)" using o1 derived_destructible(1) by simp
  have lm: "m \<le> length ws" using o1(5) assms(9) by simp
  obtain t2 ws2 where t2: "flat_writes (te_mem_size te) (flat_put v) (ob1, s1) = Inr t2" "?H ws2 t2" "take m ws2 = offsets m"
    using flat_object.offsets_stored [OF H assms(7) lm, of "flat_put v"] by blast
  have len: "length (fresh (lv_junk v) (4 * (unat (te_mem_size te) div 4))) = 4 * m" by (simp add: assms(7))
  have loc: "\<exists>g' s'. flat_reads te (local_read (enc_words (offsets m))) (srand 100) () = Inr (g', [], s') \<and> True"
    by (rule flat_reads_ok [OF _ assms(7,8)]) (simp_all add: local_buf_read [OF _ assms(7)] del: of_nat_mult)
  then obtain g3 where "flat_reads te (local_read (enc_words (offsets m))) (srand 100) () = Inr (g3, [], ())" by auto
  moreover obtain g4 t4 where t4: "flat_reads te (flat_get v) (srand 100) t2 = Inr (g4, [], t4)" "?H ws2 t4"
    using flat_object.offsets_read [OF t2(2) assms(7,8) t2(3), of "flat_get v" "srand 100"] by blast
  moreover obtain ob4 s4 where o4: "t4 = (ob4, s4)" by (cases t4)
  moreover from t4(2) o4 have "destructible ob4" by simp
  then obtain ob5 where "CAppMem_destroy ob4 = Inr ob5" using destroy_ok by blast
  moreover obtain ob2 s2 where "t2 = (ob2, s2)" by (cases t2)
  ultimately show ?thesis
    using o1(1,2) assms(6) t2(1) fill_local_ok [OF assms(7) len] by (simp add: am_cpp_flat_mem_test_def Let_def)
qed

text \<open>The array test passes over any device that its object can be made on.\<close>

lemma stata_test_ok:
  assumes dev: "aligned_device use_read use_write store cell"
    and new: "CAppMemStaticArray v am_name (te_mem_size te) 4 4 ob s = Inr (ob1, s1)" "ready ob1" "ca_elements ob1 = te_mem_size te"
      "holds_words store cell (v, ob1, s1) ws" "length ws = unat (te_mem_size te)"
    and "te_local te 0" "0 < unat (te_mem_size te)"
  shows "\<exists>ob' s' g'. am_cpp_stata_test v te am_name ob s g = Inr (0, [Running_val (2 * test_sum te)], ob', s', g')"
proof -
  let ?n = "te_mem_size te"
  let ?H = "\<lambda>ws (ob, s). holds_words store cell (v, ob, s) ws \<and> unat (ca_elements ob) = length ws \<and> destructible ob"
  have c: "word_client ?H (elem_put v) (elem_get v)" by (rule stata_object_client [OF dev])
  have H: "?H ws (ob1, s1)" using new derived_destructible(2) by simp
  obtain t2 where t2: "stata_writes ?n (elem_put v) (ob1, s1) = Inr t2" "?H (ramp ?n) t2"
    using word_client.ramp_stored [OF c H, of ?n] new(5) by auto
  have loc: "\<exists>g' s'. stata_reads False te (local_elem (enc_words (ramp ?n))) 0 () = Inr (0 + test_sum te, g', [], s') \<and> True"
    by (rule stata_reads_ok [OF _ assms(8)]) (simp_all add: local_elem_ok)
  then obtain g3 where "stata_reads False te (local_elem (enc_words (ramp ?n))) 0 () = Inr (test_sum te, g3, [], ())" by auto
  moreover obtain g4 t4 where t4: "stata_reads False te (elem_get v) (test_sum te) t2 = Inr (test_sum te + test_sum te, g4, [], t4)" "?H (ramp ?n) t4"
    using word_client.ramp_read [OF c t2(2) assms(8)] by blast
  moreover obtain ob4 s4 where o4: "t4 = (ob4, s4)" by (cases t4)
  moreover from t4(2) o4 have "destructible ob4" by simp
  then obtain ob5 where "CAppMem_destroy ob4 = Inr ob5" using destroy_ok by blast
  moreover obtain ob2 s2 where "t2 = (ob2, s2)" by (cases t2)
  ultimately show ?thesis
    using new(1,2) assms(7) t2(1) local_ramp_ok [of "fresh (lv_junk v) (4 * unat ?n)" ?n]
    by (simp add: am_cpp_stata_test_def Let_def)
qed

lemma assca_test_ok:
  assumes "lists_cap (vd_reg (lb_virtd s)) assca_caps" "\<And>i. lv_new v i" "lv_al v = (\<lambda>_. True)" "wf_cr (fn_crResp (cm_amFunc ob))"
    and keys: "am_get_test_keys te (te_mem_size te) 32 g = Inr (Some ks, g1)" "\<And>i. te_keys te i" "distinct ks"
    and "room_for assca_room (amlib_assca_add_key_fixfix (\<lambda>_. True)) (empty_assca 32 4) (key_entries ks)" "0 < unat (te_mem_size te)"
  shows "\<exists>ob' s' g'. am_cpp_assca_test v te None ob s g = Inr (0, [], ob', s', g')"
proof -
  let ?n = "te_mem_size te"
  have k: "length ks = unat ?n" "\<forall>k\<in>set ks. length k = unat (32 :: UINT32)"
    using get_test_keys_ok [of te 32 ?n g, OF keys(2)] keys(1) by auto
  obtain ob1 s1 where o1: "CAppMemAsscArray v None 32 4 True True False ob s = Inr (ob1, s1)" "ready ob1" "assca_obj (v, ob1, s1) (empty_assca 32 4)"
    using new_assca_virtd [where keySize = 32 and dataSize = 4 and dupe = False, OF assms(1) assms(2-4)] by auto
  obtain p aa where p: "key_writes ?n ks (local_add (\<lambda>_. True)) (Live (empty_assca 32 4)) = Inr p" "p = Live aa"
    "assca_inv aa (key_entries ks)" "aa_key_len aa = 32" "aa_data_len aa = 4"
    using local_table.keys_stored [OF refl assms(8) k(2,1)] by blast
  obtain t2 aa2 where t2: "key_writes ?n ks (assca_put v) (ob1, s1) = Inr t2" "assca_obj (v, fst t2, snd t2) aa2"
    "assca_inv aa2 (key_entries ks)" "aa_key_len aa2 = 32" "aa_data_len aa2 = 4"
    using assca_object.keys_stored [of v "(ob1, s1)", OF _ assms(8) k(2,1)] o1(3) by auto
  obtain v3 g3 where r3: "key_reads te ks local_get (te_val te) g1 p = Inr (v3, g3, [], p)"
    using local_table.keys_read [OF p(2-5) k(2) keys(3) k(1) assms(9)] p(2) by blast
  obtain v4 g4 t4 where r4: "key_reads te ks (assca_take v) v3 g3 t2 = Inr (v4, g4, [], t4)" "assca_obj (v, fst t4, snd t4) aa2"
    using assca_object.keys_read [OF t2(2-5) k(2) keys(3) k(1) assms(9)] by blast
  obtain ob4 s4 where o4: "t4 = (ob4, s4)" by (cases t4)
  then have "destructible ob4" using r4(2) by (simp add: assca_obj_def)
  then obtain ob5 where "CAppMem_destroy ob4 = Inr ob5" using destroy_ok by blast
  moreover obtain ob2 s2 where "t2 = (ob2, s2)" by (cases t2)
  ultimately show ?thesis
    using o1(1) keys(1) p(1) t2(1) r3 r4(1) o4 assms(3) by (simp add: am_cpp_assca_test_def Let_def amlib_assca_init_empty)
qed

section \<open>The properties\<close>

definition demo_test :: "UINT32 \<Rightarrow> testenv" where
  "demo_test n = \<lparr>te_rand = (\<lambda>s i. of_nat (7 * i + 1)), te_mem_size = n, te_random_ops = 2, te_keys = (\<lambda>_. True), te_local = (\<lambda>_. True),
     te_main = (\<lambda>_. True), te_val = 0xDEAD\<rparr>"

lemma demo_test_simps [simp]:
  "te_mem_size (demo_test n) = n" "te_keys (demo_test n) i" "te_local (demo_test n) i" "te_main (demo_test n) i"
  by (simp_all add: demo_test_def)

lemma demo_sum: "test_sum (demo_test 3) = 4"
proof -
  have "ramp_sum (demo_test 3) (Suc (Suc 0)) 0 (srand 100) = 4" by (simp add: demo_test_def srand_def rand_def)
  moreover have "unat (te_random_ops (demo_test 3)) = Suc (Suc 0)" by (simp add: demo_test_def)
  ultimately show ?thesis by (simp only: test_sum_def)
qed

text \<open>One key is different from all others, and there is room for it.\<close>

lemma one_key:
  "\<exists>ks g'. am_get_test_keys (demo_test 1) 1 32 g = Inr (Some ks, g') \<and> distinct ks \<and>
    room_for assca_room (amlib_assca_add_key_fixfix (\<lambda>_. True)) (empty_assca 32 4) (key_entries ks)"
proof -
  obtain ks g' where ks: "am_get_test_keys (demo_test 1) 1 32 g = Inr (Some ks, g')" "length ks = 1"
    using get_test_keys_ok [of "demo_test 1" 32 1 g] by auto
  then obtain k where "ks = [k]" by (cases ks) auto
  then show ?thesis using ks by (simp add: key_entries_def assca_room_empty split: sum.splits)
qed

text \<open>
  C7: Each of the three tests of the C++ classes passes over the in-process device, whatever the random numbers are: the only report is
  the sum that the array test prints, twice what its random reads add up to, since the reads of the device answer as those of the
  local array. Flat memory is tested within the megabyte its object has, in whole words; the keys of the associative array are taken
  to be different, with room in the table for them.
\<close>

theorem cpp_test_passes:
  assumes "lists_cap (vd_reg (lb_virtd s)) flat_caps" "lists_cap (vd_reg (lb_virtd s)) stata_caps" "lists_cap (vd_reg (lb_virtd s)) assca_caps"
    and "\<And>i. lv_new v i" "lv_al v = (\<lambda>_. True)" "te_local te 0" "\<And>i. te_keys te i" "0 < unat (te_mem_size te)"
    and "wf_cr (fn_crResp (cm_amFunc obf))" "wf_cr (fn_crResp (cm_amFunc oba))" "wf_cr (fn_crResp (cm_amFunc obs))"
    and "test \<in> {AM_TYPE_FLAT_MEM, AM_TYPE_STATIC_ARRAY, AM_TYPE_ASSOC_ARRAY}"
    and "test = AM_TYPE_FLAT_MEM \<Longrightarrow> 4 dvd unat (te_mem_size te) \<and> te_mem_size te \<le> 0x100000"
    and "test = AM_TYPE_ASSOC_ARRAY \<Longrightarrow> am_get_test_keys te (te_mem_size te) 32 g = Inr (Some ks, g1) \<and> distinct ks \<and>
      room_for assca_room (amlib_assca_add_key_fixfix (\<lambda>_. True)) (empty_assca 32 4) (key_entries ks)"
  shows "\<exists>s' g'. am_cpp_test v te None test obf oba obs s g =
    Inr (0, if test = AM_TYPE_STATIC_ARRAY then [Running_val (2 * test_sum te)] else [], s', g')"
proof -
  have al: "lv_al v 0" "lv_al v 1" using assms(5) by simp_all
  consider (flat) "test = AM_TYPE_FLAT_MEM" | (stata) "test = AM_TYPE_STATIC_ARRAY" | (assca) "test = AM_TYPE_ASSOC_ARRAY"
    using assms(12) by blast
  then show ?thesis
  proof cases
    case flat
    then obtain m where m: "unat (te_mem_size te) = 4 * m" using assms(13) by blast
    moreover from this have "0 < m" "m \<le> 0x40000" using assms(8,13) flat by (simp_all add: word_le_nat_alt)
    ultimately obtain ob' s' g' where "am_cpp_flat_mem_test v te None obf s g = Inr (0, [], ob', s', g')"
      using flat_test_ok [OF assms(1) assms(4) al assms(9,6)] by blast
    then show ?thesis by (simp add: am_cpp_test_def flat)
  next
    case stata
    have i: "15 AND (4 :: UINT32) \<noteq> 0" by simp
    obtain ob1 s1 where o1: "CAppMemStaticArray v None (te_mem_size te) 4 4 oba s = Inr (ob1, s1)" "ready ob1" "ca_elements ob1 = te_mem_size te"
      "holds_words (local_store stata_store) (local_cell Fn_stata_read_idx32 Fn_stata_write_idx32 stata_cell) (v, ob1, s1)
        (replicate (unat (te_mem_size te)) 0)"
      using new_stata_virtd [where n = "te_mem_size te" and dataSize = 4, OF assms(2) i assms(4) al assms(10)] by blast
    obtain ob' s' g' where "am_cpp_stata_test v te None oba s g = Inr (0, [Running_val (2 * test_sum te)], ob', s', g')"
      using stata_test_ok [OF stata_local.inproc.aligned_device_axioms o1 _ assms(6,8), of g] by auto
    then show ?thesis by (simp add: am_cpp_test_def stata)
  next
    case assca
    obtain ob' s' g' where "am_cpp_assca_test v te None obs s g = Inr (0, [], ob', s', g')"
      using assca_test_ok [OF assms(3) assms(4,5,11) _ assms(7) _ _ assms(8)] assms(14) [OF assca] by blast
    then show ?thesis by (simp add: am_cpp_test_def assca)
  qed
qed

lemma cpp_test_passes_witness:
  "(\<exists>s' g'. am_cpp_test demo_env (demo_test 8) None 1 demo_flatob demo_array demo_assca (demo_lib (demo_kern (\<lambda>_. None))) (srand 1) = Inr (0, [], s', g')) \<and>
   (\<exists>s' g'. am_cpp_test demo_env (demo_test 3) None 2 demo_flatob demo_array demo_assca (demo_lib (demo_kern (\<lambda>_. None))) (srand 1) =
      Inr (0, [Running_val 8], s', g')) \<and>
   (\<exists>s' g'. am_cpp_test demo_env (demo_test 1) None 3 demo_flatob demo_array demo_assca (demo_lib (demo_kern (\<lambda>_. None))) (srand 1) = Inr (0, [], s', g'))"
proof -
  obtain ks g1 where ks: "am_get_test_keys (demo_test 1) 1 32 (srand 1) = Inr (Some ks, g1)" "distinct ks"
    "room_for assca_room (amlib_assca_add_key_fixfix (\<lambda>_. True)) (empty_assca 32 4) (key_entries ks)"
    using one_key by blast
  note t = cpp_test_passes [of "demo_lib (demo_kern (\<lambda>_. None))" demo_env _ demo_flatob demo_array demo_assca, unfolded demo_simps]
  show ?thesis
    using t [of "demo_test 8" 1 "srand 1"] t [of "demo_test 3" 2 "srand 1"] t [of "demo_test 1" 3 "srand 1" ks g1] ks demo_sum
    by (simp add: full_lists)
qed

text \<open>
  C8: The test of the static array also passes over the module loaded into the kernel: made through the module's file, opened with the
  mapped page, filled and read back through it, the array answers as the local one.
\<close>

theorem cpp_stata_test_kernel:
  assumes new: "\<And>i. lv_new v i" "wf_cr (fn_crResp (cm_amFunc ob))" "te_local te 0" "0 < unat (te_mem_size te)"
    and init: "appmemd_init (lv_ke v) result major reg um = Inr (st, lb_kern s)" "0 \<le> sint result" "wf_cr (fn_crResp (ke_func (lv_ke v)))"
      "lists_cap reg stata_caps" "lib_layout v (dom um)" "lib_files v (lb_kern s)" "am_get_ip_address name = Inr 0"
  shows "\<exists>ob' s' g'. am_cpp_stata_test v te (Some name) ob s g = Inr (0, [Running_val (2 * test_sum te)], ob', s', g')"
proof -
  note F = init(6) [unfolded lib_files_def]
  have al: "\<And>i. ke_al (lv_ke v) i" using F by simp
  note K = appmemd_init_based [OF init(1,2) al]
  have lists: "k_lists (kn_reg (lb_kern s)) (announced stata_caps)" by (rule init_lists [OF init(1,2) al init(4)]) simp
  have lay: "lib_layout v (dom (kn_um (lb_kern s)))" using init(5) K(2) by simp
  obtain ob1 s1 ws where o1: "CAppMemStaticArray v (Some name) (te_mem_size te) 4 4 ob s = Inr (ob1, s1)" "ready ob1"
    "ca_elements ob1 = te_mem_size te" "length ws = unat (te_mem_size te)"
    "holds_words (page_store stata_store) (page_cell Fn_stata_read_idx32 Fn_stata_write_idx32 stata_cell) (v, ob1, s1) ws"
    using new_stata_kernel [where n = "te_mem_size te" and dataSize = 4, OF K(1) lay init(6) lists new(1) init(7) new(2) init(3)] by blast
  show ?thesis by (rule stata_test_ok [OF stata_packets.page.aligned_device_axioms o1(1-3,5,4) new(3,4)])
qed

lemma cpp_stata_test_kernel_witness:
  "\<exists>k ob' s' g'. appmemd_init demo_kenv 0 250 full_registry (\<lambda>_. Some 0) = Inr (0, k) \<and>
    am_cpp_stata_test demo_env (demo_test 3) (Some (c_bytes ''/dev/appmem'')) demo_array (demo_lib k) (srand 1) = Inr (0, [Running_val 8], ob', s', g')"
proof -
  obtain k where k: "appmemd_init demo_kenv 0 250 full_registry (\<lambda>_. Some 0) = Inr (0, k)" using demo_init by blast
  have K: "kn_minor k = 1" using appmemd_init_based(3) [OF k] by simp
  have e: "lv_ke demo_env = demo_kenv" by (simp add: demo_env_def)
  have "um_range 1000 168 \<inter> um_range 5000 32 = {}" "um_range 1000 168 \<inter> um_range 2000 360 = {}"
    by (rule um_range_apart; simp)+
  then have lay: "lib_layout demo_env (dom (\<lambda>_. Some 0))" by (simp add: lib_layout_def demo_env_def dom_def)
  have files: "lib_files demo_env k" using K by (simp add: lib_files_def) (simp add: demo_env_def demo_kenv_def)
  have name: "am_get_ip_address (c_bytes ''/dev/appmem'') = Inr 0" by (simp add: am_get_ip_address_def c_bytes_def)
  have "wf_cr (fn_crResp (ke_func (lv_ke demo_env)))" by (simp add: e)
  from cpp_stata_test_kernel [where v = demo_env and s = "demo_lib k" and ob = demo_array and te = "demo_test 3" and result = 0 and major = 250 and
      reg = full_registry and um = "\<lambda>_. Some 0" and st = 0 and g = "srand 1" and name = "c_bytes ''/dev/appmem''", unfolded demo_simps e,
      OF _ _ _ _ k _ _ full_lists(1) lay files name]
  show ?thesis using k demo_sum by (intro exI [of _ k]) simp
qed

end
