(* ===== verification/AM_Test_Props.thy ===== *)
theory AM_Test_Props
  imports AM_Cpp_Test_Props
begin

text \<open>
  The C tests over the in-process device: that of the static array passes and leaves it sorted, that of the associative array visits
  every key and releases it, that of the list stacks its items, and that of flat memory stores behind its table of calls.
\<close>

section \<open>Static array\<close>

text \<open>A function object of the test: its words, and the calls that the creation has installed.\<close>

definition stata_words :: "mem_func \<Rightarrow> UINT32 list \<Rightarrow> bool" where
  "stata_words f ws \<longleftrightarrow> fn_calls f = Some (stata_calls zero_calls) \<and>
     (\<exists>sd. fn_pVdF f = Live (FdStata sd) \<and> st_data sd = Live (enc_words ws) \<and> st_array_size sd = of_nat (length ws) \<and> st_data_size sd = 4)"

lemma stata_words_obj: "stata_words f ws \<Longrightarrow> obj_fn f = Inr (stata_calls zero_calls)"
  by (simp add: stata_words_def obj_fn_def)

lemma stata_words_put:
  assumes "stata_words f ws" "unat (i :: UINT32) < length ws"
  shows "\<exists>f'. am_stata_write_idx32 f (Some (le_enc 4 i)) (Some (le_enc 4 (x :: UINT32))) = Inr (AM_RET_GOOD, f', Some (le_enc 4 x)) \<and>
    stata_words f' (ws[unat i := x])"
  using assms rd_le_enc [of 4 i] rd_le_enc [of 4 x] wr32_words [OF assms(2), of x]
  by (auto simp: stata_words_def am_stata_write_idx32_def rd32_def)

lemma stata_words_get:
  assumes "stata_words f ws" "unat (i :: UINT32) < length ws"
  shows "am_stata_read_idx32 f (Some (le_enc 4 i)) (Some (le_enc 4 (x :: UINT32))) = Inr (AM_RET_GOOD, f, Some (le_enc 4 (ws ! unat i)))"
proof -
  have "wr32 (le_enc 4 x) 0 (ws ! unat i) = Inr (le_enc 4 (ws ! unat i))" by (simp add: wr32_def putb_def)
  then show ?thesis using assms rd_le_enc [of 4 i] rd32_words [OF assms(2)]
    by (auto simp: stata_words_def am_stata_read_idx32_def rd32_def [of "le_enc 4 i"])
qed

interpretation stata_calls: word_client "\<lambda>ws (f, s). stata_words f ws \<and> length ws < 2 ^ 32" "c_put32 v e" "c_get32 v e" for v e
proof (unfold_locales, goal_cases)
  case (1 ws t k x)
  obtain f s where t: "t = (f, s)" by (cases t)
  then have f: "stata_words f ws" and k: "unat (of_nat k :: UINT32) = k" using 1 by (auto simp: unat_of_nat)
  have c: "fc_write_al (stata_calls zero_calls) = Some Fn_stata_write_idx32" by (simp add: stata_calls_def)
  obtain f' where "am_stata_write_idx32 f (Some (le_enc 4 (of_nat k :: UINT32))) (Some (le_enc 4 x)) = Inr (AM_RET_GOOD, f', Some (le_enc 4 x))"
    "stata_words f' (ws[k := x])"
    using stata_words_put [OF f, of "of_nat k" x] 1(2) unfolding k by blast
  then show ?case using 1 stata_words_obj [OF f] c by (simp add: t c_put32_def c_put_def call_plain(1) [OF stata_local.plain(2)])
next
  case (2 ws t k val)
  obtain f s where t: "t = (f, s)" by (cases t)
  then have f: "stata_words f ws" and k: "unat (of_nat k :: UINT32) = k" using 2 by (auto simp: unat_of_nat)
  have c: "fc_read_al (stata_calls zero_calls) = Some Fn_stata_read_idx32" by (simp add: stata_calls_def)
  show ?case using 2 f stata_words_get [OF f, of "of_nat k" val] stata_words_obj [OF f] c unfolding k
    by (simp add: t c_get32_def c_get_def call_plain(2) [OF stata_local.plain(1)])
qed

text \<open>The creation of the array, and the sort of the ramp.\<close>

definition c_stata_cap :: "mem_cap \<Rightarrow> UINT32 \<Rightarrow> mem_cap" where
  "c_stata_cap cap n = cap\<lparr>cap_typeSpecific := (cap_typeSpecific cap)[TS_STAT_ARRAY_IDX_BYTE_SIZE := 4,
     TS_STAT_ARRAY_VAL_DATA_TYPES := TS_STAT_DT_FIXED_WIDTH, TS_STAT_ARRAY_VAL_MAX_SIZE := 4], cap_maxSize := ucast n\<rparr>"

lemma virtd_stata_words:
  assumes "al 0" "wf_cr (fn_crResp f)" "fn_calls f = Some zero_calls" "length (cap_typeSpecific cap) = AM_MAX_TYPE_SPECIFIC"
  shows "\<exists>f'. virtd_stata al m (c_stata_cap cap n) f = Inr (AM_RET_GOOD, f') \<and> stata_words f' (replicate (unat n) 0)"
proof -
  have "length (''virtd_stata'' @ fmt_d m) < 64" by (rule length_fmt_name) simp
  from set_name_fits [OF assms(2) this] obtain nm where
    "set_name (''virtd_stata'' @ fmt_d m) f = Inr (upd_cr (\<lambda>r. r\<lparr>cr_am_name := nm\<rparr>) f)" by blast
  then show ?thesis
    using assms stata_bytes [of n]
    by (simp add: virtd_stata_def c_stata_cap_def Let_def map_calls_def upd_cr_def stata_words_def enc_words_zeros)
qed

definition counting :: "UINT32 \<Rightarrow> UINT32 list" where
  "counting n = map of_nat [1..<Suc (unat n)]"

lemma length_counting [simp]: "length (counting n) = unat n"
  by (simp add: counting_def)

lemma ramp_rev: "ramp n = rev (counting n)"
proof (rule nth_equalityI)
  fix k assume k: "k < length (ramp n)"
  have "n - of_nat k = of_nat (unat n - k)" using k by simp
  then show "ramp n ! k = rev (counting n) ! k" using k by (simp add: counting_def rev_nth del: upt_Suc)
qed (simp add: counting_def)

lemma sort_ramp: "sort (ramp n) = counting n"
proof (rule properties_for_sort)
  show "mset (counting n) = mset (ramp n)" by (simp add: ramp_rev)
  have b: "unat n < 2 ^ LENGTH(32)" by (rule unsigned_less)
  show "sorted (counting n)"
    unfolding counting_def
  proof (rule sorted_iff_nth_mono [THEN iffD2], intro allI impI)
    fix i j assume ij: "i \<le> j" "j < length (map of_nat [1..<Suc (unat n)] :: UINT32 list)"
    then show "map of_nat [1..<Suc (unat n)] ! i \<le> (map of_nat [1..<Suc (unat n)] ! j :: UINT32)"
      using b by (simp add: word_le_nat_alt unat_of_nat del: upt_Suc of_nat_Suc)
  qed
qed

lemma c_stata_sorted:
  assumes "stata_words f (ramp n)" "al 0" "2 \<le> unat n" "unat n < 2 ^ 30"
  shows "\<exists>f'. am_stata_sort al junk f (Some (enc_sort_param sort_all)) 20 = Inr (AM_RET_GOOD, f') \<and> stata_words f' (counting n)"
proof -
  obtain sd where sd: "fn_pVdF f = Live (FdStata sd)" "st_data sd = Live (enc_words (ramp n))" "st_array_size sd = of_nat (length (ramp n))"
    "st_data_size sd = 4" "fn_calls f = Some (stata_calls zero_calls)" using assms(1) by (auto simp: stata_words_def)
  have p: "sp_type sort_all = AM_SORT_TYPE_STATA_INTEGRAL_MERGE" "sp_start_idx sort_all = 0" "sp_data_signed sort_all = 0"
    "sp_end_idx sort_all = 0" by (simp_all add: sort_all_def)
  have "am_stata_sort al junk f (Some (enc_sort_param sort_all @ [])) 20 =
      Inr (AM_RET_GOOD, f\<lparr>fn_pVdF := Live (FdStata (sd\<lparr>st_data := Live (enc_words (sort (take (unat n) (ramp n)) @ drop (unat n) (ramp n)))\<rparr>))\<rparr>)"
    by (rule stata_sort_ok [OF sd(1-4)]) (use assms p in simp_all)
  then show ?thesis using sd by (simp add: sort_ramp stata_words_def)
qed

text \<open>The test.\<close>

definition virtd_made :: "amlib_entry \<Rightarrow> bool" where
  "virtd_made e \<longleftrightarrow> en_create_function e = Some En_virtd_create_function"

lemma c_create_virtd:
  assumes "virtd_made e" "am_virtd_create_function (lv_al v) (lv_junk v) (lb_virtd s) (Some cap) (Some f) = Inr (AM_RET_GOOD, vd, f')"
    and "fn_calls f' = Some c" "fc_open c = Some Fn_virtd_open"
  shows "c_create v e cap f s = Inr (None, f', s\<lparr>lb_virtd := vd\<rparr>)"
  using assms by (simp add: c_create_def c_open_def obj_fn_def call_create_function_def call_open_def virtd_made_def am_virtd_open_def)

lemma stata_created:
  assumes "virtd_made e" "\<And>i. lv_al v i" "wf_cr (fn_crResp fm)" "cap_amType cap = AM_TYPE_STATIC_ARRAY" "wf_cap cap"
  shows "\<exists>f s'. c_create v e (c_stata_cap cap n) (fm\<lparr>fn_calls := Some zero_calls\<rparr>) s = Inr (None, f, s') \<and> stata_words f (replicate (unat n) 0)"
proof -
  let ?F = "fm\<lparr>fn_calls := Some zero_calls, fn_amCap := c_stata_cap cap n, fn_pVdF := Live FdRaw\<rparr>"
  have al: "(\<lambda>i. lv_al v (Suc i)) 0" "lv_al v 0" using assms(2) by simp_all
  have F: "wf_cr (fn_crResp ?F)" "fn_calls ?F = Some zero_calls" using assms(3) by simp_all
  obtain f where f: "virtd_stata (\<lambda>i. lv_al v (Suc i)) (vd_minor (lb_virtd s)) (c_stata_cap cap n) ?F = Inr (AM_RET_GOOD, f)"
    "stata_words f (replicate (unat n) 0)"
    using virtd_stata_words [where al = "\<lambda>i. lv_al v (Suc i)" and m = "vd_minor (lb_virtd s)" and n = n, OF al(1) F, of cap] assms(5)
    by (auto simp: wf_cap_def)
  have "cap_amType (c_stata_cap cap n) = AM_TYPE_STATIC_ARRAY" using assms(4) by (simp add: c_stata_cap_def)
  then have "am_virtd_create_function (lv_al v) (lv_junk v) (lb_virtd s) (Some (c_stata_cap cap n)) (Some (fm\<lparr>fn_calls := Some zero_calls\<rparr>)) =
      Inr (AM_RET_GOOD, (lb_virtd s)\<lparr>vd_minor := vd_minor (lb_virtd s) + 1\<rparr>, f)"
    using al f(1) by (simp add: am_virtd_create_function_def Let_def word_less_nat_alt)
  from c_create_virtd [OF assms(1) this, of "stata_calls zero_calls"] show ?thesis
    using f(2) by (auto simp: stata_words_def stata_calls_def)
qed

lemma c_local_ramp:
  assumes "unat n < 2 ^ 30"
  shows "local_ramp n (fresh junk (unat (n * 4))) = Inr (enc_words (ramp n))"
proof -
  have "unat (n * 4) = 4 * unat n" using assms by (simp add: unat_word_ariths)
  then show ?thesis using local_ramp_ok [of "fresh junk (unat (n * 4))" n] by simp
qed

text \<open>
  C10: The C test of the static array passes over the in-process device for every array of at least two and fewer than \<open>2 ^ 30\<close> elements:
  its reports are the running sum alone, and the sort at its end leaves the array, which was filled from \<open>n\<close> down to 1, holding 1 to
  \<open>n\<close> in ascending order.
\<close>

theorem am_test_stata_sorts:
  assumes "virtd_made e" "\<And>i. lv_al v i" "wf_cr (fn_crResp fm)" "cap_amType cap = AM_TYPE_STATIC_ARRAY" "wf_cap cap"
    and "cap_typeSpecific cap ! 0 AND 4 \<noteq> 0" "\<And>i. te_local te i" "2 \<le> unat (te_mem_size te)" "unat (te_mem_size te) < 2 ^ 30"
  shows "\<exists>f s' g'. am_test_static_array v te cap e fm s g = Inr ([Running_val (2 * test_sum te)], f, s', g') \<and>
    stata_store f = enc_words (counting (te_mem_size te))"
proof -
  let ?n = "te_mem_size te" and ?H = "\<lambda>ws (f, s). stata_words f ws \<and> length ws < 2 ^ 32"
  have pos: "0 < unat ?n" using assms(8) by simp
  obtain f1 s1 where c: "c_create v e (c_stata_cap cap ?n) (fm\<lparr>fn_calls := Some zero_calls\<rparr>) s = Inr (None, f1, s1)"
    "stata_words f1 (replicate (unat ?n) 0)" using stata_created [OF assms(1-5)] by blast
  have H: "?H (replicate (unat ?n) 0) (f1, s1)" using c(2) assms(9) by simp
  obtain t2 where t2: "stata_writes ?n (c_put32 v e) (f1, s1) = Inr t2" "?H (ramp ?n) t2"
    using stata_calls.ramp_stored [where v = v and e = e and n = ?n, OF H] by auto
  have "\<exists>g' s'. stata_reads True te (local_elem (enc_words (ramp ?n))) 0 () = Inr (0 + test_sum te, g', [], s') \<and> True"
    by (rule stata_reads_ok [OF _ pos]) (simp_all add: local_elem_ok)
  then obtain g3 where r3: "stata_reads True te (local_elem (enc_words (ramp ?n))) 0 () = Inr (test_sum te, g3, [], ())" by auto
  obtain g4 t4 where t4: "stata_reads True te (c_get32 v e) (test_sum te) t2 = Inr (test_sum te + test_sum te, g4, [], t4)" "?H (ramp ?n) t4"
    using stata_calls.ramp_read [OF t2(2) pos] by blast
  obtain f4 s4 where f4: "t4 = (f4, s4)" "stata_words f4 (ramp ?n)" using t4(2) by (cases t4) auto
  obtain f5 where f5: "am_stata_sort (lv_al v) (lv_junk v) f4 (Some (enc_sort_param sort_all)) 20 = Inr (AM_RET_GOOD, f5)" "stata_words f5 (counting ?n)"
    using c_stata_sorted [where al = "lv_al v" and junk = "lv_junk v", OF f4(2) assms(2,8,9)] by blast
  have sort: "fc_sort (stata_calls zero_calls) = Some Fn_stata_sort" by (simp add: stata_calls_def)
  have "am_test_static_array v te cap e fm s g = Inr ([Running_val (test_sum te + test_sum te)], f5\<lparr>fn_calls := None\<rparr>, s4, g4)"
    using assms(6,7) c(1) t2(1) r3 t4(1) f4(1) f5(1) sort stata_words_obj [OF f4(2)] c_local_ramp [OF assms(9)]
    by (simp add: am_test_static_array_def c_stata_cap_def call_sort_def Let_def)
  moreover have "stata_store (f5\<lparr>fn_calls := None\<rparr>) = enc_words (counting ?n)" using f5(2) by (auto simp: stata_words_def stata_store_def)
  ultimately show ?thesis by auto
qed

definition demo_entry :: amlib_entry where
  "demo_entry = virtd_entry no_entry"

lemma demo_entry_made: "virtd_made demo_entry"
  by (simp add: virtd_made_def demo_entry_def virtd_entry_def)

lemma am_test_stata_sorts_witness:
  "\<exists>f s' g'. am_test_static_array demo_env (demo_test 3) stata_caps demo_entry call_func (demo_lib (demo_kern (\<lambda>_. None))) (srand 1) =
      Inr ([Running_val 8], f, s', g') \<and> stata_store f = enc_words [1, 2, 3]"
proof -
  have "counting 3 = [1, 2, 3]" by (simp add: counting_def upt_rec)
  moreover have "wf_cap stata_caps" by (simp add: stata_caps_def wf_cap_def mk_cap_def ts_init_def)
  ultimately show ?thesis
    using am_test_stata_sorts [OF demo_entry_made, of demo_env call_func stata_caps "demo_test 3" "demo_lib (demo_kern (\<lambda>_. None))" "srand 1"]
    by (simp add: demo_sum)
qed

section \<open>Flat memory\<close>

text \<open>The table of calls is the one of the device as far as it reaches; the function object holds words.\<close>

definition flat_words :: "func_calls \<Rightarrow> mem_func \<Rightarrow> UINT32 list \<Rightarrow> bool" where
  "flat_words c f ws \<longleftrightarrow> fn_calls f = Some (flat_calls c) \<and> holds_at flat_key flat_store flat_cell f ws"

interpretation flat_table: word_client "\<lambda>ws (f, s). flat_words c f ws \<and> length ws < 2 ^ 30" "\<lambda>i. c_put32 v e (i * 4)" "\<lambda>i. c_get32 v e (i * 4)" for c v e
proof (unfold_locales, goal_cases)
  case (1 ws t k x)
  obtain f s where t: "t = (f, s)" by (cases t)
  then have f: "flat_words c f ws" and k: "unat (of_nat k :: UINT32) = k" using 1 by (auto simp: unat_of_nat)
  have w: "fc_write_al (flat_calls c) = Some Fn_flat_write32_align" by (simp add: flat_calls_def)
  obtain f' where f': "am_flat_write32_align f (Some (flat_key (of_nat k))) (Some (le_enc 4 x)) = Inr (AM_RET_GOOD, f', Some (le_enc 4 x))"
    "holds_at flat_key flat_store flat_cell f' (ws[k := x])"
    using flat.put_word [of flat_key f ws "of_nat k" x] f 1(2) unfolding k by (auto simp: flat_words_def)
  have "fn_calls f' = fn_calls f" by (rule flat_local.wr_calls [of f]) (use f'(1) in simp)
  then show ?case using 1 f f' w by (simp add: t c_put32_def c_put_def flat_words_def obj_fn_def call_plain(1) [OF flat_local.plain(2)])
next
  case (2 ws t k val)
  obtain f s where t: "t = (f, s)" by (cases t)
  then have f: "flat_words c f ws" and k: "unat (of_nat k :: UINT32) = k" using 2 by (auto simp: unat_of_nat)
  have r: "fc_read_al (flat_calls c) = Some Fn_flat_read32_align" by (simp add: flat_calls_def)
  obtain f' where f': "am_flat_read32_align f (Some (flat_key (of_nat k))) (Some (le_enc 4 val)) = Inr (AM_RET_GOOD, f', Some (le_enc 4 (ws ! k)))"
    "holds_at flat_key flat_store flat_cell f' ws"
    using flat.fetch_word [of flat_key f ws "of_nat k" val] f 2(2) unfolding k by (auto simp: flat_words_def)
  have "fn_calls f' = fn_calls f" by (rule flat_local.rd_calls [of f]) (use f'(1) in simp)
  then show ?case using 2 f f' r by (simp add: t c_get32_def c_get_def flat_words_def obj_fn_def call_plain(2) [OF flat_local.plain(1)])
qed

definition c_flat_cap :: "mem_cap \<Rightarrow> UINT32 \<Rightarrow> mem_cap" where
  "c_flat_cap cap n = cap\<lparr>cap_typeSpecific := (cap_typeSpecific cap)[TS_FLAT_ADDRESS_BYTE_SIZE := 4], cap_maxSize := ucast n\<rparr>"

lemma flat_made:
  assumes "virtd_made e" "\<And>i. lv_al v i" "wf_cr (fn_crResp fm)" "cap_amType cap = AM_TYPE_FLAT_MEM"
  shows "\<exists>f s'. c_create v e (c_flat_cap cap n) (fm\<lparr>fn_calls := Some c\<rparr>) s = Inr (None, f, s') \<and> fn_calls f = Some (flat_calls c) \<and>
    flat_store f = flat_mem (lv_junk v) (c_flat_cap cap n)"
proof -
  let ?F = "fm\<lparr>fn_calls := Some c, fn_amCap := c_flat_cap cap n, fn_pVdF := Live FdRaw\<rparr>"
  have al: "(\<lambda>i. lv_al v (Suc i)) 0" "lv_al v 0" using assms(2) by simp_all
  have F: "wf_cr (fn_crResp ?F)" using assms(3) by simp
  obtain f where f: "virtd_flat (\<lambda>i. lv_al v (Suc i)) (lv_junk v) (vd_minor (lb_virtd s)) (c_flat_cap cap n) ?F = Inr (AM_RET_GOOD, f)"
    "flat_store f = flat_mem (lv_junk v) (c_flat_cap cap n)" "fn_calls f = Some (flat_calls c)"
    using virtd_flat_ok [where al = "\<lambda>i. lv_al v (Suc i)" and junk = "lv_junk v" and m = "vd_minor (lb_virtd s)" and cap = "c_flat_cap cap n", OF al(1) F] by auto
  have "cap_amType (c_flat_cap cap n) = AM_TYPE_FLAT_MEM" using assms(4) by (simp add: c_flat_cap_def)
  then have "am_virtd_create_function (lv_al v) (lv_junk v) (lb_virtd s) (Some (c_flat_cap cap n)) (Some (fm\<lparr>fn_calls := Some c\<rparr>)) =
      Inr (AM_RET_GOOD, (lb_virtd s)\<lparr>vd_minor := vd_minor (lb_virtd s) + 1\<rparr>, f)"
    using al f(1) by (simp add: am_virtd_create_function_def Let_def word_less_nat_alt)
  from c_create_virtd [OF assms(1) this f(3)] show ?thesis using f(2,3) by (auto simp: flat_calls_def)
qed

lemma flat_created:
  assumes "virtd_made e" "\<And>i. lv_al v i" "wf_cr (fn_crResp fm)" "cap_amType cap = AM_TYPE_FLAT_MEM" "unat n = 4 * m"
  shows "\<exists>f s' ws. c_create v e (c_flat_cap cap n) (fm\<lparr>fn_calls := Some c\<rparr>) s = Inr (None, f, s') \<and> flat_words c f ws \<and> length ws = m"
proof -
  obtain f s' where f: "c_create v e (c_flat_cap cap n) (fm\<lparr>fn_calls := Some c\<rparr>) s = Inr (None, f, s')" "fn_calls f = Some (flat_calls c)"
    "flat_store f = flat_mem (lv_junk v) (c_flat_cap cap n)"
    using flat_made [OF assms(1-4)] by blast
  have b: "unat n < 2 ^ LENGTH(32)" by (rule unsigned_less)
  then have "unat (ucast n :: UINT64) = unat n" by (simp add: unsigned_ucast_eq take_bit_nat_eq_self)
  then have l: "length (flat_store f) = 4 * m" using f(3) assms(5) by (simp add: flat_mem_def fresh_def c_flat_cap_def)
  then obtain ws where ws: "flat_store f = enc_words ws" "length ws = m" using enc_words_ex by blast
  have "m < 2 ^ 30" using assms(5) b by simp
  then have h: "flat_words c f ws" using flat_cell_word [OF l] ws f(2) by (simp add: flat_words_def holds_at_def)
  then show ?thesis using f(1) ws(2) by blast
qed

text \<open>A loop in steps of four whose last pass fails, and the local buffer of a size that is not a multiple of four.\<close>

lemma by_four_fails:
  assumes "P 0 s" "4 * m < unat n" "\<And>k s. k < m \<Longrightarrow> P k s \<Longrightarrow> \<exists>s'. body (of_nat (4 * k)) s = Inr s' \<and> P (Suc k) s'"
    and "\<And>s. P m s \<Longrightarrow> body (of_nat (4 * m)) s = Inl err"
  shows "by_four (four_fuel n) 0 n body s = Inl err"
proof -
  have all: "by_four fuel (of_nat (4 * k)) n body s = Inl err" if "k \<le> m" "P k s" "m - k < fuel" for fuel k s
    using that
  proof (induction fuel arbitrary: k s)
    case (Suc fuel)
    have "unat n < 2 ^ LENGTH(32)" by (rule unsigned_less)
    then have "4 * k < 2 ^ 32" using assms(2) Suc.prems(1) by simp
    then have lt: "of_nat (4 * k) < n" using Suc.prems(1) assms(2) by (simp only: word_less_nat_alt unat_of_nat) simp
    show ?case
    proof (cases "k = m")
      case True
      then show ?thesis using assms(4) [of s] Suc.prems lt by simp
    next
      case False
      then have k: "k < m" using Suc.prems by simp
      obtain s1 where s1: "body (of_nat (4 * k)) s = Inr s1" "P (Suc k) s1" using assms(3) [OF k Suc.prems(2)] by blast
      have "of_nat (4 * k) + 4 = (of_nat (4 * Suc k) :: UINT32)" by simp
      then show ?thesis using Suc.IH [of "Suc k" s1] Suc.prems k lt s1 by (simp add: add.commute)
    qed
  qed simp
  have "m < four_fuel n" using assms(2) by (simp add: four_fuel_def)
  then show ?thesis using all [of 0 s "four_fuel n"] assms(1) by simp
qed

lemma fill_local_part_word:
  assumes "\<not> 4 dvd unat n" "length b = unat n"
  shows "fill_local n b = Inl OutOfBounds"
proof -
  define m where "m = unat n div 4"
  have m: "4 * m < unat n" "unat n < 4 * m + 4"
    using assms(1) by (auto simp: m_def dvd_eq_mod_eq_0) presburger+
  let ?P = "\<lambda>k (p, b). p = 4 * k \<and> length b = unat n"
  have "by_four (four_fuel n) 0 n (\<lambda>i (p, b). bindr (wr32 b p i) (\<lambda>b. Inr (p + 4, b))) (0, b) = Inl OutOfBounds"
    by (rule by_four_fails [where P = ?P and m = m])
      (use assms(2) m in \<open>auto simp: wr32_def putb_def\<close>)
  then show ?thesis by (simp add: fill_local_def)
qed

lemma flat_in_table:
  assumes "fn_calls f = Some (flat_calls (short_table n c))"
  shows "in_table n f = (if n \<le> 9 then Inl OutOfBounds else Inr ())"
  using assms by (auto simp: in_table_def flat_calls_def short_table_def cut_def no_fn_def)

lemma flat_test_passes:
  assumes "virtd_made e" "\<And>i. lv_al v i" "wf_cr (fn_crResp fm)" "cap_amType cap = AM_TYPE_FLAT_MEM"
    and "cap_typeSpecific cap ! 0 AND 4 \<noteq> 0" "\<And>i. te_local te i" "unat (te_mem_size te) = 4 * m" "0 < m" "9 < unat (cap_functionCount cap)"
  shows "\<exists>f s' g'. am_test_flat_mem v te cap e fm s g = Inr ([], f, s', g')"
proof -
  let ?n = "te_mem_size te" and ?c = "short_table (unat (cap_functionCount cap)) (lv_calls v)"
  let ?H = "\<lambda>ws (f, s). flat_words ?c f ws \<and> length ws < 2 ^ 30"
  obtain f1 s1 ws where c: "c_create v e (c_flat_cap cap ?n) (fm\<lparr>fn_calls := Some ?c\<rparr>) s = Inr (None, f1, s1)" "flat_words ?c f1 ws" "length ws = m"
    using flat_created [where c = ?c, OF assms(1-4,7)] by blast
  have t: "in_table (unat (cap_functionCount cap)) f1 = Inr ()"
    using flat_in_table [of f1 "unat (cap_functionCount cap)" "lv_calls v"] c(2) assms(9) by (simp add: flat_words_def)
  have b: "unat ?n < 2 ^ LENGTH(32)" by (rule unsigned_less)
  then have H: "?H ws (f1, s1)" "m \<le> length ws" using c(2,3) assms(7) by simp_all
  obtain t2 ws2 where t2: "flat_writes ?n (c_put32 v e) (f1, s1) = Inr t2" "?H ws2 t2" "take m ws2 = offsets m"
    using flat_table.offsets_stored [where v = v and e = e and c = ?c and fput = "c_put32 v e", OF H(1) assms(7) H(2)] by blast
  have len: "length (fresh (lv_junk v) (unat ?n)) = 4 * m" by (simp add: assms(7))
  have "\<exists>g' s'. flat_reads te (local_read (enc_words (offsets m))) g () = Inr (g', [], s') \<and> True"
    by (rule flat_reads_ok [OF _ assms(7,8)]) (simp_all add: local_buf_read [OF _ assms(7)] del: of_nat_mult)
  then obtain g3 where r3: "flat_reads te (local_read (enc_words (offsets m))) g () = Inr (g3, [], ())" by auto
  obtain g4 t4 where t4: "flat_reads te (c_get32 v e) g3 t2 = Inr (g4, [], t4)" "?H ws2 t4"
    using flat_table.offsets_read [where fget = "c_get32 v e" and v = v and e = e and c = ?c, OF t2(2) assms(7,8) t2(3)] by blast
  obtain f4 s4 where f4: "t4 = (f4, s4)" "obj_fn f4 = Inr (flat_calls ?c)" using t4(2) by (cases t4) (auto simp: flat_words_def obj_fn_def)
  have cl: "fc_close (flat_calls ?c) = Some Fn_virtd_close" by (simp add: flat_calls_def)
  have "am_test_flat_mem v te cap e fm s g = Inr ([], f4, s4, g4)"
    using assms(5,6) c(1) t t2(1) r3 t4(1) f4 cl fill_local_ok [OF assms(7) len]
    by (simp add: am_test_flat_mem_def c_flat_cap_def call_close_def am_virtd_close_def Let_def)
  then show ?thesis by blast
qed

text \<open>
  C18: The C test of flat memory over the in-process device, with its allocations granted and a capability that has 32-bit addresses. It makes
  its table of calls as large as the \<open>functionCount\<close> of the capability says, 7 pointers for the one that the device announces, and
  the device stores the call \<open>copy\<close>, the tenth, as well: unless there are at least ten, that is a store behind the table. With ten
  or more the outcome depends on the number of bytes to test, which is not 0. If it is a multiple of four, the test passes without
  a report. If not, its last word does not fit into its own local buffer, and it stores behind that.
\<close>

theorem am_test_flat_overflow:
  assumes "virtd_made e" "\<And>i. lv_al v i" "wf_cr (fn_crResp fm)" "cap_amType cap = AM_TYPE_FLAT_MEM"
    and "cap_typeSpecific cap ! 0 AND 4 \<noteq> 0" "\<And>i. te_local te i" "te_mem_size te \<noteq> 0"
  shows "if unat (cap_functionCount cap) \<le> 9 \<or> \<not> 4 dvd unat (te_mem_size te) then am_test_flat_mem v te cap e fm s g = Inl OutOfBounds
     else \<exists>f s' g'. am_test_flat_mem v te cap e fm s g = Inr ([], f, s', g')"
proof (cases "unat (cap_functionCount cap) \<le> 9 \<or> \<not> 4 dvd unat (te_mem_size te)")
  case True
  let ?n = "te_mem_size te" and ?c = "short_table (unat (cap_functionCount cap)) (lv_calls v)"
  obtain f1 s1 where c: "c_create v e (c_flat_cap cap ?n) (fm\<lparr>fn_calls := Some ?c\<rparr>) s = Inr (None, f1, s1)" "fn_calls f1 = Some (flat_calls ?c)"
    using flat_made [where c = ?c, OF assms(1-4)] by blast
  have "am_test_flat_mem v te cap e fm s g = Inl OutOfBounds"
  proof (cases "unat (cap_functionCount cap) \<le> 9")
    case True
    then show ?thesis using assms(5,6) c(1) flat_in_table [OF c(2)] by (simp add: am_test_flat_mem_def c_flat_cap_def Let_def)
  next
    case False
    have "length (fresh (lv_junk v) (unat ?n)) = unat ?n" by simp
    then have "fill_local ?n (fresh (lv_junk v) (unat ?n)) = Inl OutOfBounds" using fill_local_part_word True False by blast
    then show ?thesis using False assms(5,6) c(1) flat_in_table [OF c(2)] by (simp add: am_test_flat_mem_def c_flat_cap_def Let_def)
  qed
  then show ?thesis using True by simp
next
  case False
  then obtain m where m: "unat (te_mem_size te) = 4 * m" by blast
  then have "0 < m" using assms(7) by (cases m) (auto simp: unat_eq_0)
  then show ?thesis using flat_test_passes [OF assms(1-6) m] False by simp
qed

lemma am_test_flat_overflow_witness:
  "am_test_flat_mem demo_env (demo_test 8) flat_caps demo_entry call_func (demo_lib (demo_kern (\<lambda>_. None))) (srand 1) = Inl OutOfBounds \<and>
   (\<exists>f s' g'. am_test_flat_mem demo_env (demo_test 8) (flat_caps\<lparr>cap_functionCount := 13\<rparr>) demo_entry call_func
      (demo_lib (demo_kern (\<lambda>_. None))) (srand 1) = Inr ([], f, s', g')) \<and>
   am_test_flat_mem demo_env (demo_test 9) (flat_caps\<lparr>cap_functionCount := 13\<rparr>) demo_entry call_func
      (demo_lib (demo_kern (\<lambda>_. None))) (srand 1) = Inl OutOfBounds"
proof -
  note t = am_test_flat_overflow [OF demo_entry_made, where v = demo_env and fm = call_func and s = "demo_lib (demo_kern (\<lambda>_. None))" and g = "srand 1"]
  have "cap_functionCount flat_caps = 7" "cap_typeSpecific flat_caps ! 0 = 15" by (simp_all add: flat_caps_def mk_cap_def ts_init_def)
  then show ?thesis using t [of flat_caps "demo_test 8"] t [of "flat_caps\<lparr>cap_functionCount := 13\<rparr>" "demo_test 8"]
    t [of "flat_caps\<lparr>cap_functionCount := 13\<rparr>" "demo_test 9"] by simp
qed

section \<open>Associative array\<close>

definition assca_words :: "'w libenv \<Rightarrow> mem_func \<Rightarrow> amlib_assca \<Rightarrow> bool" where
  "assca_words v f aa \<longleftrightarrow> lv_al v = (\<lambda>_. True) \<and> fn_calls f = Some (assca_calls zero_calls) \<and> assca_func f aa"

lemma assca_calls_simps:
  "fc_write_al (assca_calls c) = Some Fn_assca_write32_align" "fc_read_al (assca_calls c) = Some Fn_assca_read32_align"
  "fc_iter (assca_calls c) = Some Fn_assca_iter" "fc_release (assca_calls c) = Some Fn_assca_release" "fc_open (assca_calls c) = Some Fn_virtd_open"
  by (simp_all add: assca_calls_def)

interpretation assca_table: table_client "\<lambda>t aa. assca_words v (fst t) aa" "c_put v e" "c_get v e" for v e
proof (unfold_locales, goal_cases)
  case (1 t aa k d st aa')
  obtain f s where t: "t = (f, s)" by (cases t)
  have f: "lv_al v = (\<lambda>_. True)" "fn_calls f = Some (assca_calls zero_calls)" "assca_func f aa" using 1(1) by (auto simp: t assca_words_def)
  then obtain fd where fd: "fn_pVdF f = Live (FdAssca fd)" "as_data fd = Live aa" by (auto simp: assca_func_def)
  have "am_assca_write32_align (\<lambda>_. True) f (Some k) (Some d) = Inr (st, set_assca f fd aa', Some d)"
    using fd 1(2) by (simp add: am_assca_write32_align_def)
  moreover have "assca_words v (set_assca f fd aa') aa'" using f by (simp add: assca_words_def assca_func_def set_assca_def)
  ultimately show ?case using f by (simp add: t c_put_def obj_fn_def assca_calls_simps call_plain(1) [OF assca_plain(2)])
next
  case (2 t aa k val st b)
  obtain f s where t: "t = (f, s)" by (cases t)
  have f: "lv_al v = (\<lambda>_. True)" "fn_calls f = Some (assca_calls zero_calls)" "assca_func f aa" using 2(1) by (auto simp: t assca_words_def)
  then show ?case using 2 assca_func_read [OF f(3), of k "le_enc 4 val"]
    by (simp add: t c_get_def obj_fn_def assca_calls_simps call_plain(2) [OF assca_plain(1)])
qed

text \<open>A step of the iterator changes the iterators only.\<close>

lemma assca_inv_iters:
  "assca_inv aa es \<Longrightarrow> length its = MAX_ASSCA_ITERS \<Longrightarrow> assca_inv (aa\<lparr>aa_iters := its\<rparr>) es"
  by (auto simp: assca_inv_def assca_rep_def)

lemma am_assca_iter_keeps:
  assumes "am_assca_iter f p1 l1 p2 l2 h = Inr (st, f', b1, b2, h')" "assca_words v f aa" "assca_inv aa es"
  shows "\<exists>aa'. assca_words v f' aa' \<and> assca_inv aa' es"
proof -
  obtain fd where fd: "fn_pVdF f = Live (FdAssca fd)" "as_data fd = Live aa" using assms(2) by (auto simp: assca_words_def assca_func_def)
  have len: "length (aa_iters aa) = MAX_ASSCA_ITERS" using assms(3) by (auto simp: assca_inv_def assca_rep_def)
  have "f' = f \<or> (\<exists>i x. f' = set_assca f fd (aa\<lparr>aa_iters := (aa_iters aa)[i := x]\<rparr>))"
    using assms(1) fd by (auto simp: am_assca_iter_def Let_def res_simps split: if_splits option.splits)
  then show ?thesis
  proof
    assume "\<exists>i x. f' = set_assca f fd (aa\<lparr>aa_iters := (aa_iters aa)[i := x]\<rparr>)"
    then obtain i x where "f' = set_assca f fd (aa\<lparr>aa_iters := (aa_iters aa)[i := x]\<rparr>)" by blast
    then show ?thesis using assms(2) assca_inv_iters [OF assms(3), of "(aa_iters aa)[i := x]"] len
      by (intro exI [of _ "aa\<lparr>aa_iters := (aa_iters aa)[i := x]\<rparr>"]) (simp add: assca_words_def assca_func_def set_assca_def)
  qed (use assms(2,3) in auto)
qed

text \<open>What the buffers hold before a step does not matter.\<close>

lemma memcpy_same_length:
  assumes "memcpy b 0 src 0 n = Inr b'" "length c = length b"
  shows "\<exists>c'. memcpy c 0 src 0 n = Inr c' \<and> length c' = length b'"
  using assms by (auto simp: memcpy_def res_simps)

lemma am_assca_iter_any:
  assumes "am_assca_iter f (Some b1) l1 (Some b2) l2 h = Inr (st, f', p1, p2, h')" "length c1 = length b1" "length c2 = length b2" "fn_pVdF f \<noteq> Null"
  shows "\<exists>q1 q2. am_assca_iter f (Some c1) l1 (Some c2) l2 h = Inr (st, f', Some q1, Some q2, h') \<and> length q1 = length b1 \<and> length q2 = length b2"
proof -
  obtain fd where fd: "bindr (deref (fn_pVdF f)) fd_assca = Inr fd" using assms(1,4) by (auto simp: am_assca_iter_def res_simps)
  then obtain aa where aa: "deref (as_data fd) = Inr aa" using assms(1,4) by (auto simp: am_assca_iter_def res_simps)
  define li where "li = am_assca_get_iter aa h"
  define el where "el = (if h AND (ASSCA_ITER_FLAG_RESET OR ASSCA_ITER_FLAG_NEW) \<noteq> 0 then uh_head (aa_hash aa) else aa_iters aa ! unat (GET_ITER_IDX li))"
  note d = am_assca_iter_def Let_def fd aa bindr_Inr if_not_P [OF assms(4)] li_def [symmetric] el_def [symmetric]
  show ?thesis
  proof (cases "li \<noteq> ASSCA_ITER_INVALID \<and> el \<noteq> None")
    case True
    then obtain a where a: "el = Some a" by auto
    obtain e b1' b2' where e: "getel (uh_elems (aa_hash aa)) a = Inr e" "memcpy b1 0 (ue_key e @ ue_val e) 0 (unat (ucast l1 :: UINT32)) = Inr b1'"
      "memcpy b2 0 (ue_val e) 0 (unat (ucast l2 :: UINT32)) = Inr b2'"
      using assms(1) True unfolding d a by (auto simp: res_simps)
    obtain c1' c2' where "memcpy c1 0 (ue_key e @ ue_val e) 0 (unat (ucast l1 :: UINT32)) = Inr c1'" "length c1' = length b1'"
      "memcpy c2 0 (ue_val e) 0 (unat (ucast l2 :: UINT32)) = Inr c2'" "length c2' = length b2'"
      using memcpy_same_length [OF e(2) assms(2)] memcpy_same_length [OF e(3) assms(3)] by blast
    moreover have "length b1' = length b1" "length b2' = length b2" using e(2,3) by (auto simp: memcpy_def bindr_eq_Inr length_putb)
    ultimately show ?thesis using assms(1) True e unfolding d a by auto
  next
    case False
    then show ?thesis using assms unfolding d by (cases "li = ASSCA_ITER_INVALID") (auto split: option.splits)
  qed
qed

lemma iter_count_collect:
  assumes "iter_collect n f b1 32 b2 4 h = Inr (es, st)" "assca_words v f aa" "assca_inv aa as" "length c1 = length b1" "length c2 = length b2"
  shows "\<exists>f' aa'. iter_count n c1 c2 h k f = Inr (k + length es, f') \<and> assca_words v f' aa' \<and> assca_inv aa' as"
  using assms
proof (induction n arbitrary: f c1 c2 h es k aa)
  case (Suc n)
  have f: "fn_calls f = Some (assca_calls zero_calls)" "fn_pVdF f \<noteq> Null" using Suc.prems(2) by (auto simp: assca_words_def assca_func_def)
  obtain st1 f1 p1 p2 h1 where i: "am_assca_iter f (Some b1) 32 (Some b2) 4 h = Inr (st1, f1, p1, p2, h1)"
    using Suc.prems(1) by (auto simp: res_simps)
  obtain aa1 where aa1: "assca_words v f1 aa1" "assca_inv aa1 as" using am_assca_iter_keeps [OF i Suc.prems(2,3)] by blast
  obtain q1 q2 where q: "am_assca_iter f (Some c1) 32 (Some c2) 4 h = Inr (st1, f1, Some q1, Some q2, h1)" "length q1 = length b1" "length q2 = length b2"
    using am_assca_iter_any [OF i Suc.prems(4,5) f(2)] by blast
  show ?case
  proof (cases "st1 = AM_RET_GOOD")
    case True
    then obtain rest where r: "iter_collect n f1 b1 32 b2 4 h1 = Inr (rest, st)" "length es = Suc (length rest)"
      using Suc.prems(1) i by (auto simp: res_simps)
    obtain f' aa' where "iter_count n q1 q2 h1 (Suc k) f1 = Inr (Suc k + length rest, f')" "assca_words v f' aa'" "assca_inv aa' as"
      using Suc.IH [OF r(1) aa1 q(2,3)] by blast
    then show ?thesis using q(1) True r(2) f by (auto simp: obj_fn_def call_iter_def assca_calls_simps)
  next
    case False
    then have "es = []" using Suc.prems(1) i by simp
    then show ?thesis using q(1) False f aa1 by (simp add: obj_fn_def call_iter_def assca_calls_simps) blast
  qed
qed simp

lemma c_release_ok:
  assumes "assca_words v f aa" "assca_inv aa es"
  shows "\<exists>f'. call_release Fn_assca_release f = Inr (AM_RET_GOOD, f') \<and> fn_pVdF f' = Dangling"
proof -
  obtain fd where fd: "fn_pVdF f = Live (FdAssca fd)" "as_data fd = Live aa" using assms(1) by (auto simp: assca_words_def assca_func_def)
  obtain aa' where "am_assca_release_all aa = Inr aa'" using am_assca_release_all_ok [OF assms(2)] by blast
  then show ?thesis using fd by (simp add: call_release_def am_assca_release_def)
qed

definition c_assca_cap :: "mem_cap \<Rightarrow> mem_cap" where
  "c_assca_cap cap = cap\<lparr>cap_typeSpecific := (cap_typeSpecific cap)[TS_ASSCA_KEY_MAX_SIZE := 32, TS_ASSCA_DATA_MAX_SIZE := 4,
     TS_ASSCA_KEY_TYPE := TS_ASSCA_KEY_FIXED_WIDTH, TS_ASSCA_DATA_TYPE := TS_ASSCA_DATA_FIXED_WIDTH]\<rparr>"

lemma assca_created:
  assumes "virtd_made e" "lv_al v = (\<lambda>_. True)" "wf_cr (fn_crResp fm)" "cap_amType cap = AM_TYPE_ASSOC_ARRAY" "wf_cap cap"
  shows "\<exists>f s'. c_create v e (c_assca_cap cap) (fm\<lparr>fn_calls := Some zero_calls\<rparr>) s = Inr (None, f, s') \<and> assca_words v f (empty_assca 32 4)"
proof -
  let ?F = "fm\<lparr>fn_calls := Some zero_calls, fn_amCap := c_assca_cap cap, fn_pVdF := Live FdRaw\<rparr>"
  have F: "wf_cr (fn_crResp ?F)" "fn_calls ?F = Some zero_calls" "cap_amType (c_assca_cap cap) = AM_TYPE_ASSOC_ARRAY"
    using assms(3,4) by (simp_all add: c_assca_cap_def)
  have sz: "cap_typeSpecific (c_assca_cap cap) ! 0 = 32" "cap_typeSpecific (c_assca_cap cap) ! Suc 0 = 4"
    using assms(5) by (simp_all add: c_assca_cap_def wf_cap_def)
  obtain f where f: "virtd_assca (\<lambda>i. True) (vd_minor (lb_virtd s)) (c_assca_cap cap) ?F = Inr (AM_RET_GOOD, f)"
    "fn_calls f = Some (assca_calls zero_calls)" "assca_func f (empty_assca 32 4)"
    using virtd_assca_ok [of "\<lambda>i. True" ?F zero_calls "c_assca_cap cap" "vd_minor (lb_virtd s)"] F sz by auto
  have "am_virtd_create_function (lv_al v) (lv_junk v) (lb_virtd s) (Some (c_assca_cap cap)) (Some (fm\<lparr>fn_calls := Some zero_calls\<rparr>)) =
      Inr (AM_RET_GOOD, (lb_virtd s)\<lparr>vd_minor := vd_minor (lb_virtd s) + 1\<rparr>, f)"
    using assms(2) F(3) f(1) by (simp add: am_virtd_create_function_def Let_def)
  from c_create_virtd [OF assms(1) this f(2)] show ?thesis using f assms(2) by (auto simp: assca_words_def assca_calls_simps)
qed

text \<open>
  C11: The C test of the associative array passes over the in-process device for keys that are all different (with room in the table): no
  read misses, neither of the table used directly nor of the device, the iteration at the end visits as many items as there are keys
  and stops, and the device is released.
\<close>

theorem am_test_assca_iterates:
  assumes "virtd_made e" "lv_al v = (\<lambda>_. True)" "wf_cr (fn_crResp fm)" "cap_amType cap = AM_TYPE_ASSOC_ARRAY" "wf_cap cap"
    and "32 \<le> cap_typeSpecific cap ! 0" "4 \<le> cap_typeSpecific cap ! 1" "\<And>i. te_local te i" "\<And>i. te_keys te i" "0 < unat (te_mem_size te)"
    and keys: "am_get_test_keys te (te_mem_size te) 32 g = Inr (Some ks, g1)" "distinct ks"
      "room_for assca_room (amlib_assca_add_key_fixfix (\<lambda>_. True)) (empty_assca 32 4) (key_entries ks)"
  shows "\<exists>f s' g'. am_test_assc_array v te cap e fm s g = Inr ([Iterated (unat (te_mem_size te))], f, s', g') \<and> fn_pVdF f = Dangling"
proof -
  let ?n = "te_mem_size te"
  have k: "length ks = unat ?n" "\<forall>k\<in>set ks. length k = unat (32 :: UINT32)"
    using get_test_keys_ok [of te 32 ?n g, OF assms(9)] keys(1) by auto
  obtain f1 s1 where c: "c_create v e (c_assca_cap cap) (fm\<lparr>fn_calls := Some zero_calls\<rparr>) s = Inr (None, f1, s1)"
    "assca_words v f1 (empty_assca 32 4)" using assca_created [OF assms(1-5)] by blast
  obtain p aa where p: "key_writes ?n ks (local_add (\<lambda>_. True)) (Live (empty_assca 32 4)) = Inr p" "p = Live aa"
    "assca_inv aa (key_entries ks)" "aa_key_len aa = 32" "aa_data_len aa = 4"
    using local_table.keys_stored [OF refl keys(3) k(2,1)] by blast
  have c': "assca_words v (fst (f1, s1)) (empty_assca 32 4)" using c(2) by simp
  obtain t2 aa2 where t2: "key_writes ?n ks (c_put v e) (f1, s1) = Inr t2" "assca_words v (fst t2) aa2"
    "assca_inv aa2 (key_entries ks)" "aa_key_len aa2 = 32" "aa_data_len aa2 = 4" "aa_iters aa2 = replicate MAX_ASSCA_ITERS None"
    using assca_table.keys_stored [where v = v and e = e, OF c' keys(3) k(2,1)] by blast
  obtain v3 g3 where r3: "key_reads te ks local_get (te_val te) g1 p = Inr (v3, g3, [], p)"
    using local_table.keys_read [OF p(2-5) k(2) keys(2) k(1) assms(10)] p(2) by blast
  have "\<exists>v4 g4 t4. key_reads te ks (\<lambda>pK _. c_get v e pK 0) 0 g3 t2 = Inr (v4, g4, [], t4) \<and> assca_words v (fst t4) aa2"
    by (rule key_reads_ok [where I = "\<lambda>t. assca_words v (fst t) aa2", OF t2(2) assms(10)])
      (use assca_table.key_read [where v = v and e = e, OF _ t2(3-5) k(2) keys(2)] k(1) in simp)
  then obtain v4 g4 f4 s4 where r4: "key_reads te ks (\<lambda>pK _. c_get v e pK 0) 0 g3 t2 = Inr (v4, g4, [], f4, s4)" "assca_words v f4 aa2"
    by auto
  then obtain fd where fd: "fn_pVdF f4 = Live (FdAssca fd)" "as_data fd = Live aa2" by (auto simp: assca_words_def assca_func_def)
  let ?b1 = "fresh (lv_junk v) 32" and ?b2 = "le_enc 4 (te_val te)"
  have "iter_collect (Suc (unat ?n)) f4 ?b1 (aa_key_len aa2) ?b2 (aa_data_len aa2) ASSCA_ITER_FLAG_NEW = Inr (key_entries ks, AM_RET_ITER_DONE)"
    by (rule assca_iter_all [OF fd t2(3)]) (use t2(4-6) k(1) in \<open>simp_all add: eval_nat_numeral\<close>)
  then have col: "iter_collect (Suc (unat ?n)) f4 ?b1 32 ?b2 4 ASSCA_ITER_FLAG_NEW = Inr (key_entries ks, AM_RET_ITER_DONE)"
    using t2(4,5) by simp
  obtain f5 aa5 where f5: "iter_count (Suc (unat ?n)) ?b1 ?b2 ASSCA_ITER_FLAG_NEW 0 f4 = Inr (unat ?n, f5)" "assca_words v f5 aa5"
    "assca_inv aa5 (key_entries ks)"
    using iter_count_collect [OF col r4(2) t2(3) refl refl, of 0] k(1) by auto
  obtain f6 where f6: "call_release Fn_assca_release f5 = Inr (AM_RET_GOOD, f6)" "fn_pVdF f6 = Dangling"
    using c_release_ok [OF f5(2,3)] by blast
  have o: "obj_fn f4 = Inr (assca_calls zero_calls)" "obj_fn f5 = Inr (assca_calls zero_calls)"
    using r4(2) f5(2) by (simp_all add: assca_words_def obj_fn_def)
  have "am_test_assc_array v te cap e fm s g = Inr ([Iterated (unat ?n)], f6, s4, g4)"
    using assms(2,6-8) keys(1) c(1) p(1) t2(1) r3 r4(1) f5(1) f6(1) o
    by (simp add: am_test_assc_array_def c_assca_cap_def assca_calls_simps amlib_assca_init_empty Let_def del: iter_count.simps)
  then show ?thesis using f6(2) by blast
qed

lemma am_test_assca_iterates_witness:
  "\<exists>f s' g'. am_test_assc_array demo_env (demo_test 1) assca_caps demo_entry call_func (demo_lib (demo_kern (\<lambda>_. None))) (srand 1) =
      Inr ([Iterated 1], f, s', g') \<and> fn_pVdF f = Dangling"
proof -
  obtain ks g1 where ks: "am_get_test_keys (demo_test 1) 1 32 (srand 1) = Inr (Some ks, g1)" "distinct ks"
    "room_for assca_room (amlib_assca_add_key_fixfix (\<lambda>_. True)) (empty_assca 32 4) (key_entries ks)"
    using one_key by blast
  have cap: "wf_cap assca_caps" "cap_amType assca_caps = AM_TYPE_ASSOC_ARRAY"
    "cap_typeSpecific assca_caps ! 0 = 512" "cap_typeSpecific assca_caps ! 1 = 0x100000"
    by (simp_all add: assca_caps_def wf_cap_def mk_cap_def ts_init_def)
  have al: "lv_al demo_env = (\<lambda>_. True)" by (rule ext) simp
  show ?thesis
    using am_test_assca_iterates [OF demo_entry_made al _ cap(2,1), of call_func "demo_test 1" "srand 1" ks g1 "demo_lib (demo_kern (\<lambda>_. None))"] ks cap
    by simp
qed

section \<open>Linked list\<close>

definition list_words :: "mem_func \<Rightarrow> UINT32 list \<Rightarrow> bool" where
  "list_words f ws \<longleftrightarrow> (\<exists>c li. fn_calls f = Some c \<and> fc_open c = Some Fn_virtd_open \<and> fc_add_al c = Some Fn_list_add_fix \<and>
     fn_pVdF f = Live (FdList li) \<and> li_list_type li = AM_LIST_SLL \<and> li_data_size li = 4 \<and> li_elem_count li = 0 \<and>
     map it_data (li_head li) = map (le_enc 4) ws)"

definition c_list_cap :: "mem_cap \<Rightarrow> mem_cap" where
  "c_list_cap cap = cap\<lparr>cap_subType := AM_LIST_SLL,
     cap_typeSpecific := (cap_typeSpecific cap)[TS_LIST_DATA_MAX_SIZE := 4, TS_LIST_DATA_TYPE := TS_LIST_DATA_FIXED]\<rparr>"

lemma create_list_words:
  assumes "al 0" "fn_pfnOps f = Some zero_ops" "wf_cr (fn_crResp f)" "fn_calls f = Some c" "cap_amType cap = AM_TYPE_LIST" "wf_cap cap"
  shows "\<exists>f' ops li. am_create_list_device al f (c_list_cap cap) = Inr (AM_RET_GOOD, f') \<and> fn_calls f' = Some c \<and> fn_pfnOps f' = Some ops \<and>
    ops ! 18 = Some Fn_list_add_fix \<and> fn_pVdF f' = Live (FdList li) \<and> li_list_type li = AM_LIST_SLL \<and> li_data_size li = 4 \<and>
    li_elem_count li = 0 \<and> li_head li = []"
proof -
  have nm: "length (''am_list_'' @ fmt_04x (fn_handle f)) < 64" using length_fmt_04x [of "fn_handle f"] by simp
  define li where "li = \<lparr>li_list_type = AM_LIST_SLL, li_elem_count = 0, li_data_type = 1, li_data_size = 4, li_head = []\<rparr>"
  define g where "g = (set_cr_op AM_OP_ADD_ALIGN (op_word AM_KPACK AM_OP_WRITE_ALIGN) (set_op AM_OP_ADD_ALIGN Fn_list_add_fix
    (set_base_ops (upd_cr (\<lambda>r. r\<lparr>cr_data_size := 4\<rparr>) f))))\<lparr>fn_pVdF := Live (FdList li)\<rparr>"
  have wf: "wf_cr (fn_crResp g)" using assms(3) by (simp add: g_def wf_cr_def set_base_ops_def set_cr_op_def)
  have h: "fn_handle g = fn_handle f" by (simp add: g_def)
  obtain b where b: "set_name (''am_list_'' @ fmt_04x (fn_handle f)) g = Inr (upd_cr (\<lambda>r. r\<lparr>cr_am_name := b\<rparr>) g)"
    using set_name_fits [OF wf nm] by blast
  have "am_create_list_device al f (c_list_cap cap) =
      Inr (AM_RET_GOOD, upd_cr (\<lambda>r. r\<lparr>cr_devt := fn_handle g\<rparr>) (upd_cr (\<lambda>r. r\<lparr>cr_am_name := b\<rparr>) g))"
    using b assms(1,2,5,6) h by (simp add: am_create_list_device_def c_list_cap_def wf_cap_def Let_def g_def li_def)
  then show ?thesis
    using assms(2,4) by (simp add: g_def li_def set_base_ops_def set_cr_op_def upd_cr_def set_op_def zero_ops_def)
qed

lemma list_created:
  assumes "virtd_made e" "\<And>i. lv_al v i" "wf_cr (fn_crResp fm)" "cap_amType cap = AM_TYPE_LIST" "wf_cap cap"
    and "vd_reg (lb_virtd s) ! 4 = Some list_function_entry"
  shows "\<exists>f s'. c_create v e (c_list_cap cap) (fm\<lparr>fn_calls := Some zero_calls\<rparr>) s = Inr (None, f, s') \<and> list_words f []"
proof -
  let ?F = "fm\<lparr>fn_calls := Some zero_calls, fn_pfnOps := Some zero_ops\<rparr>"
  have F: "(\<lambda>i. lv_al v (Suc i)) 0" "fn_pfnOps ?F = Some zero_ops" "wf_cr (fn_crResp ?F)" "fn_calls ?F = Some zero_calls"
    using assms(2,3) by simp_all
  obtain f' ops li where f: "am_create_list_device (\<lambda>i. lv_al v (Suc i)) ?F (c_list_cap cap) = Inr (AM_RET_GOOD, f')" "fn_calls f' = Some zero_calls"
    "fn_pfnOps f' = Some ops" "ops ! 18 = Some Fn_list_add_fix" "fn_pVdF f' = Live (FdList li)" "li_list_type li = AM_LIST_SLL"
    "li_data_size li = 4" "li_elem_count li = 0" "li_head li = []"
    using create_list_words [where al = "\<lambda>i. lv_al v (Suc i)", OF F assms(4,5)] by blast
  let ?c = "zero_calls\<lparr>fc_open := Some Fn_virtd_open, fc_close := Some Fn_virtd_close, fc_add_al := Some Fn_list_add_fix\<rparr>"
  have ty: "cap_amType (c_list_cap cap) = AM_TYPE_LIST" using assms(4) by (simp add: c_list_cap_def)
  have "am_virtd_create_function (lv_al v) (lv_junk v) (lb_virtd s) (Some (c_list_cap cap)) (Some (fm\<lparr>fn_calls := Some zero_calls\<rparr>)) =
      Inr (AM_RET_GOOD, lb_virtd s, f'\<lparr>fn_calls := Some ?c\<rparr>)"
    using ty assms(2,6) f(1-4) by (simp add: am_virtd_create_function_def virtd_registered_def list_function_entry_def Let_def)
  from c_create_virtd [OF assms(1) this] show ?thesis using f(5-9) by (simp add: list_words_def)
qed

lemma list_add_word:
  assumes "list_words f ws" "lv_al v 0"
  shows "\<exists>f'. bindr (obj_fn f) (\<lambda>c. bindr (call_add_al v (fc_add_al c) f (le_enc 4 w)) (\<lambda>(_, f). Inr f)) = Inr f' \<and> list_words f' (w # ws)"
proof -
  obtain c li where f: "fn_calls f = Some c" "fc_open c = Some Fn_virtd_open" "fc_add_al c = Some Fn_list_add_fix" "fn_pVdF f = Live (FdList li)"
    "li_list_type li = AM_LIST_SLL" "li_data_size li = 4" "li_elem_count li = 0" "map it_data (li_head li) = map (le_enc 4) ws"
    using assms(1) by (auto simp: list_words_def)
  then show ?thesis
    using list_add_step [where al = "lv_al v", OF f(4) assms(2), of "le_enc 4 w"]
    by (simp add: obj_fn_def call_add_al_def list_words_def)
qed

text \<open>
  C29: The C test of the linked list leaves the in-process list holding the numbers 1 to \<open>n\<close>, in this order: it adds \<open>n\<close> first and every item
  goes in front. The count of elements in the list is 0 all the same, whatever was added.
\<close>

theorem am_test_list_stacks:
  assumes "virtd_made e" "\<And>i. lv_al v i" "wf_cr (fn_crResp fm)" "cap_amType cap = AM_TYPE_LIST" "wf_cap cap"
    and "vd_reg (lb_virtd s) ! 4 = Some list_function_entry" "\<And>i. te_local te i"
  shows "\<exists>f li s'. am_test_list v te cap e fm s g = Inr ([], f, s', g) \<and> fn_pVdF f = Live (FdList li) \<and>
    map it_data (li_head li) = map (le_enc 4) (counting (te_mem_size te)) \<and> li_elem_count li = 0"
proof -
  let ?n = "te_mem_size te"
  let ?body = "\<lambda>i f. bindr (obj_fn f) (\<lambda>c. bindr (call_add_al v (fc_add_al c) f (le_enc 4 (?n - i))) (\<lambda>(_, f). Inr f))"
  obtain f1 s1 where c: "c_create v e (c_list_cap cap) (fm\<lparr>fn_calls := Some zero_calls\<rparr>) s = Inr (None, f1, s1)" "list_words f1 []"
    using list_created [OF assms(1-6)] by blast
  have "\<exists>f2. up_to 0 ?n ?body f1 = Inr f2 \<and> list_words f2 (rev (take (unat ?n) (ramp ?n)))"
  proof (rule up_to_inv [where P = "\<lambda>k f. list_words f (rev (take k (ramp ?n)))"])
    show "list_words f1 (rev (take 0 (ramp ?n)))" using c(2) by simp
    fix k f assume k: "k < unat ?n" and "list_words f (rev (take k (ramp ?n)))"
    then show "\<exists>f'. ?body (of_nat k) f = Inr f' \<and> list_words f' (rev (take (Suc k) (ramp ?n)))"
      using list_add_word [where v = v and w = "?n - of_nat k", OF _ assms(2)] by (simp add: take_Suc_conv_app_nth)
  qed
  then obtain f2 where f2: "up_to 0 ?n ?body f1 = Inr f2" "list_words f2 (counting ?n)" by (auto simp: ramp_rev)
  have "am_test_list v te cap e fm s g = Inr ([], f2, s1, g)"
    using assms(7) c(1) f2(1) by (simp add: am_test_list_def c_list_cap_def Let_def)
  then show ?thesis using f2(2) by (auto simp: list_words_def)
qed

lemma am_test_list_stacks_witness:
  "\<exists>f li s'. am_test_list demo_env (demo_test 3) list_caps demo_entry call_func (demo_lib (demo_kern (\<lambda>_. None))) (srand 1) =
      Inr ([], f, s', srand 1) \<and> fn_pVdF f = Live (FdList li) \<and> map it_data (li_head li) = map (le_enc 4) [1 :: UINT32, 2, 3] \<and>
    li_elem_count li = 0"
proof -
  have "counting 3 = [1, 2, 3]" by (simp add: counting_def upt_rec)
  moreover have "wf_cap list_caps" "cap_amType list_caps = AM_TYPE_LIST" by (simp_all add: list_caps_def wf_cap_def mk_cap_def ts_init_def)
  ultimately show ?thesis
    using am_test_list_stacks [OF demo_entry_made, of demo_env call_func list_caps "demo_lib (demo_kern (\<lambda>_. None))" "demo_test 3" "srand 1"]
    by (simp add: full_registry_def)
qed

end
