(* ===== verification/AM_Win.thy ===== *)
theory AM_Win
  imports AM_Sock
begin

text \<open>
  The Windows port of sockets and threads, \<^verbatim>\<open>win/win_net.c\<close>. Of an entry it uses \<open>pTransport\<close> only. As in \<^verbatim>\<open>AM_Sock\<close> the answers of
  the system are parameters; its state are the sockets and thread handles that are open, the calls of \<^verbatim>\<open>WSAStartup\<close> that were not
  undone, the objects that were allocated and not freed, and the datagrams sent.
\<close>

section \<open>Sockets\<close>

text \<open>\<open>AM_WIN_SOCKET_T\<close>; the result of \<^verbatim>\<open>WSAStartup\<close> and the host entry are not read again.\<close>

record win_socket =
  ws_sd :: UINT64
  ws_server :: sockaddr
  ws_client :: sockaddr
  ws_server_length :: UINT32
  ws_port_number :: UINT16

text \<open>What the system answers: \<open>wy_host\<close> are the bytes of the first address of the host, if its name is known.\<close>

record win_sys =
  wy_WSAStartup :: UINT32
  wy_socket :: UINT64
  wy_host :: "bytes option"
  wy_bind :: UINT32
  wy_closesocket :: UINT32
  wy_CreateThread :: UINT64
  wy_TerminateThread :: bool

record winos =
  wo_sockets :: "UINT64 set"
  wo_started :: nat
  wo_objects :: nat
  wo_sent :: "(sockaddr \<times> bytes) list"
  wo_running :: "UINT64 set"
  wo_handles :: "UINT64 set"

abbreviation (input) INVALID_SOCKET :: UINT64 where "INVALID_SOCKET \<equiv> - 1"
abbreviation (input) sizeof_sockaddr_in :: UINT32 where "sizeof_sockaddr_in \<equiv> 16"

text \<open>\<open>None\<close>: the process exits. A failure leaves \<open>pTransport\<close> as it was.\<close>

definition win_net_establish_socket ::
  "win_sys \<Rightarrow> bool \<Rightarrow> win_socket ptr \<Rightarrow> UINT32 \<Rightarrow> UINT16 \<Rightarrow> winos \<Rightarrow> (AM_RETURN \<times> win_socket ptr \<times> winos) option res" where
  "win_net_establish_socket wy al pTransport ipaddr port os =
     (if \<not> al then Inr (Some (AM_RET_ALLOC_ERR, pTransport, os))
      else
        let os = os\<lparr>wo_objects := Suc (wo_objects os)\<rparr>; port_number = (if port = 0 then DEFAULT_AM_NET_PORT else 0) in
        if wy_WSAStartup wy \<noteq> 0 then Inr (Some (AM_RET_SOCKET_ERR, pTransport, os))
        else
          let sd = wy_socket wy in
          if sd = INVALID_SOCKET then Inr (Some (AM_RET_SOCKET_ERR, pTransport, os))
          else
            let os' = os\<lparr>wo_sockets := insert sd (wo_sockets os), wo_started := Suc (wo_started os)\<rparr> in
            (case wy_host wy of
               None \<Rightarrow> Inr None
             | Some h \<Rightarrow>
                 bindr (getb h 0 4) (\<lambda>a.
                 if wy_bind wy = - 1 then
                   Inr (Some (AM_RET_SOCKET_ERR, pTransport, os'\<lparr>wo_sockets := wo_sockets os' - {sd}, wo_started := wo_started os' - 1\<rparr>))
                 else
                   Inr (Some (AM_RET_GOOD,
                     Live \<lparr>ws_sd = sd, ws_server = \<lparr>sin_family = AF_INET, sin_port = htons port_number, sin_addr = htonl ipaddr\<rparr>,
                       ws_client = \<lparr>sin_family = AF_INET, sin_port = htons (if port = 0 then 1117 else port), sin_addr = le_dec a\<rparr>,
                       ws_server_length = sizeof_sockaddr_in, ws_port_number = port_number\<rparr>, os')))))"

definition win_net_recv_unsol_msg ::
  "win_socket ptr \<Rightarrow> UINT32 \<Rightarrow> bytes \<Rightarrow> sockaddr \<Rightarrow> bytes \<Rightarrow> UINT32 \<Rightarrow> UINT32 \<Rightarrow> sockaddr option \<Rightarrow>
   (AM_RETURN \<times> bytes \<times> UINT32 \<times> sockaddr option) res" where
  "win_net_recv_unsol_msg pTransport error d from pMsg len rcv_bytes pClient =
     bindr (AM_ASSERT (pTransport \<noteq> Null)) (\<lambda>_.
     bindr (AM_ASSERT (pClient \<noteq> None)) (\<lambda>_.
     bindr (deref pTransport) (\<lambda>_.
     if sint error < 0 then Inr (AM_RET_IO_ERR, pMsg, rcv_bytes, pClient)
     else bindr (putb pMsg 0 (take (unat len) d)) (\<lambda>pMsg. Inr (AM_RET_GOOD, pMsg, error, Some from)))))"

text \<open>The address of the sender takes the place of the server's.\<close>

definition win_net_recv_msg ::
  "win_socket ptr \<Rightarrow> UINT32 \<Rightarrow> bytes \<Rightarrow> sockaddr \<Rightarrow> bytes \<Rightarrow> UINT32 \<Rightarrow> UINT32 \<Rightarrow> (AM_RETURN \<times> win_socket ptr \<times> bytes \<times> UINT32) res" where
  "win_net_recv_msg pTransport error d from pMsg len rcv_bytes =
     bindr (AM_ASSERT (pTransport \<noteq> Null)) (\<lambda>_.
     bindr (deref pTransport) (\<lambda>pSocket.
     if sint error < 0 then Inr (AM_RET_IO_ERR, pTransport, pMsg, rcv_bytes)
     else
       bindr (putb pMsg 0 (take (unat len) d)) (\<lambda>pMsg.
       Inr (AM_RET_GOOD, Live (pSocket\<lparr>ws_server := from, ws_server_length := sizeof_sockaddr_in\<rparr>), pMsg, error))))"

text \<open>\<open>error\<close> is what \<^verbatim>\<open>sendto\<close> returns; a datagram is out unless that is negative; a null address it refuses.\<close>

definition win_net_send_resp_msg ::
  "win_socket ptr \<Rightarrow> UINT32 \<Rightarrow> bytes \<Rightarrow> sockaddr option \<Rightarrow> UINT32 \<Rightarrow> winos \<Rightarrow> (AM_RETURN \<times> winos) res" where
  "win_net_send_resp_msg pTransport error pMsg pvClient len os =
     bindr (AM_ASSERT (pTransport \<noteq> Null)) (\<lambda>_.
     bindr (deref pTransport) (\<lambda>_.
     if sint error < 0 then Inr (AM_RET_IO_ERR, os)
     else
       bindr (getb pMsg 0 (unat len)) (\<lambda>m.
       case pvClient of
         None \<Rightarrow> Inr (AM_RET_IO_ERR, os)
       | Some a \<Rightarrow> Inr (AM_RET_GOOD, os\<lparr>wo_sent := wo_sent os @ [(a, m)]\<rparr>))))"

definition win_int_send_msg :: "win_socket ptr \<Rightarrow> UINT32 \<Rightarrow> bytes \<Rightarrow> UINT32 \<Rightarrow> winos \<Rightarrow> (AM_RETURN \<times> winos) res" where
  "win_int_send_msg pTransport error pMsg len os =
     bindr (AM_ASSERT (pTransport \<noteq> Null)) (\<lambda>_.
     bindr (deref pTransport) (\<lambda>pSocket.
     if sint error < 0 then Inr (AM_RET_IO_ERR, os)
     else
       bindr (getb pMsg 0 (unat len)) (\<lambda>m.
       Inr (AM_RET_GOOD, os\<lparr>wo_sent := wo_sent os @ [(ws_server pSocket, m)]\<rparr>))))"

text \<open>The object is not freed, \<open>pTransport\<close> still points to it, and \<^verbatim>\<open>WSACleanup\<close> is not called.\<close>

definition win_net_destroy_socket :: "win_sys \<Rightarrow> win_socket ptr \<Rightarrow> winos \<Rightarrow> (AM_RETURN \<times> winos) res" where
  "win_net_destroy_socket wy pTransport os =
     (if pTransport = Null then Inr (AM_RET_GOOD, os)
      else
        bindr (deref pTransport) (\<lambda>pSocket.
        if wy_closesocket wy \<noteq> 0 then Inr (AM_RET_SOCKET_ERR, os)
        else Inr (AM_RET_GOOD, os\<lparr>wo_sockets := wo_sockets os - {ws_sd pSocket}\<rparr>)))"

definition win_net_alloc_client :: "bool \<Rightarrow> winos \<Rightarrow> bool \<times> winos" where
  "win_net_alloc_client al os = (al, if al then os\<lparr>wo_objects := Suc (wo_objects os)\<rparr> else os)"

section \<open>Threads\<close>

record ('a, 's) win_thread =
  wt_threadHandle :: UINT64
  wt_thread_fn :: "'a \<Rightarrow> 's \<Rightarrow> 's"
  wt_thread_arg :: 'a

definition amThreadProc :: "('a, 's) win_thread ptr \<Rightarrow> 's \<Rightarrow> (UINT32 \<times> 's) res" where
  "amThreadProc lpParameter s =
     bindr (AM_ASSERT (lpParameter \<noteq> Null)) (\<lambda>_.
     bindr (deref lpParameter) (\<lambda>pThread. Inr (0, wt_thread_fn pThread (wt_thread_arg pThread) s)))"

definition win_thread_create :: "win_sys \<Rightarrow> bool \<Rightarrow> ('a \<Rightarrow> 's \<Rightarrow> 's) \<Rightarrow> 'a \<Rightarrow> winos \<Rightarrow> ('a, 's) win_thread ptr \<times> winos" where
  "win_thread_create wy al thread_fn arg os =
     (if al then
        if wy_CreateThread wy = 0 then (Null, os)
        else
          (Live \<lparr>wt_threadHandle = wy_CreateThread wy, wt_thread_fn = thread_fn, wt_thread_arg = arg\<rparr>,
           os\<lparr>wo_objects := Suc (wo_objects os), wo_running := insert (wy_CreateThread wy) (wo_running os),
              wo_handles := insert (wy_CreateThread wy) (wo_handles os)\<rparr>)
      else (Null, os))"

definition win_thread_destroy :: "win_sys \<Rightarrow> ('a, 's) win_thread ptr \<Rightarrow> winos \<Rightarrow> (AM_RETURN \<times> winos) res" where
  "win_thread_destroy wy pvThread os =
     (if pvThread = Null then Inr (AM_RET_GOOD, os)
      else
        bindr (deref pvThread) (\<lambda>pThread.
        let h = wt_threadHandle pThread in
        Inr (AM_RET_GOOD,
          if wy_TerminateThread wy then os\<lparr>wo_running := wo_running os - {h}, wo_handles := wo_handles os - {h}\<rparr> else os)))"

section \<open>What stays open\<close>

text \<open>
  Making a socket fails without leaving a socket or a start of Winsock behind, and only an object, which nothing frees. A socket that
  was made is closed with its entry, which undoes neither the start of Winsock nor the allocation.
\<close>

lemma win_entry_resources:
  assumes "win_net_establish_socket wy al p ipaddr port os = Inr (Some (st, p', os'))" "wy_socket wy \<notin> wo_sockets os"
  shows "if st = AM_RET_GOOD
    then wo_sockets os' = insert (wy_socket wy) (wo_sockets os) \<and>
      (wy_closesocket wy = 0 \<longrightarrow>
        win_net_destroy_socket wy p' os' = Inr (AM_RET_GOOD, os\<lparr>wo_started := Suc (wo_started os), wo_objects := Suc (wo_objects os)\<rparr>))
    else p' = p \<and> os' = os\<lparr>wo_objects := wo_objects os + (if al then 1 else 0)\<rparr>"
  using assms
  by (auto simp: win_net_establish_socket_def win_net_destroy_socket_def Let_def res_simps split: if_splits option.splits)

section \<open>Where requests go\<close>

text \<open>What a client does with its socket, each step with the answer of the system: a request sent, a datagram received from somewhere.\<close>

datatype win_event = Win_send UINT32 bytes | Win_recv UINT32 sockaddr bytes

fun win_run :: "win_event list \<Rightarrow> win_socket ptr \<Rightarrow> winos \<Rightarrow> (win_socket ptr \<times> winos) res" where
  "win_run [] p os = Inr (p, os)"
| "win_run (Win_send e m # es) p os = bindr (win_int_send_msg p e m (of_nat (length m)) os) (\<lambda>(_, os). win_run es p os)"
| "win_run (Win_recv e src d # es) p os =
     bindr (win_net_recv_msg p e d src (replicate 512 0) 512 0) (\<lambda>(_, p, _). win_run es p os)"

fun requests_to :: "sockaddr \<Rightarrow> win_event list \<Rightarrow> (sockaddr \<times> bytes) list" where
  "requests_to a [] = []"
| "requests_to a (Win_send e m # es) = (if sint e < 0 then requests_to a es else (a, m) # requests_to a es)"
| "requests_to a (Win_recv e src d # es) = requests_to (if sint e < 0 then a else src) es"

definition win_event_ok :: "win_event \<Rightarrow> bool" where
  "win_event_ok ev = (case ev of Win_send e m \<Rightarrow> length m < 2 ^ 32 | Win_recv e src d \<Rightarrow> True)"

lemma win_send_ok:
  assumes "length m < 2 ^ 32"
  shows "win_int_send_msg (Live so) e m (of_nat (length m)) os =
    (if sint e < 0 then Inr (AM_RET_IO_ERR, os) else Inr (AM_RET_GOOD, os\<lparr>wo_sent := wo_sent os @ [(ws_server so, m)]\<rparr>))"
proof -
  have "unat (of_nat (length m) :: UINT32) = length m" using assms by (simp add: unat_of_nat)
  then show ?thesis by (simp add: win_int_send_msg_def getb_def)
qed

lemma win_recv_ok:
  "\<exists>st b n. win_net_recv_msg (Live so) e d src (replicate 512 0) 512 0 =
    Inr (st, Live (if sint e < 0 then so else so\<lparr>ws_server := src, ws_server_length := sizeof_sockaddr_in\<rparr>), b, n)"
  by (simp add: win_net_recv_msg_def putb_def)

text \<open>
  C37: A Windows client sends each request to the address the last datagram came from, not to the target it was opened for: over any
  sequence of requests and datagrams, what is sent goes to the sender of the last datagram received before it, and to the target only
  as long as there was none.
\<close>

theorem win_follows_sender:
  assumes "win_net_establish_socket wy al p ipaddr 0 os = Inr (Some (AM_RET_GOOD, p', os'))" "\<forall>ev\<in>set es. win_event_ok ev"
  shows "\<exists>p'' os''. win_run es p' os' = Inr (p'', os'') \<and>
    wo_sent os'' = wo_sent os @ requests_to \<lparr>sin_family = AF_INET, sin_port = htons DEFAULT_AM_NET_PORT, sin_addr = htonl ipaddr\<rparr> es"
proof -
  have run: "\<exists>p'' os''. win_run es (Live so) os = Inr (p'', os'') \<and> wo_sent os'' = wo_sent os @ requests_to (ws_server so) es"
    if "\<forall>ev\<in>set es. win_event_ok ev" for so es os
    using that
  proof (induction es arbitrary: so os)
    case (Cons ev es)
    show ?case
    proof (cases ev)
      case (Win_send e m)
      have ok: "\<forall>ev\<in>set es. win_event_ok ev" "length m < 2 ^ 32" using Cons.prems Win_send by (simp_all add: win_event_ok_def)
      note IH = Cons.IH [OF ok(1), where so = so]
      show ?thesis using IH [of os] IH [of "os\<lparr>wo_sent := wo_sent os @ [(ws_server so, m)]\<rparr>"] Win_send by (simp add: win_send_ok [OF ok(2)])
    next
      case (Win_recv e src d)
      have "\<forall>ev\<in>set es. win_event_ok ev" using Cons.prems by simp
      note IH = Cons.IH [OF this, where os = os]
      obtain st b n where "win_net_recv_msg (Live so) e d src (replicate 512 0) 512 0 =
          Inr (st, Live (if sint e < 0 then so else so\<lparr>ws_server := src, ws_server_length := sizeof_sockaddr_in\<rparr>), b, n)"
        using win_recv_ok by blast
      then show ?thesis using IH [of so] IH [of "so\<lparr>ws_server := src, ws_server_length := sizeof_sockaddr_in\<rparr>"] Win_recv by simp
    qed
  qed simp
  obtain so where "p' = Live so" "wo_sent os' = wo_sent os"
    "ws_server so = \<lparr>sin_family = AF_INET, sin_port = htons DEFAULT_AM_NET_PORT, sin_addr = htonl ipaddr\<rparr>"
    using assms(1) by (auto simp: win_net_establish_socket_def Let_def res_simps split: if_splits option.splits)
  then show ?thesis using run [OF assms(2), of so os'] by simp
qed

definition demo_win :: win_sys where
  "demo_win = \<lparr>wy_WSAStartup = 0, wy_socket = 4, wy_host = Some [10, 0, 0, 1], wy_bind = 0, wy_closesocket = 0, wy_CreateThread = 8,
     wy_TerminateThread = True\<rparr>"

definition demo_winos :: winos where
  "demo_winos = \<lparr>wo_sockets = {}, wo_started = 0, wo_objects = 0, wo_sent = [], wo_running = {}, wo_handles = {}\<rparr>"

lemma win_follows_sender_witness:
  "\<exists>p os p' os'. win_net_establish_socket demo_win True Null 0x7F000001 0 demo_winos = Inr (Some (AM_RET_GOOD, p, os)) \<and>
    win_run [Win_send 1 [1], Win_recv 1 \<lparr>sin_family = 2, sin_port = 9, sin_addr = 9\<rparr> [7], Win_send 1 [2]] p os = Inr (p', os') \<and>
    wo_sent os' = [(\<lparr>sin_family = 2, sin_port = htons 4950, sin_addr = htonl 0x7F000001\<rparr>, [1]),
      (\<lparr>sin_family = 2, sin_port = 9, sin_addr = 9\<rparr>, [2])]"
proof -
  obtain p os where e: "win_net_establish_socket demo_win True Null 0x7F000001 0 demo_winos = Inr (Some (AM_RET_GOOD, p, os))"
    by (simp add: win_net_establish_socket_def demo_win_def getb_def)
  show ?thesis
    using win_follows_sender [OF e, of "[Win_send 1 [1], Win_recv 1 \<lparr>sin_family = 2, sin_port = 9, sin_addr = 9\<rparr> [7], Win_send 1 [2]]"] e
    by (auto simp: win_event_ok_def demo_winos_def)
qed

end
