(* ===== verification/Spec2Isabelle.thy ===== *)
theory Spec2Isabelle
  imports
    UT_Hash_Props
    AM_Caps_Props
    AM_Stata_Sort
    AM_Assca_Props
    AM_List
    AM_Registry
    AM_Pack_Props
    AM_Queue_Props
    AM_Targ_Props
    AM_Targ_Types
    AM_Device_Props
    AM_Remote
    AM_Session
    AM_Kmap_Steps
    AM_Keyed_Session
    AM_Kunload
    AM_Ksock
    AM_Targ_Start
    AM_Cpp_Kernel
    AM_Test_Props
    AM_Win
begin

text \<open>
  A verification development for appmem, a library of data structures served by a device: by the
  process itself (\<^verbatim>\<open>virtd\<close>), by a target over the network or by a kernel module.

  \<^bold>\<open>The program.\<close> A client (\<^verbatim>\<open>appmemlib/\<close>) opens an entry, asks for its capabilities and creates function
  objects (\<open>AM_MEM_FUNCTION_T\<close>): a flat memory, a static array, an associative array or a list. It then
  uses them through the calls of the object. In process the calls are the device operators. Over the
  network they fill a request packet of at most 512 bytes, send it as a datagram and wait for the
  response. The target (\<^verbatim>\<open>am_targ/am_target.c\<close>) receives datagrams into a queue in one thread and serves
  them in another: the function id of the packet names a slot of the function table, the operator code
  names an entry of that function's operator table, and the packet type says how the entry is called. The
  kernel module (\<^verbatim>\<open>appmemk/appmemk.c\<close>) makes a device file for every function. The client
  (\<^verbatim>\<open>appmemlib/appmem_kd.c\<close>) sends it commands with \<^verbatim>\<open>ioctl\<close>, or maps a page of it, puts packets there and moves
  an index; a thread of the module polls the index and runs the dispatcher of the target on the packet.

  \<^bold>\<open>Theories and code.\<close>
  \<^item> \<^verbatim>\<open>AM_Prelude\<close>: faults, the result type \<open>fault + 'a\<close> with its bind, pointers to heap objects (null, live,
    dangling), little-endian byte blocks with bounds-checked reads and writes, \<open>sprintf\<close>.
  \<^item> \<^verbatim>\<open>AM_Types\<close>: \<^verbatim>\<open>inc/appmemlib.h\<close> and \<^verbatim>\<open>inc/appmemd_ioctl.h\<close>, the constants and the structures of the
    protocol with their byte layout.
  \<^item> \<^verbatim>\<open>UT_Hash\<close>, \<^verbatim>\<open>UT_Hash_Inv\<close>, \<^verbatim>\<open>UT_Hash_Ops\<close>, \<^verbatim>\<open>UT_Hash_Props\<close>: the macros of \<^verbatim>\<open>inc/ut-hash/uthash.h\<close> the
    program uses, over a store of elements; the invariant of the two doubly linked lists and of the
    bucket counts; that every macro keeps it; what lookups, insertions and deletions do.
  \<^item> \<^verbatim>\<open>AM_Func\<close>: function objects. A function pointer is a constructor of \<open>fn_ptr\<close>, an entry of the operator
    table remembers the type it is stored under, the data union is a datatype.
  \<^item> \<^verbatim>\<open>AM_Device\<close>: the interface of the devices with aligned operators (locales \<open>aligned_device\<close> and the
    memory law proved from it), interpreted in \<^verbatim>\<open>AM_Flat\<close>, \<^verbatim>\<open>AM_Stata\<close> and, for the same devices behind
    packets, \<^verbatim>\<open>AM_Remote\<close>. \<^verbatim>\<open>AM_Device_Props\<close> holds what follows for them.
  \<^item> \<^verbatim>\<open>AM_Flat\<close>, \<^verbatim>\<open>AM_Stata\<close> and \<^verbatim>\<open>AM_Stata_Sort\<close>, \<^verbatim>\<open>AM_Assca\<close> and \<^verbatim>\<open>AM_Assca_Props\<close>, \<^verbatim>\<open>AM_List\<close>: the devices
    of \<^verbatim>\<open>appmemlib/am_flat.c\<close>, \<^verbatim>\<open>am_stata.c\<close>, \<^verbatim>\<open>am_assca.c\<close> and \<^verbatim>\<open>funcs/am_list.c\<close>.
  \<^item> \<^verbatim>\<open>AM_Registry\<close>: the registration of device functions. \<^verbatim>\<open>AM_Virtd\<close>: \<^verbatim>\<open>appmemlib/appmem_virtd.c\<close>.
    \<^verbatim>\<open>AM_Caps_Props\<close>: capabilities and operator words. That the codecs of the structures invert each other is in \<^verbatim>\<open>AM_Types\<close>.
  \<^item> \<^verbatim>\<open>AM_Pack_Client\<close>, \<^verbatim>\<open>AM_Pack\<close>, \<^verbatim>\<open>AM_Packet\<close>, \<^verbatim>\<open>AM_Pack_Props\<close>: \<^verbatim>\<open>appmemlib/appmem_pack.c\<close>, the client
    operators over any accessor and the dispatcher of the target.
  \<^item> \<^verbatim>\<open>AM_Targ_Ops\<close>, \<^verbatim>\<open>AM_Targ_Props\<close>, \<^verbatim>\<open>AM_Queue\<close>, \<^verbatim>\<open>AM_Queue_Props\<close>, \<^verbatim>\<open>AM_Target\<close>: \<^verbatim>\<open>am_targ/am_target.c\<close>,
    the function table and the operators of the base function, the receive queue, the process. The
    queue is refined by a list of waiting packets (locale \<open>fifo\<close>). \<^verbatim>\<open>AM_Targ_Types\<close>: the operators a target installs and the members
    of the data union they work on are well typed in every state that requests lead to.
  \<^item> \<^verbatim>\<open>AM_Net\<close>: \<^verbatim>\<open>appmemlib/appmem_net.c\<close> over a socket that is a parameter. \<^verbatim>\<open>AM_Remote\<close> and \<^verbatim>\<open>AM_Session\<close>
    compose client, socket and target: the socket \<open>loop_sock\<close> delivers every datagram, lets the target
    serve it and hands back what it sent.

  \<^item> \<^verbatim>\<open>AM_Sock\<close>: entries of the library, \<^verbatim>\<open>appmemlib/am_linux_net.c\<close> over the answers of the system calls, and making and closing
    an entry over the network. \<^verbatim>\<open>AM_Win\<close>: the same functions of \<^verbatim>\<open>win/win_net.c\<close>, and where they differ. \<^verbatim>\<open>AM_Entry\<close>: \<^verbatim>\<open>appmemlib/appmemlib.c\<close>, the way from a name to an entry and the texts of
    capabilities. \<^verbatim>\<open>AM_Entry_Props\<close>: addresses read back as printed, connecting and closing, and when a text stays in its buffer.
  \<^item> \<^verbatim>\<open>AM_Link\<close>: aligned calls over any packet transport. The locale \<open>packet_device\<close> is a device behind a
    dispatcher, \<open>pack_link\<close> a transport that hands requests to it, \<open>linked_device\<close> both; the socket and the
    command page are interpretations, and both are aligned devices by \<open>sublocale\<close>. A link hands back error packets too.
  \<^item> \<^verbatim>\<open>AM_Kernel\<close>: \<^verbatim>\<open>appmemk/appmemk.c\<close> but its thread: the state \<open>kern\<close> holds the devices by minor number, the
    command buffer and the memory of the process. \<^verbatim>\<open>AM_Kernel_Props\<close>: user memory, and the locale \<open>kernel_device\<close> with
    its two devices. \<^verbatim>\<open>AM_Kernel_Inv\<close>, \<^verbatim>\<open>AM_Kernel_Life\<close>: the invariant \<open>kern_inv\<close>, runs from loading to unloading.
  \<^item> \<^verbatim>\<open>AM_Kmap\<close>: the command page, the thread \<open>k_thread_step\<close>, the transport and \<open>am_kd_open\<close>. \<^verbatim>\<open>AM_Kmap_Props\<close>: opening
    and the transport as a \<open>pack_link\<close>. \<^verbatim>\<open>AM_Kmap_Steps\<close>: client and thread as interleaved single stores, the
    relation \<open>kp_step\<close>, against the sequential server \<open>kserve\<close>.
  \<^item> \<^verbatim>\<open>AM_Kchar\<close>: the character devices of the module and the way from a device number over the mapping of its file to its page;
    every device has a file that leads to it (\<open>files_ok\<close>) as long as \<^verbatim>\<open>cdev_add\<close> succeeds and minor numbers have 20 bits.
    \<^verbatim>\<open>AM_Kunload\<close>: the threads of all mappings and \<open>appmemd_exit\<close> with them; three steps are enough for a thread to return once
    \<open>isMapped\<close> is cleared. \<^verbatim>\<open>AM_Ksock\<close>: \<^verbatim>\<open>appmemk/am_k_sock.c\<close> over the answers of the socket layer, which nothing calls.
  \<^item> \<^verbatim>\<open>AM_Targ_Start\<close>: the start of the target with its socket, queue and thread, each of which may fail, and \<^verbatim>\<open>main\<close>.
  \<^item> \<^verbatim>\<open>AM_Kd\<close>: the calls of \<^verbatim>\<open>appmemlib/appmem_kd.c\<close> through \<^verbatim>\<open>ioctl\<close>. \<^verbatim>\<open>AM_Kd_Session\<close>: module and client composed, from
    loading the module over creating and opening a device to its use, both ways.
  \<^item> \<^verbatim>\<open>AM_Keyed\<close>: the associative array behind packets. Runs of inserts and lookups (\<open>kop\<close>), what a finite map answers to them
    (\<open>map_run\<close>), what the dispatcher answers to them, the client over any \<open>pack_link\<close>, error packets included, and the locale
    \<open>array_link\<close>: a store that follows the array step by step, interpreted on the network and on the command page.
    \<^verbatim>\<open>AM_Keyed_Session\<close>: the sessions over both from the creation of the array on, and what sizes past a packet do.
  \<^item> \<^verbatim>\<open>AM_Cpp\<close>: the classes of \<^verbatim>\<open>appmemlib/appmemcpp.cpp\<close> and the program \<^verbatim>\<open>api.cpp\<close>. An object is a record, a derived class an
    extension of \<open>cappmem\<close>; the state \<open>lib\<close> holds the three transports, \<open>libenv\<close> what they depend on. \<^verbatim>\<open>AM_Cpp_Props\<close>: objects as
    devices (\<open>aligned_device\<close> again, locale \<open>local_device\<close>) and arrays of words. \<^verbatim>\<open>AM_Cpp_Classes\<close>: what the three derived classes
    do in process; an associative array object is a \<open>keyed_store\<close>. \<^verbatim>\<open>AM_Cpp_Kernel\<close>: objects over the module, their capabilities and
    creation through \<^verbatim>\<open>ioctl\<close> and their use through the page, again an aligned device; the same program over both transports.
  \<^item> \<^verbatim>\<open>AM_Cpp_Test\<close>, \<^verbatim>\<open>AM_Test\<close>: the test programs \<^verbatim>\<open>amcpptest.cpp\<close> and \<^verbatim>\<open>appmem_test.c\<close>. Every loop of a test is over a store and a
    read it is given, so that the local buffer and the device go through the same code; what a test finds wrong is its list of
    reports. \<^verbatim>\<open>AM_Test_Loops\<close>: what the loops do to any memory of words or keys (locales \<open>word_client\<close>, \<open>table_client\<close>).
    \<^verbatim>\<open>AM_Cpp_Test_Props\<close>, \<^verbatim>\<open>AM_Test_Props\<close>: the objects and the calls of a device as such memories, and the tests pass.

  \<^bold>\<open>Conventions.\<close> A result \<open>Inl e\<close> is a run the C standard gives no meaning to (or that does not return),
  with \<open>e\<close> saying why: out of bounds, null, freed or uninitialised memory, a failed assertion, a call
  through a pointer of another type, a wait that does not end. \<open>Inr\<close> carries the status the code returns
  and the new state, so that error returns are ordinary results. \<open>al i\<close> says whether the \<open>i\<close>-th
  allocation of an operation succeeds; \<open>junk\<close> is what memory holds that is not initialised. Integers are
  words of the width the code has. The layout is that of x86-64.

  \<^bold>\<open>Bounds and fuel.\<close> Loops that follow lists run on fuel that the operations take from the number of
  elements in the store; the invariant shows it suffices, so no property has fuel in it except
  \<open>am_targ_check_cmd_queue\<close>, whose loop may run as long as packets arrive, and \<open>iter_collect\<close>, where more
  passes than entries are enough. Other loops terminate by a measure. The client of the command page looks 15 times for the start values, as the code does,
  and the thread takes \<open>sch i\<close> steps during the \<open>i\<close>-th sleep; its wait for the state runs on fuel, of which two are
  enough. The wait for an answer lets the thread take two steps, which is what a request needs. The associative array is a map
  while its table has room (\<open>room_for\<close>, \<open>assca_room\<close>: the doubling of the buckets wraps around at \<open>2 ^ 32\<close>); an insertion doubles
  them once at most, so that the first 26 always have it (\<open>room_for_few\<close>).

  \<^bold>\<open>Not modelled.\<close> Printing to the console and the times the test programs take, the Windows timer,
  the macros of ut-hash the program does not use. The receive and the serve thread of the target interleave as whole
  steps: the code has no lock, so that finer interleavings of the two index variables are outside the
  model. Of the kernel module: what happens inside the kernel's own
  tables of devices and mappings, and several processes in one command at a time (the code has no lock on the command buffer). Stores to the command page
  are taken as seen in program order. A wait in \<open>am_kpack_get_free_req\<close> that does not end appears as the null
  transaction, which the packet client asserts against. The vendored containers and the counter of the Windows
  timer have no logic of the program in them.
\<close>

end
